(* ===== verification/Prelude.thy ===== *)
theory Prelude
  imports Main "HOL-Library.Multiset"
begin

text \<open>
  What every component shares: the JavaScript string operations the sources use
  (\<open>trim\<close>, \<open>toLowerCase\<close>, \<open>split\<close>, \<open>join\<close>, \<open>startsWith\<close>, \<open>replace\<close>), the stable
  comparator sort behind \<open>Array.prototype.sort\<close>, insertion-ordered \<open>Map\<close>s as association
  lists, results as sums, and the collections of facts that the component proofs feed to
  the simplifier.

  A string is a list of code units below 256 (Latin-1); on that range \<open>trim\<close> and
  \<open>toLowerCase\<close> below are JavaScript's own.
\<close>

named_theorems path_simps "facts about path segments"
named_theorems keeps "an operation keeps an invariant"

section \<open>Results\<close>

text \<open>A raised error is \<open>Inl\<close>, a returned value is \<open>Inr\<close>.\<close>

type_synonym ('e, 'a) result = "'e + 'a"

definition rbind :: "('e, 'a) result \<Rightarrow> ('a \<Rightarrow> ('e, 'b) result) \<Rightarrow> ('e, 'b) result" where
  "rbind m f = (case m of Inl e \<Rightarrow> Inl e | Inr x \<Rightarrow> f x)"

lemma rbind_simps [simp]:
  "rbind (Inl e) f = Inl e"
  "rbind (Inr x) f = f x"
  by (simp_all add: rbind_def)

lemma rbind_eq_Inr [simp]: "rbind m f = Inr y \<longleftrightarrow> (\<exists>x. m = Inr x \<and> f x = Inr y)"
  by (cases m) auto

lemma rbind_eq_Inl: "rbind m f = Inl e \<longleftrightarrow> m = Inl e \<or> (\<exists>x. m = Inr x \<and> f x = Inl e)"
  by (cases m) auto

text \<open>\<open>xs.map(f)\<close> with a function that may throw.\<close>

fun map_result :: "('a \<Rightarrow> ('e, 'b) result) \<Rightarrow> 'a list \<Rightarrow> ('e, 'b list) result" where
  "map_result f [] = Inr []"
| "map_result f (x # xs) = rbind (f x) (\<lambda>y. rbind (map_result f xs) (\<lambda>ys. Inr (y # ys)))"

lemma map_result_Inr: "map_result f xs = Inr ys \<longleftrightarrow> list_all2 (\<lambda>x y. f x = Inr y) xs ys"
  by (induction xs arbitrary: ys) (auto simp: list_all2_Cons1)

lemma map_result_map:
  assumes "map_result f xs = Inr ys" "\<And>x y. x \<in> set xs \<Longrightarrow> f x = Inr y \<Longrightarrow> g y = h x"
  shows "map g ys = map h xs"
  using assms by (induction xs arbitrary: ys) auto

lemma map_result_mem: "map_result f xs = Inr ys \<Longrightarrow> y \<in> set ys \<Longrightarrow> \<exists>x \<in> set xs. f x = Inr y"
  by (induction xs arbitrary: ys) auto

section \<open>JavaScript strings\<close>

definition js_ws :: "char \<Rightarrow> bool" where
  "js_ws c \<longleftrightarrow> c \<in> {CHR 0x09, CHR 0x0A, CHR 0x0B, CHR 0x0C, CHR 0x0D, CHR 0x20, CHR 0xA0}"

definition trim :: "string \<Rightarrow> string" where
  "trim s = rev (dropWhile js_ws (rev (dropWhile js_ws s)))"

text \<open>Letters with a lower case: A to Z, and 0xC0 to 0xDE without the sign 0xD7.\<close>

definition to_lower_char :: "char \<Rightarrow> char" where
  "to_lower_char c =
     (let n = (of_char c :: nat) in
      if (65 \<le> n \<and> n \<le> 90) \<or> (192 \<le> n \<and> n \<le> 222 \<and> n \<noteq> 215) then char_of (n + 32) else c)"

definition to_lower :: "string \<Rightarrow> string" where
  "to_lower s = map to_lower_char s"

text \<open>\<open>toUpperCase\<close> on ASCII letters, all that the names it is used on have.\<close>

definition to_upper :: "string \<Rightarrow> string" where
  "to_upper s = map (\<lambda>c. let n = (of_char c :: nat) in if 97 \<le> n \<and> n \<le> 122 then char_of (n - 32) else c) s"

fun split_on :: "char \<Rightarrow> string \<Rightarrow> string list" where
  "split_on c [] = [[]]"
| "split_on c (x # xs) =
     (if x = c then [] # split_on c xs
      else (case split_on c xs of [] \<Rightarrow> [[x]] | y # ys \<Rightarrow> (x # y) # ys))"

fun join_with :: "string \<Rightarrow> string list \<Rightarrow> string" where
  "join_with sep [] = []"
| "join_with sep [x] = x"
| "join_with sep (x # y # ys) = x @ sep @ join_with sep (y # ys)"

definition starts_with :: "string \<Rightarrow> string \<Rightarrow> bool" where
  "starts_with s p \<longleftrightarrow> take (length p) s = p"

definition has_substring :: "string \<Rightarrow> string \<Rightarrow> bool" where
  "has_substring s p \<longleftrightarrow> list_ex (\<lambda>i. starts_with (drop i s) p) [0..<Suc (length s)]"

text \<open>A string that JavaScript takes for true: neither \<open>null\<close> nor empty.\<close>

definition present :: "string option \<Rightarrow> string option" where
  "present value = (case value of None \<Rightarrow> None | Some v \<Rightarrow> if v = [] then None else Some v)"

definition replace_char :: "char \<Rightarrow> char \<Rightarrow> string \<Rightarrow> string" where
  "replace_char a b s = map (\<lambda>c. if c = a then b else c) s"

text \<open>\<open>filter(Boolean)\<close> on an array of strings drops the empty ones.\<close>

definition nonempty :: "string list \<Rightarrow> string list" where
  "nonempty xs = filter (\<lambda>x. x \<noteq> []) xs"

lemma split_on_not_Nil [simp]: "split_on c s \<noteq> []"
  by (cases s) (auto split: list.splits)

lemma join_split [simp]: "join_with [c] (split_on c s) = s"
proof (induction s)
  case (Cons x xs)
  obtain y ys where "split_on c xs = y # ys" by (cases "split_on c xs") auto
  with Cons show ?case by (cases ys) auto
qed simp

lemma split_on_plain: "c \<notin> set s \<Longrightarrow> split_on c s = [s]"
  by (induction s) auto

lemma split_on_append:
  "c \<notin> set x \<Longrightarrow> split_on c (x @ c # ys) = x # split_on c ys"
  by (induction x) auto

lemma split_join:
  "xs \<noteq> [] \<Longrightarrow> \<forall>x \<in> set xs. c \<notin> set x \<Longrightarrow> split_on c (join_with [c] xs) = xs"
  by (induction "[c]" xs rule: join_with.induct) (auto simp: split_on_plain split_on_append)

lemma split_on_pieces: "x \<in> set (split_on c s) \<Longrightarrow> c \<notin> set x"
proof (induction s arbitrary: x)
  case (Cons a s)
  obtain y ys where "split_on c s = y # ys" by (cases "split_on c s") auto
  with Cons show ?case by (auto split: if_splits)
qed simp

lemma join_with_Nil_iff:
  "\<forall>x \<in> set xs. x \<noteq> [] \<Longrightarrow> join_with sep xs = [] \<longleftrightarrow> xs = []"
  by (induction sep xs rule: join_with.induct) auto

lemma join_with_append:
  "xs \<noteq> [] \<Longrightarrow> ys \<noteq> [] \<Longrightarrow> join_with sep (xs @ ys) = join_with sep xs @ sep @ join_with sep ys"
proof (induction sep xs rule: join_with.induct)
  case (2 sep x)
  then show ?case by (cases ys) auto
qed auto

lemma starts_with_append [simp]: "starts_with (p @ s) p"
  by (simp add: starts_with_def)

lemma starts_with_iff: "starts_with s p \<longleftrightarrow> (\<exists>t. s = p @ t)"
  by (metis append_take_drop_id append_eq_conv_conj starts_with_def)

lemma trim_idem [simp]: "trim (trim s) = trim s"
proof -
  have hd: "\<And>P (xs::string). dropWhile P (dropWhile P xs) = dropWhile P xs"
    by (metis dropWhile_idem dropWhile_eq_self_iff)
  define t where "t = dropWhile js_ws (rev (dropWhile js_ws s))"
  have "dropWhile js_ws (rev t) = rev t"
  proof (cases "rev t")
    case (Cons a r)
    have "\<exists>u. rev (dropWhile js_ws s) = u @ t"
      unfolding t_def by (metis takeWhile_dropWhile_id)
    then obtain u where "dropWhile js_ws s = rev t @ rev u"
      by (metis rev_append rev_rev_ident)
    with Cons have "dropWhile js_ws s = a # (r @ rev u)" by simp
    then have "\<not> js_ws a" by (metis hd_dropWhile list.sel(1) list.distinct(1))
    with Cons show ?thesis by simp
  qed simp
  then show ?thesis by (simp add: trim_def t_def hd)
qed

text \<open>Decimal digits and the number they write; the order of code units behind \<open>sort()\<close>.\<close>

definition is_digit :: "char \<Rightarrow> bool" where
  "is_digit c \<longleftrightarrow> (let n = (of_char c :: nat) in 48 \<le> n \<and> n \<le> 57)"

definition dec_val :: "string \<Rightarrow> nat" where
  "dec_val s = foldl (\<lambda>a c. 10 * a + (of_char c - 48)) 0 s"

fun code_unit_compare :: "string \<Rightarrow> string \<Rightarrow> int" where
  "code_unit_compare [] [] = 0"
| "code_unit_compare [] (b # y) = - 1"
| "code_unit_compare (a # x) [] = 1"
| "code_unit_compare (a # x) (b # y) =
     (let m = (of_char a :: nat); n = of_char b in if m < n then - 1 else if n < m then 1 else code_unit_compare x y)"

lemma code_unit_compare_refl [simp]: "code_unit_compare x x = 0"
  by (induction x) auto

lemma code_unit_compare_zero: "code_unit_compare x y = 0 \<longleftrightarrow> x = y"
  by (induction x y rule: code_unit_compare.induct) (auto simp: Let_def)

lemma code_unit_compare_swap: "code_unit_compare y x = - code_unit_compare x y"
  by (induction x y rule: code_unit_compare.induct) (auto simp: Let_def)

lemma code_unit_compare_cases: "code_unit_compare x y \<in> {- 1, 0, 1}"
  by (induction x y rule: code_unit_compare.induct) (auto simp: Let_def)

lemma code_unit_compare_less:
  "code_unit_compare (a # x) (b # y) < 0 \<longleftrightarrow>
     (of_char a :: nat) < of_char b \<or> (of_char a :: nat) = of_char b \<and> code_unit_compare x y < 0"
  by (auto simp: Let_def simp del: of_char_eq_iff)

lemma code_unit_compare_trans:
  "code_unit_compare x y < 0 \<Longrightarrow> code_unit_compare y z < 0 \<Longrightarrow> code_unit_compare x z < 0"
proof (induction x y arbitrary: z rule: code_unit_compare.induct)
  case (2 b y)
  then show ?case by (cases z) (simp_all del: of_char_eq_iff)
next
  case (4 a x b y)
  show ?case
  proof (cases z)
    case (Cons c w)
    define k l m where "k = (of_char a :: nat)" and "l = (of_char b :: nat)" and "m = (of_char c :: nat)"
    have "code_unit_compare x y < 0 \<Longrightarrow> code_unit_compare y w < 0 \<Longrightarrow> code_unit_compare x w < 0" if "k = l"
      using 4(1)[OF refl refl] that by (simp only: k_def l_def) simp
    moreover have "k < l \<or> k = l \<and> code_unit_compare x y < 0" "l < m \<or> l = m \<and> code_unit_compare y w < 0"
      using 4(2,3) unfolding Cons code_unit_compare_less k_def l_def m_def by blast+
    ultimately have "k < m \<or> k = m \<and> code_unit_compare x w < 0" by auto
    then show ?thesis unfolding Cons code_unit_compare_less k_def m_def .
  qed (use 4 in simp)
qed simp_all

section \<open>Arrays\<close>

text \<open>\<open>[...new Set(xs)]\<close>: the first occurrence of each value, in order.\<close>

fun unique_by :: "'a list \<Rightarrow> 'a list \<Rightarrow> 'a list" where
  "unique_by seen [] = []"
| "unique_by seen (x # xs) =
     (if x \<in> set seen then unique_by seen xs else x # unique_by (x # seen) xs)"

definition unique :: "'a list \<Rightarrow> 'a list" where
  "unique xs = unique_by [] xs"

lemma set_unique_by: "set (unique_by seen xs) = set xs - set seen"
  by (induction seen xs rule: unique_by.induct) auto

lemma set_unique [simp]: "set (unique xs) = set xs"
  by (simp add: unique_def set_unique_by)

lemma distinct_unique_by: "distinct (unique_by seen xs)"
  by (induction seen xs rule: unique_by.induct) (auto simp: set_unique_by)

lemma distinct_unique [simp]: "distinct (unique xs)"
  by (simp add: unique_def distinct_unique_by)

lemma unique_Nil_iff [simp]: "unique xs = [] \<longleftrightarrow> xs = []"
  by (metis set_unique set_empty)

lemma unique_by_snoc: "unique_by seen (xs @ [x]) = unique_by seen xs @ (if x \<in> set seen \<union> set xs then [] else [x])"
  by (induction seen xs rule: unique_by.induct) auto

lemma unique_snoc: "unique (xs @ [x]) = unique xs @ (if x \<in> set xs then [] else [x])"
  by (simp add: unique_def unique_by_snoc)

lemma unique_prefix: "\<exists>zs. unique (xs @ ys) = unique xs @ zs"
proof (induction ys rule: rev_induct)
  case (snoc y ys)
  then obtain zs where "unique (xs @ ys) = unique xs @ zs" by blast
  with unique_snoc[of "xs @ ys" y] show ?case by auto
qed simp

lemma in_concat_enumerate:
  "(i, k) \<in> set (concat (map (\<lambda>(i, f). map (Pair i) (g i f)) (enumerate 0 xs))) \<longleftrightarrow> i < length xs \<and> k \<in> set (g i (xs ! i))"
  by (auto simp: in_set_enumerate_eq intro!: bexI[of _ "(i, xs ! i)"])

lemma in_filter_enumerate:
  "i \<in> set (map fst (filter (\<lambda>(i, f). P f) (enumerate 0 xs))) \<longleftrightarrow> i < length xs \<and> P (xs ! i)"
  by (auto simp: in_set_enumerate_eq intro!: image_eqI[of _ _ "(i, xs ! i)"])

lemma find_least:
  fixes pos :: "'a \<Rightarrow> 'k::linorder"
  assumes "sorted (map pos xs)" "inj_on pos (set xs)" "v \<in> set xs" "P v" "\<And>u. u \<in> set xs \<Longrightarrow> P u \<Longrightarrow> pos v \<le> pos u"
  shows "find P xs = Some v"
  using assms
proof (induction xs)
  case (Cons a xs)
  show ?case
  proof (cases "P a")
    case True
    with Cons.prems have "pos v \<le> pos a" "pos a \<le> pos v" by auto
    with Cons.prems have "a = v" by (intro inj_onD[OF Cons.prems(2)]) auto
    with True show ?thesis by simp
  next
    case False
    with Cons.prems have "v \<in> set xs" by auto
    moreover have "inj_on pos (set xs)" using Cons.prems(2) by (simp add: inj_on_def)
    ultimately show ?thesis using False Cons by simp
  qed
qed simp

text \<open>
  A JavaScript \<open>Map\<close> keeps insertion order: setting a present key keeps its position.
\<close>

fun map_get :: "('k \<times> 'v) list \<Rightarrow> 'k \<Rightarrow> 'v option" where
  "map_get [] k = None"
| "map_get ((k', v) # m) k = (if k' = k then Some v else map_get m k)"

fun map_set :: "('k \<times> 'v) list \<Rightarrow> 'k \<Rightarrow> 'v \<Rightarrow> ('k \<times> 'v) list" where
  "map_set [] k v = [(k, v)]"
| "map_set ((k', v') # m) k v =
     (if k' = k then (k, v) # m else (k', v') # map_set m k v)"

lemma map_get_of [simp]: "map_get m k = map_of m k"
  by (induction m k rule: map_get.induct) auto

lemma map_of_map_set [simp]: "map_of (map_set m k v) = (map_of m)(k \<mapsto> v)"
  by (induction m k v rule: map_set.induct) auto

lemma keys_map_set: "fst ` set (map_set m k v) = insert k (fst ` set m)"
  by (induction m k v rule: map_set.induct) auto

lemma distinct_map_set: "distinct (map fst m) \<Longrightarrow> distinct (map fst (map_set m k v))"
  by (induction m k v rule: map_set.induct) (auto simp: keys_map_set)

lemma map_set_new: "map_of m k = None \<Longrightarrow> map_set m k v = m @ [(k, v)]"
  by (induction m k v rule: map_set.induct) (auto split: if_splits)

lemma map_set_there:
  "k \<in> set ks \<Longrightarrow> distinct ks \<Longrightarrow> map_set (map (\<lambda>k. (k, F k)) ks) k v = map (\<lambda>l. (l, if l = k then v else F l)) ks"
  by (induction ks) auto

lemma map_of_keyed: "map_of (map (\<lambda>k. (k, F k)) ks) k = (if k \<in> set ks then Some (F k) else None)"
  by (induction ks) auto

lemma map_of_foldl_distinct:
  assumes "distinct (map key xs)" "x \<in> set xs"
  shows "map_of (foldl (\<lambda>m x. map_set m (key x) (val x)) [] xs) (key x) = Some (val x)"
  using assms by (induction xs rule: rev_induct) (auto simp: image_iff)

text \<open>\<open>map.set(k, [...(map.get(k) ?? []), v])\<close>, the grouping idiom of the sources.\<close>

definition map_push :: "('k \<times> 'v list) list \<Rightarrow> 'k \<Rightarrow> 'v \<Rightarrow> ('k \<times> 'v list) list" where
  "map_push m k v = map_set m k ((case map_get m k of None \<Rightarrow> [] | Some vs \<Rightarrow> vs) @ [v])"

text \<open>Pushing every element of an array groups them, each group in the array's order.\<close>

lemma map_of_foldl_push:
  "map_of (foldl (\<lambda>m x. map_push m (key x) (val x)) m xs) k =
     (case filter (\<lambda>x. key x = k) xs of [] \<Rightarrow> map_of m k
      | y # ys \<Rightarrow> Some ((case map_of m k of None \<Rightarrow> [] | Some g \<Rightarrow> g) @ val y # map val ys))"
  by (induction xs arbitrary: m) (auto simp: map_push_def split: list.splits option.splits)

lemma keys_foldl_push:
  "fst ` set (foldl (\<lambda>m x. map_push m (key x) (val x)) m xs) = fst ` set m \<union> key ` set xs"
  by (induction xs arbitrary: m) (auto simp: map_push_def keys_map_set)

lemma distinct_foldl_push:
  "distinct (map fst m) \<Longrightarrow> distinct (map fst (foldl (\<lambda>m x. map_push m (key x) (val x)) m xs))"
  by (induction xs arbitrary: m) (auto simp: map_push_def distinct_map_set)

lemma map_of_foldl_set:
  "map_of (foldl (\<lambda>m x. map_set m (key x) (val x)) m xs) = foldl (\<lambda>f x. f(key x \<mapsto> val x)) (map_of m) xs"
  by (induction xs arbitrary: m) auto

lemma dom_foldl_set: "dom (map_of (foldl (\<lambda>m x. map_set m (key x) (val x)) m xs)) = dom (map_of m) \<union> key ` set xs"
  by (induction xs arbitrary: m) auto

section \<open>Stable sort with a comparator\<close>

text \<open>
  \<open>sort(cmp)\<close> inserts every element after the elements that do not compare greater, so
  equal elements keep their order.
\<close>

fun insert_cmp :: "('a \<Rightarrow> 'a \<Rightarrow> int) \<Rightarrow> 'a \<Rightarrow> 'a list \<Rightarrow> 'a list" where
  "insert_cmp cmp x [] = [x]"
| "insert_cmp cmp x (y # ys) = (if cmp x y \<le> 0 then x # y # ys else y # insert_cmp cmp x ys)"

definition sort_cmp :: "('a \<Rightarrow> 'a \<Rightarrow> int) \<Rightarrow> 'a list \<Rightarrow> 'a list" where
  "sort_cmp cmp xs = foldr (insert_cmp cmp) xs []"

lemma mset_insert_cmp: "mset (insert_cmp cmp x ys) = {#x#} + mset ys"
  by (induction ys) auto

lemma mset_sort_cmp [simp]: "mset (sort_cmp cmp xs) = mset xs"
  by (induction xs) (auto simp: sort_cmp_def mset_insert_cmp)

lemma set_sort_cmp [simp]: "set (sort_cmp cmp xs) = set xs"
  by (metis mset_sort_cmp set_mset_mset)

lemma length_sort_cmp [simp]: "length (sort_cmp cmp xs) = length xs"
  by (metis mset_sort_cmp size_mset)

lemma set_insert_cmp: "set (insert_cmp cmp x ys) = insert x (set ys)"
  by (induction ys) auto

text \<open>
  A comparator that looks at a numeric key first sorts by that key, whatever it does on
  equal keys.
\<close>

lemma sorted_insert_cmp:
  assumes "\<And>a b. key a < key b \<Longrightarrow> cmp a b < 0" "\<And>a b. key b < key a \<Longrightarrow> cmp a b > 0"
  shows "sorted (map key ys) \<Longrightarrow> sorted (map key (insert_cmp cmp x ys))"
proof (induction ys)
  case (Cons y ys)
  show ?case
  proof (cases "cmp x y \<le> 0")
    case True
    then have "key x \<le> key y" using assms(2)[of y x] by force
    with Cons.prems True show ?thesis by force
  next
    case False
    then have "key y \<le> key x" using assms(1)[of x y] by force
    with Cons False show ?thesis by (auto simp: set_insert_cmp)
  qed
qed simp

lemma sorted_sort_cmp:
  fixes key :: "'a \<Rightarrow> 'k::linorder"
  assumes "\<And>a b. key a < key b \<Longrightarrow> cmp a b < 0" "\<And>a b. key b < key a \<Longrightarrow> cmp a b > 0"
  shows "sorted (map key (sort_cmp cmp xs))"
  by (induction xs) (auto simp: sort_cmp_def intro: sorted_insert_cmp assms)

text \<open>A comparator that is a total preorder sorts.\<close>

lemma sorted_wrt_sort_cmp:
  assumes linear: "\<And>a b. 0 < cmp a b \<Longrightarrow> cmp b a \<le> 0"
    and trans: "\<And>a b c. cmp a b \<le> 0 \<Longrightarrow> cmp b c \<le> 0 \<Longrightarrow> cmp a c \<le> 0"
  shows "sorted_wrt (\<lambda>a b. cmp a b \<le> 0) (sort_cmp cmp xs)"
proof -
  have insert: "sorted_wrt (\<lambda>a b. cmp a b \<le> 0) (insert_cmp cmp x ys)"
    if "sorted_wrt (\<lambda>a b. cmp a b \<le> 0) ys" for x ys
    using that by (induction ys) (auto simp: set_insert_cmp intro: linear trans)
  show ?thesis by (induction xs) (auto simp: sort_cmp_def intro: insert)
qed

end
