(* ===== verification/JsPath.thy ===== *)
theory JsPath
  imports Prelude
begin

text \<open>
  Node's \<open>path.posix\<close> module: \<open>normalize\<close>, \<open>isAbsolute\<close>, \<open>dirname\<close>, \<open>basename\<close>,
  \<open>extname\<close>, \<open>join\<close>, \<open>resolve\<close>, \<open>relative\<close>. The sources call it as \<open>path.posix\<close>
  on every host and as \<open>path\<close> on a POSIX host (macOS, Linux), which is the host modelled
  throughout. Each function follows Node's definition; \<open>normalizeString\<close> is written over
  the list of segments instead of over character positions.
\<close>

section \<open>Definitions\<close>

definition slash :: char where "slash = CHR ''/''"
definition dot :: string where "dot = ''.''"
definition dotdot :: string where "dotdot = ''..''"

text \<open>
  Node's \<open>normalizeString\<close>: empty segments and \<open>.\<close> vanish; \<open>..\<close> removes the segment
  before it, or is kept at the front when going above the root is allowed. The second
  argument is the stack of segments kept so far.
\<close>

fun norm_segs :: "bool \<Rightarrow> string list \<Rightarrow> string list \<Rightarrow> string list" where
  "norm_segs aboveRoot acc [] = rev acc"
| "norm_segs aboveRoot acc (s # ss) =
     (if s = [] \<or> s = dot then norm_segs aboveRoot acc ss
      else if s = dotdot then
        (case acc of
           a # acc' \<Rightarrow>
             if a \<noteq> dotdot then norm_segs aboveRoot acc' ss
             else if aboveRoot then norm_segs aboveRoot (dotdot # acc) ss
             else norm_segs aboveRoot acc ss
         | [] \<Rightarrow> if aboveRoot then norm_segs aboveRoot [dotdot] ss else norm_segs aboveRoot [] ss)
      else norm_segs aboveRoot (s # acc) ss)"

definition posix_isAbsolute :: "string \<Rightarrow> bool" where
  "posix_isAbsolute p \<longleftrightarrow> p \<noteq> [] \<and> hd p = slash"

definition posix_normalize :: "string \<Rightarrow> string" where
  "posix_normalize p =
     (if p = [] then dot
      else
        let isAbsolute = posix_isAbsolute p;
            trailingSeparator = (last p = slash);
            body = join_with [slash] (norm_segs (\<not> isAbsolute) [] (split_on slash p))
        in if body = [] then (if isAbsolute then [slash] else if trailingSeparator then dot @ [slash] else dot)
           else (if isAbsolute then [slash] else []) @ body @ (if trailingSeparator then [slash] else []))"

text \<open>
  \<open>dirname\<close>: drop trailing slashes, then the last segment, then the slash before it.
  The slash at position 0 does not count as a separator.
\<close>

definition posix_dirname :: "string \<Rightarrow> string" where
  "posix_dirname p =
     (if p = [] then dot
      else
        let hasRoot = (hd p = slash);
            rest = dropWhile (\<lambda>c. c \<noteq> slash) (dropWhile (\<lambda>c. c = slash) (rev p));
            end = length rest - 1
        in if rest = [] \<or> end = 0 then (if hasRoot then [slash] else dot)
           else if hasRoot \<and> end = 1 then [slash, slash]
           else take end p)"

definition posix_basename :: "string \<Rightarrow> string" where
  "posix_basename p = rev (takeWhile (\<lambda>c. c \<noteq> slash) (dropWhile (\<lambda>c. c = slash) (rev p)))"

text \<open>\<open>extname\<close>: from the last dot of the base name, unless it is the first character.\<close>

definition posix_extname :: "string \<Rightarrow> string" where
  "posix_extname p =
     (let base = posix_basename p;
          rest = dropWhile (\<lambda>c. c \<noteq> CHR ''.'') (rev base);
          i = length rest - 1
      in if rest = [] \<or> i = 0 \<or> base = dotdot then [] else drop i base)"

definition posix_join :: "string list \<Rightarrow> string" where
  "posix_join ps = (let qs = nonempty ps in if qs = [] then dot else posix_normalize (join_with [slash] qs))"

fun resolve_scan :: "string list \<Rightarrow> string \<Rightarrow> bool \<Rightarrow> string \<times> bool" where
  "resolve_scan [] resolved isAbs = (resolved, isAbs)"
| "resolve_scan (p # ps) resolved isAbs =
     (if isAbs then (resolved, isAbs)
      else if p = [] then resolve_scan ps resolved isAbs
      else resolve_scan ps (p @ [slash] @ resolved) (posix_isAbsolute p))"

text \<open>\<open>path.resolve(...args)\<close>, with the process's working directory as first argument.\<close>

definition posix_resolve :: "string \<Rightarrow> string list \<Rightarrow> string" where
  "posix_resolve cwd args =
     (case resolve_scan (rev args @ [cwd]) [] False of (resolved, isAbs) \<Rightarrow>
        let body = join_with [slash] (norm_segs (\<not> isAbs) [] (split_on slash resolved))
        in if isAbs then slash # body else if body = [] then dot else body)"

fun common_prefix :: "string list \<Rightarrow> string list \<Rightarrow> nat" where
  "common_prefix (x # xs) (y # ys) = (if x = y then Suc (common_prefix xs ys) else 0)"
| "common_prefix _ _ = 0"

definition posix_relative :: "string \<Rightarrow> string \<Rightarrow> string \<Rightarrow> string" where
  "posix_relative cwd from to =
     (let f = nonempty (split_on slash (posix_resolve cwd [from]));
          t = nonempty (split_on slash (posix_resolve cwd [to]));
          n = common_prefix f t
      in join_with [slash] (replicate (length f - n) dotdot @ drop n t))"

text \<open>\<open>path.parse(p).root\<close>\<close>

definition posix_root :: "string \<Rightarrow> string" where
  "posix_root p = (if posix_isAbsolute p then [slash] else [])"

text \<open>
  A plain segment is one that \<open>normalize\<close> keeps; an absolute path in normal form is
  spelled by the list of its plain segments.
\<close>

definition plain_seg :: "string \<Rightarrow> bool" where
  "plain_seg s \<longleftrightarrow> s \<noteq> [] \<and> s \<noteq> dot \<and> s \<noteq> dotdot \<and> slash \<notin> set s"

definition abs_path :: "string list \<Rightarrow> string" where
  "abs_path segs = slash # join_with [slash] segs"

section \<open>Segments\<close>

lemma split_on_app [path_simps]:
  "split_on c (xs @ c # ys) = split_on c xs @ split_on c ys"
proof (induction xs)
  case (Cons a xs)
  then show ?case by (cases "split_on c xs") auto
qed simp

lemma norm_segs_append:
  "norm_segs aboveRoot acc (xs @ ys) = norm_segs aboveRoot (rev (norm_segs aboveRoot acc xs)) ys"
  by (induction xs arbitrary: acc) (auto split: list.splits)

lemma norm_segs_plain:
  "\<forall>s \<in> set ss. plain_seg s \<Longrightarrow> norm_segs aboveRoot acc ss = rev acc @ ss"
  by (induction ss arbitrary: acc) (auto simp: plain_seg_def)

lemma norm_segs_closed:
  assumes "\<forall>s \<in> set acc. plain_seg s" "\<forall>s \<in> set ss. slash \<notin> set s"
  shows "\<forall>s \<in> set (norm_segs False acc ss). plain_seg s"
  using assms
proof (induction ss arbitrary: acc)
  case (Cons s ss)
  have tl: "\<forall>s \<in> set ss. slash \<notin> set s" using Cons.prems by simp
  have drop: "\<forall>s \<in> set (tl acc). plain_seg s" using Cons.prems by (cases acc) simp_all
  consider "s = [] \<or> s = dot" | "s = dotdot" "s \<noteq> dot" "s \<noteq> []" | "plain_seg s"
    using Cons.prems by (auto simp: plain_seg_def)
  then show ?case
  proof cases
    case 1
    then show ?thesis using Cons.IH[OF Cons.prems(1) tl] by simp
  next
    case 2
    then show ?thesis using Cons.IH[OF Cons.prems(1) tl] Cons.IH[OF drop tl] by (cases acc) simp_all
  next
    case 3
    with Cons.prems(1) have "\<forall>s \<in> set (s # acc). plain_seg s" by simp
    from Cons.IH[OF this tl] 3 show ?thesis by (simp add: plain_seg_def)
  qed
qed auto

lemma plain_root_segs:
  "\<forall>s \<in> set (norm_segs False [] (split_on slash p)). plain_seg s"
  by (rule norm_segs_closed) (auto dest: split_on_pieces)

lemma plain_seg_noslash: "plain_seg s \<Longrightarrow> slash \<notin> set s"
  and plain_seg_nonempty: "plain_seg s \<Longrightarrow> s \<noteq> []"
  by (auto simp: plain_seg_def)

section \<open>Absolute paths in normal form\<close>

lemma split_abs_path:
  assumes "\<forall>s \<in> set segs. plain_seg s"
  shows "split_on slash (abs_path segs) = [] # (if segs = [] then [[]] else segs)"
proof (cases "segs = []")
  case False
  with assms have "split_on slash (join_with [slash] segs) = segs"
    by (intro split_join) (auto simp: plain_seg_def)
  with False show ?thesis by (simp add: abs_path_def)
qed (simp add: abs_path_def)

lemma isAbsolute_abs_path [simp]: "posix_isAbsolute (abs_path segs)"
  by (simp add: posix_isAbsolute_def abs_path_def)

lemma abs_path_inject:
  assumes "\<forall>s \<in> set xs. plain_seg s" "\<forall>s \<in> set ys. plain_seg s"
  shows "abs_path xs = abs_path ys \<longleftrightarrow> xs = ys"
proof
  assume eq: "abs_path xs = abs_path ys"
  have "(if xs = [] then [[]] else xs) = (if ys = [] then [[]] else ys)"
    using split_abs_path[OF assms(1)] split_abs_path[OF assms(2)] eq by simp
  with assms show "xs = ys" by (auto simp: plain_seg_def split: if_splits)
qed simp

lemma join_last:
  assumes "\<forall>s \<in> set segs. plain_seg s" "segs \<noteq> []"
  shows "last (join_with [slash] segs) \<noteq> slash"
  using assms
proof (induction "[slash]" segs rule: join_with.induct)
  case (2 x)
  then show ?case by (metis last_in_set list.set_intros(1) join_with.simps(2) plain_seg_def)
next
  case (3 x y ys)
  moreover have "join_with [slash] (y # ys) \<noteq> []"
    using 3 by (intro notI) (simp add: join_with_Nil_iff plain_seg_def)
  ultimately show ?case by simp
qed auto

lemma normalize_abs_path [simp]:
  assumes "\<forall>s \<in> set segs. plain_seg s"
  shows "posix_normalize (abs_path segs) = abs_path segs"
proof -
  have n: "norm_segs False [] (split_on slash (abs_path segs)) = segs"
    using assms by (auto simp: split_abs_path norm_segs_plain)
  show ?thesis
  proof (cases "segs = []")
    case True
    then show ?thesis by (simp add: posix_normalize_def abs_path_def posix_isAbsolute_def Let_def)
  next
    case False
    have ne: "join_with [slash] segs \<noteq> []"
      using assms False by (subst join_with_Nil_iff) (auto simp: plain_seg_def)
    with n False assms show ?thesis
      by (simp add: posix_normalize_def Let_def join_last)
        (simp add: abs_path_def join_last)
  qed
qed

text \<open>
  Resolving plain segments against an absolute root appends them to the root's own normal
  form.
\<close>

lemma resolve_scan_rel:
  assumes "\<forall>s \<in> set ss. plain_seg s" "posix_isAbsolute root"
  shows "resolve_scan (rev ss @ root # xs) r False =
    (root @ [slash] @ concat (map (\<lambda>s. s @ [slash]) ss) @ r, True)"
  using assms(1)
proof (induction ss arbitrary: r rule: rev_induct)
  case Nil
  have "root \<noteq> []" using assms(2) by (simp add: posix_isAbsolute_def)
  with assms(2) show ?case by (cases xs) simp_all
next
  case (snoc s ss)
  then have "s \<noteq> []" "\<not> posix_isAbsolute s"
    by (auto simp: plain_seg_def posix_isAbsolute_def neq_Nil_conv)
  with snoc show ?case by simp
qed

lemma split_concat_segs:
  assumes "\<forall>s \<in> set ss. slash \<notin> set s"
  shows "split_on slash (concat (map (\<lambda>s. s @ [slash]) ss)) = ss @ [[]]"
  using assms by (induction ss) (simp_all add: split_on_append)

lemma resolve_plain:
  assumes "\<forall>s \<in> set ss. plain_seg s" "posix_isAbsolute root"
  shows "posix_resolve cwd (root # ss) =
    abs_path (norm_segs False [] (split_on slash root) @ ss)"
proof -
  let ?c = "concat (map (\<lambda>s. s @ [slash]) ss)"
  have "resolve_scan (rev (root # ss) @ [cwd]) [] False = (root @ [slash] @ ?c, True)"
    using resolve_scan_rel[OF assms, of "[cwd]" "[]"] by simp
  moreover have "split_on slash (root @ [slash] @ ?c) = split_on slash root @ ss @ [[]]"
    using assms(1) by (simp add: split_on_app split_concat_segs plain_seg_noslash)
  moreover have "norm_segs False [] (split_on slash root @ ss @ [[]])
      = norm_segs False [] (split_on slash root) @ ss"
    using assms(1) by (simp add: norm_segs_append norm_segs_plain)
  ultimately show ?thesis by (simp add: posix_resolve_def abs_path_def Let_def)
qed

lemma resolve_root:
  "posix_isAbsolute root \<Longrightarrow>
    posix_resolve cwd [root] = abs_path (norm_segs False [] (split_on slash root))"
  using resolve_plain[of "[]" root cwd] by simp

lemma resolve_abs_path [simp]:
  assumes "\<forall>s \<in> set segs. plain_seg s"
  shows "posix_resolve cwd [abs_path segs] = abs_path segs"
  using assms by (auto simp: resolve_root split_abs_path norm_segs_plain)

section \<open>Parents and names of absolute paths\<close>

lemma join_with_snoc:
  "join_with sep (xs @ [x]) = (if xs = [] then x else join_with sep xs @ sep @ x)"
  using join_with_append[of xs "[x]" sep] by simp

lemma abs_path_snoc:
  "abs_path (segs @ [x]) = (if segs = [] then slash # x else abs_path segs @ slash # x)"
  by (simp add: abs_path_def join_with_snoc)

lemma abs_path_extend: "abs_path (segs @ [n]) @ s = abs_path (segs @ [n @ s])"
  by (simp add: abs_path_snoc)

lemma scan_to:
  "(\<And>x. x \<in> set xs \<Longrightarrow> P x) \<Longrightarrow> \<not> P y \<Longrightarrow> dropWhile P (xs @ y # ys) = y # ys"
  "(\<And>x. x \<in> set xs \<Longrightarrow> P x) \<Longrightarrow> \<not> P y \<Longrightarrow> takeWhile P (xs @ y # ys) = xs"
  by (induction xs) auto

lemma last_segment_scan:
  assumes "plain_seg x"
  shows "dropWhile (\<lambda>c. c = slash) (rev (pre @ slash # x)) = rev x @ slash # rev pre"
    "dropWhile (\<lambda>c. c \<noteq> slash) (rev x @ slash # rev pre) = slash # rev pre"
    "takeWhile (\<lambda>c. c \<noteq> slash) (rev x @ slash # rev pre) = rev x"
proof -
  have ns: "slash \<notin> set (rev x)" using assms by (auto simp: plain_seg_def)
  obtain c r where r: "rev x = c # r" using assms by (cases "rev x") (auto simp: plain_seg_def)
  from ns r have "c \<noteq> slash" by auto
  with r show "dropWhile (\<lambda>c. c = slash) (rev (pre @ slash # x)) = rev x @ slash # rev pre" by simp
  show "dropWhile (\<lambda>c. c \<noteq> slash) (rev x @ slash # rev pre) = slash # rev pre"
    "takeWhile (\<lambda>c. c \<noteq> slash) (rev x @ slash # rev pre) = rev x"
    using ns by (auto intro!: scan_to)
qed

lemma dirname_split:
  assumes "plain_seg x"
  shows "posix_dirname (pre @ slash # x) =
    (if pre = [] then [slash]
     else if length pre = 1 then (if hd pre = slash then [slash, slash] else pre) else pre)"
proof (cases pre)
  case Nil
  then show ?thesis unfolding posix_dirname_def Let_def last_segment_scan[OF assms] by simp
next
  case (Cons a l)
  then show ?thesis unfolding posix_dirname_def Let_def last_segment_scan[OF assms]
    by (cases l) simp_all
qed

lemma dirname_abs_path [simp]:
  assumes "\<forall>s \<in> set segs. plain_seg s" "plain_seg x"
  shows "posix_dirname (abs_path (segs @ [x])) = abs_path segs"
proof (cases "segs = []")
  case True
  then show ?thesis
    using dirname_split[OF assms(2), of "[]"] by (simp add: abs_path_snoc abs_path_def)
next
  case False
  have "join_with [slash] segs \<noteq> []"
    using assms False by (subst join_with_Nil_iff) (auto simp: plain_seg_def)
  with False show ?thesis
    using dirname_split[OF assms(2), of "abs_path segs"] by (simp add: abs_path_snoc) (simp add: abs_path_def)
qed

lemma basename_abs_path [simp]:
  assumes "plain_seg x"
  shows "posix_basename (abs_path (segs @ [x])) = x"
proof -
  have "posix_basename (pre @ slash # x) = x" for pre
    using last_segment_scan[OF assms, of pre] by (simp only: posix_basename_def rev_rev_ident)
  from this[of "[]"] this[of "abs_path segs"] show ?thesis by (simp add: abs_path_snoc)
qed

lemma join_abs_path [simp]:
  assumes "\<forall>s \<in> set segs. plain_seg s" "plain_seg x"
  shows "posix_join [abs_path segs, x] = abs_path (segs @ [x])"
proof -
  have x: "x \<noteq> []" "slash \<notin> set x" using assms(2) by (auto simp: plain_seg_def)
  then have "last x \<noteq> slash" using last_in_set[of x] by metis
  note x = x this
  have "nonempty [abs_path segs, x] = [abs_path segs, x]"
    using x by (simp add: nonempty_def abs_path_def)
  moreover have "posix_normalize (abs_path segs @ slash # x) = abs_path (segs @ [x])"
  proof -
    have "split_on slash (abs_path segs @ slash # x) = [] # (if segs = [] then [[]] else segs) @ [x]"
      using assms x by (simp add: split_on_app split_abs_path split_on_plain)
    moreover have "norm_segs False [] (segs @ [x]) = segs @ [x]" "norm_segs False [] [x] = [x]"
      using assms by (simp_all del: norm_segs.simps add: norm_segs_plain)
    ultimately have "norm_segs False [] (split_on slash (abs_path segs @ slash # x)) = segs @ [x]"
      by (cases "segs = []") simp_all
    moreover have "posix_isAbsolute (abs_path segs @ slash # x)"
      by (simp add: posix_isAbsolute_def abs_path_def)
    moreover have "join_with [slash] (segs @ [x]) \<noteq> []" using x by (simp add: join_with_snoc)
    ultimately show ?thesis
      using x by (simp add: posix_normalize_def Let_def abs_path_def)
  qed
  ultimately show ?thesis by (simp add: posix_join_def)
qed

end
