(* ===== verification/BridgeTypes.thy ===== *)
theory BridgeTypes
  imports JsPath
begin

text \<open>
  The data of the local Bridge (\<open>bridge-app/src/types/index.ts\<close>) and its permission
  defaults (\<open>bridge-app/src/permissions/defaults.ts\<close>). A TypeScript intersection
  \<open>BridgePermissions & {...}\<close> is a record extension; an optional or nullable field is an
  option; an ISO date is its time in milliseconds. Of an error, the class, the code and the
  HTTP status are kept, the sentence shown to the user is not.
\<close>

section \<open>Errors\<close>

datatype error_code =
    EMPTY_PATH | FOLDER_UNREADABLE | UNSAFE_SYMLINK | UNSAFE_SYSTEM_ROOT
  | UNSAFE_SYSTEM_DIRECTORY | UNSAFE_APPLICATION_DIRECTORY | INVALID_RELATIVE_PATH
  | ABSOLUTE_PATH_REJECTED | PATH_TRAVERSAL_REJECTED | PATH_OUTSIDE_ROOT
  | SYMLINK_ESCAPE_REJECTED | REGISTRY_CORRUPT | FOLDER_SELECTION_PERSISTENCE_FAILED
  | WATCH_REQUIRES_READ | MISSING_SELECTION_TOKEN | SELECTION_EXPIRED | ROOT_NOT_FOUND
  | ROOT_DISCONNECTED | ROOT_PAUSED | PERMISSION_DENIED | MISSING_SOURCE | SOURCE_NOT_FILE
  | CHANGED_SOURCE | EXECUTION_BLOCKED | ROOT_AUTHORITY_CHANGED | DESTINATION_CONFLICT
  | VALIDATION_FAILED | FOLDER_NOT_EMPTY | DUPLICATE_DESTINATION | DUPLICATE_UNDO_DESTINATION
  | FILESYSTEM_OPERATION_FAILED | COMMAND_RECOVERY_REQUIRED | COMMAND_INTERRUPTED
  | UNDO_FOLDER_NAME_REOCCUPIED | UNDO_FOLDER_POSTCONDITION_UNVERIFIED | ROOT_UNAVAILABLE
  | WATCHER_START_FAILED | SOURCE_FILE_MISSING | READ_PERMISSION_REQUIRED
  | PAIRING_UNAVAILABLE | ORIGIN_NOT_ALLOWED | UNAUTHORIZED
  | FILE_CHANGED_DURING_SCAN | SCAN_INVENTORY_UNVERIFIED
  | ROOT_REQUIRED | NO_VALID_ACTIONS | NO_VALID_UNDO_ACTIONS | NO_PERMISSION_CHANGES
  | ROOT_CONNECTION_CHANGED | LOCAL_INTERACTION_REQUIRED

datatype errno = ENOENT | EEXIST | EXDEV | ENOTDIR | EISDIR | ENOTEMPTY | EPERM | EACCES | ELOOP | EIO
  | ENAMETOOLONG

text \<open>
  What a Bridge operation can throw: a \<open>BridgeAppError\<close>, the journal's
  \<open>PhysicalRecoveryRequired\<close>, a system error of Node's \<open>fs\<close>, or a plain \<open>Error\<close>.
\<close>

datatype exn =
    BridgeAppError error_code nat
  | PhysicalRecoveryRequired
  | SysError errno
  | PlainError

section \<open>Enumerations\<close>

datatype bridge_platform = WINDOWS | MACOS | LINUX | UNKNOWN_PLATFORM

datatype root_status = CONNECTED | PAUSED | NEEDS_ATTENTION | DISCONNECTED

datatype watcher_state = W_WATCHING | W_PAUSED | W_STOPPED | W_NEEDS_ATTENTION

datatype event_type =
    FILE_ADDED | FILE_MODIFIED | FILE_RENAMED | FILE_MOVED | FILE_DELETED
  | FOLDER_ADDED | FOLDER_RENAMED | FOLDER_MOVED | FOLDER_DELETED

datatype action_type = CREATE_FOLDER | MOVE_FILE | RENAME_FILE | MOVE_AND_RENAME_FILE

datatype undo_action_type = REMOVE_FOLDER | UNDO_MOVE_FILE | UNDO_RENAME_FILE

section \<open>Records\<close>

record bridge_permissions =
  readPermission :: bool
  watchPermission :: bool
  recommendationPermission :: bool
  organizationPlanPermission :: bool
  createFolderPermission :: bool
  moveFilePermission :: bool
  renameFilePermission :: bool

record bridge_root = bridge_permissions +
  connectionRevision :: "nat option"
  root_id :: string
  actualPath :: string
  connectedAt :: int
  displayName :: string
  lastScanAt :: "int option"
  lastWatchingAt :: "int option"
  platform :: bridge_platform
  safeLocation :: string
  root_status :: root_status
  updatedAt :: int
  watcherState :: watcher_state

record bridge_root_summary = bridge_permissions +
  sum_connectionRevision :: nat
  sum_id :: string
  sum_connectedAt :: int
  sum_displayName :: string
  sum_lastScanAt :: "int option"
  sum_lastWatchingAt :: "int option"
  sum_platform :: bridge_platform
  sum_safeLocation :: string
  sum_status :: root_status
  sum_updatedAt :: int
  sum_watcherState :: watcher_state

record folder_selection =
  sel_ancestorRootIds :: "string list"
  sel_actualPath :: string
  sel_createdAt :: int
  sel_expiresAt :: int
  sel_platform :: bridge_platform
  sel_rootId :: string
  sel_safeLocation :: string
  sel_suggestedDisplayName :: string
  sel_token :: string

record folder_selection_result =
  res_ancestorRootIds :: "string list"
  res_selectionToken :: string
  res_rootId :: string
  res_suggestedDisplayName :: string
  res_platform :: bridge_platform
  res_safeLocation :: string
  res_expiresAt :: int

record change_event =
  event_id :: string
  event_rootId :: string
  event_type :: event_type
  event_relativePath :: string
  event_detectedAt :: string

record plan_action =
  pa_id :: string
  pa_actionType :: action_type
  pa_sourceRelativePath :: "string option"
  pa_sourceChecksum :: "string option"
  pa_sourceLastModified :: "int option"
  pa_sourceSizeBytes :: "nat option"
  pa_destinationRelativePath :: string

record undo_action =
  ua_id :: string
  ua_originalExecutionActionId :: "string option"
  ua_actionType :: undo_action_type
  ua_sourceRelativePath :: string
  ua_sourceChecksum :: "string option"
  ua_sourceLastModified :: "int option"
  ua_sourceSizeBytes :: "nat option"
  ua_destinationRelativePath :: string

section \<open>Permissions\<close>

datatype permission_key =
    ReadPermission | WatchPermission | RecommendationPermission | OrganizationPlanPermission
  | CreateFolderPermission | MoveFilePermission | RenameFilePermission

fun perm_of :: "permission_key \<Rightarrow> 'a bridge_permissions_scheme \<Rightarrow> bool" where
  "perm_of ReadPermission r = readPermission r"
| "perm_of WatchPermission r = watchPermission r"
| "perm_of RecommendationPermission r = recommendationPermission r"
| "perm_of OrganizationPlanPermission r = organizationPlanPermission r"
| "perm_of CreateFolderPermission r = createFolderPermission r"
| "perm_of MoveFilePermission r = moveFilePermission r"
| "perm_of RenameFilePermission r = renameFilePermission r"

definition defaultBridgePermissions :: bridge_permissions where
  "defaultBridgePermissions =
     \<lparr>readPermission = True, watchPermission = False, recommendationPermission = True,
      organizationPlanPermission = True, createFolderPermission = False,
      moveFilePermission = False, renameFilePermission = False\<rparr>"

text \<open>\<open>Partial<BridgePermissions>\<close>: a key that is absent or undefined maps to None.\<close>

type_synonym partial_permissions = "permission_key \<Rightarrow> bool option"

definition no_permissions :: partial_permissions where
  "no_permissions = (\<lambda>_. None)"

definition coalesce :: "'a option \<Rightarrow> 'a \<Rightarrow> 'a" where
  "coalesce x d = (case x of None \<Rightarrow> d | Some v \<Rightarrow> v)"

lemma coalesce_simps [simp]: "coalesce None d = d" "coalesce (Some v) d = v"
  by (simp_all add: coalesce_def)

text \<open>The seven \<open>input.key ?? fallback.key\<close> lines, shared by every place that merges grants.\<close>

definition merge_permissions :: "partial_permissions \<Rightarrow> 'a bridge_permissions_scheme \<Rightarrow> bridge_permissions" where
  "merge_permissions input base =
     \<lparr>readPermission = coalesce (input ReadPermission) (readPermission base),
      watchPermission = coalesce (input WatchPermission) (watchPermission base),
      recommendationPermission = coalesce (input RecommendationPermission) (recommendationPermission base),
      organizationPlanPermission = coalesce (input OrganizationPlanPermission) (organizationPlanPermission base),
      createFolderPermission = coalesce (input CreateFolderPermission) (createFolderPermission base),
      moveFilePermission = coalesce (input MoveFilePermission) (moveFilePermission base),
      renameFilePermission = coalesce (input RenameFilePermission) (renameFilePermission base)\<rparr>"

definition permissionsFromInput :: "partial_permissions \<Rightarrow> bridge_permissions" where
  "permissionsFromInput input = merge_permissions input defaultBridgePermissions"

text \<open>
  A parsed JSON body. \<open>permissionPatchFromInput\<close> keeps exactly the boolean values found
  under the seven permission keys.
\<close>

datatype json = JNull | JBool bool | JNum int | JStr string | JArr "json list" | JObj "(string \<times> json) list"

fun permission_key_name :: "permission_key \<Rightarrow> string" where
  "permission_key_name ReadPermission = ''readPermission''"
| "permission_key_name WatchPermission = ''watchPermission''"
| "permission_key_name RecommendationPermission = ''recommendationPermission''"
| "permission_key_name OrganizationPlanPermission = ''organizationPlanPermission''"
| "permission_key_name CreateFolderPermission = ''createFolderPermission''"
| "permission_key_name MoveFilePermission = ''moveFilePermission''"
| "permission_key_name RenameFilePermission = ''renameFilePermission''"

definition permissionPatchFromInput :: "(string \<times> json) list \<Rightarrow> partial_permissions" where
  "permissionPatchFromInput input =
     (\<lambda>k. case map_of input (permission_key_name k) of Some (JBool b) \<Rightarrow> Some b | _ \<Rightarrow> None)"

text \<open>\<open>{...root, ...permissions}\<close>: the permission fields replaced, the rest kept.\<close>

definition with_permissions :: "bridge_permissions \<Rightarrow> 'a bridge_permissions_scheme \<Rightarrow> 'a bridge_permissions_scheme" where
  "with_permissions p r =
     r\<lparr>readPermission := readPermission p, watchPermission := watchPermission p,
       recommendationPermission := recommendationPermission p,
       organizationPlanPermission := organizationPlanPermission p,
       createFolderPermission := createFolderPermission p,
       moveFilePermission := moveFilePermission p,
       renameFilePermission := renameFilePermission p\<rparr>"

lemma perm_of_merge: "perm_of k (merge_permissions input base) = coalesce (input k) (perm_of k base)"
  by (cases k) (simp_all add: merge_permissions_def)

lemma perm_of_with_permissions [simp]: "perm_of k (with_permissions p r) = perm_of k p"
  by (cases k) (simp_all add: with_permissions_def)

text \<open>A fresh connection grants nothing that changes files, and does not watch.\<close>

lemma default_grants_nothing_physical:
  "k \<in> {CreateFolderPermission, MoveFilePermission, RenameFilePermission, WatchPermission} \<Longrightarrow>
    \<not> perm_of k (permissionsFromInput no_permissions)"
  by (auto simp: permissionsFromInput_def perm_of_merge no_permissions_def defaultBridgePermissions_def)

section \<open>Local files\<close>

text \<open>
  How a write of \<open>local-json-store.ts\<close> ends: the new content is renamed over the old and the directory is synced; the
  rename is done but opening or syncing the directory fails, so that it throws although the file has changed; or it
  fails before the rename and leaves the file.
\<close>

datatype write_end = Saved | Unsynced | Unwritten

definition writeLocalJson :: "write_end \<Rightarrow> 'a \<Rightarrow> 'a \<Rightarrow> (exn, unit) result \<times> 'a" where
  "writeLocalJson how new old =
     (case how of Saved \<Rightarrow> (Inr (), new) | Unsynced \<Rightarrow> (Inl (SysError EIO), new) | Unwritten \<Rightarrow> (Inl (SysError EIO), old))"

end
