(* ===== verification/FileSystem.thy ===== *)
theory FileSystem
  imports BridgeTypes
begin

text \<open>
  The file system behind Node's \<open>fs/promises\<close>: names of absolute paths in normal form,
  pointing to inodes, so that several names can share one inode (hard links). One function
  per call the Bridge makes, with the errors it tests for. Every name is one a path reaches
  without passing a symbolic link; where the code asks what a path with links really
  denotes, it calls \<open>realpath\<close>, whose resolution table is a field of the state.
  All names are on one device.
\<close>

section \<open>State\<close>

datatype node_kind = RegularFile | Directory | SymbolicLink

record inode =
  node_kind :: node_kind
  node_bytes :: string
  node_mtime :: int
  node_ctime :: int
  node_birthtime :: int
  node_readable :: bool

record fs =
  fs_entries :: "(string \<times> nat) list"
  fs_node :: "nat \<Rightarrow> inode"
  fs_next :: nat
  fs_dev :: nat
  fs_links :: "(string \<times> string) list"

text \<open>\<open>lstat(path, {bigint: true})\<close> answers with these fields.\<close>

record stats =
  st_dev :: nat
  st_ino :: nat
  st_kind :: node_kind
  st_size :: nat
  st_mtime :: int
  st_ctime :: int
  st_birthtime :: int

definition lookup :: "fs \<Rightarrow> string \<Rightarrow> nat option" where
  "lookup f p = map_of (fs_entries f) p"

definition kind_at :: "fs \<Rightarrow> string \<Rightarrow> node_kind option" where
  "kind_at f p = map_option (\<lambda>i. node_kind (fs_node f i)) (lookup f p)"

definition stats_of :: "fs \<Rightarrow> nat \<Rightarrow> stats" where
  "stats_of f i =
     \<lparr>st_dev = fs_dev f, st_ino = i, st_kind = node_kind (fs_node f i),
      st_size = length (node_bytes (fs_node f i)), st_mtime = node_mtime (fs_node f i),
      st_ctime = node_ctime (fs_node f i), st_birthtime = node_birthtime (fs_node f i)\<rparr>"

section \<open>Calls\<close>

definition fs_lstat :: "string \<Rightarrow> fs \<Rightarrow> (errno, stats) result" where
  "fs_lstat p f = (case lookup f p of None \<Rightarrow> Inl ENOENT | Some i \<Rightarrow> Inr (stats_of f i))"

definition is_file :: "stats \<Rightarrow> bool" where "is_file s \<longleftrightarrow> st_kind s = RegularFile"
definition is_directory :: "stats \<Rightarrow> bool" where "is_directory s \<longleftrightarrow> st_kind s = Directory"
definition is_symlink :: "stats \<Rightarrow> bool" where "is_symlink s \<longleftrightarrow> st_kind s = SymbolicLink"

text \<open>The directory entries below \<open>d\<close>, as base names.\<close>

definition children :: "fs \<Rightarrow> string \<Rightarrow> string list" where
  "children f d =
     map posix_basename (filter (\<lambda>p. p \<noteq> d \<and> posix_dirname p = d) (map fst (fs_entries f)))"

definition fs_readdir :: "string \<Rightarrow> fs \<Rightarrow> (errno, string list) result" where
  "fs_readdir d f =
     (case kind_at f d of None \<Rightarrow> Inl ENOENT
      | Some k \<Rightarrow> if k = Directory then Inr (children f d) else Inl ENOTDIR)"

text \<open>\<open>access(path, R_OK)\<close> follows links; \<open>realpath\<close> fails on a missing path.\<close>

definition fs_realpath :: "string \<Rightarrow> fs \<Rightarrow> (errno, string) result" where
  "fs_realpath p f =
     (case map_of (fs_links f) p of Some q \<Rightarrow> Inr q
      | None \<Rightarrow> (case lookup f p of None \<Rightarrow> Inl ENOENT | Some i \<Rightarrow> Inr p))"

definition fs_readable :: "string \<Rightarrow> fs \<Rightarrow> (errno, unit) result" where
  "fs_readable p f =
     rbind (fs_realpath p f) (\<lambda>q.
       case lookup f q of None \<Rightarrow> Inl ENOENT
       | Some i \<Rightarrow> if node_readable (fs_node f i) then Inr () else Inl EACCES)"

definition add_name :: "string \<Rightarrow> nat \<Rightarrow> fs \<Rightarrow> fs" where
  "add_name p i f = f\<lparr>fs_entries := (p, i) # filter (\<lambda>e. fst e \<noteq> p) (fs_entries f)\<rparr>"

definition del_name :: "string \<Rightarrow> fs \<Rightarrow> fs" where
  "del_name p f = f\<lparr>fs_entries := filter (\<lambda>e. fst e \<noteq> p) (fs_entries f)\<rparr>"

text \<open>\<open>link(source, destination)\<close>: a second name for the same inode, never a replacement.\<close>

definition fs_link :: "string \<Rightarrow> string \<Rightarrow> fs \<Rightarrow> (errno, fs) result" where
  "fs_link src dst f =
     (case lookup f src of
        None \<Rightarrow> Inl ENOENT
      | Some i \<Rightarrow>
          if node_kind (fs_node f i) = Directory then Inl EPERM
          else if lookup f dst \<noteq> None then Inl EEXIST
          else if kind_at f (posix_dirname dst) \<noteq> Some Directory then Inl ENOENT
          else Inr (add_name dst i f))"

text \<open>Names at or below \<open>src\<close> are renamed to the same place at or below \<open>dst\<close>.\<close>

definition move_prefix :: "string \<Rightarrow> string \<Rightarrow> string \<Rightarrow> string" where
  "move_prefix src dst p =
     (if p = src \<or> starts_with p (src @ [slash]) then dst @ drop (length src) p else p)"

definition is_nil :: "'a list \<Rightarrow> bool" where "is_nil xs \<longleftrightarrow> xs = []"

text \<open>
  \<open>rename(source, destination)\<close> replaces what \<open>destination\<close> names: a file by a file,
  an empty directory by a directory; two names of one inode are left alone.
\<close>

definition fs_rename :: "string \<Rightarrow> string \<Rightarrow> fs \<Rightarrow> (errno, fs) result" where
  "fs_rename src dst f =
     (case lookup f src of
        None \<Rightarrow> Inl ENOENT
      | Some i \<Rightarrow>
          if kind_at f (posix_dirname dst) \<noteq> Some Directory then Inl ENOENT
          else if lookup f dst = Some i then Inr f
          else if node_kind (fs_node f i) = Directory then
            (if starts_with dst (src @ [slash]) then Inl EPERM
             else case kind_at f dst of
               None \<Rightarrow> Inr (f\<lparr>fs_entries := map (\<lambda>(p, j). (move_prefix src dst p, j)) (fs_entries f)\<rparr>)
             | Some k \<Rightarrow>
                 if k \<noteq> Directory then Inl ENOTDIR
                 else if \<not> is_nil (children f dst) then Inl ENOTEMPTY
                 else Inr (f\<lparr>fs_entries := map (\<lambda>(p, j). (move_prefix src dst p, j))
                        (fs_entries (del_name dst f))\<rparr>))
          else if kind_at f dst = Some Directory then Inl EISDIR
          else Inr (add_name dst i (del_name src f)))"

definition fs_unlink :: "string \<Rightarrow> fs \<Rightarrow> (errno, fs) result" where
  "fs_unlink p f =
     (case kind_at f p of None \<Rightarrow> Inl ENOENT
      | Some k \<Rightarrow> if k = Directory then Inl EPERM else Inr (del_name p f))"

definition empty_dir :: inode where
  "empty_dir = \<lparr>node_kind = Directory, node_bytes = [], node_mtime = 0, node_ctime = 0,
     node_birthtime = 0, node_readable = True\<rparr>"

definition fs_mkdir :: "string \<Rightarrow> fs \<Rightarrow> (errno, fs) result" where
  "fs_mkdir p f =
     (if lookup f p \<noteq> None then Inl EEXIST
      else if kind_at f (posix_dirname p) \<noteq> Some Directory then Inl ENOENT
      else Inr ((add_name p (fs_next f) f)\<lparr>fs_node := (fs_node f)(fs_next f := empty_dir),
                  fs_next := Suc (fs_next f)\<rparr>))"

definition fs_rmdir :: "string \<Rightarrow> fs \<Rightarrow> (errno, fs) result" where
  "fs_rmdir p f =
     (case kind_at f p of
        None \<Rightarrow> Inl ENOENT
      | Some k \<Rightarrow>
          if k \<noteq> Directory then Inl ENOTDIR
          else if \<not> is_nil (children f p) then Inl ENOTEMPTY
          else Inr (del_name p f))"

section \<open>Facts about names\<close>

lemma lookup_add_name [simp]: "lookup (add_name p i f) = (lookup f)(p \<mapsto> i)"
proof
  fix q
  have "map_of (filter (\<lambda>e. fst e \<noteq> p) es) q = (if q = p then None else map_of es q)" for es :: "(string \<times> nat) list"
    by (induction es) auto
  then show "lookup (add_name p i f) q = ((lookup f)(p \<mapsto> i)) q"
    by (simp add: lookup_def add_name_def)
qed

lemma lookup_del_name [simp]: "lookup (del_name p f) = (lookup f)(p := None)"
proof
  fix q
  have "map_of (filter (\<lambda>e. fst e \<noteq> p) es) q = (if q = p then None else map_of es q)" for es :: "(string \<times> nat) list"
    by (induction es) auto
  then show "lookup (del_name p f) q = ((lookup f)(p := None)) q"
    by (simp add: lookup_def del_name_def)
qed

lemma names_nodes [simp]:
  "fs_node (add_name p i f) = fs_node f" "fs_node (del_name p f) = fs_node f"
  "fs_next (add_name p i f) = fs_next f" "fs_next (del_name p f) = fs_next f"
  "fs_dev (add_name p i f) = fs_dev f" "fs_dev (del_name p f) = fs_dev f"
  by (simp_all add: add_name_def del_name_def)

lemma lookup_updates [simp]:
  "lookup (f\<lparr>fs_node := n\<rparr>) = lookup f" "lookup (f\<lparr>fs_next := k\<rparr>) = lookup f"
  by (rule ext, simp add: lookup_def)+

text \<open>An inode is alive while some name points to it.\<close>

definition alive :: "nat \<Rightarrow> fs \<Rightarrow> bool" where
  "alive i f \<longleftrightarrow> (\<exists>p. lookup f p = Some i)"

lemma aliveI: "lookup f p = Some i \<Longrightarrow> alive i f"
  by (auto simp: alive_def)

lemma alive_add_name_free: "lookup f p = None \<Longrightarrow> alive i f \<Longrightarrow> alive i (add_name p j f)"
  unfolding alive_def by (metis fun_upd_other lookup_add_name option.distinct(1))

lemma alive_updates [simp]:
  "alive i (f\<lparr>fs_node := n\<rparr>) = alive i f" "alive i (f\<lparr>fs_next := k\<rparr>) = alive i f"
  by (simp_all add: alive_def)

lemma alive_link: "fs_link src dst f = Inr g \<Longrightarrow> alive i f \<Longrightarrow> alive i g"
  by (auto simp: fs_link_def split: option.splits if_splits intro: alive_add_name_free)

lemma alive_mkdir: "fs_mkdir p f = Inr g \<Longrightarrow> alive i f \<Longrightarrow> alive i g"
  by (auto simp: fs_mkdir_def split: if_splits intro: alive_add_name_free)

text \<open>Renaming a file onto a free name loses no inode.\<close>

lemma alive_rename_free:
  assumes "fs_rename src dst f = Inr g" "lookup f dst = None"
    "kind_at f src \<noteq> Some Directory" "alive i f"
  shows "alive i g"
proof -
  obtain j where j: "lookup f src = Some j" using assms(1) by (auto simp: fs_rename_def split: option.splits)
  have g: "g = add_name dst j (del_name src f)"
    using assms j by (auto simp: fs_rename_def kind_at_def split: if_splits)
  obtain p where p: "lookup f p = Some i" using assms(4) by (auto simp: alive_def)
  show ?thesis
  proof (cases "p = src")
    case True
    with p j g show ?thesis by (auto simp: alive_def)
  next
    case False
    with p assms(2) have "lookup g p = Some i" by (auto simp: g)
    then show ?thesis by (rule aliveI)
  qed
qed

lemma alive_unlink_other:
  assumes "fs_unlink p f = Inr g" "alive i f" "lookup f q = Some i" "q \<noteq> p"
  shows "alive i g"
  using assms by (intro aliveI[of g q]) (auto simp: fs_unlink_def split: option.splits if_splits)

lemma alive_del_other:
  assumes "alive i f" "lookup f p \<noteq> Some i"
  shows "alive i (del_name p f)"
  using assms by (auto simp: alive_def)

end
