(* ===== verification/PathSafety.thy ===== *)
theory PathSafety
  imports FileSystem
begin

text \<open>
  \<open>bridge-app/src/filesystem/safety.ts\<close>: which folders may be connected, and which paths
  an action may touch. The functions read the file system \<open>f\<close> and the working directory
  \<open>cwd\<close>; the host is POSIX, so \<open>pathKey\<close> keeps the case of a path and \<open>path.sep\<close> is
  the slash. \<open>bridgePlatform\<close> is an argument \<open>pf\<close>.
\<close>

section \<open>Definitions\<close>

definition unsafeWindowsDirectoryNames :: "string list" where
  "unsafeWindowsDirectoryNames =
     [''windows'', ''program files'', ''program files (x86)'', ''programdata'',
      ''$recycle.bin'', ''system volume information'']"

definition unsafePosixDirectoryNames :: "string list" where
  "unsafePosixDirectoryNames =
     [''applications'', ''bin'', ''boot'', ''dev'', ''etc'', ''library'', ''network'',
      ''private'', ''sbin'', ''system'', ''usr'', ''var'', ''volumes'']"

definition unsafeFolderNames :: "string list" where
  "unsafeFolderNames = [''.git'', ''.next'', ''node_modules'', ''prisma'']"

definition backslash :: char where "backslash = CHR 0x5C"

definition invalidPathCharacters :: "char list" where
  "invalidPathCharacters =
     [CHR ''<'', CHR ''>'', CHR '':'', CHR 0x22, backslash, CHR ''|'', CHR ''?'', CHR ''*'', CHR 0x00]"

text \<open>\<open>process.platform\<close> to the Bridge's platform names.\<close>

definition bridgePlatform :: "string \<Rightarrow> bridge_platform" where
  "bridgePlatform process_platform =
     (if process_platform = ''win32'' then WINDOWS
      else if process_platform = ''darwin'' then MACOS
      else if process_platform = ''linux'' then LINUX
      else UNKNOWN_PLATFORM)"

definition pathKey :: "string \<Rightarrow> string" where
  "pathKey value = posix_normalize value"

text \<open>\<open>.replace(/[\\/]$/, "")\<close>: one trailing slash or backslash goes.\<close>

definition strip_trailing :: "string \<Rightarrow> string" where
  "strip_trailing s = (if s \<noteq> [] \<and> (last s = slash \<or> last s = backslash) then butlast s else s)"

definition normalizeForComparison :: "string \<Rightarrow> string \<Rightarrow> string" where
  "normalizeForComparison cwd value = strip_trailing (pathKey (posix_resolve cwd [value]))"

definition isSameOrInside :: "string \<Rightarrow> string \<Rightarrow> string \<Rightarrow> bool" where
  "isSameOrInside cwd parent child =
     (let parentKey = normalizeForComparison cwd parent;
          childKey = normalizeForComparison cwd child
      in childKey = parentKey \<or> starts_with childKey (parentKey @ [slash]))"

text \<open>\<open>parts\<close>: the non-empty segments of a path below its root.\<close>

definition path_parts :: "string \<Rightarrow> string list" where
  "path_parts p = nonempty (split_on slash (drop (length (posix_root p)) p))"

definition safeLocationDescription :: "string \<Rightarrow> string" where
  "safeLocationDescription actual =
     (let normalized = posix_normalize actual;
          parts = path_parts normalized
      in if length parts = 0 then ''Computer root''
         else if length parts \<le> 2 then posix_join (posix_root normalized # parts)
         else posix_join (posix_root normalized # ''...'' # drop (length parts - 2) parts))"

definition displayNameForFolder :: "string \<Rightarrow> string" where
  "displayNameForFolder actual =
     (let b = posix_basename actual in if b = [] then ''Connected Folder'' else b)"

definition ensureNotDriveRoot :: "string \<Rightarrow> string \<Rightarrow> (exn, unit) result" where
  "ensureNotDriveRoot cwd actual =
     (if normalizeForComparison cwd actual = normalizeForComparison cwd (posix_root actual)
      then Inl (BridgeAppError UNSAFE_SYSTEM_ROOT 422) else Inr ())"

definition ensureNotSystemDirectory :: "bridge_platform \<Rightarrow> string \<Rightarrow> (exn, unit) result" where
  "ensureNotSystemDirectory pf actual =
     (let parts = path_parts actual in
      if (case parts of [] \<Rightarrow> False | p # _ \<Rightarrow>
            let firstPart = to_lower p in
            firstPart \<in> set unsafeWindowsDirectoryNames \<or>
            (pf \<noteq> WINDOWS \<and> firstPart \<in> set unsafePosixDirectoryNames))
      then Inl (BridgeAppError UNSAFE_SYSTEM_DIRECTORY 422)
      else if \<exists>part \<in> set parts. to_lower part \<in> set unsafeFolderNames
      then Inl (BridgeAppError UNSAFE_APPLICATION_DIRECTORY 422)
      else Inr ())"

definition normalizedApplicationPath :: "string \<Rightarrow> string \<Rightarrow> string option" where
  "normalizedApplicationPath cwd value =
     (let trimmed = trim value in
      if trimmed = [] then None
      else let resolved = posix_resolve cwd [trimmed] in
        if normalizeForComparison cwd resolved = normalizeForComparison cwd (posix_root resolved)
        then None else Some resolved)"

definition ensureNotAppDirectory :: "string \<Rightarrow> string list \<Rightarrow> string \<Rightarrow> (exn, unit) result" where
  "ensureNotAppDirectory cwd forbiddenApplicationPaths actual =
     (let forbidden = unique (List.map_filter (normalizedApplicationPath cwd) forbiddenApplicationPaths) in
      if \<exists>appPath \<in> set forbidden. isSameOrInside cwd appPath actual \<or> isSameOrInside cwd actual appPath
      then Inl (BridgeAppError UNSAFE_APPLICATION_DIRECTORY 422) else Inr ())"

definition validateRootPath ::
  "string \<Rightarrow> bridge_platform \<Rightarrow> string list \<Rightarrow> string \<Rightarrow> fs \<Rightarrow> (exn, string) result" where
  "validateRootPath cwd pf forbidden folderPath f =
     (let trimmed = trim folderPath in
      if trimmed = [] then Inl (BridgeAppError EMPTY_PATH 400)
      else let resolvedPath = posix_resolve cwd [trimmed] in
        case fs_lstat resolvedPath f of
          Inl _ \<Rightarrow> Inl (BridgeAppError FOLDER_UNREADABLE 422)
        | Inr st \<Rightarrow>
            if is_symlink st then Inl (BridgeAppError UNSAFE_SYMLINK 422)
            else if \<not> is_directory st then Inl (BridgeAppError FOLDER_UNREADABLE 422)
            else case fs_readable resolvedPath f of
              Inl _ \<Rightarrow> Inl (BridgeAppError FOLDER_UNREADABLE 422)
            | Inr _ \<Rightarrow>
                (case fs_realpath resolvedPath f of
                   Inl e \<Rightarrow> Inl (SysError e)
                 | Inr realRoot \<Rightarrow>
                     rbind (ensureNotDriveRoot cwd realRoot) (\<lambda>_.
                     rbind (ensureNotSystemDirectory pf realRoot) (\<lambda>_.
                     rbind (ensureNotAppDirectory cwd forbidden realRoot) (\<lambda>_.
                     Inr (posix_normalize realRoot))))))"

definition is_letter :: "char \<Rightarrow> bool" where
  "is_letter c = (let n = (of_char c :: nat) in (65 \<le> n \<and> n \<le> 90) \<or> (97 \<le> n \<and> n \<le> 122))"

definition hasDrivePrefix :: "string \<Rightarrow> bool" where
  "hasDrivePrefix value =
     (case trim value of a # b # _ \<Rightarrow> is_letter a \<and> b = CHR '':'' | _ \<Rightarrow> False)"

definition invalidPathSegment :: "string \<Rightarrow> bool" where
  "invalidPathSegment segment \<longleftrightarrow>
     trim segment = [] \<or> segment = dot \<or> segment = dotdot \<or>
     (\<exists>c \<in> set segment. c \<in> set invalidPathCharacters)"

definition normalizeRelativePath :: "string \<Rightarrow> bool \<Rightarrow> (exn, string) result" where
  "normalizeRelativePath value allowRoot =
     (let trimmed = replace_char backslash slash (trim value) in
      if trimmed = [] then
        (if allowRoot then Inr [] else Inl (BridgeAppError INVALID_RELATIVE_PATH 400))
      else if posix_isAbsolute trimmed \<or> hasDrivePrefix trimmed
      then Inl (BridgeAppError ABSOLUTE_PATH_REJECTED 403)
      else let normalized = posix_normalize trimmed in
        if normalized = dotdot \<or> starts_with normalized (dotdot @ [slash]) \<or> posix_isAbsolute normalized
        then Inl (BridgeAppError PATH_TRAVERSAL_REJECTED 403)
        else if normalized = dot then
          (if allowRoot then Inr [] else Inl (BridgeAppError INVALID_RELATIVE_PATH 400))
        else if \<exists>s \<in> set (split_on slash normalized). invalidPathSegment s
        then Inl (BridgeAppError INVALID_RELATIVE_PATH 400)
        else Inr normalized)"

definition isPathInsideRoot :: "string \<Rightarrow> string \<Rightarrow> string \<Rightarrow> bool" where
  "isPathInsideRoot cwd rootPath candidatePath =
     (let rootKey = normalizeForComparison cwd rootPath;
          candidateKey = normalizeForComparison cwd candidatePath
      in candidateKey \<noteq> rootKey \<and> starts_with candidateKey (rootKey @ [slash]))"

text \<open>\<open>real && !isSameOrInside(realRoot, real)\<close>, where a failed \<open>realpath\<close> is \<open>null\<close>.\<close>

definition escapes :: "string \<Rightarrow> string \<Rightarrow> (errno, string) result \<Rightarrow> bool" where
  "escapes cwd realRoot real =
     (case real of Inl _ \<Rightarrow> False | Inr p \<Rightarrow> p \<noteq> [] \<and> \<not> isSameOrInside cwd realRoot p)"

text \<open>The pair of the result's \<open>relativePath\<close> and \<open>resolvedPath\<close>.\<close>

definition resolveInsideRoot ::
  "string \<Rightarrow> string \<Rightarrow> string \<Rightarrow> bool \<Rightarrow> fs \<Rightarrow> (exn, string \<times> string) result" where
  "resolveInsideRoot cwd rootPath relativePath allowRoot f =
     rbind (normalizeRelativePath relativePath allowRoot) (\<lambda>rel.
       let resolvedPath =
             posix_normalize (posix_resolve cwd (rootPath # nonempty (split_on slash rel)))
       in case fs_realpath rootPath f of
            Inl e \<Rightarrow> Inl (SysError e)
          | Inr realRoot \<Rightarrow>
              let parentForRealpath = (if rel \<noteq> [] then posix_dirname resolvedPath else resolvedPath);
                  realParent = fs_realpath parentForRealpath f;
                  realResolvedPath = fs_realpath resolvedPath f
              in if \<not> isSameOrInside cwd realRoot resolvedPath
                 then Inl (BridgeAppError PATH_OUTSIDE_ROOT 403)
                 else if escapes cwd realRoot realParent
                 then Inl (BridgeAppError SYMLINK_ESCAPE_REJECTED 403)
                 else if escapes cwd realRoot realResolvedPath
                 then Inl (BridgeAppError SYMLINK_ESCAPE_REJECTED 403)
                 else Inr (rel, resolvedPath))"

definition bridgeRootUri :: "string \<Rightarrow> string \<Rightarrow> string" where
  "bridgeRootUri rootId relativePath =
     (let normalized = join_with [slash]
            (nonempty (split_on slash (replace_char backslash slash (trim relativePath))))
      in if normalized \<noteq> [] then ''bridge://'' @ rootId @ [slash] @ normalized
         else ''bridge://'' @ rootId)"

text \<open>\<open>/^bridge:\\/\\/([^/]+)(?:\\/.*)?$/\<close>, whose dot matches no line terminator.\<close>

definition bridgeRootIdFromUri :: "string \<Rightarrow> string option" where
  "bridgeRootIdFromUri value =
     (if starts_with value ''bridge://'' then
        (let rest = drop 9 value;
             group = takeWhile (\<lambda>c. c \<noteq> slash) rest;
             tail = dropWhile (\<lambda>c. c \<noteq> slash) rest
         in if group \<noteq> [] \<and> CHR 0x0A \<notin> set tail \<and> CHR 0x0D \<notin> set tail then Some group else None)
      else None)"

section \<open>Relative paths\<close>

text \<open>What a relative path accepted by \<open>normalizeRelativePath\<close> looks like.\<close>

definition safe_relative :: "string \<Rightarrow> bool" where
  "safe_relative r \<longleftrightarrow>
     (\<forall>s \<in> set (split_on slash r). plain_seg s \<and> trim s \<noteq> [] \<and>
        (\<forall>c \<in> set s. c \<notin> set invalidPathCharacters))"

lemma trim_Nil [simp]: "trim [] = []"
  by (simp add: trim_def)

lemma invalidPathSegment_plain:
  "\<not> invalidPathSegment s \<Longrightarrow> slash \<notin> set s \<Longrightarrow> plain_seg s"
  by (auto simp: invalidPathSegment_def plain_seg_def)

lemma normalizeRelativePath_safe_aux:
  assumes "normalizeRelativePath value allowRoot = Inr r"
  shows "(r = [] \<and> allowRoot) \<or> safe_relative r"
  using assms
  by (auto simp: normalizeRelativePath_def Let_def safe_relative_def invalidPathSegment_def
      plain_seg_def dest: split_on_pieces split: if_splits)

lemma safe_relative_segs:
  "safe_relative r \<Longrightarrow> \<forall>s \<in> set (split_on slash r). plain_seg s"
  by (simp add: safe_relative_def)

lemma nonempty_plain [simp]: "\<forall>s \<in> set xs. plain_seg s \<Longrightarrow> nonempty xs = xs"
  by (simp add: nonempty_def plain_seg_def)

section \<open>Containment\<close>

lemma strip_trailing_abs:
  assumes "\<forall>s \<in> set segs. plain_seg s \<and> last s \<noteq> backslash"
  shows "strip_trailing (abs_path segs) = (if segs = [] then [] else abs_path segs)"
proof (cases "segs = []")
  case False
  have ne: "join_with [slash] segs \<noteq> []"
    using assms False by (subst join_with_Nil_iff) (auto simp: plain_seg_def)
  have "last (join_with [slash] segs) \<noteq> backslash"
    using assms False
  proof (induction "[slash]" segs rule: join_with.induct)
    case (3 x y ys)
    moreover have "join_with [slash] (y # ys) \<noteq> []"
      using 3 by (subst join_with_Nil_iff) (auto simp: plain_seg_def)
    ultimately show ?case by simp
  qed auto
  with ne False join_last[of segs] assms show ?thesis
    by (simp add: strip_trailing_def abs_path_def)
qed (simp add: strip_trailing_def abs_path_def)

definition clean_segs :: "string list \<Rightarrow> bool" where
  "clean_segs segs \<longleftrightarrow> (\<forall>s \<in> set segs. plain_seg s \<and> last s \<noteq> backslash)"

lemma clean_segs_plain: "clean_segs segs \<Longrightarrow> \<forall>s \<in> set segs. plain_seg s"
  by (simp add: clean_segs_def)

lemma comparison_key:
  assumes "clean_segs segs"
  shows "normalizeForComparison cwd (abs_path segs) = (if segs = [] then [] else abs_path segs)"
  using assms by (simp add: normalizeForComparison_def pathKey_def strip_trailing_abs clean_segs_def)

lemma starts_with_abs_path:
  assumes "\<forall>s \<in> set r. plain_seg s" "\<forall>s \<in> set c. plain_seg s" "r \<noteq> []"
  shows "starts_with (abs_path c) (abs_path r @ [slash]) \<longleftrightarrow> (\<exists>s. s \<noteq> [] \<and> c = r @ s)"
proof
  assume "starts_with (abs_path c) (abs_path r @ [slash])"
  then obtain t where t: "abs_path c = abs_path r @ slash # t"
    by (auto simp: starts_with_iff)
  have "[] # (if c = [] then [[]] else c) = ([] # r) @ split_on slash t"
    using arg_cong[OF t, of "split_on slash"] assms by (simp add: split_on_app split_abs_path)
  with assms(3) have "c = r @ split_on slash t" by (cases r) (auto split: if_splits simp: assms(1) plain_seg_def)
  then show "\<exists>s. s \<noteq> [] \<and> c = r @ s" by (metis split_on_not_Nil)
next
  assume "\<exists>s. s \<noteq> [] \<and> c = r @ s"
  with assms(3) show "starts_with (abs_path c) (abs_path r @ [slash])"
    by (auto simp: starts_with_iff abs_path_def join_with_append)
qed

lemma abs_path_slash [simp]:
  "starts_with (abs_path c) [slash]" "abs_path c \<noteq> []" "[] \<noteq> abs_path c"
  by (simp_all add: starts_with_def abs_path_def)

lemma isSameOrInside_iff:
  assumes "clean_segs r" "clean_segs c"
  shows "isSameOrInside cwd (abs_path r) (abs_path c) \<longleftrightarrow> (\<exists>s. c = r @ s)"
proof (cases "r = []")
  case True
  then show ?thesis
    using assms by (simp add: isSameOrInside_def comparison_key Let_def)
next
  case False
  have eq: "abs_path c = abs_path r \<longleftrightarrow> c = r"
    using assms by (simp add: abs_path_inject clean_segs_plain)
  have "isSameOrInside cwd (abs_path r) (abs_path c) \<longleftrightarrow> c = r \<or> (\<exists>s. s \<noteq> [] \<and> c = r @ s)"
  proof (cases "c = []")
    case True
    with False show ?thesis
      using assms by (simp add: isSameOrInside_def comparison_key Let_def starts_with_def)
  next
    case c: False
    show ?thesis
      using assms False c starts_with_abs_path[OF assms(1)[THEN clean_segs_plain] assms(2)[THEN clean_segs_plain]]
      by (simp add: isSameOrInside_def comparison_key Let_def eq)
  qed
  also have "\<dots> \<longleftrightarrow> (\<exists>s. c = r @ s)" by (metis append_Nil2)
  finally show ?thesis .
qed

lemma isPathInsideRoot_prefix:
  assumes "clean_segs r" "clean_segs c"
  shows "isPathInsideRoot cwd (abs_path r) (abs_path c) \<longleftrightarrow> (\<exists>s. s \<noteq> [] \<and> c = r @ s)"
proof (cases "r = []")
  case True
  then show ?thesis
    using assms by (simp add: isPathInsideRoot_def comparison_key Let_def)
next
  case False
  have eq: "abs_path c = abs_path r \<longleftrightarrow> c = r"
    using assms by (simp add: abs_path_inject clean_segs_plain)
  show ?thesis
  proof (cases "c = []")
    case True
    with False show ?thesis
      using assms by (simp add: isPathInsideRoot_def comparison_key Let_def starts_with_def)
  next
    case c: False
    show ?thesis
      using assms False c starts_with_abs_path[OF assms(1)[THEN clean_segs_plain] assms(2)[THEN clean_segs_plain]]
      by (auto simp add: isPathInsideRoot_def comparison_key Let_def eq)
  qed
qed

section \<open>Properties\<close>

lemma set_trim: "set (trim s) \<subseteq> set s"
  unfolding trim_def by (auto dest!: set_dropWhileD)

lemma set_join_split: "c \<in> set r \<Longrightarrow> c = d \<or> (\<exists>s \<in> set (split_on d r). c \<in> set s)"
proof (induction r)
  case (Cons a r)
  obtain y ys where "split_on d r = y # ys" by (cases "split_on d r") auto
  with Cons show ?case by auto
qed simp

lemma safe_relative_chars:
  assumes "safe_relative r" "c \<in> set r" "c \<noteq> slash"
  shows "c \<notin> set invalidPathCharacters"
  using set_join_split[OF assms(2), of slash] assms(1,3) by (auto simp: safe_relative_def)

lemma safe_relative_no_drive: "safe_relative r \<Longrightarrow> \<not> hasDrivePrefix r"
  using set_trim[of r] safe_relative_chars[of r "CHR '':''"]
  by (auto simp: hasDrivePrefix_def invalidPathCharacters_def slash_def split: list.splits)

lemma safe_relative_canonical:
  assumes "safe_relative r"
  shows "posix_normalize r = r" "\<not> posix_isAbsolute r"
proof -
  have plain: "\<forall>s \<in> set (split_on slash r). plain_seg s" using assms by (rule safe_relative_segs)
  have ne: "r \<noteq> []" using plain by (intro notI) (simp add: plain_seg_def)
  show "\<not> posix_isAbsolute r"
    using plain ne by (cases r) (auto simp: posix_isAbsolute_def plain_seg_def)
  moreover have "last r \<noteq> slash"
    using join_last[OF plain] by simp
  ultimately show "posix_normalize r = r"
    using ne plain by (simp add: posix_normalize_def norm_segs_plain Let_def)
qed

text \<open>
  Whatever text an action carries, a relative path that \<open>normalizeRelativePath\<close>
  accepts is confined: it is the connected folder itself only where that is allowed, and
  otherwise a canonical relative path (normalising it again changes nothing, no drive
  letter, not absolute) whose segments are neither empty nor blank, neither \<open>.\<close> nor
  \<open>..\<close>, and free of the forbidden characters.
\<close>

theorem normalizeRelativePath_confined:
  assumes "normalizeRelativePath value allowRoot = Inr r"
  shows "(r = [] \<and> allowRoot) \<or>
    (safe_relative r \<and> posix_normalize r = r \<and> \<not> posix_isAbsolute r \<and> \<not> hasDrivePrefix r)"
  using normalizeRelativePath_safe_aux[OF assms] safe_relative_canonical safe_relative_no_drive
  by blast

theorem normalizeRelativePath_confined_witness:
  "safe_relative ''Notes/a.txt'' \<and> posix_normalize ''Notes/a.txt'' = ''Notes/a.txt''"
proof -
  have "normalizeRelativePath ''Drafts/../Notes//./a.txt'' False = Inr ''Notes/a.txt''"
    by code_simp
  from normalizeRelativePath_confined[OF this] show ?thesis by simp
qed

lemma fs_realpath_resolved: "fs_realpath p f = Inr q \<Longrightarrow> lookup f p \<noteq> None \<or> map_of (fs_links f) p \<noteq> None"
  by (auto simp: fs_realpath_def split: option.splits)

lemma resolve_inside_path:
  assumes "posix_isAbsolute root" "r = [] \<or> safe_relative r"
  shows "posix_normalize (posix_resolve cwd (root # nonempty (split_on slash r))) =
    abs_path (norm_segs False [] (split_on slash root) @ nonempty (split_on slash r))"
    "r = join_with [slash] (nonempty (split_on slash r))"
    "\<forall>s \<in> set (nonempty (split_on slash r)). plain_seg s"
proof -
  have plain: "\<forall>s \<in> set (nonempty (split_on slash r)). plain_seg s"
    using assms(2) safe_relative_segs[of r] by (auto simp: nonempty_def)
  have "\<forall>s \<in> set (norm_segs False [] (split_on slash root) @ nonempty (split_on slash r)). plain_seg s"
    using plain plain_root_segs[of root] by auto
  then show "posix_normalize (posix_resolve cwd (root # nonempty (split_on slash r))) =
    abs_path (norm_segs False [] (split_on slash root) @ nonempty (split_on slash r))"
    by (simp only: resolve_plain[OF plain assms(1)] normalize_abs_path)
  show "r = join_with [slash] (nonempty (split_on slash r))"
    using assms(2)
  proof
    assume "r = []"
    then show ?thesis by (simp add: nonempty_def)
  next
    assume "safe_relative r"
    then show ?thesis by (simp add: safe_relative_segs)
  qed
  show "\<forall>s \<in> set (nonempty (split_on slash r)). plain_seg s" by (rule plain)
qed

lemma resolve_contained:
  assumes "resolveInsideRoot cwd root rel allowRoot f = Inr (r, p)" and "posix_isAbsolute root"
  shows "\<exists>segs realRoot.
    p = abs_path (norm_segs False [] (split_on slash root) @ segs) \<and>
    r = join_with [slash] segs \<and> (\<forall>s \<in> set segs. plain_seg s) \<and> (segs = [] \<longrightarrow> allowRoot) \<and>
    fs_realpath root f = Inr realRoot \<and> isSameOrInside cwd realRoot p \<and>
    (\<forall>q. fs_realpath (abs_path (norm_segs False [] (split_on slash root) @ butlast segs)) f = Inr q \<and> q \<noteq> [] \<longrightarrow>
      isSameOrInside cwd realRoot q) \<and>
    (\<forall>q. fs_realpath p f = Inr q \<and> q \<noteq> [] \<longrightarrow> isSameOrInside cwd realRoot q)"
proof -
  obtain realRoot where real: "fs_realpath root f = Inr realRoot"
    using assms(1)
    by (cases "normalizeRelativePath rel allowRoot"; cases "fs_realpath root f")
      (auto simp: resolveInsideRoot_def)
  have n: "normalizeRelativePath rel allowRoot = Inr r"
    and p: "p = posix_normalize (posix_resolve cwd (root # nonempty (split_on slash r)))"
    and inside: "isSameOrInside cwd realRoot p" "\<not> escapes cwd realRoot (fs_realpath p f)"
      "\<not> escapes cwd realRoot (fs_realpath (if r \<noteq> [] then posix_dirname p else p) f)"
    using assms(1)
    by (cases "normalizeRelativePath rel allowRoot",
        auto simp: resolveInsideRoot_def real Let_def split: if_split_asm)+
  have noescape: "\<forall>q. fs_realpath p f = Inr q \<and> q \<noteq> [] \<longrightarrow> isSameOrInside cwd realRoot q"
    using inside(2) by (auto simp: escapes_def)
  have r: "r = [] \<and> allowRoot \<or> safe_relative r" using n by (rule normalizeRelativePath_safe_aux)
  then have r': "r = [] \<or> safe_relative r" by blast
  note segs = resolve_inside_path[OF assms(2) r']
  let ?root = "norm_segs False [] (split_on slash root)" and ?segs = "nonempty (split_on slash r)"
  have "?segs = [] \<longrightarrow> allowRoot"
    using r segs(2) by (auto simp: safe_relative_def plain_seg_def)
  moreover have "(if r \<noteq> [] then posix_dirname p else p) = abs_path (?root @ butlast ?segs)"
  proof (cases "?segs" rule: rev_cases)
    case Nil
    then have "r = []" using segs(2) by simp
    with Nil p segs(1) show ?thesis by simp
  next
    case (snoc ys x)
    then have "r \<noteq> []" by (auto simp: nonempty_def)
    moreover have "\<forall>s \<in> set (?root @ ys). plain_seg s" "plain_seg x"
      using segs(3) plain_root_segs[of root] unfolding snoc by auto
    then have "posix_dirname (abs_path ((?root @ ys) @ [x])) = abs_path (?root @ ys)" by (rule dirname_abs_path)
    ultimately show ?thesis using p segs(1) unfolding snoc by simp
  qed
  then have "\<forall>q. fs_realpath (abs_path (?root @ butlast ?segs)) f = Inr q \<and> q \<noteq> [] \<longrightarrow> isSameOrInside cwd realRoot q"
    using inside(3) by (auto simp: escapes_def simp del: append_assoc)
  ultimately show ?thesis
    using p real inside(1) noescape segs
    by (intro exI[of _ ?segs] exI[of _ realRoot] conjI) simp_all
qed


definition sample_fs :: fs where
  "sample_fs =
     \<lparr>fs_entries = [(''/u/lib'', 2), (''/u'', 1), (''/'', 0)], fs_node = (\<lambda>_. empty_dir),
      fs_next = 3, fs_dev = 7, fs_links = []\<rparr>"


text \<open>
  On canonical paths whose names do not end in a backslash, \<open>isPathInsideRoot\<close> is the
  proper prefix order on segments: \<open>/a/b\<close> is inside \<open>/a\<close>, while \<open>/ab\<close> and \<open>/a\<close>
  itself are not, although they share the characters.
\<close>

theorem isPathInsideRoot_iff:
  assumes "clean_segs r" "clean_segs c"
  shows "isPathInsideRoot cwd (abs_path r) (abs_path c) \<longleftrightarrow> (\<exists>s. s \<noteq> [] \<and> c = r @ s)"
  using assms by (rule isPathInsideRoot_prefix)

theorem isPathInsideRoot_iff_witness:
  "isPathInsideRoot ''/'' (abs_path [''a'']) (abs_path [''a'', ''b'']) \<and>
   \<not> isPathInsideRoot ''/'' (abs_path [''a'']) (abs_path [''ab''])"
proof -
  have "clean_segs [''a'']" "clean_segs [''a'', ''b'']" "clean_segs [''ab'']"
    by (code_simp, code_simp, code_simp)
  then show ?thesis
    using isPathInsideRoot_iff[of "[''a'']" "[''a'', ''b'']" "''/''"]
      isPathInsideRoot_iff[of "[''a'']" "[''ab'']" "''/''"]
    by simp
qed

text \<open>
  The restriction is needed: a backslash is an ordinary character in a POSIX name, and
  \<open>normalizeForComparison\<close> drops it from the end of a path.
\<close>

lemma trailing_backslash_conflated:
  "isPathInsideRoot ''/'' (''/lib'' @ [backslash]) ''/lib/a.txt''"
  by code_simp

text \<open>
  A folder accepted by \<open>validateRootPath\<close> is a real directory at the resolved place,
  not a link, and its real path is not the whole drive, does not start at a system
  directory, has no application folder name among its segments, and neither contains nor
  lies in any of the application's own directories.
\<close>

theorem validateRootPath_safe:
  assumes "validateRootPath cwd pf forbidden folderPath f = Inr p"
  shows "\<exists>st real. fs_lstat (posix_resolve cwd [trim folderPath]) f = Inr st \<and>
    st_kind st = Directory \<and> p = posix_normalize real \<and>
    normalizeForComparison cwd real \<noteq> normalizeForComparison cwd (posix_root real) \<and>
    (\<forall>d ds. path_parts real = d # ds \<longrightarrow>
       to_lower d \<notin> set unsafeWindowsDirectoryNames \<and>
       (pf \<noteq> WINDOWS \<longrightarrow> to_lower d \<notin> set unsafePosixDirectoryNames)) \<and>
    (\<forall>d \<in> set (path_parts real). to_lower d \<notin> set unsafeFolderNames) \<and>
    (\<forall>a \<in> set forbidden. \<forall>app. normalizedApplicationPath cwd a = Some app \<longrightarrow>
       \<not> isSameOrInside cwd app real \<and> \<not> isSameOrInside cwd real app)"
proof -
  obtain st real where st: "fs_lstat (posix_resolve cwd [trim folderPath]) f = Inr st"
    "st_kind st = Directory"
    and real: "p = posix_normalize real" "ensureNotDriveRoot cwd real = Inr ()"
      "ensureNotSystemDirectory pf real = Inr ()" "ensureNotAppDirectory cwd forbidden real = Inr ()"
    using assms
    by (auto simp: validateRootPath_def Let_def is_directory_def split: sum.splits if_splits)
  have "\<forall>a \<in> set forbidden. \<forall>app. normalizedApplicationPath cwd a = Some app \<longrightarrow>
       \<not> isSameOrInside cwd app real \<and> \<not> isSameOrInside cwd real app"
    using real(4) by (auto simp: ensureNotAppDirectory_def Let_def map_filter_def split: if_splits)
  moreover have "normalizeForComparison cwd real \<noteq> normalizeForComparison cwd (posix_root real)"
    using real(2) by (auto simp: ensureNotDriveRoot_def split: if_splits)
  ultimately show ?thesis
    using st real(1,3)
    by (intro exI[of _ st] exI[of _ real])
      (auto simp: ensureNotSystemDirectory_def Let_def split: if_splits list.splits)
qed

theorem validateRootPath_safe_witness:
  "\<exists>real. ''/u/lib'' = posix_normalize real \<and>
     (\<forall>d \<in> set (path_parts real). to_lower d \<notin> set unsafeFolderNames)"
proof -
  have "validateRootPath ''/'' MACOS [''/opt/nsn''] '' /u/lib '' sample_fs = Inr ''/u/lib''"
    by code_simp
  from validateRootPath_safe[OF this] show ?thesis by blast
qed

lemma set_normalized_path:
  "set (join_with [slash] (nonempty (split_on slash s))) \<subseteq> insert slash (set s)"
proof -
  have j: "set (join_with [slash] xs) \<subseteq> insert slash (\<Union> (set ` set xs))" for xs
    by (induction "[slash]" xs rule: join_with.induct) auto
  have "\<Union> (set ` set (split_on slash s)) \<subseteq> set s"
  proof (induction s)
    case (Cons a s)
    obtain y ys where "split_on slash s = y # ys" by (cases "split_on slash s") auto
    with Cons show ?case by auto
  qed simp
  then have "\<Union> (set ` set (nonempty (split_on slash s))) \<subseteq> set s"
    by (auto simp: nonempty_def)
  then show ?thesis by (rule subset_trans[OF j insert_mono])
qed

text \<open>
  C17. \<open>bridgeRootIdFromUri\<close> reads back the root of every URI \<open>bridgeRootUri\<close> writes for a
  nonempty root id without slashes, whatever the relative path, as long as that path has no
  line terminator.
\<close>

theorem bridgeRootUri_roundtrip:
  assumes "rootId \<noteq> []" "slash \<notin> set rootId"
    and "CHR 0x0A \<notin> set rel" "CHR 0x0D \<notin> set rel"
  shows "bridgeRootIdFromUri (bridgeRootUri rootId rel) = Some rootId"
proof -
  define n where "n = join_with [slash] (nonempty (split_on slash (replace_char backslash slash (trim rel))))"
  have "set (replace_char backslash slash (trim rel)) \<subseteq> insert slash (set rel)"
    using set_trim[of rel] by (auto simp: replace_char_def)
  then have "set n \<subseteq> insert slash (set rel)"
    using set_normalized_path[of "replace_char backslash slash (trim rel)"] unfolding n_def by blast
  then have nl: "CHR 0x0A \<notin> set n" "CHR 0x0D \<notin> set n"
    using assms(3,4) by (auto simp: slash_def)
  have uri: "bridgeRootUri rootId rel = ''bridge://'' @ rootId @ (if n = [] then [] else slash # n)"
    by (simp add: bridgeRootUri_def n_def)
  have id: "\<forall>c \<in> set rootId. c \<noteq> slash" using assms(2) by blast
  have split: "takeWhile (\<lambda>c. c \<noteq> slash) (rootId @ tl) = rootId"
    "dropWhile (\<lambda>c. c \<noteq> slash) (rootId @ tl) = tl"
    if "tl = [] \<or> (\<exists>t. tl = slash # t)" for tl
    using that id by (auto simp: takeWhile_append2 dropWhile_append2 takeWhile_eq_all_conv)
  have drop: "drop 9 (''bridge://'' @ rootId @ tl) = rootId @ tl" for tl by simp
  show ?thesis
    using assms(1) nl split[of "if n = [] then [] else slash # n"]
    by (simp only: uri bridgeRootIdFromUri_def starts_with_append drop Let_def) (simp add: slash_def)
qed

theorem bridgeRootUri_roundtrip_witness:
  "bridgeRootIdFromUri (bridgeRootUri ''root_1'' ''Notes/a.txt'') = Some ''root_1''"
  by (rule bridgeRootUri_roundtrip) (simp_all add: slash_def)

text \<open>A name with a line feed is legal on POSIX, and its URI is not read back.\<close>

lemma line_feed_uri_unreadable:
  "bridgeRootIdFromUri (bridgeRootUri ''root_1'' (''a'' @ [CHR 0x0A] @ ''b'')) = None"
  by code_simp

end
