(* ===== verification/Registry.thy ===== *)
theory Registry
  imports PathSafety
begin

text \<open>
  \<open>bridge-app/src/main/registry.ts\<close>: the Bridge's private registry of connected folders
  and pending folder selections. The file is absent, unreadable as a registry, or a
  registry; an operation reads it, computes, and writes it back. Every mutation holds the
  registry lock for its whole read-compute-write (\<open>withLocalStoreLock\<close>), so it is one
  transition here; the locks themselves are not state of the registry. The environment
  supplies the clock, the random token, the hash, the host and how the write of the
  file ends.
\<close>

section \<open>State and environment\<close>

record registry =
  reg_roots :: "bridge_root list"
  reg_selections :: "folder_selection list"

datatype registry_file = Absent | Corrupt | Stored registry

record reg_env =
  env_now :: int
  env_token :: string
  env_sha256 :: "string \<Rightarrow> string"
  env_cwd :: string
  env_platform :: bridge_platform
  env_forbidden :: "string list"
  env_fs :: fs
  env_write :: write_end

definition folderSelectionTtlMs :: int where "folderSelectionTtlMs = 10 * 60 * 1000"

definition readRegistry :: "registry_file \<Rightarrow> (exn, registry) result" where
  "readRegistry file =
     (case file of Absent \<Rightarrow> Inr \<lparr>reg_roots = [], reg_selections = []\<rparr>
      | Corrupt \<Rightarrow> Inl (BridgeAppError REGISTRY_CORRUPT 503)
      | Stored r \<Rightarrow> Inr r)"

definition writeRegistry :: "reg_env \<Rightarrow> registry \<Rightarrow> registry_file \<Rightarrow> (exn, unit) result \<times> registry_file" where
  "writeRegistry env r file = writeLocalJson (env_write env) (Stored r) file"

section \<open>Root identities\<close>

definition rootIdForPath :: "(string \<Rightarrow> string) \<Rightarrow> string \<Rightarrow> string" where
  "rootIdForPath sha256 actual = ''root_'' @ take 24 (sha256 (pathKey actual))"

lemma dropWhile_twice_shorter:
  assumes "xs \<noteq> []"
  shows "length (dropWhile (\<lambda>c. c \<noteq> s) (dropWhile (\<lambda>c. c = s) xs)) < length xs"
  using assms
proof (induction xs)
  case (Cons a ys)
  show ?case
  proof (cases "a = s")
    case True
    show ?thesis
      using Cons.IH by (cases "ys = []") (simp_all add: True)
  next
    case False
    then show ?thesis by (simp add: less_Suc_eq_le length_dropWhile_le)
  qed
qed simp

lemma dirname_shrinks:
  "posix_dirname p = dot \<or> p = [slash] \<or> length (posix_dirname p) < length p"
proof (cases "p = []")
  case False
  define rest where "rest = dropWhile (\<lambda>c. c \<noteq> slash) (dropWhile (\<lambda>c. c = slash) (rev p))"
  have lt: "length rest < length p"
    using dropWhile_twice_shorter[of "rev p" slash] False by (simp add: rest_def)
  have root: "hd p = slash \<Longrightarrow> p = [slash] \<or> 1 < length p"
    using False by (cases p; cases "tl p") auto
  have dir: "posix_dirname p =
    (if rest = [] \<or> length rest - 1 = 0 then (if hd p = slash then [slash] else dot)
     else if hd p = slash \<and> length rest - 1 = 1 then [slash, slash] else take (length rest - 1) p)"
    unfolding posix_dirname_def rest_def Let_def using False by (simp only: if_False)
  consider "rest = [] \<or> length rest - 1 = 0" | "rest \<noteq> []" "length rest - 1 = 1" "hd p = slash"
    | "rest \<noteq> []" "length rest - 1 \<noteq> 0" "\<not> (hd p = slash \<and> length rest - 1 = 1)" by blast
  then show ?thesis
  proof cases
    case 1
    with root dir show ?thesis by auto
  next
    case 2
    then have "length rest = 2" by simp
    with 2 lt dir show ?thesis by simp
  next
    case 3
    then have "posix_dirname p = take (length rest - 1) p" using dir by auto
    with lt show ?thesis by (simp add: less_imp_diff_less)
  qed
qed (simp add: posix_dirname_def)

definition path_rank :: "string \<Rightarrow> nat" where
  "path_rank p = (if p = dot then 0 else Suc (length p))"

text \<open>The \<open>while\<close> loop of \<open>ancestorRootIdsForPath\<close> from its current directory on.\<close>

function ancestorIdsFrom :: "(string \<Rightarrow> string) \<Rightarrow> string \<Rightarrow> string \<Rightarrow> string list" where
  "ancestorIdsFrom sha256 rootKey current =
     (if pathKey (posix_normalize current) = rootKey then []
      else let next = posix_dirname current in
        rootIdForPath sha256 current #
          (if pathKey next = pathKey current then [] else ancestorIdsFrom sha256 rootKey next))"
  by pat_completeness auto
termination
proof (relation "measure (\<lambda>(_, _, current). path_rank current)", goal_cases)
  case (2 sha rootKey current "next")
  then have diff: "pathKey (posix_dirname current) \<noteq> pathKey current" by simp
  have "posix_dirname dot = dot" "posix_dirname [slash] = [slash]" by code_simp+
  with diff have "current \<noteq> dot" "current \<noteq> [slash]" by auto
  with dirname_shrinks[of current] 2 show ?case by (auto simp: path_rank_def)
qed simp

declare ancestorIdsFrom.simps [simp del]

definition ancestorRootIdsForPath :: "(string \<Rightarrow> string) \<Rightarrow> string \<Rightarrow> string list" where
  "ancestorRootIdsForPath sha256 actual =
     ancestorIdsFrom sha256 (pathKey (posix_normalize (posix_root actual))) (posix_dirname actual)"

section \<open>Operations\<close>

definition removeExpiredSelections :: "int \<Rightarrow> registry \<Rightarrow> registry" where
  "removeExpiredSelections now r =
     r\<lparr>reg_selections := filter (\<lambda>s. sel_expiresAt s > now) (reg_selections r)\<rparr>"

definition summarizeBridgeRoot :: "bridge_root \<Rightarrow> bridge_root_summary" where
  "summarizeBridgeRoot root =
     \<lparr>readPermission = readPermission root, watchPermission = watchPermission root,
      recommendationPermission = recommendationPermission root,
      organizationPlanPermission = organizationPlanPermission root,
      createFolderPermission = createFolderPermission root,
      moveFilePermission = moveFilePermission root,
      renameFilePermission = renameFilePermission root,
      sum_connectionRevision = coalesce (connectionRevision root) 0, sum_id = root_id root,
      sum_connectedAt = connectedAt root, sum_displayName = displayName root,
      sum_lastScanAt = lastScanAt root, sum_lastWatchingAt = lastWatchingAt root,
      sum_platform = platform root, sum_safeLocation = safeLocation root,
      sum_status = root_status root, sum_updatedAt = updatedAt root,
      sum_watcherState = watcherState root\<rparr>"

definition createFolderSelectionUnlocked ::
  "reg_env \<Rightarrow> string \<Rightarrow> registry_file \<Rightarrow> (exn, folder_selection_result) result \<times> registry_file" where
  "createFolderSelectionUnlocked env folderPath file =
     (case validateRootPath (env_cwd env) (env_platform env) (env_forbidden env) folderPath (env_fs env) of
        Inl e \<Rightarrow> (Inl e, file)
      | Inr actual \<Rightarrow>
          let selection =
                \<lparr>sel_ancestorRootIds = ancestorRootIdsForPath (env_sha256 env) actual,
                 sel_actualPath = actual, sel_createdAt = env_now env,
                 sel_expiresAt = env_now env + folderSelectionTtlMs,
                 sel_platform = env_platform env,
                 sel_rootId = rootIdForPath (env_sha256 env) actual,
                 sel_safeLocation = safeLocationDescription actual,
                 sel_suggestedDisplayName = displayNameForFolder actual,
                 sel_token = env_token env\<rparr>
          in case readRegistry file of
               Inl e \<Rightarrow> (Inl e, file)
             | Inr r0 \<Rightarrow>
                 let r = removeExpiredSelections (env_now env) r0;
                     r' = r\<lparr>reg_selections := reg_selections r @ [selection]\<rparr>
                 in case writeRegistry env r' file of
                      (Inl _, file') \<Rightarrow> (Inl (BridgeAppError FOLDER_SELECTION_PERSISTENCE_FAILED 500), file')
                    | (Inr _, file') \<Rightarrow>
                        (Inr \<lparr>res_ancestorRootIds = sel_ancestorRootIds selection,
                              res_selectionToken = sel_token selection, res_rootId = sel_rootId selection,
                              res_suggestedDisplayName = sel_suggestedDisplayName selection,
                              res_platform = sel_platform selection,
                              res_safeLocation = sel_safeLocation selection,
                              res_expiresAt = sel_expiresAt selection\<rparr>, file'))"

definition watch_without_read :: "bridge_permissions \<Rightarrow> bool" where
  "watch_without_read p \<longleftrightarrow> watchPermission p \<and> \<not> readPermission p"

definition permissionsWithReadInvariant :: "partial_permissions \<Rightarrow> (exn, bridge_permissions) result" where
  "permissionsWithReadInvariant input =
     (let p = permissionsFromInput input in
      if watch_without_read p then Inl (BridgeAppError WATCH_REQUIRES_READ 403) else Inr p)"

text \<open>The record found first under a key, changed in place.\<close>

fun update_first :: "('a \<Rightarrow> bool) \<Rightarrow> ('a \<Rightarrow> 'a) \<Rightarrow> 'a list \<Rightarrow> 'a list" where
  "update_first P f [] = []"
| "update_first P f (x # xs) = (if P x then f x # xs else x # update_first P f xs)"

fun remove_first :: "('a \<Rightarrow> bool) \<Rightarrow> 'a list \<Rightarrow> 'a list" where
  "remove_first P [] = []"
| "remove_first P (x # xs) = (if P x then xs else x # remove_first P xs)"

definition reconnected_root ::
  "bridge_permissions \<Rightarrow> int \<Rightarrow> string \<Rightarrow> string \<Rightarrow> bridge_platform \<Rightarrow> bridge_root \<Rightarrow> bridge_root" where
  "reconnected_root perms timestamp actual name pf r =
     (with_permissions perms r)
       \<lparr>connectionRevision := Some (coalesce (connectionRevision r) 0 + 1), connectedAt := timestamp,
        actualPath := actual, displayName := name, platform := pf,
        safeLocation := safeLocationDescription actual, root_status := CONNECTED,
        updatedAt := timestamp,
        watcherState := (if watchPermission perms then watcherState r else W_PAUSED)\<rparr>"

definition new_root ::
  "bridge_permissions \<Rightarrow> int \<Rightarrow> string \<Rightarrow> string \<Rightarrow> bridge_platform \<Rightarrow> string \<Rightarrow> bridge_root" where
  "new_root perms timestamp actual name pf rootId =
     \<lparr>readPermission = readPermission perms, watchPermission = watchPermission perms,
      recommendationPermission = recommendationPermission perms,
      organizationPlanPermission = organizationPlanPermission perms,
      createFolderPermission = createFolderPermission perms,
      moveFilePermission = moveFilePermission perms, renameFilePermission = renameFilePermission perms,
      connectionRevision = Some 1, root_id = rootId, actualPath = actual, connectedAt = timestamp,
      displayName = name, lastScanAt = None, lastWatchingAt = None, platform = pf,
      safeLocation = safeLocationDescription actual, root_status = CONNECTED, updatedAt = timestamp,
      watcherState = (if watchPermission perms then W_PAUSED else W_STOPPED)\<rparr>"

definition has_id :: "string \<Rightarrow> bridge_root \<Rightarrow> bool" where
  "has_id i r \<longleftrightarrow> root_id r = i"

definition has_token :: "string \<Rightarrow> folder_selection \<Rightarrow> bool" where
  "has_token t s \<longleftrightarrow> sel_token s = t"

definition registerRootFromSelectionUnlocked ::
  "reg_env \<Rightarrow> string option \<Rightarrow> partial_permissions \<Rightarrow> string \<Rightarrow> registry_file
    \<Rightarrow> (exn, bridge_root_summary) result \<times> registry_file" where
  "registerRootFromSelectionUnlocked env inputName inputPermissions selectionToken file =
     (let token = trim selectionToken in
      if token = [] then (Inl (BridgeAppError MISSING_SELECTION_TOKEN 400), file)
      else case readRegistry file of
        Inl e \<Rightarrow> (Inl e, file)
      | Inr r0 \<Rightarrow>
        let r = removeExpiredSelections (env_now env) r0 in
        case find (has_token token) (reg_selections r) of
          None \<Rightarrow> (Inl (BridgeAppError SELECTION_EXPIRED 410), snd (writeRegistry env r file))
        | Some selection \<Rightarrow>
          case validateRootPath (env_cwd env) (env_platform env) (env_forbidden env)
                 (sel_actualPath selection) (env_fs env) of
            Inl e \<Rightarrow> (Inl e, file)
          | Inr actual \<Rightarrow>
            let rootId = rootIdForPath (env_sha256 env) actual in
            case permissionsWithReadInvariant inputPermissions of
              Inl e \<Rightarrow> (Inl e, file)
            | Inr perms \<Rightarrow>
              let name = (case inputName of None \<Rightarrow> sel_suggestedDisplayName selection
                          | Some n \<Rightarrow> if trim n = [] then sel_suggestedDisplayName selection else trim n);
                  selections' = remove_first (has_token token) (reg_selections r);
                  existing = find (has_id rootId) (reg_roots r);
                  timestamp = (case existing of None \<Rightarrow> max (env_now env) 0
                               | Some x \<Rightarrow> max (env_now env) (updatedAt x + 1));
                  root = (case existing of
                            Some x \<Rightarrow> reconnected_root perms timestamp actual name (sel_platform selection) x
                          | None \<Rightarrow> new_root perms timestamp actual name (sel_platform selection) rootId);
                  roots' = (case existing of
                              Some x \<Rightarrow> update_first (has_id rootId) (\<lambda>_. root) (reg_roots r)
                            | None \<Rightarrow> reg_roots r @ [root])
              in case writeRegistry env \<lparr>reg_roots = roots', reg_selections = selections'\<rparr> file of
                   (Inl _, file') \<Rightarrow> (Inl (BridgeAppError FOLDER_SELECTION_PERSISTENCE_FAILED 500), file')
                 | (Inr _, file') \<Rightarrow> (Inr (summarizeBridgeRoot root), file'))"

definition getRoot :: "string \<Rightarrow> registry_file \<Rightarrow> (exn, bridge_root) result" where
  "getRoot rootId file =
     rbind (readRegistry file) (\<lambda>r.
       case find (has_id rootId) (reg_roots r) of
         None \<Rightarrow> Inl (BridgeAppError ROOT_NOT_FOUND 404)
       | Some root \<Rightarrow> Inr root)"

definition listRootRecords :: "registry_file \<Rightarrow> (exn, bridge_root list) result" where
  "listRootRecords file = rbind (readRegistry file) (\<lambda>r. Inr (reg_roots r))"

definition getRootSummary :: "string \<Rightarrow> registry_file \<Rightarrow> (exn, bridge_root_summary) result" where
  "getRootSummary rootId file = rbind (getRoot rootId file) (\<lambda>r. Inr (summarizeBridgeRoot r))"

definition listRoots :: "registry_file \<Rightarrow> (exn, bridge_root_summary list) result" where
  "listRoots file = rbind (readRegistry file) (\<lambda>r. Inr (map summarizeBridgeRoot (reg_roots r)))"

text \<open>The input of \<open>updateRoot\<close>; the two timestamps tell an absent field from a null one.\<close>

record root_update =
  upd_displayName :: "string option"
  upd_permissions :: "partial_permissions option"
  upd_status :: "root_status option"
  upd_watcherState :: "watcher_state option"
  upd_lastScanAt :: "int option option"
  upd_lastWatchingAt :: "int option option"

definition no_update :: root_update where
  "no_update = \<lparr>upd_displayName = None, upd_permissions = None, upd_status = None,
     upd_watcherState = None, upd_lastScanAt = None, upd_lastWatchingAt = None\<rparr>"

definition apply_permission_update :: "partial_permissions option \<Rightarrow> bridge_root \<Rightarrow> (exn, bridge_root) result" where
  "apply_permission_update input root =
     (case input of None \<Rightarrow> Inr root
      | Some patch \<Rightarrow>
          let p = merge_permissions patch root in
          if watch_without_read p then Inl (BridgeAppError WATCH_REQUIRES_READ 403)
          else let root' = with_permissions p root in
            Inr (if \<not> watchPermission root' \<and> watcherState root' = W_WATCHING
                 then root'\<lparr>watcherState := W_PAUSED\<rparr> else root'))"

definition updated_root :: "int \<Rightarrow> root_update \<Rightarrow> bridge_root \<Rightarrow> (exn, bridge_root) result" where
  "updated_root now input root =
     (let root1 = (case upd_displayName input of None \<Rightarrow> root
                   | Some n \<Rightarrow> if trim n = [] then root else root\<lparr>displayName := trim n\<rparr>)
      in rbind (apply_permission_update (upd_permissions input) root1) (\<lambda>root2.
           Inr (root2
             \<lparr>root_status := coalesce (upd_status input) (root_status root2),
              watcherState := coalesce (upd_watcherState input) (watcherState root2),
              lastScanAt := coalesce (upd_lastScanAt input) (lastScanAt root2),
              lastWatchingAt := coalesce (upd_lastWatchingAt input) (lastWatchingAt root2),
              updatedAt := max now (updatedAt root2 + 1)\<rparr>)))"

definition updateRootUnlocked ::
  "reg_env \<Rightarrow> string \<Rightarrow> root_update \<Rightarrow> registry_file \<Rightarrow> (exn, bridge_root_summary) result \<times> registry_file" where
  "updateRootUnlocked env rootId input file =
     (case readRegistry file of
        Inl e \<Rightarrow> (Inl e, file)
      | Inr r \<Rightarrow>
          (case find (has_id rootId) (reg_roots r) of
             None \<Rightarrow> (Inl (BridgeAppError ROOT_NOT_FOUND 404), file)
           | Some root \<Rightarrow>
               (case updated_root (env_now env) input root of
                  Inl e \<Rightarrow> (Inl e, file)
                | Inr root' \<Rightarrow>
                    (case writeRegistry env
                            (r\<lparr>reg_roots := update_first (has_id rootId) (\<lambda>_. root') (reg_roots r)\<rparr>) file of
                       (Inl e, file') \<Rightarrow> (Inl e, file')
                     | (Inr _, file') \<Rightarrow> (Inr (summarizeBridgeRoot root'), file')))))"

definition disconnectRoot :: "reg_env \<Rightarrow> string \<Rightarrow> registry_file \<Rightarrow> (exn, bridge_root_summary) result \<times> registry_file" where
  "disconnectRoot env rootId file =
     updateRootUnlocked env rootId
       (no_update\<lparr>upd_permissions := Some (no_permissions(WatchPermission := Some False)),
                  upd_status := Some DISCONNECTED, upd_watcherState := Some W_STOPPED\<rparr>) file"

definition requireRootPermission :: "string \<Rightarrow> permission_key \<Rightarrow> registry_file \<Rightarrow> (exn, bridge_root) result" where
  "requireRootPermission rootId permission file =
     rbind (getRoot rootId file) (\<lambda>root.
       if root_status root = DISCONNECTED \<or> root_status root = NEEDS_ATTENTION
       then Inl (BridgeAppError ROOT_DISCONNECTED 403)
       else if root_status root = PAUSED then Inl (BridgeAppError ROOT_PAUSED 403)
       else if \<not> perm_of permission root then Inl (BridgeAppError PERMISSION_DENIED 403)
       else Inr root)"

definition requireWatchPermission :: "string \<Rightarrow> registry_file \<Rightarrow> (exn, bridge_root) result" where
  "requireWatchPermission rootId file =
     rbind (requireRootPermission rootId ReadPermission file) (\<lambda>_.
       requireRootPermission rootId WatchPermission file)"

text \<open>The permission checks one action makes, in the order it makes them.\<close>

fun permissions_for :: "action_type \<Rightarrow> permission_key list" where
  "permissions_for CREATE_FOLDER = [CreateFolderPermission]"
| "permissions_for MOVE_FILE = [MoveFilePermission]"
| "permissions_for RENAME_FILE = [RenameFilePermission]"
| "permissions_for MOVE_AND_RENAME_FILE = [MoveFilePermission, RenameFilePermission]"

fun require_all :: "string \<Rightarrow> permission_key list \<Rightarrow> registry_file \<Rightarrow> (exn, unit) result" where
  "require_all rootId [] file = Inr ()"
| "require_all rootId (k # ks) file =
     rbind (requireRootPermission rootId k file) (\<lambda>_. require_all rootId ks file)"

fun requireExecutionPermissions :: "string \<Rightarrow> action_type list \<Rightarrow> registry_file \<Rightarrow> (exn, unit) result" where
  "requireExecutionPermissions rootId [] file = Inr ()"
| "requireExecutionPermissions rootId (a # as) file =
     rbind (require_all rootId (permissions_for a) file) (\<lambda>_. requireExecutionPermissions rootId as file)"

section \<open>The gate every physical operation passes\<close>

text \<open>
  The contract a client of the registry relies on: whatever state it reads, a granted
  permission names a record that carries it, and two grants in one state name one record.
\<close>

locale permission_gate =
  fixes require :: "permission_key \<Rightarrow> 's \<Rightarrow> (exn, 'r bridge_permissions_scheme) result"
  assumes granted: "require k s = Inr r \<Longrightarrow> perm_of k r"
    and same_root: "require k s = Inr r \<Longrightarrow> require k' s = Inr r' \<Longrightarrow> r' = r"
begin

lemma all_granted:
  assumes "ks \<noteq> []" "\<forall>k \<in> set ks. \<exists>r. require k s = Inr r"
  shows "\<exists>r. \<forall>k \<in> set ks. require k s = Inr r \<and> perm_of k r"
proof -
  obtain k0 where k0: "k0 \<in> set ks" using assms(1) by (cases ks) auto
  then obtain r where r: "require k0 s = Inr r" using assms(2) by blast
  have "require k s = Inr r \<and> perm_of k r" if "k \<in> set ks" for k
    using assms(2) that same_root[OF r, of k] granted by blast
  then show ?thesis by blast
qed

end

lemma requireRootPermission_grant:
  "requireRootPermission rootId k file = Inr root \<longleftrightarrow>
    getRoot rootId file = Inr root \<and> root_status root = CONNECTED \<and> perm_of k root"
proof -
  have "st = CONNECTED \<longleftrightarrow> st \<noteq> DISCONNECTED \<and> st \<noteq> NEEDS_ATTENTION \<and> st \<noteq> PAUSED" for st
    by (cases st) auto
  then show ?thesis by (auto simp: requireRootPermission_def split: if_splits)
qed

interpretation gate: permission_gate "requireRootPermission rootId" for rootId
  by unfold_locales (auto simp: requireRootPermission_grant)

section \<open>Lists of records\<close>

lemma find_update_first_same:
  "find P xs = Some x \<Longrightarrow> P (f x) \<Longrightarrow> find P (update_first P f xs) = Some (f x)"
  by (induction P f xs rule: update_first.induct) (auto split: if_splits)

lemma find_update_first_other:
  "(\<And>x. P x \<Longrightarrow> \<not> Q x) \<Longrightarrow> (\<And>x. P x \<Longrightarrow> \<not> Q (f x)) \<Longrightarrow> find Q (update_first P f xs) = find Q xs"
  by (induction P f xs rule: update_first.induct) auto

lemma map_update_first:
  "(\<And>x. P x \<Longrightarrow> g (f x) = g x) \<Longrightarrow> map g (update_first P f xs) = map g xs"
  by (induction P f xs rule: update_first.induct) auto

lemma set_update_first: "set (update_first P f xs) \<subseteq> f ` {x \<in> set xs. P x} \<union> set xs"
  by (induction P f xs rule: update_first.induct) auto

lemma find_Some_in: "find P xs = Some x \<Longrightarrow> x \<in> set xs \<and> P x"
  by (auto simp: find_Some_iff)

lemma remove_first_gone:
  "distinct (map g xs) \<Longrightarrow> find (\<lambda>x. g x = t) (remove_first (\<lambda>x. g x = t) xs) = None"
proof (induction xs)
  case (Cons a xs)
  show ?case
  proof (cases "g a = t")
    case True
    with Cons.prems have "t \<notin> g ` set xs" by simp
    then have "\<forall>x \<in> set xs. g x \<noteq> t" by blast
    with True show ?thesis by (simp add: find_None_iff)
  next
    case False
    with Cons show ?thesis by simp
  qed
qed simp

lemma set_remove_first: "set (remove_first P xs) \<subseteq> set xs"
  by (induction xs) auto

lemma map_update_first_const:
  "\<forall>a \<in> set xs. P a \<longrightarrow> g a = g x \<Longrightarrow> map g (update_first P (\<lambda>_. x) xs) = map g xs"
  by (induction xs) auto

section \<open>Properties of the gate\<close>

text \<open>
  A permission check succeeds exactly for a known folder that is connected and grants
  that permission, and returns that folder's record. In particular a paused, disconnected
  or needs-attention folder passes no check at all.
\<close>

theorem requireRootPermission_iff:
  "requireRootPermission rootId k file = Inr root \<longleftrightarrow>
    getRoot rootId file = Inr root \<and> root_status root = CONNECTED \<and> perm_of k root"
  by (rule requireRootPermission_grant)

lemma require_all_iff:
  "require_all rootId ks file = Inr () \<longleftrightarrow>
    (\<forall>k \<in> set ks. \<exists>r. requireRootPermission rootId k file = Inr r)"
  by (induction ks) auto

lemma requireExecutionPermissions_all:
  "requireExecutionPermissions rootId acts file = Inr () \<longleftrightarrow>
    (\<forall>k \<in> set (concat (map permissions_for acts)). \<exists>r. requireRootPermission rootId k file = Inr r)"
  by (induction acts) (auto simp: require_all_iff)

lemma permissions_for_nonempty: "permissions_for a \<noteq> []"
  by (cases a) simp_all

text \<open>
  The check before a list of actions succeeds exactly when there is nothing to do or
  one connected folder grants every permission of every action; a combined move and rename
  needs both grants.
\<close>

theorem requireExecutionPermissions_iff:
  "requireExecutionPermissions rootId acts file = Inr () \<longleftrightarrow>
    acts = [] \<or>
    (\<exists>root. getRoot rootId file = Inr root \<and> root_status root = CONNECTED \<and>
       list_all (\<lambda>a. list_all (\<lambda>k. perm_of k root) (permissions_for a)) acts)"
proof (cases "acts = []")
  case False
  then have ne: "concat (map permissions_for acts) \<noteq> []"
    by (cases acts) (auto simp: permissions_for_nonempty)
  show ?thesis
  proof
    assume "requireExecutionPermissions rootId acts file = Inr ()"
    then obtain root where "\<forall>k \<in> set (concat (map permissions_for acts)).
        requireRootPermission rootId k file = Inr root \<and> perm_of k root"
      using gate.all_granted[OF ne, of rootId "file"] by (auto simp: requireExecutionPermissions_all)
    moreover obtain k where "k \<in> set (concat (map permissions_for acts))" using ne by (metis list.set_intros(1) neq_Nil_conv)
    ultimately show "acts = [] \<or> (\<exists>root. getRoot rootId file = Inr root \<and> root_status root = CONNECTED \<and>
       list_all (\<lambda>a. list_all (\<lambda>k. perm_of k root) (permissions_for a)) acts)"
      by (auto simp: requireRootPermission_grant list_all_iff)
  next
    assume "acts = [] \<or> (\<exists>root. getRoot rootId file = Inr root \<and> root_status root = CONNECTED \<and>
       list_all (\<lambda>a. list_all (\<lambda>k. perm_of k root) (permissions_for a)) acts)"
    with False show "requireExecutionPermissions rootId acts file = Inr ()"
      by (auto simp: requireExecutionPermissions_all requireRootPermission_grant list_all_iff)
  qed
qed simp

section \<open>Registry invariant\<close>

definition root_ok :: "(string \<Rightarrow> string) \<Rightarrow> bridge_root \<Rightarrow> bool" where
  "root_ok sha r \<longleftrightarrow>
     (watchPermission r \<longrightarrow> readPermission r) \<and> root_id r = rootIdForPath sha (actualPath r)"

fun reg_inv :: "(string \<Rightarrow> string) \<Rightarrow> registry_file \<Rightarrow> bool" where
  "reg_inv sha (Stored r) \<longleftrightarrow>
     distinct (map root_id (reg_roots r)) \<and> (\<forall>x \<in> set (reg_roots r). root_ok sha x)"
| "reg_inv sha _ \<longleftrightarrow> True"

inductive registry_step :: "(string \<Rightarrow> string) \<Rightarrow> registry_file \<Rightarrow> registry_file \<Rightarrow> bool" where
  select: "env_sha256 env = sha \<Longrightarrow>
    registry_step sha file (snd (createFolderSelectionUnlocked env folderPath file))"
| register: "env_sha256 env = sha \<Longrightarrow>
    registry_step sha file (snd (registerRootFromSelectionUnlocked env name perms token file))"
| update: "registry_step sha file (snd (updateRootUnlocked env rootId input file))"
| disconnect: "registry_step sha file (snd (disconnectRoot env rootId file))"

inductive registry_reachable :: "(string \<Rightarrow> string) \<Rightarrow> registry_file \<Rightarrow> bool" where
  fresh: "registry_reachable sha Absent"
| step: "registry_reachable sha file \<Longrightarrow> registry_step sha file file' \<Longrightarrow> registry_reachable sha file'"

lemma reg_inv_read:
  assumes "reg_inv sha file" "readRegistry file = Inr r"
  shows "distinct (map root_id (reg_roots r))" "\<forall>x \<in> set (reg_roots r). root_ok sha x"
  using assms by (cases "file"; auto simp: readRegistry_def)+

lemma reg_inv_write:
  "reg_inv sha file \<Longrightarrow> reg_inv sha (Stored r) \<Longrightarrow> reg_inv sha (snd (writeRegistry env r file))"
  by (simp add: writeRegistry_def writeLocalJson_def split: write_end.split)

lemma with_permissions_simps [simp]:
  "readPermission (with_permissions p r) = readPermission p"
  "watchPermission (with_permissions p r) = watchPermission p"
  by (simp_all add: with_permissions_def)

lemma with_permissions_root_simps [simp]:
  "root_id (with_permissions p r) = root_id r"
  "actualPath (with_permissions p r) = actualPath r"
  "updatedAt (with_permissions p r) = updatedAt r"
  "connectionRevision (with_permissions p r) = connectionRevision r"
  "watcherState (with_permissions p r) = watcherState r"
  "root_status (with_permissions p r) = root_status r"
  by (simp_all add: with_permissions_def)

lemma updated_root_facts:
  assumes "updated_root now input root = Inr root'"
  shows "root_id root' = root_id root" "actualPath root' = actualPath root"
    "connectionRevision root' = connectionRevision root"
    "updatedAt root < updatedAt root'"
    "(watchPermission root \<longrightarrow> readPermission root) \<Longrightarrow> (watchPermission root' \<longrightarrow> readPermission root')"
  using assms
  by (auto simp: updated_root_def apply_permission_update_def watch_without_read_def Let_def
      split: option.split_asm if_split_asm)

lemma reg_inv_update:
  "reg_inv sha file \<Longrightarrow> reg_inv sha (snd (updateRootUnlocked env rootId input file))"
proof (cases "readRegistry file")
  case (Inr r)
  assume inv: "reg_inv sha file"
  show ?thesis
  proof (cases "find (has_id rootId) (reg_roots r)")
    case (Some root)
    then have root: "root \<in> set (reg_roots r)" "root_id root = rootId"
      by (auto dest!: find_Some_in simp: has_id_def)
    show ?thesis
    proof (cases "updated_root (env_now env) input root")
      case (Inr root')
      note facts = updated_root_facts[OF Inr]
      let ?roots = "update_first (has_id rootId) (\<lambda>_. root') (reg_roots r)"
      have ok: "root_ok sha root'"
        using facts root reg_inv_read(2)[OF inv \<open>readRegistry file = Inr r\<close>] by (auto simp: root_ok_def)
      have "map root_id ?roots = map root_id (reg_roots r)"
        using root facts by (intro map_update_first_const) (auto simp: has_id_def)
      moreover have "set ?roots \<subseteq> insert root' (set (reg_roots r))"
        using set_update_first[of "has_id rootId" "\<lambda>_. root'" "reg_roots r"] by auto
      ultimately have "reg_inv sha (Stored (r\<lparr>reg_roots := ?roots\<rparr>))"
        using ok reg_inv_read[OF inv \<open>readRegistry file = Inr r\<close>] by auto
      then show ?thesis
        using inv Some Inr \<open>readRegistry file = Inr r\<close>
        by (auto simp: updateRootUnlocked_def writeRegistry_def writeLocalJson_def split: write_end.splits)
    qed (use inv Inr Some in \<open>simp add: updateRootUnlocked_def\<close>)
  qed (use inv Inr in \<open>simp add: updateRootUnlocked_def\<close>)
qed (simp add: updateRootUnlocked_def)

lemma reg_inv_select:
  "reg_inv sha file \<Longrightarrow> reg_inv sha (snd (createFolderSelectionUnlocked env folderPath file))"
  using reg_inv_read[of sha "file"]
  by (auto simp: createFolderSelectionUnlocked_def Let_def removeExpiredSelections_def writeRegistry_def writeLocalJson_def
      split: sum.split write_end.split)

lemma reconnected_root_simps [simp]:
  "root_id (reconnected_root perms ts actual nm pf x) = root_id x"
  "actualPath (reconnected_root perms ts actual nm pf x) = actual"
  "readPermission (reconnected_root perms ts actual nm pf x) = readPermission perms"
  "watchPermission (reconnected_root perms ts actual nm pf x) = watchPermission perms"
  "root_status (reconnected_root perms ts actual nm pf x) = CONNECTED"
  "updatedAt (reconnected_root perms ts actual nm pf x) = ts"
  "connectionRevision (reconnected_root perms ts actual nm pf x) = Some (coalesce (connectionRevision x) 0 + 1)"
  by (simp_all add: reconnected_root_def)

lemma new_root_simps [simp]:
  "root_id (new_root perms ts actual nm pf rid) = rid"
  "actualPath (new_root perms ts actual nm pf rid) = actual"
  "readPermission (new_root perms ts actual nm pf rid) = readPermission perms"
  "watchPermission (new_root perms ts actual nm pf rid) = watchPermission perms"
  "root_status (new_root perms ts actual nm pf rid) = CONNECTED"
  by (simp_all add: new_root_def)

lemma register_cases:
  assumes "registerRootFromSelectionUnlocked env name input token file = (Inr summary, file')"
  obtains r0 r selection actual perms root where
    "readRegistry file = Inr r0" "r = removeExpiredSelections (env_now env) r0"
    "find (has_token (trim token)) (reg_selections r) = Some selection"
    "validateRootPath (env_cwd env) (env_platform env) (env_forbidden env) (sel_actualPath selection) (env_fs env) = Inr actual"
    "permissionsWithReadInvariant input = Inr perms"
    "summary = summarizeBridgeRoot root"
    "root_id root = rootIdForPath (env_sha256 env) actual" "actualPath root = actual"
    "readPermission root = readPermission perms" "watchPermission root = watchPermission perms"
    "root_status root = CONNECTED"
    "file' = Stored \<lparr>reg_roots =
        (case find (has_id (root_id root)) (reg_roots r) of
           Some x \<Rightarrow> update_first (has_id (root_id root)) (\<lambda>_. root) (reg_roots r)
         | None \<Rightarrow> reg_roots r @ [root]),
      reg_selections = remove_first (has_token (trim token)) (reg_selections r)\<rparr>"
    "\<forall>x. find (has_id (root_id root)) (reg_roots r) = Some x \<longrightarrow>
       connectionRevision root = Some (coalesce (connectionRevision x) 0 + 1) \<and> updatedAt x < updatedAt root"
proof -
  obtain r0 where r0: "readRegistry file = Inr r0"
    using assms by (cases "readRegistry file") (auto simp: registerRootFromSelectionUnlocked_def Let_def split: if_split_asm)
  define r where "r = removeExpiredSelections (env_now env) r0"
  obtain selection where sel: "find (has_token (trim token)) (reg_selections r) = Some selection"
    using assms r0 by (cases "find (has_token (trim token)) (reg_selections r)")
      (auto simp: registerRootFromSelectionUnlocked_def Let_def r_def split: if_split_asm)
  obtain actual where actual: "validateRootPath (env_cwd env) (env_platform env) (env_forbidden env)
      (sel_actualPath selection) (env_fs env) = Inr actual"
    using assms r0 sel by (cases "validateRootPath (env_cwd env) (env_platform env) (env_forbidden env)
      (sel_actualPath selection) (env_fs env)")
      (auto simp: registerRootFromSelectionUnlocked_def Let_def r_def split: if_split_asm)
  obtain perms where perms: "permissionsWithReadInvariant input = Inr perms"
    using assms r0 sel actual by (cases "permissionsWithReadInvariant input")
      (auto simp: registerRootFromSelectionUnlocked_def Let_def r_def split: if_split_asm)
  define rid where "rid = rootIdForPath (env_sha256 env) actual"
  note eqs = registerRootFromSelectionUnlocked_def Let_def writeRegistry_def writeLocalJson_def
  show ?thesis
  proof (cases "find (has_id rid) (reg_roots r)")
    case None
    then obtain nm where "summary = summarizeBridgeRoot (new_root perms (max (env_now env) 0) actual nm (sel_platform selection) rid)"
      "file' = Stored \<lparr>reg_roots = reg_roots r @ [new_root perms (max (env_now env) 0) actual nm (sel_platform selection) rid],
        reg_selections = remove_first (has_token (trim token)) (reg_selections r)\<rparr>"
      using assms r0 sel actual perms by (auto simp: eqs r_def rid_def split: if_split_asm write_end.split_asm)
    with None show ?thesis
      by (intro that[OF r0 r_def sel actual perms,
            of "new_root perms (max (env_now env) 0) actual nm (sel_platform selection) rid"])
        (simp_all add: rid_def)
  next
    case (Some x)
    then have x: "root_id x = rid" by (auto dest!: find_Some_in simp: has_id_def)
    from Some obtain nm where
      "summary = summarizeBridgeRoot (reconnected_root perms (max (env_now env) (updatedAt x + 1)) actual nm (sel_platform selection) x)"
      "file' = Stored \<lparr>reg_roots = update_first (has_id rid)
          (\<lambda>_. reconnected_root perms (max (env_now env) (updatedAt x + 1)) actual nm (sel_platform selection) x) (reg_roots r),
        reg_selections = remove_first (has_token (trim token)) (reg_selections r)\<rparr>"
      using assms r0 sel actual perms by (auto simp: eqs r_def rid_def split: if_split_asm write_end.split_asm)
    with Some x show ?thesis
      by (intro that[OF r0 r_def sel actual perms,
            of "reconnected_root perms (max (env_now env) (updatedAt x + 1)) actual nm (sel_platform selection) x"])
        (simp_all add: rid_def)
  qed
qed

lemma permissionsWithReadInvariant_ok:
  "permissionsWithReadInvariant input = Inr p \<Longrightarrow> watchPermission p \<longrightarrow> readPermission p"
  by (auto simp: permissionsWithReadInvariant_def Let_def watch_without_read_def split: if_split_asm)

lemma register_error:
  assumes "registerRootFromSelectionUnlocked env name input token file = (Inl e, file')"
  shows "file' = file \<or>
    (\<exists>r0. readRegistry file = Inr r0 \<and> file' = Stored (removeExpiredSelections (env_now env) r0)) \<or>
    (\<exists>summary. registerRootFromSelectionUnlocked (env\<lparr>env_write := Saved\<rparr>) name input token file = (Inr summary, file'))"
  using assms
  by (auto simp: registerRootFromSelectionUnlocked_def Let_def writeRegistry_def writeLocalJson_def
      split: sum.split_asm option.split_asm if_split_asm write_end.split_asm)

lemma reg_inv_prune:
  "reg_inv sha file \<Longrightarrow> readRegistry file = Inr r0 \<Longrightarrow> reg_inv sha (Stored (removeExpiredSelections now r0))"
  using reg_inv_read[of sha "file" r0] by (simp add: removeExpiredSelections_def)

lemma reg_inv_registered:
  assumes registered: "registerRootFromSelectionUnlocked env name input token file = (Inr summary, file')"
    and inv: "reg_inv (env_sha256 env) file"
  shows "reg_inv (env_sha256 env) file'"
proof -
  from registered obtain r0 r perms root where
    r: "readRegistry file = Inr r0" "r = removeExpiredSelections (env_now env) r0"
    and perms: "permissionsWithReadInvariant input = Inr perms"
    and root: "root_id root = rootIdForPath (env_sha256 env) (actualPath root)"
      "readPermission root = readPermission perms" "watchPermission root = watchPermission perms"
    and file': "file' = Stored \<lparr>reg_roots =
        (case find (has_id (root_id root)) (reg_roots r) of
           Some x \<Rightarrow> update_first (has_id (root_id root)) (\<lambda>_. root) (reg_roots r)
         | None \<Rightarrow> reg_roots r @ [root]),
      reg_selections = remove_first (has_token (trim token)) (reg_selections r)\<rparr>"
    by (rule register_cases) metis
  have root_ok: "root_ok (env_sha256 env) root"
    using root permissionsWithReadInvariant_ok[OF perms] by (simp add: root_ok_def)
  have old: "distinct (map root_id (reg_roots r))" "\<forall>x \<in> set (reg_roots r). root_ok (env_sha256 env) x"
    using reg_inv_prune[OF inv r(1), of "env_now env"] r(2) by auto
  show ?thesis
  proof (cases "find (has_id (root_id root)) (reg_roots r)")
    case None
    then have "root_id root \<notin> root_id ` set (reg_roots r)"
      by (auto simp: find_None_iff has_id_def)
    with None file' old root_ok show ?thesis by auto
  next
    case (Some x)
    let ?roots = "update_first (has_id (root_id root)) (\<lambda>_. root) (reg_roots r)"
    have "map root_id ?roots = map root_id (reg_roots r)"
      by (rule map_update_first_const) (simp add: has_id_def)
    moreover have "set ?roots \<subseteq> insert root (set (reg_roots r))"
      using set_update_first[of "has_id (root_id root)" "\<lambda>_. root" "reg_roots r"] by auto
    ultimately show ?thesis using Some file' old root_ok by auto
  qed
qed

lemma reg_inv_register:
  assumes "reg_inv (env_sha256 env) file"
  shows "reg_inv (env_sha256 env) (snd (registerRootFromSelectionUnlocked env name input token file))"
proof (cases "registerRootFromSelectionUnlocked env name input token file")
  case (Pair res file')
  show ?thesis
  proof (cases res)
    case (Inl e)
    from register_error[OF Pair[unfolded Inl]] show ?thesis
    proof (elim disjE exE)
      fix summary
      assume "registerRootFromSelectionUnlocked (env\<lparr>env_write := Saved\<rparr>) name input token file = (Inr summary, file')"
      from reg_inv_registered[OF this] assms Pair show ?thesis by simp
    qed (use Pair reg_inv_prune[OF assms] assms in auto)
  next
    case (Inr summary)
    from reg_inv_registered[OF Pair[unfolded Inr] assms] Pair show ?thesis by simp
  qed
qed

lemma reg_inv_step: "registry_step sha file file' \<Longrightarrow> reg_inv sha file \<Longrightarrow> reg_inv sha file'"
  by (induction rule: registry_step.induct)
    (auto simp: disconnectRoot_def intro: reg_inv_select reg_inv_register reg_inv_update)

text \<open>
  C10. In every registry the Bridge can reach from an empty data directory, by any sequence
  of selections, registrations, updates and disconnections, with any grants, failed writes
  and clock, no folder is listed twice, every folder's id is the hash of its own path, and
  no folder is granted watching without being granted reading.
\<close>

theorem registry_invariant:
  assumes "registry_reachable sha file"
  shows "reg_inv sha file"
  using assms by (induction rule: registry_reachable.induct) (auto intro: reg_inv_step)

definition sample_env :: reg_env where
  "sample_env = \<lparr>env_now = 1000, env_token = ''tok'', env_sha256 = (\<lambda>p. p), env_cwd = ''/'',
     env_platform = MACOS, env_forbidden = [], env_fs = sample_fs, env_write = Saved\<rparr>"

definition sample_grants :: partial_permissions where
  "sample_grants = no_permissions(WatchPermission := Some True, MoveFilePermission := Some True)"

definition sample_registry :: registry_file where
  "sample_registry =
     snd (registerRootFromSelectionUnlocked sample_env None sample_grants ''tok''
       (snd (createFolderSelectionUnlocked sample_env ''/u/lib'' Absent)))"

lemma sample_registry_reachable: "registry_reachable (\<lambda>p. p) sample_registry"
  unfolding sample_registry_def
  by (intro registry_reachable.step[OF _ registry_step.register]
      registry_reachable.step[OF _ registry_step.select] registry_reachable.fresh)
    (simp_all add: sample_env_def)

theorem registry_invariant_witness:
  "reg_inv (\<lambda>p. p) sample_registry \<and>
   map_option root_id (case getRoot ''root_/u/lib'' sample_registry of Inr r \<Rightarrow> Some r | Inl _ \<Rightarrow> None)
     = Some ''root_/u/lib''"
proof -
  have "map_option root_id (case getRoot ''root_/u/lib'' sample_registry of Inr r \<Rightarrow> Some r | Inl _ \<Rightarrow> None)
     = Some ''root_/u/lib''"
    by code_simp
  with registry_invariant[OF sample_registry_reachable] show ?thesis by blast
qed

lemma getRoot_Stored:
  "getRoot i (Stored r) = (case find (has_id i) (reg_roots r) of
     None \<Rightarrow> Inl (BridgeAppError ROOT_NOT_FOUND 404) | Some root \<Rightarrow> Inr root)"
  by (simp add: getRoot_def readRegistry_def)

lemma update_success:
  assumes "updateRootUnlocked env rootId input file = (Inr summary, file')"
  obtains r root root' where "readRegistry file = Inr r" "find (has_id rootId) (reg_roots r) = Some root"
    "updated_root (env_now env) input root = Inr root'" "summary = summarizeBridgeRoot root'"
    "file' = Stored (r\<lparr>reg_roots := update_first (has_id rootId) (\<lambda>_. root') (reg_roots r)\<rparr>)"
proof -
  obtain r where r: "readRegistry file = Inr r"
    using assms by (cases "readRegistry file") (auto simp: updateRootUnlocked_def)
  obtain root where root: "find (has_id rootId) (reg_roots r) = Some root"
    using assms r by (cases "find (has_id rootId) (reg_roots r)") (auto simp: updateRootUnlocked_def)
  obtain root' where root': "updated_root (env_now env) input root = Inr root'"
    using assms r root by (cases "updated_root (env_now env) input root") (auto simp: updateRootUnlocked_def)
  show ?thesis
    using assms by (intro that[OF r root root'])
      (auto simp: updateRootUnlocked_def r root root' writeRegistry_def writeLocalJson_def split: write_end.split_asm)
qed

lemma update_writable:
  assumes "getRoot rootId file = Inr root" "updated_root (env_now env) input root = Inr root'" "env_write env = Saved"
  shows "\<exists>file'. updateRootUnlocked env rootId input file = (Inr (summarizeBridgeRoot root'), file')"
proof -
  obtain r where r: "readRegistry file = Inr r"
    using assms(1) by (cases "readRegistry file") (auto simp: getRoot_def)
  then have "find (has_id rootId) (reg_roots r) = Some root"
    using assms(1) by (auto simp: getRoot_def split: option.splits)
  with r assms(2,3) show ?thesis by (simp add: updateRootUnlocked_def writeRegistry_def writeLocalJson_def split: write_end.splits)
qed

lemma update_frame:
  assumes "updateRootUnlocked env rootId input file = (Inr summary, file')"
    and "getRoot rootId file = Inr root"
  shows "\<exists>root'. getRoot rootId file' = Inr root' \<and> summary = summarizeBridgeRoot root' \<and>
    root_id root' = rootId \<and> actualPath root' = actualPath root \<and>
    connectionRevision root' = connectionRevision root \<and> updatedAt root < updatedAt root' \<and>
    (\<forall>other. other \<noteq> rootId \<longrightarrow> getRoot other file' = getRoot other file)"
proof -
  from assms(1) obtain r root0 root' where r: "readRegistry file = Inr r"
    and root0: "find (has_id rootId) (reg_roots r) = Some root0"
    and upd: "updated_root (env_now env) input root0 = Inr root'" "summary = summarizeBridgeRoot root'"
    and file': "file' = Stored (r\<lparr>reg_roots := update_first (has_id rootId) (\<lambda>_. root') (reg_roots r)\<rparr>)"
    by (rule update_success)
  have "root0 = root" using assms(2) r root0 by (simp add: getRoot_def)
  note facts = updated_root_facts[OF upd(1)[unfolded this]]
  have id: "root_id root' = rootId" using find_Some_in[OF root0] facts \<open>root0 = root\<close> by (simp add: has_id_def)
  have old: "getRoot other file = (case find (has_id other) (reg_roots r) of
      None \<Rightarrow> Inl (BridgeAppError ROOT_NOT_FOUND 404) | Some x \<Rightarrow> Inr x)" for other
    by (simp add: getRoot_def r)
  have "find (has_id rootId) (update_first (has_id rootId) (\<lambda>_. root') (reg_roots r)) = Some root'"
    using find_update_first_same[OF root0, of "\<lambda>_. root'"] id by (simp add: has_id_def)
  moreover have "find (has_id other) (update_first (has_id rootId) (\<lambda>_. root') (reg_roots r)) =
      find (has_id other) (reg_roots r)" if "other \<noteq> rootId" for other
    using that id by (intro find_update_first_other) (auto simp: has_id_def)
  ultimately show ?thesis
    using facts id upd(2) old by (intro exI[of _ root']) (simp add: file' getRoot_Stored)
qed

text \<open>
  A successful \<open>updateRoot\<close> changes one folder: it keeps that folder's identity, path
  and connection revision, moves its \<open>updatedAt\<close> strictly forward even when the clock went
  back, answers with the stored record's summary, and leaves every other folder as it was.
\<close>

theorem updateRoot_frame:
  assumes "updateRootUnlocked env rootId input file = (Inr summary, file')"
    and "getRoot rootId file = Inr root"
  shows "\<exists>root'. getRoot rootId file' = Inr root' \<and> summary = summarizeBridgeRoot root' \<and>
    root_id root' = rootId \<and> actualPath root' = actualPath root \<and>
    connectionRevision root' = connectionRevision root \<and> updatedAt root < updatedAt root' \<and>
    (\<forall>other. other \<noteq> rootId \<longrightarrow> getRoot other file' = getRoot other file)"
  using assms by (rule update_frame)

theorem updateRoot_frame_witness:
  "\<exists>root'. getRoot ''root_/u/lib'' (snd (disconnectRoot sample_env ''root_/u/lib'' sample_registry)) = Inr root'
     \<and> actualPath root' = ''/u/lib'' \<and> connectionRevision root' = Some 1 \<and> 1000 < updatedAt root'"
proof -
  define upd where "upd = no_update\<lparr>upd_permissions := Some (no_permissions(WatchPermission := Some False)),
                  upd_status := Some DISCONNECTED, upd_watcherState := Some W_STOPPED\<rparr>"
  define root where "root = (case getRoot ''root_/u/lib'' sample_registry of Inr r \<Rightarrow> r)"
  have get: "getRoot ''root_/u/lib'' sample_registry = Inr root" unfolding root_def by code_simp
  have vals: "actualPath root = ''/u/lib''" "connectionRevision root = Some 1" "updatedAt root = 1000"
    unfolding root_def by code_simp+
  have "isl (fst (disconnectRoot sample_env ''root_/u/lib'' sample_registry)) = False" by code_simp
  then obtain summary where
    "updateRootUnlocked sample_env ''root_/u/lib'' upd sample_registry =
      (Inr summary, snd (disconnectRoot sample_env ''root_/u/lib'' sample_registry))"
    unfolding disconnectRoot_def upd_def by (metis prod.collapse isl_def sum.exhaust)
  from updateRoot_frame[OF this get] vals show ?thesis by auto
qed

text \<open>
  Reconnecting a known folder starts a new connection: the connection revision grows
  by exactly one and \<open>updatedAt\<close> strictly, so work issued for an older connection can be
  told apart.
\<close>

theorem reconnect_bumps_revision:
  assumes "registerRootFromSelectionUnlocked env name input token file = (Inr summary, file')"
    and "getRoot (sum_id summary) file = Inr old"
  shows "sum_connectionRevision summary = coalesce (connectionRevision old) 0 + 1 \<and>
    updatedAt old < sum_updatedAt summary \<and> sum_status summary = CONNECTED"
proof -
  from assms(1) obtain r0 r root where
    r: "readRegistry file = Inr r0" "r = removeExpiredSelections (env_now env) r0"
    and root: "summary = summarizeBridgeRoot root" "root_status root = CONNECTED"
      "\<forall>x. find (has_id (root_id root)) (reg_roots r) = Some x \<longrightarrow>
         connectionRevision root = Some (coalesce (connectionRevision x) 0 + 1) \<and> updatedAt x < updatedAt root"
    by (rule register_cases) metis
  have "find (has_id (root_id root)) (reg_roots r) = Some old"
    using assms(2) r root(1)
    by (auto simp: getRoot_def removeExpiredSelections_def summarizeBridgeRoot_def split: option.split_asm)
  with root show ?thesis by (simp add: summarizeBridgeRoot_def)
qed

theorem reconnect_bumps_revision_witness:
  "\<exists>summary. fst (registerRootFromSelectionUnlocked sample_env None sample_grants ''tok''
       (snd (createFolderSelectionUnlocked sample_env ''/u/lib'' sample_registry))) = Inr summary \<and>
     sum_connectionRevision summary = 2"
proof -
  define file1 where "file1 = snd (createFolderSelectionUnlocked sample_env ''/u/lib'' sample_registry)"
  define res where "res = registerRootFromSelectionUnlocked sample_env None sample_grants ''tok'' file1"
  define old where "old = (case getRoot ''root_/u/lib'' file1 of Inr r \<Rightarrow> r)"
  have "isl (fst res) = False" unfolding res_def file1_def by code_simp
  then obtain summary where s: "fst res = Inr summary" by (metis isl_def sum.exhaust)
  then have reg: "registerRootFromSelectionUnlocked sample_env None sample_grants ''tok'' file1 = (Inr summary, snd res)"
    by (metis res_def prod.collapse)
  have "(case fst res of Inr x \<Rightarrow> sum_id x) = ''root_/u/lib''" unfolding res_def file1_def by code_simp
  then have id: "sum_id summary = ''root_/u/lib''" using s by simp
  have get: "getRoot (sum_id summary) file1 = Inr old" unfolding id old_def file1_def by code_simp
  have "connectionRevision old = Some 1" unfolding old_def file1_def by code_simp
  with reconnect_bumps_revision[OF reg get] s show ?thesis
    unfolding res_def file1_def by simp
qed

text \<open>
  C16. A folder selection can be used once: with selection tokens pairwise different,
  presenting a token that has just registered a folder again is refused as expired,
  whenever, and whatever grants are asked for.
\<close>

theorem selection_token_single_use:
  assumes "registerRootFromSelectionUnlocked env name input token file = (Inr summary, file')"
    and "readRegistry file = Inr r0" and "distinct (map sel_token (reg_selections r0))"
  shows "fst (registerRootFromSelectionUnlocked env2 name2 input2 token file') =
    Inl (BridgeAppError SELECTION_EXPIRED 410)"
proof -
  from assms(1) obtain r roots where r: "r = removeExpiredSelections (env_now env) r0"
    and file': "file' = Stored \<lparr>reg_roots = roots,
        reg_selections = remove_first (has_token (trim token)) (reg_selections r)\<rparr>"
    by (rule register_cases) (metis assms(2) sum.inject(2))
  have ne: "trim token \<noteq> []"
    using assms(1) by (auto simp: registerRootFromSelectionUnlocked_def)
  have "distinct (map sel_token (reg_selections r))"
    using assms(3) by (simp add: r removeExpiredSelections_def distinct_map_filter)
  then have "find (\<lambda>s. sel_token s = trim token)
      (remove_first (\<lambda>s. sel_token s = trim token) (reg_selections r)) = None"
    by (rule remove_first_gone)
  then have "find (has_token (trim token)) (filter (\<lambda>s. sel_expiresAt s > env_now env2)
      (remove_first (has_token (trim token)) (reg_selections r))) = None"
    by (auto simp: find_None_iff has_token_def[abs_def])
  with ne show ?thesis
    by (simp add: registerRootFromSelectionUnlocked_def file' readRegistry_def removeExpiredSelections_def Let_def)
qed

theorem selection_token_single_use_witness:
  "fst (registerRootFromSelectionUnlocked sample_env None no_permissions ''tok'' sample_registry) =
    Inl (BridgeAppError SELECTION_EXPIRED 410)"
proof -
  define file0 where "file0 = snd (createFolderSelectionUnlocked sample_env ''/u/lib'' Absent)"
  have "isl (fst (registerRootFromSelectionUnlocked sample_env None sample_grants ''tok'' file0)) = False"
    unfolding file0_def by code_simp
  then obtain summary where
    reg: "registerRootFromSelectionUnlocked sample_env None sample_grants ''tok'' file0 = (Inr summary, sample_registry)"
    unfolding sample_registry_def file0_def by (metis isl_def sum.exhaust prod.collapse)
  define r0 where "r0 = (case readRegistry file0 of Inr r \<Rightarrow> r)"
  have "readRegistry file0 = Inr r0" unfolding r0_def file0_def by code_simp
  moreover have "distinct (map sel_token (reg_selections r0))" unfolding r0_def file0_def by code_simp
  ultimately show ?thesis by (rule selection_token_single_use[OF reg])
qed

text \<open>
  After a successful disconnect, no permission check on that folder passes and no
  non-empty list of actions is admitted.
\<close>

theorem disconnect_closes_gate:
  assumes "disconnectRoot env rootId file = (Inr summary, file')"
  shows "requireRootPermission rootId k file' = Inl (BridgeAppError ROOT_DISCONNECTED 403) \<and>
    (acts \<noteq> [] \<longrightarrow> requireExecutionPermissions rootId acts file' \<noteq> Inr ())"
proof -
  from assms[unfolded disconnectRoot_def] obtain r root root' where
    find: "find (has_id rootId) (reg_roots r) = Some root"
    and upd: "updated_root (env_now env) (no_update\<lparr>upd_permissions := Some (no_permissions(WatchPermission := Some False)),
                  upd_status := Some DISCONNECTED, upd_watcherState := Some W_STOPPED\<rparr>) root = Inr root'"
    and file': "file' = Stored (r\<lparr>reg_roots := update_first (has_id rootId) (\<lambda>_. root') (reg_roots r)\<rparr>)"
    by (rule update_success)
  have id: "root_id root' = rootId"
    using find_Some_in[OF find] updated_root_facts(1)[OF upd] by (simp add: has_id_def)
  have st: "root_status root' = DISCONNECTED"
    using upd by (auto simp: updated_root_def no_update_def)
  have get: "getRoot rootId file' = Inr root'"
    using find_update_first_same[OF find, of "\<lambda>_. root'"] id
    by (simp add: file' getRoot_Stored has_id_def)
  show ?thesis
  proof (intro conjI impI)
    show "requireRootPermission rootId k file' = Inl (BridgeAppError ROOT_DISCONNECTED 403)"
      by (simp add: requireRootPermission_def get st)
    assume "acts \<noteq> []"
    then obtain a as where "acts = a # as" by (cases acts) auto
    moreover obtain p ps where "permissions_for a = p # ps" by (cases a) auto
    ultimately show "requireExecutionPermissions rootId acts file' \<noteq> Inr ()"
      by (simp add: requireRootPermission_def get st)
  qed
qed

theorem disconnect_closes_gate_witness:
  "requireExecutionPermissions ''root_/u/lib'' [MOVE_FILE]
     (snd (disconnectRoot sample_env ''root_/u/lib'' sample_registry)) \<noteq> Inr () \<and>
   requireExecutionPermissions ''root_/u/lib'' [MOVE_FILE] sample_registry = Inr ()"
proof -
  have "isl (fst (disconnectRoot sample_env ''root_/u/lib'' sample_registry)) = False" by code_simp
  then obtain summary where "disconnectRoot sample_env ''root_/u/lib'' sample_registry =
      (Inr summary, snd (disconnectRoot sample_env ''root_/u/lib'' sample_registry))"
    by (metis isl_def sum.exhaust prod.collapse)
  from disconnect_closes_gate[OF this, of ReadPermission "[MOVE_FILE]"]
  have "requireExecutionPermissions ''root_/u/lib'' [MOVE_FILE]
     (snd (disconnectRoot sample_env ''root_/u/lib'' sample_registry)) \<noteq> Inr ()" by simp
  moreover have "requireExecutionPermissions ''root_/u/lib'' [MOVE_FILE] sample_registry = Inr ()"
    by code_simp
  ultimately show ?thesis by blast
qed

end
