(* ===== verification/Effects.thy ===== *)
theory Effects
  imports Registry
begin

text \<open>
  How the Bridge's asynchronous code runs: every call on the file system is one step of a
  world that also carries a schedule. Before each step the schedule may let another
  process change the disk (\<open>Interfere\<close>), make the call fail (\<open>Fail\<close>), or end the
  Bridge's process (\<open>Kill\<close>); an empty schedule is undisturbed execution. A computation
  returns, throws, or is cut off; \<open>catch\<close> sees throws only. On top, a small logic of
  triples whose exceptional postcondition covers throws and crashes alike.
\<close>

section \<open>Computations\<close>

datatype perturb = Quiet | Interfere "fs \<Rightarrow> fs" | Fail errno | Kill

record world =
  disk :: fs
  sched :: "perturb list"
  suffixes :: "string list"
  sha256hex :: "string \<Rightarrow> string"

datatype 'a outcome = Ok 'a | Throw exn | Crashed

type_synonym ('w, 'a) io = "'w \<Rightarrow> 'a outcome \<times> 'w"

definition io_return :: "'a \<Rightarrow> ('w, 'a) io" where
  "io_return x = (\<lambda>w. (Ok x, w))"

definition io_throw :: "exn \<Rightarrow> ('w, 'a) io" where
  "io_throw e = (\<lambda>w. (Throw e, w))"

definition io_bind :: "('w, 'a) io \<Rightarrow> ('a \<Rightarrow> ('w, 'b) io) \<Rightarrow> ('w, 'b) io" where
  "io_bind m f = (\<lambda>w. case m w of (Ok x, w') \<Rightarrow> f x w' | (Throw e, w') \<Rightarrow> (Throw e, w')
                       | (Crashed, w') \<Rightarrow> (Crashed, w'))"

definition io_catch :: "('w, 'a) io \<Rightarrow> (exn \<Rightarrow> ('w, 'a) io) \<Rightarrow> ('w, 'a) io" where
  "io_catch m h = (\<lambda>w. case m w of (Throw e, w') \<Rightarrow> h e w' | r \<Rightarrow> r)"

definition io_get :: "('w \<Rightarrow> 'a) \<Rightarrow> ('w, 'a) io" where
  "io_get f = (\<lambda>w. (Ok (f w), w))"

definition io_when :: "bool \<Rightarrow> ('w, unit) io \<Rightarrow> ('w, unit) io" where
  "io_when b m = (if b then m else io_return ())"

definition io_guard :: "bool \<Rightarrow> exn \<Rightarrow> ('w, unit) io" where
  "io_guard b e = (if b then io_return () else io_throw e)"

definition io_result :: "(exn, 'a) result \<Rightarrow> ('w, 'a) io" where
  "io_result r = (case r of Inl e \<Rightarrow> io_throw e | Inr x \<Rightarrow> io_return x)"

text \<open>One scheduled step: what the schedule says first, then the step itself.\<close>

definition scheduled :: "('w world_scheme, 'a) io \<Rightarrow> ('w world_scheme, 'a) io" where
  "scheduled m = (\<lambda>w. case sched w of
      [] \<Rightarrow> m w
    | p # ps \<Rightarrow>
        (let w' = w\<lparr>sched := ps\<rparr> in
         case p of Quiet \<Rightarrow> m w'
         | Interfere g \<Rightarrow> m (w'\<lparr>disk := g (disk w')\<rparr>)
         | Fail e \<Rightarrow> (Throw (SysError e), w')
         | Kill \<Rightarrow> (Crashed, w')))"

definition sys_read :: "(fs \<Rightarrow> (errno, 'a) result) \<Rightarrow> ('w world_scheme, 'a) io" where
  "sys_read f = scheduled (\<lambda>w. case f (disk w) of Inl e \<Rightarrow> (Throw (SysError e), w) | Inr x \<Rightarrow> (Ok x, w))"

definition sys_write :: "(fs \<Rightarrow> (errno, fs) result) \<Rightarrow> ('w world_scheme, unit) io" where
  "sys_write f = scheduled (\<lambda>w. case f (disk w) of Inl e \<Rightarrow> (Throw (SysError e), w)
                                  | Inr d \<Rightarrow> (Ok (), w\<lparr>disk := d\<rparr>))"

section \<open>Triples\<close>

fun post :: "('a \<Rightarrow> 'w \<Rightarrow> bool) \<Rightarrow> ('w \<Rightarrow> bool) \<Rightarrow> 'a outcome \<times> 'w \<Rightarrow> bool" where
  "post Q R (Ok x, w) = Q x w"
| "post Q R (Throw e, w) = R w"
| "post Q R (Crashed, w) = R w"

definition triple :: "('w \<Rightarrow> bool) \<Rightarrow> ('w, 'a) io \<Rightarrow> ('a \<Rightarrow> 'w \<Rightarrow> bool) \<Rightarrow> ('w \<Rightarrow> bool) \<Rightarrow> bool" where
  "triple P m Q R \<longleftrightarrow> (\<forall>w. P w \<longrightarrow> post Q R (m w))"

lemma tripleI: "(\<And>w. P w \<Longrightarrow> post Q R (m w)) \<Longrightarrow> triple P m Q R"
  by (simp add: triple_def)

lemma triple_use: "triple P m Q R \<Longrightarrow> P w \<Longrightarrow> post Q R (m w)"
  by (simp add: triple_def)

lemma triple_return: "(\<And>w. P w \<Longrightarrow> Q x w) \<Longrightarrow> triple P (io_return x) Q R"
  by (simp add: triple_def io_return_def)

lemma triple_throw: "(\<And>w. P w \<Longrightarrow> R w) \<Longrightarrow> triple P (io_throw e) Q R"
  by (simp add: triple_def io_throw_def)

lemma triple_bind:
  assumes "triple P m Q' R" "\<And>x. triple (Q' x) (f x) Q R"
  shows "triple P (io_bind m f) Q R"
proof (rule tripleI)
  fix w assume "P w"
  with assms(1) have m: "post Q' R (m w)" by (rule triple_use)
  show "post Q R (io_bind m f w)"
  proof (cases "m w")
    case (Pair r w')
    with m triple_use[OF assms(2)] show ?thesis by (cases r) (simp_all add: io_bind_def)
  qed
qed

lemma triple_catch:
  assumes "triple P m Q R" "\<And>e. triple R (h e) Q R"
  shows "triple P (io_catch m h) Q R"
proof (rule tripleI)
  fix w assume "P w"
  with assms(1) have m: "post Q R (m w)" by (rule triple_use)
  show "post Q R (io_catch m h w)"
  proof (cases "m w")
    case (Pair r w')
    with m triple_use[OF assms(2)] show ?thesis by (cases r) (simp_all add: io_catch_def)
  qed
qed

lemma post_mono:
  "post Q R r \<Longrightarrow> (\<And>x w. Q x w \<Longrightarrow> Q' x w) \<Longrightarrow> (\<And>w. R w \<Longrightarrow> R' w) \<Longrightarrow> post Q' R' r"
  by (cases r; cases "fst r") auto

lemma triple_weaken:
  assumes "triple P m Q R" "\<And>w. P' w \<Longrightarrow> P w" "\<And>x w. Q x w \<Longrightarrow> Q' x w" "\<And>w. R w \<Longrightarrow> R' w"
  shows "triple P' m Q' R'"
  using assms by (intro tripleI) (blast intro: post_mono triple_use)

lemma triple_assume: "(F \<Longrightarrow> triple P m Q R) \<Longrightarrow> triple (\<lambda>w. F \<and> P w) m Q R"
  by (auto simp: triple_def)

lemma triple_exists: "(\<And>x. triple (P x) m Q R) \<Longrightarrow> triple (\<lambda>w. \<exists>x. P x w) m Q R"
  by (auto simp: triple_def)

lemma triple_pre: "triple P m Q R \<Longrightarrow> (\<And>w. P' w \<Longrightarrow> P w) \<Longrightarrow> triple P' m Q R"
  by (simp add: triple_def)

lemma triple_guard:
  "(\<And>w. P w \<Longrightarrow> b \<Longrightarrow> Q () w) \<Longrightarrow> (\<And>w. P w \<Longrightarrow> R w) \<Longrightarrow> triple P (io_guard b e) Q R"
  by (auto simp: io_guard_def triple_def io_return_def io_throw_def)

text \<open>A guard whose fact the rest may use.\<close>

lemma triple_guarded:
  assumes "b \<Longrightarrow> triple P (f ()) Q R" "\<And>w. P w \<Longrightarrow> R w"
  shows "triple P (io_bind (io_guard b e) f) Q R"
  using assms by (cases b) (auto simp: triple_def io_bind_def io_guard_def io_return_def io_throw_def)

lemma triple_if:
  "(b \<Longrightarrow> triple P m Q R) \<Longrightarrow> (\<not> b \<Longrightarrow> triple P n Q R) \<Longrightarrow> triple P (if b then m else n) Q R"
  by simp

lemma triple_option:
  "triple P m Q R \<Longrightarrow> (\<And>x. triple P (f x) Q R) \<Longrightarrow> triple P (case z of None \<Rightarrow> m | Some x \<Rightarrow> f x) Q R"
  by (cases z) simp_all

lemma tripleD: "triple P m (\<lambda>_. I) I \<Longrightarrow> P w \<Longrightarrow> I (snd (m w))"
  by (drule (1) triple_use) (cases "m w"; cases "fst (m w)"; auto)

section \<open>Stable conditions\<close>

text \<open>
  What the schedule alone can do to the world between two steps of the Bridge, and the
  conditions that survive it.
\<close>

definition env_step :: "'w world_scheme \<Rightarrow> 'w world_scheme \<Rightarrow> bool" where
  "env_step w w' \<longleftrightarrow> suffixes w' = suffixes w \<and> sha256hex w' = sha256hex w \<and>
     ((disk w' = disk w \<and> sched w' = sched w) \<or>
      (\<exists>p ps. sched w = p # ps \<and> sched w' = ps \<and>
        (disk w' = disk w \<or> (\<exists>g. p = Interfere g \<and> disk w' = g (disk w)))))"

definition stable :: "('w world_scheme \<Rightarrow> bool) \<Rightarrow> bool" where
  "stable P \<longleftrightarrow> (\<forall>w w'. env_step w w' \<longrightarrow> P w \<longrightarrow> P w')"

lemma stableD: "stable P \<Longrightarrow> env_step w w' \<Longrightarrow> P w \<Longrightarrow> P w'"
  by (auto simp: stable_def)

text \<open>A computation that changes no name and no file keeps every stable condition.\<close>

definition readonly :: "('w world_scheme, 'a) io \<Rightarrow> bool" where
  "readonly m \<longleftrightarrow> (\<forall>P. stable P \<longrightarrow> triple P m (\<lambda>_. P) P)"

lemma readonlyD: "readonly m \<Longrightarrow> stable P \<Longrightarrow> triple P m (\<lambda>_. P) P"
  by (simp add: readonly_def)

lemma env_step_refl:
  "disk w' = disk w \<Longrightarrow> sched w' = sched w \<Longrightarrow> suffixes w' = suffixes w \<Longrightarrow>
    sha256hex w' = sha256hex w \<Longrightarrow> env_step w w'"
  by (simp add: env_step_def)

text \<open>
  A scheduled step meets its triple when the step itself, from any state the schedule can
  leave, does.
\<close>

lemma triple_scheduled:
  assumes "stable P" "triple P m Q R" "\<And>w. P w \<Longrightarrow> R w"
  shows "triple P (scheduled m) Q R"
proof (rule tripleI)
  fix w assume P: "P w"
  show "post Q R (scheduled m w)"
  proof (cases "sched w")
    case Nil
    with triple_use[OF assms(2) P] show ?thesis by (simp add: scheduled_def)
  next
    case (Cons p ps)
    have "env_step w (w\<lparr>sched := ps\<rparr>)" using Cons by (simp add: env_step_def)
    then have P1: "P (w\<lparr>sched := ps\<rparr>)" using P assms(1) by (blast intro: stableD)
    show ?thesis
    proof (cases p)
      case (Interfere g)
      have "env_step w (w\<lparr>sched := ps, disk := g (disk w)\<rparr>)" using Cons Interfere by (simp add: env_step_def)
      with P assms(1) have "P (w\<lparr>sched := ps, disk := g (disk w)\<rparr>)" by (blast intro: stableD)
      with triple_use[OF assms(2)] Cons Interfere show ?thesis by (simp add: scheduled_def)
    qed (use Cons P1 triple_use[OF assms(2)] assms(3) in \<open>simp_all add: scheduled_def\<close>)
  qed
qed

lemma triple_sys_read:
  assumes "stable P" "\<And>w x. P w \<Longrightarrow> f (disk w) = Inr x \<Longrightarrow> Q x w" "\<And>w. P w \<Longrightarrow> R w"
  shows "triple P (sys_read f) Q R"
  unfolding sys_read_def using assms
  by (intro triple_scheduled) (auto simp: triple_def split: sum.splits)

lemma triple_sys_write:
  assumes "stable P" "\<And>w d. P w \<Longrightarrow> f (disk w) = Inr d \<Longrightarrow> Q (w\<lparr>disk := d\<rparr>)" "\<And>w. P w \<Longrightarrow> R w"
  shows "triple P (sys_write f) (\<lambda>_. Q) R"
  unfolding sys_write_def using assms
  by (intro triple_scheduled) (auto simp: triple_def split: sum.splits)

lemma readonly_return [keeps]: "readonly (io_return x)"
  and readonly_throw [keeps]: "readonly (io_throw e)"
  by (auto simp: readonly_def intro: triple_return triple_throw)

lemma readonly_get [keeps]: "readonly (io_get f)"
  by (simp add: readonly_def triple_def io_get_def)

lemma readonly_bind [keeps]: "readonly m \<Longrightarrow> (\<And>x. readonly (f x)) \<Longrightarrow> readonly (io_bind m f)"
  unfolding readonly_def by (blast intro: triple_bind)

lemma readonly_catch [keeps]: "readonly m \<Longrightarrow> (\<And>e. readonly (h e)) \<Longrightarrow> readonly (io_catch m h)"
  unfolding readonly_def by (blast intro: triple_catch)

lemma triple_ro:
  assumes "readonly m" "stable P" "\<And>x. triple P (f x) Q R" "\<And>w. P w \<Longrightarrow> R w"
  shows "triple P (io_bind m f) Q R"
  using assms by (intro triple_bind[of _ _ "\<lambda>_. P"] triple_weaken[OF readonlyD[OF assms(1,2)]]) auto

lemma readonly_sys_read [keeps]: "readonly (sys_read f)"
  unfolding readonly_def by (blast intro: triple_sys_read)

lemma readonly_guard [keeps]: "readonly (io_guard b e)"
  by (simp add: io_guard_def readonly_return readonly_throw)

lemma readonly_when [keeps]: "readonly m \<Longrightarrow> readonly (io_when b m)"
  by (simp add: io_when_def readonly_return)

lemma readonly_result [keeps]: "readonly (io_result r)"
  by (cases r) (simp_all add: io_result_def readonly_return readonly_throw)

lemma readonly_if [keeps]: "(b \<Longrightarrow> readonly m) \<Longrightarrow> (\<not> b \<Longrightarrow> readonly n) \<Longrightarrow> readonly (if b then m else n)"
  by simp

text \<open>A computation that keeps an invariant however it ends.\<close>

definition preserves :: "('w \<Rightarrow> bool) \<Rightarrow> ('w, 'a) io \<Rightarrow> bool" where
  "preserves I m \<longleftrightarrow> triple I m (\<lambda>_. I) I"

lemma preserves_use: "preserves I m \<Longrightarrow> I w \<Longrightarrow> I (snd (m w))"
  by (simp add: preserves_def tripleD)

lemma preserves_readonly: "stable I \<Longrightarrow> readonly m \<Longrightarrow> preserves I m"
  by (simp add: preserves_def readonlyD)

lemma preserves_return [keeps]: "preserves I (io_return x)"
  and preserves_throw [keeps]: "preserves I (io_throw e)"
  by (auto simp: preserves_def intro: triple_return triple_throw)

lemma preserves_bind [keeps]:
  "preserves I m \<Longrightarrow> (\<And>x. preserves I (f x)) \<Longrightarrow> preserves I (io_bind m f)"
  unfolding preserves_def by (rule triple_bind)

lemma preserves_catch [keeps]:
  "preserves I m \<Longrightarrow> (\<And>e. preserves I (h e)) \<Longrightarrow> preserves I (io_catch m h)"
  unfolding preserves_def by (rule triple_catch)

lemma preserves_if [keeps]:
  "(b \<Longrightarrow> preserves I m) \<Longrightarrow> (\<not> b \<Longrightarrow> preserves I n) \<Longrightarrow> preserves I (if b then m else n)"
  by simp

lemma preserves_when [keeps]: "preserves I m \<Longrightarrow> preserves I (io_when b m)"
  by (simp add: io_when_def preserves_return)

lemma preserves_guard [keeps]: "preserves I (io_guard b e)"
  by (simp add: io_guard_def preserves_return preserves_throw)

lemma preserves_option [keeps]:
  "preserves I m \<Longrightarrow> (\<And>x. preserves I (f x)) \<Longrightarrow> preserves I (case z of None \<Rightarrow> m | Some x \<Rightarrow> f x)"
  by (cases z) simp_all

lemma preserves_write:
  assumes "stable I" "\<And>w d. I w \<Longrightarrow> f (disk w) = Inr d \<Longrightarrow> I (w\<lparr>disk := d\<rparr>)"
  shows "preserves I (sys_write f)"
  unfolding preserves_def using assms by (intro triple_sys_write)

end
