(* ===== verification/SafeMove.thy ===== *)
theory SafeMove
  imports Effects
begin

text \<open>
  \<open>bridge-app/src/filesystem/safe-move.ts\<close>: physical identities of files and the move
  that never replaces anything. A move links the file to its new name, checks what the new
  name holds, captures the old name in a private directory, checks what it captured, and
  only then removes it. Inode and device numbers are decimal strings in the journal, as in
  the code.
\<close>

section \<open>Decimal strings\<close>

definition digit_char :: "nat \<Rightarrow> char" where "digit_char d = char_of (48 + d)"

text \<open>\<open>bigint.toString()\<close> and \<open>BigInt(string)\<close> for non-negative numbers.\<close>

fun dec :: "nat \<Rightarrow> string" where
  "dec n = (if n < 10 then [digit_char n] else dec (n div 10) @ [digit_char (n mod 10)])"

declare dec.simps [simp del]

lemma of_digit_char: "d < 10 \<Longrightarrow> of_char (digit_char d) = (48 + d :: nat)"
  by (simp add: digit_char_def)

lemma dec_val_dec [simp]: "dec_val (dec n) = n"
proof (induction n rule: dec.induct)
  case (1 n)
  show ?case
  proof (cases "n < 10")
    case True
    then show ?thesis by (subst dec.simps) (simp add: dec_val_def of_digit_char)
  next
    case False
    with 1 have "foldl (\<lambda>a c. 10 * a + (of_char c - 48)) 0 (dec (n div 10)) = n div 10"
      by (simp add: dec_val_def)
    with False show ?thesis by (subst dec.simps) (simp add: dec_val_def of_digit_char)
  qed
qed

lemma dec_inject [simp]: "dec m = dec n \<longleftrightarrow> m = n"
  by (metis dec_val_dec)

text \<open>\<open>String(n)\<close> for a whole number.\<close>

definition dec_int :: "int \<Rightarrow> string" where
  "dec_int n = (if n < 0 then CHR ''-'' # dec (nat (- n)) else dec (nat n))"

lemma is_digit_char: "d < 10 \<Longrightarrow> is_digit (digit_char d)"
  by (simp add: is_digit_def of_digit_char)

lemma digits_dec: "list_all is_digit (dec n)"
proof (induction n rule: dec.induct)
  case (1 n)
  then show ?case by (subst dec.simps) (auto simp: is_digit_char)
qed

lemma dec_digits: "c \<in> set (dec n) \<Longrightarrow> is_digit c"
  using digits_dec by (auto simp: list_all_iff)

lemma dec_not_Nil [simp]: "dec n \<noteq> []"
  by (subst dec.simps) simp

lemma dec_no_sign: "dec n \<noteq> CHR ''-'' # s"
proof
  assume "dec n = CHR ''-'' # s"
  then have "is_digit (CHR ''-'')" by (metis dec_digits list.set_intros(1))
  then show False by (simp add: is_digit_def)
qed

lemma dec_int_inject [simp]: "dec_int m = dec_int n \<longleftrightarrow> m = n"
  using dec_no_sign[of "nat m"] dec_no_sign[of "nat n", THEN not_sym] by (auto simp: dec_int_def)

section \<open>Identities\<close>

record device_identity =
  id_dev :: string
  id_ino :: string
  id_encoding :: "string option"

record file_identity = device_identity +
  id_checksum :: string

record source_capture = device_identity +
  cap_directory :: string

text \<open>\<open>/^(0|[1-9]\\d{0,19})$/u\<close>\<close>

definition canonical_decimal :: "string \<Rightarrow> bool" where
  "canonical_decimal v \<longleftrightarrow> v = ''0'' \<or>
     (v \<noteq> [] \<and> length v \<le> 20 \<and> list_all is_digit v \<and> hd v \<noteq> CHR ''0'')"

definition bigint_v1 :: string where "bigint_v1 = ''bigint-v1''"

definition usablePhysicalIdentity :: "'a device_identity_scheme \<Rightarrow> bool" where
  "usablePhysicalIdentity i =
     (if id_encoding i \<noteq> None \<and> id_encoding i \<noteq> Some bigint_v1 then False
      else list_all (\<lambda>v. canonical_decimal v \<and>
             dec_val v \<le> (if id_encoding i = Some bigint_v1 then 18446744073709551615 else 9007199254740991))
           [id_dev i, id_ino i])"

text \<open>The same check where the argument may be null or undefined.\<close>

definition usable_opt :: "'a device_identity_scheme option \<Rightarrow> bool" where
  "usable_opt i = (case i of None \<Rightarrow> False | Some x \<Rightarrow> usablePhysicalIdentity x)"

definition samePhysicalIdentity :: "stats \<Rightarrow> 'a device_identity_scheme option \<Rightarrow> bool" where
  "samePhysicalIdentity st i =
     (usable_opt i \<and> dec (st_dev st) = id_dev (the i) \<and> dec (st_ino st) = id_ino (the i))"

definition same_file :: "file_identity \<Rightarrow> file_identity \<Rightarrow> bool" where
  "same_file a b \<longleftrightarrow> id_dev a = id_dev b \<and> id_ino a = id_ino b \<and> id_checksum a = id_checksum b"

text \<open>The decimal strings that \<open>bigint\<close> produces pass the checks of the journal's reader.\<close>

lemma hd_dec: "0 < n \<Longrightarrow> hd (dec n) \<noteq> CHR ''0''"
proof (induction n rule: dec.induct)
  case (1 n)
  show ?case
  proof (cases "n < 10")
    case True
    have "of_char (digit_char n) \<noteq> (of_char (CHR ''0'') :: nat)" using True 1(2) by (simp add: of_digit_char)
    then have "digit_char n \<noteq> CHR ''0''" by auto
    with True show ?thesis by (subst dec.simps) simp
  next
    case False
    with 1 have "hd (dec (n div 10)) \<noteq> CHR ''0''" by simp
    with False show ?thesis by (subst dec.simps) simp
  qed
qed

lemma length_dec: "n < 10 ^ k \<Longrightarrow> 0 < k \<Longrightarrow> length (dec n) \<le> k"
proof (induction k arbitrary: n)
  case (Suc k)
  show ?case
  proof (cases "n < 10")
    case True
    then show ?thesis by (subst dec.simps) simp
  next
    case False
    with Suc.prems have "n div 10 < 10 ^ k" "0 < k" by (auto intro: Suc_leI gr0I)
    with Suc.IH[of "n div 10"] False show ?thesis by (subst dec.simps) simp
  qed
qed simp

lemma canonical_dec: "n \<le> 18446744073709551615 \<Longrightarrow> canonical_decimal (dec n)"
proof (cases "n = 0")
  case True
  have "dec 0 = ''0''" by code_simp
  with True show ?thesis by (simp add: canonical_decimal_def)
next
  case False
  assume "n \<le> 18446744073709551615"
  then have "length (dec n) \<le> 20" by (intro length_dec) simp_all
  with False show ?thesis by (simp add: canonical_decimal_def digits_dec hd_dec)
qed

section \<open>System calls\<close>

definition lstat :: "string \<Rightarrow> ('w world_scheme, stats) io" where
  "lstat p = sys_read (fs_lstat p)"

text \<open>\<open>lstat\<close> with \<open>ENOENT\<close> as absence; every other failure is thrown on.\<close>

definition statOrAbsent :: "string \<Rightarrow> ('w world_scheme, stats option) io" where
  "statOrAbsent p =
     io_catch (io_bind (lstat p) (\<lambda>s. io_return (Some s)))
       (\<lambda>e. if e = SysError ENOENT then io_return None else io_throw e)"

text \<open>\<open>open(directory, "r")\<close> and \<open>sync()\<close>: nothing changes, both can fail.\<close>

definition syncDirectory :: "string \<Rightarrow> ('w world_scheme, unit) io" where
  "syncDirectory p =
     io_bind (sys_read (\<lambda>f. if lookup f p = None then Inl ENOENT else Inr ())) (\<lambda>_.
     sys_read (\<lambda>f. Inr ()))"

text \<open>
  \<open>open(path, O_RDONLY | O_NOFOLLOW)\<close> gives a handle on an inode; the two \<open>stat\<close>s and the
  read go through the handle, not through the name.
\<close>

definition open_nofollow :: "string \<Rightarrow> ('w world_scheme, nat) io" where
  "open_nofollow p =
     sys_read (\<lambda>f. case lookup f p of None \<Rightarrow> Inl ENOENT
       | Some i \<Rightarrow> if node_kind (fs_node f i) = SymbolicLink then Inl ELOOP
                   else if \<not> node_readable (fs_node f i) then Inl EACCES else Inr i)"

definition stat_handle :: "nat \<Rightarrow> ('w world_scheme, stats) io" where
  "stat_handle i = sys_read (\<lambda>f. Inr (stats_of f i))"

definition read_handle :: "nat \<Rightarrow> ('w world_scheme, string) io" where
  "read_handle i = sys_read (\<lambda>f. Inr (node_bytes (fs_node f i)))"

definition physicalFileIdentity :: "string \<Rightarrow> ('w world_scheme, file_identity) io" where
  "physicalFileIdentity p =
     io_bind (open_nofollow p) (\<lambda>h.
     io_bind (stat_handle h) (\<lambda>earlier.
     io_bind (io_guard (is_file earlier) PlainError) (\<lambda>_.
     io_bind (read_handle h) (\<lambda>bytes.
     io_bind (stat_handle h) (\<lambda>after.
     io_bind (io_guard (st_dev earlier = st_dev after \<and> st_ino earlier = st_ino after \<and>
          st_size earlier = st_size after \<and> st_mtime earlier = st_mtime after \<and>
          st_ctime earlier = st_ctime after) PlainError) (\<lambda>_.
     io_bind (io_get sha256hex) (\<lambda>digest.
     io_return \<lparr>id_dev = dec (st_dev earlier), id_ino = dec (st_ino earlier),
       id_encoding = Some bigint_v1, id_checksum = digest bytes\<rparr>)))))))"

text \<open>
  \<open>mkdtemp(prefix)\<close>: a new directory whose suffix the system chooses; the choice is the
  next entry of \<open>suffixes\<close>, and a name that is taken is an error.
\<close>

definition next_suffix :: "('w world_scheme, string) io" where
  "next_suffix = (\<lambda>w. case suffixes w of [] \<Rightarrow> (Throw (SysError EEXIST), w)
     | s # ss \<Rightarrow> (Ok s, w\<lparr>suffixes := ss\<rparr>))"

definition mkdtemp :: "string \<Rightarrow> ('w world_scheme, string) io" where
  "mkdtemp prefix =
     io_bind next_suffix (\<lambda>s.
     io_bind (sys_write (fs_mkdir (prefix @ s))) (\<lambda>_.
     io_return (prefix @ s)))"

section \<open>Removing a source that the move owns\<close>

text \<open>
  The callbacks of a move. The journal passes \<open>captureIntent\<close>, \<open>intent\<close> and \<open>linked\<close>;
  \<open>captured\<close> and \<open>beforeCapture\<close> are there for the code's tests.
\<close>

record 'w move_hooks =
  hook_intent :: "file_identity \<Rightarrow> ('w, unit) io"
  hook_linked :: "file_identity \<Rightarrow> ('w, unit) io"
  hook_captureIntent :: "source_capture \<Rightarrow> ('w, unit) io"
  hook_beforeCapture :: "('w, unit) io"
  hook_captured :: "('w, unit) io"

definition no_hooks :: "'w move_hooks" where
  "no_hooks = \<lparr>hook_intent = \<lambda>_. io_return (), hook_linked = \<lambda>_. io_return (),
     hook_captureIntent = \<lambda>_. io_return (), hook_beforeCapture = io_return (),
     hook_captured = io_return ()\<rparr>"

definition move_prefix_name :: string where "move_prefix_name = ''.nsn-move-''"

definition capture_of :: "string \<Rightarrow> stats \<Rightarrow> source_capture" where
  "capture_of directory st =
     \<lparr>id_dev = dec (st_dev st), id_ino = dec (st_ino st), id_encoding = Some bigint_v1,
      cap_directory = directory\<rparr>"

definition newCapture ::
  "string \<Rightarrow> ('w world_scheme) move_hooks \<Rightarrow> ('w world_scheme, source_capture) io" where
  "newCapture source hooks =
     io_bind (mkdtemp (posix_join [posix_dirname source, move_prefix_name])) (\<lambda>directory.
     io_bind (lstat directory) (\<lambda>st.
     io_bind (syncDirectory (posix_dirname source)) (\<lambda>_.
     io_bind (hook_captureIntent hooks (capture_of directory st)) (\<lambda>_.
     io_return (capture_of directory st)))))"

definition captured_name :: "source_capture \<Rightarrow> string" where
  "captured_name c = posix_join [cap_directory c, ''source'']"

text \<open>The capture directory still is the one this move made, beside the source.\<close>

definition capture_owned :: "string \<Rightarrow> source_capture \<Rightarrow> stats \<Rightarrow> bool" where
  "capture_owned source c st \<longleftrightarrow>
     is_directory st \<and> \<not> is_symlink st \<and> samePhysicalIdentity st (Some c) \<and>
     posix_dirname (cap_directory c) = posix_dirname source \<and>
     starts_with (posix_basename (cap_directory c)) move_prefix_name"

text \<open>The private name is free: verify the public source and move it there.\<close>

definition captureSource ::
  "string \<Rightarrow> file_identity \<Rightarrow> ('w world_scheme) move_hooks \<Rightarrow> source_capture \<Rightarrow> bool
    \<Rightarrow> ('w world_scheme, unit) io" where
  "captureSource source identity hooks c allowSourceChanges =
     io_bind (io_guard allowSourceChanges PlainError) (\<lambda>_.
     io_bind (physicalFileIdentity source) (\<lambda>current.
     io_bind (io_guard (same_file current identity) PlainError) (\<lambda>_.
     io_bind (hook_beforeCapture hooks) (\<lambda>_.
     io_bind (sys_write (fs_rename source (captured_name c))) (\<lambda>_.
     io_bind (syncDirectory (posix_dirname source)) (\<lambda>_.
     io_bind (syncDirectory (cap_directory c)) (\<lambda>_.
     hook_captured hooks)))))))"

text \<open>A captured stranger gets its public name back, unless that name is taken.\<close>

definition restorePublicName :: "string \<Rightarrow> source_capture \<Rightarrow> ('w world_scheme, unit) io" where
  "restorePublicName source c =
     io_catch
       (io_bind (sys_write (fs_link (captured_name c) source)) (\<lambda>_. syncDirectory (posix_dirname source)))
       (\<lambda>e. if e = SysError EEXIST then io_return () else io_throw e)"

definition rejectCaptured :: "string \<Rightarrow> source_capture \<Rightarrow> bool \<Rightarrow> ('w world_scheme, source_capture) io" where
  "rejectCaptured source c allowSourceChanges =
     io_bind (io_when allowSourceChanges (restorePublicName source c)) (\<lambda>_. io_throw PlainError)"

definition discardCaptured :: "string \<Rightarrow> source_capture \<Rightarrow> ('w world_scheme, source_capture) io" where
  "discardCaptured source c =
     io_bind (sys_write (fs_unlink (captured_name c))) (\<lambda>_.
     io_bind (syncDirectory (cap_directory c)) (\<lambda>_.
     io_bind (sys_write (fs_rmdir (cap_directory c))) (\<lambda>_.
     io_bind (syncDirectory (posix_dirname source)) (\<lambda>_.
     io_return c))))"

definition verifyAndDiscard ::
  "string \<Rightarrow> file_identity \<Rightarrow> source_capture \<Rightarrow> bool \<Rightarrow> ('w world_scheme, source_capture) io" where
  "verifyAndDiscard source identity c allowSourceChanges =
     io_bind (physicalFileIdentity (captured_name c)) (\<lambda>current.
     if \<not> same_file current identity then rejectCaptured source c allowSourceChanges
     else discardCaptured source c)"

definition removeOwnedSource ::
  "string \<Rightarrow> file_identity \<Rightarrow> ('w world_scheme) move_hooks \<Rightarrow> source_capture option \<Rightarrow> bool
    \<Rightarrow> ('w world_scheme, source_capture) io" where
  "removeOwnedSource source identity hooks admitted allowSourceChanges =
     io_bind (io_guard (usablePhysicalIdentity identity \<and> (admitted = None \<or> usable_opt admitted)) PlainError) (\<lambda>_.
     io_bind (case admitted of Some c \<Rightarrow> io_return c | None \<Rightarrow> newCapture source hooks) (\<lambda>c.
     io_bind (lstat (cap_directory c)) (\<lambda>directoryStats.
     io_bind (io_guard (capture_owned source c directoryStats) PlainError) (\<lambda>_.
     io_bind (statOrAbsent (captured_name c)) (\<lambda>capturedStats.
     io_bind (if capturedStats = None then captureSource source identity hooks c allowSourceChanges
              else io_return ()) (\<lambda>_.
     verifyAndDiscard source identity c allowSourceChanges))))))"

section \<open>The move\<close>

definition moveWithoutReplacement ::
  "string \<Rightarrow> string \<Rightarrow> string option \<Rightarrow> ('w world_scheme) move_hooks
    \<Rightarrow> ('w world_scheme, file_identity) io" where
  "moveWithoutReplacement source destination expectedChecksum hooks =
     io_bind (physicalFileIdentity source) (\<lambda>identity.
     io_bind (io_guard (case expectedChecksum of None \<Rightarrow> True
        | Some c \<Rightarrow> c = [] \<or> id_checksum identity = c) PlainError) (\<lambda>_.
     io_bind (hook_intent hooks identity) (\<lambda>_.
     io_bind (sys_write (fs_link source destination)) (\<lambda>_.
     io_bind (syncDirectory (posix_dirname destination)) (\<lambda>_.
     io_bind (physicalFileIdentity destination) (\<lambda>destinationIdentity.
     io_bind (io_guard (same_file destinationIdentity identity) PlainError) (\<lambda>_.
     io_bind (hook_linked hooks identity) (\<lambda>_.
     io_bind (removeOwnedSource source identity hooks None True) (\<lambda>_.
     io_return identity)))))))))"

section \<open>Exact identities\<close>

lemma usable_dec:
  assumes "id_dev c = dec d" "id_ino c = dec i" "id_encoding c = Some bigint_v1"
    "d \<le> 18446744073709551615" "i \<le> 18446744073709551615"
  shows "usablePhysicalIdentity c"
  using assms by (simp add: usablePhysicalIdentity_def canonical_dec)

text \<open>
  The recorded identity of a directory is exact: an identity written for a 64-bit
  device and inode number is accepted later for precisely the directory it was taken from,
  with no rounding and no confusion of decimal spellings.
\<close>

theorem samePhysicalIdentity_exact:
  assumes "st_dev st \<le> 18446744073709551615" "st_ino st \<le> 18446744073709551615"
  shows "samePhysicalIdentity now (Some (capture_of directory st)) \<longleftrightarrow>
    st_dev now = st_dev st \<and> st_ino now = st_ino st"
proof -
  have "usablePhysicalIdentity (capture_of directory st)"
    using assms by (intro usable_dec[of _ "st_dev st" "st_ino st"]) (simp_all add: capture_of_def)
  then show ?thesis by (simp add: samePhysicalIdentity_def usable_opt_def) (simp add: capture_of_def)
qed

theorem samePhysicalIdentity_exact_witness:
  "let st = \<lparr>st_dev = 9, st_ino = 18446744073709551615, st_kind = Directory, st_size = 0,
     st_mtime = 0, st_ctime = 0, st_birthtime = 0\<rparr>
   in samePhysicalIdentity st (Some (capture_of ''/u/.nsn-move-x'' st)) \<and>
      \<not> samePhysicalIdentity (st\<lparr>st_ino := 18446744073709551614\<rparr>) (Some (capture_of ''/u/.nsn-move-x'' st))"
  using samePhysicalIdentity_exact[of "\<lparr>st_dev = 9, st_ino = 18446744073709551615, st_kind = Directory,
     st_size = 0, st_mtime = 0, st_ctime = 0, st_birthtime = 0\<rparr>" _ "''/u/.nsn-move-x''"]
  by (simp add: Let_def)

end
