(* ===== verification/Journal.thy ===== *)
theory Journal
  imports SafeMove
begin

text \<open>
  \<open>bridge-app/src/filesystem/physical-journal.ts\<close> over \<open>main/local-json-store.ts\<close>: every
  physical action writes its intent to a journal file before it touches the library, and
  is completed or recovered from that file after a failure. The journal files live in the
  Bridge's own data directory, apart from the library's disk; nobody else writes them.
  \<open>withLocalStoreLock\<close> runs the operations on one journal one after the other, so each
  operation below is the whole body of its lock.
\<close>

section \<open>The journal\<close>

datatype journal_kind = MOVE | CREATE_FOLDER_J | REMOVE_FOLDER_J
datatype journal_state = INTENT | LINKED | COMPLETED

record journal =
  j_version :: nat
  j_owner :: string
  j_kind :: journal_kind
  j_source :: "string option"
  j_destination :: string
  j_state :: journal_state
  j_identity :: "file_identity option"
  j_created :: bool
  j_originalOwner :: "string option"
  j_modifiedAt :: "int option"
  j_sizeBytes :: "string option"
  j_sourceCapture :: "source_capture option"
  j_directoryCapture :: "source_capture option"

text \<open>
  What a journal file holds: nothing, bytes that are no JSON, JSON without the fields and
  types of a journal, or a journal whose values are still to be validated.
\<close>

datatype journal_file = JAbsent | JUnparsable | JIllTyped | JStored journal

text \<open>
  The world of the journal: its files by the digest of their owner, and the entry that the
  code's closures share (the mutable variable \<open>entry\<close>).
\<close>

record jworld = world +
  journals :: "string \<Rightarrow> journal_file"
  live :: "journal option"

definition remove_prefix_name :: string where "remove_prefix_name = ''.nsn-remove-''"

text \<open>\<open>/^[a-f0-9]{64}$/u\<close>\<close>

definition is_lower_hex :: "char \<Rightarrow> bool" where
  "is_lower_hex c \<longleftrightarrow> is_digit c \<or> (let n = (of_char c :: nat) in 97 \<le> n \<and> n \<le> 102)"

definition sha256_text :: "string \<Rightarrow> bool" where
  "sha256_text s \<longleftrightarrow> length s = 64 \<and> list_all is_lower_hex s"

definition journal_ok :: "string \<Rightarrow> journal \<Rightarrow> bool" where
  "journal_ok owner e \<longleftrightarrow>
     j_version e = 1 \<and> j_owner e = owner \<and>
     (j_kind e = MOVE \<longrightarrow> j_source e \<noteq> None \<and>
        (case j_identity e of None \<Rightarrow> False | Some i \<Rightarrow> sha256_text (id_checksum i))) \<and>
     (case j_sourceCapture e of None \<Rightarrow> True
      | Some c \<Rightarrow> j_kind e = MOVE \<and> posix_dirname (cap_directory c) = posix_dirname (the (j_source e)) \<and>
          starts_with (posix_basename (cap_directory c)) move_prefix_name) \<and>
     (case j_directoryCapture e of None \<Rightarrow> True
      | Some c \<Rightarrow> j_kind e = REMOVE_FOLDER_J \<and> usablePhysicalIdentity c \<and> j_originalOwner e \<noteq> None \<and>
          posix_dirname (cap_directory c) = posix_dirname (j_destination e) \<and>
          starts_with (posix_basename (cap_directory c)) remove_prefix_name)"

section \<open>Journal files\<close>

text \<open>A step that changes nothing but can fail or be the last one.\<close>

definition tick :: "('w world_scheme, unit) io" where
  "tick = scheduled (io_return ())"

definition load :: "string \<Rightarrow> ('w jworld_scheme, journal option) io" where
  "load owner =
     io_bind (scheduled (io_get (\<lambda>w. journals w (sha256hex w owner)))) (\<lambda>content.
     case content of
       JAbsent \<Rightarrow> io_return None
     | JUnparsable \<Rightarrow> io_throw PlainError
     | JIllTyped \<Rightarrow> io_throw PhysicalRecoveryRequired
     | JStored e \<Rightarrow> if journal_ok owner e then io_return (Some e) else io_throw PhysicalRecoveryRequired)"

definition hasPhysicalActionJournal :: "string \<Rightarrow> ('w jworld_scheme, bool) io" where
  "hasPhysicalActionJournal owner = io_bind (load owner) (\<lambda>e. io_return (e \<noteq> None))"

text \<open>
  \<open>writeLocalJson\<close>: create the directory, open and write and sync a temporary file,
  rename it over the journal, then open and sync the directory. The rename is the effect.
\<close>

definition put_journal :: "journal \<Rightarrow> ('w jworld_scheme, unit) io" where
  "put_journal e = (\<lambda>w. (Ok (), w\<lparr>journals := (journals w)(sha256hex w (j_owner e) := JStored e)\<rparr>))"

definition writeJournal :: "journal \<Rightarrow> ('w jworld_scheme, unit) io" where
  "writeJournal e =
     io_bind tick (\<lambda>_. io_bind tick (\<lambda>_. io_bind tick (\<lambda>_. io_bind tick (\<lambda>_.
     io_bind (scheduled (put_journal e)) (\<lambda>_. io_bind tick (\<lambda>_. tick))))))"

definition set_live :: "journal option \<Rightarrow> ('w jworld_scheme, unit) io" where
  "set_live e = (\<lambda>w. (Ok (), w\<lparr>live := e\<rparr>))"

text \<open>Change the shared entry, then write it.\<close>

definition update_live :: "(journal \<Rightarrow> journal) \<Rightarrow> ('w jworld_scheme, unit) io" where
  "update_live f =
     io_bind (io_get live) (\<lambda>l.
     io_bind (set_live (map_option f l)) (\<lambda>_.
     writeJournal (f (the l))))"

definition matches :: "file_identity \<Rightarrow> file_identity \<Rightarrow> bool" where
  "matches l r \<longleftrightarrow> usablePhysicalIdentity l \<and> usablePhysicalIdentity r \<and> same_file l r"

section \<open>Moves\<close>

definition completeMove :: "journal \<Rightarrow> ('w jworld_scheme, journal) io" where
  "completeMove e =
     io_bind (lstat (j_destination e)) (\<lambda>st.
     let e' = e\<lparr>j_state := COMPLETED, j_modifiedAt := Some (st_mtime st), j_sizeBytes := Some (dec (st_size st))\<rparr> in
     io_bind (set_live (Some e')) (\<lambda>_.
     io_bind (writeJournal e') (\<lambda>_.
     io_return e')))"

definition capture_hook :: "source_capture \<Rightarrow> ('w jworld_scheme, unit) io" where
  "capture_hook c = update_live (\<lambda>e. e\<lparr>j_sourceCapture := Some c\<rparr>)"

text \<open>\<open>try { ... } catch { throw new PhysicalRecoveryRequired(...) }\<close>\<close>

definition or_recovery :: "('w, 'a) io \<Rightarrow> ('w, unit) io" where
  "or_recovery m = io_catch (io_bind m (\<lambda>_. io_return ())) (\<lambda>_. io_throw PhysicalRecoveryRequired)"

text \<open>The source name is still there beside the owned destination.\<close>

definition finishOwnedSource :: "journal \<Rightarrow> bool \<Rightarrow> stats \<Rightarrow> stats option \<Rightarrow> ('w jworld_scheme, unit) io" where
  "finishOwnedSource e finishOwnedLink s captureStats =
     (let source = the (j_source e); identity = the (j_identity e) in
      io_bind (io_guard (finishOwnedLink \<and> is_file s \<and> \<not> is_symlink s) PhysicalRecoveryRequired) (\<lambda>_.
      io_bind (physicalFileIdentity source) (\<lambda>current.
      io_bind (io_guard (matches current identity) PhysicalRecoveryRequired) (\<lambda>_.
      or_recovery (removeOwnedSource source identity (no_hooks\<lparr>hook_captureIntent := capture_hook\<rparr>)
        (if captureStats \<noteq> None then j_sourceCapture e else None) True)))))"

text \<open>Only the private capture directory is left.\<close>

definition discardEmptyCapture :: "journal \<Rightarrow> stats \<Rightarrow> ('w jworld_scheme, unit) io" where
  "discardEmptyCapture e s =
     io_bind (io_guard (is_directory s \<and> \<not> is_symlink s \<and> samePhysicalIdentity s (j_sourceCapture e))
       PhysicalRecoveryRequired) (\<lambda>_.
     or_recovery (io_bind (sys_write (fs_rmdir (cap_directory (the (j_sourceCapture e))))) (\<lambda>_.
       syncDirectory (posix_dirname (the (j_source e))))))"

text \<open>The destination is owned: clean up what is left of the source.\<close>

definition cleanMovedSource ::
  "journal \<Rightarrow> bool \<Rightarrow> stats option \<Rightarrow> stats option \<Rightarrow> stats option \<Rightarrow> ('w jworld_scheme, unit) io" where
  "cleanMovedSource e finishOwnedLink sourceStats captureStats capturedSource =
     (if capturedSource \<noteq> None then
        or_recovery (removeOwnedSource (the (j_source e)) (the (j_identity e)) no_hooks (j_sourceCapture e) False)
      else case sourceStats of
        Some s \<Rightarrow> finishOwnedSource e finishOwnedLink s captureStats
      | None \<Rightarrow> (case captureStats of Some s \<Rightarrow> discardEmptyCapture e s | None \<Rightarrow> io_return ()))"

definition recoverOwnedMove :: "journal \<Rightarrow> bool \<Rightarrow> stats option \<Rightarrow> ('w jworld_scheme, journal option) io" where
  "recoverOwnedMove e finishOwnedLink source =
     io_bind (case j_sourceCapture e of None \<Rightarrow> io_return None
       | Some c \<Rightarrow> statOrAbsent (cap_directory c)) (\<lambda>captureStats.
     io_bind (if captureStats = None then io_return None
       else statOrAbsent (captured_name (the (j_sourceCapture e)))) (\<lambda>capturedSource.
     io_bind (cleanMovedSource e finishOwnedLink source captureStats capturedSource) (\<lambda>_.
     io_bind (io_get live) (\<lambda>l.
     io_bind (completeMove (the l)) (\<lambda>e'. io_return (Some e'))))))"

text \<open>The identity of what the destination names, when that is a regular file.\<close>

definition identityIfFile :: "string \<Rightarrow> stats \<Rightarrow> ('w world_scheme, file_identity option) io" where
  "identityIfFile p s =
     (if is_file s \<and> \<not> is_symlink s then io_bind (physicalFileIdentity p) (\<lambda>i. io_return (Some i))
      else io_return None)"

definition recoverMove :: "journal \<Rightarrow> bool \<Rightarrow> ('w jworld_scheme, journal option) io" where
  "recoverMove e finishOwnedLink =
     (if j_state e = COMPLETED then io_return (Some e)
      else
        io_bind (io_guard (usable_opt (j_identity e) \<and>
            (j_sourceCapture e = None \<or> usable_opt (j_sourceCapture e))) PhysicalRecoveryRequired) (\<lambda>_.
        io_bind (set_live (Some e)) (\<lambda>_.
        io_bind (statOrAbsent (the (j_source e))) (\<lambda>source.
        io_bind (statOrAbsent (j_destination e)) (\<lambda>destination.
        case destination of None \<Rightarrow> io_return None
        | Some d \<Rightarrow>
            io_bind (identityIfFile (j_destination e) d) (\<lambda>destinationIdentity.
            if case destinationIdentity of None \<Rightarrow> False | Some i \<Rightarrow> matches i (the (j_identity e))
            then recoverOwnedMove e finishOwnedLink source
            else if source \<noteq> None then io_return None
            else io_throw PhysicalRecoveryRequired))))))"

definition new_move :: "string \<Rightarrow> string \<Rightarrow> string \<Rightarrow> file_identity \<Rightarrow> journal" where
  "new_move owner source destination identity =
     \<lparr>j_version = 1, j_owner = owner, j_kind = MOVE, j_source = Some source, j_destination = destination,
      j_state = INTENT, j_identity = Some identity, j_created = False, j_originalOwner = None,
      j_modifiedAt = None, j_sizeBytes = None, j_sourceCapture = None, j_directoryCapture = None\<rparr>"

text \<open>The callbacks the journal gives to the move; the last two are the callers' own.\<close>

definition journal_hooks ::
  "string \<Rightarrow> string \<Rightarrow> string \<Rightarrow> ('w jworld_scheme, unit) io \<Rightarrow> ('w jworld_scheme, unit) io
    \<Rightarrow> ('w jworld_scheme) move_hooks" where
  "journal_hooks owner source destination afterLinked afterCaptured =
     \<lparr>hook_intent = (\<lambda>identity. io_bind (set_live (Some (new_move owner source destination identity))) (\<lambda>_.
        writeJournal (new_move owner source destination identity))),
      hook_linked = (\<lambda>_. io_bind (update_live (\<lambda>e. e\<lparr>j_state := LINKED\<rparr>)) (\<lambda>_. afterLinked)),
      hook_captureIntent = capture_hook,
      hook_beforeCapture = io_return (),
      hook_captured = afterCaptured\<rparr>"

definition truthy :: "string option \<Rightarrow> bool" where
  "truthy s \<longleftrightarrow> s \<noteq> None \<and> s \<noteq> Some []"

text \<open>Does an existing entry have the authority of this move?\<close>

definition move_authority :: "string \<Rightarrow> string \<Rightarrow> string option \<Rightarrow> journal \<Rightarrow> bool" where
  "move_authority source destination checksum e \<longleftrightarrow>
     j_kind e = MOVE \<and> j_source e = Some source \<and> j_destination e = destination \<and>
     (truthy checksum \<longrightarrow> map_option id_checksum (j_identity e) = checksum)"

definition needs_recovery :: "journal option \<Rightarrow> bool" where
  "needs_recovery l \<longleftrightarrow> (case l of None \<Rightarrow> False | Some e \<Rightarrow> j_sourceCapture e \<noteq> None \<or> j_state e \<noteq> INTENT)"

definition journaledMove ::
  "string \<Rightarrow> string \<Rightarrow> string \<Rightarrow> string option \<Rightarrow> ('w jworld_scheme, unit) io \<Rightarrow> ('w jworld_scheme, unit) io
    \<Rightarrow> ('w jworld_scheme, journal) io" where
  "journaledMove owner source destination checksum afterLinked afterCaptured =
     io_bind (load owner) (\<lambda>existing.
     io_bind (io_guard (case existing of None \<Rightarrow> True | Some e \<Rightarrow> move_authority source destination checksum e)
       PhysicalRecoveryRequired) (\<lambda>_.
     io_bind (case existing of None \<Rightarrow> io_return None | Some e \<Rightarrow> recoverMove e True) (\<lambda>recovered.
     case recovered of
       Some e \<Rightarrow> io_return e
     | None \<Rightarrow>
         io_bind (set_live None) (\<lambda>_.
         io_catch
           (io_bind (moveWithoutReplacement source destination checksum
               (journal_hooks owner source destination afterLinked afterCaptured)) (\<lambda>_.
            io_bind (io_get live) (\<lambda>l. completeMove (the l))))
           (\<lambda>err. io_bind (io_get live) (\<lambda>l.
              io_throw (if needs_recovery l then PhysicalRecoveryRequired else err)))))))"

section \<open>Created folders\<close>

definition device_of :: "stats \<Rightarrow> device_identity" where
  "device_of st = \<lparr>id_dev = dec (st_dev st), id_ino = dec (st_ino st), id_encoding = Some bigint_v1\<rparr>"

definition folder_identity :: "stats \<Rightarrow> file_identity" where
  "folder_identity st =
     \<lparr>id_dev = dec (st_dev st), id_ino = dec (st_ino st), id_encoding = Some bigint_v1, id_checksum = []\<rparr>"

definition new_folder :: "string \<Rightarrow> string \<Rightarrow> journal" where
  "new_folder owner destination =
     \<lparr>j_version = 1, j_owner = owner, j_kind = CREATE_FOLDER_J, j_source = None, j_destination = destination,
      j_state = INTENT, j_identity = None, j_created = False, j_originalOwner = None,
      j_modifiedAt = None, j_sizeBytes = None, j_sourceCapture = None, j_directoryCapture = None\<rparr>"

text \<open>\<open>mkdir\<close> with \<open>EEXIST\<close> as "was there already".\<close>

definition mkdir_if_absent :: "string \<Rightarrow> ('w world_scheme, bool) io" where
  "mkdir_if_absent p =
     io_catch (io_bind (sys_write (fs_mkdir p)) (\<lambda>_. io_return True))
       (\<lambda>e. if e = SysError EEXIST then io_return False else io_throw e)"

definition recordCreatedFolder :: "string \<Rightarrow> string \<Rightarrow> bool \<Rightarrow> ('w jworld_scheme, journal) io" where
  "recordCreatedFolder owner destination created =
     io_bind (lstat destination) (\<lambda>st.
     io_bind (io_guard (is_directory st \<and> \<not> is_symlink st) PhysicalRecoveryRequired) (\<lambda>_.
     let e = (new_folder owner destination)\<lparr>j_created := created, j_identity := Some (folder_identity st),
                j_state := COMPLETED\<rparr> in
     io_bind (syncDirectory (posix_dirname destination)) (\<lambda>_.
     io_bind (writeJournal e) (\<lambda>_. io_return e))))"

definition createFolderFresh :: "string \<Rightarrow> string \<Rightarrow> ('w jworld_scheme, journal) io" where
  "createFolderFresh owner destination =
     io_bind (writeJournal (new_folder owner destination)) (\<lambda>_.
     io_bind (mkdir_if_absent destination) (recordCreatedFolder owner destination))"

definition journaledCreateFolder :: "string \<Rightarrow> string \<Rightarrow> ('w jworld_scheme, journal) io" where
  "journaledCreateFolder owner destination =
     io_bind (load owner) (\<lambda>existing.
     case existing of
       None \<Rightarrow> createFolderFresh owner destination
     | Some e \<Rightarrow>
         io_bind (io_guard (j_kind e = CREATE_FOLDER_J \<and> j_destination e = destination) PhysicalRecoveryRequired) (\<lambda>_.
         if j_state e = COMPLETED then io_return e
         else
           io_bind (statOrAbsent destination) (\<lambda>st.
           io_bind (io_guard (st = None) PhysicalRecoveryRequired) (\<lambda>_.
           createFolderFresh owner destination))))"

section \<open>Removed folders\<close>

definition sys_readdir :: "string \<Rightarrow> ('w world_scheme, string list) io" where
  "sys_readdir p = sys_read (fs_readdir p)"

definition owned_directory :: "stats option \<Rightarrow> 'a device_identity_scheme option \<Rightarrow> bool" where
  "owned_directory st i \<longleftrightarrow>
     (case st of None \<Rightarrow> False | Some s \<Rightarrow> is_directory s \<and> \<not> is_symlink s \<and> samePhysicalIdentity s i)"

definition cleanupCompletedDirectoryRemoval :: "journal \<Rightarrow> ('w jworld_scheme, journal) io" where
  "cleanupCompletedDirectoryRemoval e =
     io_bind (io_guard (j_directoryCapture e \<noteq> None \<and> usable_opt (j_identity e)) PhysicalRecoveryRequired) (\<lambda>_.
     let directory = cap_directory (the (j_directoryCapture e)) in
     io_bind (statOrAbsent directory) (\<lambda>remaining.
     io_bind (case remaining of None \<Rightarrow> io_return ()
       | Some s \<Rightarrow>
           io_bind (io_guard (owned_directory remaining (j_directoryCapture e)) PhysicalRecoveryRequired) (\<lambda>_.
           io_bind (sys_readdir directory) (\<lambda>names.
           io_bind (io_guard (is_nil names) PhysicalRecoveryRequired) (\<lambda>_.
           sys_write (fs_rmdir directory))))) (\<lambda>_.
     io_bind (syncDirectory (posix_dirname (j_destination e))) (\<lambda>_.
     io_return e))))"

text \<open>
  \<open>cp(from, to, {recursive, force: false, errorOnExist})\<close>: the entry and everything below
  it, parents first, one entry per step. A directory that is there already is descended
  into, a file that is there already is an error, and nothing is replaced.
\<close>

definition fs_copy :: "string \<Rightarrow> string \<Rightarrow> fs \<Rightarrow> (errno, fs) result" where
  "fs_copy from to f =
     (case lookup f from of
        None \<Rightarrow> Inl ENOENT
      | Some i \<Rightarrow>
          if lookup f to \<noteq> None then
            (if node_kind (fs_node f i) = Directory \<and> kind_at f to = Some Directory then Inr f else Inl EEXIST)
          else if kind_at f (posix_dirname to) \<noteq> Some Directory then Inl ENOENT
          else Inr ((add_name to (fs_next f) f)\<lparr>fs_node := (fs_node f)(fs_next f := fs_node f i),
                     fs_next := Suc (fs_next f)\<rparr>))"

definition below :: "string \<Rightarrow> fs \<Rightarrow> string list" where
  "below p f = sort_key length (filter (\<lambda>q. q = p \<or> starts_with q (p @ [slash])) (map fst (fs_entries f)))"

fun copy_entries :: "string \<Rightarrow> string \<Rightarrow> string list \<Rightarrow> ('w world_scheme, unit) io" where
  "copy_entries from to [] = io_return ()"
| "copy_entries from to (q # qs) =
     io_bind (sys_write (fs_copy q (move_prefix from to q))) (\<lambda>_. copy_entries from to qs)"

definition cp :: "string \<Rightarrow> string \<Rightarrow> ('w world_scheme, unit) io" where
  "cp from to = io_bind (sys_read (\<lambda>f. Inr (below from f))) (copy_entries from to)"

fun copyBack :: "string \<Rightarrow> string \<Rightarrow> stats \<Rightarrow> string list \<Rightarrow> ('w world_scheme, unit) io" where
  "copyBack captured destination reservation [] = io_return ()"
| "copyBack captured destination reservation (item # items) =
     io_bind (statOrAbsent destination) (\<lambda>current.
     io_bind (io_guard (case current of None \<Rightarrow> False | Some s \<Rightarrow>
         is_directory s \<and> samePhysicalIdentity s (Some (device_of reservation))) PlainError) (\<lambda>_.
     io_bind (cp (posix_join [captured, item]) (posix_join [destination, item])) (\<lambda>_.
     copyBack captured destination reservation items)))"

text \<open>\<open>exposeForeignCapturedDirectory\<close>; only its \<open>destination\<close> is read from the entry.\<close>

definition restoreForeign :: "string \<Rightarrow> string \<Rightarrow> ('w world_scheme, unit) io" where
  "restoreForeign destination captured =
     io_bind (statOrAbsent destination) (\<lambda>reservation.
     io_bind (io_guard (case reservation of None \<Rightarrow> False | Some s \<Rightarrow> is_directory s \<and> \<not> is_symlink s)
       PhysicalRecoveryRequired) (\<lambda>_.
     io_catch
       (io_bind (sys_readdir captured) (\<lambda>items.
        io_bind (copyBack captured destination (the reservation) items) (\<lambda>_.
        io_bind (statOrAbsent destination) (\<lambda>after.
        io_bind (io_guard (case after of None \<Rightarrow> False | Some s \<Rightarrow>
          is_directory s \<and> samePhysicalIdentity s (Some (device_of (the reservation)))) PlainError) (\<lambda>_.
        io_bind (syncDirectory destination) (\<lambda>_.
        syncDirectory (posix_dirname destination)))))))
       (\<lambda>_. io_throw PhysicalRecoveryRequired)))"

definition exposeForeignCapturedDirectory :: "journal \<Rightarrow> string \<Rightarrow> ('w world_scheme, unit) io" where
  "exposeForeignCapturedDirectory e captured =
     (let destination = j_destination e in
      io_bind (statOrAbsent destination) (\<lambda>occupant.
      if occupant \<noteq> None then io_return ()
      else
        io_bind (io_catch (mkdir_if_absent destination) (\<lambda>_. io_throw PhysicalRecoveryRequired)) (\<lambda>made.
        if \<not> made then io_return () else restoreForeign destination captured)))"

definition captured_directory :: "source_capture \<Rightarrow> string" where
  "captured_directory c = posix_join [cap_directory c, ''directory'']"

text \<open>What to do with what the private container holds.\<close>

definition discardCapturedDirectory :: "journal \<Rightarrow> stats \<Rightarrow> ('w jworld_scheme, journal) io" where
  "discardCapturedDirectory e st =
     (let c = the (j_directoryCapture e); captured = captured_directory c in
      if \<not> owned_directory (Some st) (j_identity e) then
        io_bind (io_when (is_directory st \<and> \<not> is_symlink st) (exposeForeignCapturedDirectory e captured)) (\<lambda>_.
        io_throw PhysicalRecoveryRequired)
      else
        io_bind (sys_readdir captured) (\<lambda>names.
        io_bind (io_guard (is_nil names) PhysicalRecoveryRequired) (\<lambda>_.
        io_bind (writeJournal (e\<lparr>j_state := LINKED\<rparr>)) (\<lambda>_.
        io_bind (sys_write (fs_rmdir captured)) (\<lambda>_.
        io_bind (syncDirectory (cap_directory c)) (\<lambda>_.
        io_return (e\<lparr>j_state := LINKED\<rparr>)))))))"

definition finishDirectoryRemoval :: "journal \<Rightarrow> ('w jworld_scheme, journal) io" where
  "finishDirectoryRemoval e =
     io_bind (case j_directoryCapture e of None \<Rightarrow> io_return None
       | Some c \<Rightarrow> statOrAbsent (cap_directory c)) (\<lambda>container.
     io_bind (io_guard (j_directoryCapture e \<noteq> None \<and> owned_directory container (j_directoryCapture e) \<and>
         usable_opt (j_identity e)) PhysicalRecoveryRequired) (\<lambda>_.
     io_bind (statOrAbsent (captured_directory (the (j_directoryCapture e)))) (\<lambda>st.
     io_bind (case st of Some s \<Rightarrow> discardCapturedDirectory e s
       | None \<Rightarrow> io_bind (io_guard (j_state e = LINKED) PhysicalRecoveryRequired) (\<lambda>_. io_return e)) (\<lambda>e'.
     io_bind (writeJournal (e'\<lparr>j_state := COMPLETED\<rparr>)) (\<lambda>_.
     cleanupCompletedDirectoryRemoval (e'\<lparr>j_state := COMPLETED\<rparr>))))))"

definition remove_authority :: "string \<Rightarrow> string \<Rightarrow> journal \<Rightarrow> bool" where
  "remove_authority originalOwner target e \<longleftrightarrow>
     j_kind e = REMOVE_FOLDER_J \<and> j_source e = Some target \<and> j_destination e = target \<and>
     j_originalOwner e = Some originalOwner"

text \<open>The original entry proves that this execution created the directory that is there.\<close>

definition created_here :: "journal option \<Rightarrow> string \<Rightarrow> stats option \<Rightarrow> bool" where
  "created_here original target st \<longleftrightarrow>
     (case original of None \<Rightarrow> False
      | Some o' \<Rightarrow> j_created o' \<and> j_state o' = COMPLETED \<and> j_kind o' = CREATE_FOLDER_J \<and>
          j_destination o' = target \<and> owned_directory st (j_identity o'))"

definition new_removal :: "string \<Rightarrow> string \<Rightarrow> string \<Rightarrow> file_identity option \<Rightarrow> source_capture \<Rightarrow> journal" where
  "new_removal owner originalOwner target identity c =
     \<lparr>j_version = 1, j_owner = owner, j_kind = REMOVE_FOLDER_J, j_source = Some target, j_destination = target,
      j_state = INTENT, j_identity = identity, j_created = False, j_originalOwner = Some originalOwner,
      j_modifiedAt = None, j_sizeBytes = None, j_sourceCapture = None, j_directoryCapture = Some c\<rparr>"

text \<open>
  The public name is never removed after a check: the folder is captured in the new
  container, then what was captured is verified.
\<close>

definition captureFolder ::
  "string \<Rightarrow> string \<Rightarrow> string \<Rightarrow> ('w jworld_scheme, unit) io \<Rightarrow> ('w jworld_scheme, unit) io
    \<Rightarrow> file_identity option \<Rightarrow> string \<Rightarrow> ('w jworld_scheme, journal) io" where
  "captureFolder owner originalOwner target afterCaptureIntent afterCaptured identity directory =
     io_bind (lstat directory) (\<lambda>container.
     let c = capture_of directory container; e = new_removal owner originalOwner target identity c in
     io_bind (syncDirectory (posix_dirname target)) (\<lambda>_.
     io_bind (writeJournal e) (\<lambda>_.
     io_bind afterCaptureIntent (\<lambda>_.
     io_bind (sys_write (fs_rename target (captured_directory c))) (\<lambda>_.
     io_bind (syncDirectory (posix_dirname target)) (\<lambda>_.
     io_bind (syncDirectory directory) (\<lambda>_.
     io_bind afterCaptured (\<lambda>_.
     finishDirectoryRemoval e))))))))"

definition removeFolderFresh ::
  "string \<Rightarrow> string \<Rightarrow> string \<Rightarrow> ('w jworld_scheme, unit) io \<Rightarrow> ('w jworld_scheme, unit) io
    \<Rightarrow> ('w jworld_scheme, journal) io" where
  "removeFolderFresh owner originalOwner target afterCaptureIntent afterCaptured =
     io_bind (load originalOwner) (\<lambda>original.
     io_bind (statOrAbsent target) (\<lambda>st.
     io_bind (io_guard (created_here original target st) PhysicalRecoveryRequired) (\<lambda>_.
     io_bind (sys_readdir target) (\<lambda>names.
     io_bind (io_guard (is_nil names) PhysicalRecoveryRequired) (\<lambda>_.
     io_bind (mkdtemp (posix_join [posix_dirname target, remove_prefix_name])) (\<lambda>directory.
     captureFolder owner originalOwner target afterCaptureIntent afterCaptured
       (j_identity (the original)) directory))))))"

definition journaledRemoveFolder ::
  "string \<Rightarrow> string \<Rightarrow> string \<Rightarrow> ('w jworld_scheme, unit) io \<Rightarrow> ('w jworld_scheme, unit) io
    \<Rightarrow> ('w jworld_scheme, journal) io" where
  "journaledRemoveFolder owner originalOwner target afterCaptureIntent afterCaptured =
     io_bind (load owner) (\<lambda>existing.
     case existing of
       None \<Rightarrow> removeFolderFresh owner originalOwner target afterCaptureIntent afterCaptured
     | Some e \<Rightarrow>
         io_bind (io_guard (remove_authority originalOwner target e) PhysicalRecoveryRequired) (\<lambda>_.
         if j_state e = COMPLETED then
           (if j_directoryCapture e \<noteq> None then cleanupCompletedDirectoryRemoval e else io_return e)
         else if j_directoryCapture e \<noteq> None then finishDirectoryRemoval e
         else removeFolderFresh owner originalOwner target afterCaptureIntent afterCaptured))"

section \<open>Recovery\<close>

record action_binding =
  b_kind :: journal_kind
  b_source :: "string option"
  b_destination :: string
  b_checksum :: "string option"
  b_originalOwner :: "string option"

definition recovery_authority :: "action_binding \<Rightarrow> journal \<Rightarrow> bool" where
  "recovery_authority b e \<longleftrightarrow>
     j_kind e = b_kind b \<and> j_source e = b_source b \<and> j_destination e = b_destination b \<and>
     (b_kind b = MOVE \<longrightarrow> truthy (b_checksum b) \<and> map_option id_checksum (j_identity e) = b_checksum b) \<and>
     (b_kind b = REMOVE_FOLDER_J \<longrightarrow> j_originalOwner e = b_originalOwner b)"

text \<open>Only outcomes that are already owned are completed or cleaned up.\<close>

definition resumePhysicalAction :: "journal \<Rightarrow> ('w jworld_scheme, journal option) io" where
  "resumePhysicalAction e =
     (if j_state e = COMPLETED then
        (if j_kind e = REMOVE_FOLDER_J \<and> j_directoryCapture e \<noteq> None
         then io_bind (cleanupCompletedDirectoryRemoval e) (\<lambda>e'. io_return (Some e'))
         else io_return (Some e))
      else if j_kind e = MOVE then recoverMove e False
      else if j_kind e = REMOVE_FOLDER_J \<and> j_directoryCapture e \<noteq> None then
        io_bind (finishDirectoryRemoval e) (\<lambda>e'. io_return (Some e'))
      else io_throw PhysicalRecoveryRequired)"

definition recoverPhysicalAction ::
  "string \<Rightarrow> action_binding option \<Rightarrow> ('w jworld_scheme, journal option) io" where
  "recoverPhysicalAction owner expected =
     io_bind (load owner) (\<lambda>entry.
     case entry of
       None \<Rightarrow> io_return None
     | Some e \<Rightarrow>
         io_bind (io_guard (case expected of None \<Rightarrow> True | Some b \<Rightarrow> recovery_authority b e)
           PhysicalRecoveryRequired) (\<lambda>_. resumePhysicalAction e))"

end
