(* ===== verification/MoveSafety.thy ===== *)
theory MoveSafety
  imports SafeMove
begin

text \<open>
  What \<open>moveWithoutReplacement\<close> and \<open>removeOwnedSource\<close> guarantee when other processes
  change the disk between any two system calls, any call fails, and the process may be
  killed anywhere: no file loses its last name. And what an undisturbed move does to the
  names of the disk.
\<close>

section \<open>The conditions on the surroundings\<close>

text \<open>
  A private name lies in a capture directory. Nobody else touches those; nobody else
  removes the destination once it is there, or puts a directory in the source's place; and
  nobody else removes the last name of the file \<open>j\<close> under observation.
\<close>

definition private_name :: "string \<Rightarrow> bool" where
  "private_name p \<longleftrightarrow> (\<exists>segs n x. p = abs_path (segs @ [n, x]) \<and> (\<forall>s \<in> set segs. plain_seg s) \<and>
     plain_seg n \<and> plain_seg x \<and> starts_with n move_prefix_name)"

definition bystander :: "nat \<Rightarrow> string \<Rightarrow> fs \<Rightarrow> bool" where
  "bystander j source f \<longleftrightarrow> alive j f \<and> node_kind (fs_node f j) \<noteq> Directory \<and>
     (\<forall>p i. lookup f p = Some i \<longrightarrow> i < fs_next f) \<and> kind_at f source \<noteq> Some Directory"

definition well_behaved :: "nat \<Rightarrow> string \<Rightarrow> string \<Rightarrow> (fs \<Rightarrow> fs) \<Rightarrow> bool" where
  "well_behaved j source dest g \<longleftrightarrow> (\<forall>f. bystander j source f \<longrightarrow> bystander j source (g f) \<and>
     (\<forall>p. private_name p \<longrightarrow> lookup (g f) p = lookup f p) \<and>
     (\<forall>i. lookup f dest = Some i \<longrightarrow> lookup (g f) dest = Some i))"

definition calm :: "nat \<Rightarrow> string \<Rightarrow> string \<Rightarrow> perturb list \<Rightarrow> bool" where
  "calm j source dest ps \<longleftrightarrow>
     (\<forall>g. Interfere g \<in> set ps \<longrightarrow> well_behaved j source dest g) \<and> Fail ENOENT \<notin> set ps"

definition move_world :: "nat \<Rightarrow> string \<Rightarrow> string \<Rightarrow> 'w world_scheme \<Rightarrow> bool" where
  "move_world j source dest w \<longleftrightarrow> bystander j source (disk w) \<and> calm j source dest (sched w) \<and>
     (\<forall>s \<in> set (suffixes w). slash \<notin> set s)"

text \<open>Together with what is known of some names.\<close>

definition knows :: "nat \<Rightarrow> string \<Rightarrow> string \<Rightarrow> (string \<times> nat option) set \<Rightarrow> 'w world_scheme \<Rightarrow> bool" where
  "knows j source dest K w \<longleftrightarrow> move_world j source dest w \<and> (\<forall>(p, v) \<in> K. lookup (disk w) p = v)"

definition settled :: "string \<Rightarrow> (string \<times> nat option) set \<Rightarrow> bool" where
  "settled dest K \<longleftrightarrow> (\<forall>(p, v) \<in> K. private_name p \<or> (p = dest \<and> v \<noteq> None))"

lemma settled_simps [simp]:
  "settled dest {}"
  "settled dest (insert (p, v) K) \<longleftrightarrow> (private_name p \<or> (p = dest \<and> v \<noteq> None)) \<and> settled dest K"
  by (auto simp: settled_def)

lemma knows_simps:
  "knows j source dest {} w \<longleftrightarrow> move_world j source dest w"
  "knows j source dest (insert (p, v) K) w \<longleftrightarrow> lookup (disk w) p = v \<and> knows j source dest K w"
  by (auto simp: knows_def)

lemma knows_world: "knows j source dest K w \<Longrightarrow> move_world j source dest w"
  by (simp add: knows_def)

lemma knows_alive: "knows j source dest K w \<Longrightarrow> alive j (disk w)"
  by (simp add: knows_def move_world_def bystander_def)

lemma stable_knows:
  assumes "settled dest K"
  shows "stable (knows j source dest K)"
  unfolding stable_def
proof (intro allI impI)
  fix w w' :: "'a world_scheme"
  assume step: "env_step w w'" and w: "knows j source dest K w"
  from step have suf: "suffixes w' = suffixes w" by (simp add: env_step_def)
  from w have b: "bystander j source (disk w)" and c: "calm j source dest (sched w)"
    by (simp_all add: knows_def move_world_def)
  have c': "calm j source dest (sched w')"
    using step c by (auto simp: env_step_def calm_def)
  consider "disk w' = disk w" | g where "Interfere g \<in> set (sched w)" "disk w' = g (disk w)"
    using step unfolding env_step_def by (metis list.set_intros(1))
  then show "knows j source dest K w'"
  proof cases
    case 1
    with w c' suf show ?thesis by (simp add: knows_def move_world_def)
  next
    case 2
    then have "well_behaved j source dest g" using c by (simp add: calm_def)
    with b have "bystander j source (g (disk w))"
      "\<And>p. private_name p \<Longrightarrow> lookup (g (disk w)) p = lookup (disk w) p"
      "\<And>i. lookup (disk w) dest = Some i \<Longrightarrow> lookup (g (disk w)) dest = Some i"
      by (simp_all add: well_behaved_def)
    with w c' suf assms 2(2) show ?thesis
      by (fastforce simp: knows_def move_world_def settled_def)
  qed
qed

section \<open>Reading\<close>

text \<open>The identity of a name whose inode is known carries that inode.\<close>

lemma triple_open:
  assumes "settled dest K" "(p, v) \<in> K"
  shows "triple (knows j source dest K) (open_nofollow p)
    (\<lambda>h w. knows j source dest K w \<and> v = Some h) (knows j source dest K)"
  unfolding open_nofollow_def using assms
  by (intro triple_sys_read stable_knows)
    (auto simp: knows_def split: option.splits if_splits)

lemma triple_physical:
  assumes "settled dest K" "(p, v) \<in> K"
  shows "triple (knows j source dest K) (physicalFileIdentity p)
    (\<lambda>i w. knows j source dest K w \<and> (\<exists>k. v = Some k \<and> id_ino i = dec k)) (knows j source dest K)"
proof -
  let ?P = "knows j source dest K"
  have st: "stable ?P" by (rule stable_knows[OF assms(1)])
  have stat: "triple ?P (stat_handle h) (\<lambda>st w. ?P w \<and> st_ino st = h) ?P" for h
    unfolding stat_handle_def by (intro triple_sys_read st) (auto simp: stats_of_def)
  have ro: "triple ?P m (\<lambda>_. ?P) ?P" if "readonly m" for m :: "('a world_scheme, 'c) io"
    using that st by (rule readonlyD)
  show ?thesis
    unfolding physicalFileIdentity_def
    apply (rule triple_bind[OF triple_open[OF assms]])
    apply (rule triple_pre[of "\<lambda>w. v = Some h \<and> ?P w" for h], rule triple_assume)
     apply (rule triple_bind[OF stat])
     apply (rule triple_pre[of "\<lambda>w. st_ino st = h \<and> ?P w" for st h], rule triple_assume)
      apply (rule triple_bind[OF triple_guard[of ?P _ "\<lambda>_. ?P"]]; simp?)
      apply (rule triple_bind[OF ro[of "read_handle h" for h]], simp add: read_handle_def readonly_sys_read)
      apply (rule triple_bind[OF stat])
      apply (rule triple_bind[OF triple_guard[of _ _ "\<lambda>_. ?P"]]; simp?)
      apply (rule triple_bind[OF ro], rule readonly_get)
      apply (rule triple_return)
      apply auto
    done
qed

text \<open>Absence as \<open>lstat\<close> reports it is absence: no other call failure is \<open>ENOENT\<close>.\<close>

lemma triple_statOrAbsent:
  assumes "settled dest K"
  shows "triple (knows j source dest K) (statOrAbsent p)
    (\<lambda>r w. knows j source dest K w \<and> (r = None \<longrightarrow> lookup (disk w) p = None)) (knows j source dest K)"
proof (rule tripleI)
  let ?P = "knows j source dest K"
  fix w :: "'a world_scheme"
  assume w: "?P w"
  have ro: "triple ?P (lstat p) (\<lambda>_. ?P) ?P"
    unfolding lstat_def by (intro readonlyD readonly_sys_read stable_knows assms)
  have absent: "lookup (disk w') p = None" if "lstat p w = (Throw (SysError ENOENT), w')" for w'
    using that w
    by (auto simp: lstat_def sys_read_def scheduled_def fs_lstat_def Let_def knows_def move_world_def calm_def
        split: list.splits perturb.splits option.splits sum.splits)
  obtain r w' where r: "lstat p w = (r, w')" by fastforce
  with triple_use[OF ro w] absent
  show "post (\<lambda>r w. ?P w \<and> (r = None \<longrightarrow> lookup (disk w) p = None)) ?P (statOrAbsent p w)"
    by (cases r) (auto simp: statOrAbsent_def io_bind_def io_catch_def io_return_def io_throw_def)
qed

lemma readonly_calls [keeps]:
  "readonly (lstat p)" "readonly (syncDirectory p)" "readonly (open_nofollow p)"
  "readonly (stat_handle h)" "readonly (read_handle h)"
  by (auto simp: lstat_def syncDirectory_def open_nofollow_def stat_handle_def read_handle_def intro!: keeps)

lemma readonly_physical [keeps]: "readonly (physicalFileIdentity p)"
  unfolding physicalFileIdentity_def by (intro keeps)

text \<open>Callbacks that change no name and no file, such as those that write the journal.\<close>

definition quiet_hooks :: "('w world_scheme) move_hooks \<Rightarrow> bool" where
  "quiet_hooks h \<longleftrightarrow> (\<forall>i. readonly (hook_intent h i)) \<and> (\<forall>i. readonly (hook_linked h i)) \<and>
     (\<forall>c. readonly (hook_captureIntent h c)) \<and> readonly (hook_beforeCapture h) \<and> readonly (hook_captured h)"

lemma quiet_no_hooks [simp]: "quiet_hooks no_hooks"
  by (simp add: quiet_hooks_def no_hooks_def keeps)

section \<open>Writing\<close>

lemma bystander_mkdir:
  assumes "fs_mkdir p f = Inr d" "bystander j source f" "p \<noteq> source"
  shows "bystander j source d" "lookup f q = Some i \<Longrightarrow> lookup d q = Some i"
proof -
  have free: "lookup f p = None"
    and d: "d = (add_name p (fs_next f) f)\<lparr>fs_node := (fs_node f)(fs_next f := empty_dir), fs_next := Suc (fs_next f)\<rparr>"
    using assms(1) by (auto simp: fs_mkdir_def split: if_splits)
  have al: "alive j f" using assms(2) by (simp add: bystander_def)
  then have j: "j < fs_next f" using assms(2) by (auto simp: bystander_def alive_def)
  have bound: "\<And>p i. lookup f p = Some i \<Longrightarrow> i < fs_next f" using assms(2) by (auto simp: bystander_def)
  have "kind_at d source \<noteq> Some Directory"
    using assms(2,3) bound by (auto simp: d kind_at_def bystander_def)
  moreover have "\<And>p i. lookup d p = Some i \<Longrightarrow> i < fs_next d"
    using bound by (auto simp: d less_Suc_eq split: if_splits)
  ultimately show "bystander j source d"
    using alive_mkdir[OF assms(1) al] assms(2) j by (simp add: bystander_def d)
  show "lookup d q = Some i" if "lookup f q = Some i" using that free by (auto simp: d)
qed

lemma bystander_link:
  assumes "fs_link a b f = Inr d" "bystander j source f"
  shows "bystander j source d" "lookup f q = Some i \<Longrightarrow> lookup d q = Some i"
    "\<exists>i. lookup f a = Some i \<and> lookup d b = Some i" "a \<noteq> b" "\<exists>k. lookup d = (lookup f)(b := Some k)"
proof -
  obtain i where i: "lookup f a = Some i" "node_kind (fs_node f i) \<noteq> Directory" "lookup f b = None"
    and d: "d = add_name b i f"
    using assms(1) by (auto simp: fs_link_def split: option.splits if_splits)
  show "bystander j source d"
    using alive_link[OF assms(1)] assms(2) i by (auto simp: bystander_def d kind_at_def split: if_splits)
  show "lookup f q = Some i \<Longrightarrow> lookup d q = Some i" for i using i by (auto simp: d)
  show "\<exists>i. lookup f a = Some i \<and> lookup d b = Some i" "a \<noteq> b" "\<exists>k. lookup d = (lookup f)(b := Some k)"
    using i by (auto simp: d)
qed

lemma bystander_capture:
  assumes "fs_rename source b f = Inr d" "bystander j source f" "lookup f b = None" "b \<noteq> source"
  shows "bystander j source d" "q \<noteq> source \<Longrightarrow> lookup f q = Some i \<Longrightarrow> lookup d q = Some i"
proof -
  have k: "kind_at f source \<noteq> Some Directory" using assms(2) by (simp add: bystander_def)
  obtain i where i: "lookup f source = Some i" using assms(1) by (auto simp: fs_rename_def split: option.splits)
  have d: "d = add_name b i (del_name source f)"
    using assms(1,3) i k by (auto simp: fs_rename_def kind_at_def split: if_splits)
  have "alive j d" using alive_rename_free[OF assms(1,3) k] assms(2) by (simp add: bystander_def)
  then show "bystander j source d"
    using assms(2,4) i by (auto simp: bystander_def d kind_at_def split: if_splits)
  show "q \<noteq> source \<Longrightarrow> lookup f q = Some i \<Longrightarrow> lookup d q = Some i" for i using assms(3) by (auto simp: d)
qed

lemma bystander_unlink:
  assumes "fs_unlink p f = Inr d" "bystander j source f" "lookup f p = Some i" "lookup f q = Some i" "q \<noteq> p"
  shows "bystander j source d" "lookup d q = Some i"
proof -
  have d: "d = del_name p f" using assms(1) by (auto simp: fs_unlink_def split: option.splits if_splits)
  have "alive j d"
  proof (cases "j = i")
    case True
    with assms(4,5) show ?thesis by (auto simp: d intro: aliveI[of _ q])
  next
    case False
    with assms(2,3) show ?thesis by (simp add: d alive_del_other bystander_def)
  qed
  then show "bystander j source d" using assms(2) by (auto simp: bystander_def d kind_at_def split: if_splits)
  show "lookup d q = Some i" using assms(4,5) by (simp add: d)
qed

lemma bystander_rmdir:
  assumes "fs_rmdir p f = Inr d" "bystander j source f"
  shows "bystander j source d"
proof -
  have d: "d = del_name p f" and k: "kind_at f p = Some Directory"
    using assms(1) by (auto simp: fs_rmdir_def split: option.splits if_splits)
  have "lookup f p \<noteq> Some j" using assms(2) k by (auto simp: bystander_def kind_at_def)
  with assms(2) show ?thesis by (auto simp: bystander_def d alive_del_other kind_at_def split: if_splits)
qed

section \<open>The steps of a removal\<close>

definition capture_beside :: "string list \<Rightarrow> source_capture \<Rightarrow> bool" where
  "capture_beside segs c \<longleftrightarrow>
     (\<exists>n. cap_directory c = abs_path (segs @ [n]) \<and> plain_seg n \<and> starts_with n move_prefix_name)"

lemma plain_capture_name: "slash \<notin> set s \<Longrightarrow> plain_seg (move_prefix_name @ s)"
  by (auto simp: plain_seg_def move_prefix_name_def dot_def dotdot_def slash_def)

lemma plain_source: "plain_seg ''source''"
  by (simp add: plain_seg_def dot_def dotdot_def slash_def)

lemma captured_name_abs:
  assumes "\<forall>s \<in> set segs. plain_seg s" "cap_directory c = abs_path (segs @ [n])" "plain_seg n"
  shows "captured_name c = abs_path (segs @ [n, ''source''])"
proof -
  have "\<forall>s \<in> set (segs @ [n]). plain_seg s" using assms by auto
  from join_abs_path[OF this plain_source] show ?thesis by (simp add: captured_name_def assms(2))
qed

lemma captured_private:
  assumes "\<forall>s \<in> set segs. plain_seg s" "capture_beside segs c"
  shows "private_name (captured_name c)"
  using assms plain_source unfolding capture_beside_def private_name_def
  by (metis captured_name_abs)

lemma captured_not_source:
  assumes "\<forall>s \<in> set segs. plain_seg s" "capture_beside segs c" "plain_seg x"
  shows "captured_name c \<noteq> abs_path (segs @ [x])"
proof -
  obtain n where n: "cap_directory c = abs_path (segs @ [n])" "plain_seg n"
    using assms(2) by (auto simp: capture_beside_def)
  have "\<forall>s \<in> set (segs @ [n, ''source'']). plain_seg s" "\<forall>s \<in> set (segs @ [x]). plain_seg s"
    using assms(1,3) n(2) plain_source by auto
  from abs_path_inject[OF this] show ?thesis by (simp add: captured_name_abs[OF assms(1) n])
qed

lemma triple_newCapture:
  assumes segs: "\<forall>s \<in> set segs. plain_seg s" "plain_seg x" "\<not> starts_with x move_prefix_name"
    and src: "source = abs_path (segs @ [x])" and hooks: "quiet_hooks hooks"
  shows "triple (knows j source dest {(dest, Some i)}) (newCapture source hooks)
    (\<lambda>c w. knows j source dest {(dest, Some i)} w \<and> capture_beside segs c) (move_world j source dest)"
proof -
  let ?P = "knows j source dest {(dest, Some i)}"
  have st: "stable ?P" by (rule stable_knows) simp
  have "\<forall>s \<in> set segs. plain_seg s" "plain_seg move_prefix_name"
    using segs plain_capture_name[of "[]"] by auto
  then have pre: "posix_join [posix_dirname source, move_prefix_name] @ s = abs_path (segs @ [move_prefix_name @ s])" for s
    using segs by (simp add: src abs_path_extend)
  have mk: "triple ?P (sys_write (fs_mkdir (abs_path (segs @ [move_prefix_name @ s])))) (\<lambda>_. ?P) (move_world j source dest)"
    if "slash \<notin> set s" for s
  proof (rule triple_sys_write[OF st _ knows_world])
    fix w d assume w: "?P w" and d: "fs_mkdir (abs_path (segs @ [move_prefix_name @ s])) (disk w) = Inr d"
    have "move_prefix_name @ s \<noteq> x" using segs(3) by auto
    moreover have "\<forall>t \<in> set (segs @ [move_prefix_name @ s]). plain_seg t" "\<forall>t \<in> set (segs @ [x]). plain_seg t"
      using segs plain_capture_name[OF that] by auto
    ultimately have "abs_path (segs @ [move_prefix_name @ s]) \<noteq> source"
      using abs_path_inject by (simp add: src)
    from bystander_mkdir[OF d _ this] w show "?P (w\<lparr>disk := d\<rparr>)"
      by (auto simp: knows_def move_world_def)
  qed
  have take: "triple ?P next_suffix (\<lambda>s w. slash \<notin> set s \<and> ?P w) (move_world j source dest)"
    by (rule tripleI) (auto simp: next_suffix_def knows_def move_world_def split: list.splits)
  have dir: "triple ?P (mkdtemp (posix_join [posix_dirname source, move_prefix_name]))
      (\<lambda>d w. (\<exists>n. d = abs_path (segs @ [n]) \<and> plain_seg n \<and> starts_with n move_prefix_name) \<and> ?P w)
      (move_world j source dest)"
    unfolding mkdtemp_def pre
    apply (rule triple_bind[OF take], rule triple_assume, rule triple_bind[OF mk], assumption)
    apply (rule triple_return)
    using plain_capture_name starts_with_append by blast
  show ?thesis
    unfolding newCapture_def
    apply (rule triple_bind[OF dir], rule triple_assume)
    apply (rule triple_ro[OF _ st _ knows_world], simp add: keeps)
     apply (rule triple_ro[OF _ st _ knows_world], simp add: keeps)
      apply (rule triple_ro[OF _ st _ knows_world])
    using hooks apply (simp add: quiet_hooks_def)
       apply (rule triple_return)
       apply (auto simp: capture_beside_def capture_of_def)
    done
qed

lemma triple_captureSource:
  assumes segs: "\<forall>s \<in> set segs. plain_seg s" "plain_seg x"
    and src: "source = abs_path (segs @ [x])" and hooks: "quiet_hooks hooks"
    and c: "capture_beside segs c" and dest: "dest \<noteq> source"
  shows "triple (knows j source dest {(captured_name c, None), (dest, Some i)})
    (captureSource source identity hooks c allow)
    (\<lambda>_. knows j source dest {(dest, Some i)}) (move_world j source dest)"
proof -
  let ?P = "knows j source dest {(captured_name c, None), (dest, Some i)}"
  let ?Q = "knows j source dest {(dest, Some i)}"
  have p: "private_name (captured_name c)" by (rule captured_private[OF segs(1) c])
  have st: "stable ?P" "stable ?Q" using p by (simp_all add: stable_knows)
  have ns: "captured_name c \<noteq> source" using captured_not_source[OF segs(1) c segs(2)] src by simp
  have rn: "triple ?P (sys_write (fs_rename source (captured_name c))) (\<lambda>_. ?Q) (move_world j source dest)"
  proof (rule triple_sys_write[OF st(1) _ knows_world])
    fix w d assume w: "?P w" and d: "fs_rename source (captured_name c) (disk w) = Inr d"
    from w have "lookup (disk w) (captured_name c) = None" "bystander j source (disk w)"
      by (simp_all add: knows_def move_world_def)
    from bystander_capture[OF d this(2,1) ns] dest w show "?Q (w\<lparr>disk := d\<rparr>)"
      by (auto simp: knows_def move_world_def)
  qed
  show ?thesis
    unfolding captureSource_def
    apply (rule triple_ro[OF _ st(1) _ knows_world], simp add: keeps)
     apply (rule triple_ro[OF _ st(1) _ knows_world], simp add: keeps)
      apply (rule triple_ro[OF _ st(1) _ knows_world], simp add: keeps)
       apply (rule triple_ro[OF _ st(1) _ knows_world])
    using hooks apply (simp add: quiet_hooks_def)
        apply (rule triple_bind[OF rn])
        apply (rule triple_ro[OF _ st(2) _ knows_world], simp add: keeps)
         apply (rule triple_ro[OF _ st(2) _ knows_world], simp add: keeps)
          apply (rule triple_weaken[OF readonlyD[OF _ st(2)]])
    using hooks apply (simp_all add: quiet_hooks_def knows_world)
    done
qed

lemma triple_restore:
  "triple (knows j source dest {(dest, Some i)}) (restorePublicName source c)
    (\<lambda>_. knows j source dest {(dest, Some i)}) (knows j source dest {(dest, Some i)})"
proof -
  let ?P = "knows j source dest {(dest, Some i)}"
  have st: "stable ?P" by (rule stable_knows) simp
  have ln: "triple ?P (sys_write (fs_link (captured_name c) source)) (\<lambda>_. ?P) ?P"
  proof (rule triple_sys_write[OF st])
    fix w d assume w: "?P w" and d: "fs_link (captured_name c) source (disk w) = Inr d"
    then have "bystander j source (disk w)" by (simp add: knows_def move_world_def)
    from bystander_link[OF d this] w show "?P (w\<lparr>disk := d\<rparr>)" by (auto simp: knows_def move_world_def)
  qed
  show ?thesis
    unfolding restorePublicName_def
    by (intro triple_catch triple_bind[OF ln] readonlyD keeps st)
qed

lemma triple_discard:
  assumes segs: "\<forall>s \<in> set segs. plain_seg s" and c: "capture_beside segs c"
    and dest: "\<not> private_name dest" and idn: "id_ino identity = dec i"
  shows "triple (knows j source dest {(dest, Some i)}) (verifyAndDiscard source identity c allow)
    (\<lambda>_. move_world j source dest) (move_world j source dest)"
proof -
  let ?N = "captured_name c"
  let ?P = "knows j source dest {(dest, Some i)}"
  let ?K = "\<lambda>v. knows j source dest {(?N, v), (dest, Some i)}"
  let ?I = "move_world j source dest"
  have p: "private_name ?N" by (rule captured_private[OF segs c])
  then have ne: "dest \<noteq> ?N" using dest by auto
  have st: "stable ?P" and stI: "stable (knows j source dest {})" and stK: "\<And>v. stable (?K v)"
    using p by (simp_all add: stable_knows)
  have st0: "stable ?I" using stI by (simp add: knows_simps(1)[abs_def])
  have ul: "triple (?K (Some i)) (sys_write (fs_unlink ?N)) (\<lambda>_. ?P) ?I"
  proof (rule triple_sys_write[OF stK _ knows_world])
    fix w d assume w: "?K (Some i) w" and d: "fs_unlink ?N (disk w) = Inr d"
    from w have "bystander j source (disk w)" "lookup (disk w) ?N = Some i" "lookup (disk w) dest = Some i"
      by (simp_all add: knows_def move_world_def)
    from bystander_unlink[OF d this ne] w show "?P (w\<lparr>disk := d\<rparr>)" by (auto simp: knows_def move_world_def)
  qed
  have rd: "triple ?P (sys_write (fs_rmdir (cap_directory c))) (\<lambda>_. ?I) ?I"
  proof (rule triple_sys_write[OF st _ knows_world])
    fix w d assume w: "?P w" and d: "fs_rmdir (cap_directory c) (disk w) = Inr d"
    then have "bystander j source (disk w)" by (simp add: knows_def move_world_def)
    from bystander_rmdir[OF d this] w show "?I (w\<lparr>disk := d\<rparr>)" by (auto simp: knows_def move_world_def)
  qed
  have split: "?P w \<Longrightarrow> \<exists>v. ?K v w" for w by (auto simp: knows_def)
  have "triple (?K v) (verifyAndDiscard source identity c allow) (\<lambda>_. ?I) ?I" for v
    unfolding verifyAndDiscard_def
  proof (rule triple_bind)
    show "triple (?K v) (physicalFileIdentity ?N)
        (\<lambda>current w. (\<exists>k. v = Some k \<and> id_ino current = dec k) \<and> ?K v w) ?I"
    proof (rule triple_weaken[OF triple_physical[of dest "{(?N, v), (dest, Some i)}" ?N v]])
      show "settled dest {(?N, v), (dest, Some i)}" "(?N, v) \<in> {(?N, v), (dest, Some i)}" using p by simp_all
      show "?K v w \<Longrightarrow> ?I w" for w by (rule knows_world)
    qed blast+
  next
    fix current :: file_identity
    have strange: "triple (?K v) (rejectCaptured source c allow) (\<lambda>_. ?I) ?I"
    proof (rule triple_pre[of ?P])
      show "triple ?P (rejectCaptured source c allow) (\<lambda>_. ?I) ?I"
        unfolding rejectCaptured_def io_when_def
        by (intro triple_bind[of _ _ "\<lambda>_. ?P"] triple_if triple_weaken[OF triple_restore] triple_return triple_throw)
          (auto dest: knows_world)
    qed (auto simp: knows_def)
    have own: "triple (?K (Some i)) (discardCaptured source c) (\<lambda>_. ?I) ?I"
      unfolding discardCaptured_def
      by (rule triple_bind[OF ul], rule triple_ro[OF _ st _ knows_world], simp add: keeps,
        rule triple_bind[OF rd], rule triple_ro[OF _ st0], simp add: keeps) (auto intro: triple_return)
    show "triple (\<lambda>w. (\<exists>k. v = Some k \<and> id_ino current = dec k) \<and> ?K v w)
      (if \<not> same_file current identity then rejectCaptured source c allow else discardCaptured source c) (\<lambda>_. ?I) ?I"
    proof (intro triple_assume triple_if strange)
      assume "\<exists>k. v = Some k \<and> id_ino current = dec k" "\<not> \<not> same_file current identity"
      with idn have "v = Some i" by (auto simp: same_file_def)
      with own show "triple (?K v) (discardCaptured source c) (\<lambda>_. ?I) ?I" by simp
    qed
  qed
  from triple_pre[OF triple_exists[of ?K, OF this] split] show ?thesis by blast
qed

lemma triple_removeOwnedSource:
  assumes segs: "\<forall>s \<in> set segs. plain_seg s" "plain_seg x" "\<not> starts_with x move_prefix_name"
    and src: "source = abs_path (segs @ [x])" and hooks: "quiet_hooks hooks"
    and dest: "\<not> private_name dest" "dest \<noteq> source" and idn: "id_ino identity = dec i"
    and adm: "\<And>c. admitted = Some c \<Longrightarrow> capture_beside segs c"
  shows "triple (knows j source dest {(dest, Some i)})
    (removeOwnedSource source identity hooks admitted allow)
    (\<lambda>_. move_world j source dest) (move_world j source dest)"
proof -
  let ?P = "knows j source dest {(dest, Some i)}"
  let ?I = "move_world j source dest"
  have st: "stable ?P" by (rule stable_knows) simp
  have get: "triple ?P (case admitted of Some c \<Rightarrow> io_return c | None \<Rightarrow> newCapture source hooks)
    (\<lambda>c w. capture_beside segs c \<and> ?P w) ?I"
  proof (cases admitted)
    case None
    then show ?thesis
      by (simp, intro triple_weaken[OF triple_newCapture[OF segs src hooks]]) auto
  next
    case (Some c)
    then show ?thesis using adm by (auto intro: triple_return)
  qed
  have step: "triple (\<lambda>w. ?P w \<and> (r = None \<longrightarrow> lookup (disk w) (captured_name c) = None))
      (if r = None then captureSource source identity hooks c allow else io_return ()) (\<lambda>_. ?P) ?I"
    if "capture_beside segs c" for c r
  proof (cases r)
    case None
    have "triple (\<lambda>w. ?P w \<and> lookup (disk w) (captured_name c) = None)
        (captureSource source identity hooks c allow) (\<lambda>_. ?P) ?I"
      by (rule triple_pre[OF triple_captureSource[OF segs(1,2) src hooks that dest(2)]]) (simp add: knows_simps)
    with None show ?thesis by simp
  next
    case (Some s)
    then show ?thesis by (auto intro: triple_return)
  qed
  have stat: "triple ?P (statOrAbsent p) (\<lambda>r w. ?P w \<and> (r = None \<longrightarrow> lookup (disk w) p = None)) ?I" for p
    by (rule triple_weaken[OF triple_statOrAbsent]) (auto dest: knows_world)
  show ?thesis
    unfolding removeOwnedSource_def
    apply (rule triple_ro[OF _ st _ knows_world], simp add: keeps)
     apply (rule triple_bind[OF get], rule triple_assume)
     apply (rule triple_ro[OF _ st _ knows_world], simp add: keeps)
      apply (rule triple_ro[OF _ st _ knows_world], simp add: keeps)
       apply (rule triple_bind[OF stat])
       apply (rule triple_bind[OF step], assumption)
       apply (rule triple_discard[OF segs(1) _ dest(1) idn], assumption)
      apply assumption+
    done
qed

section \<open>The move\<close>

lemma triple_link:
  "triple (knows j source dest {}) (sys_write (fs_link source dest))
    (\<lambda>_ w. \<exists>i. source \<noteq> dest \<and> knows j source dest {(dest, Some i)} w) (move_world j source dest)"
proof (rule triple_sys_write[OF stable_knows _ knows_world])
  fix w d assume w: "knows j source dest {} w" and d: "fs_link source dest (disk w) = Inr d"
  then have b: "bystander j source (disk w)" by (simp add: knows_def move_world_def)
  obtain i where "lookup d dest = Some i" using bystander_link(3)[OF d b] by blast
  with bystander_link(1,4)[OF d b] w
  have "source \<noteq> dest \<and> knows j source dest {(dest, Some i)} (w\<lparr>disk := d\<rparr>)"
    by (simp add: knows_def move_world_def)
  then show "\<exists>i. source \<noteq> dest \<and> knows j source dest {(dest, Some i)} (w\<lparr>disk := d\<rparr>)" ..
qed simp

lemma triple_move:
  assumes segs: "\<forall>s \<in> set segs. plain_seg s" "plain_seg x" "\<not> starts_with x move_prefix_name"
    and src: "source = abs_path (segs @ [x])" and hooks: "quiet_hooks hooks"
    and dest: "\<not> private_name dest"
  shows "triple (move_world j source dest) (moveWithoutReplacement source dest checksum hooks)
    (\<lambda>_. move_world j source dest) (move_world j source dest)"
proof -
  let ?I = "move_world j source dest"
  let ?P = "\<lambda>i. knows j source dest {(dest, Some i)}"
  have I: "?I = knows j source dest {}" by (rule ext) (simp add: knows_simps)
  have st: "stable ?I" "\<And>i. stable (?P i)" unfolding I by (simp_all add: stable_knows)
  have link: "triple ?I (sys_write (fs_link source dest)) (\<lambda>_ w. \<exists>i. source \<noteq> dest \<and> ?P i w) ?I"
    using triple_link[of j source dest] by (simp add: I)
  have phys: "triple (?P i) (physicalFileIdentity dest) (\<lambda>a w. id_ino a = dec i \<and> ?P i w) ?I" for i
    by (rule triple_weaken[OF triple_physical[of dest _ dest "Some i"]]) (auto dest: knows_world)
  have drop: "triple (?P i) (io_bind (removeOwnedSource source identity hooks None True) (\<lambda>_. io_return identity))
      (\<lambda>_. ?I) ?I" if "id_ino identity = dec i" "source \<noteq> dest" for i identity
    using triple_removeOwnedSource[OF segs src hooks dest _ that(1)] that(2)
    by (intro triple_bind[of _ _ "\<lambda>_. ?I"] triple_return) auto
  have tail: "triple (?P i)
      (io_bind (syncDirectory (posix_dirname dest)) (\<lambda>_.
       io_bind (physicalFileIdentity dest) (\<lambda>destinationIdentity.
       io_bind (io_guard (same_file destinationIdentity identity) PlainError) (\<lambda>_.
       io_bind (hook_linked hooks identity) (\<lambda>_.
       io_bind (removeOwnedSource source identity hooks None True) (\<lambda>_.
       io_return identity)))))) (\<lambda>_. ?I) ?I" if "source \<noteq> dest" for i identity
    apply (rule triple_ro[OF _ st(2) _ knows_world], simp add: keeps)
     apply (rule triple_bind[OF phys], rule triple_assume)
     apply (rule triple_bind[of _ _ "\<lambda>_ w. id_ino identity = dec i \<and> ?P i w"])
      apply (rule triple_guard, simp add: same_file_def, erule knows_world)
     apply (rule triple_assume)
     apply (rule triple_ro[OF _ st(2) _ knows_world])
    using hooks apply (simp add: quiet_hooks_def)
      apply (rule drop[OF _ that], assumption+)
    done
  show ?thesis
    unfolding moveWithoutReplacement_def
    apply (rule triple_ro[OF _ st(1)], simp add: keeps)
     apply (rule triple_ro[OF _ st(1)], simp add: keeps)
      apply (rule triple_ro[OF _ st(1)])
    using hooks apply (simp add: quiet_hooks_def)
       apply (rule triple_bind[OF link])
       apply (intro triple_exists triple_assume)
       apply (rule tail, assumption+)
    done
qed

text \<open>
  C1. Moving a file loses nothing. Whatever other processes do between any two system
  calls (short of touching the move's private capture directory, removing the destination
  once it exists, or deleting the watched file themselves), whichever calls fail, and
  wherever the process is killed: a file \<open>j\<close> that had a name before the move still has one,
  be it the moved file, an editor's atomic replacement of it, or any other file. The source
  is a normal absolute path whose name is not a capture directory's, and holds no directory;
  the destination is not inside a capture directory; the hooks of the caller change no file
  (\<open>quiet_hooks\<close>); and no system call answers ENOENT for a name that is there.
\<close>

theorem move_loses_nothing:
  assumes "\<forall>s \<in> set segs. plain_seg s" "plain_seg x" "\<not> starts_with x move_prefix_name"
    and "source = abs_path (segs @ [x])" "quiet_hooks hooks" "\<not> private_name dest"
    and "move_world j source dest w"
  shows "alive j (disk (snd (moveWithoutReplacement source dest checksum hooks w)))"
  using tripleD[OF triple_move[OF assms(1-6)] assms(7)] by (simp add: move_world_def bystander_def)

text \<open>The witness: an editor replaces the source while it is being moved.\<close>

lemma abs_path_decode:
  assumes "private_name p" "p = abs_path ss" "\<forall>s \<in> set ss. plain_seg s"
  shows "\<exists>segs n y. ss = segs @ [n, y] \<and> starts_with n move_prefix_name"
proof -
  obtain segs n y where a: "p = abs_path (segs @ [n, y])" "\<forall>s \<in> set segs. plain_seg s"
    "plain_seg n" "plain_seg y" "starts_with n move_prefix_name"
    using assms(1) by (auto simp: private_name_def)
  then have "\<forall>s \<in> set (segs @ [n, y]). plain_seg s" by auto
  from abs_path_inject[OF assms(3) this] a assms(2) show ?thesis by auto
qed

definition small_file :: "string \<Rightarrow> inode" where
  "small_file b = \<lparr>node_kind = RegularFile, node_bytes = b, node_mtime = 1, node_ctime = 1,
     node_birthtime = 1, node_readable = True\<rparr>"

definition desk :: fs where
  "desk = \<lparr>fs_entries = [(''/'', 0), (''/r'', 1), (''/r/a'', 2), (''/r/e'', 5)],
     fs_node = (\<lambda>i. if i < 2 then empty_dir else small_file [CHR ''x'']), fs_next = 6, fs_dev = 3, fs_links = []\<rparr>"

definition editor :: "fs \<Rightarrow> fs" where
  "editor f = (if lookup f ''/r/e'' = Some 5 then add_name ''/r/a'' 5 (del_name ''/r/e'' f) else f)"

definition desk_world :: "perturb list \<Rightarrow> world" where
  "desk_world ps = \<lparr>disk = desk, sched = ps, suffixes = [''x1''], sha256hex = (\<lambda>b. b)\<rparr>"

lemma desk_names:
  "''/r/a'' = abs_path [''r'', ''a'']" "''/r/e'' = abs_path [''r'', ''e'']" "''/r/b'' = abs_path [''r'', ''b'']"
  "''/r'' = abs_path [''r'']" "''/'' = abs_path []"
  by (simp_all add: abs_path_def slash_def)

lemma desk_plain [simp]: "plain_seg ''r''" "plain_seg ''a''" "plain_seg ''b''" "plain_seg ''e''"
  by (simp_all add: plain_seg_def dot_def dotdot_def slash_def)

lemma desk_not_private: "\<not> private_name ''/r/a''" "\<not> private_name ''/r/e''" "\<not> private_name ''/r/b''"
  using abs_path_decode[OF _ desk_names(1)] abs_path_decode[OF _ desk_names(2)] abs_path_decode[OF _ desk_names(3)]
  by (auto simp: starts_with_def move_prefix_name_def)

lemma editor_well_behaved: "well_behaved 5 ''/r/a'' ''/r/b'' editor"
  unfolding well_behaved_def
proof (intro allI impI)
  fix f assume b: "bystander 5 ''/r/a'' f"
  show "bystander 5 ''/r/a'' (editor f) \<and> (\<forall>p. private_name p \<longrightarrow> lookup (editor f) p = lookup f p) \<and>
    (\<forall>i. lookup f ''/r/b'' = Some i \<longrightarrow> lookup (editor f) ''/r/b'' = Some i)"
  proof (cases "lookup f ''/r/e'' = Some 5")
    case True
    then have "5 < fs_next f" using b by (auto simp: bystander_def)
    moreover have "alive 5 (editor f)" using True by (auto simp: editor_def intro: aliveI[of _ "''/r/a''"])
    ultimately show ?thesis
      using b True desk_not_private
      by (auto simp: editor_def bystander_def kind_at_def split: if_splits)
  next
    case False
    with b show ?thesis by (simp add: editor_def)
  qed
qed

lemma desk_move_world:
  assumes "set ps \<subseteq> {Quiet, Interfere editor, Kill}"
  shows "move_world 5 ''/r/a'' ''/r/b'' (desk_world ps)"
proof -
  have "alive 5 desk" by (rule aliveI[of _ "''/r/e''"]) (simp add: desk_def lookup_def)
  moreover have "\<And>p i. lookup desk p = Some i \<Longrightarrow> i < fs_next desk"
    by (auto simp: desk_def lookup_def split: if_splits)
  moreover have "kind_at desk ''/r/a'' \<noteq> Some Directory" by (simp add: desk_def kind_at_def lookup_def small_file_def)
  moreover have "node_kind (fs_node desk 5) \<noteq> Directory" by (simp add: desk_def small_file_def)
  ultimately show ?thesis using assms editor_well_behaved
    by (auto simp: move_world_def desk_world_def bystander_def calm_def slash_def)
qed

theorem move_loses_nothing_witness:
  "alive 5 (disk (snd (moveWithoutReplacement ''/r/a'' ''/r/b'' None no_hooks
     (desk_world (replicate 21 Quiet @ [Interfere editor])))))"
proof (rule move_loses_nothing[of "[''r'']" "''a''"])
  show "''/r/a'' = abs_path ([''r''] @ [''a''])" by (simp add: desk_names)
  show "\<not> starts_with ''a'' move_prefix_name" by (simp add: starts_with_def move_prefix_name_def)
  show "move_world 5 ''/r/a'' ''/r/b'' (desk_world (replicate 21 Quiet @ [Interfere editor]))"
    by (rule desk_move_world) auto
qed (simp_all add: desk_not_private)

section \<open>The undisturbed move\<close>

lemma read_now: "sched w = [] \<Longrightarrow> f (disk w) = Inr x \<Longrightarrow> sys_read f w = (Ok x, w)"
  by (simp add: sys_read_def scheduled_def)

lemma write_now: "sched w = [] \<Longrightarrow> f (disk w) = Inr d \<Longrightarrow> sys_write f w = (Ok (), w\<lparr>disk := d\<rparr>)"
  by (simp add: sys_write_def scheduled_def)

lemma write_to:
  "sched w = [] \<Longrightarrow> f (disk w) = Inr d \<Longrightarrow> w' = w\<lparr>disk := d\<rparr> \<Longrightarrow> sys_write f w = (Ok (), w')"
  by (simp add: write_now)

lemma sync_now: "sched w = [] \<Longrightarrow> lookup (disk w) p \<noteq> None \<Longrightarrow> syncDirectory p w = (Ok (), w)"
  by (simp add: syncDirectory_def io_bind_def read_now)

lemma kind_lookup: "kind_at f p = Some k \<Longrightarrow> \<exists>i. lookup f p = Some i"
  by (auto simp: kind_at_def)

definition identity_at :: "'w world_scheme \<Rightarrow> nat \<Rightarrow> file_identity" where
  "identity_at w i = \<lparr>id_dev = dec (fs_dev (disk w)), id_ino = dec i, id_encoding = Some bigint_v1,
     id_checksum = sha256hex w (node_bytes (fs_node (disk w) i))\<rparr>"

lemma physical_now:
  assumes "sched w = []" "lookup (disk w) p = Some i" "node_kind (fs_node (disk w) i) = RegularFile"
    "node_readable (fs_node (disk w) i)"
  shows "physicalFileIdentity p w = (Ok (identity_at w i), w)"
proof -
  have o: "open_nofollow p w = (Ok i, w)" unfolding open_nofollow_def using assms by (intro read_now) simp_all
  have s: "stat_handle i w = (Ok (stats_of (disk w) i), w)" unfolding stat_handle_def using assms by (intro read_now) simp_all
  have r: "read_handle i w = (Ok (node_bytes (fs_node (disk w) i)), w)" unfolding read_handle_def using assms by (intro read_now) simp_all
  have f: "is_file (stats_of (disk w) i)" using assms by (simp add: is_file_def stats_of_def)
  show ?thesis
    using f by (simp add: physicalFileIdentity_def io_guard_def io_bind_def io_return_def io_get_def o s r)
      (simp add: identity_at_def stats_of_def)
qed

lemma children_Nil:
  "is_nil (children f d) \<longleftrightarrow> (\<forall>p. p \<noteq> d \<longrightarrow> posix_dirname p = d \<longrightarrow> lookup f p = None)"
proof -
  have "lookup f p = None \<longleftrightarrow> p \<notin> fst ` set (fs_entries f)" for p by (simp add: lookup_def map_of_eq_None_iff)
  then show ?thesis by (auto simp: is_nil_def children_def filter_empty_conv)
qed

lemma statOrAbsent_now:
  "sched w = [] \<Longrightarrow> lookup (disk w) p = None \<Longrightarrow> statOrAbsent p w = (Ok None, w)"
  by (simp add: statOrAbsent_def io_catch_def io_bind_def lstat_def sys_read_def scheduled_def fs_lstat_def io_return_def)

lemma rename_free:
  assumes "lookup f a = Some i" "node_kind (fs_node f i) \<noteq> Directory" "lookup f b = None"
    "kind_at f (posix_dirname b) = Some Directory"
  shows "fs_rename a b f = Inr (add_name b i (del_name a f))"
  using assms by (simp add: fs_rename_def kind_at_def)

text \<open>The source is captured and removed when nothing interferes.\<close>

lemma remove_now:
  assumes segs: "\<forall>s \<in> set segs. plain_seg s" "plain_seg x" "\<not> starts_with x move_prefix_name"
    and src: "source = abs_path (segs @ [x])"
    and cap: "suffixes w = s # ss" "slash \<notin> set s" "d = abs_path (segs @ [move_prefix_name @ s])"
    and q: "sched w = []" and i: "lookup (disk w) source = Some i" "i \<noteq> fs_next (disk w)"
    and kind: "node_kind (fs_node (disk w) i) = RegularFile" "node_readable (fs_node (disk w) i)"
    and parent: "lookup (disk w) (abs_path segs) = Some k" "k \<noteq> fs_next (disk w)"
      "node_kind (fs_node (disk w) k) = Directory"
    and free: "lookup (disk w) d = None" "\<And>p. posix_dirname p = d \<Longrightarrow> lookup (disk w) p = None"
    and size: "i \<le> 18446744073709551615" "fs_dev (disk w) \<le> 18446744073709551615"
      "fs_next (disk w) \<le> 18446744073709551615"
  shows "\<exists>c w'. removeOwnedSource source (identity_at w i) no_hooks None True w = (Ok c, w') \<and>
    lookup (disk w') = (lookup (disk w))(source := None) \<and>
    fs_node (disk w') = (fs_node (disk w))(fs_next (disk w) := empty_dir)"
proof -
  let ?f = "disk w"
  let ?n = "fs_next ?f"
  let ?f1 = "(add_name d ?n ?f)\<lparr>fs_node := (fs_node ?f)(?n := empty_dir), fs_next := Suc ?n\<rparr>"
  let ?w1 = "w\<lparr>suffixes := ss, disk := ?f1\<rparr>"
  let ?c = "capture_of d (stats_of ?f1 ?n)"
  let ?N = "captured_name ?c"
  let ?f2 = "add_name ?N i (del_name source ?f1)"
  let ?w2 = "w\<lparr>suffixes := ss, disk := ?f2\<rparr>"
  let ?w3 = "w\<lparr>suffixes := ss, disk := del_name d (del_name ?N ?f2)\<rparr>"
  have pm: "plain_seg (move_prefix_name @ s)" "plain_seg move_prefix_name"
    using cap(2) plain_capture_name[of s] plain_capture_name[of "[]"] by simp_all
  have dn: "posix_dirname d = abs_path segs" "posix_dirname source = abs_path segs"
    "posix_basename d = move_prefix_name @ s"
    using segs pm by (simp_all add: cap(3) src)
  have N: "?N = abs_path (segs @ [move_prefix_name @ s, ''source''])"
    by (rule captured_name_abs[OF segs(1)]) (simp_all add: capture_of_def cap(3) pm)
  have "\<forall>t \<in> set (segs @ [move_prefix_name @ s]). plain_seg t" using segs pm by auto
  from dirname_abs_path[OF this plain_source] have dN: "posix_dirname ?N = d" unfolding N by (simp add: cap(3))
  have bd: "capture_beside segs ?c" using pm by (auto simp: capture_beside_def capture_of_def cap(3))
  have ne: "?N \<noteq> source" "d \<noteq> source" "abs_path segs \<noteq> source"
    using captured_not_source[OF segs(1) bd segs(2)] free i dN parent kind by (auto simp: src)
  have "abs_path segs \<noteq> d" using parent free(1) by auto
  have dN2: "d \<noteq> ?N"
  proof
    assume "d = ?N"
    with dN dn(1) have "abs_path segs = d" by simp
    with \<open>abs_path segs \<noteq> d\<close> show False by simp
  qed
  have absN: "lookup ?f ?N = None" using free(2)[OF dN] .
  have pN: "abs_path segs \<noteq> ?N" using absN parent(1) by auto
  have id1: "usablePhysicalIdentity (identity_at w i)"
    using size by (intro usable_dec[of _ "fs_dev ?f" i]) (simp_all add: identity_at_def)
  have mk: "fs_mkdir d ?f = Inr ?f1" using free(1) dn(1) parent by (simp add: fs_mkdir_def kind_at_def)
  have temp: "mkdtemp (posix_join [posix_dirname source, move_prefix_name]) w = (Ok d, ?w1)"
    using segs pm cap q mk
    by (simp add: mkdtemp_def io_bind_def next_suffix_def write_now[of _ _ ?f1] dn(2) abs_path_extend io_return_def)
  have sync1: "syncDirectory (posix_dirname source) ?w1 = (Ok (), ?w1)"
    using q parent(1) \<open>abs_path segs \<noteq> d\<close> by (intro sync_now) (simp_all add: dn(2))
  have look: "lstat d ?w1 = (Ok (stats_of ?f1 ?n), ?w1)"
    unfolding lstat_def using q by (intro read_now) (simp_all add: fs_lstat_def)
  have new: "newCapture source no_hooks w = (Ok ?c, ?w1)"
    by (simp add: newCapture_def io_bind_def temp sync1 look io_return_def no_hooks_def)
  have "samePhysicalIdentity (stats_of ?f1 ?n) (Some ?c)"
    using size by (subst samePhysicalIdentity_exact) (simp_all add: stats_of_def)
  then have owned: "capture_owned source ?c (stats_of ?f1 ?n)"
    using dn by (simp add: capture_owned_def is_directory_def is_symlink_def stats_of_def empty_dir_def capture_of_def)
  have cd: "cap_directory ?c = d" by (simp add: capture_of_def)
  have ab: "statOrAbsent ?N ?w1 = (Ok None, ?w1)" using q absN dN2 by (intro statOrAbsent_now) simp_all
  have sync2: "syncDirectory (posix_dirname source) ?w2 = (Ok (), ?w2)" "syncDirectory d ?w2 = (Ok (), ?w2)"
    using q parent(1) ne dN2 pN \<open>abs_path segs \<noteq> d\<close> by (auto intro!: sync_now simp: dn(2))
  have cap: "captureSource source (identity_at w i) no_hooks ?c True ?w1 = (Ok (), ?w2)"
  proof -
    have "physicalFileIdentity source ?w1 = (Ok (identity_at ?w1 i), ?w1)"
      using q i kind ne(2) by (intro physical_now) simp_all
    moreover have "identity_at ?w1 i = identity_at w i" using i(2) by (simp add: identity_at_def)
    moreover have "fs_rename source ?N ?f1 = Inr ?f2"
      using i kind absN ne dN dN2 by (intro rename_free) (simp_all add: kind_at_def empty_dir_def)
    ultimately show ?thesis
      using q sync2 by (simp add: captureSource_def io_bind_def io_guard_def io_return_def no_hooks_def
          same_file_def write_now[of _ _ ?f2] cd)
  qed
  have ph: "physicalFileIdentity ?N ?w2 = (Ok (identity_at w i), ?w2)"
  proof -
    have "physicalFileIdentity ?N ?w2 = (Ok (identity_at ?w2 i), ?w2)"
      using q i kind by (intro physical_now) simp_all
    moreover have "identity_at ?w2 i = identity_at w i" using i(2) by (simp add: identity_at_def)
    ultimately show ?thesis by simp
  qed
  have ul: "fs_unlink ?N ?f2 = Inr (del_name ?N ?f2)"
    using i(2) kind by (simp add: fs_unlink_def kind_at_def)
  have rd: "fs_rmdir d (del_name ?N ?f2) = Inr (del_name d (del_name ?N ?f2))"
  proof -
    have "is_nil (children (del_name ?N ?f2) d)" using free(2) by (auto simp: children_Nil)
    moreover have "kind_at (del_name ?N ?f2) d = Some Directory"
      using dN2 ne by (simp add: kind_at_def empty_dir_def)
    ultimately show ?thesis by (simp add: fs_rmdir_def)
  qed
  let ?w4 = "w\<lparr>suffixes := ss, disk := del_name ?N ?f2\<rparr>"
  have ul': "sys_write (fs_unlink ?N) ?w2 = (Ok (), ?w4)" using q ul by (intro write_to) simp_all
  have rd': "sys_write (fs_rmdir d) ?w4 = (Ok (), ?w3)"
    using q rd by (intro write_to) simp_all
  have sync3: "syncDirectory d ?w4 = (Ok (), ?w4)" using q dN2 ne by (intro sync_now) auto
  have sync4: "syncDirectory (posix_dirname source) ?w3 = (Ok (), ?w3)"
    using q ne pN parent(1) \<open>abs_path segs \<noteq> d\<close> by (intro sync_now) (auto simp: dn(2))
  have dis: "discardCaptured source ?c ?w2 = (Ok ?c, ?w3)"
    using ul' rd' sync3 sync4 by (simp add: discardCaptured_def io_bind_def cd io_return_def)
  have "removeOwnedSource source (identity_at w i) no_hooks None True w = (Ok ?c, ?w3)"
    by (simp add: removeOwnedSource_def io_bind_def io_guard_def io_return_def id1 new look owned ab cap cd
        verifyAndDiscard_def ph same_file_def dis)
  moreover have "lookup (disk ?w3) = (lookup ?f)(source := None)"
    using absN free(1) by (auto simp: fun_eq_iff)
  ultimately show ?thesis by auto
qed

lemma no_hooks_simps:
  "hook_intent no_hooks a = io_return ()" "hook_linked no_hooks a = io_return ()"
  "hook_captureIntent no_hooks c = io_return ()" "hook_beforeCapture no_hooks = io_return ()"
  "hook_captured no_hooks = io_return ()"
  by (simp_all add: no_hooks_def)

text \<open>
  C34. An undisturbed move renames exactly one name: it returns the file's identity, the
  destination now names the file's inode, the source name is gone, the private capture
  directory has come and gone, and every other name and every file's bytes are as before.
  Undisturbed means that no call fails and nobody interferes; the source is a readable regular
  file at a normal absolute path, whose name is not a capture directory's and whose checksum,
  when one is asked for, is the given one; the destination is free in an existing folder; the
  name drawn for the capture directory is free, with nothing below it, and is not the
  destination's place; and device and inode numbers fit 64 bits.
\<close>

theorem move_undisturbed:
  assumes segs: "\<forall>s \<in> set segs. plain_seg s" "plain_seg x" "\<not> starts_with x move_prefix_name"
    and src: "source = abs_path (segs @ [x])"
    and cap: "suffixes w = s # ss" "slash \<notin> set s" "d = abs_path (segs @ [move_prefix_name @ s])"
    and q: "sched w = []" and i: "lookup (disk w) source = Some i" "i < fs_next (disk w)"
    and kind: "node_kind (fs_node (disk w) i) = RegularFile" "node_readable (fs_node (disk w) i)"
    and sum: "checksum \<in> {None, Some [], Some (sha256hex w (node_bytes (fs_node (disk w) i)))}"
    and parent: "lookup (disk w) (abs_path segs) = Some k" "k < fs_next (disk w)"
      "node_kind (fs_node (disk w) k) = Directory"
    and to: "lookup (disk w) dest = None" "kind_at (disk w) (posix_dirname dest) = Some Directory"
      "dest \<noteq> d" "posix_dirname dest \<noteq> d"
    and free: "lookup (disk w) d = None" "\<And>p. posix_dirname p = d \<Longrightarrow> lookup (disk w) p = None"
    and size: "fs_dev (disk w) \<le> 18446744073709551615" "fs_next (disk w) \<le> 18446744073709551615"
  shows "\<exists>w'. moveWithoutReplacement source dest checksum no_hooks w = (Ok (identity_at w i), w') \<and>
    lookup (disk w') = (lookup (disk w))(dest \<mapsto> i, source := None) \<and>
    (\<forall>a. a < fs_next (disk w) \<longrightarrow> fs_node (disk w') a = fs_node (disk w) a)"
proof -
  let ?w1 = "w\<lparr>disk := add_name dest i (disk w)\<rparr>"
  have ck: "case checksum of None \<Rightarrow> True | Some c \<Rightarrow> c = [] \<or> id_checksum (identity_at w i) = c"
    using sum by (auto simp: identity_at_def)
  have ne: "dest \<noteq> source" "abs_path segs \<noteq> dest" using i to parent by auto
  have ph: "physicalFileIdentity source w = (Ok (identity_at w i), w)" using q i kind by (intro physical_now) auto
  have "fs_link source dest (disk w) = Inr (add_name dest i (disk w))"
    using i to kind by (simp add: fs_link_def)
  then have ln: "sys_write (fs_link source dest) w = (Ok (), ?w1)" using q by (intro write_now)
  have id1: "identity_at ?w1 i = identity_at w i" by (simp add: identity_at_def)
  then have ph1: "physicalFileIdentity dest ?w1 = (Ok (identity_at w i), ?w1)"
    using physical_now[of ?w1 dest i] q kind by simp
  have "lookup (disk w) (posix_dirname dest) \<noteq> None" using to(2) by (auto simp: kind_at_def)
  then have sy: "syncDirectory (posix_dirname dest) ?w1 = (Ok (), ?w1)"
    using q by (intro sync_now) simp_all
  have free': "posix_dirname p = d \<Longrightarrow> lookup (disk ?w1) p = None" for p using free(2) to(4) by auto
  have "\<exists>c w'. removeOwnedSource source (identity_at ?w1 i) no_hooks None True ?w1 = (Ok c, w') \<and>
    lookup (disk w') = (lookup (disk ?w1))(source := None) \<and>
    fs_node (disk w') = (fs_node (disk ?w1))(fs_next (disk ?w1) := empty_dir)"
    by (rule remove_now[where s = s and ss = ss and k = k and d = d, OF segs src _ cap(2,3)])
      (use q i kind parent ne to free size cap free' in simp_all)
  then obtain c w' where rm: "removeOwnedSource source (identity_at w i) no_hooks None True ?w1 = (Ok c, w')"
    "lookup (disk w') = (lookup (disk ?w1))(source := None)"
    "fs_node (disk w') = (fs_node (disk w))(fs_next (disk w) := empty_dir)"
    by (auto simp: id1)
  have "moveWithoutReplacement source dest checksum no_hooks w = (Ok (identity_at w i), w')"
    by (simp add: moveWithoutReplacement_def io_bind_def io_guard_def io_return_def no_hooks_simps
        ck ph ln sy ph1 same_file_def rm(1))
  with rm(2,3) show ?thesis by auto
qed

theorem move_undisturbed_witness:
  "\<exists>w'. moveWithoutReplacement ''/r/a'' ''/r/b'' None no_hooks (desk_world []) =
      (Ok (identity_at (desk_world []) 2), w') \<and>
    lookup (disk w') = (lookup desk)(''/r/b'' \<mapsto> 2, ''/r/a'' := None) \<and>
    (\<forall>a. a < 6 \<longrightarrow> fs_node (disk w') a = fs_node desk a)"
proof -
  have free: "lookup desk p = None" if "posix_dirname p = ''/r/.nsn-move-x1''" for p
  proof (rule ccontr)
    assume "lookup desk p \<noteq> None"
    then have "p \<in> {''/'', ''/r'', ''/r/a'', ''/r/e''}" by (auto simp: lookup_def desk_def split: if_splits)
    moreover have "list_all (\<lambda>p. posix_dirname p \<noteq> ''/r/.nsn-move-x1'') [''/'', ''/r'', ''/r/a'', ''/r/e'']"
      by code_simp
    ultimately show False using that by auto
  qed
  have look: "lookup desk ''/r/a'' = Some 2" "lookup desk ''/r/b'' = None" "lookup desk ''/r'' = Some 1"
    "lookup desk ''/r/.nsn-move-x1'' = None" by (simp_all add: lookup_def desk_def)
  have dir: "posix_dirname ''/r/b'' = ''/r''" by code_simp
  have "\<exists>w'. moveWithoutReplacement ''/r/a'' ''/r/b'' None no_hooks (desk_world []) =
      (Ok (identity_at (desk_world []) 2), w') \<and>
    lookup (disk w') = (lookup (disk (desk_world [])))(''/r/b'' \<mapsto> 2, ''/r/a'' := None) \<and>
    (\<forall>a. a < fs_next (disk (desk_world [])) \<longrightarrow> fs_node (disk w') a = fs_node (disk (desk_world [])) a)"
    by (rule move_undisturbed[of "[''r'']" "''a''" _ "desk_world []" "''x1''" "[]" "''/r/.nsn-move-x1''" 2 None 1])
      (auto simp: desk_world_def look dir free kind_at_def abs_path_def slash_def move_prefix_name_def starts_with_def,
       simp_all add: desk_def small_file_def empty_dir_def)
  then show ?thesis by (simp add: desk_world_def desk_def)
qed

end
