(* ===== verification/JournalSafety.thy ===== *)
theory JournalSafety
  imports Journal MoveSafety
begin

text \<open>
  What the journaled actions guarantee under interference, failing calls and crashes: no
  file loses its last name in a move, its recovery, or the removal of a folder; and only a
  folder that the same execution created is ever removed.
\<close>

section \<open>Journal steps change no name and no file\<close>

lemma readonly_scheduled [keeps]: "readonly m \<Longrightarrow> readonly (scheduled m)"
  by (simp add: readonly_def triple_scheduled)

lemma readonly_tick [keeps]: "readonly tick"
  unfolding tick_def by (intro keeps)

lemma readonly_put [keeps]: "readonly (put_journal e)" "readonly (set_live l)"
  by (auto simp: readonly_def triple_def put_journal_def set_live_def
      intro: stableD[OF _ env_step_refl])

lemma readonly_writeJournal [keeps]: "readonly (writeJournal e)"
  unfolding writeJournal_def by (intro keeps)

lemma readonly_update_live [keeps]: "readonly (update_live f)"
  unfolding update_live_def by (intro keeps)

lemma readonly_completeMove [keeps]: "readonly (completeMove e)"
  unfolding completeMove_def Let_def by (intro keeps)

lemma readonly_statOrAbsent [keeps]: "readonly (statOrAbsent p)"
  unfolding statOrAbsent_def by (intro keeps)

lemma readonly_load [keeps]: "readonly (load owner)"
proof -
  have "readonly (case content of JAbsent \<Rightarrow> io_return None | JUnparsable \<Rightarrow> io_throw PlainError
     | JIllTyped \<Rightarrow> io_throw PhysicalRecoveryRequired
     | JStored e \<Rightarrow> if journal_ok owner e then io_return (Some e) else io_throw PhysicalRecoveryRequired)" for content
    by (cases content) (auto intro: keeps)
  then show ?thesis unfolding load_def by (intro keeps)
qed

lemma readonly_readdir [keeps]: "readonly (sys_readdir p)"
  unfolding sys_readdir_def by (intro keeps)

lemma quiet_journal_hooks:
  "readonly afterLinked \<Longrightarrow> readonly afterCaptured \<Longrightarrow>
    quiet_hooks (journal_hooks owner source destination afterLinked afterCaptured)"
  by (auto simp: quiet_hooks_def journal_hooks_def capture_hook_def intro!: keeps)

lemma quiet_capture_hook: "quiet_hooks (no_hooks\<lparr>hook_captureIntent := capture_hook\<rparr>)"
  by (auto simp: quiet_hooks_def no_hooks_def capture_hook_def intro!: keeps)

section \<open>Captures recorded in normal form\<close>

text \<open>
  Every capture in a journal names its directory in normal form; the Bridge writes no
  other kind, since \<open>path.join\<close> and \<open>mkdtemp\<close> produce none.
\<close>

definition normal_capture :: "source_capture \<Rightarrow> bool" where
  "normal_capture c \<longleftrightarrow> (\<exists>segs n. cap_directory c = abs_path (segs @ [n]) \<and>
     (\<forall>s \<in> set segs. plain_seg s) \<and> plain_seg n)"

definition normal_entry :: "journal \<Rightarrow> bool" where
  "normal_entry e \<longleftrightarrow> (\<forall>c. j_sourceCapture e = Some c \<or> j_directoryCapture e = Some c \<longrightarrow> normal_capture c)"

definition normal_file :: "journal_file \<Rightarrow> bool" where
  "normal_file x \<longleftrightarrow> (\<forall>e. x = JStored e \<longrightarrow> normal_entry e)"

lemma normal_beside:
  assumes "journal_ok owner e" "normal_entry e" "j_sourceCapture e = Some c"
    and "the (j_source e) = abs_path (segs @ [x])" "\<forall>s \<in> set segs. plain_seg s" "plain_seg x"
  shows "capture_beside segs c"
proof -
  obtain ss n where n: "cap_directory c = abs_path (ss @ [n])" "\<forall>s \<in> set ss. plain_seg s" "plain_seg n"
    using assms(2,3) by (auto simp: normal_entry_def normal_capture_def)
  have "posix_dirname (cap_directory c) = posix_dirname (the (j_source e))"
    "starts_with (posix_basename (cap_directory c)) move_prefix_name"
    using assms(1,3) by (simp_all add: journal_ok_def)
  with n assms(4-6) have "abs_path ss = abs_path segs" "starts_with n move_prefix_name" by simp_all
  with n assms(5) abs_path_inject[of ss segs] show ?thesis by (auto simp: capture_beside_def)
qed

lemma triple_load:
  assumes "stable P"
  shows "triple (\<lambda>w. normal_file (journals w (sha256hex w owner)) \<and> P w) (load owner)
    (\<lambda>r w. (\<forall>e. r = Some e \<longrightarrow> journal_ok owner e \<and> normal_entry e) \<and> P w) P"
proof (rule tripleI)
  fix w :: "'a jworld_scheme"
  assume w: "normal_file (journals w (sha256hex w owner)) \<and> P w"
  have P: "post (\<lambda>_. P) P (load owner w)"
    using readonlyD[OF readonly_load assms] w by (blast intro: triple_use)
  have "\<And>e. r = Some e \<Longrightarrow> journal_ok owner e \<and> normal_entry e" if "load owner w = (Ok r, w')" for r w'
    using that w
    by (auto simp: load_def io_bind_def scheduled_def io_get_def io_return_def io_throw_def Let_def normal_file_def
        split: list.splits perturb.splits journal_file.splits if_splits)
  with P show "post (\<lambda>r w. (\<forall>e. r = Some e \<longrightarrow> journal_ok owner e \<and> normal_entry e) \<and> P w) P (load owner w)"
    by (cases "load owner w"; cases "fst (load owner w)") auto
qed

section \<open>Moves and their recovery\<close>

text \<open>The destination's identity pins down the inode that the destination names from then on.\<close>

lemma triple_physical_dest:
  "triple (move_world j source dest) (physicalFileIdentity dest)
    (\<lambda>a w. \<exists>i. id_ino a = dec i \<and> knows j source dest {(dest, Some i)} w) (move_world j source dest)"
proof -
  let ?I = "move_world j source dest"
  let ?P = "\<lambda>i. knows j source dest {(dest, Some i)}"
  have st: "stable (knows j source dest {})" "\<And>i. stable (?P i)" by (simp_all add: stable_knows)
  then have stI: "stable ?I" by (simp add: knows_simps(1)[abs_def])
  have op: "triple ?I (open_nofollow dest) (\<lambda>h. ?P h) ?I"
    unfolding open_nofollow_def
    by (intro triple_sys_read stI) (auto simp: knows_def split: option.splits if_splits)
  have stat: "triple (?P h) (stat_handle h) (\<lambda>s w. st_ino s = h \<and> ?P h w) ?I" for h
    unfolding stat_handle_def by (intro triple_sys_read st) (auto simp: stats_of_def dest: knows_world)
  have ro: "triple (?P h) m (\<lambda>_. ?P h) ?I" if "readonly m" for h and m :: "('a world_scheme, 'c) io"
    by (rule triple_weaken[OF readonlyD[OF that st(2)]]) (auto dest: knows_world)
  show ?thesis
    unfolding physicalFileIdentity_def
    apply (rule triple_bind[OF op])
    apply (rule triple_bind[OF stat], rule triple_assume)
    apply (rule triple_bind[OF ro], rule readonly_guard)
    apply (rule triple_bind[OF ro], rule readonly_calls)
    apply (rule triple_bind[OF ro], rule readonly_calls)
    apply (rule triple_bind[OF ro], rule readonly_guard)
    apply (rule triple_bind[OF ro], rule readonly_get)
    apply (rule triple_return)
    apply auto
    done
qed

lemma triple_or_recovery:
  assumes "triple P m (\<lambda>_. I) I"
  shows "triple P (or_recovery m) (\<lambda>_. I) I"
  unfolding or_recovery_def
  by (intro triple_catch triple_bind[OF assms] triple_return triple_throw) auto

lemma triple_cleanMovedSource:
  assumes segs: "\<forall>s \<in> set segs. plain_seg s" "plain_seg x" "\<not> starts_with x move_prefix_name"
    and src: "source = abs_path (segs @ [x])" "the (j_source e) = source"
    and dest: "\<not> private_name dest" "dest \<noteq> source" and idn: "id_ino (the (j_identity e)) = dec i"
    and cap: "\<And>c. j_sourceCapture e = Some c \<Longrightarrow> capture_beside segs c"
  shows "triple (knows j source dest {(dest, Some i)})
    (cleanMovedSource e finish sourceStats captureStats capturedSource)
    (\<lambda>_. move_world j source dest) (move_world j source dest)"
proof -
  let ?P = "knows j source dest {(dest, Some i)}"
  let ?I = "move_world j source dest"
  have st: "stable ?P" and "stable (knows j source dest {})" by (simp_all add: stable_knows)
  then have stI: "stable ?I" by (simp add: knows_simps(1)[abs_def])
  have rm: "triple ?P (removeOwnedSource source (the (j_identity e)) hooks adm allow) (\<lambda>_. ?I) ?I"
    if "quiet_hooks hooks" "adm = None \<or> adm = j_sourceCapture e" for hooks adm allow
    by (rule triple_removeOwnedSource[OF segs src(1) that(1) dest idn]) (use cap that(2) in auto)
  have rd: "triple ?P (sys_write (fs_rmdir d)) (\<lambda>_. ?I) ?I" for d
  proof (rule triple_sys_write[OF st _ knows_world])
    fix w f assume w: "?P w" and f: "fs_rmdir d (disk w) = Inr f"
    then have "bystander j source (disk w)" by (simp add: knows_def move_world_def)
    from bystander_rmdir[OF f this] w show "?I (w\<lparr>disk := f\<rparr>)" by (auto simp: knows_def move_world_def)
  qed
  have finish: "triple ?P (finishOwnedSource e finish s captureStats) (\<lambda>_. ?I) ?I" for s captureStats
    unfolding finishOwnedSource_def Let_def src(2)
    apply (rule triple_ro[OF readonly_guard st _ knows_world])
     apply (rule triple_ro[OF readonly_physical st _ knows_world])
      apply (rule triple_ro[OF readonly_guard st _ knows_world])
       apply (rule triple_or_recovery[OF rm[OF quiet_capture_hook]])
       apply auto
    done
  have empty: "triple ?P (discardEmptyCapture e s) (\<lambda>_. ?I) ?I" for s
    unfolding discardEmptyCapture_def src(2)
    apply (rule triple_ro[OF readonly_guard st _ knows_world])
     apply (rule triple_or_recovery[OF triple_bind[OF rd]])
     apply (rule readonlyD[OF readonly_calls(2) stI])
    apply assumption
    done
  show ?thesis
    unfolding cleanMovedSource_def src(2)
    by (cases sourceStats; cases captureStats)
      (auto intro!: triple_if triple_or_recovery rm finish empty triple_return dest: knows_world)
qed

lemma triple_recoverOwnedMove:
  assumes segs: "\<forall>s \<in> set segs. plain_seg s" "plain_seg x" "\<not> starts_with x move_prefix_name"
    and src: "source = abs_path (segs @ [x])" "the (j_source e) = source"
    and dest: "\<not> private_name dest" "dest \<noteq> source" and idn: "id_ino (the (j_identity e)) = dec i"
    and cap: "\<And>c. j_sourceCapture e = Some c \<Longrightarrow> capture_beside segs c"
  shows "triple (knows j source dest {(dest, Some i)}) (recoverOwnedMove e finish s)
    (\<lambda>_. move_world j source dest) (move_world j source dest)"
proof -
  let ?I = "move_world j source dest"
  have st: "stable (knows j source dest {(dest, Some i)})" and "stable (knows j source dest {})"
    by (simp_all add: stable_knows)
  then have stI: "stable ?I" by (simp add: knows_simps(1)[abs_def])
  have a: "readonly (case j_sourceCapture e of None \<Rightarrow> io_return None | Some c \<Rightarrow> statOrAbsent (cap_directory c))"
    by (cases "j_sourceCapture e") (simp_all add: keeps)
  show ?thesis
    unfolding recoverOwnedMove_def
    apply (rule triple_ro[OF a st _ knows_world])
     apply (rule triple_ro[OF readonly_if st _ knows_world])
        apply (simp add: keeps)
       apply (simp add: keeps)
      apply (rule triple_bind[OF triple_cleanMovedSource[OF assms]], assumption+)
      apply (rule readonlyD[OF _ stI], intro keeps)
     apply assumption+
    done
qed

lemma triple_recoverMove:
  assumes segs: "\<forall>s \<in> set segs. plain_seg s" "plain_seg x" "\<not> starts_with x move_prefix_name"
    and src: "source = abs_path (segs @ [x])" "j_source e = Some source" "j_destination e = dest"
    and dest: "\<not> private_name dest" "dest \<noteq> source"
    and e: "journal_ok owner e" "normal_entry e"
  shows "triple (move_world j source dest) (recoverMove e finish)
    (\<lambda>_. move_world j source dest) (move_world j source dest)"
proof -
  let ?I = "move_world j source dest"
  let ?P = "\<lambda>i. knows j source dest {(dest, Some i)}"
  have "stable (knows j source dest {})" by (simp add: stable_knows)
  then have stI: "stable ?I" by (simp add: knows_simps(1)[abs_def])
  have cap: "\<And>c. j_sourceCapture e = Some c \<Longrightarrow> capture_beside segs c"
    by (rule normal_beside[OF e]) (use src segs in auto)
  have ident: "triple ?I (identityIfFile dest d)
      (\<lambda>r w. (\<exists>a i. r = Some a \<and> id_ino a = dec i \<and> ?P i w) \<or> r = None \<and> ?I w) ?I" for d
    unfolding identityIfFile_def
    by (intro triple_if triple_bind[OF triple_physical_dest] triple_return) auto
  have decide: "triple (\<lambda>w. (\<exists>a i. r = Some a \<and> id_ino a = dec i \<and> ?P i w) \<or> r = None \<and> ?I w)
      (if case r of None \<Rightarrow> False | Some i \<Rightarrow> matches i (the (j_identity e))
       then recoverOwnedMove e finish s
       else if s \<noteq> None then io_return None else io_throw PhysicalRecoveryRequired) (\<lambda>_. ?I) ?I" for r s
  proof (rule triple_if)
    assume m: "case r of None \<Rightarrow> False | Some i \<Rightarrow> matches i (the (j_identity e))"
    have "triple (\<lambda>w. \<exists>i. id_ino (the (j_identity e)) = dec i \<and> ?P i w) (recoverOwnedMove e finish s) (\<lambda>_. ?I) ?I"
      by (intro triple_exists triple_assume triple_recoverOwnedMove[OF segs src(1) _ dest _ cap])
        (simp_all add: src)
    then show "triple (\<lambda>w. (\<exists>a i. r = Some a \<and> id_ino a = dec i \<and> ?P i w) \<or> r = None \<and> ?I w)
        (recoverOwnedMove e finish s) (\<lambda>_. ?I) ?I"
      by (rule triple_pre) (use m in \<open>auto simp: matches_def same_file_def split: option.splits\<close>)
  qed (auto intro!: triple_if triple_return triple_throw dest: knows_world)
  have whole: "triple ?I (case d of None \<Rightarrow> io_return None
        | Some d \<Rightarrow> io_bind (identityIfFile dest d) (\<lambda>r.
            if case r of None \<Rightarrow> False | Some i \<Rightarrow> matches i (the (j_identity e))
            then recoverOwnedMove e finish s
            else if s \<noteq> None then io_return None else io_throw PhysicalRecoveryRequired)) (\<lambda>_. ?I) ?I" for d s
  proof (cases d)
    case None
    then show ?thesis by (simp add: triple_return)
  next
    case (Some a)
    show ?thesis unfolding Some option.case by (rule triple_bind[OF ident decide])
  qed
  show ?thesis
    unfolding recoverMove_def src(3)
    by (intro triple_if triple_return triple_ro[OF readonly_guard stI] triple_ro[OF readonly_put(2) stI]
        triple_ro[OF readonly_statOrAbsent stI] whole)
qed

lemma triple_journaledMove:
  assumes segs: "\<forall>s \<in> set segs. plain_seg s" "plain_seg x" "\<not> starts_with x move_prefix_name"
    and src: "source = abs_path (segs @ [x])" and dest: "\<not> private_name dest" "dest \<noteq> source"
    and hooks: "readonly afterLinked" "readonly afterCaptured"
  shows "triple (\<lambda>w. normal_file (journals w (sha256hex w owner)) \<and> move_world j source dest w)
    (journaledMove owner source dest checksum afterLinked afterCaptured)
    (\<lambda>_. move_world j source dest) (move_world j source dest)"
proof -
  let ?I = "move_world j source dest"
  have "stable (knows j source dest {})" by (simp add: stable_knows)
  then have stI: "stable ?I" by (simp add: knows_simps(1)[abs_def])
  have mv: "triple ?I (moveWithoutReplacement source dest checksum (journal_hooks owner source dest afterLinked afterCaptured))
      (\<lambda>_. ?I) ?I"
    by (rule triple_move[OF segs src quiet_journal_hooks[OF hooks] dest(1)])
  have rec: "triple ?I (case ex of None \<Rightarrow> io_return None | Some e \<Rightarrow> recoverMove e True) (\<lambda>_. ?I) ?I"
    if "\<forall>e. ex = Some e \<longrightarrow> journal_ok owner e \<and> normal_entry e"
      "case ex of None \<Rightarrow> True | Some e \<Rightarrow> move_authority source dest checksum e" for ex
    using that triple_recoverMove[OF segs src _ _ dest]
    by (cases ex) (auto simp: move_authority_def intro: triple_return)
  have fresh: "triple ?I (io_bind (set_live None) (\<lambda>_. io_catch
         (io_bind (moveWithoutReplacement source dest checksum
             (journal_hooks owner source dest afterLinked afterCaptured)) (\<lambda>_.
          io_bind (io_get live) (\<lambda>l. completeMove (the l))))
         (\<lambda>err. io_bind (io_get live) (\<lambda>l.
            io_throw (if needs_recovery l then PhysicalRecoveryRequired else err))))) (\<lambda>_. ?I) ?I"
    by (intro triple_ro[OF readonly_put(2) stI] triple_catch triple_bind[OF mv] readonlyD[OF _ stI] keeps)
  show ?thesis
    unfolding journaledMove_def
    apply (rule triple_bind[OF triple_load[OF stI]], rule triple_assume)
    apply (rule triple_bind[of _ _ "\<lambda>_ w. (case ex of None \<Rightarrow> True | Some e \<Rightarrow> move_authority source dest checksum e) \<and> ?I w" for ex])
     apply (rule triple_guard, erule conjI[rotated], assumption, assumption)
    apply (rule triple_assume)
    apply (rule triple_bind[OF rec], assumption+)
    subgoal for ex u recovered using fresh by (cases recovered) (auto intro: triple_return)
    done
qed

text \<open>
  C2. The journaled move loses nothing either, first attempt or resumed: with the journal's
  own writes interleaved, and through every path of the recovery of an earlier attempt, a
  file that had a name keeps one, under the same interference, failures and crashes and the
  same conditions on the source as for the bare move. The destination is another path than the
  source and not inside a capture directory, the hooks change nothing, and a journal that is
  already there records its capture directory by a normal path.
\<close>

theorem journaledMove_loses_nothing:
  assumes "\<forall>s \<in> set segs. plain_seg s" "plain_seg x" "\<not> starts_with x move_prefix_name"
    and "source = abs_path (segs @ [x])" "\<not> private_name dest" "dest \<noteq> source"
    and "readonly afterLinked" "readonly afterCaptured"
    and "normal_file (journals w (sha256hex w owner))" "move_world j source dest w"
  shows "alive j (disk (snd (journaledMove owner source dest checksum afterLinked afterCaptured w)))"
proof -
  have "post (\<lambda>_. move_world j source dest) (move_world j source dest)
      (journaledMove owner source dest checksum afterLinked afterCaptured w)"
    by (rule triple_use[OF triple_journaledMove[OF assms(1-8)]]) (use assms(9,10) in blast)
  then show ?thesis
    by (cases "journaledMove owner source dest checksum afterLinked afterCaptured w";
        cases "fst (journaledMove owner source dest checksum afterLinked afterCaptured w)")
      (auto simp: move_world_def bystander_def)
qed

definition desk_jworld :: "perturb list \<Rightarrow> journal_file \<Rightarrow> jworld" where
  "desk_jworld ps x = \<lparr>disk = desk, sched = ps, suffixes = [''x1''], sha256hex = (\<lambda>b. b),
     journals = (\<lambda>_. x), live = None\<rparr>"

text \<open>The witness: a resumed move, with the editor saving and the process killed later.\<close>

definition resumed :: journal where
  "resumed = (new_move ''o'' ''/r/a'' ''/r/b'' \<lparr>id_dev = ''3'', id_ino = ''2'', id_encoding = Some bigint_v1,
     id_checksum = replicate 64 CHR ''a''\<rparr>)\<lparr>j_state := LINKED,
     j_sourceCapture := Some \<lparr>id_dev = ''3'', id_ino = ''7'', id_encoding = Some bigint_v1,
       cap_directory = ''/r/.nsn-move-x0''\<rparr>\<rparr>"

lemma desk_jmove_world:
  assumes "set ps \<subseteq> {Quiet, Interfere editor, Kill}"
  shows "move_world 5 ''/r/a'' ''/r/b'' (desk_jworld ps x)"
  using desk_move_world[OF assms] by (simp add: move_world_def desk_world_def desk_jworld_def)

theorem journaledMove_loses_nothing_witness:
  "alive 5 (disk (snd (journaledMove ''o'' ''/r/a'' ''/r/b'' None (io_return ()) (io_return ())
     (desk_jworld (replicate 3 Quiet @ [Interfere editor, Quiet, Kill]) (JStored resumed)))))"
proof (rule journaledMove_loses_nothing[of "[''r'']" "''a''"])
  show "''/r/a'' = abs_path ([''r''] @ [''a''])" by (simp add: desk_names)
  show "\<not> starts_with ''a'' move_prefix_name" by (simp add: starts_with_def move_prefix_name_def)
  show "move_world 5 ''/r/a'' ''/r/b'' (desk_jworld (replicate 3 Quiet @ [Interfere editor, Quiet, Kill]) (JStored resumed))"
    by (rule desk_jmove_world) auto
  have "''/r/.nsn-move-x0'' = abs_path ([''r''] @ [''.nsn-move-x0''])" "plain_seg ''.nsn-move-x0''"
    by (simp_all add: abs_path_def slash_def plain_seg_def dot_def dotdot_def)
  then have "normal_capture \<lparr>id_dev = ''3'', id_ino = ''7'', id_encoding = Some bigint_v1,
      cap_directory = ''/r/.nsn-move-x0''\<rparr>"
    unfolding normal_capture_def by (intro exI[of _ "[''r'']"] exI[of _ "''.nsn-move-x0''"]) simp
  then show "normal_file (journals (desk_jworld (replicate 3 Quiet @ [Interfere editor, Quiet, Kill]) (JStored resumed))
      (sha256hex (desk_jworld (replicate 3 Quiet @ [Interfere editor, Quiet, Kill]) (JStored resumed)) ''o''))"
    by (auto simp: desk_jworld_def normal_file_def normal_entry_def resumed_def new_move_def)
qed (simp_all add: desk_not_private keeps)

section \<open>Removing a folder\<close>

text \<open>
  Nobody else touches a removal's private containers or has names below them; and nothing
  lies below a container that is still to be made. An inode stays what it is, a file or a
  directory (\<open>kd\<close>).
\<close>

definition container :: "string list \<Rightarrow> string \<Rightarrow> string" where
  "container segs s = abs_path (segs @ [remove_prefix_name @ s])"

definition under :: "string \<Rightarrow> string \<Rightarrow> bool" where
  "under d p \<longleftrightarrow> starts_with p (d @ [slash])"

definition zone :: "string list \<Rightarrow> string \<Rightarrow> bool" where
  "zone segs p \<longleftrightarrow> (\<exists>s. p = container segs s \<or> under (container segs s) p)"

definition keeper :: "nat \<Rightarrow> node_kind \<Rightarrow> fs \<Rightarrow> bool" where
  "keeper j kd f \<longleftrightarrow> alive j f \<and> node_kind (fs_node f j) = kd \<and> (\<forall>p i. lookup f p = Some i \<longrightarrow> i < fs_next f)"

definition considerate :: "nat \<Rightarrow> node_kind \<Rightarrow> string list \<Rightarrow> (fs \<Rightarrow> fs) \<Rightarrow> bool" where
  "considerate j kd segs g \<longleftrightarrow> (\<forall>f. keeper j kd f \<longrightarrow> keeper j kd (g f) \<and>
     (\<forall>p. zone segs p \<longrightarrow> lookup (g f) p = lookup f p))"

definition vacant :: "string \<Rightarrow> fs \<Rightarrow> bool" where
  "vacant d f \<longleftrightarrow> (\<forall>p. under d p \<longrightarrow> lookup f p = None)"

definition removal_world :: "nat \<Rightarrow> node_kind \<Rightarrow> string list \<Rightarrow> 'w world_scheme \<Rightarrow> bool" where
  "removal_world j kd segs w \<longleftrightarrow> keeper j kd (disk w) \<and> (\<forall>g. Interfere g \<in> set (sched w) \<longrightarrow> considerate j kd segs g) \<and>
     (\<forall>s \<in> set (suffixes w). slash \<notin> set s)"

text \<open>And below the containers of \<open>S\<close> there is nothing.\<close>

definition removal_vacant :: "nat \<Rightarrow> node_kind \<Rightarrow> string list \<Rightarrow> string set \<Rightarrow> 'w world_scheme \<Rightarrow> bool" where
  "removal_vacant j kd segs S w \<longleftrightarrow> removal_world j kd segs w \<and> (\<forall>s \<in> S. vacant (container segs s) (disk w))"

lemma stable_removal: "stable (removal_vacant j kd segs S)"
  unfolding stable_def
proof (intro allI impI)
  fix w w' :: "'a world_scheme"
  assume step: "env_step w w'" and w: "removal_vacant j kd segs S w"
  then have k: "keeper j kd (disk w)" by (simp add: removal_vacant_def removal_world_def)
  have s: "suffixes w' = suffixes w" "set (sched w') \<subseteq> set (sched w)"
    using step by (auto simp: env_step_def)
  consider "disk w' = disk w" | g where "Interfere g \<in> set (sched w)" "disk w' = g (disk w)"
    using step unfolding env_step_def by (metis list.set_intros(1))
  then show "removal_vacant j kd segs S w'"
  proof cases
    case 1
    with w s show ?thesis by (auto simp: removal_vacant_def removal_world_def)
  next
    case 2
    then have "considerate j kd segs g" using w by (simp add: removal_vacant_def removal_world_def)
    with k have "keeper j kd (disk w')" "\<And>s p. under (container segs s) p \<Longrightarrow> lookup (disk w') p = lookup (disk w) p"
      by (auto simp: considerate_def zone_def 2(2))
    with w s show ?thesis by (auto simp: removal_vacant_def removal_world_def vacant_def)
  qed
qed

lemma removal_vacant_mono: "removal_vacant j kd segs S w \<Longrightarrow> T \<subseteq> S \<Longrightarrow> removal_vacant j kd segs T w"
  by (auto simp: removal_vacant_def)

lemma removal_vacant_empty: "removal_vacant j kd segs {} = removal_world j kd segs"
  by (rule ext) (simp add: removal_vacant_def)

lemma stable_removal_world: "stable (removal_world j kd segs)"
  using stable_removal[of j kd segs "{}"] by (simp add: removal_vacant_empty)

lemma keeper_mkdir:
  assumes "fs_mkdir p f = Inr d" "keeper j kd f"
  shows "keeper j kd d" "q \<noteq> p \<Longrightarrow> lookup d q = lookup f q"
proof -
  have d: "d = (add_name p (fs_next f) f)\<lparr>fs_node := (fs_node f)(fs_next f := empty_dir), fs_next := Suc (fs_next f)\<rparr>"
    using assms(1) by (auto simp: fs_mkdir_def split: if_splits)
  have al: "alive j f" and bound: "\<And>p i. lookup f p = Some i \<Longrightarrow> i < fs_next f"
    using assms(2) by (auto simp: keeper_def)
  then have j: "j < fs_next f" by (auto simp: alive_def)
  have "\<And>p i. lookup d p = Some i \<Longrightarrow> i < fs_next d" using bound by (auto simp: d less_Suc_eq split: if_splits)
  then show "keeper j kd d" using alive_mkdir[OF assms(1) al] assms(2) j by (simp add: keeper_def d)
  show "q \<noteq> p \<Longrightarrow> lookup d q = lookup f q" by (simp add: d)
qed

lemma keeper_copy:
  assumes "fs_copy a b f = Inr d" "keeper j kd f"
  shows "keeper j kd d"
proof (cases "d = f")
  case False
  then obtain i where free: "lookup f b = None"
    and d: "d = (add_name b (fs_next f) f)\<lparr>fs_node := (fs_node f)(fs_next f := fs_node f i), fs_next := Suc (fs_next f)\<rparr>"
    using assms(1) by (auto simp: fs_copy_def split: option.splits if_splits)
  have al: "alive j f" and bound: "\<And>p i. lookup f p = Some i \<Longrightarrow> i < fs_next f"
    using assms(2) by (auto simp: keeper_def)
  then have j: "j < fs_next f" by (auto simp: alive_def)
  have "alive j d" using alive_add_name_free[OF free al] by (simp add: d)
  moreover have "\<And>p i. lookup d p = Some i \<Longrightarrow> i < fs_next d" using bound by (auto simp: d less_Suc_eq split: if_splits)
  ultimately show ?thesis using assms(2) j by (simp add: keeper_def d)
qed (use assms in simp)

lemma keeper_rmdir:
  assumes "fs_rmdir p f = Inr d" "keeper j kd f" "kd = Directory \<Longrightarrow> lookup f p \<noteq> Some j"
  shows "keeper j kd d"
proof -
  have d: "d = del_name p f" and k: "kind_at f p = Some Directory"
    using assms(1) by (auto simp: fs_rmdir_def split: option.splits if_splits)
  have "lookup f p \<noteq> Some j" using assms(2,3) k by (auto simp: keeper_def kind_at_def)
  with assms(2) show ?thesis by (auto simp: keeper_def d alive_del_other split: if_splits)
qed

text \<open>Renaming onto a name with nothing at it or below it maps the names injectively.\<close>

lemma map_of_renamed:
  assumes "inj_on g (fst ` set es)" "p \<in> fst ` set es"
  shows "map_of (map (\<lambda>(p, j). (g p, j)) es) (g p) = map_of es p"
  using assms
proof (induction es)
  case (Cons e es)
  obtain q k where e: "e = (q, k)" by (cases e)
  show ?case
  proof (cases "q = p")
    case False
    with Cons.prems have "p \<in> fst ` set es" "g q \<noteq> g p" by (auto simp: e inj_on_def)
    with Cons e False show ?thesis by simp
  qed (simp add: e)
qed simp

lemma move_prefix_shape:
  "(p = a \<and> move_prefix a b p = b) \<or> (\<exists>r. p = a @ slash # r \<and> move_prefix a b p = b @ slash # r) \<or>
    move_prefix a b p = p"
  by (auto simp: move_prefix_def starts_with_iff)

lemma move_prefix_inj:
  assumes "\<And>p. p \<in> A \<Longrightarrow> p \<noteq> b \<and> \<not> under b p"
  shows "inj_on (move_prefix a b) A"
proof (rule inj_onI)
  fix p q assume p: "p \<in> A" and q: "q \<in> A" and eq: "move_prefix a b p = move_prefix a b q"
  have u: "\<And>r. \<not> (b @ slash # r \<in> A)" using assms by (force simp: under_def starts_with_iff)
  have nb: "b \<notin> A" using assms by blast
  show "p = q"
    using move_prefix_shape[of p a b] move_prefix_shape[of q a b] eq p q u nb
    by (elim disjE exE conjE) (metis append_same_eq self_append_conv same_append_eq list.inject list.distinct(1))+
qed

lemma keeper_rename:
  assumes r: "fs_rename a b f = Inr d" and k: "keeper j kd f" and free: "lookup f b = None" "vacant b f"
  shows "keeper j kd d"
proof (cases "kind_at f a = Some Directory")
  case False
  then have al: "alive j d" using alive_rename_free[OF r free(1)] k by (simp add: keeper_def)
  obtain i where i: "lookup f a = Some i" using r by (auto simp: fs_rename_def split: option.splits)
  have "d = add_name b i (del_name a f)"
    using r free i False by (auto simp: fs_rename_def kind_at_def split: if_splits)
  with al k i show ?thesis by (auto simp: keeper_def split: if_splits)
next
  case True
  then obtain i where i: "lookup f a = Some i" by (auto simp: kind_at_def)
  have d: "d = f\<lparr>fs_entries := map (\<lambda>(p, j). (move_prefix a b p, j)) (fs_entries f)\<rparr>"
    using r free i True by (auto simp: fs_rename_def kind_at_def split: if_splits)
  have dom: "p \<in> fst ` set (fs_entries f) \<longleftrightarrow> lookup f p \<noteq> None" for p
    by (simp add: lookup_def map_of_eq_None_iff)
  have fresh: "p \<noteq> b \<and> \<not> under b p" if "p \<in> fst ` set (fs_entries f)" for p
    using that free by (auto simp: dom vacant_def)
  have inj: "inj_on (move_prefix a b) (fst ` set (fs_entries f))"
    by (rule move_prefix_inj) (rule fresh)
  have moved: "lookup d (move_prefix a b p) = lookup f p" if "p \<in> fst ` set (fs_entries f)" for p
    using map_of_renamed[OF inj that] by (simp add: d lookup_def)
  obtain p where p: "lookup f p = Some j" using k by (auto simp: keeper_def alive_def)
  then have "lookup d (move_prefix a b p) = Some j" using moved[of p] dom by simp
  moreover have "i < fs_next d" if l: "lookup d p = Some i" for p i
  proof -
    from l have "map_of (map (\<lambda>(p, j). (move_prefix a b p, j)) (fs_entries f)) p = Some i"
      by (simp add: d lookup_def)
    then have "(p, i) \<in> set (map (\<lambda>(p, j). (move_prefix a b p, j)) (fs_entries f))" by (rule map_of_SomeD)
    then obtain q where "p = move_prefix a b q" "q \<in> fst ` set (fs_entries f)" by force
    with moved[of q] l k show ?thesis by (auto simp: keeper_def d)
  qed
  ultimately show ?thesis using k by (auto simp: keeper_def d intro: aliveI)
qed

lemma removal_write:
  assumes "\<And>f d. keeper j kd f \<Longrightarrow> op f = Inr d \<Longrightarrow> keeper j kd d"
  shows "preserves (removal_world j kd segs) (sys_write op)"
  by (rule preserves_write[OF stable_removal_world]) (auto simp: removal_world_def intro: assms)

lemmas removal_ro = preserves_readonly[OF stable_removal_world]

lemma removal_steps [keeps]:
  "preserves (removal_world j kd segs) (sys_write (fs_mkdir p))"
  "preserves (removal_world j kd segs) (sys_write (fs_copy p q))"
  by (auto intro!: removal_write intro: keeper_mkdir keeper_copy)

lemma removal_reads [keeps]:
  "preserves (removal_world j kd segs) (statOrAbsent p)"
  "preserves (removal_world j kd segs) (lstat p)"
  "preserves (removal_world j kd segs) (syncDirectory p)"
  "preserves (removal_world j kd segs) (sys_readdir p)"
  by (auto intro!: removal_ro keeps)

lemma removal_journal_steps [keeps]:
  "preserves (removal_world j kd segs) (writeJournal e)"
  "preserves (removal_world j kd segs) (load owner)"
  by (auto intro!: removal_ro keeps)

lemma removal_copy_entries [keeps]: "preserves (removal_world j kd segs) (copy_entries a b qs)"
  by (induction a b qs rule: copy_entries.induct) (auto intro!: keeps)

lemma removal_cp [keeps]: "preserves (removal_world j kd segs) (cp a b)"
  unfolding cp_def by (intro keeps removal_ro)

lemma removal_copyBack [keeps]: "preserves (removal_world j kd segs) (copyBack captured destination r items)"
  by (induction captured destination r items rule: copyBack.induct) (auto intro!: keeps)

lemma removal_expose [keeps]: "preserves (removal_world j kd segs) (exposeForeignCapturedDirectory e captured)"
  unfolding exposeForeignCapturedDirectory_def restoreForeign_def mkdir_if_absent_def Let_def
  by (intro keeps)

text \<open>
  What a removal may delete: the directory that its entry records, and its private container.
  An entry spares \<open>j\<close> when neither is \<open>j\<close>, or when \<open>j\<close> is not a directory at all.
\<close>

definition spares :: "nat \<Rightarrow> node_kind \<Rightarrow> 'a device_identity_scheme option \<Rightarrow> bool" where
  "spares j kd i \<longleftrightarrow> (kd = Directory \<longrightarrow> (\<forall>x. i = Some x \<longrightarrow> id_ino x \<noteq> dec j))"

definition own_container :: "string list \<Rightarrow> string \<Rightarrow> bool" where
  "own_container segs d \<longleftrightarrow> (\<exists>s. d = container segs s \<and> plain_seg (remove_prefix_name @ s))"

definition sparing :: "nat \<Rightarrow> node_kind \<Rightarrow> string list \<Rightarrow> journal \<Rightarrow> bool" where
  "sparing j kd segs e \<longleftrightarrow> spares j kd (j_identity e) \<and> spares j kd (j_directoryCapture e) \<and>
     (\<forall>c. j_directoryCapture e = Some c \<longrightarrow> own_container segs (cap_directory c))"

lemma sparing_state [simp]: "sparing j kd segs (e\<lparr>j_state := s\<rparr>) = sparing j kd segs e"
  by (simp add: sparing_def)

lemma owned_spares:
  "owned_directory (Some st) i \<Longrightarrow> spares j kd i \<Longrightarrow> kd = Directory \<Longrightarrow> st_ino st \<noteq> j"
  by (cases i) (auto simp: owned_directory_def samePhysicalIdentity_def spares_def usable_opt_def)

lemma captured_path:
  assumes segs: "\<forall>s \<in> set segs. plain_seg s" and n: "plain_seg (remove_prefix_name @ s)"
    and c: "cap_directory c = container segs s"
  shows "captured_directory c = container segs s @ slash # ''directory''"
proof -
  have pl: "\<forall>t \<in> set (segs @ [remove_prefix_name @ s]). plain_seg t" using segs n by auto
  have d: "plain_seg ''directory''" by (simp add: plain_seg_def dot_def dotdot_def slash_def)
  have "captured_directory c = abs_path ((segs @ [remove_prefix_name @ s]) @ [''directory''])"
    using join_abs_path[OF pl d] by (simp only: captured_directory_def c container_def)
  then show ?thesis
    by (simp only: abs_path_snoc[of "segs @ [remove_prefix_name @ s]"] container_def) simp
qed

lemma own_zone:
  assumes "\<forall>s \<in> set segs. plain_seg s" "own_container segs (cap_directory c)"
  shows "zone segs (cap_directory c)" "zone segs (captured_directory c)"
proof -
  obtain s where s: "cap_directory c = container segs s" "plain_seg (remove_prefix_name @ s)"
    using assms(2) by (auto simp: own_container_def)
  show "zone segs (cap_directory c)" using s(1) by (auto simp: zone_def)
  show "zone segs (captured_directory c)"
    unfolding captured_path[OF assms(1) s(2,1)] by (auto simp: zone_def under_def starts_with_iff)
qed

text \<open>A name of the private zone, and the inode that it can have.\<close>

definition holds_at :: "nat \<Rightarrow> node_kind \<Rightarrow> string list \<Rightarrow> string \<Rightarrow> nat \<Rightarrow> 'w world_scheme \<Rightarrow> bool" where
  "holds_at j kd segs p n w \<longleftrightarrow> removal_world j kd segs w \<and> (\<forall>i. lookup (disk w) p = Some i \<longrightarrow> i = n)"

lemma zone_kept:
  assumes "env_step w w'" "removal_world j kd segs w" "zone segs p"
  shows "lookup (disk w') p = lookup (disk w) p"
proof -
  consider "disk w' = disk w" | g where "Interfere g \<in> set (sched w)" "disk w' = g (disk w)"
    using assms(1) unfolding env_step_def by (metis list.set_intros(1))
  then show ?thesis using assms(2,3) by cases (auto simp: removal_world_def considerate_def)
qed

lemma stable_holds_at:
  assumes "zone segs p"
  shows "stable (holds_at j kd segs p n)"
  unfolding stable_def
proof (intro allI impI)
  fix w w' :: "'a world_scheme" assume step: "env_step w w'" and w: "holds_at j kd segs p n w"
  then have rw: "removal_world j kd segs w" by (simp add: holds_at_def)
  have "lookup (disk w') p = lookup (disk w) p" by (rule zone_kept[OF step rw assms])
  with w stableD[OF stable_removal_world step rw] show "holds_at j kd segs p n w'" by (simp add: holds_at_def)
qed

lemma holds_world: "holds_at j kd segs p n w \<Longrightarrow> removal_world j kd segs w"
  by (simp add: holds_at_def)

lemma triple_stat_at:
  "triple (removal_world j kd segs) (statOrAbsent p)
    (\<lambda>r w. removal_world j kd segs w \<and> (\<forall>st. r = Some st \<longrightarrow> holds_at j kd segs p (st_ino st) w)) (removal_world j kd segs)"
  unfolding statOrAbsent_def lstat_def
  by (rule triple_catch, rule triple_bind[OF triple_sys_read[OF stable_removal_world,
        where Q = "\<lambda>st w. holds_at j kd segs p (st_ino st) w"]])
    (auto simp: fs_lstat_def stats_of_def holds_at_def split: option.splits
      intro!: triple_return triple_if triple_throw)

lemma triple_rmdir_at:
  assumes "zone segs p" "kd = Directory \<Longrightarrow> n \<noteq> j"
  shows "triple (holds_at j kd segs p n) (sys_write (fs_rmdir p)) (\<lambda>_. removal_world j kd segs) (removal_world j kd segs)"
proof (rule triple_sys_write[OF stable_holds_at[OF assms(1)]])
  fix w d assume w: "holds_at j kd segs p n w" and d: "fs_rmdir p (disk w) = Inr d"
  then have k: "keeper j kd (disk w)" by (simp add: holds_at_def removal_world_def)
  have "keeper j kd d" by (rule keeper_rmdir[OF d k]) (use w assms(2) in \<open>auto simp: holds_at_def\<close>)
  with w show "removal_world j kd segs (w\<lparr>disk := d\<rparr>)" by (simp add: holds_at_def removal_world_def)
qed (rule holds_world)

lemma triple_cleanup:
  assumes segs: "\<forall>s \<in> set segs. plain_seg s" and e: "sparing j kd segs e"
  shows "preserves (removal_world j kd segs) (cleanupCompletedDirectoryRemoval e)"
proof -
  let ?I = "removal_world j kd segs"
  have rest: "triple ?I (io_bind (syncDirectory p) (\<lambda>_. io_return e)) (\<lambda>_. ?I) ?I" for p
    by (fold preserves_def, intro keeps)
  have remove: "triple (\<lambda>w. ?I w \<and> (\<forall>st. r = Some st \<longrightarrow> holds_at j kd segs (cap_directory c) (st_ino st) w))
      (case r of None \<Rightarrow> io_return ()
       | Some s \<Rightarrow>
           io_bind (io_guard (owned_directory r (j_directoryCapture e)) PhysicalRecoveryRequired) (\<lambda>_.
           io_bind (sys_readdir (cap_directory c)) (\<lambda>names.
           io_bind (io_guard (is_nil names) PhysicalRecoveryRequired) (\<lambda>_.
           sys_write (fs_rmdir (cap_directory c)))))) (\<lambda>_. ?I) ?I"
    if c: "j_directoryCapture e = Some c" for r c
  proof (cases r)
    case (Some st)
    have z: "zone segs (cap_directory c)" using own_zone(1)[OF segs] e c by (simp add: sparing_def)
    note stb = stable_holds_at[OF z, of j kd "st_ino st"]
    have body: "triple (holds_at j kd segs (cap_directory c) (st_ino st))
        (io_bind (sys_readdir (cap_directory c)) (\<lambda>names.
           io_bind (io_guard (is_nil names) PhysicalRecoveryRequired) (\<lambda>_.
           sys_write (fs_rmdir (cap_directory c))))) (\<lambda>_. ?I) ?I"
      if own: "owned_directory (Some st) (j_directoryCapture e)"
      by (rule triple_ro[OF readonly_readdir stb _ holds_world], rule triple_ro[OF readonly_guard stb _ holds_world],
          rule triple_rmdir_at[OF z])
        (use own e in \<open>auto simp: sparing_def dest: owned_spares\<close>)
    show ?thesis unfolding Some option.case
      by (rule triple_pre[of "holds_at j kd segs (cap_directory c) (st_ino st)"], rule triple_guarded)
        (use body in \<open>auto simp: holds_at_def\<close>)
  qed (simp add: triple_return)
  show ?thesis
  proof (cases "j_directoryCapture e")
    case None
    then show ?thesis
      by (simp add: cleanupCompletedDirectoryRemoval_def preserves_def triple_def io_bind_def io_guard_def io_throw_def)
  next
    case (Some c)
    have "triple ?I (io_bind (statOrAbsent (cap_directory c)) (\<lambda>r.
        io_bind (case r of None \<Rightarrow> io_return ()
       | Some s \<Rightarrow>
           io_bind (io_guard (owned_directory r (j_directoryCapture e)) PhysicalRecoveryRequired) (\<lambda>_.
           io_bind (sys_readdir (cap_directory c)) (\<lambda>names.
           io_bind (io_guard (is_nil names) PhysicalRecoveryRequired) (\<lambda>_.
           sys_write (fs_rmdir (cap_directory c)))))) (\<lambda>_.
        io_bind (syncDirectory (posix_dirname (j_destination e))) (\<lambda>_. io_return e)))) (\<lambda>_. ?I) ?I"
      by (rule triple_bind[OF triple_stat_at], rule triple_bind[OF remove[OF Some]], rule rest)
    then show ?thesis
      unfolding cleanupCompletedDirectoryRemoval_def preserves_def Let_def Some option.sel by (rule triple_guarded)
  qed
qed

lemma triple_discard_directory:
  assumes segs: "\<forall>s \<in> set segs. plain_seg s" and e: "sparing j kd segs e" and c: "j_directoryCapture e = Some c"
  shows "triple (holds_at j kd segs (captured_directory c) (st_ino st)) (discardCapturedDirectory e st)
    (\<lambda>e' w. sparing j kd segs e' \<and> removal_world j kd segs w) (removal_world j kd segs)"
proof -
  let ?I = "removal_world j kd segs" and ?H = "holds_at j kd segs (captured_directory c) (st_ino st)"
  have z: "zone segs (captured_directory c)" using own_zone(2)[OF segs] e c by (simp add: sparing_def)
  note stb = stable_holds_at[OF z, of j kd "st_ino st"]
  have foreign: "triple ?H (io_bind (io_when (is_directory st \<and> \<not> is_symlink st)
      (exposeForeignCapturedDirectory e (captured_directory c))) (\<lambda>_. io_throw PhysicalRecoveryRequired))
      (\<lambda>e' w. sparing j kd segs e' \<and> ?I w) ?I"
    by (rule triple_pre[of ?I], rule triple_bind[of _ _ "\<lambda>_. ?I"], fold preserves_def, intro keeps)
      (auto intro: triple_throw holds_world)
  have sync: "triple ?I (syncDirectory p) (\<lambda>_. ?I) ?I" for p by (fold preserves_def, intro keeps)
  have own: "triple ?H (io_bind (sys_readdir (captured_directory c)) (\<lambda>names.
        io_bind (io_guard (is_nil names) PhysicalRecoveryRequired) (\<lambda>_.
        io_bind (writeJournal (e\<lparr>j_state := LINKED\<rparr>)) (\<lambda>_.
        io_bind (sys_write (fs_rmdir (captured_directory c))) (\<lambda>_.
        io_bind (syncDirectory (cap_directory c)) (\<lambda>_.
        io_return (e\<lparr>j_state := LINKED\<rparr>))))))) (\<lambda>e' w. sparing j kd segs e' \<and> ?I w) ?I"
    if "owned_directory (Some st) (j_identity e)"
    by (rule triple_ro[OF readonly_readdir stb _ holds_world], rule triple_ro[OF readonly_guard stb _ holds_world],
        rule triple_ro[OF readonly_writeJournal stb _ holds_world], rule triple_bind[OF triple_rmdir_at[OF z]],
        use that e in \<open>auto simp: sparing_def dest: owned_spares\<close>)
      (rule triple_bind[OF sync], rule triple_return, use e in \<open>simp add: sparing_def\<close>)
  show ?thesis unfolding discardCapturedDirectory_def Let_def c option.sel
    by (rule triple_if[OF foreign]) (use own in blast)+
qed

lemma triple_finish:
  assumes segs: "\<forall>s \<in> set segs. plain_seg s" and e: "sparing j kd segs e"
  shows "preserves (removal_world j kd segs) (finishDirectoryRemoval e)"
proof (cases "j_directoryCapture e")
  case None
  then show ?thesis
    by (simp add: finishDirectoryRemoval_def preserves_def triple_def io_bind_def io_return_def io_guard_def io_throw_def)
next
  case (Some c)
  let ?I = "removal_world j kd segs"
  have finish: "triple (\<lambda>w. sparing j kd segs e' \<and> ?I w) (io_bind (writeJournal (e'\<lparr>j_state := COMPLETED\<rparr>)) (\<lambda>_.
     cleanupCompletedDirectoryRemoval (e'\<lparr>j_state := COMPLETED\<rparr>))) (\<lambda>_. ?I) ?I" for e'
    by (rule triple_assume, fold preserves_def, intro keeps triple_cleanup segs) simp
  have choice: "triple (\<lambda>w. ?I w \<and> (\<forall>s. r = Some s \<longrightarrow> holds_at j kd segs (captured_directory c) (st_ino s) w))
      (case r of Some s \<Rightarrow> discardCapturedDirectory e s
       | None \<Rightarrow> io_bind (io_guard (j_state e = LINKED) PhysicalRecoveryRequired) (\<lambda>_. io_return e))
      (\<lambda>e' w. sparing j kd segs e' \<and> ?I w) ?I" for r
  proof (cases r)
    case None
    then show ?thesis using e by (auto intro!: triple_guarded triple_return)
  next
    case (Some s)
    show ?thesis unfolding Some option.case
      by (rule triple_pre[OF triple_discard_directory[OF segs e \<open>j_directoryCapture e = Some c\<close>]]) simp
  qed
  show ?thesis
    unfolding finishDirectoryRemoval_def preserves_def Some option.case option.sel
    by (rule triple_ro[OF readonly_statOrAbsent stable_removal_world], rule triple_guarded,
        rule triple_bind[OF triple_stat_at], rule triple_bind[OF choice], rule finish)
qed

text \<open>The fresh container is vacant, and stays so until the folder is renamed into it.\<close>

definition fresh_container :: "nat \<Rightarrow> node_kind \<Rightarrow> string list \<Rightarrow> string \<Rightarrow> 'w world_scheme \<Rightarrow> bool" where
  "fresh_container j kd segs s w \<longleftrightarrow> removal_vacant j kd segs {s} w \<and> lookup (disk w) (container segs s) \<noteq> Some j"

lemma stable_fresh: "stable (fresh_container j kd segs s)"
  unfolding stable_def
proof (intro allI impI)
  fix w w' :: "'a world_scheme" assume step: "env_step w w'" and w: "fresh_container j kd segs s w"
  then have v: "removal_vacant j kd segs {s} w" and rw: "removal_world j kd segs w"
    by (simp_all add: fresh_container_def removal_vacant_def)
  have "zone segs (container segs s)" by (auto simp: zone_def)
  from zone_kept[OF step rw this] stableD[OF stable_removal step v] w
  show "fresh_container j kd segs s w'" by (simp add: fresh_container_def)
qed

lemma fresh_world: "fresh_container j kd segs s w \<Longrightarrow> removal_world j kd segs w"
  by (simp add: fresh_container_def removal_vacant_def)

lemma triple_container:
  assumes segs: "\<forall>s \<in> set segs. plain_seg s"
  shows "triple (\<lambda>w. \<exists>S. set (suffixes w) = S \<and> removal_vacant j kd segs S w)
    (mkdtemp (posix_join [abs_path segs, remove_prefix_name]))
    (\<lambda>d w. \<exists>s. d = container segs s \<and> plain_seg (remove_prefix_name @ s) \<and> fresh_container j kd segs s w)
    (removal_world j kd segs)"
proof -
  let ?I = "removal_world j kd segs"
  have pl: "plain_seg (remove_prefix_name @ s)" if "slash \<notin> set s" for s
    using that by (auto simp: plain_seg_def remove_prefix_name_def dot_def dotdot_def slash_def)
  have pre: "posix_join [abs_path segs, remove_prefix_name] @ s = container segs s" for s
    using segs pl[of "[]"] by (simp add: abs_path_extend container_def)
  have take: "triple (\<lambda>w. \<exists>S. set (suffixes w) = S \<and> removal_vacant j kd segs S w) next_suffix
      (\<lambda>s w. slash \<notin> set s \<and> removal_vacant j kd segs {s} w) ?I"
    by (rule tripleI) (auto simp: next_suffix_def removal_vacant_def removal_world_def vacant_def split: list.splits)
  have mk: "triple (removal_vacant j kd segs {s}) (sys_write (fs_mkdir (container segs s)))
      (\<lambda>_. fresh_container j kd segs s) ?I" for s
  proof (rule triple_sys_write[OF stable_removal])
    fix w d assume w: "removal_vacant j kd segs {s} w" and d: "fs_mkdir (container segs s) (disk w) = Inr d"
    then have k: "keeper j kd (disk w)" by (simp add: removal_vacant_def removal_world_def)
    from keeper_mkdir[OF d this] w have "keeper j kd d" "vacant (container segs s) d"
      by (auto simp: removal_vacant_def vacant_def under_def starts_with_iff)
    moreover have "lookup d (container segs s) = Some (fs_next (disk w))" "j < fs_next (disk w)"
      using d k by (auto simp: fs_mkdir_def keeper_def alive_def split: if_splits)
    ultimately show "fresh_container j kd segs s (w\<lparr>disk := d\<rparr>)"
      using w by (auto simp: fresh_container_def removal_vacant_def removal_world_def)
  qed (simp add: removal_vacant_def)
  show ?thesis
    unfolding mkdtemp_def pre
    apply (rule triple_bind[OF take], rule triple_assume, rule triple_bind[OF mk])
    apply (rule triple_return)
    using pl apply blast
    done
qed

lemma captured_vacant:
  assumes segs: "\<forall>s \<in> set segs. plain_seg s" and n: "plain_seg (remove_prefix_name @ s)"
    and c: "cap_directory c = container segs s" and v: "vacant (container segs s) f"
  shows "lookup f (captured_directory c) = None" "vacant (captured_directory c) f"
proof -
  have pl: "\<forall>t \<in> set (segs @ [remove_prefix_name @ s]). plain_seg t" using segs n by auto
  have d: "plain_seg ''directory''" by (simp add: plain_seg_def dot_def dotdot_def slash_def)
  have "captured_directory c = abs_path ((segs @ [remove_prefix_name @ s]) @ [''directory''])"
    using join_abs_path[OF pl d] by (simp only: captured_directory_def c container_def)
  then have eq: "captured_directory c = container segs s @ slash # ''directory''"
    by (simp only: abs_path_snoc[of "segs @ [remove_prefix_name @ s]"] container_def) simp
  show "lookup f (captured_directory c) = None" "vacant (captured_directory c) f"
    using v by (auto simp: eq vacant_def under_def starts_with_iff)
qed

lemma stable_vacant_suffixes: "stable (\<lambda>w. \<exists>S. set (suffixes w) = S \<and> removal_vacant j kd segs S w)"
  unfolding stable_def
proof (intro allI impI)
  fix w w' :: "'b world_scheme"
  assume "env_step w w'" "\<exists>S. set (suffixes w) = S \<and> removal_vacant j kd segs S w"
  moreover from this have "suffixes w' = suffixes w" by (simp add: env_step_def)
  ultimately show "\<exists>S. set (suffixes w') = S \<and> removal_vacant j kd segs S w'" using stableD[OF stable_removal] by metis
qed

lemma triple_captureFolder:
  assumes segs: "\<forall>s \<in> set segs. plain_seg s" "plain_seg x" and target: "target = abs_path (segs @ [x])"
    and hooks: "readonly afterCaptureIntent" "readonly afterCaptured"
    and s: "directory = container segs s" "plain_seg (remove_prefix_name @ s)" and i: "spares j kd i"
  shows "triple (fresh_container j kd segs s)
    (captureFolder owner originalOwner target afterCaptureIntent afterCaptured i directory)
    (\<lambda>_. removal_world j kd segs) (removal_world j kd segs)"
proof -
  let ?I = "removal_world j kd segs" and ?F = "fresh_container j kd segs s"
  have stat: "triple ?F (lstat directory) (\<lambda>st w. st_ino st \<noteq> j \<and> ?F w) ?I"
    unfolding lstat_def
    by (rule triple_sys_read[OF stable_fresh])
      (auto simp: fs_lstat_def stats_of_def s fresh_container_def split: option.splits dest: fresh_world, simp add: removal_vacant_def)
  have rename: "triple ?F (sys_write (fs_rename target (captured_directory c))) (\<lambda>_. ?I) ?I"
    if c: "cap_directory c = container segs s" for c
  proof (rule triple_sys_write[OF stable_fresh])
    fix w d assume w: "?F w" and d: "fs_rename target (captured_directory c) (disk w) = Inr d"
    from w have k: "keeper j kd (disk w)" and v: "vacant (container segs s) (disk w)"
      by (simp_all add: fresh_container_def removal_vacant_def removal_world_def)
    from keeper_rename[OF d k captured_vacant[OF segs(1) s(2) c v]] w
    show "?I (w\<lparr>disk := d\<rparr>)" by (simp add: fresh_container_def removal_vacant_def removal_world_def)
  qed (rule fresh_world)
  have spare: "sparing j kd segs (new_removal owner originalOwner target i (capture_of directory st))" if "st_ino st \<noteq> j" for st
    using i that s by (auto simp: sparing_def new_removal_def capture_of_def spares_def own_container_def)
  have rest: "triple ?I (io_bind (syncDirectory a) (\<lambda>_. io_bind (syncDirectory b) (\<lambda>_. io_bind afterCaptured (\<lambda>_.
      finishDirectoryRemoval e)))) (\<lambda>_. ?I) ?I" if "sparing j kd segs e" for a b e
    by (fold preserves_def, intro preserves_bind removal_reads removal_ro[OF hooks(2)] triple_finish[OF segs(1) that])
  show ?thesis
    unfolding captureFolder_def Let_def
    apply (rule triple_bind[OF stat], rule triple_assume)
    apply (rule triple_ro[OF readonly_calls(2) stable_fresh _ fresh_world])
     apply (rule triple_ro[OF readonly_writeJournal stable_fresh _ fresh_world])
      apply (rule triple_ro[OF hooks(1) stable_fresh _ fresh_world])
       apply (rule triple_bind[OF rename])
        apply (simp add: capture_of_def s)
       apply (rule rest, erule spare)
      apply assumption+
    done
qed

text \<open>A load neither changes the journals nor invents an entry.\<close>

lemma triple_load_from:
  assumes "stable P"
  shows "triple (\<lambda>w. (journals w = J \<and> sha256hex w = h) \<and> P w) (load owner)
    (\<lambda>r w. (\<forall>e. r = Some e \<longrightarrow> J (h owner) = JStored e \<and> journal_ok owner e) \<and> (journals w = J \<and> sha256hex w = h) \<and> P w) P"
proof (rule tripleI)
  fix w :: "'a jworld_scheme"
  assume w: "(journals w = J \<and> sha256hex w = h) \<and> P w"
  have P: "post (\<lambda>_. P) P (load owner w)"
    using readonlyD[OF readonly_load assms] w by (blast intro: triple_use)
  have "(\<forall>e. r = Some e \<longrightarrow> J (h owner) = JStored e \<and> journal_ok owner e) \<and> journals w' = J \<and> sha256hex w' = h"
    if "load owner w = (Ok r, w')" for r w'
    using that w
    by (auto simp: load_def io_bind_def scheduled_def io_get_def io_return_def io_throw_def Let_def
        split: list.splits perturb.splits journal_file.splits if_splits)
  with P show "post (\<lambda>r w. (\<forall>e. r = Some e \<longrightarrow> J (h owner) = JStored e \<and> journal_ok owner e) \<and>
      (journals w = J \<and> sha256hex w = h) \<and> P w) P (load owner w)"
    by (cases "load owner w"; cases "fst (load owner w)") auto
qed

text \<open>
  What the journals must say of \<open>j\<close> for it to be spared: a stored entry of this removal
  names neither \<open>j\<close> itself nor \<open>j\<close> as its container, and the original owner's
  entry does not prove that \<open>j\<close> is the folder it created at the target. A file is always spared.
\<close>

definition original_spares :: "nat \<Rightarrow> node_kind \<Rightarrow> string \<Rightarrow> journal_file \<Rightarrow> bool" where
  "original_spares j kd target file \<longleftrightarrow> (\<forall>e. file = JStored e \<longrightarrow> j_created e \<longrightarrow> j_state e = COMPLETED \<longrightarrow>
     j_kind e = CREATE_FOLDER_J \<longrightarrow> j_destination e = target \<longrightarrow> spares j kd (j_identity e))"

definition removal_spares :: "nat \<Rightarrow> node_kind \<Rightarrow> string \<Rightarrow> string \<Rightarrow> string \<Rightarrow> 'w jworld_scheme \<Rightarrow> bool" where
  "removal_spares j kd owner originalOwner target w \<longleftrightarrow>
     original_spares j kd target (journals w (sha256hex w originalOwner)) \<and>
     (\<forall>e. journals w (sha256hex w owner) = JStored e \<longrightarrow>
        spares j kd (j_identity e) \<and> spares j kd (j_directoryCapture e) \<and> normal_entry e)"

lemma stored_sparing:
  assumes "removal_spares j kd owner originalOwner target w" "journals w (sha256hex w owner) = JStored e" "journal_ok owner e"
    and "remove_authority originalOwner target e" "target = abs_path (segs @ [x])" "\<forall>s \<in> set segs. plain_seg s" "plain_seg x"
  shows "sparing j kd segs e"
proof -
  have "own_container segs (cap_directory c)" if c: "j_directoryCapture e = Some c" for c
  proof -
    obtain ss n where n: "cap_directory c = abs_path (ss @ [n])" "\<forall>s \<in> set ss. plain_seg s" "plain_seg n"
      using assms(1,2) c by (auto simp: removal_spares_def normal_entry_def normal_capture_def)
    have "posix_dirname (cap_directory c) = posix_dirname (j_destination e)"
      "starts_with (posix_basename (cap_directory c)) remove_prefix_name"
      using assms(3) c by (simp_all add: journal_ok_def)
    moreover have "j_destination e = abs_path (segs @ [x])" using assms(4,5) by (simp add: remove_authority_def)
    ultimately have "abs_path ss = abs_path segs" "starts_with n remove_prefix_name" using n assms(6,7) by simp_all
    then obtain s where "ss = segs" "n = remove_prefix_name @ s"
      using abs_path_inject[of ss segs] n(2) assms(6) by (auto simp: starts_with_iff)
    with n show ?thesis by (auto simp: own_container_def container_def)
  qed
  with assms(1,2) show ?thesis by (auto simp: sparing_def removal_spares_def)
qed

lemma triple_removeFolderFresh:
  assumes segs: "\<forall>s \<in> set segs. plain_seg s" "plain_seg x" and target: "target = abs_path (segs @ [x])"
    and hooks: "readonly afterCaptureIntent" "readonly afterCaptured"
    and original: "original_spares j kd target (J (h originalOwner))"
  shows "triple (\<lambda>w. (journals w = J \<and> sha256hex w = h) \<and> (\<exists>S. set (suffixes w) = S \<and> removal_vacant j kd segs S w))
    (removeFolderFresh owner originalOwner target afterCaptureIntent afterCaptured)
    (\<lambda>_. removal_world j kd segs) (removal_world j kd segs)"
proof -
  let ?I = "removal_world j kd segs"
  let ?V = "\<lambda>w. \<exists>S. set (suffixes w) = S \<and> removal_vacant j kd segs S w"
  note stV = stable_vacant_suffixes[of j kd segs]
  have V: "?V w \<Longrightarrow> ?I w" for w by (auto simp: removal_vacant_def)
  have dn: "posix_dirname target = abs_path segs" using segs by (simp add: target)
  have spare: "spares j kd (j_identity (the r))"
    if "\<forall>e. r = Some e \<longrightarrow> J (h originalOwner) = JStored e \<and> journal_ok originalOwner e" "created_here r target st" for r st
    using that original by (auto simp: created_here_def original_spares_def split: option.splits)
  have tail: "triple (\<lambda>w. \<exists>s. directory = container segs s \<and> plain_seg (remove_prefix_name @ s) \<and> fresh_container j kd segs s w)
      (captureFolder owner originalOwner target afterCaptureIntent afterCaptured i directory) (\<lambda>_. ?I) ?I"
    if "spares j kd i" for directory i
    by (rule triple_exists, rule triple_assume, rule triple_assume)
      (rule triple_captureFolder[OF segs target hooks _ _ that])
  have rest: "triple ?V (io_bind (statOrAbsent target) (\<lambda>st.
     io_bind (io_guard (created_here r target st) PhysicalRecoveryRequired) (\<lambda>_.
     io_bind (sys_readdir target) (\<lambda>names.
     io_bind (io_guard (is_nil names) PhysicalRecoveryRequired) (\<lambda>_.
     io_bind (mkdtemp (posix_join [posix_dirname target, remove_prefix_name])) (\<lambda>directory.
     captureFolder owner originalOwner target afterCaptureIntent afterCaptured (j_identity (the r)) directory)))))) (\<lambda>_. ?I) ?I"
    if r: "\<forall>e. r = Some e \<longrightarrow> J (h originalOwner) = JStored e \<and> journal_ok originalOwner e" for r
    unfolding dn
    apply (rule triple_ro[OF readonly_statOrAbsent stV _ V])
     apply (rule triple_guarded[OF _ V])
      apply (rule triple_ro[OF readonly_readdir stV _ V])
       apply (rule triple_ro[OF readonly_guard stV _ V])
        apply (rule triple_bind[OF triple_container[OF segs(1)]])
        apply (rule tail, rule spare[OF r])
        apply assumption+
    done
  show ?thesis
    unfolding removeFolderFresh_def
    by (rule triple_bind[OF triple_weaken[OF triple_load_from[OF stV, of J h originalOwner], where Q' =
          "\<lambda>r w. (\<forall>e. r = Some e \<longrightarrow> J (h originalOwner) = JStored e \<and> journal_ok originalOwner e) \<and> ?V w" and R' = ?I]])
      (use V in blast, use V in blast, use V in blast, rule triple_assume, rule rest)
qed

lemma triple_journaledRemoveFolder:
  assumes segs: "\<forall>s \<in> set segs. plain_seg s" "plain_seg x" and target: "target = abs_path (segs @ [x])"
    and hooks: "readonly afterCaptureIntent" "readonly afterCaptured"
    and original: "original_spares j kd target (J (h originalOwner))"
    and stored: "\<And>e. J (h owner) = JStored e \<Longrightarrow> journal_ok owner e \<Longrightarrow> remove_authority originalOwner target e \<Longrightarrow> sparing j kd segs e"
  shows "triple (\<lambda>w. (journals w = J \<and> sha256hex w = h) \<and> (\<exists>S. set (suffixes w) = S \<and> removal_vacant j kd segs S w))
    (journaledRemoveFolder owner originalOwner target afterCaptureIntent afterCaptured)
    (\<lambda>_. removal_world j kd segs) (removal_world j kd segs)"
proof -
  let ?I = "removal_world j kd segs"
  let ?V = "\<lambda>w. \<exists>S. set (suffixes w) = S \<and> removal_vacant j kd segs S w"
  let ?J = "\<lambda>w. (journals w = J \<and> sha256hex w = h) \<and> ?V w"
  have V: "?J w \<Longrightarrow> ?I w" "?V w \<Longrightarrow> ?I w" for w :: "'b jworld_scheme" by (auto simp: removal_vacant_def)
  have fresh: "triple ?J (removeFolderFresh owner originalOwner target afterCaptureIntent afterCaptured) (\<lambda>_. ?I) ?I"
    by (rule triple_removeFolderFresh[OF segs target hooks]) (rule original)
  have old: "triple ?J (cleanupCompletedDirectoryRemoval e) (\<lambda>_. ?I) ?I"
    "triple ?J (finishDirectoryRemoval e) (\<lambda>_. ?I) ?I" if "sparing j kd segs e" for e
    by (rule triple_pre[of ?I], fold preserves_def, intro triple_cleanup triple_finish segs(1) that, erule V)+
  have rest: "triple ?J (io_bind (io_guard (remove_authority originalOwner target e) PhysicalRecoveryRequired) (\<lambda>_.
         if j_state e = COMPLETED then
           (if j_directoryCapture e \<noteq> None then cleanupCompletedDirectoryRemoval e else io_return e)
         else if j_directoryCapture e \<noteq> None then finishDirectoryRemoval e
         else removeFolderFresh owner originalOwner target afterCaptureIntent afterCaptured)) (\<lambda>_. ?I) ?I"
    if "J (h owner) = JStored e" "journal_ok owner e" for e
    by (rule triple_guarded, intro triple_if old fresh triple_return V stored that, assumption+)
      (use V in blast)+
  have branch: "triple (\<lambda>w. (\<forall>e. r = Some e \<longrightarrow> J (h owner) = JStored e \<and> journal_ok owner e) \<and> ?J w)
     (case r of None \<Rightarrow> removeFolderFresh owner originalOwner target afterCaptureIntent afterCaptured
      | Some e \<Rightarrow> io_bind (io_guard (remove_authority originalOwner target e) PhysicalRecoveryRequired) (\<lambda>_.
         if j_state e = COMPLETED then
           (if j_directoryCapture e \<noteq> None then cleanupCompletedDirectoryRemoval e else io_return e)
         else if j_directoryCapture e \<noteq> None then finishDirectoryRemoval e
         else removeFolderFresh owner originalOwner target afterCaptureIntent afterCaptured)) (\<lambda>_. ?I) ?I" for r
    by (rule triple_assume, cases r) (use fresh rest in simp_all)
  show ?thesis
    unfolding journaledRemoveFolder_def
    by (rule triple_bind[OF triple_weaken[OF triple_load_from[OF stable_vacant_suffixes, where J = J and h = h and owner = owner], where R' = ?I]])
      (assumption, assumption, rule V(2), assumption, rule branch)
qed

text \<open>
  C3. Removing a folder loses no file, and no directory that is not its own to remove. Other
  processes may fill the folder, replace it, recreate its name, or put a foreign directory in
  its place between any two calls (they only stay out of the private containers, and an inode
  stays a file or a directory), calls may fail and the process may be killed, in the first
  attempt or in a later one: every file keeps a name, and so does every directory except the
  one that the original owner's entry proves this execution created at the target, the one
  that a stored entry of this removal already recorded, and the private containers. (The
  target's path and a stored container's path are in normal form, the hooks change nothing,
  and nothing lies below a container that is still to be made. That the folder is empty when
  it goes is what \<open>rmdir\<close> itself refuses otherwise.)
\<close>

theorem journaledRemoveFolder_loses_nothing:
  assumes "\<forall>s \<in> set segs. plain_seg s" "plain_seg x" "target = abs_path (segs @ [x])"
    and "readonly afterCaptureIntent" "readonly afterCaptured"
    and "removal_world j kd segs w" "\<forall>s \<in> set (suffixes w). vacant (container segs s) (disk w)"
    and "removal_spares j kd owner originalOwner target w"
  shows "alive j (disk (snd (journaledRemoveFolder owner originalOwner target afterCaptureIntent afterCaptured w)))"
proof -
  let ?m = "journaledRemoveFolder owner originalOwner target afterCaptureIntent afterCaptured"
  have "original_spares j kd target (journals w (sha256hex w originalOwner))" using assms(8) by (simp add: removal_spares_def)
  then have "triple (\<lambda>v. (journals v = journals w \<and> sha256hex v = sha256hex w) \<and>
      (\<exists>S. set (suffixes v) = S \<and> removal_vacant j kd segs S v)) ?m (\<lambda>_. removal_world j kd segs) (removal_world j kd segs)"
    by (rule triple_journaledRemoveFolder[OF assms(1-5)]) (rule stored_sparing[OF assms(8) _ _ _ assms(3,1,2)])
  then have "post (\<lambda>_. removal_world j kd segs) (removal_world j kd segs) (?m w)"
    by (rule triple_use) (use assms(6,7) in \<open>simp add: removal_vacant_def\<close>)
  then show ?thesis
    by (cases "?m w"; cases "fst (?m w)") (auto simp: removal_world_def keeper_def)
qed

text \<open>The witness: the folder \<open>/r/d\<close>, while a synchroniser makes another one.\<close>

definition synchroniser :: "fs \<Rightarrow> fs" where
  "synchroniser f = (case fs_mkdir ''/r/n'' f of Inl e \<Rightarrow> f | Inr d \<Rightarrow> d)"

definition shelf :: fs where
  "shelf = desk\<lparr>fs_entries := (''/r/d'', 0) # fs_entries desk\<rparr>"

definition removal_journals :: "string \<Rightarrow> journal_file" where
  "removal_journals = (\<lambda>k. if k = ''o1'' then JStored ((new_folder ''o1'' ''/r/d'')\<lparr>j_created := True,
       j_identity := Some (folder_identity (stats_of shelf 0)), j_state := COMPLETED\<rparr>) else JAbsent)"

definition shelf_world :: "perturb list \<Rightarrow> jworld" where
  "shelf_world ps = \<lparr>disk = shelf, sched = ps, suffixes = [''x1''], sha256hex = (\<lambda>b. b),
     journals = removal_journals, live = None\<rparr>"

lemma container_names: "container [''r''] s = ''/r/.nsn-remove-'' @ s"
  by (simp add: container_def abs_path_def remove_prefix_name_def slash_def)

lemma not_in_zone: "\<not> zone [''r''] ''/r/n''"
  by (simp add: zone_def under_def starts_with_def container_names)

lemma synchroniser_considerate: "considerate 5 RegularFile [''r''] synchroniser"
  unfolding considerate_def
proof (intro allI impI conjI)
  fix f assume k: "keeper 5 RegularFile f"
  show "keeper 5 RegularFile (synchroniser f)"
    using k by (cases "fs_mkdir ''/r/n'' f") (auto simp: synchroniser_def intro: keeper_mkdir)
  fix p assume "zone [''r''] p"
  then have "p \<noteq> ''/r/n''" using not_in_zone by auto
  then show "lookup (synchroniser f) p = lookup f p"
    using k by (cases "fs_mkdir ''/r/n'' f") (auto simp: synchroniser_def keeper_mkdir)
qed

theorem journaledRemoveFolder_loses_nothing_witness:
  "alive 5 (disk (snd (journaledRemoveFolder ''o2'' ''o1'' ''/r/d'' (io_return ()) (io_return ())
     (shelf_world [Quiet, Interfere synchroniser]))))"
proof (rule journaledRemoveFolder_loses_nothing[of "[''r'']" "''d''"])
  show "''/r/d'' = abs_path ([''r''] @ [''d''])" by (simp add: abs_path_def slash_def)
  show "plain_seg ''d''" by (simp add: plain_seg_def dot_def dotdot_def slash_def)
  have "alive 5 shelf" by (rule aliveI[of _ "''/r/e''"]) (simp add: shelf_def desk_def lookup_def)
  moreover have "i < fs_next shelf" if "lookup shelf p = Some i" for p i
    using that by (auto simp: shelf_def desk_def lookup_def split: if_splits)
  moreover have "node_kind (fs_node shelf 5) = RegularFile" by (simp add: shelf_def desk_def small_file_def)
  ultimately show "removal_world 5 RegularFile [''r''] (shelf_world [Quiet, Interfere synchroniser])"
    using synchroniser_considerate by (simp add: removal_world_def shelf_world_def keeper_def slash_def)
  show "removal_spares 5 RegularFile ''o2'' ''o1'' ''/r/d'' (shelf_world [Quiet, Interfere synchroniser])"
    by (simp add: removal_spares_def original_spares_def spares_def shelf_world_def removal_journals_def)
  have "lookup shelf p = None" if "under (container [''r''] ''x1'') p" for p
    using that by (auto simp: under_def starts_with_def container_names shelf_def desk_def lookup_def slash_def)
  then show "\<forall>s \<in> set (suffixes (shelf_world [Quiet, Interfere synchroniser])).
      vacant (container [''r''] s) (disk (shelf_world [Quiet, Interfere synchroniser]))"
    by (simp add: shelf_world_def vacant_def)
qed (simp_all add: keeps)

end
