(* ===== verification/Operations.thy ===== *)
theory Operations
  imports JournalSafety
begin

text \<open>
  \<open>bridge-app/src/filesystem/operations.ts\<close>: the preview, execution, undo and recovery
  of approved plans on a connected folder. Each operation runs under the authority lock of
  its root, so the registry file it reads stays the same while it runs; the disk does not.
\<close>

section \<open>The world of an operation\<close>

record oworld = jworld +
  reg_state :: registry_file
  working_dir :: string

definition io_try :: "('w, 'a) io \<Rightarrow> ('w, exn + 'a) io" where
  "io_try m = io_catch (io_bind m (\<lambda>x. io_return (Inr x))) (\<lambda>e. io_return (Inl e))"

text \<open>The registry is read from its file, which is one step; then it is asked.\<close>

definition ask_registry :: "(registry_file \<Rightarrow> (exn, 'a) result) \<Rightarrow> ('w oworld_scheme, 'a) io" where
  "ask_registry f = io_bind (scheduled (io_get reg_state)) (\<lambda>r. io_result (f r))"

definition require_permission :: "string \<Rightarrow> permission_key \<Rightarrow> ('w oworld_scheme, bridge_root) io" where
  "require_permission rootId k = ask_registry (requireRootPermission rootId k)"

definition require_execution :: "string \<Rightarrow> action_type list \<Rightarrow> ('w oworld_scheme, unit) io" where
  "require_execution rootId kinds = ask_registry (requireExecutionPermissions rootId kinds)"

text \<open>\<open>resolveInsideRoot\<close> looks at one state of the disk; the pair is relative and absolute path.\<close>

definition resolve_io :: "string \<Rightarrow> string \<Rightarrow> ('w oworld_scheme, string \<times> string) io" where
  "resolve_io root rel =
     scheduled (\<lambda>w. io_result (resolveInsideRoot (working_dir w) root rel False (disk w)) w)"

section \<open>Results\<close>

record validation_issue =
  iss_actionId :: "string option"
  iss_category :: error_code

datatype action_status = A_COMPLETED | A_FAILED | A_PENDING
datatype physical_effect = E_NONE | E_CHANGED | E_UNKNOWN
datatype any_action_type = ExecType action_type | UndoType undo_action_type

text \<open>
  The result of one action. An undo result has no \<open>createdFilesystemItem\<close>; there the field
  is \<open>None\<close>.
\<close>

record action_result =
  ar_actionId :: string
  ar_actionType :: any_action_type
  ar_createdFilesystemItem :: "bool option"
  ar_destinationChecksumAfter :: "string option"
  ar_destinationRelativePath :: string
  ar_lastModified :: "int option"
  ar_safeErrorCategory :: "error_code option"
  ar_sizeBytes :: "string option"
  ar_sourceChecksumBefore :: "string option"
  ar_sourceRelativePath :: "string option"
  ar_status :: action_status
  ar_physicalEffect :: physical_effect

datatype run_status = R_RECOVERY_REQUIRED | R_PARTIALLY_COMPLETED | R_FAILED | R_COMPLETED

record run_result =
  rr_actions :: "action_result list"
  rr_completedActions :: nat
  rr_failedActions :: nat
  rr_rootId :: string
  rr_status :: run_status
  rr_totalActions :: nat

definition category_of :: "error_code \<Rightarrow> exn \<Rightarrow> error_code" where
  "category_of fallback e = (case e of BridgeAppError c _ \<Rightarrow> c | _ \<Rightarrow> fallback)"

section \<open>Source integrity\<close>

text \<open>The content through the name: \<open>createReadStream\<close> follows links.\<close>

definition checksumFile :: "string \<Rightarrow> ('w world_scheme, string) io" where
  "checksumFile p =
     io_bind (sys_read (\<lambda>f. rbind (fs_realpath p f) (\<lambda>q.
        case lookup f q of None \<Rightarrow> Inl ENOENT
        | Some i \<Rightarrow> if node_kind (fs_node f i) = Directory then Inl EISDIR
            else if \<not> node_readable (fs_node f i) then Inl EACCES
            else Inr (node_bytes (fs_node f i))))) (\<lambda>bytes.
     io_bind (io_get sha256hex) (\<lambda>digest. io_return (digest bytes)))"

text \<open>A missing or unreadable date in the action is \<open>None\<close> and matches any time.\<close>

definition metadataMatches :: "plan_action \<Rightarrow> stats \<Rightarrow> bool" where
  "metadataMatches a st =
     (if (case pa_sourceSizeBytes a of None \<Rightarrow> False | Some n \<Rightarrow> n \<noteq> st_size st) then False
      else case pa_sourceLastModified a of None \<Rightarrow> True
        | Some t \<Rightarrow> \<bar>st_mtime st - t\<bar> \<le> 1000)"

definition validateSourceIntegrity ::
  "string \<Rightarrow> plan_action \<Rightarrow> ('w world_scheme, string option \<times> stats) io" where
  "validateSourceIntegrity sourcePath a =
     io_bind (io_try (lstat sourcePath)) (\<lambda>r.
     case r of Inl _ \<Rightarrow> io_throw (BridgeAppError MISSING_SOURCE 404)
     | Inr st \<Rightarrow>
         io_bind (io_guard (is_file st \<and> \<not> is_symlink st) (BridgeAppError SOURCE_NOT_FILE 422)) (\<lambda>_.
         io_bind (io_guard (metadataMatches a st) (BridgeAppError CHANGED_SOURCE 409)) (\<lambda>_.
         io_bind (if truthy (pa_sourceChecksum a) then io_bind (checksumFile sourcePath) (\<lambda>c. io_return (Some c))
                  else io_return None) (\<lambda>checksum.
         io_bind (io_guard (truthy (pa_sourceChecksum a) \<longrightarrow> checksum = pa_sourceChecksum a)
                   (BridgeAppError CHANGED_SOURCE 409)) (\<lambda>_.
         io_return (checksum, st))))))"

fun as_execution_type :: "undo_action_type \<Rightarrow> action_type" where
  "as_execution_type REMOVE_FOLDER = CREATE_FOLDER"
| "as_execution_type UNDO_MOVE_FILE = MOVE_FILE"
| "as_execution_type UNDO_RENAME_FILE = RENAME_FILE"

definition validateUndoSourceIntegrity ::
  "string \<Rightarrow> undo_action \<Rightarrow> ('w world_scheme, string option \<times> stats) io" where
  "validateUndoSourceIntegrity sourcePath a =
     validateSourceIntegrity sourcePath
       \<lparr>pa_id = ua_id a, pa_actionType = as_execution_type (ua_actionType a),
        pa_sourceRelativePath = Some (ua_sourceRelativePath a), pa_sourceChecksum = ua_sourceChecksum a,
        pa_sourceLastModified = ua_sourceLastModified a, pa_sourceSizeBytes = ua_sourceSizeBytes a,
        pa_destinationRelativePath = ua_destinationRelativePath a\<rparr>"

section \<open>Preview of an execution\<close>

definition issue :: "string \<Rightarrow> error_code \<Rightarrow> validation_issue" where
  "issue actionId c = \<lparr>iss_actionId = Some actionId, iss_category = c\<rparr>"

type_synonym issues = "validation_issue list"
type_synonym destinations = "(string \<times> string list) list"

text \<open>
  What the source of an action adds to the issues. The flag says that resolving it threw,
  which ends the look at this action.
\<close>

definition sourceIssues ::
  "string \<Rightarrow> plan_action \<Rightarrow> issues \<Rightarrow> ('w oworld_scheme, issues \<times> bool) io" where
  "sourceIssues root a iss =
     (if pa_actionType a = CREATE_FOLDER then io_return (iss, True)
      else
        io_bind (io_try (resolve_io root (coalesce (pa_sourceRelativePath a) []))) (\<lambda>r.
        case r of
          Inl e \<Rightarrow> io_return (iss @ [issue (pa_id a) (category_of VALIDATION_FAILED e)], False)
        | Inr (_, source) \<Rightarrow>
            io_bind (io_try (sys_read (fs_readable source))) (\<lambda>readable.
            let iss1 = (if isl readable then iss @ [issue (pa_id a) MISSING_SOURCE] else iss) in
            if issue (pa_id a) MISSING_SOURCE \<in> set iss1 then io_return (iss1, True)
            else
              io_bind (io_try (validateSourceIntegrity source a)) (\<lambda>v.
              case v of
                Inl e \<Rightarrow> io_return (iss1 @ [issue (pa_id a) (category_of VALIDATION_FAILED e)], True)
              | Inr _ \<Rightarrow> io_return (iss1, True)))))"

definition destinationIssues :: "string \<Rightarrow> plan_action \<Rightarrow> issues \<Rightarrow> ('w world_scheme, issues) io" where
  "destinationIssues destination a iss =
     io_bind (io_try (lstat destination)) (\<lambda>r.
     io_return (case r of Inl _ \<Rightarrow> iss
       | Inr st \<Rightarrow> if pa_actionType a = CREATE_FOLDER \<and> is_directory st then iss
                   else iss @ [issue (pa_id a) DESTINATION_CONFLICT]))"

fun previewActions ::
  "string \<Rightarrow> plan_action list \<Rightarrow> issues \<Rightarrow> destinations \<Rightarrow> ('w oworld_scheme, issues \<times> destinations) io" where
  "previewActions root [] iss dests = io_return (iss, dests)"
| "previewActions root (a # as) iss dests =
     io_bind (io_try (resolve_io root (pa_destinationRelativePath a))) (\<lambda>r.
     case r of
       Inl e \<Rightarrow> previewActions root as (iss @ [issue (pa_id a) (category_of VALIDATION_FAILED e)]) dests
     | Inr (rel, destination) \<Rightarrow>
         let dests' = map_push dests rel (pa_id a) in
         io_bind (sourceIssues root a iss) (\<lambda>(iss1, goOn).
         if \<not> goOn then previewActions root as iss1 dests'
         else io_bind (destinationIssues destination a iss1) (\<lambda>iss2. previewActions root as iss2 dests')))"

definition duplicateIssues :: "error_code \<Rightarrow> destinations \<Rightarrow> issues" where
  "duplicateIssues c dests =
     concat (map (\<lambda>(_, ids). if length ids > 1 then map (\<lambda>i. issue i c) ids else []) dests)"

record execution_preview =
  pv_canExecute :: bool
  pv_issues :: issues
  pv_rootId :: string
  pv_totalActions :: nat

definition previewBridgeExecution :: "string \<Rightarrow> plan_action list \<Rightarrow> ('w oworld_scheme, execution_preview) io" where
  "previewBridgeExecution rootId actions =
     io_bind (require_permission rootId ReadPermission) (\<lambda>_.
     io_bind (require_execution rootId (map pa_actionType actions)) (\<lambda>_.
     io_bind (require_permission rootId ReadPermission) (\<lambda>root.
     io_bind (previewActions (actualPath root) actions [] []) (\<lambda>(iss, dests).
     let all_issues = iss @ duplicateIssues DUPLICATE_DESTINATION dests in
     io_return \<lparr>pv_canExecute = (is_nil all_issues \<and> \<not> is_nil actions), pv_issues = all_issues,
       pv_rootId = rootId, pv_totalActions = length actions\<rparr>))))"

definition assertBridgeExecutionAllowed :: "string \<Rightarrow> plan_action list \<Rightarrow> ('w oworld_scheme, execution_preview) io" where
  "assertBridgeExecutionAllowed rootId actions =
     io_bind (previewBridgeExecution rootId actions) (\<lambda>p.
     io_bind (io_guard (pv_canExecute p) (BridgeAppError EXECUTION_BLOCKED 422)) (\<lambda>_. io_return p))"

section \<open>Execution\<close>

fun executionOrder :: "action_type \<Rightarrow> nat" where
  "executionOrder CREATE_FOLDER = 10"
| "executionOrder MOVE_FILE = 30"
| "executionOrder RENAME_FILE = 40"
| "executionOrder MOVE_AND_RENAME_FILE = 50"

text \<open>
  The comparator of the execution order; \<open>lc\<close> is \<open>localeCompare\<close>, whose collation the
  JavaScript engine chooses.
\<close>

definition compare_actions :: "(string \<Rightarrow> string \<Rightarrow> int) \<Rightarrow> plan_action \<Rightarrow> plan_action \<Rightarrow> int" where
  "compare_actions lc a b =
     (let d = int (executionOrder (pa_actionType a)) - int (executionOrder (pa_actionType b)) in
      if d \<noteq> 0 then d
      else let e = lc (pa_destinationRelativePath a) (pa_destinationRelativePath b) in
        if e \<noteq> 0 then e else lc (pa_id a) (pa_id b))"

definition pending_result :: "plan_action \<Rightarrow> action_result" where
  "pending_result a =
     \<lparr>ar_actionId = pa_id a, ar_actionType = ExecType (pa_actionType a), ar_createdFilesystemItem = Some False,
      ar_destinationChecksumAfter = None, ar_destinationRelativePath = pa_destinationRelativePath a,
      ar_lastModified = None, ar_safeErrorCategory = None, ar_sizeBytes = None,
      ar_sourceChecksumBefore = None, ar_sourceRelativePath = pa_sourceRelativePath a,
      ar_status = A_PENDING, ar_physicalEffect = E_NONE\<rparr>"

text \<open>
  \<open>new Map(results.map(item => [item.actionId, item]))\<close>: an id names the last result that
  carries it, and the loop changes that result in place.
\<close>

definition set_result :: "string \<Rightarrow> (action_result \<Rightarrow> action_result) \<Rightarrow> action_result list \<Rightarrow> action_result list" where
  "set_result i f rs = rev (update_first (\<lambda>r. ar_actionId r = i) f (rev rs))"

definition get_result :: "string \<Rightarrow> action_result list \<Rightarrow> action_result option" where
  "get_result i rs = find (\<lambda>r. ar_actionId r = i) (rev rs)"

definition execution_owner :: "string \<Rightarrow> string \<Rightarrow> string" where
  "execution_owner rootId actionId = ''execution:'' @ rootId @ '':'' @ actionId"

definition undo_owner :: "string \<Rightarrow> string \<Rightarrow> string" where
  "undo_owner rootId actionId = ''undo:'' @ rootId @ '':'' @ actionId"

text \<open>What a completed move writes into its result.\<close>

definition moved_patch :: "journal \<Rightarrow> action_result \<Rightarrow> action_result" where
  "moved_patch e r = r\<lparr>ar_sourceChecksumBefore := map_option id_checksum (j_identity e),
     ar_destinationChecksumAfter := map_option id_checksum (j_identity e),
     ar_lastModified := j_modifiedAt e, ar_sizeBytes := j_sizeBytes e\<rparr>"

definition completed_patch :: "physical_effect \<Rightarrow> action_result \<Rightarrow> action_result" where
  "completed_patch effect r = r\<lparr>ar_status := A_COMPLETED, ar_physicalEffect := effect\<rparr>"

text \<open>The body of the execution loop's \<open>try\<close>: what it does to the result when it succeeds.\<close>

definition performAction ::
  "string \<Rightarrow> string \<Rightarrow> plan_action \<Rightarrow> ('w oworld_scheme, action_result \<Rightarrow> action_result) io" where
  "performAction rootId rootPath a =
     io_bind (require_permission rootId ReadPermission) (\<lambda>_.
     io_bind (require_execution rootId [pa_actionType a]) (\<lambda>_.
     io_bind (resolve_io rootPath (pa_destinationRelativePath a)) (\<lambda>(_, destination).
     let owner = execution_owner rootId (pa_id a) in
     io_bind (hasPhysicalActionJournal owner) (\<lambda>hasJournal.
     io_bind (io_try (lstat destination)) (\<lambda>st.
     io_bind (io_guard (hasJournal \<or> isl st \<or>
         (pa_actionType a = CREATE_FOLDER \<and> is_directory (projr st))) (BridgeAppError DESTINATION_CONFLICT 409)) (\<lambda>_.
     if pa_actionType a = CREATE_FOLDER then
       io_bind (journaledCreateFolder owner destination) (\<lambda>e.
       io_return (\<lambda>r. completed_patch (if j_created e then E_CHANGED else E_NONE)
         (r\<lparr>ar_createdFilesystemItem := Some (j_created e)\<rparr>)))
     else
       io_bind (resolve_io rootPath (coalesce (pa_sourceRelativePath a) [])) (\<lambda>(_, source).
       io_bind (if hasJournal then io_return () else
           io_bind (validateSourceIntegrity source a) (\<lambda>_. io_return ())) (\<lambda>_.
       io_bind (journaledMove owner source destination (pa_sourceChecksum a) (io_return ()) (io_return ())) (\<lambda>e.
       io_return (\<lambda>r. completed_patch E_CHANGED (moved_patch e r)))))))))))"

section \<open>Bindings and settlement\<close>

datatype physical_action = PlanAction plan_action | UndoAction undo_action

fun phys_id :: "physical_action \<Rightarrow> string" where
  "phys_id (PlanAction a) = pa_id a"
| "phys_id (UndoAction a) = ua_id a"

text \<open>The fields \<open>physicalActionBinding\<close> reads: kind, source, destination and checksum.\<close>

fun binding_fields :: "physical_action \<Rightarrow> journal_kind \<times> string option \<times> string \<times> string option" where
  "binding_fields (PlanAction a) =
     (if pa_actionType a = CREATE_FOLDER then CREATE_FOLDER_J else MOVE,
      pa_sourceRelativePath a, pa_destinationRelativePath a, pa_sourceChecksum a)"
| "binding_fields (UndoAction a) =
     (if ua_actionType a = REMOVE_FOLDER then REMOVE_FOLDER_J else MOVE,
      Some (ua_sourceRelativePath a), ua_destinationRelativePath a, ua_sourceChecksum a)"

definition absolute_path :: "string \<Rightarrow> string \<Rightarrow> string \<Rightarrow> (exn, string) result" where
  "absolute_path cwd rootPath rel =
     rbind (normalizeRelativePath rel False) (\<lambda>n.
       Inr (posix_normalize (posix_resolve cwd (rootPath # split_on slash n))))"

definition physicalActionBinding ::
  "string \<Rightarrow> string \<Rightarrow> physical_action \<Rightarrow> string option \<Rightarrow> (exn, action_binding) result" where
  "physicalActionBinding cwd rootPath act originalOwner =
     (case binding_fields act of (kind, src, dst, checksum) \<Rightarrow>
        rbind (absolute_path cwd rootPath dst) (\<lambda>destination.
        rbind (if kind = REMOVE_FOLDER_J then Inr (Some destination)
               else if truthy src then rbind (absolute_path cwd rootPath (the src)) (\<lambda>p. Inr (Some p))
               else Inr None) (\<lambda>source.
        Inr \<lparr>b_kind = kind, b_source = source, b_destination = destination, b_checksum = checksum,
             b_originalOwner = originalOwner\<rparr>)))"

text \<open>
  The owner of the folder that a removal undoes; an action without the id gives none.
\<close>

fun original_owner :: "string \<Rightarrow> physical_action \<Rightarrow> string option" where
  "original_owner rootId (PlanAction a) = None"
| "original_owner rootId (UndoAction a) =
     (if ua_actionType a = REMOVE_FOLDER
      then map_option (execution_owner rootId) (ua_originalExecutionActionId a) else None)"

fun physical_owner :: "bool \<Rightarrow> string \<Rightarrow> physical_action \<Rightarrow> string" where
  "physical_owner undo rootId act = (if undo then undo_owner rootId (phys_id act) else execution_owner rootId (phys_id act))"

definition recover_bound ::
  "bool \<Rightarrow> string \<Rightarrow> string \<Rightarrow> physical_action \<Rightarrow> ('w oworld_scheme, journal option) io" where
  "recover_bound undo rootId rootPath act =
     io_bind (io_get working_dir) (\<lambda>cwd.
     io_bind (io_result (physicalActionBinding cwd rootPath act (original_owner rootId act))) (\<lambda>b.
     recoverPhysicalAction (physical_owner undo rootId act) (Some b)))"

text \<open>What a verified entry writes into the result of its action.\<close>

definition settled_patch :: "journal \<Rightarrow> action_result \<Rightarrow> action_result" where
  "settled_patch e r =
     r\<lparr>ar_status := A_COMPLETED, ar_safeErrorCategory := None,
       ar_physicalEffect := (if j_kind e = CREATE_FOLDER_J \<and> \<not> j_created e then E_NONE else E_CHANGED),
       ar_createdFilesystemItem := map_option (\<lambda>_. j_created e) (ar_createdFilesystemItem r),
       ar_sourceChecksumBefore := (if j_kind e = MOVE then map_option id_checksum (j_identity e) else None),
       ar_destinationChecksumAfter := (if j_kind e = MOVE then map_option id_checksum (j_identity e) else None),
       ar_lastModified := j_modifiedAt e, ar_sizeBytes := j_sizeBytes e\<rparr>"

definition uncertain_patch :: "action_result \<Rightarrow> action_result" where
  "uncertain_patch r = r\<lparr>ar_status := A_PENDING, ar_physicalEffect := E_UNKNOWN,
     ar_safeErrorCategory := Some COMMAND_RECOVERY_REQUIRED\<rparr>"

definition settleFailedPhysicalAction ::
  "string \<Rightarrow> string \<Rightarrow> physical_action \<Rightarrow> bool \<Rightarrow> ('w oworld_scheme, action_result \<Rightarrow> action_result) io" where
  "settleFailedPhysicalAction rootId rootPath act undo =
     io_catch
       (io_bind (hasPhysicalActionJournal (physical_owner undo rootId act)) (\<lambda>hasJournal.
        if \<not> hasJournal then io_return (\<lambda>r. r\<lparr>ar_status := A_FAILED, ar_physicalEffect := E_NONE\<rparr>)
        else
          io_bind (recover_bound undo rootId rootPath act) (\<lambda>entry.
          case entry of None \<Rightarrow> io_return uncertain_patch | Some e \<Rightarrow> io_return (settled_patch e))))
       (\<lambda>_. io_return uncertain_patch)"

text \<open>
  One turn of a loop: perform, or on a throw record the category and settle. The flag says
  whether the loop goes on.
\<close>

definition attempt ::
  "('w oworld_scheme, action_result \<Rightarrow> action_result) io
    \<Rightarrow> string \<Rightarrow> string \<Rightarrow> physical_action \<Rightarrow> bool
    \<Rightarrow> ('w oworld_scheme, (action_result \<Rightarrow> action_result) \<times> bool) io" where
  "attempt perform rootId rootPath act undo =
     io_bind (io_try perform) (\<lambda>r.
     case r of
       Inr f \<Rightarrow> io_return (f, True)
     | Inl e \<Rightarrow>
         io_bind (settleFailedPhysicalAction rootId rootPath act undo) (\<lambda>f.
         io_return (\<lambda>r. f (r\<lparr>ar_safeErrorCategory := Some (category_of FILESYSTEM_OPERATION_FAILED e)\<rparr>), False)))"

fun executeLoop ::
  "string \<Rightarrow> string \<Rightarrow> plan_action list \<Rightarrow> action_result list \<Rightarrow> ('w oworld_scheme, action_result list) io" where
  "executeLoop rootId rootPath [] rs = io_return rs"
| "executeLoop rootId rootPath (a # as) rs =
     io_bind (attempt (performAction rootId rootPath a) rootId rootPath (PlanAction a) False) (\<lambda>(f, goOn).
     if goOn then executeLoop rootId rootPath as (set_result (pa_id a) f rs)
     else io_return (set_result (pa_id a) f rs))"

definition count_status :: "action_status \<Rightarrow> action_result list \<Rightarrow> nat" where
  "count_status st rs = length (filter (\<lambda>r. ar_status r = st) rs)"

definition run_status_of :: "action_result list \<Rightarrow> run_status" where
  "run_status_of rs =
     (if \<exists>r \<in> set rs. ar_safeErrorCategory r = Some COMMAND_RECOVERY_REQUIRED then R_RECOVERY_REQUIRED
      else if count_status A_FAILED rs > 0
      then (if count_status A_COMPLETED rs > 0 then R_PARTIALLY_COMPLETED else R_FAILED)
      else R_COMPLETED)"

definition run_result_of :: "string \<Rightarrow> nat \<Rightarrow> action_result list \<Rightarrow> run_result" where
  "run_result_of rootId n rs =
     \<lparr>rr_actions = rs, rr_completedActions = count_status A_COMPLETED rs,
      rr_failedActions = count_status A_FAILED rs, rr_rootId = rootId,
      rr_status = run_status_of rs, rr_totalActions = n\<rparr>"

text \<open>The actions without a journal, in order.\<close>

fun unstarted :: "('a \<Rightarrow> string) \<Rightarrow> 'a list \<Rightarrow> ('w jworld_scheme, 'a list) io" where
  "unstarted owner [] = io_return []"
| "unstarted owner (a # as) =
     io_bind (hasPhysicalActionJournal (owner a)) (\<lambda>has.
     io_bind (unstarted owner as) (\<lambda>rest. io_return (if has then rest else a # rest)))"

definition executeBridgePlanActionsOwned ::
  "(string \<Rightarrow> string \<Rightarrow> int) \<Rightarrow> string \<Rightarrow> plan_action list \<Rightarrow> ('w oworld_scheme, run_result) io" where
  "executeBridgePlanActionsOwned lc rootId actions =
     io_bind (unstarted (\<lambda>a. execution_owner rootId (pa_id a)) actions) (\<lambda>new.
     io_bind (if is_nil new then io_return () else
         io_bind (assertBridgeExecutionAllowed rootId new) (\<lambda>_. io_return ())) (\<lambda>_.
     io_bind (require_permission rootId ReadPermission) (\<lambda>root.
     let ordered = sort_cmp (compare_actions lc) actions in
     io_bind (executeLoop rootId (actualPath root) ordered (map pending_result ordered)) (\<lambda>rs.
     io_return (run_result_of rootId (length actions) rs)))))"

definition stale_revision :: "nat option \<Rightarrow> bridge_root \<Rightarrow> bool" where
  "stale_revision expected root \<longleftrightarrow>
     (case expected of None \<Rightarrow> False | Some r \<Rightarrow> r \<noteq> coalesce (connectionRevision root) 0)"

definition executeBridgePlanActions ::
  "(string \<Rightarrow> string \<Rightarrow> int) \<Rightarrow> string \<Rightarrow> plan_action list \<Rightarrow> nat option \<Rightarrow> ('w oworld_scheme, run_result) io" where
  "executeBridgePlanActions lc rootId actions expectedRootRevision =
     io_bind (require_permission rootId ReadPermission) (\<lambda>root.
     io_bind (io_guard (\<not> stale_revision expectedRootRevision root) (BridgeAppError ROOT_AUTHORITY_CHANGED 409)) (\<lambda>_.
     executeBridgePlanActionsOwned lc rootId actions))"

section \<open>Undo\<close>

definition undoPermissionAction :: "undo_action \<Rightarrow> action_type" where
  "undoPermissionAction a = as_execution_type (ua_actionType a)"

text \<open>
  The entries that earlier actions of the same undo take out of a folder: the base names of
  the sources before this index whose parent is the folder.
\<close>

definition clearedBefore :: "undo_action list \<Rightarrow> string \<Rightarrow> string list" where
  "clearedBefore earlier folder =
     map (\<lambda>b. posix_basename (ua_sourceRelativePath b))
       (filter (\<lambda>b. posix_dirname (ua_sourceRelativePath b) = folder) earlier)"

definition removalIssues ::
  "undo_action list \<Rightarrow> undo_action \<Rightarrow> string \<Rightarrow> string \<Rightarrow> issues \<Rightarrow> ('w world_scheme, issues) io" where
  "removalIssues earlier a rel source iss =
     io_bind (io_try (lstat source)) (\<lambda>r.
     if (case r of Inl _ \<Rightarrow> True | Inr st \<Rightarrow> \<not> is_directory st \<or> is_symlink st)
     then io_return (iss @ [issue (ua_id a) MISSING_SOURCE])
     else
       io_bind (io_try (sys_readdir source)) (\<lambda>entries.
       io_return (case entries of
           Inl _ \<Rightarrow> iss @ [issue (ua_id a) FOLDER_NOT_EMPTY]
         | Inr names \<Rightarrow>
             if \<not> is_nil names \<and> \<not> list_all (\<lambda>n. n \<in> set (clearedBefore earlier rel)) names
             then iss @ [issue (ua_id a) FOLDER_NOT_EMPTY] else iss)))"

definition restoreIssues ::
  "string \<Rightarrow> undo_action \<Rightarrow> string \<Rightarrow> issues \<Rightarrow> destinations \<Rightarrow> ('w oworld_scheme, issues \<times> destinations) io" where
  "restoreIssues root a source iss dests =
     io_bind (io_try (validateUndoSourceIntegrity source a)) (\<lambda>v.
     let iss1 = (case v of Inl e \<Rightarrow> iss @ [issue (ua_id a) (category_of VALIDATION_FAILED e)] | Inr _ \<Rightarrow> iss) in
     io_bind (io_try (resolve_io root (ua_destinationRelativePath a))) (\<lambda>r.
     case r of
       Inl e \<Rightarrow> io_return (iss1 @ [issue (ua_id a) (category_of VALIDATION_FAILED e)], dests)
     | Inr (rel, destination) \<Rightarrow>
         io_bind (io_try (sys_read (fs_realpath destination))) (\<lambda>there.
         io_return (if isl there then iss1 else iss1 @ [issue (ua_id a) DESTINATION_CONFLICT],
           map_push dests rel (ua_id a)))))"

fun previewUndoActions ::
  "string \<Rightarrow> undo_action list \<Rightarrow> undo_action list \<Rightarrow> issues \<Rightarrow> destinations
    \<Rightarrow> ('w oworld_scheme, issues \<times> destinations) io" where
  "previewUndoActions root earlier [] iss dests = io_return (iss, dests)"
| "previewUndoActions root earlier (a # as) iss dests =
     io_bind (io_try (resolve_io root (ua_sourceRelativePath a))) (\<lambda>r.
     case r of
       Inl e \<Rightarrow> previewUndoActions root (earlier @ [a]) as (iss @ [issue (ua_id a) (category_of VALIDATION_FAILED e)]) dests
     | Inr (rel, source) \<Rightarrow>
         if ua_actionType a = REMOVE_FOLDER then
           io_bind (removalIssues earlier a rel source iss) (\<lambda>iss1.
           previewUndoActions root (earlier @ [a]) as iss1 dests)
         else
           io_bind (restoreIssues root a source iss dests) (\<lambda>(iss1, dests1).
           previewUndoActions root (earlier @ [a]) as iss1 dests1))"

definition previewBridgeUndo :: "string \<Rightarrow> undo_action list \<Rightarrow> ('w oworld_scheme, execution_preview) io" where
  "previewBridgeUndo rootId actions =
     io_bind (require_permission rootId ReadPermission) (\<lambda>_.
     io_bind (require_execution rootId (map undoPermissionAction actions)) (\<lambda>_.
     io_bind (require_permission rootId ReadPermission) (\<lambda>root.
     io_bind (previewUndoActions (actualPath root) [] actions [] []) (\<lambda>(iss, dests).
     let all_issues = iss @ duplicateIssues DUPLICATE_UNDO_DESTINATION dests in
     io_return \<lparr>pv_canExecute = (is_nil all_issues \<and> \<not> is_nil actions), pv_issues = all_issues,
       pv_rootId = rootId, pv_totalActions = length actions\<rparr>))))"

datatype folder_name_state = ABSENT | REOCCUPIED | UNVERIFIED

definition inspectUndoFolderName :: "string \<Rightarrow> string \<Rightarrow> ('w oworld_scheme, folder_name_state) io" where
  "inspectUndoFolderName rootPath rel =
     io_bind (io_try (resolve_io rootPath rel)) (\<lambda>r.
     case r of Inl _ \<Rightarrow> io_return UNVERIFIED
     | Inr (_, target) \<Rightarrow>
         io_bind (io_try (lstat target)) (\<lambda>st.
         io_return (case st of Inr _ \<Rightarrow> REOCCUPIED
           | Inl e \<Rightarrow> if e = SysError ENOENT then ABSENT else UNVERIFIED)))"

definition pending_undo_result :: "undo_action \<Rightarrow> action_result" where
  "pending_undo_result a =
     \<lparr>ar_actionId = ua_id a, ar_actionType = UndoType (ua_actionType a), ar_createdFilesystemItem = None,
      ar_destinationChecksumAfter = None, ar_destinationRelativePath = ua_destinationRelativePath a,
      ar_lastModified = None, ar_safeErrorCategory = None, ar_sizeBytes = None,
      ar_sourceChecksumBefore = None, ar_sourceRelativePath = Some (ua_sourceRelativePath a),
      ar_status = A_PENDING, ar_physicalEffect = E_NONE\<rparr>"

definition performUndo ::
  "string \<Rightarrow> string \<Rightarrow> undo_action \<Rightarrow> ('w oworld_scheme, action_result \<Rightarrow> action_result) io" where
  "performUndo rootId rootPath a =
     io_bind (require_permission rootId ReadPermission) (\<lambda>_.
     io_bind (require_execution rootId [undoPermissionAction a]) (\<lambda>_.
     io_bind (resolve_io rootPath (ua_sourceRelativePath a)) (\<lambda>(_, source).
     let owner = undo_owner rootId (ua_id a) in
     if ua_actionType a = REMOVE_FOLDER then
       io_bind (io_guard (truthy (ua_originalExecutionActionId a)) PhysicalRecoveryRequired) (\<lambda>_.
       io_bind (journaledRemoveFolder owner (execution_owner rootId (the (ua_originalExecutionActionId a)))
           source (io_return ()) (io_return ())) (\<lambda>_.
       io_return (completed_patch E_CHANGED)))
     else
       io_bind (hasPhysicalActionJournal owner) (\<lambda>hasJournal.
       io_bind (if hasJournal then io_return () else
           io_bind (validateUndoSourceIntegrity source a) (\<lambda>_. io_return ())) (\<lambda>_.
       io_bind (resolve_io rootPath (ua_destinationRelativePath a)) (\<lambda>(_, destination).
       io_bind (journaledMove owner source destination (ua_sourceChecksum a) (io_return ()) (io_return ())) (\<lambda>e.
       io_return (\<lambda>r. completed_patch E_CHANGED (moved_patch e r)))))))))"

fun undoLoop ::
  "string \<Rightarrow> string \<Rightarrow> undo_action list \<Rightarrow> action_result list \<Rightarrow> ('w oworld_scheme, action_result list) io" where
  "undoLoop rootId rootPath [] rs = io_return rs"
| "undoLoop rootId rootPath (a # as) rs =
     io_bind (attempt (performUndo rootId rootPath a) rootId rootPath (UndoAction a) True) (\<lambda>(f, goOn).
     if goOn then undoLoop rootId rootPath as (set_result (ua_id a) f rs)
     else io_return (set_result (ua_id a) f rs))"

text \<open>After the last action every completed removal is looked at again.\<close>

definition folder_name_patch :: "folder_name_state \<Rightarrow> action_result \<Rightarrow> action_result" where
  "folder_name_patch st r =
     (case st of ABSENT \<Rightarrow> r
      | REOCCUPIED \<Rightarrow> r\<lparr>ar_safeErrorCategory := Some UNDO_FOLDER_NAME_REOCCUPIED\<rparr>
      | UNVERIFIED \<Rightarrow> r\<lparr>ar_safeErrorCategory := Some UNDO_FOLDER_POSTCONDITION_UNVERIFIED\<rparr>)"

fun inspectRemovals ::
  "string \<Rightarrow> undo_action list \<Rightarrow> action_result list \<Rightarrow> ('w oworld_scheme, action_result list) io" where
  "inspectRemovals rootPath [] rs = io_return rs"
| "inspectRemovals rootPath (a # as) rs =
     (if ua_actionType a \<noteq> REMOVE_FOLDER \<or>
         map_option ar_status (get_result (ua_id a) rs) \<noteq> Some A_COMPLETED
      then inspectRemovals rootPath as rs
      else
        io_bind (inspectUndoFolderName rootPath (ua_sourceRelativePath a)) (\<lambda>st.
        inspectRemovals rootPath as (set_result (ua_id a) (folder_name_patch st) rs)))"

definition executeBridgeUndoActionsOwned :: "string \<Rightarrow> undo_action list \<Rightarrow> ('w oworld_scheme, run_result) io" where
  "executeBridgeUndoActionsOwned rootId actions =
     io_bind (unstarted (\<lambda>a. undo_owner rootId (ua_id a)) actions) (\<lambda>new.
     io_bind (if is_nil new then io_return True else
         io_bind (previewBridgeUndo rootId new) (\<lambda>p. io_return (pv_canExecute p))) (\<lambda>canUndo.
     io_bind (io_guard canUndo (BridgeAppError EXECUTION_BLOCKED 422)) (\<lambda>_.
     io_bind (require_permission rootId ReadPermission) (\<lambda>root.
     io_bind (undoLoop rootId (actualPath root) actions (map pending_undo_result actions)) (\<lambda>rs.
     io_bind (inspectRemovals (actualPath root) actions rs) (\<lambda>rs'.
     io_return (run_result_of rootId (length actions) rs')))))))"

definition executeBridgeUndoActions ::
  "string \<Rightarrow> undo_action list \<Rightarrow> nat option \<Rightarrow> ('w oworld_scheme, run_result) io" where
  "executeBridgeUndoActions rootId actions expectedRootRevision =
     io_bind (require_permission rootId ReadPermission) (\<lambda>root.
     io_bind (io_guard (\<not> stale_revision expectedRootRevision root) (BridgeAppError ROOT_AUTHORITY_CHANGED 409)) (\<lambda>_.
     executeBridgeUndoActionsOwned rootId actions))"

section \<open>Historical recovery\<close>

definition interrupted_result :: "physical_action \<Rightarrow> action_result" where
  "interrupted_result act =
     (let r = (case act of PlanAction a \<Rightarrow> pending_result a | UndoAction a \<Rightarrow> pending_undo_result a) in
      r\<lparr>ar_createdFilesystemItem := Some False, ar_safeErrorCategory := Some COMMAND_INTERRUPTED,
        ar_physicalEffect := E_UNKNOWN\<rparr>)"

definition recoverOne ::
  "string \<Rightarrow> string \<Rightarrow> bool \<Rightarrow> bool \<Rightarrow> physical_action \<Rightarrow> ('w oworld_scheme, action_result) io" where
  "recoverOne rootId rootPath undo neverStarted act =
     io_bind (io_try (recover_bound undo rootId rootPath act)) (\<lambda>r.
     io_return (case r of
         Inl _ \<Rightarrow> (interrupted_result act)\<lparr>ar_status := A_PENDING,
             ar_safeErrorCategory := Some COMMAND_RECOVERY_REQUIRED\<rparr>
       | Inr None \<Rightarrow> if neverStarted
           then (interrupted_result act)\<lparr>ar_status := A_FAILED, ar_physicalEffect := E_NONE\<rparr>
           else interrupted_result act
       | Inr (Some e) \<Rightarrow> if j_state e = COMPLETED then settled_patch e (interrupted_result act)
           else interrupted_result act))"

fun recoverAll ::
  "string \<Rightarrow> string \<Rightarrow> bool \<Rightarrow> bool \<Rightarrow> physical_action list \<Rightarrow> ('w oworld_scheme, action_result list) io" where
  "recoverAll rootId rootPath undo neverStarted [] = io_return []"
| "recoverAll rootId rootPath undo neverStarted (a # as) =
     io_bind (recoverOne rootId rootPath undo neverStarted a) (\<lambda>r.
     io_bind (recoverAll rootId rootPath undo neverStarted as) (\<lambda>rs. io_return (r # rs)))"

definition recovery_status_of :: "action_result list \<Rightarrow> run_status" where
  "recovery_status_of rs =
     (if \<exists>r \<in> set rs. ar_status r = A_PENDING then R_RECOVERY_REQUIRED
      else if count_status A_COMPLETED rs = length rs then R_COMPLETED
      else if count_status A_COMPLETED rs > 0 then R_PARTIALLY_COMPLETED else R_FAILED)"

definition recoverBridgePhysicalActions ::
  "string \<Rightarrow> physical_action list \<Rightarrow> bool \<Rightarrow> bool \<Rightarrow> ('w oworld_scheme, run_result) io" where
  "recoverBridgePhysicalActions rootId actions undo neverStarted =
     io_bind (ask_registry (getRoot rootId)) (\<lambda>root.
     io_bind (recoverAll rootId (actualPath root) undo neverStarted actions) (\<lambda>rs.
     io_return ((run_result_of rootId (length rs) rs)\<lparr>rr_status := recovery_status_of rs\<rparr>)))"

end
