(* ===== verification/EventOutbox.thy ===== *)
theory EventOutbox
  imports BridgeTypes
begin

text \<open>
  \<open>bridge-app/src/watcher/event-outbox.ts\<close>: the durable outbox of watcher events. The file
  is a value here: absent, or the parse of its text (\<open>None\<close> when that is no JSON). Every
  mutation is the body of \<open>mutateOutbox\<close>, which holds the lock of the file, so a mutation
  is one transition. A mutation is told how its write of the file ends (\<open>writeLocalJson\<close>).
\<close>

section \<open>The file\<close>

datatype outbox_file = NoOutbox | OutboxText "json option"

definition maxOutboxEvents :: nat where "maxOutboxEvents = 1000"

fun event_type_name :: "event_type \<Rightarrow> string" where
  "event_type_name FILE_ADDED = ''FILE_ADDED''"
| "event_type_name FILE_MODIFIED = ''FILE_MODIFIED''"
| "event_type_name FILE_RENAMED = ''FILE_RENAMED''"
| "event_type_name FILE_MOVED = ''FILE_MOVED''"
| "event_type_name FILE_DELETED = ''FILE_DELETED''"
| "event_type_name FOLDER_ADDED = ''FOLDER_ADDED''"
| "event_type_name FOLDER_RENAMED = ''FOLDER_RENAMED''"
| "event_type_name FOLDER_MOVED = ''FOLDER_MOVED''"
| "event_type_name FOLDER_DELETED = ''FOLDER_DELETED''"

definition event_types :: "event_type list" where
  "event_types = [FILE_ADDED, FILE_MODIFIED, FILE_RENAMED, FILE_MOVED, FILE_DELETED,
     FOLDER_ADDED, FOLDER_RENAMED, FOLDER_MOVED, FOLDER_DELETED]"

definition event_type_of :: "string \<Rightarrow> event_type option" where
  "event_type_of s = find (\<lambda>t. event_type_name t = s) event_types"

definition string_field :: "string \<Rightarrow> (string \<times> json) list \<Rightarrow> string option" where
  "string_field k obj = (case map_of obj k of Some (JStr s) \<Rightarrow> Some s | _ \<Rightarrow> None)"

text \<open>
  \<open>validEvent\<close> with the event it admits: an object whose four text fields are strings and
  whose type is one of the nine.
\<close>

definition event_of_json :: "json \<Rightarrow> change_event option" where
  "event_of_json value = (case value of
     JObj obj \<Rightarrow>
       (case (string_field ''id'' obj, string_field ''rootId'' obj, string_field ''relativePath'' obj,
              string_field ''detectedAt'' obj, Option.bind (string_field ''eventType'' obj) event_type_of) of
          (Some i, Some r, Some p, Some d, Some t) \<Rightarrow>
            Some \<lparr>event_id = i, event_rootId = r, event_type = t, event_relativePath = p, event_detectedAt = d\<rparr>
        | _ \<Rightarrow> None)
   | _ \<Rightarrow> None)"

definition validEvent :: "json \<Rightarrow> bool" where
  "validEvent value \<longleftrightarrow> event_of_json value \<noteq> None"

definition readOutbox :: "outbox_file \<Rightarrow> (exn, change_event list) result" where
  "readOutbox file = (case file of
     NoOutbox \<Rightarrow> Inr []
   | OutboxText None \<Rightarrow> Inl PlainError
   | OutboxText (Some (JObj obj)) \<Rightarrow>
       (case map_of obj ''events'' of
          Some (JArr vs) \<Rightarrow> if list_all validEvent vs then Inr (map (the \<circ> event_of_json) vs) else Inl PlainError
        | _ \<Rightarrow> Inl PlainError)
   | OutboxText (Some _) \<Rightarrow> Inl PlainError)"

definition json_of_event :: "change_event \<Rightarrow> json" where
  "json_of_event e = JObj [(''detectedAt'', JStr (event_detectedAt e)),
     (''eventType'', JStr (event_type_name (event_type e))), (''id'', JStr (event_id e)),
     (''relativePath'', JStr (event_relativePath e)), (''rootId'', JStr (event_rootId e))]"

definition writeOutbox ::
  "write_end \<Rightarrow> change_event list \<Rightarrow> outbox_file \<Rightarrow> (exn, unit) result \<times> outbox_file" where
  "writeOutbox how events file =
     writeLocalJson how (OutboxText (Some (JObj [(''events'', JArr (map json_of_event events))]))) file"

section \<open>The operations\<close>

text \<open>\<open>slice(-n)\<close> for a positive \<open>n\<close>.\<close>

definition last_n :: "nat \<Rightarrow> 'a list \<Rightarrow> 'a list" where
  "last_n n xs = drop (length xs - n) xs"

definition queueBridgeWatcherEvent ::
  "write_end \<Rightarrow> change_event \<Rightarrow> outbox_file \<Rightarrow> (exn, unit) result \<times> outbox_file" where
  "queueBridgeWatcherEvent how event file =
     (case readOutbox file of
        Inl e \<Rightarrow> (Inl e, file)
      | Inr events \<Rightarrow>
          if list_ex (\<lambda>item. event_id item = event_id event) events then (Inr (), file)
          else writeOutbox how (last_n maxOutboxEvents (events @ [event])) file)"

text \<open>\<open>Math.max(1, Math.min(limit ?? 100, 100))\<close>.\<close>

definition clamped_limit :: "int option \<Rightarrow> nat" where
  "clamped_limit limit = nat (max 1 (min (coalesce limit 100) 100))"

definition listBridgeWatcherEvents ::
  "int option \<Rightarrow> string option \<Rightarrow> outbox_file \<Rightarrow> (exn, change_event list) result" where
  "listBridgeWatcherEvents limit rootId file =
     rbind (readOutbox file) (\<lambda>events.
       Inr (take (clamped_limit limit)
         (filter (\<lambda>event. coalesce rootId [] = [] \<or> event_rootId event = coalesce rootId []) events)))"

definition acknowledgeBridgeWatcherEvents ::
  "write_end \<Rightarrow> string list \<Rightarrow> outbox_file \<Rightarrow> (exn, unit) result \<times> outbox_file" where
  "acknowledgeBridgeWatcherEvents how eventIds file =
     (if eventIds = [] then (Inr (), file)
      else case readOutbox file of
        Inl e \<Rightarrow> (Inl e, file)
      | Inr events \<Rightarrow>
          let nextEvents = filter (\<lambda>event. event_id event \<notin> set eventIds) events in
          if length nextEvents = length events then (Inr (), file)
          else writeOutbox how nextEvents file)"

text \<open>
  Listing and acknowledging are two accesses of the file; \<open>between\<close> is what other mutations
  make of it in the meantime.
\<close>

definition takeBridgeWatcherEventsFromOutbox ::
  "write_end \<Rightarrow> (outbox_file \<Rightarrow> outbox_file) \<Rightarrow> string \<Rightarrow> outbox_file
    \<Rightarrow> (exn, change_event list) result \<times> outbox_file" where
  "takeBridgeWatcherEventsFromOutbox how between rootId file =
     (case listBridgeWatcherEvents None (Some rootId) file of
        Inl e \<Rightarrow> (Inl e, file)
      | Inr events \<Rightarrow>
          (case acknowledgeBridgeWatcherEvents how (map event_id events) (between file) of
             (Inl e, file') \<Rightarrow> (Inl e, file')
           | (Inr _, file') \<Rightarrow> (Inr events, file')))"

section \<open>Reading back\<close>

lemma event_type_of_name [simp]: "event_type_of (event_type_name t) = Some t"
  by (cases t) (simp_all add: event_type_of_def event_types_def)

lemma event_of_json_of_event [simp]: "event_of_json (json_of_event e) = Some e"
  by (simp add: event_of_json_def json_of_event_def string_field_def)

lemma readOutbox_written [simp]:
  "readOutbox (OutboxText (Some (JObj [(''events'', JArr (map json_of_event events))]))) = Inr events"
  by (simp add: readOutbox_def validEvent_def list_all_iff o_def)

lemma writeOutbox_ok: "writeOutbox how events file = (Inr u, file') \<Longrightarrow> readOutbox file' = Inr events"
  by (auto simp: writeOutbox_def writeLocalJson_def split: write_end.splits)

lemma writeOutbox_fail:
  "writeOutbox how events file = (Inl e, file') \<Longrightarrow> file' = file \<or> readOutbox file' = Inr events"
  by (auto simp: writeOutbox_def writeLocalJson_def split: write_end.splits)

lemma readOutbox_write:
  "readOutbox (snd (writeOutbox how events file)) = (if how = Unwritten then readOutbox file else Inr events)"
  by (cases how) (simp_all add: writeOutbox_def writeLocalJson_def)

section \<open>Histories of the outbox\<close>

datatype outbox_op = Queue write_end change_event | Acknowledge write_end "string list"

fun outbox_step :: "outbox_op \<Rightarrow> outbox_file \<Rightarrow> outbox_file" where
  "outbox_step (Queue how e) file = snd (queueBridgeWatcherEvent how e file)"
| "outbox_step (Acknowledge how ids) file = snd (acknowledgeBridgeWatcherEvents how ids file)"

definition outbox_run :: "outbox_op list \<Rightarrow> outbox_file \<Rightarrow> outbox_file" where
  "outbox_run ops file = fold outbox_step ops file"

fun is_queue :: "outbox_op \<Rightarrow> bool" where
  "is_queue (Queue _ _) = True"
| "is_queue (Acknowledge _ _) = False"

fun acknowledged :: "outbox_op \<Rightarrow> string list" where
  "acknowledged (Queue _ _) = []"
| "acknowledged (Acknowledge _ ids) = ids"

text \<open>What a step makes of a readable outbox, by cases.\<close>

lemma queue_readable:
  assumes "readOutbox file = Inr es"
  shows "readOutbox (snd (queueBridgeWatcherEvent how e file)) =
    Inr (if how \<noteq> Unwritten \<and> event_id e \<notin> event_id ` set es then last_n maxOutboxEvents (es @ [e]) else es)"
  using assms by (auto simp: queueBridgeWatcherEvent_def readOutbox_write list_ex_iff image_iff eq_commute)

lemma filter_all_kept: "length (filter P xs) = length xs \<Longrightarrow> filter P xs = xs"
  by (metis filter_id_conv length_filter_less less_irrefl)

lemma acknowledge_readable:
  assumes "readOutbox file = Inr es"
  shows "readOutbox (snd (acknowledgeBridgeWatcherEvents how ids file)) =
    Inr (if how \<noteq> Unwritten then filter (\<lambda>e. event_id e \<notin> set ids) es else es)"
  using assms filter_all_kept[of "\<lambda>e. event_id e \<notin> set ids" es]
  by (auto simp: acknowledgeBridgeWatcherEvents_def readOutbox_write Let_def)

lemma step_readable: "readOutbox file = Inr es \<Longrightarrow> \<exists>es'. readOutbox (outbox_step op file) = Inr es'"
  by (cases op) (simp_all add: queue_readable acknowledge_readable)

lemma run_readable: "readOutbox file = Inr es \<Longrightarrow> \<exists>es'. readOutbox (outbox_run ops file) = Inr es'"
proof (induction ops arbitrary: "file" es)
  case (Cons op ops)
  then show ?case by (metis step_readable fold_simps(2) outbox_run_def)
qed (simp add: outbox_run_def)

subsection \<open>The invariant\<close>

lemma length_last_n [simp]: "length (last_n n xs) = min n (length xs)"
  by (simp add: last_n_def)

lemma set_last_n: "set (last_n n xs) \<subseteq> set xs"
  by (simp add: last_n_def set_drop_subset)

lemma distinct_map_filter: "distinct (map f xs) \<Longrightarrow> distinct (map f (filter P xs))"
  by (induction xs) auto

definition outbox_ok :: "outbox_file \<Rightarrow> bool" where
  "outbox_ok file \<longleftrightarrow> (\<exists>es. readOutbox file = Inr es \<and> distinct (map event_id es) \<and> length es \<le> maxOutboxEvents)"

lemma outbox_ok_step [keeps]:
  assumes "outbox_ok file"
  shows "outbox_ok (outbox_step op file)"
proof -
  from assms obtain es where es: "readOutbox file = Inr es" "distinct (map event_id es)" "length es \<le> maxOutboxEvents"
    by (auto simp: outbox_ok_def)
  show ?thesis
  proof (cases op)
    case (Queue how e)
    have "distinct (map event_id (last_n maxOutboxEvents (es @ [e])))" if "event_id e \<notin> event_id ` set es"
      using es(2) that unfolding last_n_def drop_map[symmetric] by (intro distinct_drop) simp
    with Queue es show ?thesis by (auto simp: outbox_ok_def queue_readable)
  next
    case (Acknowledge how ids)
    with es show ?thesis
      by (auto simp: outbox_ok_def acknowledge_readable distinct_map_filter intro: le_trans[OF length_filter_le])
  qed
qed

text \<open>
  However events are queued and acknowledged from an absent outbox on, with any write
  failing, the file stays readable, holds at most a thousand events, and never holds two
  with the same id.
\<close>

theorem outbox_invariant: "outbox_ok (outbox_run ops NoOutbox)"
proof -
  have "outbox_ok file \<Longrightarrow> outbox_ok (outbox_run ops file)" for "file"
    by (induction ops arbitrary: "file") (auto simp: outbox_run_def intro: outbox_ok_step)
  moreover have "outbox_ok NoOutbox" by (simp add: outbox_ok_def readOutbox_def)
  ultimately show ?thesis by blast
qed

subsection \<open>Delivery\<close>

text \<open>
  The events from a given one on, itself included: what may still be queued before the
  outbox drops it.
\<close>

definition younger :: "change_event \<Rightarrow> change_event list \<Rightarrow> change_event list" where
  "younger e es = dropWhile (\<lambda>x. x \<noteq> e) es"

lemma younger_in: "e \<in> set es \<longleftrightarrow> younger e es \<noteq> []"
  by (simp add: younger_def)

lemma younger_append: "e \<in> set es \<Longrightarrow> younger e (es @ [x]) = younger e es @ [x]"
  unfolding younger_def by (rule dropWhile_append1) auto

lemma younger_drop:
  "n \<le> length es - length (younger e es) \<Longrightarrow> younger e (drop n es) = younger e es"
proof (induction n arbitrary: es)
  case (Suc n)
  then show ?case by (cases es) (auto simp: younger_def split: if_splits)
qed simp

lemma younger_filter: "P e \<Longrightarrow> e \<in> set es \<Longrightarrow> length (younger e (filter P es)) \<le> length (younger e es)"
proof (induction es)
  case (Cons a es)
  then show ?case by (cases "a = e") (auto simp: younger_def)
qed simp

lemma length_younger: "length (younger e es) \<le> length es"
  by (simp add: younger_def length_dropWhile_le)

lemma retained_step:
  assumes "readOutbox file = Inr es" "e \<in> set es" "event_id e \<notin> set (acknowledged op)"
    and "length (younger e es) + (if is_queue op then 1 else 0) \<le> maxOutboxEvents"
  shows "\<exists>es'. readOutbox (outbox_step op file) = Inr es' \<and> e \<in> set es' \<and>
    length (younger e es') \<le> length (younger e es) + (if is_queue op then 1 else 0)"
proof (cases op)
  case (Queue how x)
  have "younger e (last_n maxOutboxEvents (es @ [x])) = younger e es @ [x]"
    using assms(2,4) Queue length_younger[of e es] younger_append[OF assms(2), of x]
    unfolding last_n_def by (subst younger_drop) auto
  with Queue assms show ?thesis by (auto simp: queue_readable younger_in)
next
  case (Acknowledge how ids)
  with assms show ?thesis by (auto simp: acknowledge_readable younger_filter)
qed

text \<open>
  C20. Delivery at least once. An event in the outbox is still there after any further
  queueing, acknowledging and failing writes, as long as nobody acknowledged its id and
  the events queued after it are fewer than a thousand.
\<close>

theorem outbox_retains:
  assumes "readOutbox file = Inr es" "e \<in> set es"
    and "\<forall>op \<in> set ops. event_id e \<notin> set (acknowledged op)"
    and "length (younger e es) + length (filter is_queue ops) \<le> maxOutboxEvents"
  shows "\<exists>es'. readOutbox (outbox_run ops file) = Inr es' \<and> e \<in> set es'"
  using assms
proof (induction ops arbitrary: "file" es)
  case (Cons op ops)
  obtain es' where es': "readOutbox (outbox_step op file) = Inr es'" "e \<in> set es'"
    "length (younger e es') \<le> length (younger e es) + (if is_queue op then 1 else 0)"
    using retained_step[OF Cons.prems(1,2), of op] Cons.prems(3,4) by (auto split: if_splits)
  have "length (younger e es') + length (filter is_queue ops) \<le> maxOutboxEvents"
    using es'(3) Cons.prems(4) by (auto split: if_splits)
  from Cons.IH[OF es'(1,2) _ this] Cons.prems(3) show ?case by (simp add: outbox_run_def)
qed (simp add: outbox_run_def)

definition sample_event :: "string \<Rightarrow> string \<Rightarrow> change_event" where
  "sample_event i r = \<lparr>event_id = i, event_rootId = r, event_type = FILE_ADDED,
     event_relativePath = ''a.txt'', event_detectedAt = ''2025''\<rparr>"

definition sample_outbox :: outbox_file where
  "sample_outbox = outbox_run [Queue Saved (sample_event ''e1'' ''r1''), Queue Saved (sample_event ''e2'' ''r2''),
     Queue Saved (sample_event ''e3'' ''r1'')] NoOutbox"

lemma sample_outbox_events:
  "readOutbox sample_outbox = Inr [sample_event ''e1'' ''r1'', sample_event ''e2'' ''r2'', sample_event ''e3'' ''r1'']"
  by code_simp

theorem outbox_retains_witness:
  "\<exists>es'. readOutbox (outbox_run [Acknowledge Saved [''e1''], Queue Unsynced (sample_event ''e4'' ''r1'')] sample_outbox) = Inr es' \<and>
     sample_event ''e2'' ''r2'' \<in> set es'"
proof (rule outbox_retains[OF sample_outbox_events])
  show "length (younger (sample_event ''e2'' ''r2'')
      [sample_event ''e1'' ''r1'', sample_event ''e2'' ''r2'', sample_event ''e3'' ''r1'']) +
    length (filter is_queue [Acknowledge Saved [''e1''], Queue Unsynced (sample_event ''e4'' ''r1'')]) \<le> maxOutboxEvents"
    by (simp add: younger_def sample_event_def maxOutboxEvents_def)
qed (simp_all add: sample_event_def)

text \<open>
  Taking the events of a root. A take that returns hands out the root's oldest events,
  at most a hundred of them in their order; the outbox then holds exactly what others made
  of it in the meantime, less the events handed out, so each is taken once and nothing
  else is lost.
\<close>

theorem take_delivers:
  assumes "takeBridgeWatcherEventsFromOutbox how between rootId file = (Inr taken, file')"
    and "readOutbox file = Inr es" "readOutbox (between file) = Inr es1"
  shows "taken = take 100 (filter (\<lambda>e. rootId = [] \<or> event_rootId e = rootId) es) \<and>
    readOutbox file' = Inr (filter (\<lambda>e. event_id e \<notin> event_id ` set taken) es1)"
proof -
  have l: "listBridgeWatcherEvents None (Some rootId) file =
      Inr (take 100 (filter (\<lambda>e. rootId = [] \<or> event_rootId e = rootId) es))"
    using assms(2) by (simp add: listBridgeWatcherEvents_def clamped_limit_def)
  then have t: "taken = take 100 (filter (\<lambda>e. rootId = [] \<or> event_rootId e = rootId) es)"
    and a: "fst (acknowledgeBridgeWatcherEvents how (map event_id taken) (between file)) = Inr ()"
      "file' = snd (acknowledgeBridgeWatcherEvents how (map event_id taken) (between file))"
    using assms(1) by (auto simp: takeBridgeWatcherEventsFromOutbox_def split: prod.splits sum.splits)
  have "readOutbox file' = Inr (filter (\<lambda>e. event_id e \<notin> set (map event_id taken)) es1)"
  proof (cases "how = Unwritten")
    case True
    then have "filter (\<lambda>e. event_id e \<notin> set (map event_id taken)) es1 = es1"
      using a(1) assms(3) filter_all_kept[of "\<lambda>e. event_id e \<notin> set (map event_id taken)" es1]
      by (auto simp: acknowledgeBridgeWatcherEvents_def writeOutbox_def writeLocalJson_def Let_def split: if_splits)
    with True show ?thesis using acknowledge_readable[OF assms(3)] a(2) by simp
  qed (use acknowledge_readable[OF assms(3)] a(2) in simp)
  then show ?thesis using t by simp
qed

theorem take_delivers_witness:
  "fst (takeBridgeWatcherEventsFromOutbox Saved (outbox_step (Queue Saved (sample_event ''e4'' ''r1''))) ''r1'' sample_outbox) =
     Inr [sample_event ''e1'' ''r1'', sample_event ''e3'' ''r1''] \<and>
   readOutbox (snd (takeBridgeWatcherEventsFromOutbox Saved
       (outbox_step (Queue Saved (sample_event ''e4'' ''r1''))) ''r1'' sample_outbox)) =
     Inr [sample_event ''e2'' ''r2'', sample_event ''e4'' ''r1'']"
proof -
  let ?q = "outbox_step (Queue Saved (sample_event ''e4'' ''r1''))"
  let ?t = "takeBridgeWatcherEventsFromOutbox Saved ?q ''r1'' sample_outbox"
  let ?es = "[sample_event ''e1'' ''r1'', sample_event ''e2'' ''r2'', sample_event ''e3'' ''r1'']"
  have b: "readOutbox (?q sample_outbox) = Inr (?es @ [sample_event ''e4'' ''r1''])"
    by (simp add: queue_readable[OF sample_outbox_events] sample_event_def last_n_def maxOutboxEvents_def)
  have "fst ?t = Inr [sample_event ''e1'' ''r1'', sample_event ''e3'' ''r1'']" by code_simp
  then have "?t = (Inr [sample_event ''e1'' ''r1'', sample_event ''e3'' ''r1''], snd ?t)" by (metis prod.collapse)
  from take_delivers[OF this sample_outbox_events b] \<open>fst ?t = _\<close> show ?thesis
    by (simp add: sample_event_def)
qed

text \<open>
  A damaged outbox is preserved. When the file is no outbox, every operation that needs
  its content throws and leaves the file as it is; it is never taken for an empty one.
\<close>

theorem damaged_outbox_preserved:
  assumes "readOutbox file = Inl err"
  shows "queueBridgeWatcherEvent how e file = (Inl err, file) \<and>
    acknowledgeBridgeWatcherEvents how (i # ids) file = (Inl err, file) \<and>
    takeBridgeWatcherEventsFromOutbox how between rootId file = (Inl err, file) \<and>
    outbox_run ops file = file"
proof (intro conjI)
  show q: "queueBridgeWatcherEvent how e file = (Inl err, file)" for how e
    using assms by (simp add: queueBridgeWatcherEvent_def)
  show a: "acknowledgeBridgeWatcherEvents how (i # ids) file = (Inl err, file)" for how i ids
    using assms by (simp add: acknowledgeBridgeWatcherEvents_def)
  show "takeBridgeWatcherEventsFromOutbox how between rootId file = (Inl err, file)"
    using assms by (simp add: takeBridgeWatcherEventsFromOutbox_def listBridgeWatcherEvents_def)
  have "outbox_step op file = file" for op
    by (cases op) (use q a in \<open>auto simp: acknowledgeBridgeWatcherEvents_def assms\<close>)
  then show "outbox_run ops file = file" by (induction ops) (simp_all add: outbox_run_def)
qed

theorem damaged_outbox_preserved_witness:
  "outbox_run [Queue Saved (sample_event ''e1'' ''r1''), Acknowledge Saved [''e1'']]
     (OutboxText (Some (JObj [(''events'', JArr [JNull])]))) = OutboxText (Some (JObj [(''events'', JArr [JNull])]))"
proof -
  have "readOutbox (OutboxText (Some (JObj [(''events'', JArr [JNull])]))) = Inl PlainError" by code_simp
  from damaged_outbox_preserved[OF this] show ?thesis by blast
qed

end
