(* ===== verification/Watcher.thy ===== *)
theory Watcher
  imports EventOutbox Registry
begin

text \<open>
  \<open>bridge-app/src/watcher/watcher.ts\<close>: which folders are being watched. The module keeps a
  map from root ids to handles in memory, next to the registry file and the outbox. Its
  operations wait for files between their effects, so other requests run in the gaps: an
  operation is cut into the pieces between two waits, and a piece that has yet to run is a
  task of the runtime. The operating system's watcher, the clock and random ids are inputs.
\<close>

section \<open>The runtime\<close>

record timer =
  tm_fileName :: string
  tm_eventName :: string
  tm_due :: int

text \<open>
  A handle keeps the root it was opened for. Its system watcher reports changes while it is
  open; after \<open>close\<close> or after an error it reports nothing any more. Handles are named by
  their position, which is their identity as objects.
\<close>

datatype handle_state = Open | Closed | Failed

record watch_handle =
  wh_rootId :: string
  wh_rootPath :: string
  wh_timers :: "(string \<times> timer) list"
  wh_state :: handle_state

text \<open>What an operation still has to do after a wait.\<close>

datatype task = Attach bridge_root | MarkWatching string | MarkAttention string
  | MarkPaused string | MarkStopped string
  | Classify string string string string | Queue change_event

record runtime =
  rt_handles :: "watch_handle list"
  watcherRegistry :: "(string \<times> nat) list"
  rt_roots :: registry_file
  rt_outbox :: outbox_file
  rt_tasks :: "task list"

definition debounceMs :: int where "debounceMs = 600"

definition map_delete :: "('k \<times> 'v) list \<Rightarrow> 'k \<Rightarrow> ('k \<times> 'v) list" where
  "map_delete m k = filter (\<lambda>e. fst e \<noteq> k) m"

section \<open>Changes\<close>

definition relativePathFor :: "string \<Rightarrow> string \<Rightarrow> string \<Rightarrow> (exn, string) result" where
  "relativePathFor cwd rootPath changedPath =
     (let relative = posix_relative cwd rootPath changedPath in
      if relative = [] \<or> starts_with relative dotdot \<or> posix_isAbsolute relative
      then Inl (BridgeAppError PATH_OUTSIDE_ROOT 403)
      else Inr relative)"

text \<open>
  \<open>stamp\<close> is the time as text, \<open>clock\<close> and \<open>random\<close> the two parts of the id.
\<close>

definition classifyChange ::
  "string \<Rightarrow> fs \<Rightarrow> string \<times> string \<times> string \<Rightarrow> string \<Rightarrow> string \<Rightarrow> string \<Rightarrow> string
    \<Rightarrow> (exn, change_event) result" where
  "classifyChange cwd f nonce rootId rootPath fileName eventName =
     (let changedPath = posix_resolve cwd [rootPath, fileName] in
      rbind (relativePathFor cwd rootPath changedPath) (\<lambda>relativePath.
      case nonce of (stamp, clock, random) \<Rightarrow>
        Inr \<lparr>event_id = ''evt_'' @ clock @ ''_'' @ random, event_rootId = rootId,
          event_type = (case fs_lstat changedPath f of
              Inl _ \<Rightarrow> FILE_DELETED
            | Inr st \<Rightarrow> if is_directory st then FOLDER_ADDED
                else if eventName = ''rename'' then FILE_ADDED else FILE_MODIFIED),
          event_relativePath = relativePath, event_detectedAt = stamp\<rparr>))"

text \<open>The callback of the system watcher: one timer per path, set anew at each change.\<close>

definition noteChange :: "int \<Rightarrow> string \<Rightarrow> string \<Rightarrow> watch_handle \<Rightarrow> watch_handle" where
  "noteChange now eventName fileName h =
     (if fileName = [] then h
      else h\<lparr>wh_timers := map_set (wh_timers h) (pathKey fileName)
        \<lparr>tm_fileName = fileName, tm_eventName = eventName, tm_due = now + debounceMs\<rparr>\<rparr>)"

definition on_change :: "int \<Rightarrow> nat \<Rightarrow> string \<Rightarrow> string \<Rightarrow> runtime \<Rightarrow> runtime" where
  "on_change now i eventName fileName rt =
     rt\<lparr>rt_handles := (rt_handles rt)[i := noteChange now eventName fileName (rt_handles rt ! i)]\<rparr>"

text \<open>
  A timer fires: it leaves the map, and its change is to be classified. The classification
  waits for \<open>lstat\<close>, and what it finds is queued after that; neither looks at the handle
  again.
\<close>

definition fireTimer :: "nat \<Rightarrow> string \<Rightarrow> runtime \<Rightarrow> runtime" where
  "fireTimer i key rt =
     (let h = rt_handles rt ! i in
      case map_of (wh_timers h) key of
        None \<Rightarrow> rt
      | Some t \<Rightarrow> rt\<lparr>rt_handles := (rt_handles rt)[i := h\<lparr>wh_timers := map_delete (wh_timers h) key\<rparr>],
          rt_tasks := rt_tasks rt @ [Classify (wh_rootId h) (wh_rootPath h) (tm_fileName t) (tm_eventName t)]\<rparr>)"

definition classified :: "(exn, change_event) result \<Rightarrow> task list" where
  "classified r = (case r of Inl _ \<Rightarrow> [] | Inr event \<Rightarrow> [Queue event])"

definition queueClassified :: "write_end \<Rightarrow> change_event \<Rightarrow> runtime \<Rightarrow> runtime" where
  "queueClassified how event rt = rt\<lparr>rt_outbox := snd (queueBridgeWatcherEvent how event (rt_outbox rt))\<rparr>"

section \<open>Starting\<close>

definition watching_update :: "int \<Rightarrow> root_update" where
  "watching_update now = no_update\<lparr>upd_lastWatchingAt := Some (Some now), upd_status := Some CONNECTED,
     upd_watcherState := Some W_WATCHING\<rparr>"

definition attention_update :: root_update where
  "attention_update = no_update\<lparr>upd_status := Some NEEDS_ATTENTION, upd_watcherState := Some W_NEEDS_ATTENTION\<rparr>"

text \<open>Up to the first wait after the permission check.\<close>

definition startCheck :: "string \<Rightarrow> runtime \<Rightarrow> (exn, task) result" where
  "startCheck rootId rt =
     rbind (requireWatchPermission rootId (rt_roots rt)) (\<lambda>root.
       Inr (if map_of (watcherRegistry rt) (root_id root) \<noteq> None then MarkWatching (root_id root)
            else Attach root))"

definition new_handle :: "bridge_root \<Rightarrow> watch_handle" where
  "new_handle root = \<lparr>wh_rootId = root_id root, wh_rootPath = actualPath root, wh_timers = [], wh_state = Open\<rparr>"

text \<open>
  The folder is looked at and the system watcher opened; \<open>watchable\<close> says whether \<open>watch\<close>
  throws. The answer is what is left to do and, when the start has failed, what it will
  throw after that.
\<close>

definition attachWatcher :: "fs \<Rightarrow> bool \<Rightarrow> bridge_root \<Rightarrow> runtime \<Rightarrow> (task option \<times> exn option) \<times> runtime" where
  "attachWatcher f watchable root rt =
     (if (case fs_lstat (actualPath root) f of Inl _ \<Rightarrow> True | Inr st \<Rightarrow> \<not> is_directory st \<or> is_symlink st)
      then ((Some (MarkAttention (root_id root)), Some (BridgeAppError ROOT_UNAVAILABLE 422)), rt)
      else if isl (fs_readable (actualPath root) f)
      then ((None, Some (BridgeAppError ROOT_UNAVAILABLE 422)), rt)
      else if \<not> watchable
      then ((Some (MarkAttention (root_id root)), Some (BridgeAppError WATCHER_START_FAILED 500)), rt)
      else ((Some (MarkWatching (root_id root)), None),
            rt\<lparr>rt_handles := rt_handles rt @ [new_handle root],
               watcherRegistry := map_set (watcherRegistry rt) (root_id root) (length (rt_handles rt))\<rparr>))"

text \<open>The registry updates that end an operation.\<close>

fun updates :: "task \<Rightarrow> bool" where
  "updates (Attach root) = False"
| "updates (Classify r p n e) = False"
| "updates (Queue event) = False"
| "updates t = True"

fun task_update :: "reg_env \<Rightarrow> task \<Rightarrow> runtime \<Rightarrow> (exn, bridge_root_summary) result \<times> registry_file" where
  "task_update env (MarkWatching r) rt = updateRootUnlocked env r (watching_update (env_now env)) (rt_roots rt)"
| "task_update env (MarkAttention r) rt = updateRootUnlocked env r attention_update (rt_roots rt)"
| "task_update env (MarkPaused r) rt = updateRootUnlocked env r (no_update\<lparr>upd_watcherState := Some W_PAUSED\<rparr>) (rt_roots rt)"
| "task_update env (MarkStopped r) rt = updateRootUnlocked env r (no_update\<lparr>upd_watcherState := Some W_STOPPED\<rparr>) (rt_roots rt)"
| "task_update env t rt = (Inl PlainError, rt_roots rt)"

definition finish :: "reg_env \<Rightarrow> task \<Rightarrow> runtime \<Rightarrow> (exn, bridge_root_summary) result \<times> runtime" where
  "finish env t rt = (case task_update env t rt of (r, roots') \<Rightarrow> (r, rt\<lparr>rt_roots := roots'\<rparr>))"

text \<open>The operation when nothing runs in its gaps.\<close>

definition startBridgeWatcher ::
  "reg_env \<Rightarrow> bool \<Rightarrow> string \<Rightarrow> runtime \<Rightarrow> (exn, bridge_root_summary) result \<times> runtime" where
  "startBridgeWatcher env watchable rootId rt =
     (case startCheck rootId rt of
        Inl e \<Rightarrow> (Inl e, rt)
      | Inr (Attach root) \<Rightarrow>
          (case attachWatcher (env_fs env) watchable root rt of
             ((Some t, None), rt1) \<Rightarrow> finish env t rt1
           | ((Some t, Some e), rt1) \<Rightarrow> (Inl e, snd (finish env t rt1))
           | ((None, Some e), rt1) \<Rightarrow> (Inl e, rt1)
           | ((None, None), rt1) \<Rightarrow> (Inl PlainError, rt1))
      | Inr t \<Rightarrow> finish env t rt)"

section \<open>Stopping\<close>

definition stopWatcherHandle :: "string \<Rightarrow> runtime \<Rightarrow> runtime" where
  "stopWatcherHandle rootId rt =
     (case map_of (watcherRegistry rt) rootId of
        None \<Rightarrow> rt
      | Some i \<Rightarrow>
          rt\<lparr>rt_handles := (rt_handles rt)[i := (rt_handles rt ! i)\<lparr>wh_timers := [], wh_state := Closed\<rparr>],
             watcherRegistry := map_delete (watcherRegistry rt) rootId\<rparr>)"

text \<open>Pausing and stopping differ in the state they record.\<close>

definition haltCheck :: "string \<Rightarrow> runtime \<Rightarrow> (exn, runtime) result" where
  "haltCheck rootId rt = rbind (getRoot rootId (rt_roots rt)) (\<lambda>_. Inr (stopWatcherHandle rootId rt))"

definition pauseBridgeWatcher :: "reg_env \<Rightarrow> string \<Rightarrow> runtime \<Rightarrow> (exn, bridge_root_summary) result \<times> runtime" where
  "pauseBridgeWatcher env rootId rt =
     (case haltCheck rootId rt of Inl e \<Rightarrow> (Inl e, rt) | Inr rt1 \<Rightarrow> finish env (MarkPaused rootId) rt1)"

definition resumeBridgeWatcher ::
  "reg_env \<Rightarrow> bool \<Rightarrow> string \<Rightarrow> runtime \<Rightarrow> (exn, bridge_root_summary) result \<times> runtime" where
  "resumeBridgeWatcher env watchable rootId rt = startBridgeWatcher env watchable rootId rt"

definition stopBridgeWatcher :: "reg_env \<Rightarrow> string \<Rightarrow> runtime \<Rightarrow> (exn, bridge_root_summary) result \<times> runtime" where
  "stopBridgeWatcher env rootId rt =
     (case haltCheck rootId rt of Inl e \<Rightarrow> (Inl e, rt) | Inr rt1 \<Rightarrow> finish env (MarkStopped rootId) rt1)"

text \<open>
  The system watcher reports an error and is no longer usable: the root's entry goes, and
  the root is marked. The timers of the handle still run.
\<close>

definition watcherError :: "nat \<Rightarrow> runtime \<Rightarrow> runtime" where
  "watcherError i rt =
     (let h = rt_handles rt ! i; r = wh_rootId h in
      rt\<lparr>rt_handles := (rt_handles rt)[i := h\<lparr>wh_state := Failed\<rparr>],
         watcherRegistry := map_delete (watcherRegistry rt) r, rt_tasks := rt_tasks rt @ [MarkAttention r]\<rparr>)"

section \<open>Reading and restoring\<close>

definition isWatching :: "string \<Rightarrow> runtime \<Rightarrow> bool" where
  "isWatching rootId rt \<longleftrightarrow> map_of (watcherRegistry rt) rootId \<noteq> None"

definition takeBridgeWatcherEvents ::
  "write_end \<Rightarrow> (outbox_file \<Rightarrow> outbox_file) \<Rightarrow> string \<Rightarrow> runtime \<Rightarrow> (exn, change_event list) result \<times> runtime" where
  "takeBridgeWatcherEvents how between rootId rt =
     (case requireWatchPermission rootId (rt_roots rt) of
        Inl e \<Rightarrow> (Inl e, rt)
      | Inr _ \<Rightarrow>
          if \<not> isWatching rootId rt then (Inr [], rt)
          else case takeBridgeWatcherEventsFromOutbox how between rootId (rt_outbox rt) of
            (r, box) \<Rightarrow> (r, rt\<lparr>rt_outbox := box\<rparr>))"

definition wants_watcher :: "bridge_root \<Rightarrow> runtime \<Rightarrow> bool" where
  "wants_watcher root rt \<longleftrightarrow> root_status root = CONNECTED \<and> watcherState root = W_WATCHING \<and>
     readPermission root \<and> watchPermission root \<and> \<not> isWatching (root_id root) rt"

fun restoreWatchers ::
  "reg_env \<Rightarrow> (string \<Rightarrow> bool) \<Rightarrow> bridge_root list \<Rightarrow> runtime \<Rightarrow> bridge_root_summary list \<times> runtime" where
  "restoreWatchers env watchable [] rt = ([], rt)"
| "restoreWatchers env watchable (root # roots) rt =
     (if \<not> wants_watcher root rt then restoreWatchers env watchable roots rt
      else case startBridgeWatcher env (watchable (root_id root)) (root_id root) rt of
        (Inr summary, rt1) \<Rightarrow>
          (case restoreWatchers env watchable roots rt1 of (restored, rt2) \<Rightarrow> (summary # restored, rt2))
      | (Inl _, rt1) \<Rightarrow>
          restoreWatchers env watchable roots (snd (finish env (MarkAttention (root_id root)) rt1)))"

definition restorePersistedBridgeWatchers ::
  "reg_env \<Rightarrow> (string \<Rightarrow> bool) \<Rightarrow> runtime \<Rightarrow> (exn, bridge_root_summary list) result \<times> runtime" where
  "restorePersistedBridgeWatchers env watchable rt =
     (case listRootRecords (rt_roots rt) of
        Inl e \<Rightarrow> (Inl e, rt)
      | Inr roots \<Rightarrow> (case restoreWatchers env watchable roots rt of (restored, rt1) \<Rightarrow> (Inr restored, rt1)))"

text \<open>The reset for tests stops every registered watcher.\<close>

definition resetBridgeWatcherRuntimeForTests :: "runtime \<Rightarrow> runtime" where
  "resetBridgeWatcherRuntimeForTests rt = fold stopWatcherHandle (map fst (watcherRegistry rt)) rt"

section \<open>Interleaved runs\<close>

text \<open>
  One step of the module: a request reaches its first wait, a waiting operation goes on, the
  system watcher of an open handle reports a change or an error, a timer that is due fires,
  or another module changes the registry or the outbox.
\<close>

inductive watcher_step :: "runtime \<Rightarrow> runtime \<Rightarrow> bool" where
  start: "startCheck rootId rt = Inr t \<Longrightarrow> watcher_step rt (rt\<lparr>rt_tasks := rt_tasks rt @ [t]\<rparr>)"
| attach: "rt_tasks rt = ts @ Attach root # us \<Longrightarrow>
    attachWatcher f watchable root (rt\<lparr>rt_tasks := ts @ us\<rparr>) = ((next_task, e), rt1) \<Longrightarrow>
    watcher_step rt (rt1\<lparr>rt_tasks := ts @ us @ (case next_task of None \<Rightarrow> [] | Some t \<Rightarrow> [t])\<rparr>)"
| finish: "rt_tasks rt = ts @ t # us \<Longrightarrow> updates t \<Longrightarrow>
    watcher_step rt (snd (finish env t (rt\<lparr>rt_tasks := ts @ us\<rparr>)))"
| pause: "haltCheck rootId rt = Inr rt1 \<Longrightarrow> watcher_step rt (rt1\<lparr>rt_tasks := rt_tasks rt1 @ [MarkPaused rootId]\<rparr>)"
| stop: "haltCheck rootId rt = Inr rt1 \<Longrightarrow> watcher_step rt (rt1\<lparr>rt_tasks := rt_tasks rt1 @ [MarkStopped rootId]\<rparr>)"
| change: "i < length (rt_handles rt) \<Longrightarrow> wh_state (rt_handles rt ! i) = Open \<Longrightarrow>
    watcher_step rt (on_change now i eventName fileName rt)"
| fire: "i < length (rt_handles rt) \<Longrightarrow> map_of (wh_timers (rt_handles rt ! i)) key = Some t \<Longrightarrow> tm_due t \<le> now \<Longrightarrow>
    watcher_step rt (fireTimer i key rt)"
| classify: "rt_tasks rt = ts @ Classify rootId rootPath fileName eventName # us \<Longrightarrow>
    watcher_step rt (rt\<lparr>rt_tasks := ts @ us @ classified (classifyChange cwd f nonce rootId rootPath fileName eventName)\<rparr>)"
| queue: "rt_tasks rt = ts @ Queue event # us \<Longrightarrow>
    watcher_step rt (queueClassified how event (rt\<lparr>rt_tasks := ts @ us\<rparr>))"
| error: "i < length (rt_handles rt) \<Longrightarrow> wh_state (rt_handles rt ! i) = Open \<Longrightarrow> watcher_step rt (watcherError i rt)"
| registry: "watcher_step rt (rt\<lparr>rt_roots := roots'\<rparr>)"
| outbox: "watcher_step rt (rt\<lparr>rt_outbox := outbox_step op (rt_outbox rt)\<rparr>)"

end
