(* ===== verification/Scanner.thy ===== *)
theory Scanner
  imports Operations Watcher
begin

text \<open>
  \<open>bridge-app/src/filesystem/scanner.ts\<close> and \<open>resolver.ts\<close>: the inventory of a connected
  folder and the lookup of one file. A scan walks the folder, describing each visible
  file, then walks it again comparing names and identities; every call on the file system
  is a step of the world, so a file can change between any two of them.

  A walk descends at most \<open>depth\<close> folders; deeper paths are too long for the operating
  system, which answers with \<open>ENAMETOOLONG\<close>. The image metadata extractor and the hook
  before an image's checksum are the options of the scan.
\<close>

section \<open>Tables\<close>

definition supportedExtensions :: "(string \<times> string) list" where
  "supportedExtensions =
     [(''.txt'', ''TEXT''), (''.md'', ''MARKDOWN''), (''.markdown'', ''MARKDOWN''), (''.pdf'', ''PDF''),
      (''.docx'', ''DOCX''), (''.html'', ''HTML''), (''.htm'', ''HTML''), (''.jpg'', ''IMAGE_JPG''),
      (''.jpeg'', ''IMAGE_JPEG''), (''.png'', ''IMAGE_PNG''), (''.webp'', ''IMAGE_WEBP''), (''.gif'', ''IMAGE_GIF''),
      (''.tiff'', ''IMAGE_TIFF''), (''.tif'', ''IMAGE_TIF''), (''.heic'', ''IMAGE_HEIC''), (''.heif'', ''IMAGE_HEIF''),
      (''.mp3'', ''AUDIO_MP3''), (''.wav'', ''AUDIO_WAV''), (''.m4a'', ''AUDIO_M4A''), (''.aac'', ''AUDIO_AAC''),
      (''.flac'', ''AUDIO_FLAC''), (''.ogg'', ''AUDIO_OGG''), (''.mp4'', ''VIDEO_MP4''), (''.mov'', ''VIDEO_MOV''),
      (''.m4v'', ''VIDEO_M4V'')]"

definition ignoredFolderNames :: "string list" where
  "ignoredFolderNames = [''$recycle.bin'', ''system volume information'', ''.fseventsd'', ''.spotlight-v100'',
     ''.trashes'', ''.git'', ''.hg'', ''.svn'', ''node_modules'', ''.next'']"

definition ignoredSystemFileNames :: "string list" where
  "ignoredSystemFileNames = [''.ds_store'', ''desktop.ini'', ''thumbs.db'']"

section \<open>Identities and names\<close>

text \<open>
  \<open>String(mode)\<close> for the file type bits; permission bits are not part of the model.
\<close>

fun mode_text :: "node_kind \<Rightarrow> string" where
  "mode_text RegularFile = ''32768''"
| "mode_text Directory = ''16384''"
| "mode_text SymbolicLink = ''40960''"

definition nativeScanIdentity :: "stats \<Rightarrow> string" where
  "nativeScanIdentity st = join_with '':'' [dec (st_dev st), dec (st_ino st), dec (st_size st),
     dec_int (st_mtime st), dec_int (st_ctime st), mode_text (st_kind st)]"

definition sameFileIdentity :: "stats \<Rightarrow> stats \<Rightarrow> bool" where
  "sameFileIdentity l r \<longleftrightarrow> st_dev l = st_dev r \<and> st_ino l = st_ino r \<and> st_size l = st_size r \<and>
     st_mtime l = st_mtime r \<and> st_ctime l = st_ctime r"

definition scanRelativePath :: "string \<Rightarrow> string \<Rightarrow> string \<Rightarrow> (exn, string) result" where
  "scanRelativePath cwd rootPath filePath =
     (let relative = posix_relative cwd rootPath filePath in
      if relative = [] \<or> starts_with relative dotdot \<or> posix_isAbsolute relative
      then Inl (BridgeAppError PATH_OUTSIDE_ROOT 403)
      else Inr relative)"

definition shouldIgnore :: "string \<Rightarrow> bool" where
  "shouldIgnore relativePath =
     (let parts = nonempty (split_on slash (replace_char backslash slash relativePath));
          fileName = (if parts = [] then [] else to_lower (last parts)) in
      if fileName \<in> set ignoredSystemFileNames then True
      else list_ex (\<lambda>part. starts_with part dot \<or> to_lower part \<in> set ignoredFolderNames) parts)"

definition classifyFileType :: "string \<Rightarrow> string" where
  "classifyFileType relativePath =
     coalesce (map_of supportedExtensions (to_lower (posix_extname relativePath))) ''UNSUPPORTED''"

section \<open>One file\<close>

datatype read_status = SUPPORTED | UNSUPPORTED | READ_FAILED
datatype scan_error = CouldNotInspect | SymlinkNotFollowed

record 'm scanned_file =
  sf_checksum :: "string option"
  sf_fileType :: string
  sf_imageMetadata :: "'m option"
  sf_lastModified :: "int option"
  sf_localPath :: string
  sf_readStatus :: read_status
  sf_relativePath :: string
  sf_scanError :: "scan_error option"
  sf_sizeBytes :: "nat option"
  sf_sourceCreatedAt :: "int option"

text \<open>What a scan is given: root id and path, and its two options.\<close>

record ('w, 'm) scan_config =
  sc_rootId :: string
  sc_rootPath :: string
  sc_extractor :: "string \<Rightarrow> string \<Rightarrow> stats \<Rightarrow> ('w, 'm) io"
  sc_beforeChecksum :: "string \<Rightarrow> ('w, unit) io"

definition is_image :: "string \<Rightarrow> bool" where
  "is_image fileType = starts_with fileType ''IMAGE_''"

definition plain_draft :: "string \<Rightarrow> string \<Rightarrow> string \<Rightarrow> read_status \<Rightarrow> scan_error option \<Rightarrow> stats option \<Rightarrow> 'm scanned_file" where
  "plain_draft rootId relativePath fileType status err st =
     \<lparr>sf_checksum = None, sf_fileType = fileType, sf_imageMetadata = None, sf_lastModified = map_option st_mtime st,
      sf_localPath = bridgeRootUri rootId relativePath, sf_readStatus = status, sf_relativePath = relativePath,
      sf_scanError = err, sf_sizeBytes = map_option st_size st, sf_sourceCreatedAt = map_option st_birthtime st\<rparr>"

definition changed_during_scan :: exn where
  "changed_during_scan = BridgeAppError FILE_CHANGED_DURING_SCAN 409"

text \<open>\<open>lstat\<close> again, and throw unless it is still the same regular file.\<close>

definition recheck :: "string \<Rightarrow> stats \<Rightarrow> ('w world_scheme, unit) io" where
  "recheck filePath st =
     io_bind (lstat filePath) (\<lambda>now.
     io_guard (is_file now \<and> \<not> is_symlink now \<and> sameFileIdentity st now) changed_during_scan)"

definition inspectImage ::
  "('w world_scheme, 'm) scan_config \<Rightarrow> string \<Rightarrow> string
    \<Rightarrow> ('w world_scheme, stats \<times> 'm option \<times> string) io" where
  "inspectImage cfg filePath relativePath =
     io_bind (lstat filePath) (\<lambda>verified.
     io_bind (io_guard (is_file verified \<and> \<not> is_symlink verified) changed_during_scan) (\<lambda>_.
     io_bind (io_catch (io_bind (sc_extractor cfg filePath relativePath verified) (\<lambda>m. io_return (Some m)))
        (\<lambda>_. io_return None)) (\<lambda>metadata.
     io_bind (checksumFile filePath) (\<lambda>checksumAfter.
     io_bind (recheck filePath verified) (\<lambda>_.
     io_return (verified, metadata, checksumAfter))))))"

definition describeFile ::
  "('w world_scheme, 'm) scan_config \<Rightarrow> string \<Rightarrow> string \<Rightarrow> string
    \<Rightarrow> ('w world_scheme, 'm scanned_file) io" where
  "describeFile cfg filePath relativePath fileType =
     io_bind (lstat filePath) (\<lambda>st.
     if \<not> is_file st \<or> is_symlink st
     then io_return (plain_draft (sc_rootId cfg) relativePath ''UNSUPPORTED'' UNSUPPORTED None (Some st))
     else if fileType = ''UNSUPPORTED''
     then io_return (plain_draft (sc_rootId cfg) relativePath fileType UNSUPPORTED None (Some st))
     else
       io_bind (sys_read (fs_readable filePath)) (\<lambda>_.
       io_bind (io_when (is_image fileType) (sc_beforeChecksum cfg filePath)) (\<lambda>_.
       io_bind (checksumFile filePath) (\<lambda>checksumBefore.
       io_bind (recheck filePath st) (\<lambda>_.
       io_bind (if is_image fileType then inspectImage cfg filePath relativePath
                else io_return (st, None, checksumBefore)) (\<lambda>(verified, metadata, checksumAfter).
       io_bind (io_guard (checksumBefore = checksumAfter) changed_during_scan) (\<lambda>_.
       io_bind (recheck filePath verified) (\<lambda>_.
       io_return ((plain_draft (sc_rootId cfg) relativePath fileType SUPPORTED None (Some verified))
         \<lparr>sf_checksum := Some checksumAfter, sf_imageMetadata := metadata\<rparr>)))))))))"

definition fileDraft ::
  "string \<Rightarrow> ('w world_scheme, 'm) scan_config \<Rightarrow> string \<Rightarrow> ('w world_scheme, 'm scanned_file) io" where
  "fileDraft cwd cfg filePath =
     io_bind (io_result (scanRelativePath cwd (sc_rootPath cfg) filePath)) (\<lambda>relativePath.
     let fileType = classifyFileType relativePath in
     io_catch (describeFile cfg filePath relativePath fileType)
       (\<lambda>_. io_return (plain_draft (sc_rootId cfg) relativePath fileType READ_FAILED (Some CouldNotInspect) None)))"

section \<open>The walks\<close>

fun io_fold :: "('a \<Rightarrow> 's \<Rightarrow> ('w, 's) io) \<Rightarrow> 'a list \<Rightarrow> 's \<Rightarrow> ('w, 's) io" where
  "io_fold f [] s = io_return s"
| "io_fold f (x # xs) s = io_bind (f x s) (io_fold f xs)"

definition unverified :: exn where
  "unverified = BridgeAppError SCAN_INVENTORY_UNVERIFIED 409"

text \<open>The files described so far, and the identity of every entry seen.\<close>

type_synonym 'm inventory = "'m scanned_file list \<times> (string \<times> string) list"

definition scanEntry ::
  "string \<Rightarrow> ('w world_scheme, 'm) scan_config \<Rightarrow> (string \<Rightarrow> 'm inventory \<Rightarrow> ('w world_scheme, 'm inventory) io)
    \<Rightarrow> string \<Rightarrow> string \<Rightarrow> 'm inventory \<Rightarrow> ('w world_scheme, 'm inventory) io" where
  "scanEntry cwd cfg descend currentPath name acc =
     (let entryPath = posix_join [currentPath, name] in
      io_bind (io_result (scanRelativePath cwd (sc_rootPath cfg) entryPath)) (\<lambda>relativePath.
      if shouldIgnore relativePath then io_return acc
      else
        io_bind (io_try (lstat entryPath)) (\<lambda>r.
        case r of
          Inl _ \<Rightarrow> io_return (fst acc @ [plain_draft (sc_rootId cfg) relativePath ''UNSUPPORTED'' READ_FAILED
              (Some CouldNotInspect) None], snd acc)
        | Inr st \<Rightarrow>
            let acc1 = (fst acc, map_set (snd acc) relativePath (nativeScanIdentity st)) in
            if is_symlink st
            then io_return (fst acc1 @ [plain_draft (sc_rootId cfg) relativePath ''UNSUPPORTED'' UNSUPPORTED
              (Some SymlinkNotFollowed) (Some st)], snd acc1)
            else if is_directory st then descend entryPath acc1
            else if is_file st
            then io_bind (fileDraft cwd cfg entryPath) (\<lambda>d. io_return (fst acc1 @ [d], snd acc1))
            else io_return acc1)))"

primrec scanDirectory ::
  "nat \<Rightarrow> string \<Rightarrow> ('w world_scheme, 'm) scan_config \<Rightarrow> string \<Rightarrow> 'm inventory
    \<Rightarrow> ('w world_scheme, 'm inventory) io" where
  "scanDirectory 0 cwd cfg currentPath acc = io_throw (SysError ENAMETOOLONG)"
| "scanDirectory (Suc depth) cwd cfg currentPath acc =
     io_bind (lstat currentPath) (\<lambda>st.
     io_bind (io_guard (is_directory st \<and> \<not> is_symlink st) unverified) (\<lambda>_.
     io_bind (sys_readdir currentPath) (\<lambda>entries.
     io_fold (scanEntry cwd cfg (scanDirectory depth cwd cfg) currentPath) entries acc)))"

definition set_add :: "'a \<Rightarrow> 'a list \<Rightarrow> 'a list" where
  "set_add x xs = (if x \<in> set xs then xs else xs @ [x])"

definition visibleEntry ::
  "string \<Rightarrow> string \<Rightarrow> (string \<times> string) list \<Rightarrow> (string \<Rightarrow> string list \<Rightarrow> ('w world_scheme, string list) io)
    \<Rightarrow> string \<Rightarrow> string \<Rightarrow> string list \<Rightarrow> ('w world_scheme, string list) io" where
  "visibleEntry cwd rootPath identities descend directory name paths =
     (let absolute = posix_join [directory, name] in
      io_bind (io_result (scanRelativePath cwd rootPath absolute)) (\<lambda>relative.
      if shouldIgnore relative then io_return paths
      else
        io_bind (io_try (lstat absolute)) (\<lambda>r.
        case r of
          Inl _ \<Rightarrow> io_throw unverified
        | Inr verified \<Rightarrow>
            if map_of identities relative \<noteq> Some (nativeScanIdentity verified) then io_throw unverified
            else if is_directory verified \<and> \<not> is_symlink verified then descend absolute paths
            else if is_file verified \<or> is_symlink verified then io_return (set_add relative paths)
            else io_return paths)))"

primrec visiblePaths ::
  "nat \<Rightarrow> string \<Rightarrow> string \<Rightarrow> (string \<times> string) list \<Rightarrow> string \<Rightarrow> string list
    \<Rightarrow> ('w world_scheme, string list) io" where
  "visiblePaths 0 cwd rootPath identities directory paths = io_throw (SysError ENAMETOOLONG)"
| "visiblePaths (Suc depth) cwd rootPath identities directory paths =
     io_bind (sys_readdir directory) (\<lambda>entries.
     io_fold (visibleEntry cwd rootPath identities (visiblePaths depth cwd rootPath identities) directory) entries paths)"

section \<open>The scan\<close>

record 'm scan_result =
  sr_bridgeRootId :: string
  sr_completedAt :: int
  sr_failedFiles :: nat
  sr_files :: "'m scanned_file list"
  sr_folderDisplayName :: string
  sr_rootPath :: string
  sr_safeLocation :: string
  sr_startedAt :: int
  sr_supportedFiles :: nat
  sr_totalFiles :: nat
  sr_unsupportedFiles :: nat

definition same_root :: "stats \<Rightarrow> exn + stats \<Rightarrow> bool" where
  "same_root rootBefore now = (case now of Inl _ \<Rightarrow> False
     | Inr st \<Rightarrow> is_directory st \<and> \<not> is_symlink st \<and> st_dev rootBefore = st_dev st \<and> st_ino rootBefore = st_ino st \<and>
         st_mtime rootBefore = st_mtime st \<and> st_ctime rootBefore = st_ctime st)"

definition count_read :: "read_status \<Rightarrow> 'm scanned_file list \<Rightarrow> nat" where
  "count_read s files = length (filter (\<lambda>x. sf_readStatus x = s) files)"

text \<open>\<open>updateRoot\<close> as a step: the registry file is replaced, or the update throws.\<close>

definition update_root_io :: "reg_env \<Rightarrow> string \<Rightarrow> root_update \<Rightarrow> ('w oworld_scheme, unit) io" where
  "update_root_io env rootId input =
     scheduled (\<lambda>w. case updateRootUnlocked env rootId input (reg_state w) of
        (Inl e, _) \<Rightarrow> (Throw e, w) | (Inr _, f) \<Rightarrow> (Ok (), w\<lparr>reg_state := f\<rparr>))"

text \<open>
  The names of the two passes are compared as sets; \<open>clock\<close> gives the two times of the scan.
\<close>

definition scanBridgeRootOwned ::
  "(string \<Rightarrow> string \<Rightarrow> int) \<Rightarrow> nat \<Rightarrow> reg_env \<Rightarrow> int \<times> int
    \<Rightarrow> (string \<Rightarrow> string \<Rightarrow> stats \<Rightarrow> ('w oworld_scheme, 'm) io) \<Rightarrow> (string \<Rightarrow> ('w oworld_scheme, unit) io)
    \<Rightarrow> string \<Rightarrow> ('w oworld_scheme, 'm scan_result) io" where
  "scanBridgeRootOwned lc depth env clock extractor beforeChecksum rootId =
     io_bind (require_permission rootId ReadPermission) (\<lambda>root.
     io_bind (io_get working_dir) (\<lambda>cwd.
     io_bind (io_try (lstat (actualPath root))) (\<lambda>before_scan.
     case before_scan of
       Inl _ \<Rightarrow> io_throw (BridgeAppError ROOT_UNAVAILABLE 422)
     | Inr rootBefore \<Rightarrow>
     io_bind (io_guard (is_directory rootBefore \<and> \<not> is_symlink rootBefore) (BridgeAppError ROOT_UNAVAILABLE 422)) (\<lambda>_.
     io_bind (io_guard (isPathInsideRoot cwd (posix_dirname (actualPath root)) (actualPath root))
        (BridgeAppError ROOT_UNAVAILABLE 422)) (\<lambda>_.
     let cfg = \<lparr>sc_rootId = root_id root, sc_rootPath = actualPath root, sc_extractor = extractor,
           sc_beforeChecksum = beforeChecksum\<rparr> in
     io_bind (scanDirectory depth cwd cfg (actualPath root) ([], [])) (\<lambda>(files, identities).
     io_bind (io_try (lstat (actualPath root))) (\<lambda>rootAfter.
     io_bind (io_guard (same_root rootBefore rootAfter) unverified) (\<lambda>_.
     io_bind (visiblePaths depth cwd (actualPath root) identities (actualPath root) []) (\<lambda>verifiedPaths.
     io_bind (io_try (lstat (actualPath root))) (\<lambda>finalRoot.
     let publishedPaths = unique (map sf_relativePath files) in
     io_bind (io_guard (same_root rootBefore finalRoot \<and> length publishedPaths = length verifiedPaths \<and>
        list_all (\<lambda>p. p \<in> set publishedPaths) verifiedPaths) unverified) (\<lambda>_.
     io_bind (update_root_io env rootId (no_update\<lparr>upd_lastScanAt := Some (Some (snd clock))\<rparr>)) (\<lambda>_.
     io_return
       \<lparr>sr_bridgeRootId = root_id root, sr_completedAt = snd clock, sr_failedFiles = count_read READ_FAILED files,
        sr_files = sort_cmp (\<lambda>l r. lc (pathKey (sf_relativePath l)) (pathKey (sf_relativePath r))) files,
        sr_folderDisplayName = displayName root, sr_rootPath = bridgeRootUri (root_id root) [],
        sr_safeLocation = safeLocation root, sr_startedAt = fst clock,
        sr_supportedFiles = count_read SUPPORTED files, sr_totalFiles = length files,
        sr_unsupportedFiles = count_read UNSUPPORTED files\<rparr>))))))))))))"

section \<open>One file by its name\<close>

record resolved_file =
  rf_fileName :: string
  rf_lastModified :: int
  rf_localPath :: string
  rf_relativePath :: string
  rf_sizeBytes :: nat
  rf_sourceCreatedAt :: int

definition missingFileError :: exn where
  "missingFileError = BridgeAppError SOURCE_FILE_MISSING 404"

definition checkResolved :: "string \<Rightarrow> string \<Rightarrow> ('w world_scheme, resolved_file) io" where
  "checkResolved rel resolvedPath =
     io_bind (io_try (lstat resolvedPath)) (\<lambda>r.
     case r of
       Inl _ \<Rightarrow> io_throw missingFileError
     | Inr st \<Rightarrow>
         io_bind (io_guard (\<not> is_symlink st) (BridgeAppError UNSAFE_SYMLINK 403)) (\<lambda>_.
         io_bind (io_guard (is_file st) missingFileError) (\<lambda>_.
         io_bind (io_catch (sys_read (fs_readable resolvedPath))
            (\<lambda>_. io_throw (BridgeAppError READ_PERMISSION_REQUIRED 403))) (\<lambda>_.
         io_return \<lparr>rf_fileName = posix_basename rel, rf_lastModified = st_mtime st, rf_localPath = resolvedPath,
           rf_relativePath = rel, rf_sizeBytes = st_size st, rf_sourceCreatedAt = st_birthtime st\<rparr>))))"

definition resolveBridgeRootFile :: "string \<Rightarrow> string \<Rightarrow> ('w oworld_scheme, resolved_file) io" where
  "resolveBridgeRootFile rootId relativePath =
     io_bind (require_permission rootId ReadPermission) (\<lambda>root.
     io_bind (resolve_io (actualPath root) relativePath) (\<lambda>p. checkResolved (fst p) (snd p)))"

end
