(* ===== verification/JournalFacts.thy ===== *)
theory JournalFacts
  imports JournalSafety
begin

text \<open>
  The journal as a record of authority: an entry that belongs to another action is refused
  before anything changes, recovery of a move never makes a name, and the entry of a folder
  creation tells whether this execution made the folder.
\<close>

section \<open>Undisturbed journal steps\<close>

lemma load_now:
  assumes "sched w = []"
  shows "journals w (sha256hex w owner) = JAbsent \<Longrightarrow> load owner w = (Ok None, w)"
    and "journals w (sha256hex w owner) = JStored e \<Longrightarrow> journal_ok owner e \<Longrightarrow> load owner w = (Ok (Some e), w)"
  using assms by (simp_all add: load_def io_bind_def scheduled_def io_get_def io_return_def)

lemma tick_now: "sched w = [] \<Longrightarrow> tick w = (Ok (), w)"
  by (simp add: tick_def scheduled_def io_return_def)

lemma write_journal_now:
  "sched w = [] \<Longrightarrow>
    writeJournal e w = (Ok (), w\<lparr>journals := (journals w)(sha256hex w (j_owner e) := JStored e)\<rparr>)"
  by (simp add: writeJournal_def io_bind_def tick_now scheduled_def put_journal_def)

text \<open>
  Refused: however the schedule goes, the computation does not succeed, the journals stay as
  they were, and on the disk at most another process has done something; undisturbed it
  throws \<open>COMMAND_RECOVERY_REQUIRED\<close> and changes nothing at all.
\<close>

definition refused :: "'w jworld_scheme \<Rightarrow> ('w jworld_scheme, 'a) io \<Rightarrow> bool" where
  "refused w m \<longleftrightarrow> (\<forall>r. fst (m w) \<noteq> Ok r) \<and> journals (snd (m w)) = journals w \<and> env_step w (snd (m w)) \<and>
     (sched w = [] \<longrightarrow> m w = (Throw PhysicalRecoveryRequired, w))"

lemma refused_after_load:
  assumes "journals w (sha256hex w owner) = JStored e"
    and "journal_ok owner e \<Longrightarrow> k (Some e) = io_throw PhysicalRecoveryRequired"
  shows "refused w (io_bind (load owner) k)"
proof (cases "sched w")
  case Nil
  with assms show ?thesis
    by (cases "journal_ok owner e")
      (simp_all add: refused_def load_def io_bind_def scheduled_def io_get_def io_return_def io_throw_def env_step_def)
next
  case (Cons p ps)
  with assms show ?thesis
    by (cases p; cases "journal_ok owner e")
      (simp_all add: refused_def load_def io_bind_def scheduled_def io_get_def io_return_def io_throw_def env_step_def)
qed

lemma guard_refuses: "\<not> b \<Longrightarrow> io_bind (io_guard b e) f = io_throw e"
  by (simp add: io_guard_def io_bind_def io_throw_def)

text \<open>
  C15. A journal entry of another action is refused before any effect. Take the entry stored
  under an owner. A move is refused if it records another owner, kind, source or destination,
  or another checksum than the command gives; a folder removal, if it records another owner,
  kind, source, destination or original owner; a created folder, if it records another owner,
  kind or destination; a historical recovery, if it records another kind, source or
  destination than the plan's action, for a move if the action gives no checksum or another
  one, for a removal if it records another original owner. Refused means, whatever other
  processes, failing calls or a kill do meanwhile: no success, no change of the journals, no
  change of the disk by the Bridge.
\<close>

theorem foreign_journal_refused:
  assumes "journals w (sha256hex w owner) = JStored e"
  shows "(j_owner e \<noteq> owner \<or> j_kind e \<noteq> MOVE \<or> j_source e \<noteq> Some source \<or> j_destination e \<noteq> dest \<or>
        truthy checksum \<and> map_option id_checksum (j_identity e) \<noteq> checksum \<longrightarrow>
      refused w (journaledMove owner source dest checksum linked captured)) \<and>
    (j_owner e \<noteq> owner \<or> j_kind e \<noteq> REMOVE_FOLDER_J \<or> j_source e \<noteq> Some target \<or> j_destination e \<noteq> target \<or>
        j_originalOwner e \<noteq> Some originalOwner \<longrightarrow>
      refused w (journaledRemoveFolder owner originalOwner target linked captured)) \<and>
    (j_owner e \<noteq> owner \<or> j_kind e \<noteq> CREATE_FOLDER_J \<or> j_destination e \<noteq> dest \<longrightarrow>
      refused w (journaledCreateFolder owner dest)) \<and>
    (j_owner e \<noteq> owner \<or> j_kind e \<noteq> b_kind b \<or> j_source e \<noteq> b_source b \<or> j_destination e \<noteq> b_destination b \<or>
        b_kind b = MOVE \<and> (\<not> truthy (b_checksum b) \<or> map_option id_checksum (j_identity e) \<noteq> b_checksum b) \<or>
        b_kind b = REMOVE_FOLDER_J \<and> j_originalOwner e \<noteq> b_originalOwner b \<longrightarrow>
      refused w (recoverPhysicalAction owner (Some b)))"
proof (intro conjI impI)
  assume *: "j_owner e \<noteq> owner \<or> j_kind e \<noteq> MOVE \<or> j_source e \<noteq> Some source \<or> j_destination e \<noteq> dest \<or>
        truthy checksum \<and> map_option id_checksum (j_identity e) \<noteq> checksum"
  show "refused w (journaledMove owner source dest checksum linked captured)"
    unfolding journaledMove_def
    by (rule refused_after_load[OF assms]) (use * in \<open>auto simp: journal_ok_def move_authority_def intro!: guard_refuses\<close>)
next
  assume *: "j_owner e \<noteq> owner \<or> j_kind e \<noteq> REMOVE_FOLDER_J \<or> j_source e \<noteq> Some target \<or> j_destination e \<noteq> target \<or>
        j_originalOwner e \<noteq> Some originalOwner"
  show "refused w (journaledRemoveFolder owner originalOwner target linked captured)"
    unfolding journaledRemoveFolder_def
    by (rule refused_after_load[OF assms]) (use * in \<open>auto simp: journal_ok_def remove_authority_def intro!: guard_refuses\<close>)
next
  assume *: "j_owner e \<noteq> owner \<or> j_kind e \<noteq> CREATE_FOLDER_J \<or> j_destination e \<noteq> dest"
  show "refused w (journaledCreateFolder owner dest)"
    unfolding journaledCreateFolder_def
    by (rule refused_after_load[OF assms]) (use * in \<open>auto simp: journal_ok_def intro!: guard_refuses\<close>)
next
  assume *: "j_owner e \<noteq> owner \<or> j_kind e \<noteq> b_kind b \<or> j_source e \<noteq> b_source b \<or> j_destination e \<noteq> b_destination b \<or>
        b_kind b = MOVE \<and> (\<not> truthy (b_checksum b) \<or> map_option id_checksum (j_identity e) \<noteq> b_checksum b) \<or>
        b_kind b = REMOVE_FOLDER_J \<and> j_originalOwner e \<noteq> b_originalOwner b"
  show "refused w (recoverPhysicalAction owner (Some b))"
    unfolding recoverPhysicalAction_def
    by (rule refused_after_load[OF assms]) (use * in \<open>auto simp: journal_ok_def recovery_authority_def intro!: guard_refuses\<close>)
qed

text \<open>A foreign process edits the disk meanwhile.\<close>

theorem foreign_journal_refused_witness:
  "refused (desk_jworld [Interfere editor] (JStored resumed))
     (journaledMove ''o'' ''/r/a'' ''/r/c'' None (io_return ()) (io_return ()))"
proof -
  have "journals (desk_jworld [Interfere editor] (JStored resumed)) (sha256hex (desk_jworld [Interfere editor] (JStored resumed)) ''o'') = JStored resumed"
    by (simp add: desk_jworld_def)
  moreover have "j_destination resumed \<noteq> ''/r/c''" by code_simp
  ultimately show ?thesis using foreign_journal_refused by blast
qed

section \<open>Recovery makes no name\<close>

definition shrinking :: "(string \<Rightarrow> nat option) \<Rightarrow> 'w world_scheme \<Rightarrow> bool" where
  "shrinking L w \<longleftrightarrow> (\<forall>g. Interfere g \<notin> set (sched w)) \<and> (\<forall>p i. lookup (disk w) p = Some i \<longrightarrow> L p = Some i)"

lemma stable_shrinking: "stable (shrinking L)"
  unfolding stable_def env_step_def shrinking_def by (metis list.set_intros)

lemma shrinking_write:
  assumes "\<And>f d p. op f = Inr d \<Longrightarrow> lookup d p = lookup f p \<or> lookup d p = None"
  shows "preserves (shrinking L) (sys_write op)"
proof (rule preserves_write[OF stable_shrinking])
  fix w d assume w: "shrinking L w" and d: "op (disk w) = Inr d"
  have "lookup (disk w) p = Some i" if "lookup d p = Some i" for p i
    using assms[OF d, of p] that by auto
  with w show "shrinking L (w\<lparr>disk := d\<rparr>)" by (simp add: shrinking_def)
qed

lemmas shrinking_ro = preserves_readonly[OF stable_shrinking]

lemma shrinking_steps [keeps]:
  "preserves (shrinking L) (sys_write (fs_rmdir p))"
  "preserves (shrinking L) (sys_write (fs_unlink p))"
  by (rule shrinking_write; auto simp: fs_rmdir_def fs_unlink_def split: option.splits if_splits)+

lemma shrinking_reads [keeps]:
  "preserves (shrinking L) (statOrAbsent p)" "preserves (shrinking L) (lstat p)"
  "preserves (shrinking L) (syncDirectory p)" "preserves (shrinking L) (physicalFileIdentity p)"
  "preserves (shrinking L) (set_live l)" "preserves (shrinking L) (completeMove e)"
  "preserves (shrinking L) (load owner)" "preserves (shrinking L) (io_get f)"
  by (auto intro!: shrinking_ro keeps)

text \<open>With source changes not allowed, removing an admitted capture makes no name.\<close>

lemma capture_refused: "captureSource source identity hooks c False = io_throw PlainError"
  by (simp add: captureSource_def io_guard_def io_bind_def io_throw_def)

lemma shrinking_remove [keeps]:
  "preserves (shrinking L) (removeOwnedSource source identity hooks (Some c) False)"
  unfolding removeOwnedSource_def capture_refused verifyAndDiscard_def rejectCaptured_def discardCaptured_def
    io_when_def option.case
  by (intro keeps)  simp_all

lemma bind_return [simp]: "io_bind (io_return x) f = f x"
  by (simp add: io_bind_def io_return_def)

lemma shrinking_or_recovery [keeps]: "preserves (shrinking L) m \<Longrightarrow> preserves (shrinking L) (or_recovery m)"
  unfolding or_recovery_def by (intro keeps)

lemma finish_refused: "finishOwnedSource e False s cs = io_throw PhysicalRecoveryRequired"
  by (simp add: finishOwnedSource_def io_guard_def io_bind_def io_throw_def)

lemma shrinking_discard [keeps]: "preserves (shrinking L) (discardEmptyCapture e s)"
  unfolding discardEmptyCapture_def by (intro keeps)

lemma shrinking_clean:
  assumes "capturedSource \<noteq> None \<Longrightarrow> j_sourceCapture e = Some c"
  shows "preserves (shrinking L) (cleanMovedSource e False s cs capturedSource)"
  unfolding cleanMovedSource_def finish_refused using assms
  by (auto intro!: keeps)

lemma shrinking_recoverOwned [keeps]: "preserves (shrinking L) (recoverOwnedMove e False s)"
proof (cases "j_sourceCapture e")
  case None
  then show ?thesis
    unfolding recoverOwnedMove_def by (simp, intro keeps shrinking_clean) simp_all
next
  case (Some c)
  then show ?thesis
    unfolding recoverOwnedMove_def by (simp, intro keeps shrinking_clean[where c = c]) simp_all
qed

lemma shrinking_recoverMove [keeps]: "preserves (shrinking L) (recoverMove e False)"
  unfolding recoverMove_def identityIfFile_def by (intro keeps)

text \<open>
  C9. Recovering a move admits no new effect: when no other process interferes, whatever
  fails and wherever the process is killed, \<open>recoverPhysicalAction\<close> for an action that is
  not a folder removal makes no name and repoints none. Every name it leaves was there
  before and names the same file.
\<close>

theorem recovery_makes_no_name:
  assumes "\<And>g. Interfere g \<notin> set (sched w)"
    and "\<And>e. journals w (sha256hex w owner) = JStored e \<Longrightarrow> j_kind e \<noteq> REMOVE_FOLDER_J"
    and "lookup (disk (snd (recoverPhysicalAction owner b w))) p = Some i"
  shows "lookup (disk w) p = Some i"
proof -
  let ?I = "shrinking (lookup (disk w))"
  have I: "?I w" using assms(1) by (simp add: shrinking_def)
  have "preserves ?I (load owner)" by (intro keeps)
  from preserves_use[of ?I, OF this I] have ld: "?I (snd (load owner w))" .
  have kind: "j_kind e \<noteq> REMOVE_FOLDER_J" if "load owner w = (Ok (Some e), w')" for e w'
    using that assms(2)
    by (auto simp: load_def io_bind_def scheduled_def io_get_def io_return_def io_throw_def Let_def
        split: list.splits perturb.splits journal_file.splits if_splits)
  have "?I (snd (recoverPhysicalAction owner b w))"
  proof (cases "\<exists>e w'. load owner w = (Ok (Some e), w')")
    case True
    then obtain e w' where l: "load owner w = (Ok (Some e), w')" by blast
    have "preserves ?I (resumePhysicalAction e)"
      using kind[OF l] by (auto simp: resumePhysicalAction_def intro!: keeps)
    then have "preserves ?I (io_bind (io_guard (case b of None \<Rightarrow> True | Some b \<Rightarrow> recovery_authority b e)
        PhysicalRecoveryRequired) (\<lambda>_. resumePhysicalAction e))" by (intro keeps)
    from preserves_use[of ?I, OF this] ld l show ?thesis by (simp add: recoverPhysicalAction_def io_bind_def)
  next
    case False
    have "snd (recoverPhysicalAction owner b w) = snd (load owner w)"
    proof (cases "load owner w")
      case (Pair r w')
      with False show ?thesis
        by (cases r) (auto simp: recoverPhysicalAction_def io_bind_def io_return_def split: option.split)
    qed
    with ld show ?thesis by simp
  qed
  with assms(3) show ?thesis by (simp add: shrinking_def)
qed

theorem recovery_makes_no_name_witness:
  "\<not> (\<exists>i. lookup (disk (snd (recoverPhysicalAction ''o'' None
      (desk_jworld [Quiet, Quiet, Fail EACCES] (JStored resumed))))) ''/r/b'' = Some i)"
proof
  let ?w = "desk_jworld [Quiet, Quiet, Fail EACCES] (JStored resumed)"
  assume "\<exists>i. lookup (disk (snd (recoverPhysicalAction ''o'' None ?w))) ''/r/b'' = Some i"
  then obtain i where "lookup (disk (snd (recoverPhysicalAction ''o'' None ?w))) ''/r/b'' = Some i" ..
  then have "lookup (disk ?w) ''/r/b'' = Some i"
    by (rule recovery_makes_no_name[rotated 2]) (auto simp: desk_jworld_def resumed_def new_move_def)
  then show False by (simp add: desk_jworld_def desk_def lookup_def)
qed

section \<open>Creating a folder\<close>

definition created_entry :: "string \<Rightarrow> string \<Rightarrow> bool \<Rightarrow> stats \<Rightarrow> journal" where
  "created_entry owner destination created st =
     (new_folder owner destination)\<lparr>j_created := created, j_identity := Some (folder_identity st), j_state := COMPLETED\<rparr>"

lemma record_now:
  assumes "sched w = []" "lookup (disk w) destination = Some i" "lookup (disk w) (posix_dirname destination) \<noteq> None"
  shows "recordCreatedFolder owner destination created w =
    (if node_kind (fs_node (disk w) i) = Directory
     then (Ok (created_entry owner destination created (stats_of (disk w) i)),
       w\<lparr>journals := (journals w)(sha256hex w owner :=
         JStored (created_entry owner destination created (stats_of (disk w) i)))\<rparr>)
     else (Throw PhysicalRecoveryRequired, w))"
proof -
  have own: "j_owner (created_entry owner destination created st) = owner" for st
    by (simp add: created_entry_def new_folder_def)
  have "lstat destination w = (Ok (stats_of (disk w) i), w)"
    using assms(1,2) by (simp add: lstat_def read_now fs_lstat_def)
  then show ?thesis
    using assms(1)
    by (auto simp: recordCreatedFolder_def io_bind_def io_guard_def io_return_def io_throw_def Let_def
        is_directory_def is_symlink_def sync_now[OF assms(1,3)] write_journal_now own
        simp flip: created_entry_def) (simp_all add: stats_of_def)
qed

text \<open>
  The journal of a folder creation tells who made the folder. Undisturbed and without
  an earlier entry, a free destination becomes a new directory and the completed entry says
  \<open>created\<close>; a directory that is there already is left alone and the entry says not
  created, so no later undo can remove it; anything else there stops the action. In each
  case no other name changes.
\<close>

theorem createFolder_ownership:
  assumes "sched w = []" "journals w (sha256hex w owner) = JAbsent"
    and "kind_at (disk w) (posix_dirname destination) = Some Directory"
  defines "r \<equiv> journaledCreateFolder owner destination w"
  shows "case lookup (disk w) destination of
      None \<Rightarrow> (\<exists>e. fst r = Ok e \<and> j_created e \<and> j_state e = COMPLETED \<and> j_destination e = destination) \<and>
        lookup (disk (snd r)) = (lookup (disk w))(destination \<mapsto> fs_next (disk w)) \<and>
        kind_at (disk (snd r)) destination = Some Directory
    | Some i \<Rightarrow> lookup (disk (snd r)) = lookup (disk w) \<and>
        (if node_kind (fs_node (disk w) i) = Directory
         then \<exists>e. fst r = Ok e \<and> \<not> j_created e \<and> j_state e = COMPLETED
         else fst r = Throw PhysicalRecoveryRequired)"
proof -
  let ?w1 = "w\<lparr>journals := (journals w)(sha256hex w owner := JStored (new_folder owner destination))\<rparr>"
  have own: "j_owner (new_folder owner destination) = owner" by (simp add: new_folder_def)
  have first: "r = (case mkdir_if_absent destination ?w1 of
      (Ok created, w') \<Rightarrow> recordCreatedFolder owner destination created w'
      | (Throw e, w') \<Rightarrow> (Throw e, w') | (Crashed, w') \<Rightarrow> (Crashed, w'))"
    using assms(1) load_now(1)[OF assms(1,2)]
    by (simp add: r_def journaledCreateFolder_def createFolderFresh_def io_bind_def write_journal_now own)
  have parent: "lookup (disk w) (posix_dirname destination) \<noteq> None"
    using assms(3) by (auto simp: kind_at_def)
  show ?thesis
  proof (cases "lookup (disk w) destination")
    case None
    let ?f = "(add_name destination (fs_next (disk w)) (disk w))\<lparr>fs_node := (fs_node (disk w))(fs_next (disk w) := empty_dir),
        fs_next := Suc (fs_next (disk w))\<rparr>"
    let ?w2 = "?w1\<lparr>disk := ?f\<rparr>"
    have mk: "mkdir_if_absent destination ?w1 = (Ok True, ?w2)"
      using assms(1,3) None
      by (simp add: mkdir_if_absent_def io_catch_def io_bind_def io_return_def write_now[of _ _ ?f] fs_mkdir_def)
    have "lookup (disk ?w2) (posix_dirname destination) \<noteq> None" using parent by simp
    from record_now[OF _ _ this, of "fs_next (disk w)" owner True]
    have "r = (Ok (created_entry owner destination True (stats_of ?f (fs_next (disk w)))),
       ?w2\<lparr>journals := (journals ?w2)(sha256hex w owner :=
         JStored (created_entry owner destination True (stats_of ?f (fs_next (disk w)))))\<rparr>)"
      using assms(1) unfolding first mk by (simp add: empty_dir_def)
    then show ?thesis
      using None by (simp add: created_entry_def new_folder_def kind_at_def) (simp add: empty_dir_def)
  next
    case (Some i)
    have mk: "mkdir_if_absent destination ?w1 = (Ok False, ?w1)"
      using assms(1) Some
      by (simp add: mkdir_if_absent_def io_catch_def io_bind_def io_return_def sys_write_def scheduled_def fs_mkdir_def)
    show ?thesis
      using Some assms(1) parent record_now[of ?w1 destination i owner False] unfolding first mk
      by (simp add: created_entry_def)
  qed
qed

theorem createFolder_ownership_witness:
  "(\<exists>e. fst (journaledCreateFolder ''o'' ''/r/new'' (desk_jworld [] JAbsent)) = Ok e \<and> j_created e) \<and>
   (\<exists>e. fst (journaledCreateFolder ''o'' ''/r'' (desk_jworld [] JAbsent)) = Ok e \<and> \<not> j_created e)"
proof -
  have d: "posix_dirname ''/r/new'' = ''/r''" "posix_dirname ''/r'' = ''/''" by code_simp+
  have l: "lookup desk ''/r/new'' = None" "lookup desk ''/r'' = Some 1" "lookup desk ''/'' = Some 0"
    by (simp_all add: desk_def lookup_def)
  have n: "node_kind (fs_node desk 1) = Directory" "node_kind (fs_node desk 0) = Directory"
    by (simp_all add: desk_def empty_dir_def)
  show ?thesis
    using createFolder_ownership[of "desk_jworld [] JAbsent" "''o''" "''/r/new''"]
      createFolder_ownership[of "desk_jworld [] JAbsent" "''o''" "''/r''"] d l n
    by (simp add: desk_jworld_def kind_at_def) blast
qed

end
