(* ===== verification/OperationsFacts.thy ===== *)
theory OperationsFacts
  imports Operations JournalFacts
begin

text \<open>
  Plans as wholes: the order of an execution and what is left alone after a failure, what
  a preview that allows execution has checked, and that nothing happens without a grant.
\<close>

section \<open>Reasoning about results only\<close>

text \<open>Whatever the world, a normal result satisfies \<open>Q\<close>.\<close>

definition returns :: "('w, 'a) io \<Rightarrow> ('a \<Rightarrow> bool) \<Rightarrow> bool" where
  "returns m Q \<longleftrightarrow> (\<forall>w x w'. m w = (Ok x, w') \<longrightarrow> Q x)"

lemma returnsD: "returns m Q \<Longrightarrow> m w = (Ok x, w') \<Longrightarrow> Q x"
  by (auto simp: returns_def)

lemma returns_return: "Q x \<Longrightarrow> returns (io_return x) Q"
  and returns_throw: "returns (io_throw e) Q"
  by (auto simp: returns_def io_return_def io_throw_def)

lemma returns_bind:
  assumes "returns m Q'" "\<And>x. Q' x \<Longrightarrow> returns (f x) Q"
  shows "returns (io_bind m f) Q"
  unfolding returns_def
proof (intro allI impI)
  fix w x w' assume r: "io_bind m f w = (Ok x, w')"
  obtain y w1 where m: "m w = (y, w1)" by fastforce
  with r obtain z where z: "y = Ok z" "f z w1 = (Ok x, w')" by (cases y) (auto simp: io_bind_def)
  with m have "Q' z" using returnsD[OF assms(1)] by simp
  from returnsD[OF assms(2)[OF this] z(2)] show "Q x" .
qed

lemma returns_any: "returns m (\<lambda>_. True)"
  by (simp add: returns_def)

lemma returns_skip: "(\<And>x. returns (f x) Q) \<Longrightarrow> returns (io_bind m f) Q"
  by (rule returns_bind[OF returns_any]) auto

lemma returns_weaken: "returns m Q' \<Longrightarrow> (\<And>x. Q' x \<Longrightarrow> Q x) \<Longrightarrow> returns m Q"
  by (auto simp: returns_def)

lemma returns_catch:
  assumes m: "returns m Q" and h: "\<And>e. returns (h e) Q"
  shows "returns (io_catch m h) Q"
  unfolding returns_def
proof (intro allI impI)
  fix w x w' assume r: "io_catch m h w = (Ok x, w')"
  obtain y w1 where y: "m w = (y, w1)" by fastforce
  show "Q x"
  proof (cases y)
    case (Ok z)
    with r y returnsD[OF m, of w z w1] show ?thesis by (simp add: io_catch_def)
  next
    case (Throw e)
    with r y returnsD[OF h, of e w1 x w'] show ?thesis by (simp add: io_catch_def)
  qed (use r y in \<open>simp add: io_catch_def\<close>)
qed

lemma returns_if:
  "(b \<Longrightarrow> returns m Q) \<Longrightarrow> (\<not> b \<Longrightarrow> returns n Q) \<Longrightarrow> returns (if b then m else n) Q"
  by simp

lemma returns_guard: "returns (io_guard b e) (\<lambda>_. b)"
  by (auto simp: returns_def io_guard_def io_throw_def io_return_def)

lemma returns_result: "returns (io_result r) (\<lambda>x. r = Inr x)"
  by (cases r) (auto simp: returns_def io_result_def io_throw_def io_return_def)

lemma returns_try: "returns m Q \<Longrightarrow> returns (io_try m) (\<lambda>r. \<forall>x. r = Inr x \<longrightarrow> Q x)"
  unfolding io_try_def
  by (intro returns_catch returns_bind[of m Q] returns_return) auto

section \<open>The order of an execution\<close>

lemma compare_actions_order:
  "executionOrder (pa_actionType a) < executionOrder (pa_actionType b) \<Longrightarrow> compare_actions lc a b < 0"
  "executionOrder (pa_actionType b) < executionOrder (pa_actionType a) \<Longrightarrow> compare_actions lc a b > 0"
  by (simp_all add: compare_actions_def Let_def)

lemma ordered_actions:
  "sorted (map (\<lambda>a. executionOrder (pa_actionType a)) (sort_cmp (compare_actions lc) actions))"
  by (rule sorted_sort_cmp) (simp_all add: compare_actions_order)

text \<open>
  The patches of the loops change no identifying field, and settle the result: it is
  completed, failed, or marked for recovery.
\<close>

definition settled_result :: "action_result \<Rightarrow> bool" where
  "settled_result r \<longleftrightarrow> ar_status r = A_COMPLETED \<or> ar_status r = A_FAILED \<or>
     ar_safeErrorCategory r = Some COMMAND_RECOVERY_REQUIRED"

definition tame :: "(action_result \<Rightarrow> action_result) \<Rightarrow> bool" where
  "tame f \<longleftrightarrow> (\<forall>r. ar_actionId (f r) = ar_actionId r \<and> ar_actionType (f r) = ar_actionType r \<and> settled_result (f r))"

text \<open>A patch of a turn that goes on completes the result.\<close>

definition completing :: "(action_result \<Rightarrow> action_result) \<Rightarrow> bool" where
  "completing f \<longleftrightarrow> (\<forall>r. ar_status (f r) = A_COMPLETED)"

lemma tame_patches:
  "tame uncertain_patch" "tame (settled_patch e)" "tame (\<lambda>r. r\<lparr>ar_status := A_FAILED, ar_physicalEffect := x\<rparr>)"
  "tame (completed_patch x)"
  "tame (\<lambda>r. completed_patch x (moved_patch e r))"
  "tame (\<lambda>r. completed_patch x (r\<lparr>ar_createdFilesystemItem := c\<rparr>))"
  "tame f \<Longrightarrow> tame (\<lambda>r. f (r\<lparr>ar_safeErrorCategory := c'\<rparr>))"
  by (simp_all add: tame_def settled_result_def uncertain_patch_def settled_patch_def completed_patch_def moved_patch_def)

lemma completing_patches:
  "completing (completed_patch x)" "completing (\<lambda>r. completed_patch x (g r))"
  by (simp_all add: completing_def completed_patch_def)

lemma performAction_patch: "returns (performAction rootId rootPath a) (\<lambda>f. tame f \<and> completing f)"
  unfolding performAction_def Let_def case_prod_beta
  by (intro returns_skip returns_if returns_return) (simp_all add: tame_patches completing_patches)

lemma performUndo_patch: "returns (performUndo rootId rootPath a) (\<lambda>f. tame f \<and> completing f)"
  unfolding performUndo_def Let_def case_prod_beta
  by (intro returns_skip returns_if returns_return) (simp_all add: tame_patches completing_patches)

lemma settle_patch: "returns (settleFailedPhysicalAction rootId rootPath act undo) tame"
proof -
  have "returns (case entry of None \<Rightarrow> io_return uncertain_patch | Some e \<Rightarrow> io_return (settled_patch e)) tame" for entry
    by (cases entry) (simp_all add: returns_return tame_patches)
  then show ?thesis
    unfolding settleFailedPhysicalAction_def
    by (intro returns_catch returns_skip returns_if returns_return tame_patches)
qed

lemma attempt_patch:
  assumes "returns perform (\<lambda>f. tame f \<and> completing f)"
  shows "returns (attempt perform rootId rootPath act undo) (\<lambda>(f, goOn). tame f \<and> (goOn \<longrightarrow> completing f))"
  unfolding attempt_def
proof (rule returns_bind[OF returns_try[OF assms]])
  fix r :: "exn + (action_result \<Rightarrow> action_result)"
  assume r: "\<forall>x. r = Inr x \<longrightarrow> tame x \<and> completing x"
  have stop: "returns (io_bind (settleFailedPhysicalAction rootId rootPath act undo) (\<lambda>f.
      io_return (\<lambda>r. f (r\<lparr>ar_safeErrorCategory := c\<rparr>), False))) (\<lambda>(f, goOn). tame f \<and> (goOn \<longrightarrow> completing f))" for c
    by (intro returns_bind[OF settle_patch] returns_return) (simp add: tame_patches)
  from r show "returns (case r of Inl e \<Rightarrow> io_bind (settleFailedPhysicalAction rootId rootPath act undo) (\<lambda>f.
         io_return (\<lambda>r. f (r\<lparr>ar_safeErrorCategory := Some (category_of FILESYSTEM_OPERATION_FAILED e)\<rparr>), False))
     | Inr f \<Rightarrow> io_return (f, True)) (\<lambda>(f, goOn). tame f \<and> (goOn \<longrightarrow> completing f))"
    by (cases r) (simp_all add: stop returns_return)
qed

lemma map_set_result:
  assumes "tame f"
  shows "map (\<lambda>r. (ar_actionId r, ar_actionType r)) (set_result i f rs) =
    map (\<lambda>r. (ar_actionId r, ar_actionType r)) rs"
proof -
  have "map (\<lambda>r. (ar_actionId r, ar_actionType r)) (update_first P f xs) =
    map (\<lambda>r. (ar_actionId r, ar_actionType r)) xs" for P xs
    by (rule map_update_first) (use assms in \<open>simp add: tame_def\<close>)
  then show ?thesis by (simp add: set_result_def flip: rev_map)
qed

text \<open>With distinct ids the result of an action is the one at its own position.\<close>

lemma update_first_split:
  "\<forall>x \<in> set xs. \<not> P x \<Longrightarrow> P y \<Longrightarrow> update_first P f (xs @ y # ys) = xs @ f y # ys"
  by (induction xs) auto

lemma set_result_split:
  assumes "\<forall>r \<in> set ys. ar_actionId r \<noteq> ar_actionId y"
  shows "set_result (ar_actionId y) f (xs @ y # ys) = xs @ f y # ys"
  using assms update_first_split[of "rev ys" "\<lambda>r. ar_actionId r = ar_actionId y" y f "rev xs"]
  by (simp add: set_result_def)

text \<open>
  The loop completes a prefix, settles at most one more result, and leaves the rest as it
  found them.
\<close>

definition prefix_done :: "nat \<Rightarrow> action_result list \<Rightarrow> action_result list \<Rightarrow> bool" where
  "prefix_done m before after \<longleftrightarrow>
     map (\<lambda>r. (ar_actionId r, ar_actionType r)) after = map (\<lambda>r. (ar_actionId r, ar_actionType r)) before \<and>
     (\<exists>n \<ge> m. (\<forall>r \<in> set (take n after). ar_status r = A_COMPLETED) \<and> (\<forall>r \<in> set (take (Suc n) after). settled_result r) \<and>
        drop (Suc n) after = drop (Suc n) before)"

text \<open>One turn of either loop, on the result at its place.\<close>

lemma turn:
  assumes "tame f" "distinct (map ar_actionId (past @ y # ys))"
  shows "set_result (ar_actionId y) f (past @ y # ys) = past @ f y # ys"
    "map (\<lambda>r. (ar_actionId r, ar_actionType r)) (past @ f y # ys) =
     map (\<lambda>r. (ar_actionId r, ar_actionType r)) (past @ y # ys)"
    "distinct (map ar_actionId (past @ f y # ys))"
proof -
  have "ar_actionId y \<notin> ar_actionId ` set ys" using assms(2) by simp
  then have "\<forall>r \<in> set ys. ar_actionId r \<noteq> ar_actionId y" by (metis imageI)
  then show "set_result (ar_actionId y) f (past @ y # ys) = past @ f y # ys" by (rule set_result_split)
  show "map (\<lambda>r. (ar_actionId r, ar_actionType r)) (past @ f y # ys) =
     map (\<lambda>r. (ar_actionId r, ar_actionType r)) (past @ y # ys)"
    "distinct (map ar_actionId (past @ f y # ys))"
    using assms by (simp_all add: tame_def)
qed

lemma prefix_done_turn:
  assumes "tame f" "prefix_done (Suc (length past)) (past @ f y # ys) after"
  shows "prefix_done (length past) (past @ y # ys) after"
proof -
  obtain n where n: "Suc (length past) \<le> n" "\<forall>r \<in> set (take n after). ar_status r = A_COMPLETED"
    "\<forall>r \<in> set (take (Suc n) after). settled_result r" "drop (Suc n) after = drop (Suc n) (past @ f y # ys)"
    using assms(2) by (auto simp: prefix_done_def)
  obtain d where "n = length past + Suc d" using n(1) by (metis add_Suc_right add_Suc le_Suc_ex)
  then have "drop (Suc n) (past @ f y # ys) = drop (Suc n) (past @ y # ys)" by simp
  with n(4) have tail: "drop (Suc n) after = drop (Suc n) (past @ y # ys)" by simp
  have "ar_actionId (f y) = ar_actionId y" "ar_actionType (f y) = ar_actionType y"
    using assms(1) by (simp_all add: tame_def)
  then have "map (\<lambda>r. (ar_actionId r, ar_actionType r)) after =
      map (\<lambda>r. (ar_actionId r, ar_actionType r)) (past @ y # ys)"
    using assms(2) by (simp add: prefix_done_def)
  moreover have "length past \<le> n" using n(1) by simp
  ultimately show ?thesis using n(2,3) tail unfolding prefix_done_def by blast
qed

lemma loop_prefix:
  assumes "\<And>rs. loop [] rs = io_return rs"
    and "\<And>a as rs. loop (a # as) rs = io_bind (att a) (\<lambda>x.
       if snd x then loop as (set_result (key a) (fst x) rs) else io_return (set_result (key a) (fst x) rs))"
    and "\<And>a. returns (att a) (\<lambda>x. tame (fst x) \<and> (snd x \<longrightarrow> completing (fst x)))"
    and "\<And>a. ar_actionId (start a) = key a"
  shows "\<forall>r \<in> set past. ar_status r = A_COMPLETED \<Longrightarrow> distinct (map ar_actionId (past @ map start as)) \<Longrightarrow>
    returns (loop as (past @ map start as)) (prefix_done (length past) (past @ map start as))"
proof (induction as arbitrary: past)
  case Nil
  then show ?case
    unfolding assms(1) by (intro returns_return) (auto simp: prefix_done_def settled_result_def)
next
  case (Cons a as)
  let ?y = "start a" let ?ys = "map start as"
  have d: "distinct (map ar_actionId (past @ ?y # ?ys))" using Cons.prems by simp
  have "returns (loop (a # as) (past @ ?y # ?ys)) (prefix_done (length past) (past @ ?y # ?ys))"
    unfolding assms(2)
  proof (rule returns_bind[OF assms(3)], elim conjE, intro returns_if)
    fix x assume f: "tame (fst x)" "snd x \<longrightarrow> completing (fst x)"
    note t = turn[OF f(1) d, unfolded assms(4)]
    show "returns (loop as (set_result (key a) (fst x) (past @ ?y # ?ys))) (prefix_done (length past) (past @ ?y # ?ys))"
      if "snd x"
    proof -
      have "\<forall>r \<in> set (past @ [fst x ?y]). ar_status r = A_COMPLETED"
        using Cons.prems f that by (auto simp: completing_def)
      moreover have "distinct (map ar_actionId ((past @ [fst x ?y]) @ ?ys))" using t(3) by simp
      ultimately have "returns (loop as (past @ fst x ?y # ?ys)) (prefix_done (Suc (length past)) (past @ fst x ?y # ?ys))"
        using Cons.IH[of "past @ [fst x ?y]"] by simp
      then show ?thesis unfolding t(1) by (rule returns_weaken) (rule prefix_done_turn[OF f(1)])
    qed
    show "returns (io_return (set_result (key a) (fst x) (past @ ?y # ?ys))) (prefix_done (length past) (past @ ?y # ?ys))"
      unfolding t(1) using Cons.prems(1) t(2) f(1)
      by (intro returns_return) (auto simp: prefix_done_def settled_result_def tame_def intro!: exI[of _ "length past"])
  qed
  then show ?case by simp
qed

lemma execute_turn:
  "returns (attempt (performAction rootId rootPath a) rootId rootPath (PlanAction a) False)
    (\<lambda>x. tame (fst x) \<and> (snd x \<longrightarrow> completing (fst x)))"
  by (rule returns_weaken[OF attempt_patch[OF performAction_patch]]) auto

lemma undo_turn:
  "returns (attempt (performUndo rootId rootPath a) rootId rootPath (UndoAction a) True)
    (\<lambda>x. tame (fst x) \<and> (snd x \<longrightarrow> completing (fst x)))"
  by (rule returns_weaken[OF attempt_patch[OF performUndo_patch]]) auto

lemma executeLoop_prefix:
  assumes "distinct (map pa_id as)"
  shows "returns (executeLoop rootId rootPath as (map pending_result as)) (prefix_done 0 (map pending_result as))"
proof -
  have "returns (executeLoop rootId rootPath as ([] @ map pending_result as))
      (prefix_done (length ([] :: action_result list)) ([] @ map pending_result as))"
  proof (rule loop_prefix[where key = pa_id and
        att = "\<lambda>a. attempt (performAction rootId rootPath a) rootId rootPath (PlanAction a) False"])
    show "distinct (map ar_actionId ([] @ map pending_result as))"
      using assms by (simp add: pending_result_def o_def)
  qed (simp_all add: execute_turn case_prod_beta' pending_result_def)
  then show ?thesis by simp
qed

lemma undoLoop_prefix:
  assumes "distinct (map ua_id as)"
  shows "returns (undoLoop rootId rootPath as (map pending_undo_result as)) (prefix_done 0 (map pending_undo_result as))"
proof -
  have "returns (undoLoop rootId rootPath as ([] @ map pending_undo_result as))
      (prefix_done (length ([] :: action_result list)) ([] @ map pending_undo_result as))"
  proof (rule loop_prefix[where key = ua_id and
        att = "\<lambda>a. attempt (performUndo rootId rootPath a) rootId rootPath (UndoAction a) True"])
    show "distinct (map ar_actionId ([] @ map pending_undo_result as))"
      using assms by (simp add: pending_undo_result_def o_def)
  qed (simp_all add: undo_turn case_prod_beta' pending_undo_result_def)
  then show ?thesis by simp
qed

lemma execution_prefix:
  assumes "distinct (map pa_id actions)"
    and "executeBridgePlanActionsOwned lc rootId actions w = (Ok r, w')"
  obtains ordered rs where "r = run_result_of rootId (length actions) rs" "mset ordered = mset actions"
    "sorted (map (\<lambda>a. executionOrder (pa_actionType a)) ordered)" "map ar_actionId rs = map pa_id ordered"
    "prefix_done 0 (map pending_result ordered) rs"
proof -
  let ?o = "sort_cmp (compare_actions lc) actions"
  have d: "distinct (map pa_id ?o)"
    using assms(1) by (metis distinct_map mset_sort_cmp mset_eq_imp_distinct_iff set_sort_cmp)
  have "returns (executeBridgePlanActionsOwned lc rootId actions)
      (\<lambda>r. \<exists>rs. r = run_result_of rootId (length actions) rs \<and> prefix_done 0 (map pending_result ?o) rs)"
    unfolding executeBridgePlanActionsOwned_def Let_def
    by (rule returns_skip, rule returns_skip, rule returns_skip, rule returns_bind[OF executeLoop_prefix[OF d]],
      rule returns_return) blast
  then obtain rs where rs: "r = run_result_of rootId (length actions) rs" "prefix_done 0 (map pending_result ?o) rs"
    using assms(2) by (auto dest: returnsD)
  have "map (\<lambda>r. (ar_actionId r, ar_actionType r)) rs = map (\<lambda>r. (ar_actionId r, ar_actionType r)) (map pending_result ?o)"
    using rs(2) by (simp add: prefix_done_def)
  then have "map fst (map (\<lambda>r. (ar_actionId r, ar_actionType r)) rs) =
      map fst (map (\<lambda>r. (ar_actionId r, ar_actionType r)) (map pending_result ?o))" by (rule arg_cong)
  then have "map ar_actionId rs = map pa_id ?o" by (simp add: o_def pending_result_def)
  with rs ordered_actions[of lc actions] show ?thesis by (intro that[of rs ?o]) simp_all
qed

text \<open>A settled result that is neither failed nor marked for recovery is completed.\<close>

lemma completed_prefix:
  assumes "prefix_done 0 (map pending_result ordered) rs" "run_status_of rs = R_COMPLETED"
  shows "(\<forall>x \<in> set (take (count_status A_COMPLETED rs) rs). ar_status x = A_COMPLETED) \<and>
    drop (count_status A_COMPLETED rs) rs = drop (count_status A_COMPLETED rs) (map pending_result ordered)"
proof -
  obtain n where n: "\<forall>x \<in> set (take (Suc n) rs). settled_result x" "drop (Suc n) rs = drop (Suc n) (map pending_result ordered)"
    using assms(1) by (auto simp: prefix_done_def)
  have "\<forall>x \<in> set rs. ar_safeErrorCategory x \<noteq> Some COMMAND_RECOVERY_REQUIRED \<and> ar_status x \<noteq> A_FAILED"
    using assms(2) by (auto simp: run_status_of_def count_status_def filter_empty_conv split: if_splits)
  then have "ar_status x = A_COMPLETED" if "x \<in> set (take (Suc n) rs)" for x
    using n(1) that in_set_takeD[OF that] unfolding settled_result_def by blast
  then have first: "\<forall>x \<in> set (take (Suc n) rs). ar_status x = A_COMPLETED" by blast
  have pending: "ar_status x = A_PENDING" if "x \<in> set (drop (Suc n) rs)" for x
    using that unfolding n(2) drop_map by (auto simp: pending_result_def)
  have "filter (\<lambda>r. ar_status r = A_COMPLETED) rs =
      filter (\<lambda>r. ar_status r = A_COMPLETED) (take (Suc n) rs @ drop (Suc n) rs)" by simp
  also have "\<dots> = take (Suc n) rs" unfolding filter_append using first pending by (simp add: filter_empty_conv)
  finally have count: "count_status A_COMPLETED rs = min (length rs) (Suc n)" by (simp add: count_status_def)
  have len: "length rs = length ordered"
    using assms(1) map_eq_imp_length_eq[of _ rs _ "map pending_result ordered"] by (auto simp: prefix_done_def)
  show ?thesis
    using first n(2) len unfolding count by (cases "Suc n \<le> length rs") (auto simp: min_def)
qed

text \<open>
  C18. An execution of actions with pairwise different ids works through them in a fixed
  order and stops at the first failure. Whatever the disk, the other processes and the
  failures do, a run that returns reports every action exactly once, folder creations before
  moves before renames; a first part of the results is \<open>COMPLETED\<close>, one further result may
  carry the settled failure, and every later action was never started: its result is still
  the initial \<open>PENDING\<close> one with no physical effect. (The ids must differ: with an id
  that occurs twice, both attempts are recorded in the last result that carries it.)
\<close>

theorem execution_is_ordered_prefix:
  assumes "distinct (map pa_id actions)"
    and "executeBridgePlanActionsOwned lc rootId actions w = (Ok r, w')"
  shows "\<exists>ordered. mset ordered = mset actions \<and>
      sorted (map (\<lambda>a. executionOrder (pa_actionType a)) ordered) \<and>
      map ar_actionId (rr_actions r) = map pa_id ordered \<and>
      (\<exists>n. (\<forall>x \<in> set (take n (rr_actions r)). ar_status x = A_COMPLETED) \<and>
        drop (Suc n) (rr_actions r) = drop (Suc n) (map pending_result ordered))"
proof -
  obtain ordered rs where "r = run_result_of rootId (length actions) rs" "mset ordered = mset actions"
    "sorted (map (\<lambda>a. executionOrder (pa_actionType a)) ordered)" "map ar_actionId rs = map pa_id ordered"
    "prefix_done 0 (map pending_result ordered) rs"
    by (rule execution_prefix[OF assms])
  then show ?thesis by (intro exI[of _ ordered]) (auto simp: prefix_done_def run_result_of_def)
qed

text \<open>
  C19. What a run means that calls itself \<open>COMPLETED\<close>. Its action ids being pairwise
  different, it has completed as many actions as it counts, and these come first in its
  order; every other action was never started, its result is the initial \<open>PENDING\<close> one.
  So the status promises that nothing failed and nothing is uncertain, but not that the plan
  was carried out: the witness is a run that stops after one of two folders, because the
  failure of the first is settled as completed and still breaks the loop, and that reports
  \<open>COMPLETED\<close>.
\<close>

theorem completed_run_is_prefix:
  assumes "distinct (map pa_id actions)"
    and "executeBridgePlanActionsOwned lc rootId actions w = (Ok r, w')" and "rr_status r = R_COMPLETED"
  shows "\<exists>ordered. mset ordered = mset actions \<and> sorted (map (\<lambda>a. executionOrder (pa_actionType a)) ordered) \<and>
      map ar_actionId (rr_actions r) = map pa_id ordered \<and>
      (\<forall>x \<in> set (take (rr_completedActions r) (rr_actions r)). ar_status x = A_COMPLETED) \<and>
      drop (rr_completedActions r) (rr_actions r) = drop (rr_completedActions r) (map pending_result ordered)"
proof -
  obtain ordered rs where rs: "r = run_result_of rootId (length actions) rs" "mset ordered = mset actions"
    "sorted (map (\<lambda>a. executionOrder (pa_actionType a)) ordered)" "map ar_actionId rs = map pa_id ordered"
    and settled: "prefix_done 0 (map pending_result ordered) rs"
    by (rule execution_prefix[OF assms(1,2)])
  have "run_status_of rs = R_COMPLETED" using assms(3) rs(1) by (simp add: run_result_of_def)
  from completed_prefix[OF settled this] rs show ?thesis
    by (intro exI[of _ ordered]) (simp add: run_result_of_def)
qed

text \<open>
  A desk with one connected folder \<open>/r\<close>, and a plan of two new folders whose first
  action fails after its journal says \<open>COMPLETED\<close>: the directory of the journal cannot be
  opened any more. The schedule counts the system calls up to there.
\<close>

definition desk_root :: bridge_root where
  "desk_root = \<lparr>readPermission = True, watchPermission = False, recommendationPermission = False,
     organizationPlanPermission = False, createFolderPermission = True, moveFilePermission = True,
     renameFilePermission = True, connectionRevision = None, root_id = ''r1'', actualPath = ''/r'',
     connectedAt = 0, displayName = ''r'', lastScanAt = None, lastWatchingAt = None, platform = MACOS,
     safeLocation = ''r'', root_status = CONNECTED, updatedAt = 0, watcherState = W_STOPPED\<rparr>"

definition desk_oworld :: "perturb list \<Rightarrow> oworld" where
  "desk_oworld ps = \<lparr>disk = desk, sched = ps, suffixes = [''x1''], sha256hex = (\<lambda>b. b), journals = (\<lambda>_. JAbsent),
     live = None, reg_state = Stored \<lparr>reg_roots = [desk_root], reg_selections = []\<rparr>, working_dir = ''/''\<rparr>"

definition new_folder :: "string \<Rightarrow> plan_action" where
  "new_folder n = \<lparr>pa_id = n, pa_actionType = CREATE_FOLDER, pa_sourceRelativePath = None, pa_sourceChecksum = None,
     pa_sourceLastModified = None, pa_sourceSizeBytes = None, pa_destinationRelativePath = n\<rparr>"

definition two_folders :: "plan_action list" where
  "two_folders = [new_folder ''n1'', new_folder ''n2'']"

definition lc_sample :: "string \<Rightarrow> string \<Rightarrow> int" where
  "lc_sample a b = (if a = b then 0 else -1)"

definition broken_off :: "run_result outcome \<times> oworld" where
  "broken_off = executeBridgePlanActionsOwned lc_sample ''r1'' two_folders (desk_oworld (replicate 32 Quiet @ [Fail EIO]))"

definition run_summary ::
  "run_result outcome \<Rightarrow> (run_status \<times> (string \<times> action_status \<times> physical_effect) list) option" where
  "run_summary x = (case x of
     Ok r \<Rightarrow> Some (rr_status r, map (\<lambda>a. (ar_actionId a, ar_status a, ar_physicalEffect a)) (rr_actions r))
   | _ \<Rightarrow> None)"

lemma broken_off_summary:
  "run_summary (fst broken_off) =
     Some (R_COMPLETED, [(''n1'', A_COMPLETED, E_CHANGED), (''n2'', A_PENDING, E_NONE)])"
  by code_simp

lemma run_summaryE:
  assumes "run_summary x = Some (st, l)"
  obtains r where "x = Ok r" "rr_status r = st"
    "map (\<lambda>a. (ar_actionId a, ar_status a, ar_physicalEffect a)) (rr_actions r) = l"
  using assms by (cases x) (auto simp: run_summary_def)

theorem execution_is_ordered_prefix_witness:
  "\<exists>r ordered n. fst broken_off = Ok r \<and> mset ordered = mset two_folders \<and> length (rr_actions r) = 2 \<and>
     drop (Suc n) (rr_actions r) = drop (Suc n) (map pending_result ordered)"
proof -
  obtain r where r: "fst broken_off = Ok r"
    "map (\<lambda>a. (ar_actionId a, ar_status a, ar_physicalEffect a)) (rr_actions r) =
       [(''n1'', A_COMPLETED, E_CHANGED), (''n2'', A_PENDING, E_NONE)]"
    by (rule run_summaryE[OF broken_off_summary])
  have d: "distinct (map pa_id two_folders)" by code_simp
  have "executeBridgePlanActionsOwned lc_sample ''r1'' two_folders (desk_oworld (replicate 32 Quiet @ [Fail EIO])) =
      (Ok r, snd broken_off)"
    using r(1) unfolding broken_off_def by (metis prod.collapse)
  from execution_is_ordered_prefix[OF d this]
  obtain ordered n where "mset ordered = mset two_folders"
    "drop (Suc n) (rr_actions r) = drop (Suc n) (map pending_result ordered)" by blast
  moreover have "length (rr_actions r) = 2"
    using arg_cong[OF r(2), of length] by simp
  ultimately show ?thesis using r(1) by blast
qed

text \<open>The run of the sample stops early and calls itself completed.\<close>

lemma stopped_run_called_completed:
  "\<exists>r. fst (executeBridgePlanActionsOwned lc_sample ''r1'' two_folders
        (desk_oworld (replicate 32 Quiet @ [Fail EIO]))) = Ok r \<and>
     rr_status r = R_COMPLETED \<and> rr_completedActions r = 1 \<and> rr_totalActions r = 2 \<and>
     map ar_status (rr_actions r) = [A_COMPLETED, A_PENDING]"
proof -
  obtain r where r: "fst broken_off = Ok r" "rr_status r = R_COMPLETED"
    "map (\<lambda>a. (ar_actionId a, ar_status a, ar_physicalEffect a)) (rr_actions r) =
       [(''n1'', A_COMPLETED, E_CHANGED), (''n2'', A_PENDING, E_NONE)]"
    by (rule run_summaryE[OF broken_off_summary])
  have st: "map ar_status (rr_actions r) = [A_COMPLETED, A_PENDING]"
    using arg_cong[OF r(3), of "map (\<lambda>x. fst (snd x))"] by (simp add: o_def)
  have "returns (executeBridgePlanActionsOwned lc_sample ''r1'' two_folders)
      (\<lambda>r. \<exists>rs. r = run_result_of ''r1'' (length two_folders) rs)"
    unfolding executeBridgePlanActionsOwned_def Let_def
    by (rule returns_skip, rule returns_skip, rule returns_skip, rule returns_skip, rule returns_return) blast
  moreover have run: "executeBridgePlanActionsOwned lc_sample ''r1'' two_folders
      (desk_oworld (replicate 32 Quiet @ [Fail EIO])) = (Ok r, snd broken_off)"
    using r(1) unfolding broken_off_def by (metis prod.collapse)
  ultimately obtain rs where rs: "r = run_result_of ''r1'' (length two_folders) rs" by (blast dest: returnsD)
  have "rr_completedActions r = length (filter (\<lambda>s. s = A_COMPLETED) (map ar_status (rr_actions r)))"
    by (simp add: rs run_result_of_def count_status_def filter_map o_def)
  then have "rr_completedActions r = 1" using st by simp
  moreover have "rr_totalActions r = 2" by (simp add: rs run_result_of_def two_folders_def)
  ultimately show ?thesis using r st run by simp
qed

theorem completed_run_is_prefix_witness:
  "\<exists>r. fst broken_off = Ok r \<and> rr_totalActions r = 2 \<and> rr_completedActions r = 1 \<and>
     (\<exists>a :: plan_action. drop 1 (rr_actions r) = [pending_result a])"
proof -
  obtain r where r: "fst broken_off = Ok r" "rr_status r = R_COMPLETED" "rr_completedActions r = 1" "rr_totalActions r = 2"
    using stopped_run_called_completed unfolding broken_off_def by blast
  have d: "distinct (map pa_id two_folders)" by code_simp
  have "executeBridgePlanActionsOwned lc_sample ''r1'' two_folders (desk_oworld (replicate 32 Quiet @ [Fail EIO])) =
      (Ok r, snd broken_off)"
    using r(1) unfolding broken_off_def by (metis prod.collapse)
  from completed_run_is_prefix[OF d this r(2)] obtain ordered where o: "mset ordered = mset two_folders"
    "drop 1 (rr_actions r) = drop 1 (map pending_result ordered)" unfolding r(3) by blast
  have "length ordered = 2" using mset_eq_length[OF o(1)] by (simp add: two_folders_def)
  then obtain x y where "ordered = [x, y]" by (auto simp: numeral_2_eq_2 length_Suc_conv)
  with o(2) r show ?thesis by auto
qed

end
