(* ===== verification/ScannerFacts.thy ===== *)
theory ScannerFacts
  imports Scanner OperationsFacts
begin

text \<open>
  What scans, lookups and previews promise: they never change a library, a published
  inventory holds only visible files inside the folder, its checksums are those of files that
  stood still while they were read, its paths were seen by both walks, and one badly named
  file makes a folder unscannable.
\<close>

section \<open>Inspection changes nothing\<close>

lemma readonly_sum [keeps]:
  "(\<And>e. readonly (f e)) \<Longrightarrow> (\<And>x. readonly (g x)) \<Longrightarrow> readonly (case r of Inl e \<Rightarrow> f e | Inr x \<Rightarrow> g x)"
  by (cases r) simp_all

lemma readonly_prod [keeps]: "(\<And>a b. readonly (f a b)) \<Longrightarrow> readonly (case p of (a, b) \<Rightarrow> f a b)"
  by (cases p) simp

lemma readonly_try [keeps]: "readonly m \<Longrightarrow> readonly (io_try m)"
  unfolding io_try_def by (intro keeps)

lemma readonly_ask [keeps]: "readonly (ask_registry f)"
  unfolding ask_registry_def by (intro keeps)

lemma readonly_require [keeps]: "readonly (require_permission rootId k)" "readonly (require_execution rootId kinds)"
  unfolding require_permission_def require_execution_def by (intro keeps)+

lemma readonly_resolve [keeps]: "readonly (resolve_io root rel)"
proof -
  have "readonly (\<lambda>w. io_result (resolveInsideRoot (working_dir w) root rel False (disk w)) w)"
    using readonly_result by (auto simp: readonly_def triple_def)
  then show ?thesis unfolding resolve_io_def by (rule readonly_scheduled)
qed

lemma readonly_checksum [keeps]: "readonly (checksumFile p)"
  unfolding checksumFile_def by (intro keeps)

lemma readonly_validate [keeps]: "readonly (validateSourceIntegrity p a)"
  unfolding validateSourceIntegrity_def by (intro keeps)

lemma readonly_validateUndo [keeps]: "readonly (validateUndoSourceIntegrity p a)"
  unfolding validateUndoSourceIntegrity_def by (intro keeps)

lemma readonly_sourceIssues [keeps]: "readonly (sourceIssues root a iss)"
  unfolding sourceIssues_def Let_def by (intro keeps)

lemma readonly_destinationIssues [keeps]: "readonly (destinationIssues d a iss)"
  unfolding destinationIssues_def by (intro keeps)

lemma readonly_previewActions [keeps]: "readonly (previewActions root as iss dests)"
proof (induction as arbitrary: iss dests)
  case (Cons a as)
  show ?case unfolding previewActions.simps Let_def by (intro keeps Cons.IH)
qed (simp add: keeps)

lemma readonly_removalIssues [keeps]: "readonly (removalIssues earlier a rel source iss)"
  unfolding removalIssues_def by (intro keeps)

lemma readonly_restoreIssues [keeps]: "readonly (restoreIssues root a source iss dests)"
  unfolding restoreIssues_def Let_def by (intro keeps)

lemma readonly_previewUndoActions [keeps]: "readonly (previewUndoActions root earlier as iss dests)"
proof (induction as arbitrary: earlier iss dests)
  case (Cons a as)
  show ?case unfolding previewUndoActions.simps Let_def by (intro keeps Cons.IH)
qed (simp add: keeps)

lemma readonly_fold [keeps]: "(\<And>x s. readonly (f x s)) \<Longrightarrow> readonly (io_fold f xs s)"
  by (induction xs arbitrary: s) (auto intro: keeps)

lemma readonly_recheck [keeps]: "readonly (recheck p st)"
  unfolding recheck_def by (intro keeps)

text \<open>The options of a scan may read.\<close>

definition reading :: "('w world_scheme, 'm) scan_config \<Rightarrow> bool" where
  "reading cfg \<longleftrightarrow> (\<forall>p r st. readonly (sc_extractor cfg p r st)) \<and> (\<forall>p. readonly (sc_beforeChecksum cfg p))"

lemma readonly_fileDraft:
  assumes "reading cfg"
  shows "readonly (fileDraft cwd cfg p)"
proof -
  have o: "readonly (sc_extractor cfg p r st)" "readonly (sc_beforeChecksum cfg p)" for p r st
    using assms by (simp_all add: reading_def)
  have "readonly (inspectImage cfg p r)" for p r
    unfolding inspectImage_def by (intro keeps o)
  then have "readonly (describeFile cfg p r t)" for p r t
    unfolding describeFile_def by (intro keeps o)
  then show ?thesis unfolding fileDraft_def Let_def by (intro keeps)
qed

lemma readonly_scanDirectory:
  assumes "reading cfg"
  shows "readonly (scanDirectory depth cwd cfg p acc)"
proof (induction depth arbitrary: p acc)
  case (Suc depth)
  have "readonly (scanEntry cwd cfg (scanDirectory depth cwd cfg) p name acc)" for p name acc
    unfolding scanEntry_def Let_def by (intro keeps Suc readonly_fileDraft assms)
  then show ?case unfolding scanDirectory.simps by (intro keeps)
qed (simp add: keeps)

lemma readonly_visiblePaths [keeps]: "readonly (visiblePaths depth cwd root ids p paths)"
proof (induction depth arbitrary: p paths)
  case (Suc depth)
  show ?case unfolding visiblePaths.simps visibleEntry_def Let_def by (intro keeps Suc)
qed (simp add: keeps)

lemma stable_reg_state: "stable P \<Longrightarrow> P w \<Longrightarrow> P (w\<lparr>reg_state := f\<rparr>)"
  by (rule stableD[of P w]) (simp_all add: env_step_def)

lemma readonly_update_root [keeps]: "readonly (update_root_io env rootId input)"
  unfolding update_root_io_def
  by (rule readonly_scheduled)
    (auto simp: readonly_def triple_def intro: stable_reg_state split: prod.splits sum.splits)

lemma readonly_scan:
  assumes "\<forall>p r st. readonly (extractor p r st)" "\<forall>p. readonly (hook p)"
  shows "readonly (scanBridgeRootOwned lc depth env clock extractor hook rootId)"
proof -
  have "readonly (scanDirectory depth cwd \<lparr>sc_rootId = i, sc_rootPath = q, sc_extractor = extractor,
      sc_beforeChecksum = hook\<rparr> p acc)" for cwd i q p acc
    by (rule readonly_scanDirectory) (use assms in \<open>simp add: reading_def\<close>)
  then show ?thesis unfolding scanBridgeRootOwned_def Let_def by (intro keeps)
qed

definition at_rest :: "fs \<Rightarrow> 'w world_scheme \<Rightarrow> bool" where
  "at_rest d w \<longleftrightarrow> (\<forall>g. Interfere g \<notin> set (sched w)) \<and> disk w = d"

lemma readonly_at_rest:
  assumes "readonly m" "\<forall>g. Interfere g \<notin> set (sched w)"
  shows "disk (snd (m w)) = disk w"
proof -
  have "stable (at_rest (disk w))"
    unfolding stable_def env_step_def at_rest_def by (metis list.set_intros)
  from readonlyD[OF assms(1) this] have "at_rest (disk w) (snd (m w))"
    by (rule tripleD) (use assms(2) in \<open>simp add: at_rest_def\<close>)
  then show ?thesis by (simp add: at_rest_def)
qed

text \<open>
  Looking changes nothing. Whatever fails or is cut off, a scan whose options only
  read, the lookup of a file, and the previews of a plan and of an undo leave the library
  exactly as it was.
\<close>

theorem inspection_changes_nothing:
  assumes "\<forall>g. Interfere g \<notin> set (sched w)"
    and "\<forall>p r st. readonly (extractor p r st)" "\<forall>p. readonly (hook p)"
  shows "disk (snd (scanBridgeRootOwned lc depth env clock extractor hook rootId w)) = disk w \<and>
    disk (snd (resolveBridgeRootFile rootId rel w)) = disk w \<and>
    disk (snd (previewBridgeExecution rootId actions w)) = disk w \<and>
    disk (snd (previewBridgeUndo rootId undos w)) = disk w"
proof -
  have "readonly (resolveBridgeRootFile rootId rel)"
    unfolding resolveBridgeRootFile_def checkResolved_def by (intro keeps)
  moreover have "readonly (previewBridgeExecution rootId actions)"
    unfolding previewBridgeExecution_def Let_def by (intro keeps)
  moreover have "readonly (previewBridgeUndo rootId undos)"
    unfolding previewBridgeUndo_def Let_def by (intro keeps)
  ultimately show ?thesis
    by (intro conjI readonly_at_rest[OF _ assms(1)] readonly_scan[OF assms(2,3)])
qed

theorem inspection_changes_nothing_witness:
  "disk (snd (scanBridgeRootOwned lc_sample 9 sample_env (0, 1) (\<lambda>_ _ _. io_throw PlainError) (\<lambda>_. io_return ()) ''r1''
     (desk_oworld [Quiet, Fail EIO]))) = desk"
proof -
  have "disk (snd (scanBridgeRootOwned lc_sample 9 sample_env (0, 1) (\<lambda>_ _ _. io_throw PlainError) (\<lambda>_. io_return ()) ''r1''
     (desk_oworld [Quiet, Fail EIO]))) = disk (desk_oworld [Quiet, Fail EIO])"
    by (rule conjunct1[OF inspection_changes_nothing]) (simp_all add: keeps desk_oworld_def)
  then show ?thesis by (simp add: desk_oworld_def)
qed

section \<open>What a scan publishes\<close>

text \<open>A described file carries its path, its address, and a checksum exactly when it was read.\<close>

definition described :: "string \<Rightarrow> string \<Rightarrow> 'm scanned_file \<Rightarrow> bool" where
  "described rootId rel d \<longleftrightarrow> sf_relativePath d = rel \<and> sf_localPath d = bridgeRootUri rootId rel \<and>
     (sf_checksum d \<noteq> None \<longleftrightarrow> sf_readStatus d = SUPPORTED)"

lemma described_plain: "status \<noteq> SUPPORTED \<Longrightarrow> described i rel (plain_draft i rel t status e st)"
  by (simp add: described_def plain_draft_def)

lemma described_read:
  "described i rel ((plain_draft i rel t SUPPORTED e st)\<lparr>sf_checksum := Some c, sf_imageMetadata := m\<rparr>)"
  by (simp add: described_def plain_draft_def)

lemma returns_describeFile: "returns (describeFile cfg p rel t) (described (sc_rootId cfg) rel)"
  unfolding describeFile_def case_prod_beta
  by (intro returns_skip returns_if returns_return described_read described_plain) simp_all

lemma returns_fileDraft:
  "returns (fileDraft cwd cfg p) (\<lambda>d. scanRelativePath cwd (sc_rootPath cfg) p = Inr (sf_relativePath d) \<and>
     described (sc_rootId cfg) (sf_relativePath d) d)"
  unfolding fileDraft_def Let_def
proof (rule returns_bind[OF returns_result])
  fix rel assume rel: "scanRelativePath cwd (sc_rootPath cfg) p = Inr rel"
  have "returns (io_catch (describeFile cfg p rel t)
      (\<lambda>_. io_return (plain_draft (sc_rootId cfg) rel t READ_FAILED (Some CouldNotInspect) None)))
      (described (sc_rootId cfg) rel)" for t
    by (intro returns_catch returns_describeFile returns_return described_plain) simp
  from returns_weaken[OF this] rel
  show "returns (io_catch (describeFile cfg p rel (classifyFileType rel))
      (\<lambda>_. io_return (plain_draft (sc_rootId cfg) rel (classifyFileType rel) READ_FAILED (Some CouldNotInspect) None)))
      (\<lambda>d. scanRelativePath cwd (sc_rootPath cfg) p = Inr (sf_relativePath d) \<and>
        described (sc_rootId cfg) (sf_relativePath d) d)"
    by (simp add: described_def)
qed

definition visible_path :: "string \<Rightarrow> bool" where
  "visible_path rel \<longleftrightarrow> rel \<noteq> [] \<and> \<not> starts_with rel dotdot \<and> \<not> posix_isAbsolute rel \<and> \<not> shouldIgnore rel"

definition published :: "string \<Rightarrow> 'm scanned_file list \<Rightarrow> bool" where
  "published rootId files \<longleftrightarrow> (\<forall>d \<in> set files. visible_path (sf_relativePath d) \<and> described rootId (sf_relativePath d) d)"

lemma published_add:
  "published i files \<Longrightarrow> visible_path rel \<Longrightarrow> described i rel d \<Longrightarrow> published i (files @ [d])"
  by (auto simp: published_def described_def)

lemma returns_fold:
  assumes "\<And>x s. I s \<Longrightarrow> returns (f x s) I"
  shows "I s \<Longrightarrow> returns (io_fold f xs s) I"
  by (induction xs arbitrary: s) (auto intro!: returns_return returns_bind[OF assms])

lemma scanRelativePath_Inr:
  "scanRelativePath cwd root p = Inr rel \<Longrightarrow> rel \<noteq> [] \<and> \<not> starts_with rel dotdot \<and> \<not> posix_isAbsolute rel"
  by (auto simp: scanRelativePath_def Let_def split: if_splits)

lemma returns_scanEntry:
  assumes descend: "\<And>p acc. published (sc_rootId cfg) (fst acc) \<Longrightarrow>
      returns (descend p acc) (\<lambda>acc. published (sc_rootId cfg) (fst acc))"
    and pub: "published (sc_rootId cfg) (fst acc)"
  shows "returns (scanEntry cwd cfg descend p name acc) (\<lambda>acc. published (sc_rootId cfg) (fst acc))"
  unfolding scanEntry_def Let_def
proof (rule returns_bind[OF returns_result], rule returns_if, goal_cases)
  case 1
  then show ?case using pub by (intro returns_return)
next
  case (2 rel)
  have vis: "visible_path rel" using 2 scanRelativePath_Inr by (auto simp: visible_path_def)
  note add = published_add[OF pub vis]
  show ?case
  proof (rule returns_skip)
    fix r :: "exn + stats"
    show "returns (case r of
          Inl _ \<Rightarrow> io_return (fst acc @ [plain_draft (sc_rootId cfg) rel ''UNSUPPORTED'' READ_FAILED
              (Some CouldNotInspect) None], snd acc)
        | Inr st \<Rightarrow>
            if is_symlink st
            then io_return (fst (fst acc, map_set (snd acc) rel (nativeScanIdentity st)) @
              [plain_draft (sc_rootId cfg) rel ''UNSUPPORTED'' UNSUPPORTED (Some SymlinkNotFollowed) (Some st)],
              snd (fst acc, map_set (snd acc) rel (nativeScanIdentity st)))
            else if is_directory st then descend (posix_join [p, name]) (fst acc, map_set (snd acc) rel (nativeScanIdentity st))
            else if is_file st
            then io_bind (fileDraft cwd cfg (posix_join [p, name])) (\<lambda>d.
              io_return (fst (fst acc, map_set (snd acc) rel (nativeScanIdentity st)) @ [d],
                snd (fst acc, map_set (snd acc) rel (nativeScanIdentity st))))
            else io_return (fst acc, map_set (snd acc) rel (nativeScanIdentity st)))
        (\<lambda>acc. published (sc_rootId cfg) (fst acc))"
    proof (cases r)
      case (Inl e)
      then show ?thesis using add[OF described_plain] by (simp add: returns_return)
    next
      case (Inr st)
      have "returns (io_bind (fileDraft cwd cfg (posix_join [p, name])) (\<lambda>d. io_return (fst acc @ [d], ids)))
          (\<lambda>acc. published (sc_rootId cfg) (fst acc))" for ids :: "(string \<times> string) list"
        using 2(1) by (intro returns_bind[OF returns_fileDraft] returns_return) (auto intro: add)
      then show ?thesis
        using Inr add[OF described_plain] descend[of "(fst acc, map_set (snd acc) rel (nativeScanIdentity st))"] pub
        by (simp add: returns_return)
    qed
  qed
qed

lemma returns_scanDirectory:
  "published (sc_rootId cfg) (fst acc) \<Longrightarrow>
    returns (scanDirectory depth cwd cfg p acc) (\<lambda>acc. published (sc_rootId cfg) (fst acc))"
proof (induction depth arbitrary: p acc)
  case (Suc depth)
  show ?case
    unfolding scanDirectory.simps
    by (intro returns_skip) (rule returns_fold[OF returns_scanEntry[OF Suc.IH]], use Suc.prems in auto)
qed (simp add: returns_throw)

lemma count_read_total: "count_read SUPPORTED fs + count_read UNSUPPORTED fs + count_read READ_FAILED fs = length fs"
proof (induction fs)
  case (Cons x fs)
  then show ?case by (cases "sf_readStatus x") (simp_all add: count_read_def)
qed (simp add: count_read_def)

section \<open>What a scan has seen\<close>

text \<open>
  \<open>later G f f'\<close>: the processes of \<open>G\<close> can turn the disk \<open>f\<close> into \<open>f'\<close>. A disk is past when
  the present one came from it so, with what the rest of the schedule can still do in \<open>G\<close>.
\<close>

definition later :: "(fs \<Rightarrow> fs) set \<Rightarrow> fs \<Rightarrow> fs \<Rightarrow> bool" where
  "later G = (\<lambda>f f'. \<exists>g \<in> G. f' = g f)\<^sup>*\<^sup>*"

lemma later_refl [simp]: "later G f f"
  by (simp add: later_def)

lemma later_trans: "later G f f1 \<Longrightarrow> later G f1 f2 \<Longrightarrow> later G f f2"
  unfolding later_def by (rule rtranclp_trans)

lemma later_step: "later G f f1 \<Longrightarrow> g \<in> G \<Longrightarrow> later G f (g f1)"
  unfolding later_def by (erule rtranclp.rtrancl_into_rtrancl) blast

definition past :: "(fs \<Rightarrow> fs) set \<Rightarrow> (string \<Rightarrow> string) \<Rightarrow> fs \<Rightarrow> 'w world_scheme \<Rightarrow> bool" where
  "past G h f w \<longleftrightarrow> (\<forall>g. Interfere g \<in> set (sched w) \<longrightarrow> g \<in> G) \<and> sha256hex w = h \<and> later G f (disk w)"

lemma stable_past: "stable (past G h f)"
  unfolding stable_def
proof (intro allI impI)
  fix w w' :: "'a world_scheme" assume step: "env_step w w'" and w: "past G h f w"
  have s: "set (sched w') \<subseteq> set (sched w)" "sha256hex w' = sha256hex w" using step by (auto simp: env_step_def)
  consider "disk w' = disk w" | g where "Interfere g \<in> set (sched w)" "disk w' = g (disk w)"
    using step unfolding env_step_def by (metis list.set_intros(1))
  then show "past G h f w'"
  proof cases
    case (2 g)
    with w have "later G f (disk w')" by (auto simp: past_def intro: later_step)
    with w s show ?thesis by (auto simp: past_def)
  qed (use w s in \<open>auto simp: past_def\<close>)
qed

lemma past_now: "past G h f w \<Longrightarrow> past G h (disk w) w"
  by (simp add: past_def)

lemma past_from: "past G h f1 w \<Longrightarrow> later G f f1 \<Longrightarrow> past G h f w"
  by (auto simp: past_def intro: later_trans)

text \<open>Steps of a computation whose value is what matters.\<close>

abbreviation anyway :: "'w \<Rightarrow> bool" where "anyway \<equiv> \<lambda>_. True"

lemma triple_both:
  assumes "triple P m Q R" "triple P' m Q' R'"
  shows "triple (\<lambda>w. P w \<and> P' w) m (\<lambda>x w. Q x w \<and> Q' x w) (\<lambda>w. R w \<and> R' w)"
proof (rule tripleI)
  fix w assume "P w \<and> P' w"
  with assms have "post Q R (m w)" "post Q' R' (m w)" by (auto intro: triple_use)
  then show "post (\<lambda>x w. Q x w \<and> Q' x w) (\<lambda>w. R w \<and> R' w) (m w)"
    by (cases "m w"; cases "fst (m w)") auto
qed

lemma then_read:
  assumes "\<And>x f1. later G f f1 \<Longrightarrow> op f1 = Inr x \<Longrightarrow> triple (past G h f1) (k x) Q anyway"
  shows "triple (past G h f) (io_bind (sys_read op) k) Q anyway"
proof (rule triple_bind)
  show "triple (past G h f) (sys_read op) (\<lambda>x w. \<exists>f1. (later G f f1 \<and> op f1 = Inr x) \<and> past G h f1 w) anyway"
    by (rule triple_sys_read[OF stable_past]) (auto simp: past_def)
  show "triple (\<lambda>w. \<exists>f1. (later G f f1 \<and> op f1 = Inr x) \<and> past G h f1 w) (k x) Q anyway" for x
    by (rule triple_exists, rule triple_assume) (use assms in blast)
qed

lemma then_quiet:
  "readonly m \<Longrightarrow> (\<And>x. triple (past G h f) (k x) Q anyway) \<Longrightarrow> triple (past G h f) (io_bind m k) Q anyway"
  by (rule triple_ro[OF _ stable_past]) simp_all

lemma then_guard:
  "(b \<Longrightarrow> triple P (k ()) Q anyway) \<Longrightarrow> triple P (io_bind (io_guard b e) k) Q anyway"
  by (rule triple_guarded) simp_all

text \<open>The bytes behind a path, links followed, as the checksum's stream reads them.\<close>

definition read_bytes :: "string \<Rightarrow> fs \<Rightarrow> (errno, string) result" where
  "read_bytes p f = rbind (fs_realpath p f) (\<lambda>q.
     case lookup f q of None \<Rightarrow> Inl ENOENT
     | Some i \<Rightarrow> if node_kind (fs_node f i) = Directory then Inl EISDIR
         else if \<not> node_readable (fs_node f i) then Inl EACCES
         else Inr (node_bytes (fs_node f i)))"

lemma then_checksum:
  assumes "\<And>b f1. later G f f1 \<Longrightarrow> read_bytes p f1 = Inr b \<Longrightarrow> triple (past G h f1) (k (h b)) Q anyway"
  shows "triple (past G h f) (io_bind (checksumFile p) k) Q anyway"
proof -
  have digest: "triple (past G h f1) (io_bind (io_get sha256hex) (\<lambda>digest. io_bind (io_return (digest b)) k)) Q anyway"
    if "triple (past G h f1) (k (h b)) Q anyway" for f1 b
    using that by (auto simp: triple_def io_bind_def io_get_def io_return_def past_def)
  have "io_bind (checksumFile p) k = io_bind (sys_read (read_bytes p)) (\<lambda>b.
      io_bind (io_get sha256hex) (\<lambda>digest. io_bind (io_return (digest b)) k))"
    unfolding checksumFile_def read_bytes_def[abs_def]
    by (auto simp: fun_eq_iff io_bind_def split: prod.splits outcome.splits)
  then show ?thesis by (simp only:) (rule then_read, rule digest, rule assms)
qed

lemma then_recheck:
  assumes "\<And>now f1. later G f f1 \<Longrightarrow> fs_lstat p f1 = Inr now \<Longrightarrow> is_file now \<Longrightarrow> sameFileIdentity st now \<Longrightarrow>
      triple (past G h f1) (k ()) Q anyway"
  shows "triple (past G h f) (io_bind (recheck p st) k) Q anyway"
proof -
  have "io_bind (recheck p st) k = io_bind (sys_read (fs_lstat p)) (\<lambda>now.
      io_bind (io_guard (is_file now \<and> \<not> is_symlink now \<and> sameFileIdentity st now) changed_during_scan) k)"
    unfolding recheck_def lstat_def by (auto simp: fun_eq_iff io_bind_def split: prod.splits outcome.splits)
  then show ?thesis by (simp only:) (rule then_read, rule then_guard, use assms in blast)
qed

text \<open>
  A checksum is steady by the disk \<open>g\<close>: before it the file was looked at, then read to the end, then
  looked at again, and device, inode, size and both times were the same before and after; the description
  gives the size and the time that were seen. The checksum of an image was read once more
  before, and was the same then.
\<close>

definition read_earlier :: "(fs \<Rightarrow> fs) set \<Rightarrow> (string \<Rightarrow> string) \<Rightarrow> fs \<Rightarrow> fs \<Rightarrow> string \<Rightarrow> string \<Rightarrow> bool" where
  "read_earlier G h f f1 p c \<longleftrightarrow> (\<exists>f0 b. later G f f0 \<and> later G f0 f1 \<and> read_bytes p f0 = Inr b \<and> c = h b)"

definition steady :: "(fs \<Rightarrow> fs) set \<Rightarrow> (string \<Rightarrow> string) \<Rightarrow> fs \<Rightarrow> fs \<Rightarrow> string \<Rightarrow> 'm scanned_file \<Rightarrow> bool" where
  "steady G h f g p d \<longleftrightarrow> (\<forall>c. sf_checksum d = Some c \<longrightarrow>
     (\<exists>f1 f2 f3 st now b. later G f f1 \<and> later G f1 f2 \<and> later G f2 f3 \<and> later G f3 g \<and>
        fs_lstat p f1 = Inr st \<and> is_file st \<and> read_bytes p f2 = Inr b \<and> c = h b \<and>
        fs_lstat p f3 = Inr now \<and> is_file now \<and> sameFileIdentity st now \<and>
        sf_sizeBytes d = Some (st_size st) \<and> sf_lastModified d = Some (st_mtime st) \<and>
        (is_image (sf_fileType d) \<longrightarrow> read_earlier G h f f1 p c)))"

lemma steady_plain: "steady G h f g p (plain_draft i rel t status err st)"
  by (simp add: steady_def plain_draft_def)

lemma steady_read:
  assumes "later G f f1" "later G f1 f2" "later G f2 f3" "later G f3 g" "fs_lstat p f1 = Inr st" "is_file st"
    "read_bytes p f2 = Inr b" "fs_lstat p f3 = Inr now" "is_file now" "sameFileIdentity st now"
    "is_image t \<Longrightarrow> read_earlier G h f f1 p (h b)"
  shows "steady G h f g p ((plain_draft i rel t SUPPORTED None (Some st))\<lparr>sf_checksum := Some (h b), sf_imageMetadata := m\<rparr>)"
  unfolding steady_def plain_draft_def
  by (intro allI impI exI[of _ f1] exI[of _ f2] exI[of _ f3] exI[of _ st] exI[of _ now] exI[of _ b] conjI)
    (use assms in simp_all)

lemma steady_later:
  assumes "steady G h f g p d" "later G g g'"
  shows "steady G h f g' p d"
  unfolding steady_def
proof (intro allI impI)
  fix c assume "sf_checksum d = Some c"
  with assms(1) obtain f1 f2 f3 st now b where
    "later G f f1" "later G f1 f2" "later G f2 f3" "later G f3 g" "fs_lstat p f1 = Inr st" "is_file st"
    "read_bytes p f2 = Inr b" "c = h b" "fs_lstat p f3 = Inr now" "is_file now" "sameFileIdentity st now"
    "sf_sizeBytes d = Some (st_size st)" "sf_lastModified d = Some (st_mtime st)"
    "is_image (sf_fileType d) \<longrightarrow> read_earlier G h f f1 p c"
    unfolding steady_def by blast
  moreover from this(4) assms(2) have "later G f3 g'" by (rule later_trans)
  ultimately show "\<exists>f1 f2 f3 st now b. later G f f1 \<and> later G f1 f2 \<and> later G f2 f3 \<and> later G f3 g' \<and>
        fs_lstat p f1 = Inr st \<and> is_file st \<and> read_bytes p f2 = Inr b \<and> c = h b \<and>
        fs_lstat p f3 = Inr now \<and> is_file now \<and> sameFileIdentity st now \<and>
        sf_sizeBytes d = Some (st_size st) \<and> sf_lastModified d = Some (st_mtime st) \<and>
        (is_image (sf_fileType d) \<longrightarrow> read_earlier G h f f1 p c)"
    by (intro exI[of _ f1] exI[of _ f2] exI[of _ f3] exI[of _ st] exI[of _ now] exI[of _ b]) simp
qed

lemma later_env:
  assumes "env_step w w'" "past G h f w"
  shows "later G (disk w) (disk w')"
proof -
  have "past G h (disk w) w'" by (rule stableD[OF stable_past assms(1) past_now[OF assms(2)]])
  then show ?thesis by (simp add: past_def)
qed

lemma io_return_bind: "io_bind (io_return x) k = k x"
  by (simp add: io_bind_def io_return_def)

lemma io_bind_assoc: "io_bind (io_bind m f) k = io_bind m (\<lambda>x. io_bind (f x) k)"
  by (auto simp: fun_eq_iff io_bind_def split: prod.splits outcome.splits)

lemma steady_describeFile:
  assumes "reading cfg"
  shows "triple (past G h f) (describeFile cfg p rel t) (\<lambda>d w. steady G h f (disk w) p d) anyway"
proof -
  have o: "readonly (sc_extractor cfg p rel st)" "readonly (sc_beforeChecksum cfg p)" for st
    using assms by (simp_all add: reading_def)
  let ?draft = "\<lambda>st m c. (plain_draft (sc_rootId cfg) rel t SUPPORTED None (Some st))\<lparr>sf_checksum := Some c, sf_imageMetadata := m\<rparr>"
  let ?close = "\<lambda>c0 (verified, metadata, c). io_bind (io_guard (c0 = c) changed_during_scan) (\<lambda>_.
       io_bind (recheck p verified) (\<lambda>_. io_return (?draft verified metadata c)))"
  have finish: "triple (past G h f3) (?close c0 (st, m, h b)) (\<lambda>d w. steady G h f (disk w) p d) anyway"
    if "later G f f1" "later G f1 f2" "later G f2 f3" "fs_lstat p f1 = Inr st" "is_file st" "read_bytes p f2 = Inr b"
      and earlier: "is_image t \<Longrightarrow> read_earlier G h f f1 p c0"
    for f1 f2 f3 st b m c0
    unfolding prod.case
  proof (rule then_guard, rule then_recheck, rule triple_return)
    fix now f4 w
    assume "c0 = h b" "later G f3 f4" "fs_lstat p f4 = Inr now" "is_file now" "sameFileIdentity st now" "past G h f4 w"
    with that show "steady G h f (disk w) p (?draft st m (h b))" using later_trans[of G f2 f3 f4] by (intro steady_read) (simp_all add: past_def)
  qed
  have inspect: "triple (past G h f1) (io_bind (inspectImage cfg p rel) (?close (h x))) (\<lambda>d w. steady G h f (disk w) p d) anyway"
    if f: "later G f f0" "later G f0 f1" "read_bytes p f0 = Inr x" for f0 f1 x
  proof -
    have body: "io_bind (inspectImage cfg p rel) k = io_bind (sys_read (fs_lstat p)) (\<lambda>verified.
        io_bind (io_guard (is_file verified \<and> \<not> is_symlink verified) changed_during_scan) (\<lambda>_.
        io_bind (io_catch (io_bind (sc_extractor cfg p rel verified) (\<lambda>m. io_return (Some m))) (\<lambda>_. io_return None)) (\<lambda>metadata.
        io_bind (checksumFile p) (\<lambda>checksumAfter.
        io_bind (recheck p verified) (\<lambda>_. k (verified, metadata, checksumAfter))))))" for k
      unfolding inspectImage_def lstat_def by (simp add: io_bind_assoc io_return_bind)
    show ?thesis
      unfolding body
    proof (rule then_read, rule then_guard, elim conjE, rule then_quiet)
      fix st f2 m
      assume s: "later G f1 f2" "fs_lstat p f2 = Inr st" "is_file st"
      show "triple (past G h f2) (io_bind (checksumFile p) (\<lambda>c. io_bind (recheck p st) (\<lambda>_. ?close (h x) (st, m, c))))
          (\<lambda>d w. steady G h f (disk w) p d) anyway"
      proof (rule then_checksum, rule then_recheck)
        fix b f3 now f4
        assume r: "later G f2 f3" "read_bytes p f3 = Inr b" "later G f3 f4"
        have "read_earlier G h f f2 p (h x)" unfolding read_earlier_def using f s(1) later_trans[of G f0 f1 f2] by blast
        then show "triple (past G h f4) (?close (h x) (st, m, h b)) (\<lambda>d w. steady G h f (disk w) p d) anyway"
          using f s later_trans[of G f f0 f1] later_trans[of G f f1 f2] by (intro finish[OF _ r(1,3) s(2,3) r(2)]) simp_all
      qed
    qed (intro keeps o)
  qed
  have rest: "triple (past G h f3) (io_bind (if is_image t then inspectImage cfg p rel else io_return (st, None, h b)) (?close (h b)))
      (\<lambda>d w. steady G h f (disk w) p d) anyway"
    if "later G f f1" "fs_lstat p f1 = Inr st" "is_file st" "later G f1 f2" "read_bytes p f2 = Inr b" "later G f2 f3" for st f1 b f2 f3
  proof (cases "is_image t")
    case True
    then show ?thesis using inspect[OF _ that(6,5)] later_trans[OF that(1,4)] by simp
  next
    case False
    then show ?thesis unfolding if_not_P[OF False] io_return_bind
      by (intro finish[OF that(1,4,6,2,3,5)]) simp
  qed
  show ?thesis
    unfolding describeFile_def lstat_def
  proof (rule then_read, intro triple_if triple_return steady_plain)
    fix st f1
    assume st: "later G f f1" "fs_lstat p f1 = Inr st" "\<not> (\<not> is_file st \<or> is_symlink st)"
    show "triple (past G h f1) (io_bind (sys_read (fs_readable p)) (\<lambda>_.
       io_bind (io_when (is_image t) (sc_beforeChecksum cfg p)) (\<lambda>_.
       io_bind (checksumFile p) (\<lambda>c0. io_bind (recheck p st) (\<lambda>_.
       io_bind (if is_image t then inspectImage cfg p rel else io_return (st, None, c0)) (?close c0))))))
       (\<lambda>d w. steady G h f (disk w) p d) anyway"
    proof (rule then_quiet[OF readonly_sys_read], rule then_quiet)
      show "triple (past G h f1) (io_bind (checksumFile p) (\<lambda>c0. io_bind (recheck p st) (\<lambda>_.
          io_bind (if is_image t then inspectImage cfg p rel else io_return (st, None, c0)) (?close c0))))
          (\<lambda>d w. steady G h f (disk w) p d) anyway"
        by (rule then_checksum, rule then_recheck, rule rest[OF st(1,2)]) (use st(3) in simp_all)
    qed (intro keeps o)
  qed
qed

lemma steady_fileDraft:
  assumes "reading cfg"
  shows "triple (past G h f) (fileDraft cwd cfg p)
    (\<lambda>d w. scanRelativePath cwd (sc_rootPath cfg) p = Inr (sf_relativePath d) \<and> steady G h f (disk w) p d) anyway"
proof -
  have plainly: "triple P m (\<lambda>x w. Q x) anyway" if "returns m Q" for P :: "'a world_scheme \<Rightarrow> bool" and m :: "('a world_scheme, 'c) io" and Q
    using that by (auto simp: triple_def returns_def split: outcome.splits) (metis post.simps outcome.exhaust prod.exhaust)
  have "triple (past G h f) (fileDraft cwd cfg p) (\<lambda>d w. steady G h f (disk w) p d) anyway"
    unfolding fileDraft_def Let_def
    by (rule then_quiet, intro keeps, rule triple_catch, rule steady_describeFile[OF assms])
      (rule triple_return, rule steady_plain)
  from triple_both[OF this plainly[OF returns_fileDraft, of "past G h f"]]
  show ?thesis by (rule triple_weaken) auto
qed

text \<open>
  The inventory of a walk: every description has a steady checksum if it has one, and every
  recorded identity was seen before.
\<close>

definition seen :: "(fs \<Rightarrow> fs) set \<Rightarrow> fs \<Rightarrow> fs \<Rightarrow> string \<Rightarrow> string \<Rightarrow> string \<Rightarrow> string \<Rightarrow> bool" where
  "seen G f g cwd root rel i \<longleftrightarrow> (\<exists>q f0 st. later G f f0 \<and> later G f0 g \<and> fs_lstat q f0 = Inr st \<and>
     scanRelativePath cwd root q = Inr rel \<and> i = nativeScanIdentity st)"

definition inventory_by :: "(fs \<Rightarrow> fs) set \<Rightarrow> (string \<Rightarrow> string) \<Rightarrow> fs \<Rightarrow> fs \<Rightarrow> string \<Rightarrow> string \<Rightarrow> 'm inventory \<Rightarrow> bool" where
  "inventory_by G h f g cwd root acc \<longleftrightarrow>
     (\<forall>d \<in> set (fst acc). \<exists>p. scanRelativePath cwd root p = Inr (sf_relativePath d) \<and> steady G h f g p d) \<and>
     (\<forall>rel i. map_of (snd acc) rel = Some i \<longrightarrow> seen G f g cwd root rel i)"

lemma inventory_later: "inventory_by G h f g cwd root acc \<Longrightarrow> later G g g' \<Longrightarrow> inventory_by G h f g' cwd root acc"
  unfolding inventory_by_def seen_def by (meson later_trans steady_later)

definition inventory_ok :: "(fs \<Rightarrow> fs) set \<Rightarrow> (string \<Rightarrow> string) \<Rightarrow> fs \<Rightarrow> string \<Rightarrow> string \<Rightarrow> 'm inventory \<Rightarrow> 'w world_scheme \<Rightarrow> bool" where
  "inventory_ok G h f cwd root acc w \<longleftrightarrow> past G h f w \<and> inventory_by G h f (disk w) cwd root acc"

lemma stable_inventory: "stable (inventory_ok G h f cwd root acc)"
  unfolding stable_def inventory_ok_def
  using stableD[OF stable_past] later_env inventory_later by blast

lemma triple_fold:
  assumes "\<And>x s. triple (I s) (f x s) I anyway"
  shows "triple (I s) (io_fold f xs s) I anyway"
  by (induction xs arbitrary: s) (auto intro: triple_return triple_bind[OF assms])

lemma try_lstat:
  assumes "stable P" "\<And>st w. P w \<Longrightarrow> fs_lstat p (disk w) = Inr st \<Longrightarrow> Q st w"
  shows "triple P (io_try (lstat p)) (\<lambda>r w. P w \<and> (\<forall>st. r = Inr st \<longrightarrow> Q st w)) anyway"
proof -
  have "triple P (io_try (lstat p)) (\<lambda>r w. P w \<and> (\<forall>st. r = Inr st \<longrightarrow> Q st w)) P"
    unfolding io_try_def lstat_def
    by (rule triple_catch, rule triple_bind[OF triple_sys_read[OF assms(1), where Q = "\<lambda>st w. P w \<and> Q st w"]])
      (use assms(2) in \<open>auto intro!: triple_return\<close>)
  then show ?thesis by (rule triple_weaken) auto
qed

lemma inventory_scanEntry:
  assumes "reading cfg"
    and descend: "\<And>p acc. triple (inventory_ok G h f cwd (sc_rootPath cfg) acc) (descend p acc) (inventory_ok G h f cwd (sc_rootPath cfg)) anyway"
  shows "triple (inventory_ok G h f cwd (sc_rootPath cfg) acc) (scanEntry cwd cfg descend current name acc)
    (inventory_ok G h f cwd (sc_rootPath cfg)) anyway"
proof -
  let ?I = "inventory_ok G h f cwd (sc_rootPath cfg)" and ?p = "posix_join [current, name]"
  note quiet = triple_ro[OF _ stable_inventory, where R = anyway]
  have plain: "?I (fst acc' @ [plain_draft i rel t s e st], snd acc') w"
    if "scanRelativePath cwd (sc_rootPath cfg) ?p = Inr rel" "?I acc' w" for acc' i rel t s e st w
    using that steady_plain by (auto simp: inventory_ok_def inventory_by_def plain_draft_def intro!: exI[of _ ?p])
  have one: "triple (?I acc') (io_bind (fileDraft cwd cfg ?p) (\<lambda>d. io_return (fst acc' @ [d], snd acc'))) ?I anyway" for acc'
  proof (rule triple_bind)
    have "triple (\<lambda>w. ?I acc' w \<and> past G h f w) (fileDraft cwd cfg ?p)
        (\<lambda>d w. ?I acc' w \<and> (scanRelativePath cwd (sc_rootPath cfg) ?p = Inr (sf_relativePath d) \<and> steady G h f (disk w) ?p d)) (\<lambda>w. ?I acc' w \<and> True)"
      by (rule triple_both[OF readonlyD[OF readonly_fileDraft[OF assms(1)] stable_inventory] steady_fileDraft[OF assms(1)]])
    then show "triple (?I acc') (fileDraft cwd cfg ?p)
        (\<lambda>d w. ?I acc' w \<and> (scanRelativePath cwd (sc_rootPath cfg) ?p = Inr (sf_relativePath d) \<and> steady G h f (disk w) ?p d)) anyway"
      by (rule triple_weaken) (auto simp: inventory_ok_def)
    show "triple (\<lambda>w. ?I acc' w \<and> (scanRelativePath cwd (sc_rootPath cfg) ?p = Inr (sf_relativePath d) \<and> steady G h f (disk w) ?p d))
        (io_return (fst acc' @ [d], snd acc')) ?I anyway" for d
      by (rule triple_return) (auto simp: inventory_ok_def inventory_by_def)
  qed
  have new: "?I (fst acc, map_set (snd acc) rel (nativeScanIdentity st)) w"
    if "scanRelativePath cwd (sc_rootPath cfg) ?p = Inr rel" "?I acc w" "fs_lstat ?p (disk w) = Inr st" for rel st w
  proof -
    have "seen G f (disk w) cwd (sc_rootPath cfg) rel (nativeScanIdentity st)"
      unfolding seen_def
      by (rule exI[of _ ?p], rule exI[of _ "disk w"], rule exI[of _ st])
        (use that in \<open>simp add: past_def inventory_ok_def\<close>)
    with that(2) show ?thesis by (auto simp: inventory_ok_def inventory_by_def)
  qed
  have choice: "triple (\<lambda>w. ?I acc w \<and> (\<forall>st. r = Inr st \<longrightarrow> ?I (fst acc, map_set (snd acc) rel (nativeScanIdentity st)) w))
      (case r of
          Inl _ \<Rightarrow> io_return (fst acc @ [plain_draft (sc_rootId cfg) rel ''UNSUPPORTED'' READ_FAILED
              (Some CouldNotInspect) None], snd acc)
        | Inr st \<Rightarrow>
            if is_symlink st
            then io_return (fst (fst acc, map_set (snd acc) rel (nativeScanIdentity st)) @
              [plain_draft (sc_rootId cfg) rel ''UNSUPPORTED'' UNSUPPORTED (Some SymlinkNotFollowed) (Some st)],
              snd (fst acc, map_set (snd acc) rel (nativeScanIdentity st)))
            else if is_directory st then descend ?p (fst acc, map_set (snd acc) rel (nativeScanIdentity st))
            else if is_file st
            then io_bind (fileDraft cwd cfg ?p) (\<lambda>d.
              io_return (fst (fst acc, map_set (snd acc) rel (nativeScanIdentity st)) @ [d],
                snd (fst acc, map_set (snd acc) rel (nativeScanIdentity st))))
            else io_return (fst acc, map_set (snd acc) rel (nativeScanIdentity st))) ?I anyway"
    if rel: "scanRelativePath cwd (sc_rootPath cfg) ?p = Inr rel" for r rel
  proof (cases r)
    case (Inl e)
    then show ?thesis using plain[OF rel, of acc] by (auto intro!: triple_return)
  next
    case (Inr st)
    let ?acc = "(fst acc, map_set (snd acc) rel (nativeScanIdentity st))"
    have "triple (?I ?acc) (if is_symlink st
            then io_return (fst ?acc @ [plain_draft (sc_rootId cfg) rel ''UNSUPPORTED'' UNSUPPORTED (Some SymlinkNotFollowed) (Some st)], snd ?acc)
            else if is_directory st then descend ?p ?acc
            else if is_file st then io_bind (fileDraft cwd cfg ?p) (\<lambda>d. io_return (fst ?acc @ [d], snd ?acc))
            else io_return ?acc) ?I anyway"
      by (intro triple_if descend one triple_return plain[OF rel])
    then show ?thesis unfolding Inr sum.case by (rule triple_pre) blast
  qed
  show ?thesis
  proof (cases "scanRelativePath cwd (sc_rootPath cfg) ?p")
    case (Inl e)
    then show ?thesis by (simp add: scanEntry_def Let_def io_result_def triple_def io_bind_def io_throw_def)
  next
    case (Inr rel)
    have "triple (?I acc) (if shouldIgnore rel then io_return acc else io_bind (io_try (lstat ?p)) (\<lambda>r. k r)) ?I anyway"
      if "\<And>r. triple (\<lambda>w. ?I acc w \<and> (\<forall>st. r = Inr st \<longrightarrow> ?I (fst acc, map_set (snd acc) rel (nativeScanIdentity st)) w)) (k r) ?I anyway" for k
      by (intro triple_if triple_return triple_bind[OF try_lstat[OF stable_inventory, where Q =
            "\<lambda>st. ?I (fst acc, map_set (snd acc) rel (nativeScanIdentity st))"]] that new[OF Inr])
    from this[OF choice[OF Inr]] show ?thesis
      unfolding scanEntry_def Let_def Inr io_result_def sum.case io_return_bind .
  qed
qed

lemma inventory_scanDirectory:
  assumes "reading cfg"
  shows "triple (inventory_ok G h f cwd (sc_rootPath cfg) acc) (scanDirectory depth cwd cfg p acc)
    (inventory_ok G h f cwd (sc_rootPath cfg)) anyway"
proof (induction depth arbitrary: p acc)
  case (Suc depth)
  let ?I = "inventory_ok G h f cwd (sc_rootPath cfg)"
  have "triple (?I acc) (io_fold (scanEntry cwd cfg (scanDirectory depth cwd cfg) p) entries acc) ?I anyway" for entries
    by (rule triple_fold, rule inventory_scanEntry[OF assms Suc])
  then show ?case
    unfolding scanDirectory.simps
    by (intro triple_ro[OF _ stable_inventory, where R = anyway] keeps) simp_all
qed (simp add: triple_def io_throw_def)

text \<open>
  The second walk starts at the disk \<open>m\<close>. Every path it lists was looked at once more, and had the
  identity that the first walk recorded.
\<close>

definition verified_by :: "(fs \<Rightarrow> fs) set \<Rightarrow> fs \<Rightarrow> fs \<Rightarrow> string \<Rightarrow> string \<Rightarrow> (string \<times> string) list \<Rightarrow> string list \<Rightarrow> bool" where
  "verified_by G m g cwd root ids paths \<longleftrightarrow>
     distinct paths \<and> (\<forall>rel \<in> set paths. \<exists>i. map_of ids rel = Some i \<and> seen G m g cwd root rel i)"

definition verified_ok ::
  "(fs \<Rightarrow> fs) set \<Rightarrow> (string \<Rightarrow> string) \<Rightarrow> fs \<Rightarrow> string \<Rightarrow> string \<Rightarrow> (string \<times> string) list \<Rightarrow> string list \<Rightarrow> 'w world_scheme \<Rightarrow> bool" where
  "verified_ok G h m cwd root ids paths w \<longleftrightarrow> past G h m w \<and> verified_by G m (disk w) cwd root ids paths"

lemma stable_verified: "stable (verified_ok G h m cwd root ids paths)"
  unfolding stable_def
proof (intro allI impI)
  fix w w' :: "'a world_scheme" assume w: "env_step w w'" "verified_ok G h m cwd root ids paths w"
  then have p: "past G h m w'" "later G (disk w) (disk w')"
    using stableD[OF stable_past w(1)] later_env[OF w(1)] by (auto simp: verified_ok_def)
  then have "seen G m (disk w) cwd root rel i \<Longrightarrow> seen G m (disk w') cwd root rel i" for rel i
    unfolding seen_def using later_trans by blast
  with w(2) p(1) show "verified_ok G h m cwd root ids paths w'" unfolding verified_ok_def verified_by_def by blast
qed

lemma verified_visibleEntry:
  assumes descend: "\<And>p paths. triple (verified_ok G h m cwd root ids paths) (descend p paths) (verified_ok G h m cwd root ids) anyway"
  shows "triple (verified_ok G h m cwd root ids paths) (visibleEntry cwd root ids descend directory name paths)
    (verified_ok G h m cwd root ids) anyway"
proof (cases "scanRelativePath cwd root (posix_join [directory, name])")
  case (Inl e)
  then show ?thesis by (simp add: visibleEntry_def Let_def io_result_def triple_def io_bind_def io_throw_def)
next
  case (Inr rel)
  let ?V = "verified_ok G h m cwd root ids" and ?p = "posix_join [directory, name]"
  have throw: "triple P (io_throw e) Q anyway" for P :: "'a world_scheme \<Rightarrow> bool" and Q :: "string list \<Rightarrow> 'a world_scheme \<Rightarrow> bool" and e
    by (simp add: triple_def io_throw_def)
  have look: "seen G m (disk w) cwd root rel (nativeScanIdentity st)" if "?V paths w" "fs_lstat ?p (disk w) = Inr st" for st w
    unfolding seen_def
    by (rule exI[of _ ?p], rule exI[of _ "disk w"], rule exI[of _ st])
      (use that Inr in \<open>simp add: verified_ok_def past_def\<close>)
  have choice: "triple (\<lambda>w. ?V paths w \<and> (\<forall>st. r = Inr st \<longrightarrow> seen G m (disk w) cwd root rel (nativeScanIdentity st)))
      (case r of
          Inl _ \<Rightarrow> io_throw unverified
        | Inr verified \<Rightarrow>
            if map_of ids rel \<noteq> Some (nativeScanIdentity verified) then io_throw unverified
            else if is_directory verified \<and> \<not> is_symlink verified then descend ?p paths
            else if is_file verified \<or> is_symlink verified then io_return (set_add rel paths)
            else io_return paths) ?V anyway" for r
  proof (cases r)
    case (Inr st)
    show ?thesis
    proof (cases "map_of ids rel = Some (nativeScanIdentity st)")
      case True
      have "triple (\<lambda>w. ?V paths w \<and> seen G m (disk w) cwd root rel (nativeScanIdentity st))
        (if is_directory st \<and> \<not> is_symlink st then descend ?p paths
         else if is_file st \<or> is_symlink st then io_return (set_add rel paths) else io_return paths) ?V anyway"
      proof (intro triple_if)
        show "triple (\<lambda>w. ?V paths w \<and> seen G m (disk w) cwd root rel (nativeScanIdentity st)) (descend ?p paths) ?V anyway"
          by (rule triple_pre[OF descend]) blast
      qed (auto intro!: triple_return simp: verified_ok_def verified_by_def set_add_def True)
      then show ?thesis unfolding Inr sum.case using True by (auto elim!: triple_pre)
    qed (simp add: Inr throw)
  qed (simp add: throw)
  have "triple (?V paths) (if shouldIgnore rel then io_return paths else io_bind (io_try (lstat ?p)) (\<lambda>r. k r)) ?V anyway"
    if "\<And>r. triple (\<lambda>w. ?V paths w \<and> (\<forall>st. r = Inr st \<longrightarrow> seen G m (disk w) cwd root rel (nativeScanIdentity st))) (k r) ?V anyway" for k
    by (intro triple_if triple_return triple_bind[OF try_lstat[OF stable_verified, where Q =
          "\<lambda>st w. seen G m (disk w) cwd root rel (nativeScanIdentity st)"]] that look)
  from this[OF choice] show ?thesis
    unfolding visibleEntry_def Let_def Inr io_result_def sum.case io_return_bind .
qed

lemma verified_visiblePaths:
  "triple (verified_ok G h m cwd root ids paths) (visiblePaths depth cwd root ids p paths) (verified_ok G h m cwd root ids) anyway"
proof (induction depth arbitrary: p paths)
  case (Suc depth)
  have "triple (verified_ok G h m cwd root ids paths) (io_fold (visibleEntry cwd root ids (visiblePaths depth cwd root ids) p) entries paths :: ('a world_scheme, string list) io)
      (verified_ok G h m cwd root ids) anyway" for entries
    by (rule triple_fold, rule verified_visibleEntry, rule Suc)
  then show ?case
    unfolding visiblePaths.simps
    by (intro triple_ro[OF _ stable_verified, where R = anyway] keeps) simp_all
qed (simp add: triple_def io_throw_def)

text \<open>
  What a scan saw of the files that it lists: by the disk \<open>m\<close> between the walks each checksum is steady and each
  path was seen, and after it each path was seen again, with the same identity.
\<close>

definition scan_saw :: "(fs \<Rightarrow> fs) set \<Rightarrow> (string \<Rightarrow> string) \<Rightarrow> fs \<Rightarrow> fs \<Rightarrow> fs \<Rightarrow> string \<Rightarrow> string \<Rightarrow> 'm scanned_file list \<Rightarrow> bool" where
  "scan_saw G h f m g cwd root files \<longleftrightarrow> later G f m \<and> later G m g \<and> (\<forall>d \<in> set files.
     (\<exists>p. scanRelativePath cwd root p = Inr (sf_relativePath d) \<and> steady G h f m p d) \<and>
     (\<exists>i. seen G f m cwd root (sf_relativePath d) i \<and> seen G m g cwd root (sf_relativePath d) i))"

lemma io_bind_Ok:
  assumes "io_bind m f w = (Ok y, w')"
  obtains x w1 where "m w = (Ok x, w1)" "f x w1 = (Ok y, w')"
  using assms by (cases "m w"; cases "fst (m w)") (auto simp: io_bind_def)

lemma scheduled_Ok:
  assumes "scheduled m w = (Ok x, w')"
  shows "\<exists>w0. reg_state w0 = reg_state w \<and> working_dir w0 = working_dir w \<and> m w0 = (Ok x, w')"
proof (cases "sched w")
  case Nil
  with assms show ?thesis by (auto simp: scheduled_def)
next
  case (Cons p ps)
  show ?thesis
  proof (cases p)
    case Quiet
    with Cons assms show ?thesis
      by (intro exI[of _ "w\<lparr>sched := ps\<rparr>"]) (simp add: scheduled_def Let_def)
  next
    case (Interfere g)
    with Cons assms show ?thesis
      by (intro exI[of _ "w\<lparr>sched := ps, disk := g (disk w)\<rparr>"]) (simp add: scheduled_def Let_def)
  qed (use Cons assms in \<open>simp_all add: scheduled_def Let_def\<close>)
qed

lemma require_permission_Ok:
  assumes "require_permission rootId k w = (Ok root, w')"
  shows "requireRootPermission rootId k (reg_state w) = Inr root" "working_dir w' = working_dir w"
proof -
  obtain x w1 where r: "scheduled (io_get reg_state) w = (Ok x, w1)" "io_result (requireRootPermission rootId k x) w1 = (Ok root, w')"
    using assms unfolding require_permission_def ask_registry_def by (rule io_bind_Ok)
  moreover from scheduled_Ok[OF this(1)] have "x = reg_state w" "working_dir w1 = working_dir w" by (auto simp: io_get_def)
  ultimately show "requireRootPermission rootId k (reg_state w) = Inr root" "working_dir w' = working_dir w"
    by (cases "requireRootPermission rootId k x"; auto simp: io_result_def io_throw_def io_return_def)+
qed

lemma permission_triple:
  "triple (\<lambda>w. past G h f w \<and> reg_state w = file_of \<and> working_dir w = cwd) (require_permission rootId k)
     (\<lambda>root w. requireRootPermission rootId k file_of = Inr root \<and> (past G h f w \<and> working_dir w = cwd)) anyway"
proof (rule tripleI)
  fix w :: "'a oworld_scheme"
  assume w: "past G h f w \<and> reg_state w = file_of \<and> working_dir w = cwd"
  then have p: "post (\<lambda>_. past G h f) (past G h f) (require_permission rootId k w)"
    using triple_use[OF readonlyD[OF readonly_require(1) stable_past]] by blast
  show "post (\<lambda>root w. requireRootPermission rootId k file_of = Inr root \<and> (past G h f w \<and> working_dir w = cwd)) anyway
      (require_permission rootId k w)"
  proof (cases "require_permission rootId k w")
    case (Pair x w')
    then show ?thesis using p w require_permission_Ok[of rootId k w _ w'] by (cases x) auto
  qed
qed

lemma same_paths:
  "distinct xs \<Longrightarrow> distinct ys \<Longrightarrow> length xs = length ys \<Longrightarrow> list_all (\<lambda>p. p \<in> set xs) ys \<Longrightarrow> set xs = set ys"
  by (metis card_subset_eq distinct_card finite_set list_all_iff subsetI)

lemma saw_files:
  assumes "inventory_by G h f m cwd root (files, ids)" "later G f m" "verified_ok G h m cwd root ids paths w"
    and "length (unique (map sf_relativePath files)) = length paths" "list_all (\<lambda>p. p \<in> set (unique (map sf_relativePath files))) paths"
  shows "scan_saw G h f m (disk w) cwd root files"
proof -
  have v: "distinct paths" "later G m (disk w)" "\<And>rel. rel \<in> set paths \<Longrightarrow> \<exists>i. map_of ids rel = Some i \<and> seen G m (disk w) cwd root rel i"
    using assms(3) by (auto simp: verified_ok_def verified_by_def past_def)
  have "set (unique (map sf_relativePath files)) = set paths"
    by (rule same_paths) (use assms(4,5) v(1) in simp_all)
  then have "sf_relativePath d \<in> set paths" if "d \<in> set files" for d using that by auto
  then show ?thesis unfolding scan_saw_def using assms(1,2) v(2,3) unfolding inventory_by_def fst_conv snd_conv by blast
qed

lemma scan_seen:
  assumes "\<forall>p r st. readonly (extractor p r st)" "\<forall>p. readonly (hook p)"
  shows "triple (\<lambda>w. past G h f w \<and> reg_state w = file_of \<and> working_dir w = cwd)
    (scanBridgeRootOwned lc depth env clock extractor hook rootId)
    (\<lambda>r w. \<exists>root m. requireRootPermission rootId ReadPermission file_of = Inr root \<and>
       scan_saw G h f m (disk w) cwd (actualPath root) (sr_files r)) anyway"
proof -
  have walk: "triple (past G h f) (scanDirectory depth cwd \<lparr>sc_rootId = i, sc_rootPath = q, sc_extractor = extractor,
      sc_beforeChecksum = hook\<rparr> q ([], []))
      (\<lambda>acc w. \<exists>m. (later G f m \<and> inventory_by G h f m cwd q acc) \<and> past G h m w) anyway" for i q
  proof -
    have "reading \<lparr>sc_rootId = i, sc_rootPath = q, sc_extractor = extractor, sc_beforeChecksum = hook\<rparr>"
      using assms by (simp add: reading_def)
    from inventory_scanDirectory[OF this, of G h f cwd "([], [])" depth q] show ?thesis
      by (rule triple_weaken) (auto simp: inventory_ok_def inventory_by_def past_def)
  qed
  have verify: "triple (past G h m) (visiblePaths depth cwd q ids q []) (verified_ok G h m cwd q ids) anyway" for m q ids
    by (rule triple_pre[OF verified_visiblePaths]) (simp add: verified_ok_def verified_by_def)
  note quiet = triple_ro[OF _ stable_verified, where R = anyway]
  have throw: "triple P (io_throw e) Q anyway" for P :: "'w oworld_scheme \<Rightarrow> bool" and Q :: "'m scan_result \<Rightarrow> 'w oworld_scheme \<Rightarrow> bool" and e
    by (simp add: triple_def io_throw_def)
  show ?thesis
    unfolding scanBridgeRootOwned_def Let_def case_prod_beta
    apply (rule triple_bind[OF permission_triple], rule triple_assume)
    subgoal premises root for root
      apply (rule triple_bind[where Q' = "\<lambda>x w. x = cwd \<and> past G h f w"], simp add: triple_def io_get_def)
      apply (rule triple_assume, simp only:)
      apply (rule then_quiet, intro keeps)
      subgoal for _ before_scan
        apply (cases before_scan, simp add: throw, simp only: sum.case)
        apply (rule then_guard, rule then_guard, rule triple_bind[OF walk])
        apply (rule triple_exists, rule triple_assume, elim conjE)
        apply (rule then_quiet, intro keeps)
        apply (rule then_guard, rule triple_bind[OF verify])
        apply (rule quiet, intro keeps)
         apply (rule then_guard, elim conjE)
         apply (rule quiet, intro keeps)
          apply (rule triple_return)
        subgoal for st acc m _ paths _ _ w
          using saw_files[of G h f m cwd "actualPath root" "fst acc" "snd acc" paths w] root
          by (intro exI[of _ root] exI[of _ m] conjI) (simp_all add: scan_saw_def)
        by simp_all
      done
    done
qed

lemma scan_lists_visible:
  assumes "scanBridgeRootOwned lc depth env clock extractor hook rootId w = (Ok r, w')"
  shows "(\<forall>d \<in> set (sr_files r). visible_path (sf_relativePath d) \<and>
      sf_localPath d = bridgeRootUri (sr_bridgeRootId r) (sf_relativePath d) \<and>
      (sf_checksum d \<noteq> None \<longleftrightarrow> sf_readStatus d = SUPPORTED)) \<and>
    sr_totalFiles r = length (sr_files r) \<and>
    sr_supportedFiles r + sr_unsupportedFiles r + sr_failedFiles r = sr_totalFiles r"
proof -
  let ?Q = "\<lambda>r. published (sr_bridgeRootId r) (sr_files r) \<and> sr_totalFiles r = length (sr_files r) \<and>
    sr_supportedFiles r + sr_unsupportedFiles r + sr_failedFiles r = sr_totalFiles r"
  have last: "?Q \<lparr>sr_bridgeRootId = i, sr_completedAt = c, sr_failedFiles = count_read READ_FAILED files,
        sr_files = sort_cmp cmp files, sr_folderDisplayName = n, sr_rootPath = p, sr_safeLocation = l, sr_startedAt = b,
        sr_supportedFiles = count_read SUPPORTED files, sr_totalFiles = length files,
        sr_unsupportedFiles = count_read UNSUPPORTED files\<rparr>" if "published i files" for i c files cmp n p l b
    using that count_read_total[of files] by (simp add: published_def)
  have start: "returns (scanDirectory depth cwd \<lparr>sc_rootId = i, sc_rootPath = q, sc_extractor = extractor,
      sc_beforeChecksum = hook\<rparr> p ([], [])) (\<lambda>acc. published i (fst acc))" for cwd i q p
    using returns_scanDirectory[of "\<lparr>sc_rootId = i, sc_rootPath = q, sc_extractor = extractor,
      sc_beforeChecksum = hook\<rparr>" "([], [])"] by (simp add: published_def)
  have "returns (scanBridgeRootOwned lc depth env clock extractor hook rootId) ?Q"
    unfolding scanBridgeRootOwned_def Let_def case_prod_beta
    apply (rule returns_skip, rule returns_skip, rule returns_skip)
    subgoal for root cwd before_scan
      by (cases before_scan)
        (simp_all add: returns_throw, intro returns_skip returns_bind[OF start] returns_return last, assumption)
    done
  from returnsD[OF this assms] show ?thesis by (auto simp: published_def described_def)
qed

text \<open>
  C23. What a scan may publish. However other processes change the folder under it, a scan that returns
  lists only paths inside the folder, none of them hidden, in an ignored folder or an
  ignored system file; every file has its own address in the folder, the files with a checksum are the
  supported ones, and the three counts add up to the list. There is a state of the disk between
  the two walks such that each checksum was read before it while the file stood still: the path was
  looked at, its bytes were read, and it was looked at again with the same device, inode,
  size and times, which are those listed; the bytes of an image had the same checksum once before. And each
  listed path was seen before that state and once more after it, with the same native identity. The states are those
  that the processes of the schedule can make of the first disk. The two options of the
  scan, the reader of image metadata and the hook, only read; the bytes of a file are read in one step.
\<close>

theorem scan_publishes_visible:
  assumes "scanBridgeRootOwned lc depth env clock extractor hook rootId w = (Ok r, w')"
    and "\<forall>p r st. readonly (extractor p r st)" "\<forall>p. readonly (hook p)"
  shows "(\<forall>d \<in> set (sr_files r). visible_path (sf_relativePath d) \<and>
      sf_localPath d = bridgeRootUri (sr_bridgeRootId r) (sf_relativePath d) \<and>
      (sf_checksum d \<noteq> None \<longleftrightarrow> sf_readStatus d = SUPPORTED)) \<and>
    sr_totalFiles r = length (sr_files r) \<and>
    sr_supportedFiles r + sr_unsupportedFiles r + sr_failedFiles r = sr_totalFiles r \<and>
    (\<exists>root between. requireRootPermission rootId ReadPermission (reg_state w) = Inr root \<and>
       scan_saw {g. Interfere g \<in> set (sched w)} (sha256hex w) (disk w) between (disk w') (working_dir w)
         (actualPath root) (sr_files r))"
proof -
  have "past {g. Interfere g \<in> set (sched w)} (sha256hex w) (disk w) w \<and> reg_state w = reg_state w \<and> working_dir w = working_dir w"
    by (simp add: past_def)
  from triple_use[OF scan_seen[OF assms(2,3), where lc = lc and depth = depth and env = env and clock = clock and rootId = rootId] this] assms(1)
  show ?thesis using scan_lists_visible[OF assms(1)] by simp
qed

text \<open>A folder with a text file, a hidden file and a subfolder with a picture.\<close>

definition scan_disk :: "(string \<times> nat) list \<Rightarrow> fs" where
  "scan_disk extra = \<lparr>fs_entries = [(''/'', 0), (''/r'', 1), (''/r/a.txt'', 3), (''/r/.env'', 4), (''/r/n'', 2), (''/r/n/b.PNG'', 5)] @ extra,
     fs_node = (\<lambda>i. if i < 3 then empty_dir else small_file [CHR ''x'']), fs_next = 9, fs_dev = 3, fs_links = []\<rparr>"

definition scan_of :: "(string \<times> nat) list \<Rightarrow> nat scan_result outcome \<times> oworld" where
  "scan_of extra = scanBridgeRootOwned lc_sample 4 sample_env (0, 1) (\<lambda>_ _ _. io_throw PlainError) (\<lambda>_. io_return ()) ''r1''
     ((desk_oworld [])\<lparr>disk := scan_disk extra\<rparr>)"

definition listed :: "nat scan_result outcome \<Rightarrow> (string \<times> string \<times> read_status) list option" where
  "listed x = (case x of Ok r \<Rightarrow> Some (map (\<lambda>d. (sf_relativePath d, sf_fileType d, sf_readStatus d)) (sr_files r)) | _ \<Rightarrow> None)"

lemma plain_scan_lists:
  "listed (fst (scan_of [])) = Some [(''a.txt'', ''TEXT'', SUPPORTED), (''n/b.PNG'', ''IMAGE_PNG'', SUPPORTED)]"
  by code_simp

text \<open>Another process writes beside the folder while it is scanned.\<close>

definition beside :: "fs \<Rightarrow> fs" where
  "beside f = f\<lparr>fs_entries := fs_entries f @ [(''/x'', 7)]\<rparr>"

definition busy_world :: oworld where
  "busy_world = (desk_oworld [Quiet, Interfere beside])\<lparr>disk := scan_disk []\<rparr>"

definition busy_scan :: "nat scan_result outcome \<times> oworld" where
  "busy_scan = scanBridgeRootOwned lc_sample 4 sample_env (0, 1) (\<lambda>_ _ _. io_throw PlainError) (\<lambda>_. io_return ()) ''r1'' busy_world"

lemma busy_scan_lists:
  "listed (fst busy_scan) = Some [(''a.txt'', ''TEXT'', SUPPORTED), (''n/b.PNG'', ''IMAGE_PNG'', SUPPORTED)]"
  by code_simp

theorem scan_publishes_visible_witness:
  "\<exists>r (root :: bridge_root) between. fst busy_scan = Ok r \<and> map sf_relativePath (sr_files r) = [''a.txt'', ''n/b.PNG''] \<and>
     list_all (\<lambda>d. visible_path (sf_relativePath d) \<and> sf_checksum d \<noteq> None) (sr_files r) \<and>
     scan_saw {beside} (sha256hex busy_world) (scan_disk []) between (disk (snd busy_scan)) (working_dir busy_world)
       (actualPath root) (sr_files r)"
proof -
  obtain r where r: "fst busy_scan = Ok r"
    "map (\<lambda>d. (sf_relativePath d, sf_fileType d, sf_readStatus d)) (sr_files r) =
      [(''a.txt'', ''TEXT'', SUPPORTED), (''n/b.PNG'', ''IMAGE_PNG'', SUPPORTED)]"
    using busy_scan_lists by (cases "fst busy_scan") (auto simp: listed_def)
  have run: "scanBridgeRootOwned lc_sample 4 sample_env (0, 1) (\<lambda>_ _ _. io_throw PlainError) (\<lambda>_. io_return ()) ''r1''
     busy_world = (Ok r, snd busy_scan)"
    using r(1) unfolding busy_scan_def by (metis prod.collapse)
  have "map sf_relativePath (sr_files r) = [''a.txt'', ''n/b.PNG'']" "map sf_readStatus (sr_files r) = [SUPPORTED, SUPPORTED]"
    using arg_cong[OF r(2), of "map fst"] arg_cong[OF r(2), of "map (\<lambda>x. snd (snd x))"] by (simp_all add: o_def)
  moreover from this(2) have "\<forall>d \<in> set (sr_files r). sf_readStatus d = SUPPORTED"
    by (metis (no_types) empty_iff empty_set imageI insert_iff list.set_map list.simps(15))
  moreover have "{g. Interfere g \<in> set (sched busy_world)} = {beside}" "disk busy_world = scan_disk []"
    by (auto simp: busy_world_def desk_oworld_def)
  ultimately show ?thesis
    using r(1) scan_publishes_visible[OF run] by (simp add: keeps list_all_iff) (elim conjE exE, intro exI, assumption)
qed

text \<open>
  One name makes a folder unscannable. A file whose name starts with two dots lies
  inside the folder, but the scan takes its relative path for one that leaves the folder:
  it throws \<open>PATH_OUTSIDE_ROOT\<close> before it can ignore the hidden file, and nothing of
  the folder is listed.
\<close>

theorem dotdot_name_blocks_scan:
  "isPathInsideRoot ''/'' ''/r'' ''/r/..data'' \<and> shouldIgnore ''..data'' \<and>
   listed (fst (scan_of [])) \<noteq> None \<and>
   fst (scan_of [(''/r/..data'', 6)]) = Throw (BridgeAppError PATH_OUTSIDE_ROOT 403)"
proof -
  have "case fst (scan_of [(''/r/..data'', 6)]) of Throw e \<Rightarrow> e = BridgeAppError PATH_OUTSIDE_ROOT 403 | _ \<Rightarrow> False"
    by code_simp
  then have "fst (scan_of [(''/r/..data'', 6)]) = Throw (BridgeAppError PATH_OUTSIDE_ROOT 403)"
    by (cases "fst (scan_of [(''/r/..data'', 6)])") auto
  moreover have "isPathInsideRoot ''/'' ''/r'' ''/r/..data''" "shouldIgnore ''..data''" by code_simp+
  ultimately show ?thesis using plain_scan_lists by simp
qed

section \<open>The lookup of a file\<close>

lemma resolve_io_Ok:
  "returns (resolve_io root rel) (\<lambda>(r, p). \<exists>cwd f. resolveInsideRoot cwd root rel False f = Inr (r, p))"
  unfolding returns_def
proof (intro allI impI)
  fix w x w' assume "resolve_io root rel w = (Ok x, w')"
  from scheduled_Ok[OF this[unfolded resolve_io_def]] obtain w0 where "io_result (resolveInsideRoot (working_dir w0) root rel False (disk w0)) w0 = (Ok x, w')"
    by auto
  then show "case x of (r, p) \<Rightarrow> \<exists>cwd f. resolveInsideRoot cwd root rel False f = Inr (r, p)"
    by (cases "resolveInsideRoot (working_dir w0) root rel False (disk w0)")
      (auto simp: io_result_def io_throw_def io_return_def split: prod.splits)
qed

lemma returns_checkResolved: "returns (checkResolved q p) (\<lambda>r. rf_localPath r = p \<and> rf_relativePath r = q)"
  unfolding checkResolved_def
proof (rule returns_skip, goal_cases)
  case (1 r)
  show ?case
  proof (cases r)
    case (Inr st)
    show ?thesis
      unfolding Inr sum.case by (rule returns_skip, rule returns_skip, rule returns_skip, rule returns_return) simp
  qed (simp add: returns_throw)
qed

text \<open>
  A file is looked up inside its folder only. A lookup that returns was allowed to
  read the root, and answers with a relative path of proper segments, none empty, a dot or
  two dots, and with the absolute path of those segments below the folder, whatever other
  processes do meanwhile.
\<close>

theorem resolved_file_inside:
  assumes "resolveBridgeRootFile rootId rel w = (Ok r, w')"
    and "\<forall>root. getRoot rootId (reg_state w) = Inr root \<longrightarrow> posix_isAbsolute (actualPath root)"
  shows "\<exists>root segs. getRoot rootId (reg_state w) = Inr root \<and> root_status root = CONNECTED \<and> readPermission root \<and>
    rf_localPath r = abs_path (norm_segs False [] (split_on slash (actualPath root)) @ segs) \<and>
    rf_relativePath r = join_with [slash] segs \<and> segs \<noteq> [] \<and> (\<forall>s \<in> set segs. plain_seg s)"
proof -
  obtain root w1 where root: "require_permission rootId ReadPermission w = (Ok root, w1)"
    "io_bind (resolve_io (actualPath root) rel) (\<lambda>p. checkResolved (fst p) (snd p)) w1 = (Ok r, w')"
    using assms(1) unfolding resolveBridgeRootFile_def by (rule io_bind_Ok)
  have granted: "getRoot rootId (reg_state w) = Inr root" "root_status root = CONNECTED" "readPermission root"
    using require_permission_Ok[OF root(1)] by (simp_all add: requireRootPermission_grant)
  have "returns (io_bind (resolve_io (actualPath root) rel) (\<lambda>p. checkResolved (fst p) (snd p)))
     (\<lambda>r. \<exists>cwd f. resolveInsideRoot cwd (actualPath root) rel False f = Inr (rf_relativePath r, rf_localPath r))"
    by (rule returns_bind[OF resolve_io_Ok], rule returns_weaken[OF returns_checkResolved]) auto
  from returnsD[OF this root(2)] obtain cwd f
    where "resolveInsideRoot cwd (actualPath root) rel False f = Inr (rf_relativePath r, rf_localPath r)" by blast
  from resolve_contained[OF this] assms(2) granted show ?thesis by blast
qed

theorem resolved_file_inside_witness:
  "\<exists>r. fst (resolveBridgeRootFile ''r1'' ''n/b.PNG'' ((desk_oworld [])\<lparr>disk := scan_disk []\<rparr>)) = Ok r \<and>
     (\<exists>segs. rf_relativePath r = join_with [slash] segs \<and> segs \<noteq> [])"
proof -
  let ?w = "(desk_oworld [])\<lparr>disk := scan_disk []\<rparr>"
  have "case fst (resolveBridgeRootFile ''r1'' ''n/b.PNG'' ?w) of Ok r \<Rightarrow> True | _ \<Rightarrow> False" by code_simp
  then obtain r where r: "fst (resolveBridgeRootFile ''r1'' ''n/b.PNG'' ?w) = Ok r"
    by (cases "fst (resolveBridgeRootFile ''r1'' ''n/b.PNG'' ?w)") auto
  then have run: "resolveBridgeRootFile ''r1'' ''n/b.PNG'' ?w = (Ok r, snd (resolveBridgeRootFile ''r1'' ''n/b.PNG'' ?w))"
    by (metis prod.collapse)
  have "getRoot ''r1'' (reg_state ?w) = Inr desk_root" by code_simp
  moreover have "posix_isAbsolute (actualPath desk_root)" by code_simp
  ultimately have "\<forall>root. getRoot ''r1'' (reg_state ?w) = Inr root \<longrightarrow> posix_isAbsolute (actualPath root)" by simp
  from resolved_file_inside[OF run this] r show ?thesis by blast
qed

end
