(* ===== verification/WatcherFacts.thy ===== *)
theory WatcherFacts
  imports Watcher
begin

text \<open>
  What the watcher module keeps: in runs without overlapping starts of one root every open
  handle is registered, so stopping is final. A start that attaches while
  its root is registered hides a handle that nothing stops; two runs show that this happens. Bursts of changes coalesce, and a restart restores exactly the
  watchers that were on.
\<close>

section \<open>Runs without overlapping starts\<close>

text \<open>A start that waits to attach finds its root unregistered.\<close>

fun unobstructed :: "runtime \<Rightarrow> task \<Rightarrow> bool" where
  "unobstructed rt (Attach root) = (\<not> isWatching (root_id root) rt)"
| "unobstructed rt _ = True"

definition no_overlap :: "runtime \<Rightarrow> bool" where
  "no_overlap rt \<longleftrightarrow> list_all (unobstructed rt) (rt_tasks rt)"

inductive orderly_run :: "runtime \<Rightarrow> runtime \<Rightarrow> bool" where
  begin_run: "orderly_run rt rt"
| continue: "orderly_run rt rt1 \<Longrightarrow> no_overlap rt1 \<Longrightarrow> watcher_step rt1 rt2 \<Longrightarrow> orderly_run rt rt2"

definition handle_at :: "nat \<Rightarrow> watch_handle \<Rightarrow> runtime \<Rightarrow> bool" where
  "handle_at i h rt \<longleftrightarrow> i < length (rt_handles rt) \<and> rt_handles rt ! i = h"

definition watcher_inv :: "runtime \<Rightarrow> bool" where
  "watcher_inv rt \<longleftrightarrow>
     (\<forall>r i. map_of (watcherRegistry rt) r = Some i \<longrightarrow>
        i < length (rt_handles rt) \<and> wh_rootId (rt_handles rt ! i) = r \<and> wh_state (rt_handles rt ! i) = Open) \<and>
     (\<forall>i < length (rt_handles rt). wh_state (rt_handles rt ! i) = Open \<longrightarrow>
        map_of (watcherRegistry rt) (wh_rootId (rt_handles rt ! i)) = Some i) \<and>
     (\<forall>i < length (rt_handles rt). wh_state (rt_handles rt ! i) = Closed \<longrightarrow> wh_timers (rt_handles rt ! i) = [])"

lemma map_of_delete [simp]: "map_of (map_delete m k) = (map_of m)(k := None)"
  by (induction m) (auto simp: map_delete_def)

lemma noteChange_fields [simp]:
  "wh_rootId (noteChange now ev fn h) = wh_rootId h" "wh_state (noteChange now ev fn h) = wh_state h"
  by (simp_all add: noteChange_def)

text \<open>Steps that leave registry and handles alone, up to timers of handles not closed.\<close>

lemma inv_tasks [simp]:
  "watcher_inv (rt\<lparr>rt_tasks := ts\<rparr>) = watcher_inv rt" "watcher_inv (rt\<lparr>rt_roots := f\<rparr>) = watcher_inv rt"
  "watcher_inv (rt\<lparr>rt_outbox := b\<rparr>) = watcher_inv rt"
  by (simp_all add: watcher_inv_def)

lemma inv_handle:
  assumes "watcher_inv rt" "i < length (rt_handles rt)"
    and "wh_rootId h = wh_rootId (rt_handles rt ! i)" "wh_state h = wh_state (rt_handles rt ! i)"
    and "wh_state h = Closed \<Longrightarrow> wh_timers h = []"
  shows "watcher_inv (rt\<lparr>rt_handles := (rt_handles rt)[i := h]\<rparr>)"
  using assms by (auto simp: watcher_inv_def nth_list_update)

lemma inv_registered:
  "watcher_inv rt \<Longrightarrow> map_of (watcherRegistry rt) r = Some i \<Longrightarrow>
    i < length (rt_handles rt) \<and> wh_rootId (rt_handles rt ! i) = r \<and> wh_state (rt_handles rt ! i) = Open"
  unfolding watcher_inv_def by blast

lemma inv_open:
  "watcher_inv rt \<Longrightarrow> i < length (rt_handles rt) \<Longrightarrow> wh_state (rt_handles rt ! i) = Open \<Longrightarrow>
    map_of (watcherRegistry rt) (wh_rootId (rt_handles rt ! i)) = Some i"
  unfolding watcher_inv_def by blast

lemma inv_closed:
  "watcher_inv rt \<Longrightarrow> i < length (rt_handles rt) \<Longrightarrow> wh_state (rt_handles rt ! i) = Closed \<Longrightarrow>
    wh_timers (rt_handles rt ! i) = []"
  unfolding watcher_inv_def by blast

lemma watcher_invI:
  assumes "\<And>r i. map_of (watcherRegistry rt) r = Some i \<Longrightarrow>
      i < length (rt_handles rt) \<and> wh_rootId (rt_handles rt ! i) = r \<and> wh_state (rt_handles rt ! i) = Open"
    and "\<And>i. i < length (rt_handles rt) \<Longrightarrow> wh_state (rt_handles rt ! i) = Open \<Longrightarrow>
      map_of (watcherRegistry rt) (wh_rootId (rt_handles rt ! i)) = Some i"
    and "\<And>i. i < length (rt_handles rt) \<Longrightarrow> wh_state (rt_handles rt ! i) = Closed \<Longrightarrow>
      wh_timers (rt_handles rt ! i) = []"
  shows "watcher_inv rt"
  unfolding watcher_inv_def using assms by blast

text \<open>A registered handle leaves the registry and does not stay open.\<close>

lemma inv_retire:
  assumes inv: "watcher_inv rt" and i: "i < length (rt_handles rt)" "wh_state (rt_handles rt ! i) = Open"
    and h: "wh_state h \<noteq> Open" "wh_state h = Closed \<Longrightarrow> wh_timers h = []"
  shows "watcher_inv (rt\<lparr>rt_handles := (rt_handles rt)[i := h],
    watcherRegistry := map_delete (watcherRegistry rt) (wh_rootId (rt_handles rt ! i))\<rparr>)"
proof (rule watcher_invI)
  let ?r = "wh_rootId (rt_handles rt ! i)"
  fix r j
  assume "map_of (watcherRegistry (rt\<lparr>rt_handles := (rt_handles rt)[i := h],
    watcherRegistry := map_delete (watcherRegistry rt) ?r\<rparr>)) r = Some j"
  then have j: "map_of (watcherRegistry rt) r = Some j" "r \<noteq> ?r" by (auto split: if_splits)
  then have "j \<noteq> i" using inv_registered[OF inv] by blast
  with inv_registered[OF inv j(1)] show "j < length (rt_handles (rt\<lparr>rt_handles := (rt_handles rt)[i := h],
    watcherRegistry := map_delete (watcherRegistry rt) ?r\<rparr>)) \<and>
    wh_rootId (rt_handles (rt\<lparr>rt_handles := (rt_handles rt)[i := h],
      watcherRegistry := map_delete (watcherRegistry rt) ?r\<rparr>) ! j) = r \<and>
    wh_state (rt_handles (rt\<lparr>rt_handles := (rt_handles rt)[i := h],
      watcherRegistry := map_delete (watcherRegistry rt) ?r\<rparr>) ! j) = Open" by simp
next
  fix j
  assume j: "j < length (rt_handles (rt\<lparr>rt_handles := (rt_handles rt)[i := h],
      watcherRegistry := map_delete (watcherRegistry rt) (wh_rootId (rt_handles rt ! i))\<rparr>))"
    "wh_state (rt_handles (rt\<lparr>rt_handles := (rt_handles rt)[i := h],
      watcherRegistry := map_delete (watcherRegistry rt) (wh_rootId (rt_handles rt ! i))\<rparr>) ! j) = Open"
  have "j \<noteq> i" using j h(1) i(1) by auto
  with j have o: "map_of (watcherRegistry rt) (wh_rootId (rt_handles rt ! j)) = Some j"
    using inv_open[OF inv] by simp
  with inv_open[OF inv i] \<open>j \<noteq> i\<close> have "wh_rootId (rt_handles rt ! j) \<noteq> wh_rootId (rt_handles rt ! i)" by auto
  with o \<open>j \<noteq> i\<close> show "map_of (watcherRegistry (rt\<lparr>rt_handles := (rt_handles rt)[i := h],
      watcherRegistry := map_delete (watcherRegistry rt) (wh_rootId (rt_handles rt ! i))\<rparr>))
    (wh_rootId (rt_handles (rt\<lparr>rt_handles := (rt_handles rt)[i := h],
      watcherRegistry := map_delete (watcherRegistry rt) (wh_rootId (rt_handles rt ! i))\<rparr>) ! j)) = Some j" by simp
next
  fix j
  assume j: "j < length (rt_handles (rt\<lparr>rt_handles := (rt_handles rt)[i := h],
      watcherRegistry := map_delete (watcherRegistry rt) (wh_rootId (rt_handles rt ! i))\<rparr>))"
    "wh_state (rt_handles (rt\<lparr>rt_handles := (rt_handles rt)[i := h],
      watcherRegistry := map_delete (watcherRegistry rt) (wh_rootId (rt_handles rt ! i))\<rparr>) ! j) = Closed"
  then show "wh_timers (rt_handles (rt\<lparr>rt_handles := (rt_handles rt)[i := h],
      watcherRegistry := map_delete (watcherRegistry rt) (wh_rootId (rt_handles rt ! i))\<rparr>) ! j) = []"
    using h(2) i(1) inv_closed[OF inv] by (cases "j = i") auto
qed

lemma inv_stop [keeps]:
  assumes "watcher_inv rt"
  shows "watcher_inv (stopWatcherHandle r rt)"
proof (cases "map_of (watcherRegistry rt) r")
  case (Some i)
  with inv_registered[OF assms Some] inv_retire[OF assms, of i "(rt_handles rt ! i)\<lparr>wh_timers := [], wh_state := Closed\<rparr>"]
  show ?thesis by (simp add: stopWatcherHandle_def)
qed (use assms in \<open>simp add: stopWatcherHandle_def\<close>)

lemma inv_error [keeps]:
  assumes "watcher_inv rt" "i < length (rt_handles rt)" "wh_state (rt_handles rt ! i) = Open"
  shows "watcher_inv (watcherError i rt)"
  using inv_retire[OF assms, of "(rt_handles rt ! i)\<lparr>wh_state := Failed\<rparr>"]
  by (simp add: watcherError_def Let_def)

lemma inv_enrol:
  assumes inv: "watcher_inv rt" and no: "map_of (watcherRegistry rt) (root_id root) = None"
  shows "watcher_inv (rt\<lparr>rt_handles := rt_handles rt @ [new_handle root],
    watcherRegistry := map_set (watcherRegistry rt) (root_id root) (length (rt_handles rt))\<rparr>)"
proof (rule watcher_invI, goal_cases)
  case (1 r i)
  then show ?case
    using inv_registered[OF inv, of r i] by (auto simp: nth_append new_handle_def split: if_splits)
next
  case (2 i)
  show ?case
  proof (cases "i = length (rt_handles rt)")
    case False
    with 2 have "map_of (watcherRegistry rt) (wh_rootId (rt_handles rt ! i)) = Some i"
      using inv_open[OF inv, of i] by (simp add: nth_append)
    moreover from this no have "wh_rootId (rt_handles rt ! i) \<noteq> root_id root" by auto
    ultimately show ?thesis using 2 False by (simp add: nth_append)
  qed (simp add: new_handle_def)
next
  case (3 i)
  then show ?case
    using inv_closed[OF inv, of i] by (cases "i = length (rt_handles rt)") (auto simp: nth_append new_handle_def)
qed

lemma inv_attach [keeps]:
  assumes "watcher_inv rt" "\<not> isWatching (root_id root) rt"
  shows "watcher_inv (snd (attachWatcher f watchable root rt))"
  using assms inv_enrol[OF assms(1), of root] by (simp add: attachWatcher_def isWatching_def)

lemma inv_fire [keeps]:
  assumes "watcher_inv rt" "i < length (rt_handles rt)"
  shows "watcher_inv (fireTimer i key rt)"
proof -
  let ?h = "(rt_handles rt ! i)\<lparr>wh_timers := map_delete (wh_timers (rt_handles rt ! i)) key\<rparr>"
  have "watcher_inv (rt\<lparr>rt_handles := (rt_handles rt)[i := ?h]\<rparr>)"
    using assms by (intro inv_handle) (auto simp: watcher_inv_def map_delete_def)
  then show ?thesis
    using assms(1) by (auto simp: fireTimer_def Let_def watcher_inv_def split: option.splits)
qed

lemma inv_queue [keeps]: "watcher_inv rt \<Longrightarrow> watcher_inv (queueClassified how event (rt\<lparr>rt_tasks := ts\<rparr>))"
  by (simp add: queueClassified_def)

lemma inv_change [keeps]:
  assumes "watcher_inv rt" "i < length (rt_handles rt)" "wh_state (rt_handles rt ! i) = Open"
  shows "watcher_inv (on_change now i ev fn rt)"
  unfolding on_change_def using assms by (intro inv_handle) auto

lemma inv_finish [keeps]: "watcher_inv rt \<Longrightarrow> watcher_inv (snd (finish env t rt))"
  by (simp add: finish_def split: prod.splits)

lemma inv_halt [keeps]: "watcher_inv rt \<Longrightarrow> haltCheck r rt = Inr rt1 \<Longrightarrow> watcher_inv rt1"
  by (auto simp: haltCheck_def intro: inv_stop)

lemma inv_step:
  assumes "watcher_step rt rt'" "watcher_inv rt" "no_overlap rt"
  shows "watcher_inv rt'"
  using assms
proof (induction rule: watcher_step.induct)
  case (attach rt ts root us f watchable next_task e rt1)
  let ?rt = "rt\<lparr>rt_tasks := ts @ us\<rparr>"
  have "\<not> isWatching (root_id root) ?rt"
    using attach.hyps(1) attach.prems(2) by (simp add: no_overlap_def isWatching_def)
  then have "watcher_inv (snd (attachWatcher f watchable root ?rt))"
    using attach.prems(1) by (intro inv_attach) simp
  with attach.hyps(2) show ?case by simp
qed (auto intro: keeps)

definition idle_runtime :: "registry_file \<Rightarrow> outbox_file \<Rightarrow> runtime" where
  "idle_runtime roots box = \<lparr>rt_handles = [], watcherRegistry = [], rt_roots = roots, rt_outbox = box, rt_tasks = []\<rparr>"

lemma inv_run: "orderly_run rt rt' \<Longrightarrow> watcher_inv rt \<Longrightarrow> watcher_inv rt'"
  by (induction rule: orderly_run.induct) (auto intro: inv_step)

text \<open>
  C21. Stopping is final. In a run in which no two starts of one root overlap, pausing or
  stopping a root leaves no open handle of it: it is not registered, none of its handles
  reports changes, and a handle whose timers could still fire had failed before. (A change
  whose timer had fired before the stop is a task of its own by then: it is still
  classified and queued.)
\<close>

theorem stop_is_final:
  assumes "orderly_run (idle_runtime roots box) rt" "haltCheck rootId rt = Inr rt'"
  shows "\<not> isWatching rootId rt' \<and>
    (\<forall>h \<in> set (rt_handles rt'). wh_rootId h = rootId \<longrightarrow>
       wh_state h \<noteq> Open \<and> (wh_timers h \<noteq> [] \<longrightarrow> wh_state h = Failed))"
proof -
  have "watcher_inv (idle_runtime roots box)" by (simp add: watcher_inv_def idle_runtime_def)
  from inv_run[OF assms(1) this] have inv: "watcher_inv rt" .
  have rt': "rt' = stopWatcherHandle rootId rt" using assms(2) by (auto simp: haltCheck_def)
  have gone: "\<not> isWatching rootId rt'"
    by (cases "map_of (watcherRegistry rt) rootId") (simp_all add: rt' stopWatcherHandle_def isWatching_def)
  have inv': "watcher_inv rt'" unfolding rt' by (rule inv_stop[OF inv])
  have "wh_state h \<noteq> Open \<and> (wh_timers h \<noteq> [] \<longrightarrow> wh_state h = Failed)"
    if h: "h \<in> set (rt_handles rt')" "wh_rootId h = rootId" for h
  proof -
    obtain i where i: "i < length (rt_handles rt')" "rt_handles rt' ! i = h"
      using h(1) by (auto simp: in_set_conv_nth)
    have "wh_state h \<noteq> Open" using inv' gone i h(2) by (auto simp: watcher_inv_def isWatching_def)
    moreover have "wh_state h = Closed \<Longrightarrow> wh_timers h = []" using inv' i by (auto simp: watcher_inv_def)
    ultimately show ?thesis by (cases "wh_state h") auto
  qed
  with gone show ?thesis by blast
qed

section \<open>Concrete runs\<close>

text \<open>
  A schedule as data: which step comes next. The first waiting task goes on with \<open>Go\<close>, the
  last one with \<open>GoLast\<close>.
\<close>

datatype move = Start string | Go | GoLast | Stop string | Change nat string string | Fire nat string

fun run_task :: "reg_env \<Rightarrow> task \<Rightarrow> task list \<Rightarrow> task list \<Rightarrow> runtime \<Rightarrow> runtime" where
  "run_task env (Attach root) ts us rt =
     (case attachWatcher (env_fs env) True root (rt\<lparr>rt_tasks := ts @ us\<rparr>) of
        ((next_task, _), rt1) \<Rightarrow> rt1\<lparr>rt_tasks := ts @ us @ (case next_task of None \<Rightarrow> [] | Some t \<Rightarrow> [t])\<rparr>)"
| "run_task env (Classify r p n ev) ts us rt =
     rt\<lparr>rt_tasks := ts @ us @ classified (classifyChange (env_cwd env) (env_fs env) (''t'', ''c'', ''r'') r p n ev)\<rparr>"
| "run_task env (Queue event) ts us rt = queueClassified Saved event (rt\<lparr>rt_tasks := ts @ us\<rparr>)"
| "run_task env t ts us rt = snd (finish env t (rt\<lparr>rt_tasks := ts @ us\<rparr>))"

fun perform :: "reg_env \<Rightarrow> move \<Rightarrow> runtime \<Rightarrow> runtime option" where
  "perform env (Start r) rt = (case startCheck r rt of Inl _ \<Rightarrow> None | Inr t \<Rightarrow> Some (rt\<lparr>rt_tasks := rt_tasks rt @ [t]\<rparr>))"
| "perform env Go rt = (case rt_tasks rt of [] \<Rightarrow> None | t # us \<Rightarrow> Some (run_task env t [] us rt))"
| "perform env GoLast rt = (case rev (rt_tasks rt) of [] \<Rightarrow> None | t # ts \<Rightarrow> Some (run_task env t (rev ts) [] rt))"
| "perform env (Stop r) rt = (case haltCheck r rt of Inl _ \<Rightarrow> None
     | Inr rt1 \<Rightarrow> Some (rt1\<lparr>rt_tasks := rt_tasks rt1 @ [MarkStopped r]\<rparr>))"
| "perform env (Change i ev fn) rt =
     (if i < length (rt_handles rt) \<and> wh_state (rt_handles rt ! i) = Open
      then Some (on_change (env_now env) i ev fn rt) else None)"
| "perform env (Fire i key) rt =
     (if i < length (rt_handles rt) \<and> map_of (wh_timers (rt_handles rt ! i)) key \<noteq> None
      then Some (fireTimer i key rt) else None)"

definition run_moves :: "reg_env \<Rightarrow> move list \<Rightarrow> runtime \<Rightarrow> runtime option" where
  "run_moves env ms rt = fold (\<lambda>m r. Option.bind r (perform env m)) ms (Some rt)"

definition run_orderly :: "reg_env \<Rightarrow> move list \<Rightarrow> runtime \<Rightarrow> runtime option" where
  "run_orderly env ms rt = fold (\<lambda>m r. Option.bind r (\<lambda>rt. if no_overlap rt then perform env m rt else None)) ms (Some rt)"

lemma run_task_step:
  assumes "rt_tasks rt = ts @ t # us"
  shows "watcher_step rt (run_task env t ts us rt)"
proof (cases t)
  case (Attach root)
  obtain n e rt1 where r: "attachWatcher (env_fs env) True root (rt\<lparr>rt_tasks := ts @ us\<rparr>) = ((n, e), rt1)"
    by (metis prod.collapse)
  with watcher_step.attach[OF assms[unfolded Attach] r] show ?thesis by (simp add: Attach)
next
  case (Classify r p n ev)
  with watcher_step.classify[OF assms[unfolded Classify]] show ?thesis by simp
next
  case (Queue event)
  with watcher_step.queue[OF assms[unfolded Queue]] show ?thesis by simp
qed (use watcher_step.finish[OF assms] in simp_all)

lemma perform_step: "perform env m rt = Some rt' \<Longrightarrow> watcher_step rt rt'"
proof (cases m)
  case GoLast
  assume "perform env m rt = Some rt'"
  with GoLast obtain t ts where "rev (rt_tasks rt) = t # ts" "rt' = run_task env t (rev ts) [] rt"
    by (auto split: list.splits)
  moreover from this have "rt_tasks rt = rev ts @ t # []" by (metis rev_eq_Cons_iff)
  ultimately show ?thesis using run_task_step by blast
next
  case (Fire i key)
  assume "perform env m rt = Some rt'"
  with Fire obtain t where "i < length (rt_handles rt)" "map_of (wh_timers (rt_handles rt ! i)) key = Some t"
    "rt' = fireTimer i key rt"
    by (auto split: if_splits)
  then show ?thesis using watcher_step.fire[of i rt key t "tm_due t"] by simp
qed (auto split: sum.splits list.splits if_splits intro: watcher_step.intros run_task_step)

lemma fold_bind_None [simp]: "fold (\<lambda>m r. Option.bind r (f m)) ms None = None"
  by (induction ms) simp_all

lemma run_moves_steps: "run_moves env ms rt = Some rt' \<Longrightarrow> watcher_step\<^sup>*\<^sup>* rt rt'"
proof (induction ms arbitrary: rt)
  case (Cons m ms)
  then obtain rt1 where "perform env m rt = Some rt1" "run_moves env ms rt1 = Some rt'"
    by (cases "perform env m rt") (auto simp: run_moves_def)
  with Cons.IH perform_step show ?case by (meson converse_rtranclp_into_rtranclp)
qed (simp add: run_moves_def)

lemma orderly_run_front:
  "orderly_run rt1 rt2 \<Longrightarrow> no_overlap rt \<Longrightarrow> watcher_step rt rt1 \<Longrightarrow> orderly_run rt rt2"
  by (induction rule: orderly_run.induct) (auto intro: orderly_run.intros)

lemma run_orderly_run: "run_orderly env ms rt = Some rt' \<Longrightarrow> orderly_run rt rt'"
proof (induction ms arbitrary: rt)
  case (Cons m ms)
  then obtain rt1 where "no_overlap rt" "perform env m rt = Some rt1" "run_orderly env ms rt1 = Some rt'"
    by (cases "no_overlap rt"; cases "perform env m rt") (auto simp: run_orderly_def)
  with Cons.IH perform_step orderly_run_front show ?case by blast
qed (simp add: run_orderly_def orderly_run.intros)

definition watch_env :: reg_env where
  "watch_env = sample_env\<lparr>env_now := 2000\<rparr>"

definition watch_idle :: runtime where
  "watch_idle = idle_runtime sample_registry NoOutbox"

definition lib_root :: string where "lib_root = ''root_/u/lib''"

definition one_start :: runtime where
  "one_start = the (run_orderly watch_env [Start lib_root, Go, Go, Change 0 ''rename'' ''a.txt''] watch_idle)"

lemma one_start_run: "run_orderly watch_env [Start lib_root, Go, Go, Change 0 ''rename'' ''a.txt''] watch_idle = Some one_start"
proof -
  have "run_orderly watch_env [Start lib_root, Go, Go, Change 0 ''rename'' ''a.txt''] watch_idle \<noteq> None" by code_simp
  then show ?thesis by (simp add: one_start_def)
qed

theorem stop_is_final_witness:
  "isWatching lib_root one_start \<and> \<not> isWatching lib_root (stopWatcherHandle lib_root one_start) \<and>
   filter (\<lambda>h. wh_rootId h = lib_root \<and> wh_state h = Open) (rt_handles (stopWatcherHandle lib_root one_start)) = []"
proof -
  have run: "orderly_run (idle_runtime sample_registry NoOutbox) one_start"
    using run_orderly_run[OF one_start_run] by (simp add: watch_idle_def)
  have "isl (getRoot lib_root (rt_roots one_start)) = False" by code_simp
  then have halt: "haltCheck lib_root one_start = Inr (stopWatcherHandle lib_root one_start)"
    by (cases "getRoot lib_root (rt_roots one_start)") (simp_all add: haltCheck_def)
  have "isWatching lib_root one_start" by code_simp
  with stop_is_final[OF run halt] show ?thesis unfolding filter_empty_conv by blast
qed

lemma case_SomeE:
  assumes "case x of None \<Rightarrow> False | Some y \<Rightarrow> P y"
  obtains y where "x = Some y" "P y"
  using assms by (cases x) auto

definition overlapping_starts :: "move list" where
  "overlapping_starts = [Start lib_root, Start lib_root, Go, Go, Go, Go, Stop lib_root, Go,
     Change 0 ''rename'' ''a.txt'', Fire 0 ''a.txt'', Go, Go]"

definition leaked :: runtime where
  "leaked = the (run_moves watch_env overlapping_starts watch_idle)"

lemma leaked_facts:
  "run_moves watch_env overlapping_starts watch_idle \<noteq> None"
  "\<not> isWatching lib_root leaked" "rt_tasks leaked = []"
  "\<not> isl (getRoot lib_root (rt_roots leaked)) \<and> watcherState (projr (getRoot lib_root (rt_roots leaked))) = W_STOPPED"
  "map wh_state (rt_handles leaked) = [Open, Closed]"
  "\<not> isl (readOutbox (rt_outbox leaked)) \<and> map event_rootId (projr (readOutbox (rt_outbox leaked))) = [lib_root]"
  by code_simp+

text \<open>
  Two starts of one root that both pass the check before either attaches open two handles;
  the second registration hides the first. After a stop the root counts as not watched and
  its record says so, but the first handle is still open, and a change it reports is still
  queued.
\<close>

lemma overlapping_starts_leak:
  "watcher_step\<^sup>*\<^sup>* watch_idle leaked \<and> \<not> isWatching lib_root leaked \<and> rt_tasks leaked = [] \<and>
   (\<exists>root. getRoot lib_root (rt_roots leaked) = Inr root \<and> watcherState root = W_STOPPED) \<and>
   map wh_state (rt_handles leaked) = [Open, Closed] \<and>
   (\<exists>es. readOutbox (rt_outbox leaked) = Inr es \<and> map event_rootId es = [lib_root])"
proof -
  have "run_moves watch_env overlapping_starts watch_idle = Some leaked"
    using leaked_facts(1) by (auto simp: leaked_def)
  then have "watcher_step\<^sup>*\<^sup>* watch_idle leaked" by (rule run_moves_steps)
  moreover have "\<exists>root. getRoot lib_root (rt_roots leaked) = Inr root \<and> watcherState root = W_STOPPED"
    using leaked_facts(4) by (cases "getRoot lib_root (rt_roots leaked)") auto
  moreover have "\<exists>es. readOutbox (rt_outbox leaked) = Inr es \<and> map event_rootId es = [lib_root]"
    using leaked_facts(6) by (cases "readOutbox (rt_outbox leaked)") auto
  ultimately show ?thesis using leaked_facts(2,3,5) by blast
qed

section \<open>Hidden handles\<close>

text \<open>In every run, orderly or not, a registered handle belongs to its root and is open.\<close>

definition registered_ok :: "runtime \<Rightarrow> bool" where
  "registered_ok rt \<longleftrightarrow> (\<forall>r i. map_of (watcherRegistry rt) r = Some i \<longrightarrow>
     i < length (rt_handles rt) \<and> wh_rootId (rt_handles rt ! i) = r \<and> wh_state (rt_handles rt ! i) = Open)"

lemma registered_ok_simps [simp]:
  "registered_ok (rt\<lparr>rt_tasks := ts\<rparr>) = registered_ok rt" "registered_ok (rt\<lparr>rt_roots := f\<rparr>) = registered_ok rt"
  "registered_ok (rt\<lparr>rt_outbox := b\<rparr>) = registered_ok rt"
  by (simp_all add: registered_ok_def)

lemma registered_handle:
  assumes "registered_ok rt" "i < length (rt_handles rt)"
    and "wh_rootId h = wh_rootId (rt_handles rt ! i)" "wh_state h = wh_state (rt_handles rt ! i)"
  shows "registered_ok (rt\<lparr>rt_handles := (rt_handles rt)[i := h]\<rparr>)"
  using assms by (auto simp: registered_ok_def nth_list_update)

lemma registered_retire:
  assumes "registered_ok rt"
  shows "registered_ok (rt\<lparr>rt_handles := (rt_handles rt)[i := h],
    watcherRegistry := map_delete (watcherRegistry rt) (wh_rootId (rt_handles rt ! i))\<rparr>)"
proof -
  have "(rt_handles rt)[i := h] ! j = rt_handles rt ! j"
    if "map_of (watcherRegistry rt) r = Some j" "r \<noteq> wh_rootId (rt_handles rt ! i)" for r j
  proof (rule nth_list_update_neq)
    show "i \<noteq> j" using assms that by (auto simp: registered_ok_def)
  qed
  with assms show ?thesis by (simp add: registered_ok_def)
qed

lemma registered_stop: "registered_ok rt \<Longrightarrow> registered_ok (stopWatcherHandle r rt)"
proof (cases "map_of (watcherRegistry rt) r")
  case (Some i)
  assume ok: "registered_ok rt"
  with Some have "wh_rootId (rt_handles rt ! i) = r" by (auto simp: registered_ok_def)
  with Some registered_retire[OF ok, of i] show ?thesis by (simp add: stopWatcherHandle_def)
qed (simp add: stopWatcherHandle_def)

lemma registered_step: "watcher_step rt rt' \<Longrightarrow> registered_ok rt \<Longrightarrow> registered_ok rt'"
proof (induction rule: watcher_step.induct)
  case (attach rt ts root us f watchable next_task e rt1)
  then have "registered_ok (snd (attachWatcher f watchable root (rt\<lparr>rt_tasks := ts @ us\<rparr>)))"
    by (auto simp: attachWatcher_def registered_ok_def nth_append new_handle_def less_Suc_eq split: if_splits)
  with attach.hyps(2) show ?case by simp
next
  case (fire i rt key t now)
  have "registered_ok (rt\<lparr>rt_handles := (rt_handles rt)[i := (rt_handles rt ! i)\<lparr>wh_timers := map_delete (wh_timers (rt_handles rt ! i)) key\<rparr>]\<rparr>)"
    using fire by (intro registered_handle) simp_all
  with fire.hyps(2) show ?case by (simp add: fireTimer_def Let_def registered_ok_def)
next
  case (change i rt now eventName fileName)
  then show ?case unfolding on_change_def by (intro registered_handle) simp_all
next
  case (error i rt)
  from registered_retire[OF error.prems, of i "(rt_handles rt ! i)\<lparr>wh_state := Failed\<rparr>"]
  show ?case by (simp add: watcherError_def Let_def)
qed (auto simp: finish_def queueClassified_def haltCheck_def registered_stop split: prod.splits)

text \<open>A handle that the registry does not name, and that nothing has closed.\<close>

definition hidden :: "nat \<Rightarrow> runtime \<Rightarrow> bool" where
  "hidden i rt \<longleftrightarrow> i < length (rt_handles rt) \<and> wh_state (rt_handles rt ! i) \<noteq> Closed \<and>
     (\<forall>r. map_of (watcherRegistry rt) r \<noteq> Some i)"

lemma hidden_simps [simp]:
  "hidden i (rt\<lparr>rt_tasks := ts\<rparr>) = hidden i rt" "hidden i (rt\<lparr>rt_roots := f\<rparr>) = hidden i rt"
  "hidden i (rt\<lparr>rt_outbox := b\<rparr>) = hidden i rt"
  by (simp_all add: hidden_def)

lemma hidden_stop:
  assumes "hidden i rt"
  shows "hidden i (stopWatcherHandle r rt)" "rt_handles (stopWatcherHandle r rt) ! i = rt_handles rt ! i"
proof -
  have "rt_handles (stopWatcherHandle r rt) ! i = rt_handles rt ! i \<and> hidden i (stopWatcherHandle r rt)"
  proof (cases "map_of (watcherRegistry rt) r")
    case (Some k)
    with assms have "k \<noteq> i" by (auto simp: hidden_def)
    with Some assms show ?thesis by (auto simp: stopWatcherHandle_def hidden_def nth_list_update)
  qed (use assms in \<open>simp add: stopWatcherHandle_def\<close>)
  then show "hidden i (stopWatcherHandle r rt)" "rt_handles (stopWatcherHandle r rt) ! i = rt_handles rt ! i" by auto
qed

lemma hidden_step: "watcher_step rt rt' \<Longrightarrow> hidden i rt \<Longrightarrow> hidden i rt'"
proof (induction rule: watcher_step.induct)
  case (attach rt ts root us f watchable next_task e rt1)
  then have "hidden i (snd (attachWatcher f watchable root (rt\<lparr>rt_tasks := ts @ us\<rparr>)))"
    by (auto simp: attachWatcher_def hidden_def nth_append split: if_splits)
  with attach.hyps(2) show ?case by simp
next
  case (fire k rt key t now)
  then show ?case by (auto simp: fireTimer_def Let_def hidden_def nth_list_update)
next
  case (change k rt now eventName fileName)
  then show ?case by (auto simp: on_change_def hidden_def nth_list_update)
next
  case (error k rt)
  then show ?case by (auto simp: watcherError_def Let_def hidden_def nth_list_update)
qed (auto simp: finish_def queueClassified_def haltCheck_def hidden_stop split: prod.splits)

lemma hidden_steps: "watcher_step\<^sup>*\<^sup>* rt rt' \<Longrightarrow> hidden i rt \<Longrightarrow> hidden i rt'"
  by (induction rule: rtranclp_induct) (auto intro: hidden_step)

text \<open>
  C22. Overlapping starts leave a watcher that nothing stops. Take any run, and in it a start
  that attaches while its root is registered already, because another start attached after
  its check. Whatever happens from then on, the handle registered before is in no entry of
  the registry and is never closed: it stays open, or fails by an error of its own, and
  every later pause or stop of any root leaves it as it is, with the changes it has noted.
\<close>

theorem hidden_handle_unstoppable:
  assumes "watcher_step\<^sup>*\<^sup>* (idle_runtime roots box) rt" and "rt_tasks rt = ts @ Attach root # us"
    and "map_of (watcherRegistry rt) (root_id root) = Some i"
    and "attachWatcher f watchable root (rt\<lparr>rt_tasks := ts @ us\<rparr>) = ((next_task, None), rt1)"
    and "watcher_step\<^sup>*\<^sup>* (rt1\<lparr>rt_tasks := ts @ us @ (case next_task of None \<Rightarrow> [] | Some t \<Rightarrow> [t])\<rparr>) rt2"
  shows "wh_rootId (rt_handles rt ! i) = root_id root \<and> wh_state (rt_handles rt2 ! i) \<noteq> Closed \<and>
    (\<forall>r. map_of (watcherRegistry rt2) r \<noteq> Some i) \<and>
    (\<forall>r rt3. haltCheck r rt2 = Inr rt3 \<longrightarrow> rt_handles rt3 ! i = rt_handles rt2 ! i)"
proof -
  have "registered_ok (idle_runtime roots box)" by (simp add: registered_ok_def idle_runtime_def)
  with assms(1) have ok: "registered_ok rt" by (induction rule: rtranclp_induct) (auto intro: registered_step)
  then have i: "i < length (rt_handles rt)" "wh_rootId (rt_handles rt ! i) = root_id root" "wh_state (rt_handles rt ! i) = Open"
    using assms(3) by (auto simp: registered_ok_def)
  have only: "r = root_id root" if "map_of (watcherRegistry rt) r = Some i" for r
    using ok that i(2) by (auto simp: registered_ok_def)
  have "hidden i rt1"
    using assms(4) i only by (auto simp: attachWatcher_def hidden_def nth_append split: if_splits)
  then have h: "hidden i rt2" using hidden_steps[OF assms(5)] by simp
  then have "rt_handles rt3 ! i = rt_handles rt2 ! i" if "haltCheck r rt2 = Inr rt3" for r rt3
    using hidden_stop(2)[OF h] that by (auto simp: haltCheck_def)
  with h i(2) show ?thesis by (auto simp: hidden_def)
qed

definition second_waits :: runtime where
  "second_waits = the (run_moves watch_env [Start lib_root, Start lib_root, Go] watch_idle)"

definition second_attached :: runtime where
  "second_attached = the (perform watch_env Go second_waits)"

definition second_stopped :: runtime where
  "second_stopped = the (run_moves watch_env [Go, Go, Stop lib_root, Go] second_attached)"

text \<open>The root of the sample, its second start, and a stop after that.\<close>

theorem hidden_handle_unstoppable_witness:
  "\<not> isWatching lib_root second_stopped \<and> wh_state (rt_handles second_stopped ! 0) \<noteq> Closed"
proof -
  have facts: "run_moves watch_env [Start lib_root, Start lib_root, Go] watch_idle \<noteq> None"
    "perform watch_env Go second_waits \<noteq> None"
    "run_moves watch_env [Go, Go, Stop lib_root, Go] second_attached \<noteq> None"
    "case rt_tasks second_waits of Attach root # us \<Rightarrow> map_of (watcherRegistry second_waits) (root_id root) = Some 0 \<and>
       snd (fst (attachWatcher (env_fs watch_env) True root (second_waits\<lparr>rt_tasks := us\<rparr>))) = None | _ \<Rightarrow> False"
    "\<not> isWatching lib_root second_stopped"
    by code_simp+
  obtain root us where t: "rt_tasks second_waits = [] @ Attach root # us"
    "map_of (watcherRegistry second_waits) (root_id root) = Some 0"
    "snd (fst (attachWatcher (env_fs watch_env) True root (second_waits\<lparr>rt_tasks := us\<rparr>))) = None"
    using facts(4) by (auto split: list.splits task.splits)
  then obtain n rt1 where a: "attachWatcher (env_fs watch_env) True root (second_waits\<lparr>rt_tasks := [] @ us\<rparr>) = ((n, None), rt1)"
    by (metis append_Nil prod.collapse)
  have "run_moves watch_env [Start lib_root, Start lib_root, Go] watch_idle = Some second_waits"
    using facts(1) by (auto simp: second_waits_def)
  then have "watcher_step\<^sup>*\<^sup>* (idle_runtime sample_registry NoOutbox) second_waits"
    unfolding watch_idle_def[symmetric] by (rule run_moves_steps)
  moreover have "run_moves watch_env [Go, Go, Stop lib_root, Go] second_attached = Some second_stopped"
    using facts(3) by (auto simp: second_stopped_def)
  then have "watcher_step\<^sup>*\<^sup>* second_attached second_stopped" by (rule run_moves_steps)
  moreover have "second_attached = rt1\<lparr>rt_tasks := [] @ us @ (case n of None \<Rightarrow> [] | Some t \<Rightarrow> [t])\<rparr>"
    using t(1) a by (simp add: second_attached_def)
  ultimately have "wh_state (rt_handles second_stopped ! 0) \<noteq> Closed"
    using hidden_handle_unstoppable[OF _ t(1,2) a] by metis
  with facts(5) show ?thesis by blast
qed

definition disconnect_during_start :: "runtime option" where
  "disconnect_during_start =
     Option.bind (perform watch_env (Start lib_root) watch_idle) (\<lambda>rt.
     run_moves watch_env [Go, Go] (rt\<lparr>rt_roots := snd (disconnectRoot watch_env lib_root (rt_roots rt))\<rparr>))"

text \<open>
  A start that waits while its root is disconnected connects it again. The check of the
  start passes, then the root is disconnected, which closes its permission gate; the
  start goes on, and its last update sets the status back to \<open>CONNECTED\<close>: the gate is open
  for reading again without a new approval.
\<close>

theorem start_reopens_disconnected:
  "\<exists>rt. watcher_step\<^sup>*\<^sup>* watch_idle rt \<and> disconnect_during_start = Some rt \<and>
     isl (requireRootPermission lib_root ReadPermission (snd (disconnectRoot watch_env lib_root sample_registry))) \<and>
     \<not> isl (requireRootPermission lib_root ReadPermission (rt_roots rt)) \<and> isWatching lib_root rt"
proof -
  let ?P = "\<lambda>rt. \<not> isl (requireRootPermission lib_root ReadPermission (rt_roots rt)) \<and> isWatching lib_root rt"
  have "case disconnect_during_start of None \<Rightarrow> False | Some rt \<Rightarrow> ?P rt" by code_simp
  then obtain rt where rt: "disconnect_during_start = Some rt" "?P rt"
    by (rule case_SomeE)
  then obtain rt1 where rt1: "perform watch_env (Start lib_root) watch_idle = Some rt1"
    "run_moves watch_env [Go, Go] (rt1\<lparr>rt_roots := snd (disconnectRoot watch_env lib_root (rt_roots rt1))\<rparr>) = Some rt"
    by (cases "perform watch_env (Start lib_root) watch_idle") (auto simp: disconnect_during_start_def)
  have "watcher_step rt1 (rt1\<lparr>rt_roots := snd (disconnectRoot watch_env lib_root (rt_roots rt1))\<rparr>)"
    by (rule watcher_step.registry)
  then have "watcher_step\<^sup>*\<^sup>* watch_idle rt"
    using perform_step[OF rt1(1)] run_moves_steps[OF rt1(2)] by (meson converse_rtranclp_into_rtranclp)
  moreover have "isl (requireRootPermission lib_root ReadPermission (snd (disconnectRoot watch_env lib_root sample_registry)))"
    by code_simp
  ultimately show ?thesis using rt by blast
qed

section \<open>Bursts of changes\<close>

text \<open>
  A burst of changes of one path is one event. Whatever changes of the path a handle
  notes, it ends with one timer for it: the one of the last change, due a full debounce
  time after it; the timers of other paths are untouched.
\<close>

theorem debounce_coalesces:
  assumes "\<forall>(t, ev, fn) \<in> set (burst @ [(now, eventName, fileName)]). fn \<noteq> [] \<and> pathKey fn = key"
    and "h' = fold (\<lambda>(t, ev, fn). noteChange t ev fn) (burst @ [(now, eventName, fileName)]) h"
    and "distinct (map fst (wh_timers h))"
  shows "map_of (wh_timers h') key = Some \<lparr>tm_fileName = fileName, tm_eventName = eventName, tm_due = now + debounceMs\<rparr> \<and>
    distinct (map fst (wh_timers h')) \<and> (\<forall>k. k \<noteq> key \<longrightarrow> map_of (wh_timers h') k = map_of (wh_timers h) k)"
proof -
  let ?note = "\<lambda>(t, ev, fn). noteChange t ev fn"
  have "distinct (map fst (wh_timers (fold ?note cs h))) \<and>
      (\<forall>k. k \<noteq> key \<longrightarrow> map_of (wh_timers (fold ?note cs h)) k = map_of (wh_timers h) k)"
    if "\<forall>(t, ev, fn) \<in> set cs. fn \<noteq> [] \<and> pathKey fn = key" "distinct (map fst (wh_timers h))" for cs h
    using that
    by (induction cs arbitrary: h) (auto simp: noteChange_def distinct_map_set)
  note rest = this[of "burst @ [(now, eventName, fileName)]" h]
  have "map_of (wh_timers h') key = Some \<lparr>tm_fileName = fileName, tm_eventName = eventName, tm_due = now + debounceMs\<rparr>"
    using assms(1,2) by (simp add: noteChange_def)
  with rest assms show ?thesis by blast
qed

theorem debounce_coalesces_witness:
  "map_of (wh_timers (fold (\<lambda>(t, ev, fn). noteChange t ev fn)
      ([(0, ''change'', ''a''), (100, ''rename'', ''a'')] @ [(300, ''change'', ''a'')])
      \<lparr>wh_rootId = ''r'', wh_rootPath = ''/r'', wh_timers = [], wh_state = Open\<rparr>)) (pathKey ''a'') =
    Some \<lparr>tm_fileName = ''a'', tm_eventName = ''change'', tm_due = 900\<rparr>"
  using debounce_coalesces[OF _ refl, of "[(0, ''change'', ''a''), (100, ''rename'', ''a'')]" 300 "''change''" "''a''"
      "pathKey ''a''" "\<lparr>wh_rootId = ''r'', wh_rootPath = ''/r'', wh_timers = [], wh_state = Open\<rparr>"]
  by (simp add: debounceMs_def)

section \<open>Restart\<close>

text \<open>A folder that can be watched.\<close>

definition folder_watchable :: "fs \<Rightarrow> string \<Rightarrow> bool" where
  "folder_watchable f p \<longleftrightarrow> kind_at f p = Some Directory \<and> \<not> isl (fs_readable p f)"

lemma attach_watchable:
  assumes "folder_watchable f (actualPath root)"
  shows "attachWatcher f True root rt = ((Some (MarkWatching (root_id root)), None),
    rt\<lparr>rt_handles := rt_handles rt @ [new_handle root],
       watcherRegistry := map_set (watcherRegistry rt) (root_id root) (length (rt_handles rt))\<rparr>)"
  using assms
  by (auto simp: attachWatcher_def folder_watchable_def kind_at_def fs_lstat_def stats_of_def is_directory_def
      is_symlink_def split: option.splits)

lemma getRoot_id: "getRoot r file = Inr root \<Longrightarrow> root_id root = r"
proof -
  assume "getRoot r file = Inr root"
  then obtain reg :: registry where "find (has_id r) (reg_roots reg) = Some root"
    by (auto simp: getRoot_def split: option.splits)
  from find_Some_in[OF this] show ?thesis by (simp add: has_id_def)
qed

lemma start_succeeds:
  assumes get: "getRoot rid (rt_roots rt) = Inr root" and wants: "wants_watcher root rt"
    and ok: "folder_watchable (env_fs env) (actualPath root)" "env_write env = Saved"
  shows "\<exists>summary rt1. startBridgeWatcher env True rid rt = (Inr summary, rt1) \<and> sum_id summary = rid \<and>
    isWatching rid rt1 \<and> (\<forall>other. other \<noteq> rid \<longrightarrow>
      getRoot other (rt_roots rt1) = getRoot other (rt_roots rt) \<and> isWatching other rt1 = isWatching other rt)"
proof -
  have id: "root_id root = rid" by (rule getRoot_id[OF get])
  have check: "startCheck rid rt = Inr (Attach root)"
    using get wants id
    by (simp add: startCheck_def requireWatchPermission_def requireRootPermission_def wants_watcher_def isWatching_def)
  have "updated_root (env_now env) (watching_update (env_now env)) root \<noteq> Inl e" for e
    by (simp add: updated_root_def watching_update_def no_update_def apply_permission_update_def)
  then obtain root' where root': "updated_root (env_now env) (watching_update (env_now env)) root = Inr root'"
    by (cases "updated_root (env_now env) (watching_update (env_now env)) root") auto
  obtain file' where upd: "updateRootUnlocked env rid (watching_update (env_now env)) (rt_roots rt) =
      (Inr (summarizeBridgeRoot root'), file')"
    using update_writable[OF get root' ok(2)] by blast
  have "\<exists>root''. getRoot rid file' = Inr root'' \<and> summarizeBridgeRoot root' = summarizeBridgeRoot root'' \<and>
      root_id root'' = rid \<and> (\<forall>other. other \<noteq> rid \<longrightarrow> getRoot other file' = getRoot other (rt_roots rt))"
    using update_frame[OF upd get] by blast
  then have "sum_id (summarizeBridgeRoot root') = rid" "\<forall>other. other \<noteq> rid \<longrightarrow> getRoot other file' = getRoot other (rt_roots rt)"
    by (auto simp: summarizeBridgeRoot_def)
  with check upd id show ?thesis
    by (simp add: startBridgeWatcher_def attach_watchable[OF ok(1)] finish_def isWatching_def)
qed

text \<open>The records that were connected and watching with both grants.\<close>

definition was_watching :: "bridge_root \<Rightarrow> bool" where
  "was_watching root \<longleftrightarrow> root_status root = CONNECTED \<and> watcherState root = W_WATCHING \<and>
     readPermission root \<and> watchPermission root"

lemma restore_complete:
  assumes "env_write env = Saved"
    and "\<forall>root \<in> set roots. was_watching root \<longrightarrow> folder_watchable (env_fs env) (actualPath root)"
  shows "distinct (map root_id roots) \<Longrightarrow> \<forall>root \<in> set roots. getRoot (root_id root) (rt_roots rt) = Inr root \<Longrightarrow>
    \<forall>root \<in> set roots. \<not> isWatching (root_id root) rt \<Longrightarrow>
    \<exists>restored rt'. restoreWatchers env (\<lambda>_. True) roots rt = (restored, rt') \<and>
      map sum_id restored = map root_id (filter was_watching roots) \<and>
      (\<forall>r. isWatching r rt' \<longleftrightarrow> isWatching r rt \<or> r \<in> root_id ` {root \<in> set roots. was_watching root})"
  using assms(2)
proof (induction roots arbitrary: rt)
  case (Cons root roots)
  show ?case
  proof (cases "was_watching root")
    case True
    then have w: "wants_watcher root rt" using Cons.prems(3) by (simp add: was_watching_def wants_watcher_def)
    obtain summary rt1 where s: "startBridgeWatcher env True (root_id root) rt = (Inr summary, rt1)" "sum_id summary = root_id root"
      "isWatching (root_id root) rt1" "\<forall>other. other \<noteq> root_id root \<longrightarrow>
        getRoot other (rt_roots rt1) = getRoot other (rt_roots rt) \<and> isWatching other rt1 = isWatching other rt"
      using start_succeeds[OF _ w _ assms(1), of "root_id root"] Cons.prems(2,4) True by auto
    have others: "\<forall>x \<in> set roots. root_id x \<noteq> root_id root" using Cons.prems(1) by (metis distinct.simps(2) imageI list.set_map list.simps(9))
    obtain restored rt' where r: "restoreWatchers env (\<lambda>_. True) roots rt1 = (restored, rt')"
      "map sum_id restored = map root_id (filter was_watching roots)"
      "\<forall>r. isWatching r rt' \<longleftrightarrow> isWatching r rt1 \<or> r \<in> root_id ` {root \<in> set roots. was_watching root}"
      using Cons.IH[of rt1] Cons.prems s(4) others by auto
    have "isWatching r rt' \<longleftrightarrow> isWatching r rt \<or> r \<in> root_id ` {x \<in> set (root # roots). was_watching x}" for r
      using r(3) s(3,4) True by (cases "r = root_id root") auto
    with r(1,2) s(1,2) w True show ?thesis by simp
  next
    case False
    then have "\<not> wants_watcher root rt" by (auto simp: was_watching_def wants_watcher_def)
    moreover have "{x \<in> set (root # roots). was_watching x} = {x \<in> set roots. was_watching x}" using False by auto
    ultimately show ?thesis using Cons.IH[of rt] Cons.prems False by simp
  qed
qed simp

text \<open>
  A restart restores the watchers. With the registry readable and writable and every
  folder that was being watched available, restoring a fresh runtime answers with exactly
  the roots that were connected and watching with both grants, in the registry's order,
  and exactly those are watched afterwards.
\<close>

theorem restart_restores_watchers:
  assumes "listRootRecords roots_file = Inr roots" "distinct (map root_id roots)" "env_write env = Saved"
    and "\<forall>root \<in> set roots. was_watching root \<longrightarrow> folder_watchable (env_fs env) (actualPath root)"
  shows "\<exists>restored rt'. restorePersistedBridgeWatchers env (\<lambda>_. True) (idle_runtime roots_file box) = (Inr restored, rt') \<and>
    map sum_id restored = map root_id (filter was_watching roots) \<and>
    (\<forall>r. isWatching r rt' \<longleftrightarrow> r \<in> root_id ` {root \<in> set roots. was_watching root})"
proof -
  let ?rt = "idle_runtime roots_file box"
  obtain reg where reg: "readRegistry roots_file = Inr reg" "reg_roots reg = roots"
    using assms(1) by (cases "readRegistry roots_file") (auto simp: listRootRecords_def)
  have "find (has_id (root_id root)) rs = Some root" if "root \<in> set rs" "distinct (map root_id rs)" for root rs
    using that by (induction rs) (auto simp: has_id_def image_iff)
  then have "\<forall>root \<in> set roots. getRoot (root_id root) (rt_roots ?rt) = Inr root"
    using reg assms(2) by (simp add: getRoot_def idle_runtime_def)
  moreover have off: "\<not> isWatching r ?rt" for r by (simp add: isWatching_def idle_runtime_def)
  ultimately obtain restored rt' where "restoreWatchers env (\<lambda>_. True) roots ?rt = (restored, rt')"
    "map sum_id restored = map root_id (filter was_watching roots)"
    "\<forall>r. isWatching r rt' \<longleftrightarrow> isWatching r ?rt \<or> r \<in> root_id ` {root \<in> set roots. was_watching root}"
    using restore_complete[OF assms(3,4,2), of ?rt] by blast
  moreover have "listRootRecords (rt_roots ?rt) = Inr roots" using assms(1) by (simp add: idle_runtime_def)
  ultimately show ?thesis using off by (simp add: restorePersistedBridgeWatchers_def)
qed

definition watched_file :: registry_file where
  "watched_file = snd (updateRootUnlocked watch_env lib_root (watching_update 5) sample_registry)"

definition watched_roots :: "bridge_root list" where
  "watched_roots = (case listRootRecords watched_file of Inr rs \<Rightarrow> rs | Inl _ \<Rightarrow> [])"

theorem restart_restores_watchers_witness:
  "\<exists>restored rt'. restorePersistedBridgeWatchers watch_env (\<lambda>_. True) (idle_runtime watched_file NoOutbox) = (Inr restored, rt') \<and>
    map sum_id restored = [lib_root] \<and> isWatching lib_root rt'"
proof -
  have l: "listRootRecords watched_file = Inr watched_roots"
    by (cases "listRootRecords watched_file") (code_simp, simp add: watched_roots_def)
  have d: "distinct (map root_id watched_roots)" by code_simp
  have w: "env_write watch_env = Saved" by code_simp
  have f: "\<forall>root \<in> set watched_roots. was_watching root \<longrightarrow> folder_watchable (env_fs watch_env) (actualPath root)"
    by code_simp
  have m: "map root_id (filter was_watching watched_roots) = [lib_root]" by code_simp
  have "root_id ` {root \<in> set watched_roots. was_watching root} = set (map root_id (filter was_watching watched_roots))" by auto
  then show ?thesis using restart_restores_watchers[OF l d w f, of NoOutbox] m by auto
qed

end
