(* ===== verification/Auth.thy ===== *)
theory Auth
  imports BridgeTypes JsPath
begin

text \<open>
  \<open>bridge-app/src/security\<close>: the pairing secret and the authentication of loopback requests.
  The pairing file is absent or unreadable, or the parse of its text; random bytes, the
  clock and the process environment are inputs. \<open>Buffer.from\<close> encodes injectively, so the
  timing-safe comparison of two texts decides their equality.
\<close>

section \<open>Pairing\<close>

datatype pairing_file = NoPairing | PairingText "json option"

definition bridgeDataDir :: "string \<Rightarrow> string option \<Rightarrow> string \<Rightarrow> string" where
  "bridgeDataDir cwd dataDir home =
     (let configured = trim (coalesce dataDir []) in
      posix_resolve cwd [if configured \<noteq> [] then configured else posix_join [home, ''.nsn-bridge'']])"

definition pairingSecretPath :: "string \<Rightarrow> string option \<Rightarrow> string \<Rightarrow> string" where
  "pairingSecretPath cwd dataDir home = posix_join [bridgeDataDir cwd dataDir home, ''pairing-secret.json'']"

definition hex_digits :: string where "hex_digits = ''0123456789abcdef''"

text \<open>\<open>/^[a-f0-9]{64}$/\<close>\<close>

definition valid_secret_text :: "string \<Rightarrow> bool" where
  "valid_secret_text s \<longleftrightarrow> length s = 64 \<and> list_all (\<lambda>c. c \<in> set hex_digits) s"

definition validPairingSecret :: "json \<Rightarrow> bool" where
  "validPairingSecret value = (case value of JStr s \<Rightarrow> valid_secret_text s | _ \<Rightarrow> False)"

text \<open>\<open>randomBytes(32).toString("hex")\<close> of given bytes.\<close>

definition hex_byte :: "nat \<Rightarrow> string" where
  "hex_byte b = [hex_digits ! (b div 16 mod 16), hex_digits ! (b mod 16)]"

definition hex_of :: "nat list \<Rightarrow> string" where
  "hex_of bytes = concat (map hex_byte bytes)"

text \<open>The secret a readable pairing file holds.\<close>

definition stored_secret :: "pairing_file \<Rightarrow> string option" where
  "stored_secret file = (case file of
     PairingText (Some (JObj obj)) \<Rightarrow>
       (case map_of obj ''secret'' of
          Some v \<Rightarrow> if validPairingSecret v then (case v of JStr s \<Rightarrow> Some s | _ \<Rightarrow> None) else None
        | None \<Rightarrow> None)
   | _ \<Rightarrow> None)"

definition pairing_json :: "string \<Rightarrow> string \<Rightarrow> json" where
  "pairing_json createdAt secret = JObj [(''createdAt'', JStr createdAt), (''secret'', JStr secret)]"

text \<open>\<open>ok\<close> says whether the directory and the file can be written.\<close>

definition getOrCreatePairingSecret ::
  "bool \<Rightarrow> string \<Rightarrow> nat list \<Rightarrow> pairing_file \<Rightarrow> (exn, string) result \<times> pairing_file" where
  "getOrCreatePairingSecret ok now bytes file =
     (case stored_secret file of
        Some s \<Rightarrow> (Inr s, file)
      | None \<Rightarrow>
          if \<not> ok then (Inl (SysError EACCES), file)
          else let nextSecret = hex_of bytes in
            (Inr nextSecret, PairingText (Some (pairing_json now nextSecret))))"

definition requirePairingSecret ::
  "bool \<Rightarrow> string \<Rightarrow> nat list \<Rightarrow> pairing_file \<Rightarrow> (exn, string) result \<times> pairing_file" where
  "requirePairingSecret ok now bytes file =
     (case getOrCreatePairingSecret ok now bytes file of
        (Inl e, file') \<Rightarrow> (Inl e, file')
      | (Inr secret, file') \<Rightarrow>
          (if validPairingSecret (JStr secret) then Inr secret else Inl (BridgeAppError PAIRING_UNAVAILABLE 503), file'))"

section \<open>Requests\<close>

record request =
  req_origin :: "string option"
  req_authorization :: "string option"

definition defaultAllowedOrigins :: "string list" where
  "defaultAllowedOrigins = [''http://localhost:3000'', ''http://127.0.0.1:3000'',
     ''http://localhost:3001'', ''http://127.0.0.1:3001'']"

definition allowedOrigins :: "string option \<Rightarrow> string list" where
  "allowedOrigins configuredText =
     (case map_option (\<lambda>t. nonempty (map trim (split_on (CHR '','') t))) configuredText of
        Some (o1 # os) \<Rightarrow> o1 # os
      | _ \<Rightarrow> defaultAllowedOrigins)"

definition validateOrigin :: "string option \<Rightarrow> request \<Rightarrow> (exn, unit) result" where
  "validateOrigin configuredText request =
     (let origin = coalesce (req_origin request) [] in
      if origin = [] then Inr ()
      else if origin \<notin> set (allowedOrigins configuredText) then Inl (BridgeAppError ORIGIN_NOT_ALLOWED 403)
      else Inr ())"

type_synonym headers = "(string \<times> string) list"

definition applyCors :: "string option \<Rightarrow> request \<Rightarrow> headers \<Rightarrow> headers" where
  "applyCors configuredText request response =
     (let origin = coalesce (req_origin request) [];
          granted = (if origin \<noteq> [] \<and> origin \<in> set (allowedOrigins configuredText)
            then map_set (map_set response ''Access-Control-Allow-Origin'' origin) ''Vary'' ''Origin''
            else response) in
      map_set (map_set granted ''Access-Control-Allow-Methods'' ''GET,POST,PATCH,OPTIONS'')
        ''Access-Control-Allow-Headers'' ''Authorization,Content-Type,X-NSN-Bridge-Client'')"

definition safeEqual :: "string \<Rightarrow> string \<Rightarrow> bool" where
  "safeEqual l r \<longleftrightarrow> (if length l \<noteq> length r then False else list_all (\<lambda>(a, b). a = b) (zip l r))"

definition bearer :: string where "bearer = ''Bearer ''"

definition request_token :: "request \<Rightarrow> string" where
  "request_token request =
     (let authorization = coalesce (req_authorization request) [] in
      if starts_with authorization bearer then trim (drop (length bearer) authorization) else [])"

definition authenticateRequest ::
  "string option \<Rightarrow> bool \<Rightarrow> string \<Rightarrow> nat list \<Rightarrow> request \<Rightarrow> pairing_file \<Rightarrow> (exn, unit) result \<times> pairing_file" where
  "authenticateRequest configuredText ok now bytes request file =
     (case validateOrigin configuredText request of
        Inl e \<Rightarrow> (Inl e, file)
      | Inr _ \<Rightarrow>
          (let token = request_token request in
           case requirePairingSecret ok now bytes file of
             (Inl e, file') \<Rightarrow> (Inl e, file')
           | (Inr expectedSecret, file') \<Rightarrow>
               (if token = [] \<or> \<not> safeEqual token expectedSecret then Inl (BridgeAppError UNAUTHORIZED 401) else Inr (),
                file')))"

section \<open>Facts\<close>

lemma safeEqual_iff [simp]: "safeEqual l r \<longleftrightarrow> l = r"
  by (auto simp: safeEqual_def list_eq_iff_zip_eq list_all_iff case_prod_beta)

lemma length_hex_of: "length (hex_of bytes) = 2 * length bytes"
  by (induction bytes) (simp_all add: hex_of_def hex_byte_def)

lemma hex_of_digits: "c \<in> set (hex_of bytes) \<Longrightarrow> c \<in> set hex_digits"
proof -
  have d: "hex_digits ! (n mod 16) \<in> set hex_digits" for n
    by (rule nth_mem) (simp add: hex_digits_def)
  show "c \<in> set (hex_of bytes) \<Longrightarrow> c \<in> set hex_digits"
    using d by (auto simp: hex_of_def hex_byte_def)
qed

lemma fresh_secret_valid: "length bytes = 32 \<Longrightarrow> valid_secret_text (hex_of bytes)"
  using hex_of_digits by (auto simp: valid_secret_text_def length_hex_of list_all_iff)

lemma stored_secret_valid: "stored_secret file = Some s \<Longrightarrow> valid_secret_text s"
  by (auto simp: stored_secret_def validPairingSecret_def split: pairing_file.splits option.splits json.splits if_splits)

lemma stored_pairing_json: "valid_secret_text s \<Longrightarrow> stored_secret (PairingText (Some (pairing_json now s))) = Some s"
  by (simp add: stored_secret_def pairing_json_def validPairingSecret_def)

lemma require_secret:
  assumes "length bytes = 32" "requirePairingSecret ok now bytes file = (r, file')"
  shows "(case stored_secret file of
      Some s \<Rightarrow> r = Inr s \<and> file' = file
    | None \<Rightarrow> if ok then r = Inr (hex_of bytes) \<and> stored_secret file' = Some (hex_of bytes)
        else r = Inl (SysError EACCES) \<and> file' = file)"
  using assms(2) fresh_secret_valid[OF assms(1)] stored_secret_valid[of "file"]
  by (auto simp: requirePairingSecret_def getOrCreatePairingSecret_def validPairingSecret_def Let_def
      stored_pairing_json split: option.splits if_splits)

text \<open>
  A request passes exactly when its page is allowed and it carries the secret. With
  the pairing file holding a valid secret, authentication succeeds if and only if the
  request has no origin or a listed one, and its authorization is the bearer scheme
  followed by that secret, with surrounding white space ignored; every other request is
  refused with the error of its first failing check, and the file is not written.
\<close>

theorem authenticateRequest_iff:
  assumes "stored_secret file = Some secret"
  shows "authenticateRequest conf ok now bytes request file =
    (if req_origin request \<notin> {None, Some []} \<and> the (req_origin request) \<notin> set (allowedOrigins conf)
     then Inl (BridgeAppError ORIGIN_NOT_ALLOWED 403)
     else if \<exists>text. req_authorization request = Some (''Bearer '' @ text) \<and> trim text = secret
     then Inr () else Inl (BridgeAppError UNAUTHORIZED 401), file)"
proof -
  have valid: "valid_secret_text secret" by (rule stored_secret_valid[OF assms])
  then have ne: "secret \<noteq> []" by (auto simp: valid_secret_text_def)
  have tok: "request_token request = secret \<longleftrightarrow>
      (\<exists>text. req_authorization request = Some (''Bearer '' @ text) \<and> trim text = secret)"
  proof (cases "req_authorization request")
    case (Some a)
    have "starts_with a bearer \<longleftrightarrow> (\<exists>t. a = ''Bearer '' @ t)" by (simp add: starts_with_iff bearer_def)
    with Some ne show ?thesis by (auto simp: request_token_def bearer_def)
  qed (use ne in \<open>auto simp: request_token_def starts_with_def bearer_def\<close>)
  have "requirePairingSecret ok now bytes file = (Inr secret, file)"
    using assms valid by (simp add: requirePairingSecret_def getOrCreatePairingSecret_def validPairingSecret_def)
  with tok ne show ?thesis
    by (cases "req_origin request") (auto simp: authenticateRequest_def validateOrigin_def Let_def)
qed

definition sample_secret :: string where "sample_secret = hex_of (replicate 32 171)"

definition sample_pairing :: pairing_file where
  "sample_pairing = PairingText (Some (pairing_json ''2025'' sample_secret))"

lemma sample_pairing_secret: "stored_secret sample_pairing = Some sample_secret"
  unfolding sample_pairing_def sample_secret_def
  by (rule stored_pairing_json, rule fresh_secret_valid) simp

theorem authenticateRequest_iff_witness:
  "fst (authenticateRequest None True ''now'' [] \<lparr>req_origin = Some ''http://localhost:3000'',
     req_authorization = Some (''Bearer '' @ sample_secret)\<rparr> sample_pairing) = Inr () \<and>
   fst (authenticateRequest None True ''now'' [] \<lparr>req_origin = Some ''http://evil'',
     req_authorization = Some (''Bearer '' @ sample_secret)\<rparr> sample_pairing) = Inl (BridgeAppError ORIGIN_NOT_ALLOWED 403)"
proof -
  have "trim sample_secret = sample_secret" by code_simp
  moreover have "''http://localhost:3000'' \<in> set (allowedOrigins None)" "''http://evil'' \<notin> set (allowedOrigins None)"
    by code_simp+
  ultimately show ?thesis
    using authenticateRequest_iff[OF sample_pairing_secret] by auto
qed

text \<open>
  The secret is created once. Over any number of requests that can write the pairing
  file, with any random bytes, the first secret handed out is the one every later request
  is given, whatever the file held before.
\<close>

theorem pairing_secret_stable:
  assumes "length bytes = 32" "requirePairingSecret True now bytes file = (r, file')"
  shows "\<exists>secret. r = Inr secret \<and> valid_secret_text secret \<and>
    (\<forall>ok now' bytes'. requirePairingSecret ok now' bytes' file' = (Inr secret, file'))"
proof -
  obtain secret where s: "r = Inr secret" "stored_secret file' = Some secret"
    using require_secret[OF assms] by (cases "stored_secret file") auto
  then have v: "valid_secret_text secret" by (blast intro: stored_secret_valid)
  with s show ?thesis
    by (simp add: requirePairingSecret_def getOrCreatePairingSecret_def validPairingSecret_def)
qed

theorem pairing_secret_stable_witness:
  "\<exists>secret. fst (requirePairingSecret True ''now'' (replicate 32 7) (PairingText None)) = Inr secret \<and>
     fst (requirePairingSecret False ''later'' [] (snd (requirePairingSecret True ''now'' (replicate 32 7) (PairingText None)))) = Inr secret"
proof -
  obtain r file' where rf: "requirePairingSecret True ''now'' (replicate 32 7) (PairingText None) = (r, file')" by fastforce
  show ?thesis using pairing_secret_stable[OF _ rf] rf by auto
qed

text \<open>
  No cross-origin grant for other pages. The response allows an origin exactly when the
  request names one on the list, and then it allows that one only.
\<close>

theorem applyCors_grants:
  "map_of (applyCors conf request []) ''Access-Control-Allow-Origin'' =
     (case req_origin request of
        Some origin \<Rightarrow> if origin \<noteq> [] \<and> origin \<in> set (allowedOrigins conf) then Some origin else None
      | None \<Rightarrow> None)"
  by (simp add: applyCors_def Let_def split: option.splits)

end
