(* ===== verification/Protocol.thy ===== *)
theory Protocol
  imports SafeMove Auth
begin

text \<open>
  \<open>packages/bridge-protocol/src\<close>: the contract between the web application and a paired
  Bridge: canonical JSON and signed command envelopes (\<open>commands.ts\<close>), signed device
  requests (\<open>device-auth.ts\<close>), pairing codes (\<open>pairing.ts\<close>) and release manifests
  (\<open>release.ts\<close>). Hash, message authentication code and signature scheme come from Node's
  crypto and are parameters (\<open>sha\<close>, \<open>hmac\<close>, \<open>sign\<close>, \<open>verify\<close>), as is \<open>localeCompare\<close>
  (\<open>lc\<close>). A date is its time; numbers in JSON are whole.
\<close>

section \<open>Vocabulary\<close>

datatype device_status = UNPAIRED | PAIRING | PAIRED | ONLINE | OFFLINE | UPDATE_REQUIRED | DEV_REVOKED

datatype pairing_code_status = CODE_ACTIVE | CODE_CONSUMED | CODE_EXPIRED | CODE_REVOKED

datatype command_type =
    SELECT_FOLDERS | REGISTER_ROOT | SCAN_LIBRARY | START_WATCHING | PAUSE_WATCHING | RESUME_WATCHING
  | STOP_WATCHING | READ_FILE_TEMPORARILY | PREVIEW_EXECUTION | EXECUTE_PLAN | PREVIEW_UNDO | EXECUTE_UNDO
  | RECONCILE_LIBRARY | UPDATE_ROOT_PERMISSIONS | REVOKE_ROOT_ACCESS

datatype command_status =
    C_PENDING | C_ACKNOWLEDGED | C_RUNNING | C_COMPLETED | C_FAILED | C_EXPIRED | C_CANCELLED | C_REJECTED

fun command_type_name :: "command_type \<Rightarrow> string" where
  "command_type_name SELECT_FOLDERS = ''SELECT_FOLDERS''"
| "command_type_name REGISTER_ROOT = ''REGISTER_ROOT''"
| "command_type_name SCAN_LIBRARY = ''SCAN_LIBRARY''"
| "command_type_name START_WATCHING = ''START_WATCHING''"
| "command_type_name PAUSE_WATCHING = ''PAUSE_WATCHING''"
| "command_type_name RESUME_WATCHING = ''RESUME_WATCHING''"
| "command_type_name STOP_WATCHING = ''STOP_WATCHING''"
| "command_type_name READ_FILE_TEMPORARILY = ''READ_FILE_TEMPORARILY''"
| "command_type_name PREVIEW_EXECUTION = ''PREVIEW_EXECUTION''"
| "command_type_name EXECUTE_PLAN = ''EXECUTE_PLAN''"
| "command_type_name PREVIEW_UNDO = ''PREVIEW_UNDO''"
| "command_type_name EXECUTE_UNDO = ''EXECUTE_UNDO''"
| "command_type_name RECONCILE_LIBRARY = ''RECONCILE_LIBRARY''"
| "command_type_name UPDATE_ROOT_PERMISSIONS = ''UPDATE_ROOT_PERMISSIONS''"
| "command_type_name REVOKE_ROOT_ACCESS = ''REVOKE_ROOT_ACCESS''"

text \<open>The codes of a \<open>BridgeProtocolValidationResult\<close>; \<open>ok\<close> holds for the last three.\<close>

datatype validation_code =
    DEVICE_REVOKED | WRONG_DEVICE | COMMAND_EXPIRED | PAYLOAD_CHANGED | COMMAND_SIGNATURE_INVALID | COMMAND_REPLAYED
  | WRONG_USER | PAIRING_CODE_USED | PAIRING_CODE_EXPIRED | PAIRING_CODE_MISMATCH | PUBLIC_KEY_REQUIRED
  | APP_VERSION_REQUIRED | INVALID_RELEASE_VERSION | INVALID_RELEASE_DATE | INVALID_RELEASE_ASSET
  | COMMAND_ALLOWED | PAIRING_ALLOWED | RELEASE_MANIFEST_VALID

definition validation_ok :: "validation_code \<Rightarrow> bool" where
  "validation_ok c \<longleftrightarrow> c \<in> {COMMAND_ALLOWED, PAIRING_ALLOWED, RELEASE_MANIFEST_VALID}"

section \<open>Canonical JSON\<close>

text \<open>\<open>JSON.stringify\<close> of a string.\<close>

definition quote_char :: "char \<Rightarrow> string" where
  "quote_char c =
     (if c = CHR 0x22 then [CHR 0x5C, CHR 0x22]
      else if c = CHR 0x5C then [CHR 0x5C, CHR 0x5C]
      else if c = CHR 0x08 then [CHR 0x5C, CHR ''b'']
      else if c = CHR 0x09 then [CHR 0x5C, CHR ''t'']
      else if c = CHR 0x0A then [CHR 0x5C, CHR ''n'']
      else if c = CHR 0x0C then [CHR 0x5C, CHR ''f'']
      else if c = CHR 0x0D then [CHR 0x5C, CHR ''r'']
      else if (of_char c :: nat) < 32 then [CHR 0x5C, CHR ''u'', CHR ''0'', CHR ''0''] @ hex_byte (of_char c)
      else [c])"

definition json_quote :: "string \<Rightarrow> string" where
  "json_quote s = CHR 0x22 # concat (map quote_char s) @ [CHR 0x22]"

lemma size_field: "(k, v) \<in> set fs \<Longrightarrow> size v < Suc (size_list (size_prod f size) fs)"
  by (induction fs) auto

function stableStringify :: "(string \<Rightarrow> string \<Rightarrow> int) \<Rightarrow> json \<Rightarrow> string" where
  "stableStringify lc JNull = ''null''"
| "stableStringify lc (JBool b) = (if b then ''true'' else ''false'')"
| "stableStringify lc (JNum n) = dec_int n"
| "stableStringify lc (JStr s) = json_quote s"
| "stableStringify lc (JArr vs) = ''['' @ join_with '','' (map (\<lambda>item. stableStringify lc item) vs) @ '']''"
| "stableStringify lc (JObj fs) =
     ''{'' @ join_with '','' (map (\<lambda>(key, nestedValue). json_quote key @ '':'' @ stableStringify lc nestedValue)
       (sort_cmp (\<lambda>a b. lc (fst a) (fst b)) fs)) @ ''}''"
  by pat_completeness auto

termination
proof (relation "measure (\<lambda>(lc, v). size v)", goal_cases)
  case (3 lc fs a k v)
  then show ?case using size_field[of k v fs] by auto
qed (simp_all add: size_list_estimation' less_Suc_eq_le)

definition hashBridgeCommandPayload :: "(string \<Rightarrow> string) \<Rightarrow> (string \<Rightarrow> string \<Rightarrow> int) \<Rightarrow> json \<Rightarrow> string" where
  "hashBridgeCommandPayload sha lc payload = sha (stableStringify lc payload)"

section \<open>Commands\<close>

definition defaultCommandTtlMs :: int where "defaultCommandTtlMs = 5 * 60 * 1000"

record unsigned_envelope =
  env_authorizationContext :: json
  env_bridgeDeviceId :: string
  env_bridgeRootId :: "string option"
  env_commandId :: string
  env_commandType :: command_type
  env_connectedLibraryId :: "string option"
  env_expiresAt :: string
  env_idempotencyKey :: string
  env_issuedAt :: string
  env_payload :: json
  env_payloadHash :: string

record command_envelope = unsigned_envelope +
  env_signature :: string

text \<open>
  What the functions take from the platform: digests, \<open>localeCompare\<close>, the text of a time
  (\<open>toISOString\<close>) and the time of a text (\<open>new Date(text).getTime()\<close>, \<open>None\<close> for NaN).
\<close>

record crypto =
  cr_sha :: "string \<Rightarrow> string"
  cr_hmac :: "string \<Rightarrow> string \<Rightarrow> string"
  cr_lc :: "string \<Rightarrow> string \<Rightarrow> int"
  cr_iso :: "int \<Rightarrow> string"
  cr_time :: "string \<Rightarrow> int option"

definition json_or_null :: "string option \<Rightarrow> json" where
  "json_or_null x = (case x of None \<Rightarrow> JNull | Some s \<Rightarrow> JStr s)"

definition signingFields :: "'a unsigned_envelope_scheme \<Rightarrow> (string \<times> json) list" where
  "signingFields e =
     [(''authorizationContext'', env_authorizationContext e), (''bridgeDeviceId'', JStr (env_bridgeDeviceId e)),
      (''bridgeRootId'', json_or_null (env_bridgeRootId e)), (''commandId'', JStr (env_commandId e)),
      (''commandType'', JStr (command_type_name (env_commandType e))),
      (''connectedLibraryId'', json_or_null (env_connectedLibraryId e)), (''expiresAt'', JStr (env_expiresAt e)),
      (''idempotencyKey'', JStr (env_idempotencyKey e)), (''issuedAt'', JStr (env_issuedAt e)),
      (''payloadHash'', JStr (env_payloadHash e))]"

definition signingPayload :: "crypto \<Rightarrow> 'a unsigned_envelope_scheme \<Rightarrow> string" where
  "signingPayload cr e = stableStringify (cr_lc cr) (JObj (signingFields e))"

definition signBridgeCommandEnvelope :: "crypto \<Rightarrow> 'a unsigned_envelope_scheme \<Rightarrow> string \<Rightarrow> string" where
  "signBridgeCommandEnvelope cr e secret = cr_hmac cr secret (signingPayload cr e)"

definition verifyBridgeCommandSignature :: "crypto \<Rightarrow> command_envelope \<Rightarrow> string \<Rightarrow> bool" where
  "verifyBridgeCommandSignature cr e secret \<longleftrightarrow>
     env_signature e = signBridgeCommandEnvelope cr (unsigned_envelope.truncate e) secret"

record command_input =
  ci_authorizationContext :: "json option"
  ci_bridgeDeviceId :: string
  ci_bridgeRootId :: "string option"
  ci_commandId :: "string option"
  ci_commandType :: command_type
  ci_connectedLibraryId :: "string option"
  ci_expiresAt :: "int option"
  ci_idempotencyKey :: "string option"
  ci_issuedAt :: "int option"
  ci_payload :: "json option"
  ci_signingSecret :: string

text \<open>\<open>now\<close> is the clock, \<open>uuid1\<close> and \<open>uuid2\<close> the random ids.\<close>

definition createBridgeCommandEnvelope :: "crypto \<Rightarrow> int \<Rightarrow> string \<Rightarrow> string \<Rightarrow> command_input \<Rightarrow> command_envelope" where
  "createBridgeCommandEnvelope cr now uuid1 uuid2 input =
     (let issuedAt = coalesce (ci_issuedAt input) now;
          expiresAt = coalesce (ci_expiresAt input) (issuedAt + defaultCommandTtlMs);
          payload = coalesce (ci_payload input) (JObj []);
          unsigned = \<lparr>env_authorizationContext = coalesce (ci_authorizationContext input) (JObj []),
            env_bridgeDeviceId = ci_bridgeDeviceId input, env_bridgeRootId = ci_bridgeRootId input,
            env_commandId = coalesce (ci_commandId input) uuid1, env_commandType = ci_commandType input,
            env_connectedLibraryId = ci_connectedLibraryId input, env_expiresAt = cr_iso cr expiresAt,
            env_idempotencyKey = coalesce (ci_idempotencyKey input) uuid2, env_issuedAt = cr_iso cr issuedAt,
            env_payload = payload, env_payloadHash = hashBridgeCommandPayload (cr_sha cr) (cr_lc cr) payload\<rparr> in
      unsigned_envelope.extend unsigned
        \<lparr>env_signature = signBridgeCommandEnvelope cr unsigned (ci_signingSecret input)\<rparr>)"

text \<open>A comparison with NaN is false, so an unreadable date never expires.\<close>

definition bridgeCommandIsExpired :: "int option \<Rightarrow> int \<Rightarrow> bool" where
  "bridgeCommandIsExpired expiresAt now = (case expiresAt of None \<Rightarrow> False | Some t \<Rightarrow> t \<le> now)"

definition createBridgeCommandReplayKey :: "'a unsigned_envelope_scheme \<Rightarrow> string" where
  "createBridgeCommandReplayKey e =
     env_bridgeDeviceId e @ '':'' @ env_commandId e @ '':'' @ env_idempotencyKey e"

definition validateBridgeCommandForDevice ::
  "crypto \<Rightarrow> string set \<Rightarrow> device_status \<Rightarrow> command_envelope \<Rightarrow> string \<Rightarrow> int \<Rightarrow> string \<Rightarrow> validation_code" where
  "validateBridgeCommandForDevice cr alreadyProcessed deviceStatus e expectedDeviceId now signingSecret =
     (if deviceStatus = DEV_REVOKED then DEVICE_REVOKED
      else if env_bridgeDeviceId e \<noteq> expectedDeviceId then WRONG_DEVICE
      else if bridgeCommandIsExpired (cr_time cr (env_expiresAt e)) now then COMMAND_EXPIRED
      else if hashBridgeCommandPayload (cr_sha cr) (cr_lc cr) (env_payload e) \<noteq> env_payloadHash e then PAYLOAD_CHANGED
      else if \<not> verifyBridgeCommandSignature cr e signingSecret then COMMAND_SIGNATURE_INVALID
      else if createBridgeCommandReplayKey e \<in> alreadyProcessed then COMMAND_REPLAYED
      else COMMAND_ALLOWED)"

definition commandStatusAllowsAcknowledgement :: "command_status \<Rightarrow> bool" where
  "commandStatusAllowsAcknowledgement status \<longleftrightarrow> status = C_PENDING"

definition commandStatusAllowsCompletion :: "command_status \<Rightarrow> bool" where
  "commandStatusAllowsCompletion status \<longleftrightarrow> status = C_ACKNOWLEDGED \<or> status = C_RUNNING"

section \<open>Device requests\<close>

definition bridgeRequestMaxClockSkewMs :: int where "bridgeRequestMaxClockSkewMs = 5 * 60 * 1000"

definition bridgeRequestHeaderNames :: "string list" where
  "bridgeRequestHeaderNames = [''x-nsn-bridge-device-id'', ''x-nsn-bridge-nonce'', ''x-nsn-bridge-signature'',
     ''x-nsn-bridge-timestamp'']"

record signed_request =
  rq_bodyText :: "string option"
  rq_bridgeDeviceId :: string
  rq_method :: string
  rq_nonce :: string
  rq_pathname :: string
  rq_timestamp :: string

definition hashBridgeRequestBody :: "(string \<Rightarrow> string) \<Rightarrow> string option \<Rightarrow> string" where
  "hashBridgeRequestBody sha bodyText = sha (coalesce bodyText [])"

definition createBridgeRequestNonce :: "nat list \<Rightarrow> string" where
  "createBridgeRequestNonce bytes = hex_of bytes"

definition newline :: string where "newline = [CHR 0x0A]"

definition canonicalBridgeRequest :: "(string \<Rightarrow> string) \<Rightarrow> signed_request \<Rightarrow> string" where
  "canonicalBridgeRequest sha rq = join_with newline
     [rq_bridgeDeviceId rq, to_upper (rq_method rq), rq_pathname rq, rq_timestamp rq, rq_nonce rq,
      hashBridgeRequestBody sha (rq_bodyText rq)]"

definition signBridgeDeviceRequest ::
  "(string \<Rightarrow> string) \<Rightarrow> ('k \<Rightarrow> string \<Rightarrow> string) \<Rightarrow> signed_request \<Rightarrow> 'k \<Rightarrow> string" where
  "signBridgeDeviceRequest sha sign rq privateKey = sign privateKey (canonicalBridgeRequest sha rq)"

text \<open>A \<open>verify\<close> that throws answers \<open>None\<close>.\<close>

definition verifyBridgeDeviceRequestSignature ::
  "(string \<Rightarrow> string) \<Rightarrow> ('p \<Rightarrow> string \<Rightarrow> string \<Rightarrow> bool option) \<Rightarrow> signed_request \<Rightarrow> 'p \<Rightarrow> string \<Rightarrow> bool" where
  "verifyBridgeDeviceRequestSignature sha verify rq publicKey signature =
     coalesce (verify publicKey (canonicalBridgeRequest sha rq) signature) False"

text \<open>An unreadable timestamp has no time.\<close>

definition bridgeRequestTimestampIsFresh :: "int option \<Rightarrow> int \<Rightarrow> int \<Rightarrow> bool" where
  "bridgeRequestTimestampIsFresh timestamp now maxClockSkewMs =
     (case timestamp of None \<Rightarrow> False | Some t \<Rightarrow> \<bar>now - t\<bar> \<le> maxClockSkewMs)"

definition createBridgeDeviceRequestHeaders ::
  "(string \<Rightarrow> string) \<Rightarrow> ('k \<Rightarrow> string \<Rightarrow> string) \<Rightarrow> nat list \<Rightarrow> string \<Rightarrow> string option \<Rightarrow> string option
    \<Rightarrow> signed_request \<Rightarrow> 'k \<Rightarrow> (string \<times> string) list" where
  "createBridgeDeviceRequestHeaders sha sign bytes nowText nonce timestamp rq privateKey =
     (let n = coalesce nonce (createBridgeRequestNonce bytes); t = coalesce timestamp nowText;
          signature = signBridgeDeviceRequest sha sign (rq\<lparr>rq_nonce := n, rq_timestamp := t\<rparr>) privateKey in
      zip bridgeRequestHeaderNames [rq_bridgeDeviceId rq, n, signature, t])"

section \<open>Pairing codes\<close>

definition pairingCodeTtlMs :: int where "pairingCodeTtlMs = 10 * 60 * 1000"

definition pairingAlphabet :: string where "pairingAlphabet = ''ABCDEFGHJKLMNPQRSTUVWXYZ23456789''"

definition pairing_character :: "nat \<Rightarrow> char" where
  "pairing_character b = pairingAlphabet ! (b mod length pairingAlphabet)"

text \<open>The eight random bytes are the argument.\<close>

definition createPlainPairingCode :: "nat list \<Rightarrow> string" where
  "createPlainPairingCode bytes =
     (let raw = map pairing_character bytes in take 4 raw @ ''-'' @ drop 4 raw)"

definition is_alphanumeric :: "char \<Rightarrow> bool" where
  "is_alphanumeric c = (let n = (of_char c :: nat) in
     (97 \<le> n \<and> n \<le> 122) \<or> (65 \<le> n \<and> n \<le> 90) \<or> (48 \<le> n \<and> n \<le> 57))"

definition normalizePairingCode :: "string \<Rightarrow> string" where
  "normalizePairingCode value = to_upper (filter is_alphanumeric value)"

definition pairingCodeSuffix :: "string \<Rightarrow> string" where
  "pairingCodeSuffix value = (let normalized = normalizePairingCode value in drop (length normalized - 4) normalized)"

definition hashPairingCode :: "(string \<Rightarrow> string \<Rightarrow> string) \<Rightarrow> string \<Rightarrow> string \<Rightarrow> string" where
  "hashPairingCode hmac value secret = hmac secret (normalizePairingCode value)"

record pairing_code =
  pc_code :: string
  pc_codeHash :: string
  pc_codeSuffix :: string
  pc_expiresAt :: int

definition createPairingCode :: "(string \<Rightarrow> string \<Rightarrow> string) \<Rightarrow> nat list \<Rightarrow> string \<Rightarrow> int \<Rightarrow> pairing_code" where
  "createPairingCode hmac bytes secret now =
     (let code = createPlainPairingCode bytes in
      \<lparr>pc_code = code, pc_codeHash = hashPairingCode hmac code secret, pc_codeSuffix = pairingCodeSuffix code,
       pc_expiresAt = now + pairingCodeTtlMs\<rparr>)"

definition isPairingCodeExpired :: "int option \<Rightarrow> int \<Rightarrow> bool" where
  "isPairingCodeExpired expiresAt now = (case expiresAt of None \<Rightarrow> False | Some t \<Rightarrow> t \<le> now)"

definition createBridgeDeviceId :: "nat list \<Rightarrow> string" where
  "createBridgeDeviceId bytes = ''bridge_device_'' @ hex_of bytes"

definition stableDeviceFingerprint :: "(string \<Rightarrow> string) \<Rightarrow> string \<Rightarrow> string" where
  "stableDeviceFingerprint sha publicKey = sha publicKey"

definition normalizeBridgePlatform :: "string \<Rightarrow> string" where
  "normalizeBridgePlatform value =
     (if value = ''WINDOWS'' \<or> value = ''MACOS'' \<or> value = ''LINUX'' then value else ''UNKNOWN'')"

record redemption =
  rd_actorUserId :: string
  rd_appVersion :: string
  rd_codeHash :: string
  rd_expectedUserId :: string
  rd_expiresAt :: "int option"
  rd_pairingCode :: string
  rd_pairingSecret :: string
  rd_publicKey :: string
  rd_status :: pairing_code_status

definition validatePairingRedemption :: "(string \<Rightarrow> string \<Rightarrow> string) \<Rightarrow> redemption \<Rightarrow> int \<Rightarrow> validation_code" where
  "validatePairingRedemption hmac input now =
     (if rd_actorUserId input \<noteq> rd_expectedUserId input then WRONG_USER
      else if rd_status input \<noteq> CODE_ACTIVE then PAIRING_CODE_USED
      else if isPairingCodeExpired (rd_expiresAt input) now then PAIRING_CODE_EXPIRED
      else if hashPairingCode hmac (rd_pairingCode input) (rd_pairingSecret input) \<noteq> rd_codeHash input
      then PAIRING_CODE_MISMATCH
      else if \<not> has_substring (rd_publicKey input) ''PUBLIC KEY'' then PUBLIC_KEY_REQUIRED
      else if trim (rd_appVersion input) = [] then APP_VERSION_REQUIRED
      else PAIRING_ALLOWED)"

definition pairingRateLimitAllows :: "nat \<Rightarrow> nat option \<Rightarrow> bool" where
  "pairingRateLimitAllows activeCodeCount limit \<longleftrightarrow> activeCodeCount < coalesce limit 5"

record registration_request =
  rg_appVersion :: string
  rg_architecture :: string
  rg_bridgeDeviceId :: string
  rg_deviceDisplayName :: string
  rg_pairingCode :: string
  rg_platform :: string
  rg_publicKey :: string

definition or_else :: "string \<Rightarrow> string \<Rightarrow> string" where
  "or_else s d = (if s = [] then d else s)"

definition normalizeDeviceRegistration :: "nat list \<Rightarrow> registration_request \<Rightarrow> registration_request" where
  "normalizeDeviceRegistration bytes input =
     \<lparr>rg_appVersion = trim (rg_appVersion input), rg_architecture = or_else (trim (rg_architecture input)) ''unknown'',
      rg_bridgeDeviceId = or_else (trim (rg_bridgeDeviceId input)) (createBridgeDeviceId bytes),
      rg_deviceDisplayName = or_else (trim (rg_deviceDisplayName input)) ''This Mac'',
      rg_pairingCode = trim (rg_pairingCode input), rg_platform = normalizeBridgePlatform (rg_platform input),
      rg_publicKey = trim (rg_publicKey input)\<rparr>"

section \<open>Releases\<close>

datatype asset_architecture = ARM64 | X64 | UNIVERSAL
datatype asset_kind = DMG | JSON_ASSET | CHECKSUMS

record release_asset =
  as_architecture :: asset_architecture
  as_available :: bool
  as_fileName :: string
  as_kind :: asset_kind
  as_sha256 :: string
  as_sizeBytes :: "nat option"
  as_url :: "string option"

text \<open>\<open>releaseDate\<close> is the result of \<open>Date.parse\<close>, \<open>None\<close> for NaN.\<close>

record release_manifest =
  mf_assets :: "release_asset list"
  mf_releaseDate :: "int option"
  mf_version :: string

record release_version =
  rv_major :: nat
  rv_minor :: nat
  rv_patch :: nat
  rv_version :: string

definition digits :: "string \<Rightarrow> bool" where
  "digits s \<longleftrightarrow> s \<noteq> [] \<and> list_all is_digit s"

definition strip_v :: "string \<Rightarrow> string" where
  "strip_v s = (case s of c # r \<Rightarrow> if c = CHR ''v'' then r else s | [] \<Rightarrow> [])"

text \<open>\<open>/^v?(\\d+)\\.(\\d+)\\.(\\d+)$/\<close>; a number is exact, as below 2 to the 53rd.\<close>

definition parseBridgeReleaseVersion :: "string \<Rightarrow> release_version option" where
  "parseBridgeReleaseVersion version =
     (case split_on (CHR ''.'') (strip_v (trim version)) of
        [a, b, c] \<Rightarrow>
          if digits a \<and> digits b \<and> digits c
          then Some \<lparr>rv_major = dec_val a, rv_minor = dec_val b, rv_patch = dec_val c,
            rv_version = a @ ''.'' @ b @ ''.'' @ c\<rparr>
          else None
      | _ \<Rightarrow> None)"

definition compareBridgeReleaseVersions :: "string \<Rightarrow> string \<Rightarrow> int option" where
  "compareBridgeReleaseVersions l r =
     (case (parseBridgeReleaseVersion l, parseBridgeReleaseVersion r) of
        (Some p, Some q) \<Rightarrow>
          Some (if rv_major p \<noteq> rv_major q then int (rv_major p) - int (rv_major q)
            else if rv_minor p \<noteq> rv_minor q then int (rv_minor p) - int (rv_minor q)
            else int (rv_patch p) - int (rv_patch q))
      | _ \<Rightarrow> None)"

definition bridgeReleaseVersionIsNewer :: "string \<Rightarrow> string \<Rightarrow> bool" where
  "bridgeReleaseVersionIsNewer candidate current =
     (case compareBridgeReleaseVersions candidate current of None \<Rightarrow> False | Some n \<Rightarrow> n > 0)"

text \<open>\<open>/^[a-f0-9]{64}$/i\<close>\<close>

definition validSha256 :: "string \<Rightarrow> bool" where
  "validSha256 value \<longleftrightarrow> length value = 64 \<and> list_all (\<lambda>c. c \<in> set (hex_digits @ ''ABCDEF'')) value"

definition bridgeReleaseFileNameIsSafe :: "string \<Rightarrow> bool" where
  "bridgeReleaseFileNameIsSafe fileName =
     (let trimmed = trim fileName in
      trimmed \<noteq> [] \<and> trimmed = fileName \<and> \<not> has_substring trimmed ''/'' \<and> \<not> has_substring trimmed [CHR 0x5C] \<and>
      \<not> has_substring trimmed ''..'' \<and> \<not> starts_with trimmed ''.'')"

text \<open>\<open>url_protocol\<close> is \<open>new URL(value).protocol\<close>, \<open>None\<close> when the constructor throws.\<close>

definition bridgeReleaseUrlIsSafe :: "(string \<Rightarrow> string option) \<Rightarrow> string \<Rightarrow> bool" where
  "bridgeReleaseUrlIsSafe url_protocol value \<longleftrightarrow> url_protocol value = Some ''https:''"

definition url_given :: "string option \<Rightarrow> bool" where
  "url_given url \<longleftrightarrow> coalesce url [] \<noteq> []"

text \<open>Whether an asset has an error; the texts of the messages are left out.\<close>

definition validateReleaseAsset :: "(string \<Rightarrow> string option) \<Rightarrow> release_asset \<Rightarrow> bool" where
  "validateReleaseAsset url_protocol a =
     (if \<not> bridgeReleaseFileNameIsSafe (as_fileName a) then False
      else if as_available a then
        url_given (as_url a) \<and> bridgeReleaseUrlIsSafe url_protocol (the (as_url a)) \<and> validSha256 (as_sha256 a)
      else True)"

definition validateBridgeReleaseManifest :: "(string \<Rightarrow> string option) \<Rightarrow> release_manifest \<Rightarrow> validation_code" where
  "validateBridgeReleaseManifest url_protocol m =
     (if parseBridgeReleaseVersion (mf_version m) = None then INVALID_RELEASE_VERSION
      else if mf_releaseDate m = None then INVALID_RELEASE_DATE
      else if \<not> list_all (validateReleaseAsset url_protocol) (mf_assets m) then INVALID_RELEASE_ASSET
      else RELEASE_MANIFEST_VALID)"

definition selectBridgeReleaseAsset ::
  "(string \<Rightarrow> string option) \<Rightarrow> release_manifest \<Rightarrow> asset_architecture \<Rightarrow> release_asset option" where
  "selectBridgeReleaseAsset url_protocol m architecture =
     find (\<lambda>a. as_kind a = DMG \<and> as_architecture a = architecture \<and> as_available a \<and> url_given (as_url a) \<and>
       validSha256 (as_sha256 a) \<and> bridgeReleaseFileNameIsSafe (as_fileName a) \<and>
       bridgeReleaseUrlIsSafe url_protocol (coalesce (as_url a) [])) (mf_assets m)"

definition suggestedMacArchitecture :: "string \<Rightarrow> asset_architecture option" where
  "suggestedMacArchitecture userAgent =
     (let normalized = to_lower userAgent in
      if \<not> has_substring normalized ''mac'' then None
      else if has_substring normalized ''arm'' \<or> has_substring normalized ''apple'' then Some ARM64
      else Some X64)"

end
