(* ===== verification/CanonicalJson.thy ===== *)
theory CanonicalJson
  imports Protocol
begin

text \<open>
  \<open>stableStringify\<close> of \<open>packages/bridge-protocol/src/commands.ts\<close> tells JSON values apart: its text can
  be read back up to the order of the fields of the objects (\<open>stringify_same\<close>), and when the
  comparison of keys is a collation, that order does not matter (\<open>same_canon\<close>).
\<close>

section \<open>Reading a quoted string back\<close>

definition hex_val :: "char \<Rightarrow> nat" where
  "hex_val c = length (takeWhile (\<lambda>d. d \<noteq> c) hex_digits)"

lemma hex_val_digit: "k < 16 \<Longrightarrow> hex_val (hex_digits ! k) = k"
proof -
  have "\<forall>k \<in> set [0..<16]. hex_val (hex_digits ! k) = k" by code_simp
  then show "k < 16 \<Longrightarrow> hex_val (hex_digits ! k) = k" by simp
qed

fun read_char :: "string \<Rightarrow> char \<times> string" where
  "read_char (a # b # s) =
     (if a \<noteq> CHR 0x5C then (a, b # s)
      else if b = CHR ''b'' then (CHR 0x08, s)
      else if b = CHR ''t'' then (CHR 0x09, s)
      else if b = CHR ''n'' then (CHR 0x0A, s)
      else if b = CHR ''f'' then (CHR 0x0C, s)
      else if b = CHR ''r'' then (CHR 0x0D, s)
      else if b = CHR ''u'' then (char_of (16 * hex_val (s ! 2) + hex_val (s ! 3)), drop 4 s)
      else (b, s))"
| "read_char [a] = (a, [])"
| "read_char [] = (CHR 0x00, [])"

lemma read_hex: "n < 256 \<Longrightarrow> 16 * hex_val (hex_byte n ! 0) + hex_val (hex_byte n ! 1) = n"
  by (simp add: hex_byte_def hex_val_digit)

lemma read_quote_char: "x \<noteq> [] \<Longrightarrow> read_char (quote_char c @ x) = (c, x)"
proof (cases "(of_char c :: nat) < 32 \<and> c \<notin> {CHR 0x08, CHR 0x09, CHR 0x0A, CHR 0x0C, CHR 0x0D}")
  case True
  have n: "(of_char c :: nat) < 256" using True by simp
  have "c \<noteq> CHR 0x22" "c \<noteq> CHR 0x5C" using conjunct1[OF True] by (rule contrapos_pn, simp)+
  with True have q: "quote_char c = [CHR 0x5C, CHR ''u'', CHR ''0'', CHR ''0''] @ hex_byte (of_char c)"
    by (simp add: quote_char_def)
  have "read_char (quote_char c @ x) = (char_of (of_char c :: nat), x)"
    using read_hex[OF n] by (simp add: q hex_byte_def)
  then show ?thesis by simp
next
  case False
  assume "x \<noteq> []"
  then obtain y ys where x: "x = y # ys" by (cases x) auto
  show ?thesis
  proof (cases "c \<in> {CHR 0x22, CHR 0x5C, CHR 0x08, CHR 0x09, CHR 0x0A, CHR 0x0C, CHR 0x0D}")
    case True
    then show ?thesis by (elim insertE emptyE) (simp_all add: quote_char_def)
  next
    case other: False
    with False have "quote_char c = [c]" by (simp add: quote_char_def)
    with other x show ?thesis by simp
  qed
qed

lemma quote_char_start: "quote_char c \<noteq> [] \<and> hd (quote_char c) \<noteq> CHR 0x22"
  by (auto simp: quote_char_def)

lemma quoted_prefix_free:
  "concat (map quote_char a) @ CHR 0x22 # s = concat (map quote_char b) @ CHR 0x22 # t \<Longrightarrow> a = b \<and> s = t"
proof (induction a arbitrary: b)
  case Nil
  show ?case
  proof (cases b)
    case (Cons d b')
    with Nil quote_char_start[of d] show ?thesis by (cases "quote_char d") auto
  qed (use Nil in simp)
next
  case (Cons c a)
  show ?case
  proof (cases b)
    case Nil
    with Cons.prems quote_char_start[of c] show ?thesis by (cases "quote_char c") auto
  next
    case b: (Cons d b')
    let ?x = "concat (map quote_char a) @ CHR 0x22 # s" and ?y = "concat (map quote_char b') @ CHR 0x22 # t"
    have "read_char (quote_char c @ ?x) = (c, ?x)" "read_char (quote_char d @ ?y) = (d, ?y)"
      by (rule read_quote_char, simp)+
    moreover have "quote_char c @ ?x = quote_char d @ ?y" using Cons.prems by (simp add: b)
    ultimately have "(c, ?x) = (d, ?y)" by argo
    then have "c = d" and x: "?x = ?y" by simp_all
    with Cons.IH[OF x] show ?thesis by (simp add: b)
  qed
qed

lemma quote_prefix_free: "json_quote a @ s = json_quote b @ t \<Longrightarrow> a = b \<and> s = t"
  using quoted_prefix_free[of a s b t] by (simp add: json_quote_def)

section \<open>Canonical form\<close>

text \<open>Fields sorted at every level, and the plain text of a value.\<close>

definition by_key :: "(string \<Rightarrow> string \<Rightarrow> int) \<Rightarrow> string \<times> 'v \<Rightarrow> string \<times> 'v \<Rightarrow> int" where
  "by_key lc a b = lc (fst a) (fst b)"

fun render :: "json \<Rightarrow> string" where
  "render JNull = ''null''"
| "render (JBool b) = (if b then ''true'' else ''false'')"
| "render (JNum n) = dec_int n"
| "render (JStr s) = json_quote s"
| "render (JArr vs) = ''['' @ join_with '','' (map render vs) @ '']''"
| "render (JObj fs) = ''{'' @ join_with '','' (map (\<lambda>(k, v). json_quote k @ '':'' @ render v) fs) @ ''}''"

fun canon :: "(string \<Rightarrow> string \<Rightarrow> int) \<Rightarrow> json \<Rightarrow> json" where
  "canon lc (JArr vs) = JArr (map (canon lc) vs)"
| "canon lc (JObj fs) = JObj (sort_cmp (by_key lc) (map (\<lambda>(k, v). (k, canon lc v)) fs))"
| "canon lc v = v"

lemma insert_cmp_map:
  "insert_cmp (by_key lc) (k, g v) (map (\<lambda>(k, v). (k, g v)) fs) =
    map (\<lambda>(k, v). (k, g v)) (insert_cmp (by_key lc) (k, v) fs)"
  by (induction fs) (auto simp: by_key_def)

lemma sort_cmp_map:
  "sort_cmp (by_key lc) (map (\<lambda>(k, v). (k, g v)) fs) = map (\<lambda>(k, v). (k, g v)) (sort_cmp (by_key lc) fs)"
proof (induction fs)
  case (Cons f fs)
  obtain k v where "f = (k, v)" by fastforce
  with Cons insert_cmp_map[of lc k g v] show ?case by (simp add: sort_cmp_def)
qed (simp add: sort_cmp_def)

lemma stableStringify_render: "stableStringify lc v = render (canon lc v)"
proof (induction lc v rule: stableStringify.induct)
  case (5 lc vs)
  then have "map (\<lambda>item. stableStringify lc item) vs = map (\<lambda>item. render (canon lc item)) vs"
    by (intro map_cong refl)
  then show ?case by (simp only: stableStringify.simps canon.simps render.simps map_map o_def)
next
  case (6 lc fs)
  have k: "(\<lambda>a b. lc (fst a) (fst b)) = by_key lc" by (simp add: by_key_def fun_eq_iff)
  have "map (\<lambda>(key, nestedValue). json_quote key @ '':'' @ stableStringify lc nestedValue) (sort_cmp (by_key lc) fs) =
      map ((\<lambda>(k, v). json_quote k @ '':'' @ render v) \<circ> (\<lambda>(k, v). (k, canon lc v))) (sort_cmp (by_key lc) fs)"
    using 6 by (intro map_cong refl) (auto simp: k)
  then show ?case by (simp only: stableStringify.simps canon.simps render.simps sort_cmp_map k map_map)
qed simp_all

section \<open>Rendering is injective\<close>

definition stop :: "string \<Rightarrow> bool" where
  "stop s \<longleftrightarrow> s = [] \<or> hd s \<in> {CHR '','', CHR '']'', CHR ''}''}"

lemma stop_simps [simp]: "stop []" "stop (CHR '','' # s)" "stop (CHR '']'' # s)" "stop (CHR ''}'' # s)"
  by (simp_all add: stop_def)

definition number_char :: "char \<Rightarrow> bool" where
  "number_char c \<longleftrightarrow> is_digit c \<or> c = CHR ''-''"

lemma dec_int_chars: "c \<in> set (dec_int n) \<Longrightarrow> number_char c"
  using dec_digits by (auto simp: dec_int_def number_char_def split: if_splits)

lemma dec_int_not_Nil [simp]: "dec_int n \<noteq> []"
  by (simp add: dec_int_def)

lemma stop_not_number: "stop (c # s) \<Longrightarrow> \<not> number_char c"
  by (auto simp: stop_def number_char_def is_digit_def)

lemma takeWhile_number: "stop s \<Longrightarrow> takeWhile number_char (dec_int n @ s) = dec_int n"
  using dec_int_chars stop_not_number by (cases s) (auto simp: takeWhile_append1 takeWhile_append2)

lemma number_prefix_free: "dec_int m @ s = dec_int n @ t \<Longrightarrow> stop s \<Longrightarrow> stop t \<Longrightarrow> m = n \<and> s = t"
  by (metis takeWhile_number dec_int_inject append_same_eq same_append_eq)

text \<open>The first character of a rendering tells its kind.\<close>

fun lead :: "json \<Rightarrow> nat" where
  "lead JNull = 0" | "lead (JBool True) = 1" | "lead (JBool False) = 2" | "lead (JNum _) = 3"
| "lead (JStr _) = 4" | "lead (JArr _) = 5" | "lead (JObj _) = 6"

definition kind_of_char :: "char \<Rightarrow> nat" where
  "kind_of_char c = (if c = CHR ''n'' then 0 else if c = CHR ''t'' then 1 else if c = CHR ''f'' then 2
     else if number_char c then 3 else if c = CHR 0x22 then 4 else if c = CHR ''['' then 5
     else if c = CHR ''{'' then 6 else 7)"

lemma render_lead: "render v \<noteq> [] \<and> kind_of_char (hd (render v)) = lead v"
proof (cases v)
  case (JNum n)
  have "number_char (hd (dec_int n))" by (rule dec_int_chars[of _ n]) simp
  moreover from this have "hd (dec_int n) \<notin> {CHR ''n'', CHR ''t'', CHR ''f''}"
    by (auto simp: number_char_def is_digit_def)
  ultimately show ?thesis using JNum by (simp add: kind_of_char_def)
qed (auto simp: kind_of_char_def number_char_def is_digit_def json_quote_def)

lemma render_not_close: "hd (render v) \<notin> {CHR '','', CHR '']'', CHR ''}''}"
proof
  assume "hd (render v) \<in> {CHR '','', CHR '']'', CHR ''}''}"
  then have "kind_of_char (hd (render v)) = 7" by (auto simp: kind_of_char_def number_char_def is_digit_def)
  with render_lead[of v] show False by (cases v rule: lead.cases) auto
qed

lemma same_lead: "render v @ s = render w @ t \<Longrightarrow> lead w = lead v"
  using render_lead[of v] render_lead[of w] by (metis hd_append2)

lemma join_Cons: "join_with [c] (x # xs) = x @ concat (map (\<lambda>y. c # y) xs)"
  by (induction xs arbitrary: x) auto

text \<open>Lists of items that each end where a separator follows.\<close>

lemma more_items_inj:
  assumes "\<And>x y s t. x \<in> set xs \<Longrightarrow> stop s \<Longrightarrow> stop t \<Longrightarrow> f x @ s = f y @ t \<Longrightarrow> x = y \<and> s = t"
    and "c \<in> {CHR '']'', CHR ''}''}"
  shows "concat (map (\<lambda>x. CHR '','' # f x) xs) @ c # s = concat (map (\<lambda>x. CHR '','' # f x) ys) @ c # t \<Longrightarrow> xs = ys \<and> s = t"
  using assms(1)
proof (induction xs arbitrary: ys)
  case Nil
  then show ?case using assms(2) by (cases ys) auto
next
  case (Cons x xs)
  then obtain y ys' where ys: "ys = y # ys'" using assms(2) by (cases ys) auto
  have st: "stop (concat (map (\<lambda>x. CHR '','' # f x) zs) @ c # r)" for zs r
    using assms(2) by (cases zs) auto
  have "f x @ concat (map (\<lambda>x. CHR '','' # f x) xs) @ c # s = f y @ concat (map (\<lambda>x. CHR '','' # f x) ys') @ c # t"
    using Cons.prems(1) by (simp add: ys)
  from Cons.prems(2)[OF _ st st this]
  have "x = y" "concat (map (\<lambda>x. CHR '','' # f x) xs) @ c # s = concat (map (\<lambda>x. CHR '','' # f x) ys') @ c # t" by auto
  with Cons.IH[of ys'] Cons.prems(2) ys show ?case by auto
qed

lemma items_inj:
  assumes item: "\<And>x y s t. x \<in> set xs \<Longrightarrow> stop s \<Longrightarrow> stop t \<Longrightarrow> f x @ s = f y @ t \<Longrightarrow> x = y \<and> s = t"
    and start: "\<And>x. f x \<noteq> [] \<and> hd (f x) \<notin> {CHR '','', CHR '']'', CHR ''}''}"
    and c: "c \<in> {CHR '']'', CHR ''}''}"
    and eq: "join_with '','' (map f xs) @ c # s = join_with '','' (map f ys) @ c # t"
  shows "xs = ys \<and> s = t"
proof (cases xs)
  case Nil
  show ?thesis
  proof (cases ys)
    case (Cons y ys')
    have "f y \<noteq> [] \<and> hd (f y) \<noteq> c" using start[of y] c by auto
    with Nil Cons eq show ?thesis by (cases "f y") (auto simp: join_Cons)
  qed (use Nil eq in simp)
next
  case xs: (Cons x xs')
  show ?thesis
  proof (cases ys)
    case Nil
    have "f x \<noteq> [] \<and> hd (f x) \<noteq> c" using start[of x] c by auto
    with Nil xs eq show ?thesis by (cases "f x") (auto simp: join_Cons)
  next
    case ys: (Cons y ys')
    have "concat (map (\<lambda>x. CHR '','' # f x) xs) @ c # s = concat (map (\<lambda>x. CHR '','' # f x) ys) @ c # t"
      using eq by (simp add: xs ys join_Cons o_def)
    with more_items_inj[OF item c] show ?thesis by blast
  qed
qed

lemma render_prefix_free: "render v @ s = render w @ t \<Longrightarrow> stop s \<Longrightarrow> stop t \<Longrightarrow> v = w \<and> s = t"
proof (induction v arbitrary: w s t rule: render.induct)
  case (3 n)
  then have "lead w = lead (JNum n)" by (intro same_lead)
  then obtain m where "w = JNum m" by (cases w rule: lead.cases) auto
  with 3 number_prefix_free[of n s m t] show ?case by simp
next
  case (4 a)
  then have "lead w = lead (JStr a)" by (intro same_lead)
  then obtain b where "w = JStr b" by (cases w rule: lead.cases) auto
  with 4 quote_prefix_free[of a s b t] show ?case by simp
next
  case (5 vs)
  then have "lead w = lead (JArr vs)" by (intro same_lead)
  then obtain ws where w: "w = JArr ws" by (cases w rule: lead.cases) auto
  have "join_with '','' (map render vs) @ CHR '']'' # s = join_with '','' (map render ws) @ CHR '']'' # t"
    using 5 by (simp add: w)
  moreover have "render x \<noteq> [] \<and> hd (render x) \<notin> {CHR '','', CHR '']'', CHR ''}''}" for x
    using render_lead render_not_close by blast
  ultimately show ?case using items_inj[of vs render, OF 5(1)] unfolding w json.inject by blast
next
  case (6 fs)
  then have "lead w = lead (JObj fs)" by (intro same_lead)
  then obtain gs where w: "w = JObj gs" by (cases w rule: lead.cases) auto
  let ?f = "\<lambda>(k, v). json_quote k @ '':'' @ render v"
  have eq: "join_with '','' (map ?f fs) @ CHR ''}'' # s = join_with '','' (map ?f gs) @ CHR ''}'' # t"
    using 6 by (simp add: w)
  have "x = y \<and> s = t" if "x \<in> set fs" "stop s" "stop t" "?f x @ s = ?f y @ t" for x y s t
  proof -
    obtain k v where x: "x = (k, v)" by fastforce
    obtain k' v' where y: "y = (k', v')" by fastforce
    have "json_quote k @ CHR '':'' # render v @ s = json_quote k' @ CHR '':'' # render v' @ t"
      using that(4) by (simp add: x y)
    from quote_prefix_free[OF this] have "k = k'" "render v @ s = render v' @ t" by auto
    with 6(1)[OF that(1) x[symmetric]] that(2,3) x y show ?thesis by blast
  qed
  moreover have "?f x \<noteq> [] \<and> hd (?f x) \<notin> {CHR '','', CHR '']'', CHR ''}''}" for x
    by (cases x) (simp add: json_quote_def)
  ultimately show ?case using items_inj[OF _ _ _ eq] unfolding w by blast
next
  case 1
  then have "lead w = lead JNull" by (intro same_lead)
  then have "w = JNull" by (cases w rule: lead.cases) auto
  with 1 show ?case by simp
next
  case (2 b)
  then have "lead w = lead (JBool b)" by (intro same_lead)
  then have "w = JBool b" by (cases w rule: lead.cases; cases b) auto
  with 2 show ?case by (cases b) simp_all
qed

section \<open>Values up to the order of fields\<close>

text \<open>
  Two JSON values say the same when they agree up to the order of the fields of their objects;
  a JavaScript object has each key once.
\<close>

inductive same_json :: "json \<Rightarrow> json \<Rightarrow> bool" where
  same_atom: "same_json v v"
| same_arr: "list_all2 same_json vs ws \<Longrightarrow> same_json (JArr vs) (JArr ws)"
| same_obj: "list_all2 (\<lambda>f g. fst f = fst g \<and> same_json (snd f) (snd g)) fs gs' \<Longrightarrow> mset gs' = mset gs
    \<Longrightarrow> same_json (JObj fs) (JObj gs)"

inductive_cases same_json_strE: "same_json (JStr a) w"
inductive_cases same_json_objE: "same_json (JObj fs) w"

fun well_keyed :: "json \<Rightarrow> bool" where
  "well_keyed (JArr vs) = list_all well_keyed vs"
| "well_keyed (JObj fs) = (distinct (map fst fs) \<and> list_all (\<lambda>(k, v). well_keyed v) fs)"
| "well_keyed v = True"

definition canon_field :: "(string \<Rightarrow> string \<Rightarrow> int) \<Rightarrow> string \<times> json \<Rightarrow> string \<times> json" where
  "canon_field lc f = (fst f, canon lc (snd f))"

lemma canon_obj: "canon lc (JObj fs) = JObj (sort_cmp (by_key lc) (map (canon_field lc) fs))"
proof -
  have "canon_field lc = (\<lambda>(k, v). (k, canon lc v))" by (simp add: canon_field_def fun_eq_iff)
  then show ?thesis by simp
qed

lemma map_of_mset: "mset ws = image_mset g M \<Longrightarrow> \<exists>zs. ws = map g zs \<and> mset zs = M"
proof (induction ws arbitrary: M)
  case (Cons w ws)
  then have "w \<in># image_mset g M" by (metis list.set_intros(1) set_mset_mset)
  then obtain z where z: "z \<in># M" "w = g z" by auto
  then obtain N where N: "M = add_mset z N" by (meson multi_member_split)
  with Cons.prems z have "mset ws = image_mset g N" by simp
  with Cons.IH obtain zs where "ws = map g zs" "mset zs = N" by blast
  with z N show ?case by (intro exI[of _ "z # zs"]) simp
qed simp

lemma canon_same: "canon lc v = canon lc w \<Longrightarrow> same_json v w"
proof (induction lc v arbitrary: w rule: canon.induct)
  case (1 lc vs)
  then obtain ws where w: "w = JArr ws" "map (canon lc) vs = map (canon lc) ws"
    by (cases w rule: lead.cases) auto
  then have "list_all2 (\<lambda>v w. canon lc v = canon lc w) vs ws"
    by (simp add: list_all2_conv_all_nth list_eq_iff_nth_eq)
  with 1(1) have "list_all2 same_json vs ws" by (auto elim: list.rel_mono_strong)
  then show ?case unfolding w by (rule same_arr)
next
  case (2 lc fs)
  then obtain gs where w: "w = JObj gs"
    "sort_cmp (by_key lc) (map (canon_field lc) fs) = sort_cmp (by_key lc) (map (canon_field lc) gs)"
    by (cases w rule: lead.cases) (auto simp: canon_obj simp del: canon.simps(2))
  then have "mset (map (canon_field lc) fs) = mset (map (canon_field lc) gs)"
    by (metis mset_sort_cmp)
  then obtain gs' where gs: "map (canon_field lc) fs = map (canon_field lc) gs'" "mset gs' = mset gs"
    using map_of_mset[of "map (canon_field lc) fs" "canon_field lc" "mset gs"] by auto
  from gs(1) have "list_all2 (\<lambda>f g. canon_field lc f = canon_field lc g) fs gs'"
    by (simp add: list_all2_conv_all_nth list_eq_iff_nth_eq)
  then have "list_all2 (\<lambda>f g. fst f = fst g \<and> same_json (snd f) (snd g)) fs gs'"
  proof (rule list.rel_mono_strong)
    fix f g assume fg: "f \<in> set fs" "canon_field lc f = canon_field lc g"
    have "canon lc (snd f) = canon lc (snd g)" using fg(2) by (simp add: canon_field_def)
    with 2(1)[OF fg(1) surjective_pairing[symmetric]] fg(2) show "fst f = fst g \<and> same_json (snd f) (snd g)"
      by (simp add: canon_field_def)
  qed
  then show ?case unfolding w using gs(2) by (rule same_obj)
qed (auto simp: same_atom elim!: canon.elims[OF sym])

lemma stringify_inj: "stableStringify lc v = stableStringify lc w \<longleftrightarrow> canon lc v = canon lc w"
  using render_prefix_free[of "canon lc v" "[]" "canon lc w" "[]"] by (auto simp: stableStringify_render)

lemma stringify_same: "stableStringify lc v = stableStringify lc w \<Longrightarrow> same_json v w"
  by (simp add: stringify_inj canon_same)

section \<open>A collation makes the order of fields irrelevant\<close>

text \<open>What \<open>localeCompare\<close> documents: a total order of the strings, 0 on equal ones only.\<close>

definition collation :: "(string \<Rightarrow> string \<Rightarrow> int) \<Rightarrow> bool" where
  "collation lc \<longleftrightarrow> (\<forall>a b. lc a b = 0 \<longleftrightarrow> a = b) \<and> (\<forall>a b. lc a b < 0 \<longleftrightarrow> lc b a > 0) \<and>
     (\<forall>a b c. lc a b \<le> 0 \<longrightarrow> lc b c \<le> 0 \<longrightarrow> lc a c \<le> 0)"

lemma collationD:
  assumes "collation lc"
  shows "lc a b = 0 \<longleftrightarrow> a = b" "lc a b < 0 \<longleftrightarrow> lc b a > 0" "lc a b \<le> 0 \<Longrightarrow> lc b c \<le> 0 \<Longrightarrow> lc a c \<le> 0"
  using assms unfolding collation_def by blast+

definition key_le :: "(string \<Rightarrow> string \<Rightarrow> int) \<Rightarrow> string \<times> 'v \<Rightarrow> string \<times> 'v \<Rightarrow> bool" where
  "key_le lc f g \<longleftrightarrow> lc (fst f) (fst g) \<le> 0"

lemma sorted_insert_key:
  assumes "collation lc"
  shows "sorted_wrt (key_le lc) fs \<Longrightarrow> sorted_wrt (key_le lc) (insert_cmp (by_key lc) f fs)"
proof (induction fs)
  case (Cons g fs)
  show ?case
  proof (cases "lc (fst f) (fst g) \<le> 0")
    case True
    with Cons.prems collationD(3)[OF assms] show ?thesis by (auto simp: by_key_def key_le_def)
  next
    case False
    then have "lc (fst g) (fst f) \<le> 0" using collationD(2)[OF assms, of "fst g" "fst f"] by linarith
    with False Cons show ?thesis by (auto simp: by_key_def key_le_def set_insert_cmp)
  qed
qed simp

lemma sorted_sort_key: "collation lc \<Longrightarrow> sorted_wrt (key_le lc) (sort_cmp (by_key lc) fs)"
  by (induction fs) (auto simp: sort_cmp_def intro: sorted_insert_key)

lemma sorted_wrt_unique:
  assumes "\<And>x y. x \<in> set xs \<Longrightarrow> y \<in> set xs \<Longrightarrow> R x y \<Longrightarrow> R y x \<Longrightarrow> x = y"
  shows "sorted_wrt R xs \<Longrightarrow> sorted_wrt R ys \<Longrightarrow> mset xs = mset ys \<Longrightarrow> xs = ys"
  using assms
proof (induction xs arbitrary: ys)
  case (Cons x xs)
  then obtain y ys' where ys: "ys = y # ys'" by (cases ys) auto
  have s: "set (x # xs) = set ys" using Cons.prems(3) by (rule mset_eq_setD)
  have "x = y"
  proof (rule ccontr)
    assume "x \<noteq> y"
    then have "x \<in> set ys'" "y \<in> set xs" using s ys by auto
    then have "R x y" "R y x" using Cons.prems(1,2) ys by auto
    with Cons.prems(4)[of x y] \<open>y \<in> set xs\<close> \<open>x \<noteq> y\<close> show False by simp
  qed
  moreover have "xs = ys'" using Cons.prems ys \<open>x = y\<close> by (intro Cons.IH) auto
  ultimately show ?case using ys by simp
qed simp

lemma sort_key_unique:
  assumes "collation lc" "mset fs = mset gs" "distinct (map fst fs)"
  shows "sort_cmp (by_key lc) fs = sort_cmp (by_key lc) gs"
proof (rule sorted_wrt_unique[where R = "key_le lc"])
  fix x y assume xy: "x \<in> set (sort_cmp (by_key lc) fs)" "y \<in> set (sort_cmp (by_key lc) fs)" "key_le lc x y" "key_le lc y x"
  then have "lc (fst x) (fst y) = 0" using collationD(2)[OF assms(1), of "fst x" "fst y"]
    by (auto simp: key_le_def)
  then have "fst x = fst y" using collationD(1)[OF assms(1)] by blast
  with xy assms(3) show "x = y" by (auto simp: distinct_map inj_on_def)
qed (use assms sorted_sort_key in auto)

lemma same_canon:
  assumes "collation lc"
  shows "same_json v w \<Longrightarrow> well_keyed v \<Longrightarrow> canon lc v = canon lc w"
proof (induction rule: same_json.induct)
  case (same_arr vs ws)
  then have "list_all2 (\<lambda>v w. canon lc v = canon lc w) vs ws"
    by (elim list.rel_mono_strong) (auto simp: list_all_iff)
  then show ?case by (simp add: list_all2_conv_all_nth list_eq_iff_nth_eq)
next
  case (same_obj fs gs' gs)
  then have "list_all2 (\<lambda>f g. canon_field lc f = canon_field lc g) fs gs'"
    by (elim list.rel_mono_strong) (auto simp: list_all_iff canon_field_def)
  then have m: "map (canon_field lc) fs = map (canon_field lc) gs'"
    by (simp add: list_all2_conv_all_nth list_eq_iff_nth_eq)
  have "map fst (map (canon_field lc) fs) = map fst fs" by (simp add: canon_field_def)
  then have "distinct (map fst (map (canon_field lc) fs))" using same_obj.prems by (simp only: well_keyed.simps)
  moreover have "mset (map (canon_field lc) fs) = mset (map (canon_field lc) gs)"
    unfolding m using same_obj.hyps by simp
  ultimately show ?case unfolding canon_obj json.inject by (intro sort_key_unique[OF assms])
qed simp

end
