(* ===== verification/ProtocolFacts.thy ===== *)
theory ProtocolFacts
  imports CanonicalJson "HOL-Library.Product_Lexorder"
begin

text \<open>
  What the protocol guarantees: a signature binds every signed field and the payload, a created
  command or pairing code is accepted until it expires, a signed request verifies, and release
  versions compare as numbers.
\<close>

section \<open>What a digest of a text binds\<close>

text \<open>
  A text that tells the values of a type apart up to \<open>same\<close>; a digest without a collision between
  the two texts does too.
\<close>

locale binding_text =
  fixes text_of :: "'a \<Rightarrow> string" and same :: "'a \<Rightarrow> 'a \<Rightarrow> bool" and admissible :: "'a \<Rightarrow> bool"
  assumes binds: "admissible x \<Longrightarrow> admissible y \<Longrightarrow> text_of x = text_of y \<Longrightarrow> same x y"
begin

lemma digest_binds:
  "h (text_of x) = h (text_of y) \<Longrightarrow> (h (text_of x) = h (text_of y) \<Longrightarrow> text_of x = text_of y) \<Longrightarrow>
    admissible x \<Longrightarrow> admissible y \<Longrightarrow> same x y"
  by (blast intro: binds)

end

interpretation json_text: binding_text "stableStringify lc" same_json "\<lambda>_. True" for lc
  by unfold_locales (rule stringify_same)

lemma split_first:
  "c \<notin> set a \<Longrightarrow> c \<notin> set b \<Longrightarrow> a @ c # x = b @ c # y \<Longrightarrow> a = b \<and> x = y"
proof (induction a arbitrary: b)
  case Nil
  then show ?case by (cases b) auto
next
  case (Cons d a)
  then show ?case by (cases b) auto
qed

definition one_line :: "signed_request \<Rightarrow> bool" where
  "one_line rq \<longleftrightarrow> (\<forall>s \<in> {rq_bridgeDeviceId rq, rq_method rq, rq_pathname rq, rq_timestamp rq, rq_nonce rq}.
     CHR 0x0A \<notin> set s)"

definition same_request :: "(string \<Rightarrow> string) \<Rightarrow> signed_request \<Rightarrow> signed_request \<Rightarrow> bool" where
  "same_request sha p q \<longleftrightarrow> rq_bridgeDeviceId p = rq_bridgeDeviceId q \<and> to_upper (rq_method p) = to_upper (rq_method q) \<and>
     rq_pathname p = rq_pathname q \<and> rq_timestamp p = rq_timestamp q \<and> rq_nonce p = rq_nonce q \<and>
     hashBridgeRequestBody sha (rq_bodyText p) = hashBridgeRequestBody sha (rq_bodyText q)"

lemma upper_line_feed:
  "(let n = (of_char c :: nat) in if 97 \<le> n \<and> n \<le> 122 then char_of (n - 32) else c) = CHR 0x0A \<Longrightarrow> c = CHR 0x0A"
proof (rule ccontr)
  assume a: "(let n = (of_char c :: nat) in if 97 \<le> n \<and> n \<le> 122 then char_of (n - 32) else c) = CHR 0x0A" "c \<noteq> CHR 0x0A"
  then have c: "97 \<le> (of_char c :: nat)" "char_of ((of_char c :: nat) - 32) = CHR 0x0A"
    by (simp_all add: Let_def split: if_splits)
  from arg_cong[OF c(2), of "of_char :: char \<Rightarrow> nat"] have "(of_char c - 32) mod 256 = (10 :: nat)" by simp
  moreover have "(of_char c - 32) mod 256 = (of_char c - 32 :: nat)"
    by (rule mod_less) (use nat_of_char_less_256[of c] in linarith)
  ultimately show False using c(1) by linarith
qed

lemma to_upper_line: "CHR 0x0A \<notin> set s \<Longrightarrow> CHR 0x0A \<notin> set (to_upper s)"
  using upper_line_feed[OF sym] by (fastforce simp: to_upper_def)

interpretation request_text: binding_text "canonicalBridgeRequest sha" "same_request sha" one_line for sha
proof
  fix p q assume a: "one_line p" "one_line q" "canonicalBridgeRequest sha p = canonicalBridgeRequest sha q"
  note lines = a(1,2)[unfolded one_line_def, simplified]
  let ?rest = "\<lambda>r. [rq_pathname r, rq_timestamp r, rq_nonce r, hashBridgeRequestBody sha (rq_bodyText r)]"
  have "rq_bridgeDeviceId p @ CHR 0x0A # to_upper (rq_method p) @ CHR 0x0A # join_with newline (?rest p) =
    rq_bridgeDeviceId q @ CHR 0x0A # to_upper (rq_method q) @ CHR 0x0A # join_with newline (?rest q)"
    using a(3) by (simp add: canonicalBridgeRequest_def newline_def)
  from split_first[OF _ _ this] lines have i: "rq_bridgeDeviceId p = rq_bridgeDeviceId q"
    and "to_upper (rq_method p) @ CHR 0x0A # join_with newline (?rest p) =
      to_upper (rq_method q) @ CHR 0x0A # join_with newline (?rest q)" by auto
  from split_first[OF _ _ this(2)] lines to_upper_line have m: "to_upper (rq_method p) = to_upper (rq_method q)"
    and "rq_pathname p @ CHR 0x0A # join_with newline (tl (?rest p)) =
      rq_pathname q @ CHR 0x0A # join_with newline (tl (?rest q))" by (auto simp: newline_def)
  from split_first[OF _ _ this(2)] lines have n: "rq_pathname p = rq_pathname q"
    and "rq_timestamp p @ CHR 0x0A # join_with newline (tl (tl (?rest p))) =
      rq_timestamp q @ CHR 0x0A # join_with newline (tl (tl (?rest q)))" by (auto simp: newline_def)
  from split_first[OF _ _ this(2)] lines have t: "rq_timestamp p = rq_timestamp q"
    and "rq_nonce p @ CHR 0x0A # hashBridgeRequestBody sha (rq_bodyText p) =
      rq_nonce q @ CHR 0x0A # hashBridgeRequestBody sha (rq_bodyText q)" by (auto simp: newline_def)
  from split_first[OF _ _ this(2)] lines i m n t show "same_request sha p q" by (simp add: same_request_def)
qed

section \<open>Commands\<close>

lemma same_field:
  assumes "same_json (JObj fs) (JObj gs)" "distinct (map fst fs)" "map_of fs k = Some v"
  shows "\<exists>w. map_of gs k = Some w \<and> same_json v w"
  using assms(1)
proof (rule same_json_objE)
  assume "JObj gs = JObj fs"
  with assms(3) show ?thesis by (auto intro: same_atom)
next
  fix gs' gs''
  assume g: "JObj gs = JObj gs''" "list_all2 (\<lambda>f g. fst f = fst g \<and> same_json (snd f) (snd g)) fs gs'" "mset gs' = mset gs''"
  have "map fst gs' = map fst fs" using g(2) by (induction rule: list_all2_induct) auto
  then have d: "distinct (map fst gs')" using assms(2) by simp
  have "\<exists>w. map_of gs' k = Some w \<and> same_json v w" using g(2) assms(3)
    by (induction rule: list_all2_induct) (auto split: if_splits)
  moreover have "map_of gs' = map_of gs"
  proof (subst map_of_inject_set[OF d])
    have "mset (map fst gs') = mset (map fst gs)" using g(1,3) by simp
    then show "distinct (map fst gs)" using d mset_eq_imp_distinct_iff by blast
  qed (use g(1,3) in \<open>auto dest: mset_eq_setD\<close>)
  ultimately show ?thesis by simp
qed

lemma same_str [simp]: "same_json (JStr a) w \<longleftrightarrow> w = JStr a"
  by (auto elim: same_json_strE intro: same_atom)

lemma same_null [simp]: "same_json JNull w \<longleftrightarrow> w = JNull"
  by (auto elim: same_json.cases intro: same_atom)

lemma same_or_null [simp]: "same_json (json_or_null x) (json_or_null y) \<longleftrightarrow> x = y"
  by (auto simp: json_or_null_def split: option.splits)

lemma command_type_name_inject [simp]: "command_type_name s = command_type_name t \<longleftrightarrow> s = t"
  by (cases s; cases t) simp_all

definition same_command :: "'a unsigned_envelope_scheme \<Rightarrow> 'b unsigned_envelope_scheme \<Rightarrow> bool" where
  "same_command e f \<longleftrightarrow> same_json (env_authorizationContext e) (env_authorizationContext f) \<and>
     env_bridgeDeviceId f = env_bridgeDeviceId e \<and> env_bridgeRootId f = env_bridgeRootId e \<and>
     env_commandId f = env_commandId e \<and> env_commandType f = env_commandType e \<and>
     env_connectedLibraryId f = env_connectedLibraryId e \<and> env_expiresAt f = env_expiresAt e \<and>
     env_idempotencyKey f = env_idempotencyKey e \<and> env_issuedAt f = env_issuedAt e \<and>
     env_payloadHash f = env_payloadHash e"

lemma signed_fields_same:
  assumes "same_json (JObj (signingFields e)) (JObj (signingFields f))"
  shows "same_command e f"
proof -
  have d: "distinct (map fst (signingFields e))" by (simp add: signingFields_def)
  note field = same_field[OF assms d, of k for k]
  show ?thesis
    using field[of "''authorizationContext''"] field[of "''bridgeDeviceId''"] field[of "''bridgeRootId''"]
      field[of "''commandId''"] field[of "''commandType''"] field[of "''connectedLibraryId''"] field[of "''expiresAt''"]
      field[of "''idempotencyKey''"] field[of "''issuedAt''"] field[of "''payloadHash''"]
    by (simp add: signingFields_def same_command_def)
qed

interpretation signed_text: binding_text "signingPayload cr" same_command "\<lambda>_. True" for cr
  by unfold_locales (unfold signingPayload_def, intro signed_fields_same stringify_same)

text \<open>A collation by ranks of characters, as the tables of a locale give one.\<close>

fun compare_ranks :: "nat list \<Rightarrow> nat list \<Rightarrow> int" where
  "compare_ranks [] [] = 0"
| "compare_ranks [] (b # y) = - 1"
| "compare_ranks (a # x) [] = 1"
| "compare_ranks (a # x) (b # y) = (if a < b then - 1 else if b < a then 1 else compare_ranks x y)"

definition ranked :: "(char \<Rightarrow> nat) \<Rightarrow> string \<Rightarrow> string \<Rightarrow> int" where
  "ranked rank a b = compare_ranks (map rank a) (map rank b)"

lemma compare_ranks_zero: "compare_ranks x y = 0 \<longleftrightarrow> x = y"
  by (induction x y rule: compare_ranks.induct) auto

lemma compare_ranks_swap: "compare_ranks y x = - compare_ranks x y"
  by (induction x y rule: compare_ranks.induct) auto

lemma compare_ranks_trans: "compare_ranks x y \<le> 0 \<Longrightarrow> compare_ranks y z \<le> 0 \<Longrightarrow> compare_ranks x z \<le> 0"
proof (induction x y arbitrary: z rule: compare_ranks.induct)
  case (4 a x b y)
  show ?case using "4.IH"[of "tl z"] "4.prems" by (cases z) (simp_all split: if_splits)
next
  case (2 b y)
  then show ?case by (cases z) auto
qed auto

lemma ranked_collation: "inj rank \<Longrightarrow> collation (ranked rank)"
  unfolding collation_def ranked_def
proof (intro conjI allI impI)
  fix a b :: string assume "inj rank"
  then show "compare_ranks (map rank a) (map rank b) = 0 \<longleftrightarrow> a = b" by (simp add: compare_ranks_zero inj_map_eq_map)
  show "compare_ranks (map rank a) (map rank b) < 0 \<longleftrightarrow> compare_ranks (map rank b) (map rank a) > 0"
    using compare_ranks_swap[of "map rank a" "map rank b"] by linarith
qed (rule compare_ranks_trans)

text \<open>The order of the code points, and that of a locale in which z comes before t, as in Estonian.\<close>

definition root_rank :: "char \<Rightarrow> nat" where "root_rank c = 2 * of_char c"

definition estonian_rank :: "char \<Rightarrow> nat" where
  "estonian_rank c = (if c = CHR ''z'' then 2 * of_char (CHR ''s'') + 1 else 2 * of_char c)"

lemma of_char_inject: "(of_char a :: nat) = of_char b \<longleftrightarrow> a = b"
  by (rule of_char_eq_iff)

lemma sample_collations: "collation (ranked root_rank)" "collation (ranked estonian_rank)"
proof -
  show "collation (ranked root_rank)"
    by (rule ranked_collation) (auto simp: inj_def root_rank_def of_char_inject)
  have "2 * (of_char a :: nat) \<noteq> 2 * of_char b + 1" "2 * (of_char b :: nat) + 1 \<noteq> 2 * of_char a" for a b :: char
    by presburger+
  then show "collation (ranked estonian_rank)"
    by (intro ranked_collation) (auto simp: inj_def estonian_rank_def of_char_inject simp del: of_char_Char split: if_splits)
qed

text \<open>
  C28. Canonical JSON: with a comparison of keys that is a total order, two values (each key once
  per object) have the same canonical text if and only if they are equal up to the order of the
  fields of their objects, at every depth. So the payload hash ignores that order and nothing else.
\<close>
theorem canonical_json_iff:
  assumes "collation lc" "well_keyed v"
  shows "stableStringify lc v = stableStringify lc w \<longleftrightarrow> same_json v w"
  using same_canon[OF assms(1) _ assms(2)] stringify_same by (auto simp: stringify_inj)

theorem canonical_json_iff_witness:
  "stableStringify (ranked root_rank) (JObj [(''b'', JNum 1), (''a'', JArr [JNull])]) =
   stableStringify (ranked root_rank) (JObj [(''a'', JArr [JNull]), (''b'', JNum 1)])"
proof -
  have "list_all2 (\<lambda>f g. fst f = fst g \<and> same_json (snd f) (snd g)) [(''b'', JNum 1), (''a'', JArr [JNull])]
      [(''b'', JNum 1), (''a'', JArr [JNull])]"
    by (simp add: same_atom)
  then have "same_json (JObj [(''b'', JNum 1), (''a'', JArr [JNull])]) (JObj [(''a'', JArr [JNull]), (''b'', JNum 1)])"
    by (rule same_obj) (simp add: add_mset_commute)
  then show ?thesis by (subst canonical_json_iff[OF sample_collations(1)]) simp_all
qed

text \<open>
  C24. What a command signature binds: an envelope that the device allows and that carries the
  signature of a command the server created has the same device, folder, library, command type,
  ids, idempotency key and dates, and the same payload and authorization context up to the order
  of JSON fields, unless the hash or the authentication code collides on the two texts. \<open>Allows\<close> is
  \<open>validateBridgeCommandForDevice\<close>, which the protocol package offers and its tests use; the shipped
  Bridge (\<open>command-runner.ts\<close>) does not call it and makes smaller checks of its own.
\<close>
theorem signature_binds_command:
  fixes e f :: command_envelope
  assumes "e = createBridgeCommandEnvelope cr clock uuid1 uuid2 input"
    and "validateBridgeCommandForDevice cr seen status f expected now (ci_signingSecret input) = COMMAND_ALLOWED"
    and "env_signature f = env_signature e"
    and "\<And>t t'. t = signingPayload cr e \<Longrightarrow> t' = signingPayload cr f \<Longrightarrow>
      cr_hmac cr (ci_signingSecret input) t = cr_hmac cr (ci_signingSecret input) t' \<Longrightarrow> t = t'"
    and "\<And>t t'. t = stableStringify (cr_lc cr) (env_payload e) \<Longrightarrow> t' = stableStringify (cr_lc cr) (env_payload f) \<Longrightarrow>
      cr_sha cr t = cr_sha cr t' \<Longrightarrow> t = t'"
  shows "same_command e f \<and> same_json (env_payload e) (env_payload f)"
proof -
  have v: "verifyBridgeCommandSignature cr f (ci_signingSecret input)"
    "hashBridgeCommandPayload (cr_sha cr) (cr_lc cr) (env_payload f) = env_payloadHash f"
    using assms(2) by (auto simp: validateBridgeCommandForDevice_def split: if_splits)
  have s: "env_signature e = signBridgeCommandEnvelope cr e (ci_signingSecret input)"
    and h: "env_payloadHash e = hashBridgeCommandPayload (cr_sha cr) (cr_lc cr) (env_payload e)"
    by (simp_all add: assms(1) createBridgeCommandEnvelope_def Let_def unsigned_envelope.defs signBridgeCommandEnvelope_def
      signingPayload_def signingFields_def)
  have "cr_hmac cr (ci_signingSecret input) (signingPayload cr e) = cr_hmac cr (ci_signingSecret input) (signingPayload cr f)"
    using v(1) assms(3) s by (simp add: verifyBridgeCommandSignature_def signBridgeCommandEnvelope_def signingPayload_def
      signingFields_def unsigned_envelope.defs)
  then have c: "same_command e f"
    by (rule signed_text.digest_binds) (use assms(4) in auto)
  have "cr_sha cr (stableStringify (cr_lc cr) (env_payload e)) = cr_sha cr (stableStringify (cr_lc cr) (env_payload f))"
    using c v(2) h by (simp add: same_command_def hashBridgeCommandPayload_def)
  then have "same_json (env_payload e) (env_payload f)"
    by (rule json_text.digest_binds) (use assms(5) in auto)
  with c have ?thesis by simp
  then show ?thesis .
qed

text \<open>A platform to compute with: digests that keep the text, dates written as numbers.\<close>

definition read_int :: "string \<Rightarrow> int" where
  "read_int s = (case s of c # r \<Rightarrow> if c = CHR ''-'' then - int (dec_val r) else int (dec_val s) | [] \<Rightarrow> 0)"

lemma read_dec_int: "read_int (dec_int n) = n"
proof (cases "n < 0")
  case False
  obtain c r where d: "dec (nat n) = c # r" by (cases "dec (nat n)") auto
  then have "c \<noteq> CHR ''-''" using dec_no_sign[of "nat n"] by auto
  with False d show ?thesis using dec_val_dec[of "nat n"] by (simp add: dec_int_def read_int_def)
qed (simp add: dec_int_def read_int_def)

definition sample_platform :: crypto where
  "sample_platform = \<lparr>cr_sha = id, cr_hmac = (\<lambda>secret text. text), cr_lc = ranked root_rank, cr_iso = dec_int,
     cr_time = (\<lambda>s. Some (read_int s))\<rparr>"

definition sample_input :: command_input where
  "sample_input = \<lparr>ci_authorizationContext = None, ci_bridgeDeviceId = ''d'', ci_bridgeRootId = Some ''r'',
     ci_commandId = None, ci_commandType = SCAN_LIBRARY, ci_connectedLibraryId = None, ci_expiresAt = Some 9,
     ci_idempotencyKey = None, ci_issuedAt = Some 1, ci_payload = Some (JObj [(''zone'', JNum 1), (''type'', JNum 2)]),
     ci_signingSecret = ''s''\<rparr>"

lemma created_verdict:
  assumes "\<And>t. cr_time cr (cr_iso cr t) = Some t"
  shows "validateBridgeCommandForDevice cr seen status (createBridgeCommandEnvelope cr clock uuid1 uuid2 input)
      expected now (ci_signingSecret input) =
    (if status = DEV_REVOKED then DEVICE_REVOKED
     else if ci_bridgeDeviceId input \<noteq> expected then WRONG_DEVICE
     else if coalesce (ci_expiresAt input) (coalesce (ci_issuedAt input) clock + 300000) \<le> now then COMMAND_EXPIRED
     else if ci_bridgeDeviceId input @ '':'' @ coalesce (ci_commandId input) uuid1 @ '':'' @
       coalesce (ci_idempotencyKey input) uuid2 \<in> seen then COMMAND_REPLAYED
     else COMMAND_ALLOWED)"
  by (simp add: validateBridgeCommandForDevice_def createBridgeCommandEnvelope_def Let_def unsigned_envelope.defs
    assms bridgeCommandIsExpired_def verifyBridgeCommandSignature_def signBridgeCommandEnvelope_def
    signingPayload_def signingFields_def createBridgeCommandReplayKey_def defaultCommandTtlMs_def)

lemma sample_command_allowed:
  "validateBridgeCommandForDevice sample_platform {} ONLINE
     (createBridgeCommandEnvelope sample_platform 0 ''u1'' ''u2'' sample_input) ''d'' 5 (ci_signingSecret sample_input)
   = COMMAND_ALLOWED"
proof (subst created_verdict)
  show "cr_time sample_platform (cr_iso sample_platform t) = Some t" for t
    by (simp add: sample_platform_def read_dec_int)
qed (simp add: sample_input_def)

text \<open>
  A created command on its way: validated with the secret it was signed with, its payload hash
  and signature always pass, and the answer depends on the rest only: a revoked device refuses it,
  another device refuses it, from the expiry on (five minutes after issue by default) it has
  expired, a replay key seen before is a replay, and otherwise it is allowed.
\<close>
theorem created_command_verdict:
  assumes "\<And>t. cr_time cr (cr_iso cr t) = Some t"
  shows "validateBridgeCommandForDevice cr seen status (createBridgeCommandEnvelope cr clock uuid1 uuid2 input)
      expected now (ci_signingSecret input) =
    (if status = DEV_REVOKED then DEVICE_REVOKED
     else if ci_bridgeDeviceId input \<noteq> expected then WRONG_DEVICE
     else if coalesce (ci_expiresAt input) (coalesce (ci_issuedAt input) clock + 300000) \<le> now then COMMAND_EXPIRED
     else if ci_bridgeDeviceId input @ '':'' @ coalesce (ci_commandId input) uuid1 @ '':'' @
       coalesce (ci_idempotencyKey input) uuid2 \<in> seen then COMMAND_REPLAYED
     else COMMAND_ALLOWED)"
  using assms by (rule created_verdict)

theorem created_command_verdict_witness:
  "validateBridgeCommandForDevice sample_platform {''d:u1:u2''} ONLINE
     (createBridgeCommandEnvelope sample_platform 0 ''u1'' ''u2'' sample_input) ''d'' 5 ''s'' = COMMAND_REPLAYED"
proof -
  have "\<And>t. cr_time sample_platform (cr_iso sample_platform t) = Some t"
    by (simp add: sample_platform_def read_dec_int)
  from created_command_verdict[OF this, of "{''d:u1:u2''}" ONLINE 0 "''u1''" "''u2''" sample_input "''d''" 5]
  show ?thesis by (simp add: sample_input_def)
qed

theorem signature_binds_command_witness:
  "same_command (createBridgeCommandEnvelope sample_platform 0 ''u1'' ''u2'' sample_input)
     (createBridgeCommandEnvelope sample_platform 0 ''u1'' ''u2'' sample_input)"
  by (rule conjunct1[OF signature_binds_command[OF refl sample_command_allowed refl]])
    (simp_all add: sample_platform_def)

lemma sort_two:
  assumes "collation lc" "lc a b \<noteq> 0"
  shows "sort_cmp (by_key lc) [(a, v), (b, w)] = (if lc a b < 0 then [(a, v), (b, w)] else [(b, w), (a, v)])"
  using assms(2) by (auto simp: sort_cmp_def by_key_def)

text \<open>
  C29. The payload hash depends on the locale of the host: when the payload has exactly two fields and
  the server and the device order their keys differently (\<open>localeCompare\<close> without a locale uses the
  host's default), \<open>validateBridgeCommandForDevice\<close> refuses the fresh and unchanged command as
  PAYLOAD_CHANGED (unless the hash collides on the two texts).
\<close>
theorem locale_changes_payload_hash:
  assumes "collation lc" "collation lc'" "lc a b < 0" "0 < lc' a b"
    and "cr_sha cr (stableStringify lc (JObj [(a, v), (b, w)])) = cr_sha cr (stableStringify lc' (JObj [(a, v), (b, w)]))
      \<Longrightarrow> stableStringify lc (JObj [(a, v), (b, w)]) = stableStringify lc' (JObj [(a, v), (b, w)])"
    and "\<And>t. cr_time cr (cr_iso cr t) = Some t"
    and "ci_payload input = Some (JObj [(a, v), (b, w)])" "ci_expiresAt input = Some t" "now < t" "status \<noteq> DEV_REVOKED"
  shows "validateBridgeCommandForDevice (cr\<lparr>cr_lc := lc'\<rparr>) seen status
    (createBridgeCommandEnvelope (cr\<lparr>cr_lc := lc\<rparr>) clock uuid1 uuid2 input) (ci_bridgeDeviceId input) now secret
    = PAYLOAD_CHANGED"
proof -
  let ?p = "JObj [(a, v), (b, w)]"
  have "a \<noteq> b" using collationD(1)[OF assms(1), of a b] assms(3) by auto
  then have "canon lc ?p \<noteq> canon lc' ?p"
    using sort_two[OF assms(1), of a b "canon lc v" "canon lc w"] sort_two[OF assms(2), of a b "canon lc' v" "canon lc' w"]
      assms(3,4) by (simp add: canon_obj canon_field_def del: canon.simps(2))
  then have "stableStringify lc' ?p \<noteq> stableStringify lc ?p"
    using render_prefix_free[of "canon lc ?p" "[]" "canon lc' ?p" "[]"] by (auto simp: stableStringify_render)
  then have "hashBridgeCommandPayload (cr_sha cr) lc' ?p \<noteq> hashBridgeCommandPayload (cr_sha cr) lc ?p"
    using assms(5) by (auto simp: hashBridgeCommandPayload_def simp del: stableStringify.simps)
  with assms(6-10) show ?thesis
    by (simp add: validateBridgeCommandForDevice_def createBridgeCommandEnvelope_def Let_def unsigned_envelope.defs
      bridgeCommandIsExpired_def)
qed

theorem locale_changes_payload_hash_witness:
  "validateBridgeCommandForDevice (sample_platform\<lparr>cr_lc := ranked estonian_rank\<rparr>) {} ONLINE
    (createBridgeCommandEnvelope (sample_platform\<lparr>cr_lc := ranked root_rank\<rparr>) 0 ''u1'' ''u2''
      (sample_input\<lparr>ci_payload := Some (JObj [(''type'', JNum 2), (''zone'', JNum 1)])\<rparr>))
    (ci_bridgeDeviceId (sample_input\<lparr>ci_payload := Some (JObj [(''type'', JNum 2), (''zone'', JNum 1)])\<rparr>)) 5 ''s''
    = PAYLOAD_CHANGED"
proof (rule locale_changes_payload_hash[OF sample_collations])
  show "ranked root_rank ''type'' ''zone'' < 0" "0 < ranked estonian_rank ''type'' ''zone''"
    by (simp_all add: ranked_def root_rank_def estonian_rank_def)
  show "cr_sha sample_platform x = cr_sha sample_platform y \<Longrightarrow> x = y" for x y by (simp add: sample_platform_def)
  show "cr_time sample_platform (cr_iso sample_platform t) = Some t" for t
    by (simp add: sample_platform_def read_dec_int)
  show "ci_payload (sample_input\<lparr>ci_payload := Some (JObj [(''type'', JNum 2), (''zone'', JNum 1)])\<rparr>) =
    Some (JObj [(''type'', JNum 2), (''zone'', JNum 1)])" by simp
  show "ci_expiresAt (sample_input\<lparr>ci_payload := Some (JObj [(''type'', JNum 2), (''zone'', JNum 1)])\<rparr>) = Some 9"
    by (simp add: sample_input_def)
qed simp_all

section \<open>Device requests\<close>

text \<open>
  C30. A signed device request: with a signature scheme that accepts the signed text and
  refuses the other, the server accepts a request (its fields without line feeds) if and only if device, method up to
  case, path, timestamp and nonce are the signed ones and the body has the same hash.
\<close>
theorem device_request_verified_iff:
  assumes "\<And>m m'. m = canonicalBridgeRequest sha p \<Longrightarrow> m' = canonicalBridgeRequest sha q \<Longrightarrow>
      verify pub m' (sign priv m) = Some (m' = m)"
    and "one_line p" "one_line q"
  shows "verifyBridgeDeviceRequestSignature sha verify q pub (signBridgeDeviceRequest sha sign p priv) \<longleftrightarrow>
    same_request sha p q"
proof
  assume "verifyBridgeDeviceRequestSignature sha verify q pub (signBridgeDeviceRequest sha sign p priv)"
  then have "canonicalBridgeRequest sha p = canonicalBridgeRequest sha q"
    by (simp add: verifyBridgeDeviceRequestSignature_def signBridgeDeviceRequest_def assms(1))
  then show "same_request sha p q" by (rule request_text.binds[OF assms(2,3)])
next
  assume "same_request sha p q"
  then show "verifyBridgeDeviceRequestSignature sha verify q pub (signBridgeDeviceRequest sha sign p priv)"
    by (simp add: verifyBridgeDeviceRequestSignature_def signBridgeDeviceRequest_def assms(1) same_request_def
      canonicalBridgeRequest_def)
qed

definition sample_request :: signed_request where
  "sample_request = \<lparr>rq_bodyText = None, rq_bridgeDeviceId = ''d'', rq_method = ''get'', rq_nonce = ''n'',
     rq_pathname = ''/p'', rq_timestamp = ''t''\<rparr>"

definition sample_sign :: "unit \<Rightarrow> string \<Rightarrow> string" where "sample_sign k m = m"
definition sample_verify :: "unit \<Rightarrow> string \<Rightarrow> string \<Rightarrow> bool option" where "sample_verify k m s = Some (m = s)"

theorem device_request_verified_iff_witness:
  "verifyBridgeDeviceRequestSignature id sample_verify (sample_request\<lparr>rq_method := ''GET''\<rparr>) ()
     (signBridgeDeviceRequest id sample_sign sample_request ()) \<and>
   \<not> verifyBridgeDeviceRequestSignature id sample_verify (sample_request\<lparr>rq_pathname := ''/q''\<rparr>) ()
     (signBridgeDeviceRequest id sample_sign sample_request ())"
proof -
  have l: "one_line sample_request" "one_line (sample_request\<lparr>rq_method := ''GET''\<rparr>)"
    "one_line (sample_request\<lparr>rq_pathname := ''/q''\<rparr>)"
    by (simp_all add: one_line_def sample_request_def)
  have s: "same_request id sample_request (sample_request\<lparr>rq_method := ''GET''\<rparr>)"
    "\<not> same_request id sample_request (sample_request\<lparr>rq_pathname := ''/q''\<rparr>)"
    by code_simp+
  have a: "verifyBridgeDeviceRequestSignature id sample_verify q () (signBridgeDeviceRequest id sample_sign sample_request ()) \<longleftrightarrow>
      same_request id sample_request q" if "one_line q" for q
    by (rule device_request_verified_iff[OF _ l(1) that]) (simp add: sample_verify_def sample_sign_def)
  show ?thesis using a[OF l(2)] a[OF l(3)] s by simp
qed

section \<open>Pairing codes\<close>

lemma pairing_character_upper:
  "is_alphanumeric (pairing_character b) \<and> to_upper [pairing_character b] = [pairing_character b]"
proof -
  have "\<forall>i \<in> set [0..<32]. is_alphanumeric (pairingAlphabet ! i) \<and> to_upper [pairingAlphabet ! i] = [pairingAlphabet ! i]"
    by code_simp
  moreover have "b mod length pairingAlphabet < 32" by (simp add: pairingAlphabet_def)
  ultimately show ?thesis by (simp add: pairing_character_def)
qed

lemma normalize_plain: "normalizePairingCode (createPlainPairingCode bytes) = map pairing_character bytes"
proof -
  have a: "filter is_alphanumeric (map pairing_character bs) = map pairing_character bs" for bs
    by (induction bs) (simp_all add: pairing_character_upper)
  have u: "to_upper (map pairing_character bs) = map pairing_character bs" for bs
    using pairing_character_upper by (induction bs) (auto simp: to_upper_def)
  have "filter is_alphanumeric (createPlainPairingCode bytes) = map pairing_character bytes"
    by (simp add: createPlainPairingCode_def Let_def take_map drop_map a is_alphanumeric_def
      flip: map_append)
  then show ?thesis by (simp add: normalizePairingCode_def u)
qed

text \<open>
  A pairing code: whatever the person types is accepted if and only if, hyphens, blanks and
  case aside, it is the code that was made from the random bytes, the person is the one it was
  made for, it is unused, less than ten minutes have passed, and the device sends a public key and
  a version; otherwise the first failing test names the error (unless the code's digest collides).
\<close>
theorem pairing_code_verdict:
  assumes "hmac secret (normalizePairingCode (rd_pairingCode input)) = hmac secret (map pairing_character bytes) \<Longrightarrow>
      normalizePairingCode (rd_pairingCode input) = map pairing_character bytes"
    and "rd_pairingSecret input = secret"
    and "rd_codeHash input = pc_codeHash (createPairingCode hmac bytes secret created)"
    and "rd_expiresAt input = Some (pc_expiresAt (createPairingCode hmac bytes secret created))"
  shows "validatePairingRedemption hmac input now =
    (if rd_actorUserId input \<noteq> rd_expectedUserId input then WRONG_USER
     else if rd_status input \<noteq> CODE_ACTIVE then PAIRING_CODE_USED
     else if created + 600000 \<le> now then PAIRING_CODE_EXPIRED
     else if normalizePairingCode (rd_pairingCode input) \<noteq> map pairing_character bytes then PAIRING_CODE_MISMATCH
     else if \<not> has_substring (rd_publicKey input) ''PUBLIC KEY'' then PUBLIC_KEY_REQUIRED
     else if trim (rd_appVersion input) = [] then APP_VERSION_REQUIRED
     else PAIRING_ALLOWED)"
  using assms
  by (auto simp: validatePairingRedemption_def createPairingCode_def Let_def hashPairingCode_def normalize_plain
    isPairingCodeExpired_def pairingCodeTtlMs_def)

definition sample_redemption :: redemption where
  "sample_redemption = \<lparr>rd_actorUserId = ''u'', rd_appVersion = ''1.0.0'', rd_codeHash = ''ABCDEFGH'',
     rd_expectedUserId = ''u'', rd_expiresAt = Some 600000, rd_pairingCode = ''abcd efgh'', rd_pairingSecret = ''s'',
     rd_publicKey = ''PUBLIC KEY'', rd_status = CODE_ACTIVE\<rparr>"

theorem pairing_code_verdict_witness:
  "validatePairingRedemption (\<lambda>secret text. text) sample_redemption 5 = PAIRING_ALLOWED"
proof (subst pairing_code_verdict[where secret = "''s''" and bytes = "[0, 1, 2, 3, 4, 5, 6, 7]" and created = 0])
  show "rd_codeHash sample_redemption = pc_codeHash (createPairingCode (\<lambda>secret text. text) [0, 1, 2, 3, 4, 5, 6, 7] ''s'' 0)"
    "rd_expiresAt sample_redemption = Some (pc_expiresAt (createPairingCode (\<lambda>secret text. text) [0, 1, 2, 3, 4, 5, 6, 7] ''s'' 0))"
    by code_simp+
  have "normalizePairingCode ''abcd efgh'' = map pairing_character [0, 1, 2, 3, 4, 5, 6, 7]"
    "has_substring ''PUBLIC KEY'' ''PUBLIC KEY''" "trim ''1.0.0'' \<noteq> []"
    by code_simp+
  then show "(if rd_actorUserId sample_redemption \<noteq> rd_expectedUserId sample_redemption then WRONG_USER
     else if rd_status sample_redemption \<noteq> CODE_ACTIVE then PAIRING_CODE_USED
     else if 0 + 600000 \<le> (5 :: int) then PAIRING_CODE_EXPIRED
     else if normalizePairingCode (rd_pairingCode sample_redemption) \<noteq> map pairing_character [0, 1, 2, 3, 4, 5, 6, 7]
     then PAIRING_CODE_MISMATCH
     else if \<not> has_substring (rd_publicKey sample_redemption) ''PUBLIC KEY'' then PUBLIC_KEY_REQUIRED
     else if trim (rd_appVersion sample_redemption) = [] then APP_VERSION_REQUIRED
     else PAIRING_ALLOWED) = PAIRING_ALLOWED"
    by (simp add: sample_redemption_def)
qed (simp_all add: sample_redemption_def inj_def)

section \<open>Release versions\<close>

definition version_text :: "nat \<times> nat \<times> nat \<Rightarrow> string" where
  "version_text v = (case v of (a, b, c) \<Rightarrow> dec a @ CHR ''.'' # dec b @ CHR ''.'' # dec c)"

lemma trim_unpadded: "s \<noteq> [] \<Longrightarrow> \<not> js_ws (hd s) \<Longrightarrow> \<not> js_ws (last s) \<Longrightarrow> trim s = s"
  by (simp add: trim_def dropWhile_eq_self_iff[THEN iffD2] hd_rev)

lemma digit_plain: "is_digit c \<Longrightarrow> \<not> js_ws c \<and> c \<noteq> CHR ''.'' \<and> c \<noteq> CHR ''v''"
  by (auto simp: js_ws_def is_digit_def)

lemma dec_plain: "CHR ''.'' \<notin> set (dec n)" "\<not> js_ws (hd (dec n))" "\<not> js_ws (last (dec n))" "hd (dec n) \<noteq> CHR ''v''"
  using digit_plain[OF dec_digits, of _ n] by (auto simp: hd_in_set last_in_set)

lemma version_text_parse:
  assumes "p = [] \<or> p = ''v''"
  shows "parseBridgeReleaseVersion (p @ version_text (a, b, c)) =
    Some \<lparr>rv_major = a, rv_minor = b, rv_patch = c, rv_version = version_text (a, b, c)\<rparr>"
proof -
  have ws: "\<not> js_ws (CHR ''v'')" by (simp add: js_ws_def)
  have "trim (p @ version_text (a, b, c)) = p @ version_text (a, b, c)"
    using assms ws by (intro trim_unpadded) (auto simp: version_text_def dec_plain)
  moreover have "strip_v (p @ version_text (a, b, c)) = version_text (a, b, c)"
    using assms dec_plain(4)[of a] by (cases "dec a") (auto simp: strip_v_def version_text_def)
  moreover have "split_on (CHR ''.'') (version_text (a, b, c)) = [dec a, dec b, dec c]"
    by (simp add: version_text_def split_on_append split_on_plain dec_plain)
  ultimately show ?thesis
    by (simp add: parseBridgeReleaseVersion_def digits_def digits_dec) (simp add: version_text_def)
qed

text \<open>
  Release versions compare as numbers: a version text, with or without the letter v, is newer
  than another if and only if its three numbers are lexicographically greater; so 1.10.0 is newer
  than 1.9.3.
\<close>
theorem release_version_newer_iff:
  assumes "p = [] \<or> p = ''v''" "q = [] \<or> q = ''v''"
  shows "bridgeReleaseVersionIsNewer (p @ version_text x) (q @ version_text y) \<longleftrightarrow> y < x"
proof -
  obtain a b c a' b' c' where v: "x = (a, b, c)" "y = (a', b', c')" by (cases x; cases y) auto
  show ?thesis unfolding v
    by (auto simp: bridgeReleaseVersionIsNewer_def compareBridgeReleaseVersions_def version_text_parse[OF assms(1)]
      version_text_parse[OF assms(2)])
qed

theorem release_version_newer_iff_witness: "bridgeReleaseVersionIsNewer ''v1.10.0'' ''1.9.3''"
proof -
  have t: "''v1.10.0'' = ''v'' @ version_text (1, 10, 0)" "''1.9.3'' = [] @ version_text (1, 9, 3)"
    by code_simp+
  have "((1 :: nat), (9 :: nat), (3 :: nat)) < (1, 10, 0)" by simp
  then show ?thesis unfolding t by (subst release_version_newer_iff) simp_all
qed

end
