(* ===== verification/CommandRunner.thy ===== *)
theory CommandRunner
  imports Protocol
begin

text \<open>
  The desktop Bridge's side of the command queue (\<open>apps/bridge/src/main/command-runner.ts\<close>,
  \<open>command-journal.ts\<close>, \<open>command-outbox.ts\<close>): it fetches signed commands, keeps a journal of the
  physical ones, executes or recovers them, and reports the results through a durable outbox.

  Each durable write, read and request is one step, and luck decides how a step ends: it succeeds,
  is refused, takes effect although the caller sees an error (an answer that is lost, a rename
  whose sync fails), or the process dies before or after it. The operations a command starts are
  modelled in the theories of the local Bridge; here they are the \<open>host\<close>, as are the clock and the
  identity. The signals and timers of a bounded read are left to the host.
\<close>

section \<open>Device state\<close>

datatype luck = Lucky | Refused | Unanswered | DiedBefore | DiedAfter

datatype report_status = R_COMPLETED | R_FAILED | R_REJECTED

text \<open>A \<open>safeErrorCategory\<close>: the code of a Bridge error or one of the runner's own texts.\<close>

datatype category = Code error_code | EXPIRED_CATEGORY | CHANGED_CATEGORY | FAILED_CATEGORY

record command_report =
  rp_commandId :: string
  rp_result :: json
  rp_safeErrorCategory :: "category option"
  rp_status :: report_status

record pending_report =
  pr_queuedAt :: string
  pr_replayKey :: string
  pr_report :: command_report

datatype phase = PREPARED | STARTED

record journal_entry =
  je_command :: command_envelope
  je_delivered :: bool
  je_phase :: "phase option"

datatype journal_file = DamagedFile | JournalFile journal_entry

text \<open>
  \<open>dv_replay\<close> is the secret of the replay cache and \<open>dv_outbox\<close> the file of pending reports, \<open>None\<close>
  when its content cannot be read (absent content is the empty list). \<open>dv_attempts\<close> records, for
  the proofs, the physical commands whose execution began, \<open>dv_accepted\<close> the reports the
  server took, and \<open>dv_remembered\<close> the keys that the replay cache was given.
\<close>

record 'w device =
  dv_replay :: "string list option"
  dv_outbox :: "pending_report list option"
  dv_journal :: "(string \<times> journal_file) list"
  dv_history :: "(string \<times> journal_file) list"
  dv_attempts :: "string list"
  dv_accepted :: "string list"
  dv_remembered :: "string list"
  dv_world :: 'w
  dv_luck :: "luck list"

definition device_step :: "('w device \<Rightarrow> 'w device) \<Rightarrow> ('w device, unit) io" where
  "device_step f = (\<lambda>d. case dv_luck d of
      [] \<Rightarrow> (Ok (), f d)
    | l # ls \<Rightarrow>
        (let e = d\<lparr>dv_luck := ls\<rparr> in
         case l of Lucky \<Rightarrow> (Ok (), f e) | Refused \<Rightarrow> (Throw PlainError, e) | Unanswered \<Rightarrow> (Throw PlainError, f e)
         | DiedBefore \<Rightarrow> (Crashed, e) | DiedAfter \<Rightarrow> (Crashed, f e)))"

definition device_read :: "('w device \<Rightarrow> 'a) \<Rightarrow> ('w device, 'a) io" where
  "device_read f = io_bind (device_step id) (\<lambda>_. io_get f)"

definition on_world :: "('w, 'a) io \<Rightarrow> ('w device, 'a) io" where
  "on_world m = (\<lambda>d. case m (dv_world d) of (r, w) \<Rightarrow> (r, d\<lparr>dv_world := w\<rparr>))"

section \<open>What the runner asks of the host\<close>

datatype native_call =
    CallRegisterRoot "string option" partial_permissions string
  | CallScan string
  | CallStartWatcher string | CallPauseWatcher string | CallResumeWatcher string | CallStopWatcher string
  | CallRead string string bool
  | CallPreviewExecution string "json list"
  | CallExecute string "json list" int
  | CallPreviewUndo string "json list"
  | CallExecuteUndo string "json list" int
  | CallListEvents string
  | CallUpdateRoot string partial_permissions
  | CallDisconnect string

record 'w host =
  h_native :: "native_call \<Rightarrow> ('w, json) io"
  h_root :: "string \<Rightarrow> ('w, bridge_root) io"
  h_recover :: "string \<Rightarrow> json list \<Rightarrow> bool \<Rightarrow> bool \<Rightarrow> ('w, json) io"
  h_selectFolders :: "('w, json) io option"
  h_now :: "('w, int) io"
  h_crypto :: crypto

definition host_now :: "'w host \<Rightarrow> ('w device, int) io" where
  "host_now h = on_world (h_now h)"

definition host_call :: "'w host \<Rightarrow> native_call \<Rightarrow> ('w device, json) io" where
  "host_call h c = on_world (h_native h c)"

section \<open>The command journal\<close>

definition physical_type :: "command_type \<Rightarrow> bool" where
  "physical_type t \<longleftrightarrow> t = EXECUTE_PLAN \<or> t = EXECUTE_UNDO"

definition payload_hash :: "crypto \<Rightarrow> json \<Rightarrow> string" where
  "payload_hash cr payload = hashBridgeCommandPayload (cr_sha cr) (cr_lc cr) payload"

text \<open>The name of a command's file: \<open>target\<close> without its directory.\<close>

definition journal_target :: "crypto \<Rightarrow> string \<Rightarrow> string" where
  "journal_target cr commandId = cr_sha cr commandId @ ''.json''"

text \<open>A file of another shape (version, types of the fields) is a damaged one.\<close>

definition journal_entry_valid :: "crypto \<Rightarrow> journal_entry \<Rightarrow> bool" where
  "journal_entry_valid cr e \<longleftrightarrow> physical_type (env_commandType (je_command e)) \<and>
     payload_hash cr (env_payload (je_command e)) = env_payloadHash (je_command e)"

definition readJournal :: "crypto \<Rightarrow> (string \<times> journal_file) list \<Rightarrow> string \<Rightarrow> (exn, journal_entry option) result" where
  "readJournal cr files name = (case map_of files name of
      None \<Rightarrow> Inr None
    | Some DamagedFile \<Rightarrow> Inl PlainError
    | Some (JournalFile e) \<Rightarrow> if journal_entry_valid cr e then Inr (Some e) else Inl PlainError)"

definition journal_lookup :: "crypto \<Rightarrow> string \<Rightarrow> ('w device, journal_entry option) io" where
  "journal_lookup cr name = io_bind (device_read (\<lambda>d. readJournal cr (dv_journal d) name)) io_result"

definition history_lookup :: "crypto \<Rightarrow> string \<Rightarrow> ('w device, journal_entry option) io" where
  "history_lookup cr name = io_bind (device_read (\<lambda>d. readJournal cr (dv_history d) name)) io_result"

definition journal_write :: "crypto \<Rightarrow> journal_entry \<Rightarrow> ('w device, unit) io" where
  "journal_write cr e = device_step (\<lambda>d.
     d\<lparr>dv_journal := map_set (dv_journal d) (journal_target cr (env_commandId (je_command e))) (JournalFile e)\<rparr>)"

definition same_authority :: "command_envelope \<Rightarrow> command_envelope \<Rightarrow> bool" where
  "same_authority a b \<longleftrightarrow> env_payloadHash a = env_payloadHash b \<and> env_signature a = env_signature b"

definition preparePhysicalCommand :: "crypto \<Rightarrow> command_envelope \<Rightarrow> bool \<Rightarrow> ('w device, unit) io" where
  "preparePhysicalCommand cr command legacyReplay =
     (let name = journal_target cr (env_commandId command) in
      io_bind (journal_lookup cr name) (\<lambda>current.
      io_bind (case current of None \<Rightarrow> history_lookup cr name | Some e \<Rightarrow> io_return (Some e)) (\<lambda>existing.
      case existing of
        Some e \<Rightarrow> io_guard (same_authority (je_command e) command) PlainError
      | None \<Rightarrow> journal_write cr \<lparr>je_command = command, je_delivered = False,
          je_phase = (if legacyReplay then None else Some PREPARED)\<rparr>)))"

definition physicalCommandNeverStarted :: "crypto \<Rightarrow> command_envelope \<Rightarrow> ('w device, bool) io" where
  "physicalCommandNeverStarted cr command =
     io_bind (journal_lookup cr (journal_target cr (env_commandId command))) (\<lambda>entry.
     io_return (case entry of None \<Rightarrow> False
       | Some e \<Rightarrow> je_phase e = Some PREPARED \<and> same_authority (je_command e) command))"

definition markPhysicalCommandStarted :: "crypto \<Rightarrow> command_envelope \<Rightarrow> ('w device, unit) io" where
  "markPhysicalCommandStarted cr command =
     io_bind (journal_lookup cr (journal_target cr (env_commandId command))) (\<lambda>entry.
     case entry of
       None \<Rightarrow> io_throw PlainError
     | Some e \<Rightarrow>
         if same_authority (je_command e) command
         then device_step (\<lambda>d. d\<lparr>dv_journal := map_set (dv_journal d) (journal_target cr (env_commandId command))
                (JournalFile (e\<lparr>je_phase := Some STARTED\<rparr>))\<rparr>)
         else io_throw PlainError)"

definition move_to_history :: "string \<Rightarrow> 'w device \<Rightarrow> 'w device" where
  "move_to_history name d = (case map_of (dv_journal d) name of
      None \<Rightarrow> d
    | Some f \<Rightarrow> d\<lparr>dv_journal := filter (\<lambda>x. fst x \<noteq> name) (dv_journal d),
                   dv_history := map_set (dv_history d) name f\<rparr>)"

definition markPhysicalCommandDelivered :: "crypto \<Rightarrow> command_envelope \<Rightarrow> ('w device, unit) io" where
  "markPhysicalCommandDelivered cr command =
     io_bind (journal_write cr \<lparr>je_command = command, je_delivered = True, je_phase = None\<rparr>) (\<lambda>_.
     io_bind (device_step id) (\<lambda>_.
     io_bind (device_step (move_to_history (journal_target cr (env_commandId command)))) (\<lambda>_.
     io_bind (device_step id) (\<lambda>_. device_step id))))"

definition is_journal_name :: "string \<Rightarrow> bool" where
  "is_journal_name name \<longleftrightarrow> length name = 69 \<and> list_all (\<lambda>c. c \<in> set hex_digits) (take 64 name) \<and>
     drop 64 name = ''.json''"

fun collect_unfinished :: "crypto \<Rightarrow> string \<Rightarrow> string list \<Rightarrow> ('w device, command_envelope list) io" where
  "collect_unfinished cr deviceId [] = io_return []"
| "collect_unfinished cr deviceId (name # names) =
     (if \<not> is_journal_name name then collect_unfinished cr deviceId names
      else io_bind (journal_lookup cr name) (\<lambda>entry.
        io_bind (collect_unfinished cr deviceId names) (\<lambda>rest.
        io_return (case entry of
            None \<Rightarrow> rest
          | Some e \<Rightarrow> if \<not> je_delivered e \<and> env_bridgeDeviceId (je_command e) = deviceId then je_command e # rest
                       else rest))))"

definition unfinishedPhysicalCommands :: "crypto \<Rightarrow> string \<Rightarrow> ('w device, command_envelope list) io" where
  "unfinishedPhysicalCommands cr deviceId =
     io_bind (device_read (\<lambda>d. map fst (dv_journal d))) (\<lambda>names.
     collect_unfinished cr deviceId (sort_cmp code_unit_compare names))"

section \<open>The outbox of reports\<close>

definition or_damaged :: "'a option \<Rightarrow> (exn, 'a) result" where
  "or_damaged x = (case x of None \<Rightarrow> Inl PlainError | Some v \<Rightarrow> Inr v)"

definition loadBridgeCommandOutbox :: "('w device, pending_report list) io" where
  "loadBridgeCommandOutbox = io_bind (device_read (\<lambda>d. or_damaged (dv_outbox d))) io_result"

definition write_reports :: "pending_report list \<Rightarrow> ('w device, unit) io" where
  "write_reports entries = device_step (\<lambda>d. d\<lparr>dv_outbox := Some entries\<rparr>)"

definition other_reports :: "string \<Rightarrow> pending_report list \<Rightarrow> pending_report list" where
  "other_reports commandId entries = filter (\<lambda>item. rp_commandId (pr_report item) \<noteq> commandId) entries"

definition queueBridgeCommandReport :: "'w host \<Rightarrow> string \<Rightarrow> command_report \<Rightarrow> ('w device, unit) io" where
  "queueBridgeCommandReport h replayKey report =
     io_bind loadBridgeCommandOutbox (\<lambda>current.
     io_bind (host_now h) (\<lambda>now.
     write_reports (other_reports (rp_commandId report) current @
       [\<lparr>pr_queuedAt = cr_iso (h_crypto h) now, pr_replayKey = replayKey, pr_report = report\<rparr>])))"

definition removeBridgeCommandReport :: "string \<Rightarrow> ('w device, unit) io" where
  "removeBridgeCommandReport commandId =
     io_bind loadBridgeCommandOutbox (\<lambda>current.
     let rest = other_reports commandId current in
     io_when (length rest \<noteq> length current) (write_reports rest))"

section \<open>The replay cache\<close>

definition replayCacheLimit :: nat where "replayCacheLimit = 500"

definition loadReplayKeys :: "('w device, string list) io" where
  "loadReplayKeys = io_bind (device_read (\<lambda>d. or_damaged (dv_replay d))) io_result"

definition remembered :: "string \<Rightarrow> string list \<Rightarrow> string list" where
  "remembered key current =
     (let keys = filter (\<lambda>item. item \<noteq> key) current @ [key] in drop (length keys - replayCacheLimit) keys)"

definition rememberReplayKey :: "string \<Rightarrow> ('w device, unit) io" where
  "rememberReplayKey key =
     io_bind loadReplayKeys (\<lambda>current. device_step (\<lambda>d. d\<lparr>dv_replay := Some (remembered key current),
       dv_remembered := dv_remembered d @ [key]\<rparr>))"

section \<open>Reading a command\<close>

definition payloadObject :: "json \<Rightarrow> (string \<times> json) list" where
  "payloadObject payload = (case payload of JObj fs \<Rightarrow> fs | _ \<Rightarrow> [])"

definition privatePathKeys :: "string list" where
  "privatePathKeys = [''actualPath'', ''localPath'', ''rootPath'']"

text \<open>Dates and bigints are already texts in a JSON value.\<close>

fun jsonSafe :: "json \<Rightarrow> json" where
  "jsonSafe (JArr vs) = JArr (map jsonSafe vs)"
| "jsonSafe (JObj fs) = JObj (map (\<lambda>(k, v). (k, jsonSafe v)) (filter (\<lambda>(k, v). k \<notin> set privatePathKeys) fs))"
| "jsonSafe v = v"

definition requiredRootId :: "command_envelope \<Rightarrow> (exn, string) result" where
  "requiredRootId command =
     (let r = coalesce (env_bridgeRootId command) [] in
      if r = [] then Inl (BridgeAppError ROOT_REQUIRED 400) else Inr r)"

definition is_text :: "json option \<Rightarrow> bool" where
  "is_text v \<longleftrightarrow> (case v of Some (JStr s) \<Rightarrow> True | _ \<Rightarrow> False)"

definition text_among :: "json option \<Rightarrow> string list \<Rightarrow> bool" where
  "text_among v options \<longleftrightarrow> (case v of Some (JStr s) \<Rightarrow> s \<in> set options | _ \<Rightarrow> False)"

definition array_items :: "json option \<Rightarrow> json list" where
  "array_items value = (case value of Some (JArr items) \<Rightarrow> items | _ \<Rightarrow> [])"

definition executionActions :: "json option \<Rightarrow> json list" where
  "executionActions value = filter (\<lambda>item. case item of
       JObj fs \<Rightarrow> is_text (map_of fs ''id'') \<and>
         text_among (map_of fs ''actionType'') [''CREATE_FOLDER'', ''MOVE_FILE'', ''RENAME_FILE'', ''MOVE_AND_RENAME_FILE''] \<and>
         is_text (map_of fs ''destinationRelativePath'')
     | _ \<Rightarrow> False) (array_items value)"

definition undoActions :: "json option \<Rightarrow> json list" where
  "undoActions value = filter (\<lambda>item. case item of
       JObj fs \<Rightarrow> is_text (map_of fs ''id'') \<and>
         text_among (map_of fs ''actionType'') [''REMOVE_FOLDER'', ''MOVE_FILE'', ''RENAME_FILE''] \<and>
         is_text (map_of fs ''sourceRelativePath'') \<and> is_text (map_of fs ''destinationRelativePath'')
     | _ \<Rightarrow> False) (array_items value)"

definition requiredExecutionActions :: "json option \<Rightarrow> (exn, json list) result" where
  "requiredExecutionActions value =
     (let actions = executionActions value in
      if actions = [] then Inl (BridgeAppError NO_VALID_ACTIONS 422) else Inr actions)"

definition requiredUndoActions :: "json option \<Rightarrow> (exn, json list) result" where
  "requiredUndoActions value =
     (let actions = undoActions value in
      if actions = [] then Inl (BridgeAppError NO_VALID_UNDO_ACTIONS 422) else Inr actions)"

definition permissionPatch :: "(string \<times> json) list \<Rightarrow> partial_permissions" where
  "permissionPatch payload =
     (\<lambda>k. case map_of payload (permission_key_name k) of Some (JBool b) \<Rightarrow> Some b | _ \<Rightarrow> None)"

definition patch_names :: "permission_key list" where
  "patch_names = [ReadPermission, WatchPermission, RecommendationPermission, OrganizationPlanPermission,
     CreateFolderPermission, MoveFilePermission, RenameFilePermission]"

definition requiredPermissionPatch :: "(string \<times> json) list \<Rightarrow> (exn, partial_permissions) result" where
  "requiredPermissionPatch payload =
     (let permissions = permissionPatch payload in
      if list_all (\<lambda>k. permissions k = None) patch_names then Inl (BridgeAppError NO_PERMISSION_CHANGES 422)
      else if permissions ReadPermission = Some False then Inr (permissions(WatchPermission := Some False))
      else Inr permissions)"

section \<open>Executing a command\<close>

definition authorised_revision :: "command_envelope \<Rightarrow> json option" where
  "authorised_revision command = map_of (payloadObject (env_authorizationContext command)) ''rootConnectionRevision''"

text \<open>
  A command for a folder belongs to the connection of the folder it was made for; a command
  without a revision belongs to a folder that has none.
\<close>

definition stale_connection :: "json option \<Rightarrow> nat option \<Rightarrow> bool" where
  "stale_connection revision connection \<longleftrightarrow>
     revision \<noteq> Some (JNum (int (coalesce connection 0))) \<and> \<not> (revision = None \<and> coalesce connection 0 = 0)"

definition checkConnection :: "'w host \<Rightarrow> command_envelope \<Rightarrow> ('w device, unit) io" where
  "checkConnection h command =
     (let rootId = coalesce (env_bridgeRootId command) [] in
      io_when (rootId \<noteq> [] \<and> env_commandType command \<notin> {REGISTER_ROOT, SELECT_FOLDERS})
        (io_bind (on_world (h_root h rootId)) (\<lambda>root.
         io_guard (\<not> stale_connection (authorised_revision command) (connectionRevision root))
           (BridgeAppError ROOT_CONNECTION_CHANGED 409))))"

definition revision_number :: "command_envelope \<Rightarrow> int" where
  "revision_number command = (case authorised_revision command of Some (JNum n) \<Rightarrow> n | _ \<Rightarrow> 0)"

definition text_or :: "string \<Rightarrow> json option \<Rightarrow> string" where
  "text_or d v = (case v of Some (JStr s) \<Rightarrow> s | _ \<Rightarrow> d)"

definition ends_with :: "string \<Rightarrow> string \<Rightarrow> bool" where
  "ends_with s e \<longleftrightarrow> starts_with (rev s) (rev e)"

text \<open>\<open>/\\.(?:txt|md|markdown|html|htm)$/iu\<close>\<close>

definition plain_text_name :: "string \<Rightarrow> bool" where
  "plain_text_name name \<longleftrightarrow>
     list_ex (\<lambda>e. ends_with (to_lower name) e) [''.txt'', ''.md'', ''.markdown'', ''.html'', ''.htm'']"

definition on_root :: "'w host \<Rightarrow> command_envelope \<Rightarrow> (string \<Rightarrow> native_call) \<Rightarrow> ('w device, json) io" where
  "on_root h command f = io_bind (io_result (requiredRootId command)) (\<lambda>rootId. host_call h (f rootId))"

definition on_root_actions ::
  "'w host \<Rightarrow> command_envelope \<Rightarrow> (exn, json list) result \<Rightarrow> (string \<Rightarrow> json list \<Rightarrow> native_call) \<Rightarrow> ('w device, json) io" where
  "on_root_actions h command actions f =
     io_bind (io_result (requiredRootId command)) (\<lambda>rootId.
     io_bind (io_result actions) (\<lambda>as. host_call h (f rootId as)))"

definition updatePermissions :: "'w host \<Rightarrow> command_envelope \<Rightarrow> (string \<times> json) list \<Rightarrow> ('w device, json) io" where
  "updatePermissions h command payload =
     io_bind (io_result (requiredRootId command)) (\<lambda>rootId.
     io_bind (io_result (requiredPermissionPatch payload)) (\<lambda>permissions.
     io_bind (host_call h (CallUpdateRoot rootId permissions)) (\<lambda>root.
     if map_of (payloadObject root) ''watchPermission'' \<noteq> Some (JBool True) \<or> permissions ReadPermission = Some False
     then host_call h (CallStopWatcher rootId) else io_return root)))"

definition performCommand :: "'w host \<Rightarrow> command_envelope \<Rightarrow> ('w device, json) io" where
  "performCommand h command =
     (let payload = payloadObject (env_payload command) in
      case env_commandType command of
        SELECT_FOLDERS \<Rightarrow> (case h_selectFolders h of
            None \<Rightarrow> io_throw (BridgeAppError LOCAL_INTERACTION_REQUIRED 409)
          | Some select \<Rightarrow> on_world select)
      | REGISTER_ROOT \<Rightarrow> host_call h (CallRegisterRoot
            (case map_of payload ''displayName'' of Some (JStr s) \<Rightarrow> Some s | _ \<Rightarrow> None)
            (permissionPatch payload) (text_or [] (map_of payload ''selectionToken'')))
      | SCAN_LIBRARY \<Rightarrow> on_root h command CallScan
      | START_WATCHING \<Rightarrow> on_root h command CallStartWatcher
      | PAUSE_WATCHING \<Rightarrow> on_root h command CallPauseWatcher
      | RESUME_WATCHING \<Rightarrow> on_root h command CallResumeWatcher
      | STOP_WATCHING \<Rightarrow> on_root h command CallStopWatcher
      | READ_FILE_TEMPORARILY \<Rightarrow>
          (let relativePath = text_or [] (map_of payload ''relativePath'') in
           on_root h command (\<lambda>rootId. CallRead rootId relativePath (plain_text_name relativePath)))
      | PREVIEW_EXECUTION \<Rightarrow>
          on_root_actions h command (requiredExecutionActions (map_of payload ''actions'')) CallPreviewExecution
      | EXECUTE_PLAN \<Rightarrow>
          on_root_actions h command (requiredExecutionActions (map_of payload ''actions''))
            (\<lambda>rootId actions. CallExecute rootId actions (revision_number command))
      | PREVIEW_UNDO \<Rightarrow>
          on_root_actions h command (requiredUndoActions (map_of payload ''actions'')) CallPreviewUndo
      | EXECUTE_UNDO \<Rightarrow>
          on_root_actions h command (requiredUndoActions (map_of payload ''actions''))
            (\<lambda>rootId actions. CallExecuteUndo rootId actions (revision_number command))
      | RECONCILE_LIBRARY \<Rightarrow>
          io_bind (io_result (requiredRootId command)) (\<lambda>rootId.
          io_bind (host_call h (CallScan rootId)) (\<lambda>scan.
          io_bind (host_call h (CallListEvents rootId)) (\<lambda>events.
          io_return (JObj [(''events'', events), (''scan'', scan)]))))
      | UPDATE_ROOT_PERMISSIONS \<Rightarrow> updatePermissions h command payload
      | REVOKE_ROOT_ACCESS \<Rightarrow>
          io_bind (io_result (requiredRootId command)) (\<lambda>rootId.
          io_bind (io_catch (host_call h (CallStopWatcher rootId)) (\<lambda>_. io_return JNull)) (\<lambda>_.
          host_call h (CallDisconnect rootId))))"

definition executeCommand :: "'w host \<Rightarrow> command_envelope \<Rightarrow> ('w device, json) io" where
  "executeCommand h command = io_bind (checkConnection h command) (\<lambda>_. performCommand h command)"

text \<open>The call of \<open>recoverBridgePhysicalActions\<close> for a physical command.\<close>

definition recoverCommand :: "'w host \<Rightarrow> command_envelope \<Rightarrow> bool \<Rightarrow> ('w device, json) io" where
  "recoverCommand h command neverStarted =
     (let actions = map_of (payloadObject (env_payload command)) ''actions'' in
      io_bind (io_result (requiredRootId command)) (\<lambda>rootId.
      io_bind (io_result (if env_commandType command = EXECUTE_PLAN then requiredExecutionActions actions
                          else requiredUndoActions actions)) (\<lambda>as.
      on_world (h_recover h rootId as (env_commandType command = EXECUTE_UNDO) neverStarted))))"

section \<open>Reports\<close>

definition reportBridgeCommand :: "command_report \<Rightarrow> ('w device, unit) io" where
  "reportBridgeCommand report = device_step (\<lambda>d. d\<lparr>dv_accepted := dv_accepted d @ [rp_commandId report]\<rparr>)"

definition acknowledgeBridgeCommand :: "string \<Rightarrow> ('w device, unit) io" where
  "acknowledgeBridgeCommand commandId = device_step id"

definition submitPersistedReport :: "'w host \<Rightarrow> string \<Rightarrow> command_report \<Rightarrow> ('w device, bool) io" where
  "submitPersistedReport h replayKey report =
     io_bind (queueBridgeCommandReport h replayKey report) (\<lambda>_.
     io_catch
       (io_bind (reportBridgeCommand report) (\<lambda>_.
        io_bind (removeBridgeCommandReport (rp_commandId report)) (\<lambda>_. io_return True)))
       (\<lambda>_. io_return False))"

fun flush_reports :: "pending_report list \<Rightarrow> ('w device, string list) io" where
  "flush_reports [] = io_return []"
| "flush_reports (item # items) =
     (let commandId = rp_commandId (pr_report item) in
      io_bind (io_catch
          (io_bind (reportBridgeCommand (pr_report item)) (\<lambda>_.
           io_bind (removeBridgeCommandReport commandId) (\<lambda>_.
           io_bind (rememberReplayKey (pr_replayKey item)) (\<lambda>_. io_return [commandId]))))
          (\<lambda>_. io_return [])) (\<lambda>delivered.
      io_bind (flush_reports items) (\<lambda>rest. io_return (delivered @ rest))))"

definition flushPendingReports :: "('w device, string list) io" where
  "flushPendingReports = io_bind loadBridgeCommandOutbox flush_reports"

definition ignoring :: "('w, 'a) io \<Rightarrow> ('w, unit) io" where
  "ignoring m = io_catch (io_bind m (\<lambda>_. io_return ())) (\<lambda>_. io_return ())"

definition rejectCommand :: "'w host \<Rightarrow> command_envelope \<Rightarrow> category \<Rightarrow> string \<Rightarrow> ('w device, unit) io" where
  "rejectCommand h command safeErrorCategory replayKey =
     io_bind (ignoring (acknowledgeBridgeCommand (env_commandId command))) (\<lambda>_.
     io_bind (submitPersistedReport h replayKey
       \<lparr>rp_commandId = env_commandId command, rp_result = JNull, rp_safeErrorCategory = Some safeErrorCategory,
        rp_status = R_REJECTED\<rparr>) (\<lambda>_. io_return ()))"

section \<open>The loop\<close>

definition expired_now :: "'w host \<Rightarrow> command_envelope \<Rightarrow> ('w device, bool) io" where
  "expired_now h command =
     io_bind (host_now h) (\<lambda>now. io_return (bridgeCommandIsExpired (cr_time (h_crypto h) (env_expiresAt command)) now))"

definition wants_recovery :: "json \<Rightarrow> bool" where
  "wants_recovery result \<longleftrightarrow> map_of (payloadObject result) ''status'' = Some (JStr ''RECOVERY_REQUIRED'')"

definition completed_report :: "command_envelope \<Rightarrow> json \<Rightarrow> command_report" where
  "completed_report command result =
     \<lparr>rp_commandId = env_commandId command, rp_result = jsonSafe result,
      rp_safeErrorCategory = (if wants_recovery (jsonSafe result) then Some (Code COMMAND_RECOVERY_REQUIRED) else None),
      rp_status = R_COMPLETED\<rparr>"

definition report_category :: "exn \<Rightarrow> category" where
  "report_category e = (case e of BridgeAppError code _ \<Rightarrow> Code code | _ \<Rightarrow> FAILED_CATEGORY)"

definition failed_report :: "command_envelope \<Rightarrow> exn \<Rightarrow> json option \<Rightarrow> command_report" where
  "failed_report command e recovered =
     \<lparr>rp_commandId = env_commandId command, rp_result = (case recovered of None \<Rightarrow> JNull | Some r \<Rightarrow> jsonSafe r),
      rp_safeErrorCategory = Some (if (case recovered of None \<Rightarrow> False | Some r \<Rightarrow> wants_recovery r)
        then Code COMMAND_RECOVERY_REQUIRED else report_category e),
      rp_status = R_FAILED\<rparr>"

definition note_attempt :: "bool \<Rightarrow> string \<Rightarrow> ('w device, unit) io" where
  "note_attempt physical commandId =
     (\<lambda>d. (Ok (), if physical then d\<lparr>dv_attempts := dv_attempts d @ [commandId]\<rparr> else d))"

text \<open>The \<open>try\<close> block: a first attempt, or recovery only.\<close>

definition attemptCommand :: "'w host \<Rightarrow> bool \<Rightarrow> bool \<Rightarrow> bool \<Rightarrow> command_envelope \<Rightarrow> ('w device, command_report) io" where
  "attemptCommand h admitted historicalPhysical replayed command =
     (let cr = h_crypto h; physical = physical_type (env_commandType command) in
      io_bind (if physical then physicalCommandNeverStarted cr command else io_return False) (\<lambda>neverStarted.
      io_bind (if physical then expired_now h command else io_return False) (\<lambda>expired.
      let historicalOnly = physical \<and> (\<not> admitted \<or> expired \<or> replayed \<or> (historicalPhysical \<and> \<not> neverStarted)) in
      io_bind (io_when (physical \<and> \<not> historicalOnly) (markPhysicalCommandStarted cr command)) (\<lambda>_.
      io_bind (if historicalOnly then recoverCommand h command neverStarted
               else io_bind (note_attempt physical (env_commandId command)) (\<lambda>_. executeCommand h command)) (\<lambda>result.
      io_return (completed_report command result))))))"

definition recoverFailed :: "'w host \<Rightarrow> command_envelope \<Rightarrow> exn \<Rightarrow> ('w device, command_report) io" where
  "recoverFailed h command e =
     (if physical_type (env_commandType command)
      then io_bind (recoverCommand h command False) (\<lambda>r. io_return (failed_report command e (Some r)))
      else io_return (failed_report command e None))"

definition acknowledge_or_rethrow :: "bool \<Rightarrow> command_envelope \<Rightarrow> ('w device, bool) io" where
  "acknowledge_or_rethrow historicalPhysical command =
     io_catch (io_bind (acknowledgeBridgeCommand (env_commandId command)) (\<lambda>_. io_return True))
       (\<lambda>e. if physical_type (env_commandType command) \<and> historicalPhysical then io_return False else io_throw e)"

text \<open>\<open>replayKeys\<close> is the set the loop carries: a command that is not physical adds its key.\<close>

definition admitCommand :: "'w host \<Rightarrow> bool \<Rightarrow> string list \<Rightarrow> command_envelope \<Rightarrow> ('w device, string list \<times> command_report option) io" where
  "admitCommand h historicalPhysical replayKeys command =
     (let cr = h_crypto h; replayKey = createBridgeCommandReplayKey command;
          physical = physical_type (env_commandType command) in
      io_bind (if physical then preparePhysicalCommand cr command (replayKey \<in> set replayKeys)
               else rememberReplayKey replayKey) (\<lambda>_.
      let keys = (if physical then replayKeys else replayKey # replayKeys) in
      io_bind (acknowledge_or_rethrow historicalPhysical command) (\<lambda>admitted.
      io_bind (io_catch (attemptCommand h admitted historicalPhysical (replayKey \<in> set keys) command)
          (recoverFailed h command)) (\<lambda>report.
      io_bind (submitPersistedReport h replayKey report) (\<lambda>delivered.
      io_bind (io_when (physical \<and> delivered \<and> rp_safeErrorCategory report \<noteq> Some (Code COMMAND_RECOVERY_REQUIRED))
          (io_bind (markPhysicalCommandDelivered cr command) (\<lambda>_. rememberReplayKey replayKey))) (\<lambda>_.
      io_return (keys, Some report)))))))"

definition processCommand ::
  "'w host \<Rightarrow> string \<Rightarrow> string list \<Rightarrow> string list \<Rightarrow> string list \<Rightarrow> string list \<Rightarrow> command_envelope
    \<Rightarrow> ('w device, string list \<times> command_report option) io" where
  "processCommand h bridgeDeviceId delivered historicalIds pending replayKeys command =
     (let cr = h_crypto h; replayKey = createBridgeCommandReplayKey command; commandId = env_commandId command;
          historicalPhysical = commandId \<in> set historicalIds;
          reject = \<lambda>c. io_bind (ignoring (rejectCommand h command c replayKey)) (\<lambda>_. io_return (replayKeys, None)) in
      if env_bridgeDeviceId command \<noteq> bridgeDeviceId \<or> commandId \<in> set delivered \<or> commandId \<in> set pending
      then io_return (replayKeys, None)
      else io_bind (expired_now h command) (\<lambda>expired.
        if expired \<and> \<not> historicalPhysical then reject EXPIRED_CATEGORY
        else if payload_hash cr (env_payload command) \<noteq> env_payloadHash command then reject CHANGED_CATEGORY
        else if replayKey \<in> set replayKeys \<and> \<not> physical_type (env_commandType command)
        then reject (Code COMMAND_RECOVERY_REQUIRED)
        else admitCommand h historicalPhysical replayKeys command))"

fun processCommands ::
  "'w host \<Rightarrow> string \<Rightarrow> string list \<Rightarrow> string list \<Rightarrow> string list \<Rightarrow> string list \<Rightarrow> command_envelope list
    \<Rightarrow> ('w device, command_report list) io" where
  "processCommands h dev delivered historicalIds pending replayKeys [] = io_return []"
| "processCommands h dev delivered historicalIds pending replayKeys (command # commands) =
     io_bind (processCommand h dev delivered historicalIds pending replayKeys command) (\<lambda>(keys, report).
     io_bind (processCommands h dev delivered historicalIds pending keys commands) (\<lambda>reports.
     io_return (case report of None \<Rightarrow> reports | Some r \<Rightarrow> r # reports)))"

text \<open>\<open>[...new Map(list.map((c) => [c.commandId, c])).values()]\<close>: first position, last value.\<close>

definition by_command_id :: "command_envelope list \<Rightarrow> command_envelope list" where
  "by_command_id cs = map snd (fold (\<lambda>c m. map_set m (env_commandId c) c) cs [])"

text \<open>
  \<open>server\<close> is what the server offers, given the reports it has taken; \<open>identity\<close> the device id of a
  complete pairing.
\<close>

definition processPendingBridgeCommands ::
  "'w host \<Rightarrow> string option \<Rightarrow> (string list \<Rightarrow> command_envelope list) \<Rightarrow> ('w device, command_report list) io" where
  "processPendingBridgeCommands h identity server =
     (case identity of None \<Rightarrow> io_return []
      | Some bridgeDeviceId \<Rightarrow>
          io_bind flushPendingReports (\<lambda>delivered.
          io_bind (unfinishedPhysicalCommands (h_crypto h) bridgeDeviceId) (\<lambda>historical.
          io_bind (io_catch (device_read (\<lambda>d. server (dv_accepted d)))
              (\<lambda>e. if historical \<noteq> [] then io_return [] else io_throw e)) (\<lambda>fetched.
          let commands = by_command_id (historical @ fetched) in
          io_bind loadReplayKeys (\<lambda>replayKeys.
          io_bind loadBridgeCommandOutbox (\<lambda>outbox.
          processCommands h bridgeDeviceId delivered (map env_commandId historical)
            (map (\<lambda>item. rp_commandId (pr_report item)) outbox) replayKeys commands))))))"

end
