(* ===== verification/CommandRunnerFacts.thy ===== *)
theory CommandRunnerFacts
  imports CommandRunner
begin

text \<open>
  What the queue of commands guarantees however its steps end: a physical command begins at most
  once, its journal entry stays until the server has its report, the replay cache is bounded, and
  no report carries a local path.
\<close>

section \<open>Steps\<close>

lemma triple_step:
  assumes "\<And>d. P d \<Longrightarrow> Q () (f d)" "\<And>d. P d \<Longrightarrow> R (f d)" "\<And>d. P d \<Longrightarrow> R d"
    and "\<And>d ls. P d \<Longrightarrow> P (d\<lparr>dv_luck := ls\<rparr>)"
  shows "triple P (device_step f) Q R"
proof (rule tripleI)
  fix d assume P: "P d"
  show "post Q R (device_step f d)"
  proof (cases "dv_luck d")
    case Nil
    with P assms(1) show ?thesis by (simp add: device_step_def)
  next
    case (Cons l ls)
    note P' = assms(4)[OF P, of ls]
    show ?thesis using assms(1,2)[OF P'] assms(3)[OF P'] Cons by (cases l) (simp_all add: device_step_def)
  qed
qed

text \<open>
  Assertions about the journal, the attempts and the accepted reports; every other step of the
  runner leaves those alone.
\<close>

definition same_record :: "'w device \<Rightarrow> 'w device \<Rightarrow> bool" where
  "same_record d d' \<longleftrightarrow> dv_journal d' = dv_journal d \<and> dv_attempts d' = dv_attempts d \<and> dv_accepted d' = dv_accepted d"

definition about_record :: "('w device \<Rightarrow> bool) \<Rightarrow> bool" where
  "about_record P \<longleftrightarrow> (\<forall>d d'. same_record d d' \<longrightarrow> P d \<longrightarrow> P d')"

definition unrecorded :: "('w device, 'a) io \<Rightarrow> bool" where
  "unrecorded m \<longleftrightarrow> (\<forall>P. about_record P \<longrightarrow> triple P m (\<lambda>_. P) P)"

lemma unrecordedI:
  fixes m :: "('w device, 'a) io"
  assumes "\<And>d. same_record d (snd (m d))"
  shows "unrecorded m"
  unfolding unrecorded_def
proof (intro allI impI tripleI)
  fix P :: "'w device \<Rightarrow> bool" and d
  assume "about_record P" "P d"
  with assms[of d] have "P (snd (m d))" unfolding about_record_def by blast
  then show "post (\<lambda>_. P) P (m d)" by (cases "m d"; cases "fst (m d)") auto
qed

lemma unrecordedD: "unrecorded m \<Longrightarrow> about_record P \<Longrightarrow> triple P m (\<lambda>_. P) P"
  by (simp add: unrecorded_def)

lemma unrecorded_step: "(\<And>d. same_record d (f d)) \<Longrightarrow> unrecorded (device_step f)"
proof (rule unrecordedI)
  fix d assume f: "\<And>d. same_record d (f d)"
  show "same_record d (snd (device_step f d))"
  proof (cases "dv_luck d")
    case (Cons l ls)
    then show ?thesis using f[of "d\<lparr>dv_luck := ls\<rparr>"] by (cases l) (auto simp: device_step_def same_record_def)
  qed (simp add: device_step_def f)
qed

lemma unrecorded_return [keeps]: "unrecorded (io_return x)"
  and unrecorded_throw [keeps]: "unrecorded (io_throw e)"
  and unrecorded_get [keeps]: "unrecorded (io_get g)"
  by (auto intro!: unrecordedI simp: io_return_def io_throw_def io_get_def same_record_def)

lemma unrecorded_world [keeps]: "unrecorded (on_world m)"
  by (rule unrecordedI) (auto simp: on_world_def same_record_def split: prod.splits)

lemma unrecorded_bind [keeps]: "unrecorded m \<Longrightarrow> (\<And>x. unrecorded (f x)) \<Longrightarrow> unrecorded (io_bind m f)"
  unfolding unrecorded_def by (blast intro: triple_bind)

lemma unrecorded_catch [keeps]: "unrecorded m \<Longrightarrow> (\<And>e. unrecorded (g e)) \<Longrightarrow> unrecorded (io_catch m g)"
  unfolding unrecorded_def by (blast intro: triple_catch)

lemma unrecorded_if [keeps]: "(b \<Longrightarrow> unrecorded m) \<Longrightarrow> (\<not> b \<Longrightarrow> unrecorded n) \<Longrightarrow> unrecorded (if b then m else n)"
  by simp

lemma unrecorded_option [keeps]:
  "unrecorded m \<Longrightarrow> (\<And>x. unrecorded (f x)) \<Longrightarrow> unrecorded (case z of None \<Rightarrow> m | Some x \<Rightarrow> f x)"
  by (cases z) simp_all

lemma unrecorded_result [keeps]: "unrecorded (io_result r)"
  by (cases r) (simp_all add: io_result_def keeps)

lemma unrecorded_when [keeps]: "unrecorded m \<Longrightarrow> unrecorded (io_when b m)"
  by (simp add: io_when_def keeps)

lemma unrecorded_guard [keeps]: "unrecorded (io_guard b e)"
  by (simp add: io_guard_def keeps)

lemma unrecorded_id [keeps]: "unrecorded (device_step id)"
  by (rule unrecorded_step) (simp add: same_record_def)

lemma unrecorded_read [keeps]: "unrecorded (device_read f)"
  by (simp add: device_read_def keeps)

lemma unrecorded_files [keeps]:
  "unrecorded (write_reports entries)" "unrecorded (rememberReplayKey key)" "unrecorded loadReplayKeys"
  "unrecorded loadBridgeCommandOutbox"
  unfolding write_reports_def rememberReplayKey_def loadReplayKeys_def loadBridgeCommandOutbox_def
  by (intro keeps unrecorded_step; simp add: same_record_def)+

lemma unrecorded_outbox [keeps]:
  "unrecorded (queueBridgeCommandReport h key report)" "unrecorded (removeBridgeCommandReport i)"
  unfolding queueBridgeCommandReport_def removeBridgeCommandReport_def host_now_def Let_def
  by (intro keeps)+

lemma unrecorded_lookup [keeps]:
  "unrecorded (journal_lookup cr name)" "unrecorded (history_lookup cr name)"
  "unrecorded (physicalCommandNeverStarted cr command)"
  unfolding journal_lookup_def history_lookup_def physicalCommandNeverStarted_def by (intro keeps)+

lemma unrecorded_perform [keeps]: "unrecorded (performCommand h command)"
  unfolding performCommand_def on_root_def on_root_actions_def updatePermissions_def host_call_def Let_def
  by (cases "env_commandType command"; simp only: command_type.case; intro keeps)

lemma unrecorded_clock [keeps]: "unrecorded (expired_now h command)" "unrecorded (host_now h)"
  unfolding expired_now_def host_now_def by (intro keeps)+

lemma unrecorded_execution [keeps]: "unrecorded (executeCommand h command)"
  unfolding executeCommand_def checkConnection_def Let_def by (intro keeps)

lemma unrecorded_recover [keeps]: "unrecorded (recoverCommand h command b)"
  unfolding recoverCommand_def Let_def by (intro keeps)

lemma unrecorded_failed [keeps]: "unrecorded (recoverFailed h command e)"
  unfolding recoverFailed_def by (intro keeps)

lemma unrecorded_acknowledge [keeps]: "unrecorded (acknowledgeBridgeCommand i)" "unrecorded (acknowledge_or_rethrow b command)"
  unfolding acknowledge_or_rethrow_def acknowledgeBridgeCommand_def by (intro keeps)+

section \<open>The invariant\<close>

definition entry_at :: "crypto \<Rightarrow> 'w device \<Rightarrow> string \<Rightarrow> journal_file option" where
  "entry_at cr d i = map_of (dv_journal d) (journal_target cr i)"

definition started :: "crypto \<Rightarrow> 'w device \<Rightarrow> string \<Rightarrow> bool" where
  "started cr d i \<longleftrightarrow> (\<exists>e. entry_at cr d i = Some (JournalFile e) \<and> \<not> je_delivered e \<and> je_phase e = Some STARTED)"

text \<open>The server has the report, and the journal has no open entry.\<close>

definition settled :: "crypto \<Rightarrow> 'w device \<Rightarrow> string \<Rightarrow> bool" where
  "settled cr d i \<longleftrightarrow> i \<in> set (dv_accepted d) \<and> (\<forall>e. entry_at cr d i = Some (JournalFile e) \<longrightarrow> je_delivered e)"

text \<open>File names tell the commands in play apart and look as the reader expects.\<close>

definition names_ok :: "crypto \<Rightarrow> string set \<Rightarrow> bool" where
  "names_ok cr ids \<longleftrightarrow> inj_on (cr_sha cr) ids \<and> (\<forall>i \<in> ids. is_journal_name (journal_target cr i))"

definition entries_ok :: "crypto \<Rightarrow> string set \<Rightarrow> string \<Rightarrow> 'w device \<Rightarrow> bool" where
  "entries_ok cr ids dev d \<longleftrightarrow> (\<forall>n f. map_of (dv_journal d) n = Some f \<longrightarrow>
     (\<exists>i \<in> ids. n = journal_target cr i \<and> (\<forall>e. f = JournalFile e \<longrightarrow>
       env_commandId (je_command e) = i \<and> env_bridgeDeviceId (je_command e) = dev \<and>
       (je_delivered e \<longrightarrow> i \<in> set (dv_accepted d)))))"

definition attempts_ok :: "crypto \<Rightarrow> string set \<Rightarrow> 'w device \<Rightarrow> bool" where
  "attempts_ok cr ids d \<longleftrightarrow> distinct (dv_attempts d) \<and> set (dv_attempts d) \<subseteq> ids \<and>
     (\<forall>i \<in> set (dv_attempts d). started cr d i \<or> settled cr d i \<or> entry_at cr d i = Some DamagedFile)"

text \<open>
  What holds while a session still has the commands \<open>rem\<close> before it: one of them that was
  attempted in an earlier session is among the historical ones, and its journal says so.
\<close>

definition untouched :: "crypto \<Rightarrow> string set \<Rightarrow> 'w device \<Rightarrow> string \<Rightarrow> bool" where
  "untouched cr hist d j \<longleftrightarrow> (j \<in> set (dv_attempts d) \<longrightarrow> j \<in> hist \<and> started cr d j) \<and>
     (\<forall>e. entry_at cr d j = Some (JournalFile e) \<longrightarrow> \<not> je_delivered e)"

definition session_ok :: "crypto \<Rightarrow> string set \<Rightarrow> string \<Rightarrow> string set \<Rightarrow> string set \<Rightarrow> 'w device \<Rightarrow> bool" where
  "session_ok cr ids dev hist rem d \<longleftrightarrow> entries_ok cr ids dev d \<and> attempts_ok cr ids d \<and> (\<forall>j \<in> rem. untouched cr hist d j)"

lemmas record_defs = entry_at_def started_def settled_def untouched_def entries_ok_def attempts_ok_def session_ok_def

lemma about_session: "about_record (session_ok cr ids dev hist rem)"
  unfolding about_record_def same_record_def record_defs by simp

lemma about_conj: "about_record P \<Longrightarrow> about_record Q \<Longrightarrow> about_record (\<lambda>d. P d \<and> Q d)"
  unfolding about_record_def by blast

lemma about_imp: "about_record P \<Longrightarrow> about_record (\<lambda>d. b \<longrightarrow> P d)"
  unfolding about_record_def by blast

lemma about_fact: "about_record (\<lambda>d. P (dv_journal d) (dv_attempts d) (dv_accepted d))"
  unfolding about_record_def same_record_def by simp

lemma session_rem: "session_ok cr ids dev hist rem d \<Longrightarrow> rem' \<subseteq> rem \<Longrightarrow> session_ok cr ids dev hist rem' d"
  unfolding session_ok_def by blast

lemma target_inject: "names_ok cr ids \<Longrightarrow> i \<in> ids \<Longrightarrow> j \<in> ids \<Longrightarrow> journal_target cr i = journal_target cr j \<longleftrightarrow> i = j"
  unfolding names_ok_def journal_target_def by (auto dest: inj_onD)

lemma entry_write:
  assumes "names_ok cr ids" "i \<in> ids" "j \<in> ids"
  shows "entry_at cr (d\<lparr>dv_journal := map_set (dv_journal d) (journal_target cr i) f\<rparr>) j =
    (if j = i then Some f else entry_at cr d j)"
  using target_inject[OF assms] by (auto simp: entry_at_def)

text \<open>Writing the file of command \<open>i\<close>.\<close>

lemma journal_write_ok:
  assumes "names_ok cr ids" "i \<in> ids" "entries_ok cr ids dev d"
    and "env_commandId (je_command e) = i" "env_bridgeDeviceId (je_command e) = dev"
    and "je_delivered e \<Longrightarrow> i \<in> set (dv_accepted d)"
  shows "entries_ok cr ids dev (d\<lparr>dv_journal := map_set (dv_journal d) (journal_target cr i) (JournalFile e)\<rparr>)"
  using assms(2-6) unfolding entries_ok_def by auto

lemma session_write:
  assumes names: "names_ok cr ids" "i \<in> ids" and s: "session_ok cr ids dev hist rem d"
    and e: "env_commandId (je_command e) = i" "env_bridgeDeviceId (je_command e) = dev"
    and del: "je_delivered e \<Longrightarrow> i \<in> set (dv_accepted d) \<and> i \<notin> rem"
    and att: "i \<in> set (dv_attempts d) \<Longrightarrow> je_delivered e \<or> je_phase e = Some STARTED \<and> (i \<in> rem \<longrightarrow> i \<in> hist)"
    and sub: "rem \<subseteq> ids"
  shows "session_ok cr ids dev hist rem (d\<lparr>dv_journal := map_set (dv_journal d) (journal_target cr i) (JournalFile e)\<rparr>)"
    (is "session_ok cr ids dev hist rem ?d")
proof -
  have en: "entry_at cr ?d j = (if j = i then Some (JournalFile e) else entry_at cr d j)" if "j \<in> ids" for j
    by (rule entry_write[OF names that])
  have "entries_ok cr ids dev ?d"
    using s del e names by (intro journal_write_ok) (auto simp: session_ok_def)
  moreover have "attempts_ok cr ids ?d"
    unfolding attempts_ok_def
  proof (intro conjI ballI)
    fix j assume j: "j \<in> set (dv_attempts ?d)"
    then have "j \<in> ids" using s by (auto simp: session_ok_def attempts_ok_def)
    with j s att del en show "started cr ?d j \<or> settled cr ?d j \<or> entry_at cr ?d j = Some DamagedFile"
      by (auto simp: session_ok_def attempts_ok_def started_def settled_def)
  qed (use s in \<open>simp_all add: session_ok_def attempts_ok_def\<close>)
  moreover have "untouched cr hist ?d j" if "j \<in> rem" for j
  proof -
    have "j \<in> ids" using that sub by auto
    moreover have "untouched cr hist d j" using s that by (simp add: session_ok_def)
    ultimately show ?thesis using that att del en by (auto simp: untouched_def started_def)
  qed
  ultimately show ?thesis by (simp add: session_ok_def)
qed

lemma session_accept:
  assumes "session_ok cr ids dev hist rem d"
  shows "session_ok cr ids dev hist rem (d\<lparr>dv_accepted := dv_accepted d @ [i]\<rparr>)"
  using assms unfolding session_ok_def entries_ok_def attempts_ok_def untouched_def started_def settled_def entry_at_def
  by simp blast

lemma session_luck: "session_ok cr ids dev hist rem (d\<lparr>dv_luck := ls\<rparr>) = session_ok cr ids dev hist rem d"
  by (simp add: record_defs)

lemma session_attempt:
  assumes "session_ok cr ids dev hist (insert i rem) d" "i \<in> ids" "i \<notin> rem" "i \<notin> set (dv_attempts d)" "started cr d i"
  shows "session_ok cr ids dev hist rem (d\<lparr>dv_attempts := dv_attempts d @ [i]\<rparr>)"
proof -
  let ?d = "d\<lparr>dv_attempts := dv_attempts d @ [i]\<rparr>"
  have f: "started cr ?d j = started cr d j" "settled cr ?d j = settled cr d j" "entry_at cr ?d j = entry_at cr d j" for j
    by (simp_all add: started_def settled_def entry_at_def)
  show ?thesis
    using assms unfolding session_ok_def attempts_ok_def untouched_def f by (auto simp: entries_ok_def)
qed

lemma session_archive:
  assumes names: "names_ok cr ids" "i \<in> ids" and s: "session_ok cr ids dev hist rem d" "rem \<subseteq> ids"
    and a: "i \<in> set (dv_accepted d)" "\<And>e. entry_at cr d i = Some (JournalFile e) \<Longrightarrow> je_delivered e"
  shows "session_ok cr ids dev hist rem (move_to_history (journal_target cr i) d)"
    (is "session_ok cr ids dev hist rem ?d")
proof -
  have acc: "dv_accepted ?d = dv_accepted d" and att: "dv_attempts ?d = dv_attempts d"
    by (simp_all add: move_to_history_def split: option.split)
  have jo: "map_of (dv_journal ?d) n = (if n = journal_target cr i then None else map_of (dv_journal d) n)" for n
  proof -
    have "map_of (filter (\<lambda>x. fst x \<noteq> m) xs) n = (if n = m then None else map_of xs n)" for xs :: "(string \<times> journal_file) list" and m
      by (induction xs) auto
    then show ?thesis by (auto simp: move_to_history_def split: option.split)
  qed
  have en: "entry_at cr ?d j = (if j = i then None else entry_at cr d j)" if "j \<in> ids" for j
    using target_inject[OF names that] by (auto simp: entry_at_def jo)
  have "entries_ok cr ids dev ?d" using s(1) by (auto simp: session_ok_def entries_ok_def jo acc)
  moreover have "attempts_ok cr ids ?d"
    unfolding attempts_ok_def att
  proof (intro conjI ballI)
    fix j assume j: "j \<in> set (dv_attempts d)"
    then have "j \<in> ids" using s(1) by (auto simp: session_ok_def attempts_ok_def)
    with j s(1) a en acc show "started cr ?d j \<or> settled cr ?d j \<or> entry_at cr ?d j = Some DamagedFile"
      by (auto simp: session_ok_def attempts_ok_def started_def settled_def)
  qed (use s(1) in \<open>simp_all add: session_ok_def attempts_ok_def\<close>)
  moreover have "untouched cr hist ?d j" if "j \<in> rem" for j
  proof -
    have j: "j \<in> ids" using that s(2) by auto
    have u: "untouched cr hist d j" using s(1) that by (simp add: session_ok_def)
    have "\<not> started cr d i" using a(2) by (auto simp: started_def)
    with u j en show ?thesis by (auto simp: untouched_def started_def att)
  qed
  ultimately show ?thesis by (simp add: session_ok_def)
qed

section \<open>The steps of one command\<close>

text \<open>What a reader of a journal file knows.\<close>

definition read_as :: "crypto \<Rightarrow> string \<Rightarrow> journal_entry option \<Rightarrow> 'w device \<Rightarrow> bool" where
  "read_as cr name x d \<longleftrightarrow> readJournal cr (dv_journal d) name = Inr x"

lemma read_as_entry:
  "read_as cr (journal_target cr i) None d \<Longrightarrow> entry_at cr d i = None"
  "read_as cr (journal_target cr i) (Some e) d \<Longrightarrow> entry_at cr d i = Some (JournalFile e)"
  by (auto simp: read_as_def readJournal_def entry_at_def split: option.splits journal_file.splits if_splits)

lemma about_read_as: "about_record (read_as cr name x)"
  unfolding read_as_def about_record_def same_record_def by simp

lemma triple_lookup:
  assumes "about_record P"
  shows "triple P (journal_lookup cr name) (\<lambda>x d. P d \<and> read_as cr name x d) P"
  unfolding journal_lookup_def device_read_def
proof (rule triple_bind[where Q' = "\<lambda>r d. P d \<and> readJournal cr (dv_journal d) name = r"],
    rule triple_bind[where Q' = "\<lambda>_. P"])
  show "triple P (device_step id) (\<lambda>_. P) P" by (intro unrecordedD[OF unrecorded_id assms])
  show "triple P (io_get (\<lambda>d. readJournal cr (dv_journal d) name)) (\<lambda>r d. P d \<and> readJournal cr (dv_journal d) name = r) P"
    by (simp add: triple_def io_get_def)
  show "triple (\<lambda>d. P d \<and> readJournal cr (dv_journal d) name = r) (io_result r) (\<lambda>x d. P d \<and> read_as cr name x d) P" for r
    by (cases r) (auto simp: triple_def io_result_def io_return_def io_throw_def read_as_def)
qed

lemma triple_unrecorded: "unrecorded m \<Longrightarrow> about_record P \<Longrightarrow> (\<And>d. P d \<Longrightarrow> R d) \<Longrightarrow> triple P m (\<lambda>_. P) R"
  by (rule triple_weaken[where P = P and R = P, OF unrecordedD]) auto

lemma triple_unrecorded_bind:
  assumes "unrecorded m" "about_record P" "\<And>d. P d \<Longrightarrow> R d" "\<And>x. triple P (f x) Q R"
  shows "triple P (io_bind m f) Q R"
  using triple_unrecorded[OF assms(1-3)] assms(4) by (rule triple_bind)

lemma triple_lookup_bind:
  assumes "about_record P" "\<And>d. P d \<Longrightarrow> R d" "\<And>x. triple (\<lambda>d. P d \<and> read_as cr name x d) (f x) Q R"
  shows "triple P (io_bind (journal_lookup cr name) f) Q R"
proof (rule triple_bind[where Q' = "\<lambda>x d. P d \<and> read_as cr name x d"])
  show "triple P (journal_lookup cr name) (\<lambda>x d. P d \<and> read_as cr name x d) R"
    by (rule triple_weaken[where P = P and R = P, OF triple_lookup[OF assms(1)]]) (use assms(2) in auto)
qed (rule assms(3))

lemma about_luck: "about_record P \<Longrightarrow> P d \<Longrightarrow> P (d\<lparr>dv_luck := ls\<rparr>)"
  unfolding about_record_def same_record_def by auto

lemma prepare_ok:
  assumes names: "names_ok cr ids" "env_commandId c \<in> ids" "rem \<subseteq> ids" and c: "env_bridgeDeviceId c = dev"
    and r: "env_commandId c \<in> rem"
  shows "triple (session_ok cr ids dev hist rem) (preparePhysicalCommand cr c legacy)
    (\<lambda>_. session_ok cr ids dev hist rem) (session_ok cr ids dev hist rem)"
proof -
  let ?S = "session_ok cr ids dev hist rem" and ?n = "journal_target cr (env_commandId c)"
  let ?L = "\<lambda>x d. ?S d \<and> read_as cr ?n x d"
  have aL: "about_record (?L x)" for x by (intro about_conj about_session about_read_as)
  have wr: "triple (?L None) (journal_write cr \<lparr>je_command = c, je_delivered = False, je_phase = p\<rparr>) (\<lambda>_. ?S) ?S" for p
  proof -
    let ?e = "\<lparr>je_command = c, je_delivered = False, je_phase = p\<rparr>"
    have "?S (d\<lparr>dv_journal := map_set (dv_journal d) (journal_target cr (env_commandId c)) (JournalFile ?e)\<rparr>)"
      if "?L None d" for d
    proof (rule session_write[OF names(1,2)])
      have "entry_at cr d (env_commandId c) = None" using that read_as_entry(1) by blast
      moreover have "untouched cr hist d (env_commandId c)" using that r by (simp add: session_ok_def)
      ultimately show "env_commandId c \<in> set (dv_attempts d) \<Longrightarrow>
        je_delivered ?e \<or> je_phase ?e = Some STARTED \<and> (env_commandId c \<in> rem \<longrightarrow> env_commandId c \<in> hist)"
        by (simp add: untouched_def started_def)
    qed (use that c names in auto)
    then show ?thesis
      unfolding journal_write_def by (intro triple_step) (auto simp: about_luck[OF aL])
  qed
  show ?thesis
    unfolding preparePhysicalCommand_def Let_def
  proof (rule triple_lookup_bind[OF about_session])
    fix current
    show "triple (?L current)
      (io_bind (case current of None \<Rightarrow> history_lookup cr ?n | Some e \<Rightarrow> io_return (Some e))
        (\<lambda>existing. case existing of
            None \<Rightarrow> journal_write cr \<lparr>je_command = c, je_delivered = False,
              je_phase = if legacy then None else Some PREPARED\<rparr>
          | Some e \<Rightarrow> io_guard (same_authority (je_command e) c) PlainError)) (\<lambda>_. ?S) ?S"
    proof (cases current)
      case None
      show ?thesis
        unfolding None option.case
      proof (rule triple_unrecorded_bind[OF unrecorded_lookup(2) aL])
        fix x
        show "triple (?L None) (case x of
            None \<Rightarrow> journal_write cr \<lparr>je_command = c, je_delivered = False,
              je_phase = if legacy then None else Some PREPARED\<rparr>
          | Some e \<Rightarrow> io_guard (same_authority (je_command e) c) PlainError) (\<lambda>_. ?S) ?S"
        proof (cases x)
          case None
          show ?thesis unfolding None option.case by (rule wr)
        next
          case (Some e)
          show ?thesis unfolding Some option.case by (rule triple_guard) auto
        qed
      qed simp
    next
      case (Some e)
      show ?thesis unfolding Some option.case
        by (rule triple_bind[OF triple_return, where Q' = "\<lambda>x d. ?S d \<and> x = Some e"])
          (auto intro: triple_guard simp: triple_def io_guard_def io_return_def io_throw_def)
    qed
  qed auto
qed

lemma mark_started_ok:
  assumes names: "names_ok cr ids" "env_commandId c \<in> ids" "rem \<subseteq> ids" and r: "env_commandId c \<in> rem"
  shows "triple (\<lambda>d. session_ok cr ids dev hist rem d \<and> env_commandId c \<notin> set (dv_attempts d))
    (markPhysicalCommandStarted cr c)
    (\<lambda>_ d. session_ok cr ids dev hist rem d \<and> env_commandId c \<notin> set (dv_attempts d) \<and> started cr d (env_commandId c))
    (session_ok cr ids dev hist rem)"
proof -
  let ?i = "env_commandId c"
  let ?S = "session_ok cr ids dev hist rem" and ?n = "journal_target cr ?i"
  let ?P = "\<lambda>d. ?S d \<and> ?i \<notin> set (dv_attempts d)"
  have aP: "about_record ?P" by (intro about_conj about_session) (auto simp: about_record_def same_record_def)
  have aL: "about_record (\<lambda>d. ?P d \<and> read_as cr ?n x d)" for x by (intro about_conj aP about_read_as)
  have wr: "triple (\<lambda>d. ?P d \<and> read_as cr ?n (Some e) d)
      (device_step (\<lambda>d. d\<lparr>dv_journal := map_set (dv_journal d) ?n (JournalFile (e\<lparr>je_phase := Some STARTED\<rparr>))\<rparr>))
      (\<lambda>_ d. ?P d \<and> started cr d ?i) ?S" for e
  proof -
    let ?f = "\<lambda>d. d\<lparr>dv_journal := map_set (dv_journal d) ?n (JournalFile (e\<lparr>je_phase := Some STARTED\<rparr>))\<rparr>"
    have "?P (?f d) \<and> started cr (?f d) ?i" if d: "?P d" "read_as cr ?n (Some e) d" for d
    proof -
      have e: "entry_at cr d ?i = Some (JournalFile e)" using d read_as_entry(2) by blast
      have u: "untouched cr hist d ?i" using d r by (simp add: session_ok_def)
      with e have nd: "\<not> je_delivered e" by (simp add: untouched_def)
      have j: "env_commandId (je_command e) = ?i \<and> env_bridgeDeviceId (je_command e) = dev"
      proof -
        have "map_of (dv_journal d) ?n = Some (JournalFile e)" using e by (simp add: entry_at_def)
        with d(1) obtain i where i: "i \<in> ids" "?n = journal_target cr i" "env_commandId (je_command e) = i"
            "env_bridgeDeviceId (je_command e) = dev"
          unfolding session_ok_def entries_ok_def by blast
        from target_inject[OF names(1,2) i(1)] i(2) have "?i = i" by blast
        with i(3,4) show ?thesis by simp
      qed
      have "?S (?f d)"
        by (rule session_write[OF names(1,2)]) (use d j nd names(3) in auto)
      moreover have "started cr (?f d) ?i" using nd by (auto simp: started_def entry_at_def)
      ultimately show ?thesis using d(1) by simp
    qed
    then show ?thesis by (intro triple_step) (auto simp: about_luck[OF aL])
  qed
  show ?thesis
    unfolding markPhysicalCommandStarted_def
  proof (rule triple_lookup_bind[OF aP])
    fix entry
    show "triple (\<lambda>d. ?P d \<and> read_as cr ?n entry d)
        (case entry of None \<Rightarrow> io_throw PlainError
         | Some e \<Rightarrow> if same_authority (je_command e) c
             then device_step (\<lambda>d. d\<lparr>dv_journal := map_set (dv_journal d) ?n (JournalFile (e\<lparr>je_phase := Some STARTED\<rparr>))\<rparr>)
             else io_throw PlainError)
        (\<lambda>_ d. ?S d \<and> ?i \<notin> set (dv_attempts d) \<and> started cr d ?i) ?S"
    proof (cases entry)
      case None
      show ?thesis unfolding None option.case by (rule triple_throw) auto
    next
      case (Some e)
      show ?thesis unfolding Some option.case
        by (rule triple_if, rule triple_weaken[OF wr]) (auto intro: triple_throw)
    qed
  qed auto
qed

lemma triple_note:
  assumes "\<And>d. P d \<Longrightarrow> Q () (if physical then d\<lparr>dv_attempts := dv_attempts d @ [i]\<rparr> else d)"
  shows "triple P (note_attempt physical i) Q R"
  using assms by (simp add: triple_def note_attempt_def)

text \<open>The \<open>try\<close> block: however it ends, the command is done with.\<close>

lemma attempt_ok:
  fixes h :: "'w host"
  assumes names: "names_ok cr ids" "env_commandId c \<in> ids" "rem \<subseteq> ids" and r: "env_commandId c \<notin> rem"
    and cr: "cr = h_crypto h" and hp: "historicalPhysical \<longleftrightarrow> env_commandId c \<in> hist"
  shows "triple (session_ok cr ids dev hist (insert (env_commandId c) rem))
    (attemptCommand h admitted historicalPhysical replayed c)
    (\<lambda>r d. session_ok cr ids dev hist rem d \<and> rp_commandId r = env_commandId c) (session_ok cr ids dev hist rem)"
proof -
  let ?i = "env_commandId c"
  let ?S1 = "session_ok cr ids dev hist (insert ?i rem)" and ?S = "session_ok cr ids dev hist rem"
  let ?ph = "physical_type (env_commandType c)"
  let ?Q = "\<lambda>r d. ?S d \<and> rp_commandId r = ?i"
  let ?N = "\<lambda>never d. ?S1 d \<and> (?i \<in> set (dv_attempts d) \<longrightarrow> \<not> never)"
  have weak: "?S1 d \<Longrightarrow> ?S d" for d by (erule session_rem) auto
  have aN: "about_record (?N never)" for never
    by (intro about_conj about_session) (auto simp: about_record_def same_record_def)
  have never: "triple ?S1 (if ?ph then physicalCommandNeverStarted cr c else io_return False) ?N ?S"
  proof (rule triple_if)
    show "triple ?S1 (physicalCommandNeverStarted cr c) ?N ?S"
      unfolding physicalCommandNeverStarted_def
    proof (rule triple_lookup_bind[OF about_session])
      fix entry
      show "triple (\<lambda>d. ?S1 d \<and> read_as cr (journal_target cr ?i) entry d)
          (io_return (case entry of None \<Rightarrow> False
            | Some e \<Rightarrow> je_phase e = Some PREPARED \<and> same_authority (je_command e) c)) ?N ?S"
      proof (rule triple_return)
        fix d assume d: "?S1 d \<and> read_as cr (journal_target cr ?i) entry d"
        then have "untouched cr hist d ?i" by (simp add: session_ok_def)
        with d show "?N (case entry of None \<Rightarrow> False
            | Some e \<Rightarrow> je_phase e = Some PREPARED \<and> same_authority (je_command e) c) d"
          by (auto simp: untouched_def started_def dest!: read_as_entry(2) split: option.splits)
      qed
    qed (rule weak)
    show "triple ?S1 (io_return False) ?N ?S" by (rule triple_return) simp
  qed
  have first: "triple (\<lambda>d. ?S1 d \<and> ?i \<notin> set (dv_attempts d) \<and> started cr d ?i)
      (io_bind (note_attempt True ?i) (\<lambda>_. executeCommand h c)) (\<lambda>_. ?S) ?S"
  proof (rule triple_bind[where Q' = "\<lambda>_. ?S"])
    show "triple (\<lambda>d. ?S1 d \<and> ?i \<notin> set (dv_attempts d) \<and> started cr d ?i) (note_attempt True ?i) (\<lambda>_. ?S) ?S"
      by (rule triple_note) (simp add: session_attempt[OF _ names(2) r])
    show "triple ?S (executeCommand h c) (\<lambda>_. ?S) ?S" by (intro triple_unrecorded keeps about_session)
  qed
  have plain: "triple ?S (io_bind (note_attempt False ?i) (\<lambda>_. executeCommand h c)) (\<lambda>_. ?S) ?S"
    by (rule triple_bind[OF triple_note[where Q = "\<lambda>_. ?S"]]) (auto intro: triple_unrecorded keeps about_session)
  have rest: "triple (?N never)
      (io_bind (io_when (?ph \<and> \<not> only) (markPhysicalCommandStarted cr c)) (\<lambda>_.
       io_bind (if only then recoverCommand h c never
                else io_bind (note_attempt ?ph ?i) (\<lambda>_. executeCommand h c)) (\<lambda>result.
       io_return (completed_report c result)))) ?Q ?S"
    if only: "only = (?ph \<and> (\<not> admitted \<or> expired \<or> replayed \<or> (historicalPhysical \<and> \<not> never)))" for never expired only
  proof (cases "?ph \<and> \<not> only")
    case True
    then have new: "?N never d \<Longrightarrow> ?i \<notin> set (dv_attempts d)" for d
      using only hp by (auto simp: session_ok_def untouched_def)
    have "triple (?N never) (markPhysicalCommandStarted cr c)
      (\<lambda>_ d. ?S1 d \<and> ?i \<notin> set (dv_attempts d) \<and> started cr d ?i) ?S"
      by (rule triple_weaken[OF mark_started_ok[OF names(1,2), where rem = "insert ?i rem"]]) (use new weak names in auto)
    moreover have "triple (\<lambda>d. ?S1 d \<and> ?i \<notin> set (dv_attempts d) \<and> started cr d ?i)
      (io_bind (io_bind (note_attempt True ?i) (\<lambda>_. executeCommand h c)) (\<lambda>result.
       io_return (completed_report c result))) ?Q ?S"
      by (rule triple_bind[OF first]) (rule triple_return, simp add: completed_report_def)
    ultimately have "triple (?N never)
      (io_bind (markPhysicalCommandStarted cr c) (\<lambda>_. io_bind (io_bind (note_attempt True ?i) (\<lambda>_. executeCommand h c))
        (\<lambda>result. io_return (completed_report c result)))) ?Q ?S" by (rule triple_bind)
    with True show ?thesis by (simp add: io_when_def)
  next
    case False
    have "triple ?S (if only then recoverCommand h c never
        else io_bind (note_attempt ?ph ?i) (\<lambda>_. executeCommand h c)) (\<lambda>_. ?S) ?S"
    proof (rule triple_if)
      show "triple ?S (recoverCommand h c never) (\<lambda>_. ?S) ?S" by (intro triple_unrecorded keeps about_session)
      assume "\<not> only"
      with False have "\<not> ?ph" by simp
      with plain show "triple ?S (io_bind (note_attempt ?ph ?i) (\<lambda>_. executeCommand h c)) (\<lambda>_. ?S) ?S" by simp
    qed
    then have "triple ?S (io_bind (if only then recoverCommand h c never
        else io_bind (note_attempt ?ph ?i) (\<lambda>_. executeCommand h c)) (\<lambda>result. io_return (completed_report c result))) ?Q ?S"
      by (rule triple_bind) (rule triple_return, simp add: completed_report_def)
    then have "triple (?N never) (io_bind (if only then recoverCommand h c never
        else io_bind (note_attempt ?ph ?i) (\<lambda>_. executeCommand h c)) (\<lambda>result. io_return (completed_report c result))) ?Q ?S"
      by (rule triple_pre) (use weak in auto)
    then have "triple (?N never) (io_bind (io_return ()) (\<lambda>_. io_bind (if only then recoverCommand h c never
        else io_bind (note_attempt ?ph ?i) (\<lambda>_. executeCommand h c)) (\<lambda>result. io_return (completed_report c result)))) ?Q ?S"
      by (intro triple_bind[OF triple_return, where Q' = "\<lambda>_. ?N never"])
    with False show ?thesis by (simp only: io_when_def if_False)
  qed
  show ?thesis
    unfolding attemptCommand_def Let_def cr[symmetric]
  proof (rule triple_bind[OF never])
    fix never
    show "triple (?N never) (io_bind (if ?ph then expired_now h c else io_return False) (\<lambda>expired.
        io_bind (io_when (?ph \<and> \<not> (?ph \<and> (\<not> admitted \<or> expired \<or> replayed \<or> historicalPhysical \<and> \<not> never)))
          (markPhysicalCommandStarted cr c)) (\<lambda>_.
        io_bind (if ?ph \<and> (\<not> admitted \<or> expired \<or> replayed \<or> historicalPhysical \<and> \<not> never) then recoverCommand h c never
          else io_bind (note_attempt ?ph ?i) (\<lambda>_. executeCommand h c)) (\<lambda>result. io_return (completed_report c result)))))
        ?Q ?S"
    proof (rule triple_unrecorded_bind[OF _ aN])
      show "unrecorded (if ?ph then expired_now h c else io_return False)" by (intro keeps)
    qed (use weak rest[OF refl] in auto)
  qed
qed

lemma report_step: "triple (session_ok cr ids dev hist rem) (reportBridgeCommand r)
    (\<lambda>_ d. session_ok cr ids dev hist rem d \<and> rp_commandId r \<in> set (dv_accepted d)) (session_ok cr ids dev hist rem)"
  unfolding reportBridgeCommand_def by (rule triple_step) (auto simp: session_accept session_luck)

lemma submit_ok: "triple (session_ok cr ids dev hist rem) (submitPersistedReport h key r)
    (\<lambda>b d. session_ok cr ids dev hist rem d \<and> (b \<longrightarrow> rp_commandId r \<in> set (dv_accepted d))) (session_ok cr ids dev hist rem)"
proof -
  let ?S = "session_ok cr ids dev hist rem"
  let ?T = "\<lambda>d. ?S d \<and> rp_commandId r \<in> set (dv_accepted d)"
  have aT: "about_record ?T" by (intro about_conj about_session) (auto simp: about_record_def same_record_def)
  have "triple ?S (io_bind (reportBridgeCommand r) (\<lambda>_. io_bind (removeBridgeCommandReport (rp_commandId r)) (\<lambda>_. io_return True)))
      (\<lambda>b d. ?S d \<and> (b \<longrightarrow> rp_commandId r \<in> set (dv_accepted d))) ?S"
  proof (rule triple_bind[OF report_step])
    show "triple ?T (io_bind (removeBridgeCommandReport (rp_commandId r)) (\<lambda>_. io_return True))
        (\<lambda>b d. ?S d \<and> (b \<longrightarrow> rp_commandId r \<in> set (dv_accepted d))) ?S"
      by (rule triple_unrecorded_bind[OF unrecorded_outbox(2) aT]) (auto intro: triple_return)
  qed
  then have "triple ?S (io_catch (io_bind (reportBridgeCommand r) (\<lambda>_. io_bind (removeBridgeCommandReport (rp_commandId r)) (\<lambda>_. io_return True)))
      (\<lambda>_. io_return False)) (\<lambda>b d. ?S d \<and> (b \<longrightarrow> rp_commandId r \<in> set (dv_accepted d))) ?S"
    by (rule triple_catch) (rule triple_return, simp)
  then show ?thesis
    unfolding submitPersistedReport_def by (intro triple_unrecorded_bind[OF unrecorded_outbox(1) about_session])
qed

lemma mark_delivered_ok:
  assumes names: "names_ok cr ids" "env_commandId c \<in> ids" "rem \<subseteq> ids" and r: "env_commandId c \<notin> rem"
    and c: "env_bridgeDeviceId c = dev"
  shows "triple (\<lambda>d. session_ok cr ids dev hist rem d \<and> env_commandId c \<in> set (dv_accepted d))
    (markPhysicalCommandDelivered cr c) (\<lambda>_. session_ok cr ids dev hist rem) (session_ok cr ids dev hist rem)"
proof -
  let ?i = "env_commandId c" and ?e = "\<lparr>je_command = c, je_delivered = True, je_phase = None\<rparr>"
  let ?S = "session_ok cr ids dev hist rem" and ?n = "journal_target cr ?i"
  let ?P = "\<lambda>d. ?S d \<and> ?i \<in> set (dv_accepted d)"
  let ?D = "\<lambda>d. ?P d \<and> (\<forall>e. entry_at cr d ?i = Some (JournalFile e) \<longrightarrow> je_delivered e)"
  have aD: "about_record ?D" and aP: "about_record ?P"
    unfolding about_record_def same_record_def record_defs by auto
  have wr: "triple ?P (journal_write cr ?e) (\<lambda>_. ?D) ?S"
  proof -
    have "?D (d\<lparr>dv_journal := map_set (dv_journal d) ?n (JournalFile ?e)\<rparr>)" if "?P d" for d
    proof (intro conjI)
      show "?S (d\<lparr>dv_journal := map_set (dv_journal d) ?n (JournalFile ?e)\<rparr>)"
        by (rule session_write[OF names(1,2)]) (use that r c names(3) in auto)
    qed (use that in \<open>auto simp: entry_at_def\<close>)
    then show ?thesis unfolding journal_write_def by (intro triple_step) (auto simp: about_luck[OF aP])
  qed
  have mv: "triple ?D (device_step (move_to_history ?n)) (\<lambda>_. ?S) ?S"
    by (rule triple_step) (auto simp: about_luck[OF aD] intro!: session_archive[OF names(1,2) _ names(3)])
  have ids: "triple ?S (io_bind (device_step id) (\<lambda>_. device_step id)) (\<lambda>_. ?S) ?S"
    by (intro triple_unrecorded keeps about_session)
  show ?thesis
    unfolding markPhysicalCommandDelivered_def
  proof (rule triple_bind[OF wr])
    show "triple ?D (io_bind (device_step id) (\<lambda>_. io_bind (device_step (move_to_history ?n))
        (\<lambda>_. io_bind (device_step id) (\<lambda>_. device_step id)))) (\<lambda>_. ?S) ?S"
      by (rule triple_unrecorded_bind[OF unrecorded_id aD _ triple_bind[OF mv ids]]) simp
  qed
qed

lemma admit_ok:
  fixes h :: "'w host"
  assumes names: "names_ok (h_crypto h) ids" "env_commandId c \<in> ids" "rem \<subseteq> ids" and r: "env_commandId c \<notin> rem"
    and c: "env_bridgeDeviceId c = dev" and hp: "historicalPhysical \<longleftrightarrow> env_commandId c \<in> hist"
  shows "triple (session_ok (h_crypto h) ids dev hist (insert (env_commandId c) rem)) (admitCommand h historicalPhysical keys c)
    (\<lambda>_. session_ok (h_crypto h) ids dev hist rem) (session_ok (h_crypto h) ids dev hist rem)"
proof -
  let ?i = "env_commandId c" and ?cr = "h_crypto h" and ?key = "createBridgeCommandReplayKey c"
  let ?S1 = "session_ok ?cr ids dev hist (insert ?i rem) :: 'w device \<Rightarrow> bool"
  let ?S = "session_ok ?cr ids dev hist rem :: 'w device \<Rightarrow> bool"
  let ?ph = "physical_type (env_commandType c)"
  have weak: "?S1 d \<Longrightarrow> ?S d" for d by (erule session_rem) auto
  have prep: "triple ?S1 (if ?ph then preparePhysicalCommand ?cr c b else rememberReplayKey ?key) (\<lambda>_. ?S1) ?S" for b
  proof (rule triple_if)
    show "triple ?S1 (preparePhysicalCommand ?cr c b) (\<lambda>_. ?S1) ?S"
      by (rule triple_weaken[OF prepare_ok[OF names(1,2) _ c, where rem = "insert ?i rem"]]) (use names weak in auto)
  qed (intro triple_unrecorded keeps about_session weak)
  have att: "triple ?S1 (io_catch (attemptCommand h admitted historicalPhysical b c) (recoverFailed h c))
      (\<lambda>r d. ?S d \<and> rp_commandId r = ?i) ?S" for admitted b
  proof (rule triple_catch[OF attempt_ok[OF names r refl hp]])
    show "triple ?S (recoverFailed h c e) (\<lambda>r d. ?S d \<and> rp_commandId r = ?i) ?S" for e
      unfolding recoverFailed_def
      by (intro triple_if triple_unrecorded_bind[OF unrecorded_recover about_session] triple_return)
        (auto simp: failed_report_def)
  qed
  have fin: "triple (\<lambda>d. ?S d \<and> (b \<longrightarrow> rp_commandId x \<in> set (dv_accepted d)))
      (io_bind (io_when (?ph \<and> b \<and> rp_safeErrorCategory x \<noteq> Some (Code COMMAND_RECOVERY_REQUIRED))
        (io_bind (markPhysicalCommandDelivered ?cr c) (\<lambda>_. rememberReplayKey ?key))) (\<lambda>_. io_return y)) (\<lambda>_. ?S) ?S"
    if x: "rp_commandId x = ?i" for b x and y :: "string list \<times> command_report option"
  proof (rule triple_bind[where Q' = "\<lambda>_. ?S"])
    have del: "triple (\<lambda>d. ?S d \<and> ?i \<in> set (dv_accepted d))
        (io_bind (markPhysicalCommandDelivered ?cr c) (\<lambda>_. rememberReplayKey ?key)) (\<lambda>_. ?S) ?S"
      by (rule triple_bind[OF mark_delivered_ok[OF names r c]]) (intro triple_unrecorded keeps about_session)
    show "triple (\<lambda>d. ?S d \<and> (b \<longrightarrow> rp_commandId x \<in> set (dv_accepted d)))
      (io_when (?ph \<and> b \<and> rp_safeErrorCategory x \<noteq> Some (Code COMMAND_RECOVERY_REQUIRED))
        (io_bind (markPhysicalCommandDelivered ?cr c) (\<lambda>_. rememberReplayKey ?key))) (\<lambda>_. ?S) ?S"
      unfolding io_when_def
      by (rule triple_if; rule triple_pre[OF del] triple_return) (auto simp: x)
  qed (rule triple_return)
  have keys: "triple ?S1 (io_bind (acknowledge_or_rethrow historicalPhysical c) (\<lambda>admitted.
      io_bind (io_catch (attemptCommand h admitted historicalPhysical b c) (recoverFailed h c)) (\<lambda>report.
      io_bind (submitPersistedReport h ?key report) (\<lambda>delivered.
      io_bind (io_when (?ph \<and> delivered \<and> rp_safeErrorCategory report \<noteq> Some (Code COMMAND_RECOVERY_REQUIRED))
          (io_bind (markPhysicalCommandDelivered ?cr c) (\<lambda>_. rememberReplayKey ?key))) (\<lambda>_.
      io_return (ks, Some report)))))) (\<lambda>_. ?S) ?S" for b and ks :: "string list"
  proof (rule triple_unrecorded_bind[OF unrecorded_acknowledge(2) about_session], erule weak, rule triple_bind[OF att])
    fix report
    show "triple (\<lambda>d. ?S d \<and> rp_commandId report = ?i) (io_bind (submitPersistedReport h ?key report) (\<lambda>delivered.
      io_bind (io_when (?ph \<and> delivered \<and> rp_safeErrorCategory report \<noteq> Some (Code COMMAND_RECOVERY_REQUIRED))
          (io_bind (markPhysicalCommandDelivered ?cr c) (\<lambda>_. rememberReplayKey ?key))) (\<lambda>_.
      io_return (ks, Some report)))) (\<lambda>_. ?S) ?S"
    proof (subst conj_commute, rule triple_assume)
      assume i: "rp_commandId report = ?i"
      show "triple ?S (io_bind (submitPersistedReport h ?key report) (\<lambda>delivered.
        io_bind (io_when (?ph \<and> delivered \<and> rp_safeErrorCategory report \<noteq> Some (Code COMMAND_RECOVERY_REQUIRED))
          (io_bind (markPhysicalCommandDelivered ?cr c) (\<lambda>_. rememberReplayKey ?key))) (\<lambda>_.
        io_return (ks, Some report)))) (\<lambda>_. ?S) ?S"
        by (rule triple_bind[OF submit_ok fin[OF i]])
    qed
  qed
  show ?thesis
    unfolding admitCommand_def Let_def by (rule triple_bind[OF prep keys])
qed

lemma ignoring_ok: "triple P m (\<lambda>_. R) R \<Longrightarrow> triple P (ignoring m) (\<lambda>_. R) R"
  unfolding ignoring_def by (rule triple_catch) (rule triple_bind, assumption, (rule triple_return, assumption)+)

lemma reject_ok: "triple (session_ok cr ids dev hist rem) (rejectCommand h c category key)
    (\<lambda>_. session_ok cr ids dev hist rem) (session_ok cr ids dev hist rem)"
  unfolding rejectCommand_def
proof (rule triple_unrecorded_bind[OF _ about_session])
  show "unrecorded (ignoring (acknowledgeBridgeCommand (env_commandId c)))" unfolding ignoring_def by (intro keeps)
qed (auto intro: triple_bind[OF submit_ok] triple_return)

lemma process_ok:
  fixes h :: "'w host"
  assumes names: "names_ok (h_crypto h) ids" "env_commandId c \<in> ids" "rem \<subseteq> ids" and r: "env_commandId c \<notin> rem"
    and hp: "hist = set historicalIds"
  shows "triple (session_ok (h_crypto h) ids dev hist (insert (env_commandId c) rem))
    (processCommand h dev delivered historicalIds pending keys c)
    (\<lambda>_. session_ok (h_crypto h) ids dev hist rem) (session_ok (h_crypto h) ids dev hist rem)"
proof -
  let ?S1 = "session_ok (h_crypto h) ids dev hist (insert (env_commandId c) rem) :: 'w device \<Rightarrow> bool"
  let ?S = "session_ok (h_crypto h) ids dev hist rem :: 'w device \<Rightarrow> bool"
  let ?key = "createBridgeCommandReplayKey c"
  have weak: "?S1 d \<Longrightarrow> ?S d" for d by (erule session_rem) auto
  have "triple ?S1 (ignoring (rejectCommand h c x ?key)) (\<lambda>_. ?S) ?S" for x
    by (rule triple_pre[where P = ?S], intro ignoring_ok reject_ok) (rule weak)
  then have rej: "triple ?S1 (io_bind (ignoring (rejectCommand h c x ?key)) (\<lambda>_. io_return y)) (\<lambda>_. ?S) ?S"
    for x and y :: "string list \<times> command_report option"
    by (rule triple_bind) (rule triple_return)
  have adm: "triple ?S1 (admitCommand h (env_commandId c \<in> set historicalIds) keys c) (\<lambda>_. ?S) ?S"
    if "env_bridgeDeviceId c = dev"
    by (rule admit_ok[OF names r that]) (simp add: hp)
  show ?thesis
    unfolding processCommand_def Let_def
    by (intro triple_if triple_return triple_unrecorded_bind[OF unrecorded_clock(1) about_session] rej adm weak) auto
qed

lemma process_all_ok:
  assumes names: "names_ok (h_crypto h) ids" and hp: "hist = set historicalIds"
  shows "distinct (map env_commandId cs) \<Longrightarrow> set (map env_commandId cs) \<subseteq> ids \<Longrightarrow>
    triple (session_ok (h_crypto h) ids dev hist (set (map env_commandId cs)))
    (processCommands h dev delivered historicalIds pending keys cs)
    (\<lambda>_. session_ok (h_crypto h) ids dev hist {}) (session_ok (h_crypto h) ids dev hist {})"
proof (induction cs arbitrary: keys)
  case Nil
  show ?case by (simp add: triple_return)
next
  case (Cons c cs)
  let ?rem = "set (map env_commandId cs)"
  have one: "triple (session_ok (h_crypto h) ids dev hist (insert (env_commandId c) ?rem))
      (processCommand h dev delivered historicalIds pending keys c)
      (\<lambda>_. session_ok (h_crypto h) ids dev hist ?rem) (session_ok (h_crypto h) ids dev hist {})"
    by (rule triple_weaken[OF process_ok[OF names _ _ _ hp, where rem = ?rem]]) (use Cons.prems in \<open>auto elim: session_rem\<close>)
  have "triple (session_ok (h_crypto h) ids dev hist ?rem)
      (io_bind (processCommands h dev delivered historicalIds pending ks cs) (\<lambda>reports. io_return (f reports)))
      (\<lambda>_. session_ok (h_crypto h) ids dev hist {}) (session_ok (h_crypto h) ids dev hist {})"
    for ks and f :: "command_report list \<Rightarrow> command_report list"
    by (rule triple_bind[OF Cons.IH]) (use Cons.prems in \<open>auto intro: triple_return\<close>)
  note tail = this
  show ?case
    unfolding processCommands.simps list.map list.set
  proof (rule triple_bind[OF one])
    fix x :: "string list \<times> command_report option"
    obtain ks report where "x = (ks, report)" by fastforce
    then show "triple (session_ok (h_crypto h) ids dev hist ?rem) (case x of (ks, report) \<Rightarrow>
        io_bind (processCommands h dev delivered historicalIds pending ks cs) (\<lambda>reports.
        io_return (case report of None \<Rightarrow> reports | Some r \<Rightarrow> r # reports)))
      (\<lambda>_. session_ok (h_crypto h) ids dev hist {}) (session_ok (h_crypto h) ids dev hist {})"
      using tail by simp
  qed
qed

section \<open>A session\<close>

lemma report_keeps: "triple (session_ok cr ids dev hist rem) (reportBridgeCommand r)
    (\<lambda>_. session_ok cr ids dev hist rem) (session_ok cr ids dev hist rem)"
  by (rule triple_weaken[OF report_step]) auto

lemma flush_ok: "triple (session_ok cr ids dev hist rem :: 'w device \<Rightarrow> bool) (flush_reports items)
    (\<lambda>_. session_ok cr ids dev hist rem) (session_ok cr ids dev hist rem)"
proof (induction items)
  case Nil
  show ?case by (simp add: triple_return)
next
  case (Cons item items)
  let ?S = "session_ok cr ids dev hist rem :: 'w device \<Rightarrow> bool" and ?r = "pr_report item"
  have "triple ?S (io_bind (reportBridgeCommand ?r) (\<lambda>_. io_bind (removeBridgeCommandReport (rp_commandId ?r)) (\<lambda>_.
      io_bind (rememberReplayKey (pr_replayKey item)) (\<lambda>_. io_return [rp_commandId ?r])))) (\<lambda>_. ?S) ?S"
    by (rule triple_bind[OF report_keeps]) (intro triple_unrecorded keeps about_session)
  then have "triple ?S (io_catch (io_bind (reportBridgeCommand ?r) (\<lambda>_. io_bind (removeBridgeCommandReport (rp_commandId ?r)) (\<lambda>_.
      io_bind (rememberReplayKey (pr_replayKey item)) (\<lambda>_. io_return [rp_commandId ?r])))) (\<lambda>_. io_return [])) (\<lambda>_. ?S) ?S"
    by (rule triple_catch) (rule triple_return)
  moreover have "triple ?S (io_bind (flush_reports items) (\<lambda>rest. io_return (x @ rest))) (\<lambda>_. ?S) ?S" for x
    by (rule triple_bind[OF Cons.IH]) (rule triple_return)
  ultimately show ?case unfolding flush_reports.simps Let_def by (rule triple_bind)
qed

definition found :: "string \<Rightarrow> (string \<times> journal_file) list \<Rightarrow> string list \<Rightarrow> command_envelope list \<Rightarrow> bool" where
  "found dev J names cs \<longleftrightarrow>
     (\<forall>n \<in> set names. is_journal_name n \<longrightarrow> (\<forall>f. map_of J n = Some f \<longrightarrow>
        (\<exists>e. f = JournalFile e \<and> (\<not> je_delivered e \<longrightarrow> env_bridgeDeviceId (je_command e) = dev \<longrightarrow> je_command e \<in> set cs)))) \<and>
     (\<forall>c \<in> set cs. \<exists>n e. map_of J n = Some (JournalFile e) \<and> je_command e = c \<and> \<not> je_delivered e)"

lemma collect_ok:
  assumes P: "about_record P" and J: "\<And>d. P d \<Longrightarrow> dv_journal d = J"
  shows "triple P (collect_unfinished cr dev names) (\<lambda>cs d. P d \<and> found dev J names cs) P"
proof (induction names)
  case Nil
  show ?case by (simp add: triple_return found_def)
next
  case (Cons name names)
  show ?case
  proof (cases "is_journal_name name")
    case False
    then have "found dev J names cs \<Longrightarrow> found dev J (name # names) cs" for cs by (simp add: found_def)
    with Cons.IH False show ?thesis by (auto intro: triple_weaken)
  next
    case True
    let ?pick = "\<lambda>entry rest. case entry of None \<Rightarrow> rest
      | Some e \<Rightarrow> if \<not> je_delivered e \<and> env_bridgeDeviceId (je_command e) = dev then je_command e # rest else rest"
    have step: "found dev J (name # names) (?pick entry rest)" if "P d" "read_as cr name entry d" "found dev J names rest" for d entry rest
      using that J[of d] unfolding found_def read_as_def readJournal_def
      by (auto split: option.splits journal_file.splits if_splits)
    have tail: "triple (\<lambda>d. P d \<and> read_as cr name entry d)
      (io_bind (collect_unfinished cr dev names) (\<lambda>rest. io_return (?pick entry rest)))
      (\<lambda>cs d. P d \<and> found dev J (name # names) cs) P" for entry
    proof -
      have "triple P (io_bind (collect_unfinished cr dev names) (\<lambda>rest. io_return (?pick entry rest)))
        (\<lambda>cs d. P d \<and> ((\<exists>d. P d \<and> read_as cr name entry d) \<longrightarrow> found dev J (name # names) cs)) P"
        by (rule triple_bind[OF Cons.IH], rule triple_return) (use step in blast)
      then show ?thesis unfolding triple_def by (blast intro: post_mono)
    qed
    show ?thesis
      using True tail by (simp add: triple_lookup_bind[OF P])
  qed
qed

lemma triple_read:
  assumes "about_record P"
  shows "triple P (device_read f) (\<lambda>x d. P d \<and> x = f d) P"
  unfolding device_read_def
proof (rule triple_bind[where Q' = "\<lambda>_. P"])
  show "triple P (device_step id) (\<lambda>_. P) P" by (intro unrecordedD[OF unrecorded_id assms])
qed (simp add: triple_def io_get_def)

lemma session_empty: "session_ok cr ids dev hist {} = session_ok cr ids dev hist' {}"
  by (simp add: session_ok_def fun_eq_iff)

definition found_all :: "crypto \<Rightarrow> string set \<Rightarrow> string \<Rightarrow> command_envelope list \<Rightarrow> 'w device \<Rightarrow> bool" where
  "found_all cr ids dev cs d \<longleftrightarrow> session_ok cr ids dev {} {} d \<and> found dev (dv_journal d) (map fst (dv_journal d)) cs"

lemma about_found: "about_record (found_all cr ids dev cs)"
  unfolding found_all_def by (intro about_conj about_session) (auto simp: about_record_def same_record_def)

lemma unfinished_ok:
  "triple (session_ok cr ids dev {} {}) (unfinishedPhysicalCommands cr dev) (found_all cr ids dev) (session_ok cr ids dev {} {})"
  unfolding unfinishedPhysicalCommands_def
proof (rule triple_bind[OF triple_read[OF about_session]], rule tripleI)
  fix names and d :: "'w device" assume d: "session_ok cr ids dev {} {} d \<and> names = map fst (dv_journal d)"
  let ?P = "\<lambda>x :: 'w device. session_ok cr ids dev {} {} x \<and> dv_journal x = dv_journal d"
  have a: "about_record ?P" by (intro about_conj about_session) (auto simp: about_record_def same_record_def)
  have "post (\<lambda>cs x. ?P x \<and> found dev (dv_journal d) (sort_cmp code_unit_compare names) cs) ?P
      (collect_unfinished cr dev (sort_cmp code_unit_compare names) d)"
    by (rule triple_use[OF collect_ok[OF a]]) (use d in auto)
  moreover have "found J K (sort_cmp code_unit_compare names) cs = found J K names cs" for J K cs
    by (simp add: found_def)
  ultimately show "post (found_all cr ids dev) (session_ok cr ids dev {} {})
      (collect_unfinished cr dev (sort_cmp code_unit_compare names) d)"
    using d by (auto simp: found_all_def elim!: post_mono)
qed

lemma by_command_id:
  "distinct (map env_commandId (by_command_id cs)) \<and> set (map env_commandId (by_command_id cs)) = env_commandId ` set cs"
proof -
  have "(\<forall>(k, c) \<in> set m. k = env_commandId c) \<Longrightarrow> distinct (map fst m) \<Longrightarrow>
    (let m' = fold (\<lambda>c m. map_set m (env_commandId c) c) cs m in
      (\<forall>(k, c) \<in> set m'. k = env_commandId c) \<and> distinct (map fst m') \<and>
      fst ` set m' = fst ` set m \<union> env_commandId ` set cs)" for m
  proof (induction cs arbitrary: m)
    case (Cons c cs)
    have keep: "\<forall>(k, x) \<in> set (map_set m k' v). k = env_commandId x"
      if "\<forall>(k, x) \<in> set m. k = env_commandId x" "k' = env_commandId v" for k' v m
      using that by (induction m k' v rule: map_set.induct) auto
    show ?case
      using Cons.IH[OF keep[OF Cons.prems(1) refl] distinct_map_set[OF Cons.prems(2)]]
      by (auto simp: Let_def keys_map_set)
  qed (simp add: Let_def)
  from this[of "[]"] have m: "\<forall>(k, c) \<in> set (fold (\<lambda>c m. map_set m (env_commandId c) c) cs []). k = env_commandId c"
    "distinct (map fst (fold (\<lambda>c m. map_set m (env_commandId c) c) cs []))"
    "fst ` set (fold (\<lambda>c m. map_set m (env_commandId c) c) cs []) = env_commandId ` set cs" by (simp_all add: Let_def)
  have "map env_commandId (by_command_id cs) = map fst (fold (\<lambda>c m. map_set m (env_commandId c) c) cs [])"
    using m(1) by (auto simp: by_command_id_def)
  with m(2,3) show ?thesis by simp
qed

text \<open>The server offers commands in play, and none whose report it has taken.\<close>

definition honest_server :: "string set \<Rightarrow> (string list \<Rightarrow> command_envelope list) \<Rightarrow> bool" where
  "honest_server ids server \<longleftrightarrow> (\<forall>acc. \<forall>c \<in> set (server acc). env_commandId c \<in> ids \<and> env_commandId c \<notin> set acc)"

lemma session_begins:
  assumes names: "names_ok cr ids" and f: "found_all cr ids dev hist d"
    and s: "\<And>c. c \<in> set fetched \<Longrightarrow> env_commandId c \<in> ids \<and> env_commandId c \<notin> set (dv_accepted d)"
    and j: "j \<in> env_commandId ` set (hist @ fetched)"
  shows "j \<in> ids \<and> untouched cr (env_commandId ` set hist) d j"
proof -
  have ok: "entries_ok cr ids dev d" "attempts_ok cr ids d" and fd: "found dev (dv_journal d) (map fst (dv_journal d)) hist"
    using f by (auto simp: found_all_def session_ok_def)
  have entry: "\<exists>e. x = JournalFile e \<and> env_commandId (je_command e) = i \<and> (\<not> je_delivered e \<longrightarrow> je_command e \<in> set hist) \<and>
      (je_delivered e \<longrightarrow> i \<in> set (dv_accepted d))" if i: "i \<in> ids" "entry_at cr d i = Some x" for i x
  proof -
    have m: "map_of (dv_journal d) (journal_target cr i) = Some x" using i(2) by (simp add: entry_at_def)
    then have "journal_target cr i \<in> set (map fst (dv_journal d))" by (force dest: map_of_SomeD)
    moreover have "is_journal_name (journal_target cr i)" using names i(1) by (simp add: names_ok_def)
    ultimately obtain e where e: "x = JournalFile e"
      "\<not> je_delivered e \<longrightarrow> env_bridgeDeviceId (je_command e) = dev \<longrightarrow> je_command e \<in> set hist"
      using fd m unfolding found_def by blast
    from ok(1) m e(1) obtain i' where "i' \<in> ids" "journal_target cr i = journal_target cr i'"
      "env_commandId (je_command e) = i'" "env_bridgeDeviceId (je_command e) = dev" "je_delivered e \<longrightarrow> i' \<in> set (dv_accepted d)"
      unfolding entries_ok_def by blast
    with target_inject[OF names i(1)] e show ?thesis by auto
  qed
  have historical: "i \<in> ids \<and> (\<exists>e. entry_at cr d i = Some (JournalFile e) \<and> \<not> je_delivered e)"
    if i: "i \<in> env_commandId ` set hist" for i
  proof -
    obtain c where c: "c \<in> set hist" "i = env_commandId c" using i by auto
    then obtain n e where e: "map_of (dv_journal d) n = Some (JournalFile e)" "je_command e = c" "\<not> je_delivered e"
      using fd unfolding found_def by blast
    with ok(1) c obtain i' where "i' \<in> ids" "n = journal_target cr i'" "env_commandId c = i'"
      unfolding entries_ok_def by blast
    with c e show ?thesis by (auto simp: entry_at_def)
  qed
  have jids: "j \<in> ids" using j s historical by auto
  have nd: "\<not> je_delivered e" if e: "entry_at cr d j = Some (JournalFile e)" for e
  proof (cases "j \<in> env_commandId ` set hist")
    case True
    then show ?thesis using historical[OF True] e by auto
  next
    case False
    then have "j \<notin> set (dv_accepted d)" using j s by auto
    then show ?thesis using entry[OF jids e] by auto
  qed
  moreover have "j \<in> env_commandId ` set hist \<and> started cr d j" if "j \<in> set (dv_attempts d)"
  proof -
    have "started cr d j \<or> settled cr d j \<or> entry_at cr d j = Some DamagedFile"
      using ok(2) that by (simp add: attempts_ok_def)
    moreover have "entry_at cr d j \<noteq> Some DamagedFile" using entry[OF jids] by blast
    moreover have "\<not> settled cr d j"
    proof (cases "j \<in> env_commandId ` set hist")
      case True
      then show ?thesis using historical[OF True] by (auto simp: settled_def)
    next
      case False
      then show ?thesis using j s by (auto simp: settled_def)
    qed
    ultimately have st: "started cr d j" by blast
    then obtain e where "entry_at cr d j = Some (JournalFile e)" "\<not> je_delivered e" by (auto simp: started_def)
    with entry[OF jids] have "j \<in> env_commandId ` set hist" by blast
    with st show ?thesis by simp
  qed
  ultimately show ?thesis using jids by (simp add: untouched_def)
qed

lemma pending_ok:
  fixes h :: "'w host"
  assumes names: "names_ok (h_crypto h) ids" and server: "honest_server ids server" and identity: "identity = None \<or> identity = Some dev"
  shows "triple (session_ok (h_crypto h) ids dev {} {}) (processPendingBridgeCommands h identity server)
    (\<lambda>_. session_ok (h_crypto h) ids dev {} {}) (session_ok (h_crypto h) ids dev {} {})"
proof (cases identity)
  case None
  then show ?thesis by (simp add: processPendingBridgeCommands_def triple_return)
next
  case (Some dev')
  with identity have identity: "identity = Some dev" by simp
  let ?cr = "h_crypto h"
  let ?S = "session_ok ?cr ids dev {} {} :: 'w device \<Rightarrow> bool"
  let ?offered = "\<lambda>fetched d. \<forall>c \<in> set fetched. env_commandId c \<in> ids \<and> env_commandId c \<notin> set (dv_accepted d)"
  have flush: "triple ?S flushPendingReports (\<lambda>_. ?S) ?S"
    unfolding flushPendingReports_def by (rule triple_unrecorded_bind[OF unrecorded_files(4) about_session _ flush_ok])
  have fetch: "triple (found_all ?cr ids dev hist)
      (io_catch (device_read (\<lambda>d. server (dv_accepted d))) (\<lambda>e. if hist \<noteq> [] then io_return [] else io_throw e))
      (\<lambda>fetched d. found_all ?cr ids dev hist d \<and> ?offered fetched d) ?S" for hist
  proof (rule triple_weaken[where R = "found_all ?cr ids dev hist"], rule triple_catch)
    show "triple (found_all ?cr ids dev hist) (device_read (\<lambda>d. server (dv_accepted d)))
        (\<lambda>fetched d. found_all ?cr ids dev hist d \<and> ?offered fetched d) (found_all ?cr ids dev hist)"
      by (rule triple_weaken[OF triple_read[OF about_found]]) (use server in \<open>auto simp: honest_server_def\<close>)
  qed (auto intro: triple_if triple_return triple_throw simp: found_all_def)
  have loop: "triple (\<lambda>d. found_all ?cr ids dev hist d \<and> ?offered fetched d)
      (processCommands h dev delivered (map env_commandId hist) pending keys (by_command_id (hist @ fetched))) (\<lambda>_. ?S) ?S"
    for hist fetched delivered pending keys
  proof (rule tripleI)
    fix d :: "'w device" assume d: "found_all ?cr ids dev hist d \<and> ?offered fetched d"
    let ?cs = "by_command_id (hist @ fetched)"
    have b: "j \<in> ids \<and> untouched ?cr (env_commandId ` set hist) d j" if "j \<in> set (map env_commandId ?cs)" for j
      using session_begins[OF names] d that by_command_id[of "hist @ fetched"] by blast
    then have "session_ok ?cr ids dev (env_commandId ` set hist) (set (map env_commandId ?cs)) d"
      using d by (simp add: found_all_def session_ok_def)
    moreover have "triple (session_ok ?cr ids dev (env_commandId ` set hist) (set (map env_commandId ?cs)))
        (processCommands h dev delivered (map env_commandId hist) pending keys ?cs)
        (\<lambda>_. session_ok ?cr ids dev (env_commandId ` set hist) {}) (session_ok ?cr ids dev (env_commandId ` set hist) {})"
      by (rule process_all_ok[OF names]) (use b by_command_id in auto)
    ultimately show "post (\<lambda>_. ?S) ?S (processCommands h dev delivered (map env_commandId hist) pending keys ?cs d)"
      by (subst (1 2) session_empty[of _ _ _ _ "env_commandId ` set hist"]) (rule triple_use)
  qed
  have rest: "triple (\<lambda>d. found_all ?cr ids dev hist d \<and> ?offered fetched d)
      (io_bind loadReplayKeys (\<lambda>replayKeys. io_bind loadBridgeCommandOutbox (\<lambda>outbox.
       processCommands h dev delivered (map env_commandId hist)
         (map (\<lambda>item. rp_commandId (pr_report item)) outbox) replayKeys (by_command_id (hist @ fetched))))) (\<lambda>_. ?S) ?S"
    for hist fetched delivered
  proof -
    have a: "about_record (\<lambda>d :: 'w device. found_all ?cr ids dev hist d \<and> ?offered fetched d)"
      by (intro about_conj about_found) (auto simp: about_record_def same_record_def)
    show ?thesis
      by (intro triple_unrecorded_bind[OF unrecorded_files(3) a] triple_unrecorded_bind[OF unrecorded_files(4) a] loop)
        (auto simp: found_all_def)
  qed
  show ?thesis
    unfolding processPendingBridgeCommands_def identity option.case Let_def
    by (intro triple_bind[OF flush] triple_bind[OF unfinished_ok] triple_bind[OF fetch] rest)
qed

section \<open>The life of a device\<close>

definition fresh_device :: "'w \<Rightarrow> 'w device" where
  "fresh_device w = \<lparr>dv_replay = Some [], dv_outbox = Some [], dv_journal = [], dv_history = [], dv_attempts = [],
     dv_accepted = [], dv_remembered = [], dv_world = w, dv_luck = []\<rparr>"

text \<open>
  A paired device from its first start: sessions that end, fail or die at any step, whatever
  happens to the computer between them, and journal files that become unreadable.
\<close>

inductive device_life :: "'w host \<Rightarrow> string set \<Rightarrow> string \<Rightarrow> 'w device \<Rightarrow> bool" for h ids dev where
  life_start: "device_life h ids dev (fresh_device w)"
| life_session: "device_life h ids dev d \<Longrightarrow> honest_server ids server \<Longrightarrow> identity = None \<or> identity = Some dev \<Longrightarrow>
    device_life h ids dev (snd (processPendingBridgeCommands h identity server (d\<lparr>dv_luck := luck\<rparr>)))"
| life_world: "device_life h ids dev d \<Longrightarrow> device_life h ids dev (d\<lparr>dv_world := w\<rparr>)"
| life_damage: "device_life h ids dev d \<Longrightarrow> map_of (dv_journal d) name = Some x \<Longrightarrow>
    device_life h ids dev (d\<lparr>dv_journal := map_set (dv_journal d) name DamagedFile\<rparr>)"

lemma session_damage:
  assumes names: "names_ok cr ids" and s: "session_ok cr ids dev {} {} d" and m: "map_of (dv_journal d) name = Some x"
  shows "session_ok cr ids dev {} {} (d\<lparr>dv_journal := map_set (dv_journal d) name DamagedFile\<rparr>)"
    (is "session_ok _ _ _ _ _ ?d")
proof -
  obtain i where i: "i \<in> ids" "name = journal_target cr i"
    using s m unfolding session_ok_def entries_ok_def by blast
  have en: "entry_at cr ?d j = (if j = i then Some DamagedFile else entry_at cr d j)" if "j \<in> ids" for j
    unfolding i(2) by (rule entry_write[OF names i(1) that])
  have "entries_ok cr ids dev ?d" using s i unfolding session_ok_def entries_ok_def by auto
  moreover have "attempts_ok cr ids ?d"
    unfolding attempts_ok_def
  proof (intro conjI ballI)
    fix j assume j: "j \<in> set (dv_attempts ?d)"
    then have "j \<in> ids" using s by (auto simp: session_ok_def attempts_ok_def)
    with j s en show "started cr ?d j \<or> settled cr ?d j \<or> entry_at cr ?d j = Some DamagedFile"
      by (auto simp: session_ok_def attempts_ok_def started_def settled_def)
  qed (use s in \<open>simp_all add: session_ok_def attempts_ok_def\<close>)
  ultimately show ?thesis by (simp add: session_ok_def)
qed

lemma life_invariant:
  assumes names: "names_ok (h_crypto h) ids"
  shows "device_life h ids dev d \<Longrightarrow> session_ok (h_crypto h) ids dev {} {} d"
proof (induction rule: device_life.induct)
  case (life_start w)
  show ?case by (simp add: session_ok_def entries_ok_def attempts_ok_def fresh_device_def)
next
  case (life_session d server identity luck)
  then have "session_ok (h_crypto h) ids dev {} {} (d\<lparr>dv_luck := luck\<rparr>)" by (simp add: session_luck)
  then show ?case by (rule tripleD[OF pending_ok[OF names life_session.hyps(2,3)]])
next
  case (life_world d w)
  then show ?case by (simp add: record_defs)
next
  case (life_damage d name x)
  then show ?case by (simp add: session_damage[OF names])
qed

section \<open>A device at work\<close>

definition host_root :: bridge_root where
  "host_root = \<lparr>readPermission = True, watchPermission = False, recommendationPermission = False,
     organizationPlanPermission = False, createFolderPermission = True, moveFilePermission = True,
     renameFilePermission = False, connectionRevision = None, root_id = ''r'', actualPath = ''/u/lib'', connectedAt = 0,
     displayName = ''lib'', lastScanAt = None, lastWatchingAt = None, platform = MACOS, safeLocation = ''lib'',
     root_status = CONNECTED, updatedAt = 0, watcherState = W_STOPPED\<rparr>"

text \<open>A host whose operations complete, whose clock stands still and whose digests are constant.\<close>

definition calm_host :: "unit host" where
  "calm_host = \<lparr>h_native = (\<lambda>c w. (Ok (JObj [(''status'', JStr ''COMPLETED'')]), w)),
     h_root = (\<lambda>i w. (Ok host_root, w)),
     h_recover = (\<lambda>r as u n w. (Ok (JObj [(''status'', JStr ''FAILED'')]), w)),
     h_selectFolders = None, h_now = (\<lambda>w. (Ok 5, w)),
     h_crypto = \<lparr>cr_sha = (\<lambda>s. replicate 64 (CHR ''a'')), cr_hmac = (\<lambda>k s. s), cr_lc = (\<lambda>a b. 0), cr_iso = (\<lambda>t. ''t''),
       cr_time = (\<lambda>s. Some 9)\<rparr>\<rparr>"

definition plan_command :: command_envelope where
  "plan_command = \<lparr>env_authorizationContext = JObj [(''rootConnectionRevision'', JNum 0)], env_bridgeDeviceId = ''d'',
     env_bridgeRootId = Some ''r'', env_commandId = ''c'', env_commandType = EXECUTE_PLAN, env_connectedLibraryId = None,
     env_expiresAt = ''e'', env_idempotencyKey = ''k'', env_issuedAt = ''e'',
     env_payload = JObj [(''actions'', JArr [JObj [(''id'', JStr ''a''), (''actionType'', JStr ''MOVE_FILE''),
       (''destinationRelativePath'', JStr ''b.txt'')]])],
     env_payloadHash = replicate 64 (CHR ''a''), env_signature = ''s''\<rparr>"

definition plan_server :: "string list \<Rightarrow> command_envelope list" where
  "plan_server acc = (if ''c'' \<in> set acc then [] else [plan_command])"

definition calm_session :: "luck list \<Rightarrow> unit device \<Rightarrow> unit device" where
  "calm_session luck d = snd (processPendingBridgeCommands calm_host (Some ''d'') plan_server (d\<lparr>dv_luck := luck\<rparr>))"

text \<open>
  C5. A physical command begins at most once. Whatever answers are lost, steps fail or processes
  die, and however often the Bridge restarts, the execution of one command (a plan or an Undo)
  is started at most once, as long as the server does not offer a command again whose report it
  has taken.
\<close>
theorem physical_command_begins_once:
  assumes "names_ok (h_crypto h) ids" "device_life h ids dev d"
  shows "distinct (dv_attempts d)"
  using life_invariant[OF assms] by (simp add: session_ok_def attempts_ok_def)

text \<open>
  C6. No attempt is forgotten: for every physical command whose execution began, either the
  journal still holds its open entry (or an unreadable file, which stops the Bridge), so the
  next session recovers and reports it, or the server has taken a report of it.
\<close>
theorem attempts_accounted:
  assumes "names_ok (h_crypto h) ids" "device_life h ids dev d" "i \<in> set (dv_attempts d)" "i \<notin> set (dv_accepted d)"
  shows "started (h_crypto h) d i \<or> entry_at (h_crypto h) d i = Some DamagedFile"
  using life_invariant[OF assms(1,2)] assms(3,4) by (auto simp: session_ok_def attempts_ok_def settled_def)

text \<open>A session that dies right after the plan ran, and the next one.\<close>

definition interrupted :: "unit device" where
  "interrupted = calm_session (replicate 12 Lucky @ [DiedAfter]) (fresh_device ())"

lemma calm_names: "names_ok (h_crypto calm_host) {''c''}"
proof -
  have "is_journal_name (journal_target (h_crypto calm_host) ''c'')" by code_simp
  then show ?thesis by (simp add: names_ok_def)
qed

lemma calm_life: "device_life calm_host {''c''} ''d'' d \<Longrightarrow> device_life calm_host {''c''} ''d'' (calm_session luck d)"
  unfolding calm_session_def
  by (rule life_session) (auto simp: honest_server_def plan_server_def plan_command_def)

lemma interrupted_life: "device_life calm_host {''c''} ''d'' interrupted"
  unfolding interrupted_def by (intro calm_life life_start)

lemma interrupted_facts: "dv_attempts interrupted = [''c'']" "dv_accepted interrupted = []"
  "dv_attempts (calm_session [] interrupted) = [''c'']" "dv_accepted (calm_session [] interrupted) = [''c'']"
  by code_simp+

theorem physical_command_begins_once_witness: "distinct (dv_attempts (calm_session [] interrupted))"
  by (rule physical_command_begins_once[OF calm_names calm_life[OF interrupted_life]])

theorem attempts_accounted_witness:
  "started (h_crypto calm_host) interrupted ''c'' \<or> entry_at (h_crypto calm_host) interrupted ''c'' = Some DamagedFile"
  by (rule attempts_accounted[OF calm_names interrupted_life]) (simp_all add: interrupted_facts)

text \<open>
  Evidence of a first attempt is not always asked for. The comment above the test says that
  only exact PREPARED evidence can admit a first filesystem attempt; the code asks for it when the
  command is among the unfinished ones. A process that dies between the two halves of
  \<open>markPhysicalCommandDelivered\<close> leaves a delivered entry without a phase, which is not unfinished:
  should the server offer that command again, it is executed a second time.
\<close>

lemma reoffered_command_runs_again:
  "dv_attempts (snd (processPendingBridgeCommands calm_host (Some ''d'') (\<lambda>acc. [plan_command])
     (calm_session (replicate 17 Lucky @ [DiedAfter]) (fresh_device ())))) = [''c'', ''c'']"
  by code_simp

end
