(* ===== verification/CommandReports.thy ===== *)
theory CommandReports
  imports CommandRunnerFacts
begin

text \<open>
  The files beside the command journal: the replay cache keeps its newest 500 keys, each once; the
  outbox keeps one report per command, none with a local path; and an undisturbed session
  delivers every pending report.
\<close>

section \<open>Local paths\<close>

fun path_free :: "json \<Rightarrow> bool" where
  "path_free (JArr vs) = list_all path_free vs"
| "path_free (JObj fs) = list_all (\<lambda>(k, v). k \<notin> set privatePathKeys \<and> path_free v) fs"
| "path_free v = True"

lemma path_free_jsonSafe: "path_free (jsonSafe v)"
proof (induction v rule: jsonSafe.induct)
  case (2 fs)
  then show ?case by (auto simp: list_all_iff)
qed (auto simp: list_all_iff)

section \<open>The invariant of the files\<close>

text \<open>The newest keys: each at the place where it came last, at most 500 from the end.\<close>

definition newest_keys :: "string list \<Rightarrow> string list" where
  "newest_keys given = (let keys = remdups given in drop (length keys - replayCacheLimit) keys)"

lemma remdups_snoc: "remdups (xs @ [x]) = filter (\<lambda>y. y \<noteq> x) (remdups xs) @ [x]"
  by (induction xs) auto

lemma drop_filter_last:
  assumes "distinct ks"
  shows "drop (length (filter (\<lambda>y. y \<noteq> x) ks @ [x]) - n) (filter (\<lambda>y. y \<noteq> x) ks @ [x]) =
    (let c = filter (\<lambda>y. y \<noteq> x) (drop (length ks - n) ks) @ [x] in drop (length c - n) c)"
proof -
  define old where "old = filter (\<lambda>y. y \<noteq> x) (take (length ks - n) ks)"
  define c where "c = filter (\<lambda>y. y \<noteq> x) (drop (length ks - n) ks) @ [x]"
  have split: "filter (\<lambda>y. y \<noteq> x) ks @ [x] = old @ c"
    unfolding old_def c_def by (metis append_assoc append_take_drop_id filter_append)
  have "old = [] \<or> n \<le> length c"
  proof (cases "length ks \<le> n")
    case False
    let ?late = "drop (length ks - n) ks"
    have "distinct ?late" "length ?late = n" using assms False by simp_all
    then have "n \<le> Suc (length (filter (\<lambda>y. y \<noteq> x) ?late))"
      using sum_length_filter_compl[of "\<lambda>y. y \<noteq> x" ?late] distinct_length_filter[of ?late "\<lambda>y. \<not> y \<noteq> x"]
        card_mono[of "{x}" "{y. \<not> y \<noteq> x} \<inter> set ?late"] by auto
    then show ?thesis by (simp add: c_def)
  qed (simp add: old_def)
  then show ?thesis unfolding split Let_def c_def[symmetric] by auto
qed

lemma newest_snoc: "newest_keys (given @ [key]) = remembered key (newest_keys given)"
  unfolding newest_keys_def remembered_def remdups_snoc Let_def
  by (subst drop_filter_last[OF distinct_remdups]) (simp add: Let_def)

lemma newest_bounded: "length (newest_keys given) \<le> replayCacheLimit" "distinct (newest_keys given)"
  by (simp_all add: newest_keys_def Let_def)

definition replay_ok :: "'w device \<Rightarrow> bool" where
  "replay_ok d \<longleftrightarrow> (\<forall>ks. dv_replay d = Some ks \<longrightarrow> ks = newest_keys (dv_remembered d))"

definition report_ids :: "pending_report list \<Rightarrow> string list" where
  "report_ids rs = map (\<lambda>r. rp_commandId (pr_report r)) rs"

definition outbox_ok :: "pending_report list option \<Rightarrow> bool" where
  "outbox_ok x \<longleftrightarrow> (\<forall>rs. x = Some rs \<longrightarrow> distinct (report_ids rs) \<and>
     (\<forall>r \<in> set rs. path_free (rp_result (pr_report r))))"

definition files_ok :: "'w device \<Rightarrow> bool" where
  "files_ok d \<longleftrightarrow> replay_ok d \<and> outbox_ok (dv_outbox d)"

lemma other_reports_ok: "outbox_ok (Some rs) \<Longrightarrow> outbox_ok (Some (other_reports i rs))"
  by (auto simp: outbox_ok_def other_reports_def report_ids_def distinct_map_filter inj_on_def distinct_map)

lemma queued_ok:
  "outbox_ok (Some rs) \<Longrightarrow> path_free (rp_result r) \<Longrightarrow>
    outbox_ok (Some (other_reports (rp_commandId r) rs @ [\<lparr>pr_queuedAt = t, pr_replayKey = k, pr_report = r\<rparr>]))"
  using other_reports_ok[of rs "rp_commandId r"]
  by (auto simp: outbox_ok_def report_ids_def other_reports_def)

lemma files_step: "(\<And>d. files_ok d \<Longrightarrow> files_ok (f d)) \<Longrightarrow> preserves files_ok (device_step f)"
  unfolding preserves_def by (rule triple_step) (auto simp: files_ok_def replay_ok_def)

lemma files_same: "(\<And>d. dv_replay (f d) = dv_replay d \<and> dv_remembered (f d) = dv_remembered d \<and> dv_outbox (f d) = dv_outbox d) \<Longrightarrow>
    preserves files_ok (device_step f)"
  by (rule files_step) (simp add: files_ok_def replay_ok_def)

lemma files_world [keeps]: "preserves files_ok (on_world (m :: ('w, 'a) io))"
  unfolding preserves_def
proof (rule tripleI)
  fix d :: "'w device" assume d: "files_ok d"
  obtain r w where "m (dv_world d) = (r, w)" by fastforce
  with d show "post (\<lambda>_. files_ok) files_ok (on_world m d)" by (cases r) (simp_all add: on_world_def files_ok_def replay_ok_def)
qed

lemma files_id [keeps]: "preserves files_ok (device_step id)"
  by (rule files_step) simp

lemma files_get [keeps]: "preserves files_ok (io_get f)"
  by (simp add: preserves_def triple_def io_get_def)

lemma files_read [keeps]: "preserves files_ok (device_read f)"
  unfolding device_read_def by (intro keeps)

lemma files_result [keeps]: "preserves files_ok (io_result r)"
  by (cases r) (simp_all add: io_result_def keeps)

lemma triple_or_damaged:
  "triple files_ok (io_bind (device_read (\<lambda>d. or_damaged (f d))) io_result) (\<lambda>x d. files_ok d \<and> f d = Some x) files_ok"
proof (rule triple_bind[where Q' = "\<lambda>r d. files_ok d \<and> or_damaged (f d) = r"])
  show "triple files_ok (device_read (\<lambda>d. or_damaged (f d))) (\<lambda>r d. files_ok d \<and> or_damaged (f d) = r) files_ok"
    unfolding device_read_def
    by (rule triple_bind[OF files_id[unfolded preserves_def]]) (auto simp: triple_def io_get_def)
  show "triple (\<lambda>d. files_ok d \<and> or_damaged (f d) = r) (io_result r) (\<lambda>x d. files_ok d \<and> f d = Some x) files_ok" for r
    by (cases r) (auto simp: triple_def io_result_def io_return_def io_throw_def or_damaged_def split: option.splits)
qed

lemma files_bind_read:
  assumes "m = io_bind (device_read (\<lambda>d. or_damaged (f d))) io_result"
    and "\<And>x. triple (\<lambda>d. files_ok d \<and> f d = Some x) (g x) (\<lambda>_. files_ok) files_ok"
  shows "preserves files_ok (io_bind m g)"
  unfolding preserves_def assms(1) by (rule triple_bind[OF triple_or_damaged assms(2)])

lemma files_bind_seen:
  assumes "m = io_bind (device_read (\<lambda>d. or_damaged (f d))) io_result"
    and "\<And>x d. files_ok d \<Longrightarrow> f d = Some x \<Longrightarrow> preserves files_ok (g x)"
  shows "preserves files_ok (io_bind m g)"
proof (rule files_bind_read[OF assms(1)])
  fix x
  show "triple (\<lambda>d. files_ok d \<and> f d = Some x) (g x) (\<lambda>_. files_ok) files_ok"
    using assms(2) unfolding preserves_def triple_def by blast
qed

lemma files_remember [keeps]: "preserves files_ok (rememberReplayKey key)"
  unfolding rememberReplayKey_def
proof (rule files_bind_read[OF loadReplayKeys_def])
  fix ks
  show "triple (\<lambda>d. files_ok d \<and> dv_replay d = Some ks) (device_step (\<lambda>d. d\<lparr>dv_replay := Some (remembered key ks),
      dv_remembered := dv_remembered d @ [key]\<rparr>)) (\<lambda>_. files_ok) files_ok"
    by (rule triple_step) (auto simp: files_ok_def replay_ok_def newest_snoc)
qed

lemma files_queue: "path_free (rp_result r) \<Longrightarrow> preserves files_ok (queueBridgeCommandReport h key r)"
  unfolding queueBridgeCommandReport_def
proof (rule files_bind_seen[OF loadBridgeCommandOutbox_def])
  fix rs and d :: "'a device" assume "path_free (rp_result r)" "files_ok d" "dv_outbox d = Some rs"
  then have "outbox_ok (Some (other_reports (rp_commandId r) rs @ [\<lparr>pr_queuedAt = t, pr_replayKey = key, pr_report = r\<rparr>]))" for t
    by (intro queued_ok) (simp_all add: files_ok_def)
  then show "preserves files_ok (io_bind (host_now h) (\<lambda>now. write_reports (other_reports (rp_commandId r) rs @
      [\<lparr>pr_queuedAt = cr_iso (h_crypto h) now, pr_replayKey = key, pr_report = r\<rparr>])))"
    unfolding host_now_def write_reports_def by (intro keeps files_step) (simp add: files_ok_def replay_ok_def)
qed

lemma files_remove [keeps]: "preserves files_ok (removeBridgeCommandReport i)"
  unfolding removeBridgeCommandReport_def Let_def
proof (rule files_bind_seen[OF loadBridgeCommandOutbox_def])
  fix rs and d :: "'a device" assume "files_ok d" "dv_outbox d = Some rs"
  then have "outbox_ok (Some (other_reports i rs))" by (intro other_reports_ok) (simp add: files_ok_def)
  then show "preserves files_ok (io_when (length (other_reports i rs) \<noteq> length rs) (write_reports (other_reports i rs)))"
    unfolding write_reports_def by (intro keeps files_step) (simp add: files_ok_def replay_ok_def)
qed

lemma files_load [keeps]: "preserves files_ok loadReplayKeys" "preserves files_ok loadBridgeCommandOutbox"
  unfolding loadReplayKeys_def loadBridgeCommandOutbox_def by (intro keeps)+

lemma files_journal [keeps]:
  "preserves files_ok (journal_lookup cr name)" "preserves files_ok (history_lookup cr name)"
  "preserves files_ok (journal_write cr e)"
  unfolding journal_lookup_def history_lookup_def journal_write_def by (intro keeps files_same; simp)+

lemma files_journal_ops [keeps]:
  "preserves files_ok (preparePhysicalCommand cr c b)" "preserves files_ok (physicalCommandNeverStarted cr c)"
  "preserves files_ok (markPhysicalCommandStarted cr c)" "preserves files_ok (markPhysicalCommandDelivered cr c)"
  unfolding preparePhysicalCommand_def physicalCommandNeverStarted_def markPhysicalCommandStarted_def
    markPhysicalCommandDelivered_def Let_def
  by (intro keeps files_same; simp add: move_to_history_def split: option.split)+

lemma files_collect [keeps]: "preserves files_ok (collect_unfinished cr dev names)"
  by (induction cr dev names rule: collect_unfinished.induct) (simp_all add: keeps)

lemma files_unfinished [keeps]: "preserves files_ok (unfinishedPhysicalCommands cr dev)"
  unfolding unfinishedPhysicalCommands_def by (intro keeps)

lemma files_native [keeps]:
  "preserves files_ok (performCommand h c)" "preserves files_ok (expired_now h c)" "preserves files_ok (host_call h x)"
proof -
  show hc: "preserves files_ok (host_call h x)" for x unfolding host_call_def by (intro keeps)
  show "preserves files_ok (performCommand h c)"
    unfolding performCommand_def on_root_def on_root_actions_def updatePermissions_def Let_def
    by (cases "env_commandType c"; simp only: command_type.case; intro keeps hc)
  show "preserves files_ok (expired_now h c)" unfolding expired_now_def host_now_def by (intro keeps)
qed

lemma files_execution [keeps]:
  "preserves files_ok (executeCommand h c)" "preserves files_ok (recoverCommand h c b)"
  "preserves files_ok (note_attempt p i)"
proof -
  show "preserves files_ok (executeCommand h c)" unfolding executeCommand_def checkConnection_def Let_def by (intro keeps)
  show "preserves files_ok (recoverCommand h c b)" unfolding recoverCommand_def Let_def by (intro keeps)
  show "preserves files_ok (note_attempt p i)" by (auto simp: preserves_def triple_def note_attempt_def files_ok_def replay_ok_def)
qed

lemma files_report [keeps]: "preserves files_ok (reportBridgeCommand r)"
  "preserves files_ok (acknowledgeBridgeCommand i)" "preserves files_ok (acknowledge_or_rethrow b c)"
  unfolding reportBridgeCommand_def acknowledge_or_rethrow_def acknowledgeBridgeCommand_def
  by (intro keeps files_same; simp)+

lemma files_submit: "path_free (rp_result r) \<Longrightarrow> preserves files_ok (submitPersistedReport h key r)"
  unfolding submitPersistedReport_def by (intro keeps files_queue)

lemma files_flush [keeps]: "preserves files_ok (flush_reports items)"
  by (induction items) (simp_all add: keeps Let_def)

lemma files_ignoring [keeps]: "preserves files_ok m \<Longrightarrow> preserves files_ok (ignoring m)"
  unfolding ignoring_def by (intro keeps)

lemma files_reject [keeps]: "preserves files_ok (rejectCommand h c x key)"
  unfolding rejectCommand_def by (intro keeps files_submit) simp

text \<open>The reports of an attempt carry a \<open>jsonSafe\<close> result.\<close>

definition clean_report :: "command_report \<Rightarrow> bool" where
  "clean_report r \<longleftrightarrow> path_free (rp_result r)"

lemma clean_reports: "clean_report (completed_report c v)" "clean_report (failed_report c e x)"
  by (auto simp: clean_report_def completed_report_def failed_report_def path_free_jsonSafe split: option.split)

lemma triple_clean_bind:
  assumes "preserves files_ok m" "\<And>x. triple files_ok (f x) (\<lambda>r d. files_ok d \<and> clean_report r) files_ok"
  shows "triple files_ok (io_bind m f) (\<lambda>r d. files_ok d \<and> clean_report r) files_ok"
  using assms unfolding preserves_def by (rule triple_bind)

lemma files_attempt:
  "triple files_ok (io_catch (attemptCommand h a b k c) (recoverFailed h c)) (\<lambda>r d. files_ok d \<and> clean_report r) files_ok"
proof (rule triple_catch)
  show "triple files_ok (attemptCommand h a b k c) (\<lambda>r d. files_ok d \<and> clean_report r) files_ok"
    unfolding attemptCommand_def Let_def
    by (intro triple_clean_bind triple_return keeps) (simp_all add: clean_reports)
  show "triple files_ok (recoverFailed h c e) (\<lambda>r d. files_ok d \<and> clean_report r) files_ok" for e
    unfolding recoverFailed_def by (intro triple_if triple_clean_bind triple_return keeps) (simp_all add: clean_reports)
qed

lemma files_submitted:
  assumes "\<And>report delivered. preserves files_ok (f report delivered)"
  shows "preserves files_ok (io_bind (io_catch (attemptCommand h a b k c) (recoverFailed h c)) (\<lambda>report.
      io_bind (submitPersistedReport h key report) (f report)))"
  unfolding preserves_def
proof (rule triple_bind[OF files_attempt])
  fix report
  have "clean_report report \<Longrightarrow> preserves files_ok (io_bind (submitPersistedReport h key report) (f report))"
    by (intro keeps files_submit assms) (simp add: clean_report_def)
  then show "triple (\<lambda>d. files_ok d \<and> clean_report report)
      (io_bind (submitPersistedReport h key report) (f report)) (\<lambda>_. files_ok) files_ok"
    unfolding preserves_def triple_def by blast
qed

lemma files_admit [keeps]: "preserves files_ok (admitCommand h b keys c)"
  unfolding admitCommand_def Let_def by (intro files_submitted keeps)

lemma files_process [keeps]: "preserves files_ok (processCommand h dev delivered ids pending keys c)"
  unfolding processCommand_def Let_def by (intro keeps)

lemma files_process_all [keeps]: "preserves files_ok (processCommands h dev delivered ids pending keys cs)"
  by (induction cs arbitrary: keys) (auto intro!: keeps split: prod.splits)

lemma files_pending: "preserves files_ok (processPendingBridgeCommands h identity server)"
  unfolding processPendingBridgeCommands_def flushPendingReports_def Let_def by (intro keeps)

lemma life_files: "device_life h ids dev d \<Longrightarrow> files_ok d"
proof (induction rule: device_life.induct)
  case (life_session d server identity luck)
  then have "files_ok (d\<lparr>dv_luck := luck\<rparr>)" by (simp add: files_ok_def replay_ok_def)
  then show ?case by (rule preserves_use[OF files_pending])
qed (auto simp: files_ok_def fresh_device_def replay_ok_def newest_keys_def outbox_ok_def report_ids_def)

text \<open>
  C32. The replay cache holds the newest keys: at every moment of a device's life a readable cache
  is what is left of the keys that were given to it (\<open>dv_remembered\<close>, in order) when each is kept at its last place and
  only the last 500 are kept. So it has at most 500 keys, and none of them twice.
\<close>
theorem replay_cache_bounded:
  assumes "device_life h ids dev d" "dv_replay d = Some keys"
  shows "keys = (let given = remdups (dv_remembered d) in drop (length given - 500) given) \<and>
    length keys \<le> 500 \<and> distinct keys"
proof -
  have "keys = newest_keys (dv_remembered d)" using life_files[OF assms(1)] assms(2) by (simp add: files_ok_def replay_ok_def)
  then show ?thesis using newest_bounded[of "dv_remembered d"] by (simp add: newest_keys_def replayCacheLimit_def)
qed

theorem replay_cache_bounded_witness: "\<exists>keys. dv_replay (calm_session [] interrupted) = Some keys \<and> keys = [''d:c:k''] \<and>
    keys = (let given = remdups (dv_remembered (calm_session [] interrupted)) in drop (length given - 500) given) \<and>
    length keys \<le> 500 \<and> distinct keys"
proof -
  have k: "dv_replay (calm_session [] interrupted) = Some [''d:c:k'']" by code_simp
  from k replay_cache_bounded[OF calm_life[OF interrupted_life] k] show ?thesis by blast
qed

text \<open>
  C33. No field for a local path leaves the computer in a report: in every life of a device the outbox
  holds at most one report for a command, and no object at any depth of a report's result has a field
  actualPath, localPath or rootPath. Texts under other names are reported as they are.
\<close>
theorem reports_hide_paths:
  assumes "device_life h ids dev d" "dv_outbox d = Some reports"
  shows "distinct (report_ids reports) \<and> list_all (\<lambda>r. path_free (rp_result (pr_report r))) reports"
  using life_files[OF assms(1)] assms(2) by (simp add: files_ok_def outbox_ok_def list_all_iff)

definition unsent :: "unit device" where
  "unsent = calm_session (replicate 13 Lucky @ [DiedAfter]) (fresh_device ())"

theorem reports_hide_paths_witness: "\<exists>reports. dv_outbox unsent = Some reports \<and> report_ids reports = [''c''] \<and>
    list_all (\<lambda>r. path_free (rp_result (pr_report r))) reports"
proof -
  have "map_option report_ids (dv_outbox unsent) = Some [''c'']" by code_simp
  then obtain reports where r: "dv_outbox unsent = Some reports" "report_ids reports = [''c'']" by auto
  have "device_life calm_host {''c''} ''d'' unsent" unfolding unsent_def by (intro calm_life life_start)
  from reports_hide_paths[OF this r(1)] r show ?thesis by blast
qed

section \<open>Delivery\<close>

lemma calm_step [simp]: "dv_luck d = [] \<Longrightarrow> device_step f d = (Ok (), f d)"
  by (simp add: device_step_def)

lemma calm_read [simp]: "dv_luck d = [] \<Longrightarrow> device_read f d = (Ok (f d), d)"
  by (simp add: device_read_def io_bind_def io_get_def)

lemma calm_remove:
  assumes "dv_luck d = []" "dv_outbox d = Some rs"
  shows "removeBridgeCommandReport i d = (Ok (), d\<lparr>dv_outbox := Some (other_reports i rs)\<rparr>)"
proof (cases "length (other_reports i rs) = length rs")
  case True
  then have "other_reports i rs = rs"
    using length_filter_less[of _ rs "\<lambda>item. rp_commandId (pr_report item) \<noteq> i"]
    by (auto simp: other_reports_def filter_id_conv)
  with assms True show ?thesis
    by (simp add: removeBridgeCommandReport_def loadBridgeCommandOutbox_def io_bind_def io_result_def io_return_def
      or_damaged_def io_when_def Let_def)
next
  case False
  with assms show ?thesis
    by (simp add: removeBridgeCommandReport_def loadBridgeCommandOutbox_def io_bind_def io_result_def io_return_def
      or_damaged_def io_when_def Let_def write_reports_def)
qed

lemma calm_remember:
  assumes "dv_luck d = []" "dv_replay d = Some keys"
  shows "rememberReplayKey key d = (Ok (), d\<lparr>dv_replay := Some (remembered key keys), dv_remembered := dv_remembered d @ [key]\<rparr>)"
  using assms by (simp add: rememberReplayKey_def loadReplayKeys_def io_bind_def io_result_def io_return_def or_damaged_def)

lemma calm_flush:
  "dv_luck d = [] \<Longrightarrow> dv_outbox d = Some rs \<Longrightarrow> dv_replay d = Some keys \<Longrightarrow>
    \<exists>keys'. flush_reports items d = (Ok (report_ids items), d\<lparr>dv_accepted := dv_accepted d @ report_ids items,
      dv_outbox := Some (filter (\<lambda>r. rp_commandId (pr_report r) \<notin> set (report_ids items)) rs), dv_replay := Some keys',
      dv_remembered := dv_remembered d @ map pr_replayKey items\<rparr>)"
proof (induction items arbitrary: d rs keys)
  case Nil
  have "d\<lparr>dv_accepted := dv_accepted d, dv_outbox := Some rs, dv_replay := Some keys, dv_remembered := dv_remembered d\<rparr> = d" using Nil by (cases d) simp
  then show ?case by (intro exI[of _ keys]) (simp add: io_return_def report_ids_def)
next
  case (Cons item items)
  let ?i = "rp_commandId (pr_report item)"
  let ?d = "d\<lparr>dv_accepted := dv_accepted d @ [?i], dv_outbox := Some (other_reports ?i rs),
    dv_replay := Some (remembered (pr_replayKey item) keys), dv_remembered := dv_remembered d @ [pr_replayKey item]\<rparr>"
  have one: "io_catch (io_bind (reportBridgeCommand (pr_report item)) (\<lambda>_. io_bind (removeBridgeCommandReport ?i) (\<lambda>_.
      io_bind (rememberReplayKey (pr_replayKey item)) (\<lambda>_. io_return [?i])))) (\<lambda>_. io_return []) d = (Ok [?i], ?d)"
    using Cons.prems by (simp add: io_catch_def io_bind_def reportBridgeCommand_def calm_remove[where rs = rs]
      calm_remember[where keys = keys] io_return_def)
  obtain keys' where rest: "flush_reports items ?d = (Ok (report_ids items), ?d\<lparr>dv_accepted := dv_accepted ?d @ report_ids items,
      dv_outbox := Some (filter (\<lambda>r. rp_commandId (pr_report r) \<notin> set (report_ids items)) (other_reports ?i rs)),
      dv_replay := Some keys', dv_remembered := dv_remembered ?d @ map pr_replayKey items\<rparr>)"
    using Cons.IH[of ?d "other_reports ?i rs" "remembered (pr_replayKey item) keys"] Cons.prems by auto
  have f: "filter (\<lambda>r. rp_commandId (pr_report r) \<notin> set (report_ids items)) (other_reports ?i rs) =
      filter (\<lambda>r. rp_commandId (pr_report r) \<notin> set (report_ids (item # items))) rs"
    by (simp add: other_reports_def report_ids_def conj_commute)
  have "flush_reports (item # items) d = (Ok (report_ids (item # items)), ?d\<lparr>dv_accepted := dv_accepted ?d @ report_ids items,
      dv_outbox := Some (filter (\<lambda>r. rp_commandId (pr_report r) \<notin> set (report_ids items)) (other_reports ?i rs)),
      dv_replay := Some keys', dv_remembered := dv_remembered ?d @ map pr_replayKey items\<rparr>)"
    unfolding flush_reports.simps Let_def io_bind_def[of "io_catch m k" for m k] one
    using rest by (simp add: io_bind_def io_return_def report_ids_def)
  then show ?case unfolding f by (intro exI[of _ keys']) (simp add: report_ids_def)
qed

text \<open>
  C31. Reports get through: when no step of it fails, the flush at the start of a session delivers
  every pending report, in order, and leaves the outbox empty.
\<close>
theorem pending_reports_delivered:
  assumes "dv_luck d = []" "dv_outbox d = Some rs" "dv_replay d = Some keys"
  shows "\<exists>d'. flushPendingReports d = (Ok (report_ids rs), d') \<and> dv_outbox d' = Some [] \<and>
    dv_accepted d' = dv_accepted d @ report_ids rs \<and> dv_journal d' = dv_journal d"
proof -
  obtain keys' where f: "flush_reports rs d = (Ok (report_ids rs), d\<lparr>dv_accepted := dv_accepted d @ report_ids rs,
      dv_outbox := Some (filter (\<lambda>r. rp_commandId (pr_report r) \<notin> set (report_ids rs)) rs), dv_replay := Some keys',
      dv_remembered := dv_remembered d @ map pr_replayKey rs\<rparr>)"
    using calm_flush[OF assms] by blast
  have "filter (\<lambda>r. rp_commandId (pr_report r) \<notin> set (report_ids rs)) rs = []"
    by (auto simp: filter_empty_conv report_ids_def)
  with f assms show ?thesis
    by (simp add: flushPendingReports_def loadBridgeCommandOutbox_def io_bind_def io_result_def io_return_def or_damaged_def)
qed

theorem pending_reports_delivered_witness:
  "\<exists>rs d'. dv_outbox unsent = Some rs \<and> report_ids rs = [''c''] \<and>
    flushPendingReports (unsent\<lparr>dv_luck := []\<rparr>) = (Ok (report_ids rs), d') \<and> dv_outbox d' = Some [] \<and> dv_accepted d' = [''c'']"
proof -
  have u: "map_option report_ids (dv_outbox unsent) = Some [''c'']" "dv_replay unsent = Some []" "dv_accepted unsent = []"
    by code_simp+
  then obtain rs where r: "dv_outbox unsent = Some rs" "report_ids rs = [''c'']" by auto
  with u pending_reports_delivered[of "unsent\<lparr>dv_luck := []\<rparr>" rs "[]"] show ?thesis by auto
qed

end
