(* ===== verification/VersionIndex.thy ===== *)
theory VersionIndex
  imports Prelude "HOL-Library.Word"
begin

text \<open>
  Document versions in the library (\<open>src/lib/bridge/document-version-index.ts\<close> and
  \<open>compareDocumentVersions\<close> of \<open>document-signals.ts\<close>): which member of a document family is newer than
  which, counted for all members at once by a sweep over a binary indexed tree.

  A JavaScript object that is a key of a \<open>Map\<close> is a pair of its reference and its fields. The optional
  counter of visited entries is always kept and returned. A loop whose end is not evident is a
  partial function: \<open>None\<close> stands for a loop that does not end or that adds an element outside its
  array.
\<close>

unbundle bit_operations_syntax

section \<open>Numbers\<close>

text \<open>
  \<open>Number(text)\<close> of a piece of a revision. A value above 2\<open>^\<close>53 is rounded to the nearest double, ties to
  an even significand. A text that is neither blank nor decimal digits is not a number here:
  \<open>Number\<close> also reads signs, exponents and radix prefixes, which the pattern of
  \<open>resolveDocumentEvidence\<close> does not let into a revision.
\<close>

datatype js_number = NaN | Infinite | Fin int

function bit_length :: "int \<Rightarrow> nat" where
  "bit_length n = (if n \<le> 0 then 0 else Suc (bit_length (n div 2)))"
  by pat_completeness auto
termination by (relation "measure nat") auto

declare bit_length.simps [simp del]

definition nearest_double :: "int \<Rightarrow> int" where
  "nearest_double n =
     (if n < 2 ^ 53 then n
      else let e = bit_length n - 53; q = n div 2 ^ e; r = n mod 2 ^ e; half = 2 ^ (e - 1)
           in (if half < r \<or> r = half \<and> odd q then q + 1 else q) * 2 ^ e)"

definition js_Number :: "string \<Rightarrow> js_number" where
  "js_Number text =
     (let t = trim text in
      if t = [] then Fin 0
      else if list_all is_digit t
      then let v = nearest_double (int (dec_val t)) in if v < 2 ^ 1024 then Fin v else Infinite
      else NaN)"

fun js_neq :: "js_number \<Rightarrow> js_number \<Rightarrow> bool" where
  "js_neq NaN b = True"
| "js_neq a b = (a \<noteq> b)"

fun js_gt :: "js_number \<Rightarrow> js_number \<Rightarrow> bool" where
  "js_gt (Fin a) (Fin b) \<longleftrightarrow> b < a"
| "js_gt Infinite (Fin b) \<longleftrightarrow> True"
| "js_gt a b \<longleftrightarrow> False"

text \<open>\<open>a - b\<close>: its sign, \<open>None\<close> when it is not a number.\<close>

fun js_minus :: "js_number \<Rightarrow> js_number \<Rightarrow> int option" where
  "js_minus (Fin a) (Fin b) = Some (a - b)"
| "js_minus Infinite (Fin b) = Some 1"
| "js_minus (Fin a) Infinite = Some (- 1)"
| "js_minus a b = None"

section \<open>Signals\<close>

record version_markers =
  revisionNumber :: "string option"
  revisionDate :: "string option"

record indexed_version = version_markers +
  iv_connectedLibraryId :: string
  iv_identityHash :: string
  iv_fileKey :: string
  iv_checksum :: string

type_synonym ref = nat

definition nul :: char where "nul = CHR 0x00"

definition versionEndpoint :: "'a indexed_version_scheme \<Rightarrow> string" where
  "versionEndpoint signal = iv_connectedLibraryId signal @ [nul] @ iv_fileKey signal @ [nul] @ iv_checksum signal"

section \<open>Comparing revisions\<close>

function drop_zeros :: "js_number list \<Rightarrow> js_number list" where
  "drop_zeros parts = (if 1 < length parts \<and> last parts = Fin 0 then drop_zeros (butlast parts) else parts)"
  by pat_completeness auto
termination by (relation "measure length") auto

declare drop_zeros.simps [simp del]

definition numericRevision :: "string option \<Rightarrow> js_number list option" where
  "numericRevision value =
     (case value of
        None \<Rightarrow> None
      | Some v \<Rightarrow> if v = [] then None else Some (drop_zeros (map js_Number (split_on (CHR ''.'') v))))"

fun compareNumericRevision :: "js_number list \<Rightarrow> js_number list \<Rightarrow> int option" where
  "compareNumericRevision [] [] = Some 0"
| "compareNumericRevision (a # as) [] =
     (if js_neq a (Fin 0) then js_minus a (Fin 0) else compareNumericRevision as [])"
| "compareNumericRevision [] (b # bs) =
     (if js_neq (Fin 0) b then js_minus (Fin 0) b else compareNumericRevision [] bs)"
| "compareNumericRevision (a # as) (b # bs) =
     (if js_neq a b then js_minus a b else compareNumericRevision as bs)"

fun compare_parts :: "js_number list \<Rightarrow> js_number list \<Rightarrow> int" where
  "compare_parts [] [] = 0"
| "compare_parts (a # as) [] =
     (if js_neq a (Fin 0) then if js_gt a (Fin 0) then 1 else - 1 else compare_parts as [])"
| "compare_parts [] (b # bs) =
     (if js_neq (Fin 0) b then if js_gt (Fin 0) b then 1 else - 1 else compare_parts [] bs)"
| "compare_parts (a # as) (b # bs) =
     (if js_neq a b then if js_gt a b then 1 else - 1 else compare_parts as bs)"

definition compareDocumentVersions ::
  "(string \<Rightarrow> string \<Rightarrow> int) \<Rightarrow> 'a version_markers_scheme \<Rightarrow> 'b version_markers_scheme \<Rightarrow> int option" where
  "compareDocumentVersions localeCompare left right =
     (let numeric = (case (present (revisionNumber left), present (revisionNumber right)) of
            (Some l, Some r) \<Rightarrow>
              Some (compare_parts (map js_Number (split_on (CHR ''.'') l)) (map js_Number (split_on (CHR ''.'') r)))
          | _ \<Rightarrow> None);
          dated = (case (present (revisionDate left), present (revisionDate right)) of
            (Some l, Some r) \<Rightarrow> Some (sgn (localeCompare l r))
          | _ \<Rightarrow> None)
      in if numeric \<noteq> None \<and> dated \<noteq> None \<and> numeric \<noteq> Some 0 \<and> dated \<noteq> Some 0 \<and> numeric \<noteq> dated then None
         else if numeric \<noteq> None \<and> numeric \<noteq> Some 0 then numeric
         else if dated \<noteq> None \<and> dated \<noteq> Some 0 then dated
         else None)"

text \<open>
  \<open>JSON.stringify\<close> of a revision writes a part that is not finite as \<open>null\<close>; the text is represented
  by what it determines.
\<close>

definition revision_key :: "js_number list option \<Rightarrow> int option list option" where
  "revision_key = map_option (map (\<lambda>p. case p of Fin n \<Rightarrow> Some n | _ \<Rightarrow> None))"

definition is_finite :: "js_number \<Rightarrow> bool" where
  "is_finite p = (case p of Fin n \<Rightarrow> True | _ \<Rightarrow> False)"

text \<open>The members of a family, one for each content; \<open>None\<close> when two copies disagree.\<close>

fun collapse_copies ::
  "(string \<Rightarrow> string \<Rightarrow> int) \<Rightarrow> (string \<times> (int option list option \<times> string option) \<times> (ref \<times> 'a indexed_version_scheme)) list
    \<Rightarrow> (ref \<times> 'a indexed_version_scheme) list
    \<Rightarrow> (string \<times> (int option list option \<times> string option) \<times> (ref \<times> 'a indexed_version_scheme)) list option" where
  "collapse_copies localeCompare copies [] = Some copies"
| "collapse_copies localeCompare copies (s # family) =
     (let signal = snd s; revision = numericRevision (revisionNumber signal) in
      if (case revision of None \<Rightarrow> False | Some parts \<Rightarrow> list_ex (\<lambda>p. \<not> is_finite p) parts) then None
      else
        let key = iv_connectedLibraryId signal @ [nul] @ iv_identityHash signal @ [nul] @ iv_checksum signal;
            markers = (revision_key revision, revisionDate signal)
        in case map_of copies key of
             None \<Rightarrow> collapse_copies localeCompare (map_set copies key (markers, s)) family
           | Some (earlier, copy) \<Rightarrow>
               if earlier \<noteq> markers then None
               else if localeCompare (versionEndpoint signal) (versionEndpoint (snd copy)) < 0
               then collapse_copies localeCompare (map_set copies key (markers, s)) family
               else collapse_copies localeCompare copies family)"

definition semanticVersionMembers ::
  "(string \<Rightarrow> string \<Rightarrow> int) \<Rightarrow> (ref \<times> 'a indexed_version_scheme) list \<Rightarrow> (ref \<times> 'a indexed_version_scheme) list option" where
  "semanticVersionMembers localeCompare family =
     map_option (map (\<lambda>(key, markers, signal). signal)) (collapse_copies localeCompare [] family)"

section \<open>Coordinates\<close>

record version_coordinates =
  vc_revisions :: "js_number list list"
  vc_dates :: "string list"
  vc_numericCount :: nat
  vc_dateCount :: nat
  vc_points :: "(nat \<times> nat) list"

definition by_revision :: "js_number list \<Rightarrow> js_number list \<Rightarrow> int" where
  "by_revision a b = (case compareNumericRevision a b of None \<Rightarrow> 0 | Some d \<Rightarrow> d)"

text \<open>\<open>new Map(values.map((value, index) => [key(value), index + 1]))\<close>, and a look-up with \<open>?? 0\<close>.\<close>

definition ranks :: "('a \<Rightarrow> 'k) \<Rightarrow> 'a list \<Rightarrow> ('k \<times> nat) list" where
  "ranks key values = foldl (\<lambda>m (i, v). map_set m (key v) (i + 1)) [] (enumerate 0 values)"

definition rank_or_zero :: "('k \<times> nat) list \<Rightarrow> 'k \<Rightarrow> nat" where
  "rank_or_zero m k = (case map_of m k of None \<Rightarrow> 0 | Some r \<Rightarrow> r)"

definition numeric_values :: "'a version_markers_scheme list \<Rightarrow> (int option list option \<times> js_number list) list" where
  "numeric_values signals = foldl (\<lambda>m signal. case numericRevision (revisionNumber signal) of
       None \<Rightarrow> m | Some parts \<Rightarrow> map_set m (revision_key (Some parts)) parts) [] signals"

definition versionCoordinates :: "'a version_markers_scheme list \<Rightarrow> version_coordinates" where
  "versionCoordinates signals =
     (let revisions = sort_cmp by_revision (map snd (numeric_values signals));
          dates = sort_cmp code_unit_compare
            (unique (List.map_filter (\<lambda>signal. present (revisionDate signal)) signals));
          numericRank = ranks (\<lambda>parts. revision_key (Some parts)) revisions;
          dateRank = ranks (\<lambda>d. d) dates
      in \<lparr>vc_revisions = revisions, vc_dates = dates, vc_numericCount = length revisions, vc_dateCount = length dates,
          vc_points = map (\<lambda>signal.
            (rank_or_zero numericRank (revision_key (numericRevision (revisionNumber signal))),
             rank_or_zero dateRank (case revisionDate signal of None \<Rightarrow> [] | Some d \<Rightarrow> d))) signals\<rparr>)"

section \<open>The sweep\<close>

text \<open>Bitwise operators and typed arrays work on 32-bit integers; other arithmetic does not wrap.\<close>

definition int32 :: "int \<Rightarrow> int" where
  "int32 x = sint (word_of_int x :: 32 word)"

definition lowbit :: "int \<Rightarrow> int" where
  "lowbit index = sint ((word_of_int index :: 32 word) AND word_of_int (- index))"

definition half_unsigned :: "int \<Rightarrow> int" where
  "half_unsigned x = uint (drop_bit 1 (word_of_int x :: 32 word))"

text \<open>The loop of \<open>prefix\<close>: the sum of the tree along the ranks, and the visits counted so far.\<close>

partial_function (option) prefix_loop :: "int list \<Rightarrow> int \<Rightarrow> int \<Rightarrow> nat \<Rightarrow> (int \<times> nat) option" where
  "prefix_loop tree index acc work =
     (if 0 < index then
        if nat index < length tree
        then prefix_loop tree (index - lowbit index) (acc + tree ! nat index) (Suc work)
        else None
      else Some (acc, work))"

definition prefix_count :: "int list \<Rightarrow> int \<Rightarrow> nat \<Rightarrow> (int \<times> nat) option" where
  "prefix_count tree rank work = prefix_loop tree rank 0 work"

text \<open>The loop that enters a date.\<close>

partial_function (option) raise_loop :: "int list \<Rightarrow> int \<Rightarrow> nat \<Rightarrow> (int list \<times> nat) option" where
  "raise_loop tree index work =
     (if index < int (length tree)
      then raise_loop (tree[nat index := int32 (tree ! nat index + 1)]) (index + lowbit index) (Suc work)
      else Some (tree, work))"

text \<open>The binary search of \<open>greaterDates\<close>.\<close>

partial_function (option) search_loop :: "nat list \<Rightarrow> nat \<Rightarrow> int \<Rightarrow> int \<Rightarrow> nat \<Rightarrow> (int \<times> nat) option" where
  "search_loop dates rank low high work =
     (if low < high then
        let middle = half_unsigned (low + high) in
        if nat middle < length dates \<and> dates ! nat middle \<le> rank
        then search_loop dates rank (middle + 1) high (Suc work)
        else search_loop dates rank low middle (Suc work)
      else Some (low, work))"

definition greaterDates :: "nat list \<Rightarrow> nat \<Rightarrow> nat \<Rightarrow> (int \<times> nat) option" where
  "greaterDates dates rank work =
     Option.bind (search_loop dates rank 0 (int (length dates)) work) (\<lambda>(low, work).
     Some (int (length dates) - low, work))"

record version_point =
  vp_index :: nat
  vp_numeric :: nat
  vp_date :: nat

definition dated :: "version_point list \<Rightarrow> nat list" where
  "dated points = sort (filter (\<lambda>d. d \<noteq> 0) (map vp_date points))"

definition group_by :: "('a \<Rightarrow> 'k) \<Rightarrow> 'a list \<Rightarrow> ('k \<times> 'a list) list" where
  "group_by key xs = foldl (\<lambda>m x. map_push m (key x) x) [] xs"

definition group_of :: "('k \<times> 'a list) list \<Rightarrow> 'k \<Rightarrow> 'a list" where
  "group_of groups k = (case map_of groups k of None \<Rightarrow> [] | Some g \<Rightarrow> g)"

text \<open>The first loop over a group: what each member is dominated by.\<close>

fun assess_group ::
  "(ref \<times> 'a) list \<Rightarrow> int list \<Rightarrow> int \<Rightarrow> nat list \<Rightarrow> nat list \<Rightarrow> version_point list \<Rightarrow> (ref \<Rightarrow> int option) \<Rightarrow> nat
    \<Rightarrow> ((ref \<Rightarrow> int option) \<times> nat) option" where
  "assess_group signals tree numericTotal dates missingDates [] result work = Some (result, work)"
| "assess_group signals tree numericTotal dates missingDates (point # points) result work =
     Option.bind
       (if vp_date point \<noteq> 0
        then Option.bind (prefix_count tree (int (vp_date point) - 1) (Suc work)) (\<lambda>(n, work).
             Some (numericTotal - n, work))
        else Some (numericTotal, Suc work)) (\<lambda>(larger, work).
     Option.bind
       (if vp_date point \<noteq> 0
        then Option.bind (greaterDates dates (vp_date point) work) (\<lambda>(a, work).
             Option.bind (greaterDates missingDates (vp_date point) work) (\<lambda>(b, work). Some (a + b, work)))
        else Some (0, work)) (\<lambda>(later, work).
     assess_group signals tree numericTotal dates missingDates points
       (result(fst (signals ! vp_index point) \<mapsto> larger + later)) work))"

text \<open>The second loop: enter the group in the tree.\<close>

fun enter_group :: "int list \<Rightarrow> int \<Rightarrow> version_point list \<Rightarrow> nat \<Rightarrow> (int list \<times> int \<times> nat) option" where
  "enter_group tree numericTotal [] work = Some (tree, numericTotal, work)"
| "enter_group tree numericTotal (point # points) work =
     Option.bind (if vp_date point \<noteq> 0 then raise_loop tree (int (vp_date point)) work else Some (tree, work))
       (\<lambda>(tree, work). enter_group tree (numericTotal + 1) points work)"

fun sweep ::
  "(ref \<times> 'a) list \<Rightarrow> (nat \<times> version_point list) list \<Rightarrow> nat list \<Rightarrow> nat list \<Rightarrow> int list \<Rightarrow> int
    \<Rightarrow> (ref \<Rightarrow> int option) \<Rightarrow> nat \<Rightarrow> ((ref \<Rightarrow> int option) \<times> nat) option" where
  "sweep signals groups missingDates [] tree numericTotal result work = Some (result, work)"
| "sweep signals groups missingDates (numeric # numerics) tree numericTotal result work =
     (let points = group_of groups numeric in
      Option.bind (assess_group signals tree numericTotal (dated points) missingDates points result work)
        (\<lambda>(result, work).
      Option.bind (enter_group tree numericTotal points work) (\<lambda>(tree, numericTotal, work).
      sweep signals groups missingDates numerics tree numericTotal result work)))"

fun assess_missing ::
  "(ref \<times> 'a) list \<Rightarrow> nat list \<Rightarrow> version_point list \<Rightarrow> (ref \<Rightarrow> int option) \<Rightarrow> nat
    \<Rightarrow> ((ref \<Rightarrow> int option) \<times> nat) option" where
  "assess_missing signals allDates [] result work = Some (result, work)"
| "assess_missing signals allDates (point # points) result work =
     Option.bind
       (if vp_date point \<noteq> 0 then greaterDates allDates (vp_date point) (Suc work) else Some (0, Suc work))
       (\<lambda>(n, work). assess_missing signals allDates points (result(fst (signals ! vp_index point) \<mapsto> n)) work)"

definition version_points :: "bool \<Rightarrow> version_coordinates \<Rightarrow> version_point list" where
  "version_points older c = map (\<lambda>(i, numeric, date). \<lparr>vp_index = i,
       vp_numeric = (if older \<and> numeric \<noteq> 0 then vc_numericCount c + 1 - numeric else numeric),
       vp_date = (if older \<and> date \<noteq> 0 then vc_dateCount c + 1 - date else date)\<rparr>) (enumerate 0 (vc_points c))"

definition descending :: "nat list \<Rightarrow> nat list" where
  "descending xs = rev (sort xs)"

definition versionDominanceCounts ::
  "(ref \<times> 'a version_markers_scheme) list \<Rightarrow> bool \<Rightarrow> ((ref \<Rightarrow> int option) \<times> nat) option" where
  "versionDominanceCounts signals older =
     (let coordinates = versionCoordinates (map snd signals);
          points = version_points older coordinates;
          groups = group_by vp_numeric points;
          tree = replicate (vc_dateCount coordinates + 2) 0;
          missing = group_of groups 0
      in Option.bind (sweep signals groups (dated missing)
             (descending (filter (\<lambda>n. n \<noteq> 0) (map fst groups))) tree 0 (\<lambda>_. None) 0) (\<lambda>(result, work).
         assess_missing signals (dated points) missing result work))"

section \<open>The state of all versions\<close>

definition groupVersionSignals ::
  "(ref \<times> 'a indexed_version_scheme) list \<Rightarrow> (string \<times> (ref \<times> 'a indexed_version_scheme) list) list" where
  "groupVersionSignals signals =
     group_by (\<lambda>(r, signal). iv_connectedLibraryId signal @ [nul] @ iv_identityHash signal) signals"

text \<open>\<open>knowledgeRelationshipPairKey\<close>: the two endpoints in the order of code units.\<close>

definition pair_endpoint :: "'a indexed_version_scheme \<Rightarrow> string" where
  "pair_endpoint signal = iv_fileKey signal @ [nul] @ iv_checksum signal"

definition knowledgeRelationshipPairKey :: "'a indexed_version_scheme \<Rightarrow> 'b indexed_version_scheme \<Rightarrow> string" where
  "knowledgeRelationshipPairKey left right =
     join_with [nul] (sort_cmp code_unit_compare [pair_endpoint left, pair_endpoint right])"

record 'a version_state =
  vs_byEndpoint :: "(string \<times> 'a) list"
  vs_superseded :: "string list"

text \<open>The number of newer versions with other bytes, for every signal of every family.\<close>

fun copies_remaining ::
  "(ref \<Rightarrow> int option) \<Rightarrow> (string \<times> (ref \<times> 'a version_markers_scheme) list) list \<Rightarrow> (ref \<Rightarrow> int) \<Rightarrow> nat
    \<Rightarrow> ((ref \<Rightarrow> int) \<times> nat) option" where
  "copies_remaining counts [] remaining work = Some (remaining, work)"
| "copies_remaining counts ((checksum, copies) # rest) remaining work =
     Option.bind (versionDominanceCounts copies False) (\<lambda>(copyCounts, w).
     copies_remaining counts rest
       (foldl (\<lambda>m signal. m(fst signal := the (counts (fst signal)) - the (copyCounts (fst signal)))) remaining copies)
       (work + w))"

fun families_remaining ::
  "(string \<times> (ref \<times> 'a indexed_version_scheme) list) list \<Rightarrow> (ref \<Rightarrow> int) \<Rightarrow> nat \<Rightarrow> ((ref \<Rightarrow> int) \<times> nat) option" where
  "families_remaining [] remaining work = Some (remaining, work)"
| "families_remaining ((key, family) # rest) remaining work =
     Option.bind (versionDominanceCounts family False) (\<lambda>(counts, w).
     Option.bind (copies_remaining counts (group_by (\<lambda>(r, signal). iv_checksum signal) family) remaining (work + w))
       (\<lambda>(remaining, work). families_remaining rest remaining work))"

definition first_by_endpoint :: "(ref \<times> 'a indexed_version_scheme) list \<Rightarrow> (string \<times> (ref \<times> 'a indexed_version_scheme)) list" where
  "first_by_endpoint signals = foldl (\<lambda>m s. if map_of m (versionEndpoint (snd s)) = None
     then map_set m (versionEndpoint (snd s)) s else m) [] signals"

text \<open>An element missing from the split key is \<open>undefined\<close>.\<close>

definition key_part :: "string \<Rightarrow> nat \<Rightarrow> string" where
  "key_part key i = (let parts = split_on nul key in if i < length parts then parts ! i else ''undefined'')"

definition separate_pair ::
  "(string \<Rightarrow> string \<Rightarrow> int) \<Rightarrow> ('a indexed_version_scheme \<Rightarrow> 'a indexed_version_scheme \<Rightarrow> string) \<Rightarrow> string
    \<Rightarrow> (ref \<times> 'a indexed_version_scheme) \<Rightarrow> (ref \<times> 'a indexed_version_scheme) \<Rightarrow> (ref \<Rightarrow> int) \<Rightarrow> (ref \<Rightarrow> int)" where
  "separate_pair localeCompare pairKey key a b remaining =
     (if iv_connectedLibraryId (snd a) \<noteq> iv_connectedLibraryId (snd b) \<or> iv_identityHash (snd a) \<noteq> iv_identityHash (snd b) \<or>
         iv_checksum (snd a) = iv_checksum (snd b) \<or> pairKey (snd a) (snd b) \<noteq> key then remaining
      else
        let m = (if compareDocumentVersions localeCompare (snd b) (snd a) = Some 1
                 then remaining(fst a := remaining (fst a) - 1) else remaining)
        in if compareDocumentVersions localeCompare (snd a) (snd b) = Some 1 then m(fst b := m (fst b) - 1) else m)"

definition separate_key ::
  "(string \<Rightarrow> string \<Rightarrow> int) \<Rightarrow> ('a indexed_version_scheme \<Rightarrow> 'a indexed_version_scheme \<Rightarrow> string)
    \<Rightarrow> (string \<times> (ref \<times> 'a indexed_version_scheme) list) list \<Rightarrow> string \<Rightarrow> (ref \<Rightarrow> int) \<Rightarrow> (ref \<Rightarrow> int)" where
  "separate_key localeCompare pairKey byPairEndpoint key remaining =
     foldl (\<lambda>m (a, b). separate_pair localeCompare pairKey key a b m) remaining
       (List.product (group_of byPairEndpoint (key_part key 0 @ [nul] @ key_part key 1))
          (group_of byPairEndpoint (key_part key 2 @ [nul] @ key_part key 3)))"

text \<open>
  A signal in no family has no entry in \<open>remaining\<close>; the table starts at 0, which is what \<open>?? 0\<close> reads.
  The visits of the separations are not counted.
\<close>

definition buildVersionStateIndex ::
  "(string \<Rightarrow> string \<Rightarrow> int) \<Rightarrow> (ref \<times> 'a indexed_version_scheme) list \<Rightarrow> string list
    \<Rightarrow> ('a indexed_version_scheme \<Rightarrow> 'a indexed_version_scheme \<Rightarrow> string)
    \<Rightarrow> (ref \<times> 'a indexed_version_scheme) version_state option" where
  "buildVersionStateIndex localeCompare signals separated pairKey =
     (let families = groupVersionSignals signals; ordered = concat (map snd families);
          byEndpoint = first_by_endpoint ordered;
          byPairEndpoint = group_by (\<lambda>s. pair_endpoint (snd s)) ordered
      in Option.bind (families_remaining families (\<lambda>_. 0) 0) (\<lambda>(counted, work).
         let remaining = foldl (\<lambda>m key. separate_key localeCompare pairKey byPairEndpoint key m) counted separated
         in Some \<lparr>vs_byEndpoint = byEndpoint,
              vs_superseded = map fst (filter (\<lambda>(key, signal). 0 < remaining (fst signal)) byEndpoint)\<rparr>))"

end
