(* ===== verification/BinaryIndexed.thy ===== *)
theory BinaryIndexed
  imports VersionIndex
begin

text \<open>
  The binary indexed tree behind \<open>versionDominanceCounts\<close>. Abstractly it is a multiset of dates;
  entry \<open>i\<close> of the array holds how many of them lie in a span that ends at \<open>i\<close>. Reading a prefix and
  entering a date end on every array shorter than 2\<open>^\<close>31, visit at most one entry for each binary
  digit, and implement counting in and adding to the multiset.
\<close>

section \<open>The lowest set bit\<close>

fun low :: "nat \<Rightarrow> nat" where
  "low i = (if i = 0 then 0 else if odd i then 1 else 2 * low (i div 2))"

declare low.simps [simp del]

lemma low_double: "low (2 * i) = 2 * low i"
  by (simp add: low.simps[of "2 * i"] low.simps[of 0])

lemma low_odd: "odd i \<Longrightarrow> low i = 1"
  by (cases "i = 0") (simp_all add: low.simps[of i])

lemma low_times: "odd q \<Longrightarrow> low (2 ^ a * q) = 2 ^ a"
  by (induction a) (simp_all add: low_odd low_double mult.assoc)

lemma odd_part: "0 < i \<Longrightarrow> \<exists>a q. odd q \<and> i = 2 ^ a * (q :: nat)"
proof (induction i rule: low.induct)
  case (1 i)
  show ?case
  proof (cases "odd i")
    case True
    then have "odd i \<and> i = 2 ^ 0 * i" by simp
    then show ?thesis by blast
  next
    case False
    then have i: "i = 2 * (i div 2)" by simp
    with 1 obtain a q where "odd q" "i div 2 = 2 ^ a * q" by fastforce
    with i have "odd q \<and> i = 2 ^ Suc a * q" by (metis power_Suc mult.assoc)
    then show ?thesis by blast
  qed
qed

lemma low_form: "0 < i \<Longrightarrow> \<exists>a q. odd q \<and> i = 2 ^ a * q \<and> low i = 2 ^ a"
  using odd_part[of i] low_times by blast

lemma low_pos: "0 < i \<Longrightarrow> 0 < low i"
  using low_form[of i] by auto

lemma low_le: "low i \<le> i"
proof (cases "i = 0")
  case False
  then obtain a q where "odd q" "i = 2 ^ a * q" "low i = 2 ^ a" using low_form by blast
  then show ?thesis by (cases q) auto
qed (simp add: low.simps)

lemma odd_and:
  assumes "odd m"
  shows "m AND - m = (1 :: int)"
proof -
  from assms obtain k where m: "m = 2 * k + 1" by (elim oddE)
  have h: "- m div 2 = NOT k" "m div 2 = k" by (simp_all add: m not_int_def)
  have "m AND - m = of_bool (odd m \<and> odd (- m)) + 2 * ((m div 2) AND (- m div 2))"
    by (rule and_int_rec)
  with assms show ?thesis by (simp add: h)
qed

lemma and_low: "0 < i \<Longrightarrow> int i AND - int i = int (low i)"
proof -
  assume "0 < i"
  then obtain a q where i: "odd q" "i = 2 ^ a * q" "low i = 2 ^ a" using low_form by blast
  have p: "int i = push_bit a (int q)" "- int i = push_bit a (- int q)"
    by (simp_all add: i push_bit_eq_mult)
  have "int i AND - int i = push_bit a (int q AND - int q)"
    unfolding push_bit_and by (rule arg_cong2[OF p])
  also have "int q AND - int q = 1" using i(1) by (intro odd_and) simp
  finally show ?thesis unfolding i(3) by (simp add: push_bit_eq_mult)
qed

lemma int32_small: "0 \<le> x \<Longrightarrow> x < 2 ^ 31 \<Longrightarrow> int32 x = x"
  by (simp add: int32_def signed_take_bit_int_eq_self sint_sbintrunc')

lemma lowbit_low: "0 < i \<Longrightarrow> i < 2 ^ 31 \<Longrightarrow> lowbit (int i) = int (low i)"
proof -
  assume i: "0 < i" "i < 2 ^ 31"
  have "lowbit (int i) = sint (word_of_int (int i AND - int i) :: 32 word)"
    unfolding lowbit_def by (simp only: of_int_and_eq)
  also have "\<dots> = int32 (int (low i))" unfolding int32_def and_low[OF i(1)] ..
  also have "\<dots> = int (low i)"
  proof (rule int32_small)
    have "int (low i) \<le> int i" using low_le[of i] by simp
    also have "\<dots> < 2 ^ 31" using i(2) by simp
    finally show "int (low i) < 2 ^ 31" .
  qed simp
  finally show ?thesis .
qed

lemma low_dvd: "2 ^ k dvd i \<Longrightarrow> 0 < i \<Longrightarrow> 2 ^ k \<le> low i"
proof -
  assume k: "2 ^ k dvd i" "0 < i"
  then obtain a q where i: "odd q" "i = 2 ^ a * q" "low i = 2 ^ a" using low_form by blast
  have "\<not> a < k"
  proof
    assume "a < k"
    then have "2 ^ Suc a dvd i" using k(1) by (meson Suc_leI dvd_trans le_imp_power_dvd)
    then have "2 ^ a * 2 dvd 2 ^ a * q" unfolding i(2) by (simp only: power_Suc mult.commute)
    with i(1) show False by simp
  qed
  then show ?thesis by (simp add: i(3))
qed

lemma low_next: "0 < i \<Longrightarrow> 2 * low i \<le> low (i + low i)"
proof -
  assume "0 < i"
  then obtain a q where i: "odd q" "i = 2 ^ a * q" "low i = 2 ^ a" using low_form by blast
  then obtain t where "q = 2 * t + 1" by (elim oddE)
  with i have "i + low i = 2 ^ Suc a * (t + 1)" by (simp add: algebra_simps)
  then have "2 ^ Suc a dvd i + low i" by (metis dvd_triv_left)
  then show ?thesis using low_dvd[of "Suc a" "i + low i"] \<open>0 < i\<close> by (simp add: i(3))
qed

lemma low_rest: "low i < i \<Longrightarrow> 2 * low i \<le> low (i - low i)"
proof -
  assume l: "low i < i"
  then have "0 < i" by simp
  then obtain a q where i: "odd q" "i = 2 ^ a * q" "low i = 2 ^ a" using low_form by blast
  then obtain t where "q = 2 * t + 1" by (elim oddE)
  with i have "i - low i = 2 ^ Suc a * t" by (simp add: algebra_simps)
  then have "2 ^ Suc a dvd i - low i" by (metis dvd_triv_left)
  then show ?thesis using low_dvd[of "Suc a" "i - low i"] l by (simp add: i(3))
qed

section \<open>Spans\<close>

text \<open>Entry \<open>j\<close> of the tree counts the dates it covers.\<close>

definition covers :: "nat \<Rightarrow> nat \<Rightarrow> bool" where
  "covers j d \<longleftrightarrow> j - low j < d \<and> d \<le> j"

lemma covers_step:
  assumes "0 < d" "0 < j"
  shows "covers j d \<longleftrightarrow> j = d \<or> covers j (d + low d)"
proof -
  obtain k p where j: "odd p" "j = 2 ^ k * p" "low j = 2 ^ k" using low_form assms(2) by blast
  obtain a q where d: "odd q" "d = 2 ^ a * q" "low d = 2 ^ a" using low_form assms(1) by blast
  from j(1) obtain t where p: "p = 2 * t + 1" by (elim oddE)
  define m where "m = 2 ^ Suc k * t"
  have j1: "j = m + 2 ^ k" unfolding m_def j(2) p by (simp add: algebra_simps)
  moreover from j1 have "j - low j = m" unfolding j(3) by simp
  ultimately have jm: "j = m + 2 ^ k" "j - low j = m" by blast+
  show ?thesis
  proof
    assume c: "covers j d"
    show "j = d \<or> covers j (d + low d)"
    proof (cases "j = d")
      case False
      with c have dj: "m < d" "d < j" unfolding covers_def jm(2) by auto
      have "a < k"
      proof (rule ccontr)
        assume "\<not> a < k"
        then have "2 ^ k dvd d" "2 ^ k dvd m" unfolding d m_def
          by (auto simp: le_imp_power_dvd dvd_mult2)
        then have "2 ^ k dvd d - m" by (rule dvd_diff_nat)
        then have "2 ^ k \<le> d - m" by (rule dvd_imp_le) (use dj in simp)
        then show False using dj jm by linarith
      qed
      then have "2 ^ a dvd j" "2 ^ a dvd d" unfolding d j by (auto simp: le_imp_power_dvd dvd_mult2)
      then have "2 ^ a dvd j - d" by (rule dvd_diff_nat)
      then have "2 ^ a \<le> j - d" by (rule dvd_imp_le) (use dj in simp)
      then have "covers j (d + low d)" using dj unfolding covers_def jm(2) d(3) by linarith
      then show ?thesis ..
    qed simp
  next
    assume "j = d \<or> covers j (d + low d)"
    then show "covers j d"
    proof
      assume c: "covers j (d + low d)"
      then have dj: "m < d + 2 ^ a" "d + 2 ^ a \<le> j" unfolding covers_def jm(2) d(3) by auto
      have "m < d"
      proof (rule ccontr)
        assume n: "\<not> m < d"
        show False
        proof (cases "Suc k \<le> a")
          case True
          then have "2 ^ Suc k dvd d + 2 ^ a" "2 ^ Suc k dvd m" unfolding d(2) m_def
            by (simp_all only: le_imp_power_dvd dvd_mult2 dvd_add dvd_triv_left)
          then have "2 ^ Suc k dvd d + 2 ^ a - m" by (rule dvd_diff_nat)
          then have "2 ^ Suc k \<le> d + 2 ^ a - m" by (rule dvd_imp_le) (use dj in simp)
          moreover have "d + 2 ^ a - m \<le> 2 ^ k" "(0 :: nat) < 2 ^ k" using dj jm by auto
          ultimately show False by simp
        next
          case False
          then have ak: "Suc a \<le> Suc k" by simp
          then have m2: "2 ^ Suc a dvd m" unfolding m_def by (intro dvd_mult2 le_imp_power_dvd)
          have "\<not> 2 ^ Suc a dvd d"
          proof
            assume "2 ^ Suc a dvd d"
            then have "2 ^ a * 2 dvd 2 ^ a * q" unfolding d(2) by (simp only: power_Suc mult.commute)
            with d(1) show False by simp
          qed
          with m2 n have "d < m" by (metis linorder_neqE_nat)
          have "2 ^ a dvd m" using m2 unfolding power_Suc by (rule dvd_mult_right)
          moreover have "2 ^ a dvd d" unfolding d(2) by simp
          ultimately have "2 ^ a dvd m - d" by (rule dvd_diff_nat)
          then have "2 ^ a \<le> m - d" by (rule dvd_imp_le) (use \<open>d < m\<close> in simp)
          then show False using dj \<open>d < m\<close> by linarith
        qed
      qed
      then show ?thesis using dj unfolding covers_def jm(2) by linarith
    next
      assume "j = d"
      moreover have "d - low d < d" using low_pos[OF assms(1)] assms(1) by (rule diff_less)
      ultimately show "covers j d" unfolding covers_def by blast
    qed
  qed
qed

section \<open>The loops\<close>

definition span :: "nat multiset \<Rightarrow> nat \<Rightarrow> nat \<Rightarrow> int" where
  "span D a b = int (size (filter_mset (\<lambda>d. a < d \<and> d \<le> b) D))"

lemma span_empty [simp]: "span D a a = 0"
  by (auto simp: span_def filter_mset_eq_conv)

lemma span_split: "a \<le> b \<Longrightarrow> b \<le> c \<Longrightarrow> span D a c = span D a b + span D b c"
proof -
  assume "a \<le> b" "b \<le> c"
  then have "filter_mset (\<lambda>d. a < d \<and> d \<le> c) D =
      filter_mset (\<lambda>d. a < d \<and> d \<le> b) D + filter_mset (\<lambda>d. b < d \<and> d \<le> c) D"
    by (induction D) auto
  then show ?thesis by (simp add: span_def)
qed

text \<open>The tree \<open>tree\<close> represents the dates \<open>D\<close>.\<close>

definition tree_of :: "nat multiset \<Rightarrow> int list \<Rightarrow> bool" where
  "tree_of D tree \<longleftrightarrow> (\<forall>j. 0 < j \<and> j < length tree \<longrightarrow> tree ! j = span D (j - low j) j)"

lemma steps_double:
  assumes "v = 0 \<or> 2 ^ (v - 1) * l' \<le> n" "2 * l \<le> (l' :: nat)" "l \<le> n"
  shows "2 ^ v * l \<le> n"
proof (cases v)
  case (Suc u)
  have "2 ^ v * l = 2 ^ u * (2 * l)" by (simp add: Suc)
  also have "\<dots> \<le> 2 ^ u * l'" using assms(2) by (rule mult_le_mono2)
  also have "\<dots> \<le> n" using assms(1) Suc by simp
  finally show ?thesis .
qed (use assms in simp)

lemma steps_bound:
  assumes "v = 0 \<or> 2 ^ (v - 1) * l \<le> n" "0 < (l :: nat)"
  shows "2 ^ v \<le> 2 * n + 1"
proof (cases v)
  case (Suc u)
  have "2 ^ u * 1 \<le> 2 ^ u * l" using assms(2) by (intro mult_le_mono2) simp
  also have "\<dots> \<le> n" using assms(1) Suc by simp
  finally show ?thesis by (simp add: Suc)
qed simp

lemma prefix_loop_run:
  assumes "length tree \<le> 2 ^ 31"
  shows "r < length tree \<Longrightarrow> \<exists>n v. prefix_loop tree (int r) acc work = Some (acc + n, work + v) \<and>
     (v = 0 \<or> 2 ^ (v - 1) * low r \<le> r) \<and> (\<forall>D. tree_of D tree \<longrightarrow> n = span D 0 r)"
proof (induction r arbitrary: acc work rule: less_induct)
  case (less r)
  show ?case
  proof (cases "r = 0")
    case True
    then show ?thesis by (subst prefix_loop.simps) simp
  next
    case False
    let ?s = "r - low r"
    have r: "0 < r" "0 < low r" "low r \<le> r" using False low_pos low_le by auto
    have b: "int r - lowbit (int r) = int ?s"
      using r less.prems assms by (subst lowbit_low) auto
    obtain n v where ih: "prefix_loop tree (int ?s) (acc + tree ! r) (Suc work) = Some (acc + tree ! r + n, Suc work + v)"
      "v = 0 \<or> 2 ^ (v - 1) * low ?s \<le> ?s" "\<And>D. tree_of D tree \<Longrightarrow> n = span D 0 ?s"
      using less.IH[of ?s "acc + tree ! r" "Suc work"] r less.prems by (metis diff_less less_imp_diff_less)
    have "prefix_loop tree (int r) acc work = Some (acc + (tree ! r + n), work + Suc v)"
      using r less.prems ih(1) by (subst prefix_loop.simps) (simp add: b)
    moreover have "2 ^ v * low r \<le> r"
    proof (cases "?s = 0")
      case True
      with ih(2) have "v = 0 \<or> 2 ^ (v - 1) * low ?s \<le> 0" by simp
      moreover have "prefix_loop tree 0 a w = Some (a, w)" for a w by (subst prefix_loop.simps) simp
      ultimately have "v = 0" using ih(1) True by simp
      with r show ?thesis by simp
    next
      case False
      have "v = 0 \<or> 2 ^ (v - 1) * low ?s \<le> r" using ih(2) by (auto elim: order_trans)
      then show ?thesis by (rule steps_double) (use low_rest[of r] False r in auto)
    qed
    moreover have "tree ! r + n = span D 0 r" if "tree_of D tree" for D
      using ih(3)[OF that] that r less.prems span_split[of 0 ?s r D] by (auto simp: tree_of_def)
    ultimately show ?thesis by (intro exI[of _ "tree ! r + n"] exI[of _ "Suc v"]) auto
  qed
qed

lemma raise_loop_run:
  assumes "length tree \<le> 2 ^ 31" "0 < d"
  shows "\<exists>tree' v. raise_loop tree (int d) work = Some (tree', work + v) \<and> length tree' = length tree \<and>
     (v = 0 \<or> 2 ^ (v - 1) * low d \<le> length tree) \<and>
     (\<forall>j. 0 < j \<and> j < length tree \<longrightarrow> tree' ! j = (if covers j d then int32 (tree ! j + 1) else tree ! j))"
  using assms
proof (induction "length tree - d" arbitrary: tree d work rule: less_induct)
  case less
  show ?case
  proof (cases "d < length tree")
    case False
    then have "\<not> covers j d" if "j < length tree" for j using that by (auto simp: covers_def)
    with False show ?thesis by (subst raise_loop.simps) auto
  next
    case True
    let ?e = "d + low d"
    let ?t = "tree[d := int32 (tree ! d + 1)]"
    have l: "0 < low d" "low d \<le> d" using less.prems low_pos low_le by auto
    have b: "int d + lowbit (int d) = int ?e" using True less.prems by (subst lowbit_low) auto
    obtain t' v where ih: "raise_loop ?t (int ?e) (Suc work) = Some (t', Suc work + v)" "length t' = length tree"
      "v = 0 \<or> 2 ^ (v - 1) * low ?e \<le> length tree"
      "\<forall>j. 0 < j \<and> j < length tree \<longrightarrow> t' ! j = (if covers j ?e then int32 (?t ! j + 1) else ?t ! j)"
      using less.hyps[of ?t ?e "Suc work", unfolded length_list_update] True l less.prems by (metis add_pos_pos diff_less_mono2 less_add_same_cancel1)
    have "raise_loop tree (int d) work = Some (t', work + Suc v)"
      using True ih(1) by (subst raise_loop.simps) (simp add: b)
    moreover have "2 ^ v * low d \<le> length tree"
      by (rule steps_double[OF ih(3)]) (use low_next[of d] l True in auto)
    moreover have "t' ! j = (if covers j d then int32 (tree ! j + 1) else tree ! j)"
      if j: "0 < j" "j < length tree" for j
    proof -
      have "\<not> covers d ?e" using l by (auto simp: covers_def)
      moreover have "covers d d" using l by (auto simp: covers_def)
      ultimately show ?thesis
        using j ih(4) covers_step[of d j] less.prems True by (cases "j = d") auto
    qed
    ultimately show ?thesis using ih(2) by (intro exI[of _ t'] exI[of _ "Suc v"]) auto
  qed
qed

lemma half_unsigned_div: "0 \<le> x \<Longrightarrow> x < 2 ^ 32 \<Longrightarrow> half_unsigned x = x div 2"
  by (simp add: half_unsigned_def drop_bit_eq_div uint_div_distrib uint_word_of_int)

text \<open>Below \<open>l\<close> no date is above the rank, from \<open>h\<close> on every date is.\<close>

definition parted :: "nat list \<Rightarrow> nat \<Rightarrow> nat \<Rightarrow> nat \<Rightarrow> bool" where
  "parted dates rank l h \<longleftrightarrow>
     (\<forall>i < l. dates ! i \<le> rank) \<and> (\<forall>i. h \<le> i \<and> i < length dates \<longrightarrow> rank < dates ! i)"

lemma parted_up:
  assumes "sorted dates" "parted dates rank l h" "m < length dates" "dates ! m \<le> rank"
  shows "parted dates rank (Suc m) h"
proof -
  have "dates ! i \<le> rank" if "i < Suc m" for i
    using assms(4) sorted_nth_mono[OF assms(1), of i m] assms(3) that by simp
  with assms(2) show ?thesis by (simp add: parted_def)
qed

lemma parted_down:
  assumes "sorted dates" "parted dates rank l h" "rank < dates ! m"
  shows "parted dates rank l m"
proof -
  have "rank < dates ! i" if "m \<le> i" "i < length dates" for i
    using assms(3) sorted_nth_mono[OF assms(1) that] by simp
  with assms(2) show ?thesis by (simp add: parted_def)
qed

lemma search_loop_run:
  assumes "length dates < 2 ^ 31"
  shows "l \<le> h \<Longrightarrow> h \<le> length dates \<Longrightarrow>
    \<exists>m v. search_loop dates rank (int l) (int h) work = Some (int m, work + v) \<and> l \<le> m \<and> m \<le> h \<and>
      (v = 0 \<or> 2 ^ (v - 1) * 1 \<le> h - l) \<and>
      (sorted dates \<and> parted dates rank l h \<longrightarrow> parted dates rank m m)"
proof (induction "h - l" arbitrary: l h work rule: less_induct)
  case less
  show ?case
  proof (cases "l < h")
    case False
    then show ?thesis using less.prems by (subst search_loop.simps) auto
  next
    case True
    let ?m = "(l + h) div 2"
    have m: "l \<le> ?m" "?m < h" using True by auto
    have hm: "half_unsigned (int l + int h) = int ?m"
      using less.prems assms by (subst half_unsigned_div) auto
    show ?thesis
    proof (cases "dates ! ?m \<le> rank")
      case c: True
      have p: "h - Suc ?m < h - l" "Suc ?m \<le> h" using m by auto
      obtain k v where ih: "search_loop dates rank (int (Suc ?m)) (int h) (Suc work) = Some (int k, Suc work + v)"
        "Suc ?m \<le> k" "k \<le> h" "v = 0 \<or> 2 ^ (v - 1) * 1 \<le> h - Suc ?m"
        "sorted dates \<and> parted dates rank (Suc ?m) h \<longrightarrow> parted dates rank k k"
        using less.hyps[OF p less.prems(2), of "Suc work"] by blast
      have "search_loop dates rank (int l) (int h) work = Some (int k, work + Suc v)"
        using True c ih(1) m less.prems by (subst search_loop.simps) (simp add: hm add.commute[of _ 1])
      moreover have "2 ^ v * 1 \<le> h - l"
        by (rule steps_double[of v 2]) (use ih(4) True in auto)
      moreover have "sorted dates \<and> parted dates rank l h \<longrightarrow> parted dates rank k k"
        using ih(5) c m less.prems parted_up[of dates rank l h ?m] by auto
      ultimately show ?thesis using ih(2,3) m by (intro exI[of _ k] exI[of _ "Suc v"]) simp
    next
      case c: False
      have p: "?m - l < h - l" "?m \<le> length dates" using m less.prems by auto
      obtain k v where ih: "search_loop dates rank (int l) (int ?m) (Suc work) = Some (int k, Suc work + v)"
        "l \<le> k" "k \<le> ?m" "v = 0 \<or> 2 ^ (v - 1) * 1 \<le> ?m - l"
        "sorted dates \<and> parted dates rank l ?m \<longrightarrow> parted dates rank k k"
        using less.hyps[OF p(1) m(1) p(2), of "Suc work"] by blast
      have "search_loop dates rank (int l) (int h) work = Some (int k, work + Suc v)"
        using True c ih(1) m less.prems by (subst search_loop.simps) (simp add: hm)
      moreover have "2 ^ v * 1 \<le> h - l"
        by (rule steps_double[of v 2]) (use ih(4) True in auto)
      moreover have "sorted dates \<and> parted dates rank l h \<longrightarrow> parted dates rank k k"
        using ih(5) c parted_down[of dates rank l h ?m] by auto
      ultimately show ?thesis using ih(2,3) m by (intro exI[of _ k] exI[of _ "Suc v"]) simp
    qed
  qed
qed

section \<open>The array implements the multiset\<close>

definition represents :: "nat multiset \<Rightarrow> int list \<Rightarrow> bool" where
  "represents D tree \<longleftrightarrow> tree_of D tree \<and> length tree \<le> 2 ^ 31 \<and> size D < 2 ^ 31 \<and> (\<forall>d \<in># D. 0 < d)"

lemma span_nonneg: "0 \<le> span D a b"
  by (simp add: span_def)

lemma span_size: "span D a b \<le> int (size D)"
  by (simp add: span_def size_filter_mset_lesseq)

lemma span_add: "span (add_mset d D) a b = (if a < d \<and> d \<le> b then span D a b + 1 else span D a b)"
  by (simp add: span_def)

lemma span_from_zero: "\<forall>d \<in># D. 0 < d \<Longrightarrow> span D 0 r = int (size (filter_mset (\<lambda>d. d \<le> r) D))"
  unfolding span_def by (metis (mono_tags, lifting) filter_mset_cong)

lemma represents_empty: "n \<le> 2 ^ 31 \<Longrightarrow> represents {#} (replicate n 0)"
  by (simp add: represents_def tree_of_def span_def)

lemma prefix_represents:
  assumes "represents D tree" "r < length tree"
  shows "\<exists>v. prefix_count tree (int r) work = Some (int (size (filter_mset (\<lambda>d. d \<le> r) D)), work + v) \<and>
     2 ^ v \<le> 2 * r + 1"
proof -
  obtain n v where "prefix_loop tree (int r) 0 work = Some (0 + n, work + v)"
    "v = 0 \<or> 2 ^ (v - 1) * low r \<le> r" "\<forall>D. tree_of D tree \<longrightarrow> n = span D 0 r"
    using prefix_loop_run[OF _ assms(2), of 0 work] assms(1) unfolding represents_def by blast
  moreover have "2 ^ v \<le> 2 * r + 1"
  proof (cases "r = 0")
    case True
    have "prefix_loop tree (int 0) 0 work = Some (0, work)" by (subst prefix_loop.simps) simp
    with calculation(1) True have "v = 0" by simp
    then show ?thesis by simp
  next
    case False
    then show ?thesis using steps_bound[OF calculation(2)] low_pos by simp
  qed
  ultimately show ?thesis
    using assms(1) span_from_zero[of D r] unfolding represents_def prefix_count_def by auto
qed

lemma raise_represents:
  assumes "represents D tree" "0 < d" "Suc (size D) < 2 ^ 31"
  shows "\<exists>tree' v. raise_loop tree (int d) work = Some (tree', work + v) \<and> length tree' = length tree \<and>
     2 ^ v \<le> 2 * length tree + 1 \<and> represents (add_mset d D) tree'"
proof -
  have len: "length tree \<le> 2 ^ 31" using assms(1) by (simp add: represents_def)
  obtain tree' v where run: "raise_loop tree (int d) work = Some (tree', work + v)" "length tree' = length tree"
    "v = 0 \<or> 2 ^ (v - 1) * low d \<le> length tree"
    "\<forall>j. 0 < j \<and> j < length tree \<longrightarrow> tree' ! j = (if covers j d then int32 (tree ! j + 1) else tree ! j)"
    using raise_loop_run[OF len assms(2), of work] by blast
  have small: "int32 (span D a b + 1) = span D a b + 1" for a b
    using span_nonneg[of D a b] span_size[of D a b] assms(3) by (intro int32_small) auto
  have "tree_of (add_mset d D) tree'"
    using assms(1) run(2,4) small by (auto simp: represents_def tree_of_def span_add covers_def)
  with assms len run(2) have "represents (add_mset d D) tree'" by (auto simp: represents_def)
  moreover have "2 ^ v \<le> 2 * length tree + 1" by (rule steps_bound[OF run(3) low_pos[OF assms(2)]])
  ultimately show ?thesis using run(1,2) by blast
qed

lemma greaterDates_run:
  assumes "length dates < 2 ^ 31"
  shows "\<exists>n v. greaterDates dates rank work = Some (n, work + v) \<and> 2 ^ v \<le> 2 * length dates + 1 \<and>
     (sorted dates \<longrightarrow> n = int (length (filter (\<lambda>d. rank < d) dates)))"
proof -
  obtain m v where run: "search_loop dates rank (int 0) (int (length dates)) work = Some (int m, work + v)"
    "m \<le> length dates" "v = 0 \<or> 2 ^ (v - 1) * 1 \<le> length dates - 0"
    "sorted dates \<and> parted dates rank 0 (length dates) \<longrightarrow> parted dates rank m m"
    using search_loop_run[OF assms, of 0 "length dates" rank work] by blast
  have "int (length dates) - int m = int (length (filter (\<lambda>d. rank < d) dates))" if "sorted dates"
  proof -
    have p: "parted dates rank m m" using run(4) that by (simp add: parted_def)
    have "filter (\<lambda>d. rank < d) (take m dates) = []"
      using p by (auto simp: parted_def filter_empty_conv in_set_conv_nth not_less)
    moreover have "filter (\<lambda>d. rank < d) (drop m dates) = drop m dates"
      using p run(2) by (auto simp: parted_def filter_id_conv in_set_conv_nth)
    ultimately have "filter (\<lambda>d. rank < d) dates = drop m dates"
      by (metis append_Nil append_take_drop_id filter_append)
    then show ?thesis using run(2) by simp
  qed
  moreover have "2 ^ v \<le> 2 * length dates + 1" using steps_bound[OF run(3)] by simp
  ultimately show ?thesis using run(1) by (auto simp: greaterDates_def)
qed

text \<open>
  C36. A binary indexed tree that represents a multiset of dates implements it: reading the prefix up
  to a rank returns how many of the dates are at most the rank, and entering a date leaves an array
  of the same length that represents the multiset with the date added, for arrays of fewer than
  2\<open>^\<close>31 entries and as many dates.
\<close>

theorem tree_refines_multiset:
  assumes "represents D tree"
  shows "(\<forall>r < length tree. \<exists>w. prefix_count tree (int r) work = Some (int (size (filter_mset (\<lambda>d. d \<le> r) D)), w)) \<and>
    (\<forall>d. 0 < d \<and> Suc (size D) < 2 ^ 31 \<longrightarrow> (\<exists>tree' w. raise_loop tree (int d) work = Some (tree', w) \<and>
       length tree' = length tree \<and> represents (add_mset d D) tree'))"
  using prefix_represents[OF assms] raise_represents[OF assms] by blast

text \<open>A tree for four ranks with the dates 2 and 3 entered.\<close>

definition sample_tree :: "int list" where "sample_tree = [0, 0, 1, 1, 2, 0]"

lemma sample_represents: "represents {#2, 3#} sample_tree"
proof -
  have "\<forall>j \<in> set [1 ..< 6]. sample_tree ! j = span {#2, 3#} (j - low j) j" by code_simp
  then have "tree_of {#2, 3#} sample_tree" by (simp add: tree_of_def sample_tree_def)
  then show ?thesis by (simp add: represents_def sample_tree_def)
qed

theorem tree_refines_multiset_witness:
  "(\<exists>w. prefix_count sample_tree 3 0 = Some (2, w)) \<and>
   (\<exists>tree' w. raise_loop sample_tree 1 0 = Some (tree', w) \<and> represents {#1, 2, 3#} tree')"
proof -
  note t = tree_refines_multiset[OF sample_represents, of 0]
  have "\<exists>w. prefix_count sample_tree (int 3) 0 = Some (int (size (filter_mset (\<lambda>d. d \<le> 3) {#2, 3 :: nat#})), w)"
    by (rule t[THEN conjunct1, rule_format]) (simp add: sample_tree_def)
  moreover have "\<exists>tree' w. raise_loop sample_tree (int 1) 0 = Some (tree', w) \<and> length tree' = length sample_tree \<and>
     represents (add_mset 1 {#2, 3#}) tree'"
    by (rule t[THEN conjunct2, rule_format]) simp
  ultimately show ?thesis by (auto simp del: One_nat_def)
qed

text \<open>
  C37. The three loops of the version index end on whatever numbers their arrays hold, and visit at most
  one entry for each binary digit of the size: \<open>prefix\<close> below 2 \<open>*\<close> rank, entering a date below twice
  the length of the tree, the binary search below twice the number of dates. The tree has at most
  2\<open>^\<close>31 entries and the dates are fewer, so that the 32-bit index arithmetic does not overflow; the
  rank is an index of the tree and the date entered is positive.
\<close>

theorem index_loops_end:
  assumes "length tree \<le> 2 ^ 31" "r < length tree" "0 < d" "length dates < 2 ^ 31"
  shows "\<exists>n t m u v w. prefix_count tree (int r) work = Some (n, work + u) \<and> 2 ^ u \<le> 2 * r + 1 \<and>
     raise_loop tree (int d) work = Some (t, work + v) \<and> 2 ^ v \<le> 2 * length tree + 1 \<and>
     greaterDates dates rank work = Some (m, work + w) \<and> 2 ^ w \<le> 2 * length dates + 1"
proof -
  obtain n u where p: "prefix_count tree (int r) work = Some (n, work + u)" "u = 0 \<or> 2 ^ (u - 1) * low r \<le> r"
    using prefix_loop_run[OF assms(1,2), of 0 work] unfolding prefix_count_def by auto
  have "2 ^ u \<le> 2 * r + 1"
  proof (cases "r = 0")
    case True
    have "prefix_count tree (int 0) work = Some (0, work)"
      unfolding prefix_count_def by (subst prefix_loop.simps) simp
    with p(1) True have "u = 0" by simp
    then show ?thesis by simp
  next
    case False
    then show ?thesis using steps_bound[OF p(2)] low_pos by simp
  qed
  moreover obtain t v where "raise_loop tree (int d) work = Some (t, work + v)" "v = 0 \<or> 2 ^ (v - 1) * low d \<le> length tree"
    using raise_loop_run[OF assms(1,3), of work] by blast
  moreover from this(2) have "2 ^ v \<le> 2 * length tree + 1" using steps_bound low_pos[OF assms(3)] by blast
  moreover obtain m w where "greaterDates dates rank work = Some (m, work + w)" "2 ^ w \<le> 2 * length dates + 1"
    using greaterDates_run[OF assms(4)] by blast
  ultimately show ?thesis using p(1) by blast
qed

theorem index_loops_end_witness:
  "\<exists>n t m u v w. prefix_count [0, - 7, 2147483647, 5] 3 0 = Some (n, u) \<and>
     raise_loop [0, - 7, 2147483647, 5] 2 0 = Some (t, v) \<and> greaterDates [4, 1, 3] 2 0 = Some (m, w) \<and>
     2 ^ u \<le> (7 :: nat) \<and> 2 ^ v \<le> (9 :: nat) \<and> 2 ^ w \<le> (7 :: nat)"
  using index_loops_end[of "[0, - 7, 2147483647, 5]" 3 2 "[4, 1, 3]" 0 2] by auto

end
