(* ===== verification/VersionFacts.thy ===== *)
theory VersionFacts
  imports BinaryIndexed
begin

text \<open>
  The sweep of \<open>versionDominanceCounts\<close> counts, for every signal, the signals that
  \<open>compareDocumentVersions\<close> finds newer (or older), and visits no more than a logarithm of entries for
  each signal.
\<close>

section \<open>Groups\<close>

lemma group_of_group_by: "group_of (group_by key xs) k = filter (\<lambda>x. key x = k) xs"
  by (simp add: group_of_def group_by_def map_of_foldl_push split: list.splits)

lemma keys_group_by: "set (map fst (group_by key xs)) = key ` set xs"
  by (simp add: group_by_def keys_foldl_push)

lemma distinct_group_by: "distinct (map fst (group_by key xs))"
  by (simp add: group_by_def distinct_foldl_push)

lemma group_by_Some: "map_of (group_by key xs) k = Some g \<Longrightarrow> g = filter (\<lambda>x. key x = k) xs"
  using group_of_group_by[of key xs k] by (simp add: group_of_def)

section \<open>Points\<close>

text \<open>
  \<open>ahead q p\<close>: the point \<open>q\<close> dominates \<open>p\<close>, comparing the two directly. A coordinate 0 is a missing
  marker.
\<close>

definition ahead :: "version_point \<Rightarrow> version_point \<Rightarrow> bool" where
  "ahead q p \<longleftrightarrow>
     (if vp_numeric p = 0 then vp_date p \<noteq> 0 \<and> vp_date p < vp_date q
      else vp_numeric p < vp_numeric q \<and> \<not> (vp_date q \<noteq> 0 \<and> vp_date q < vp_date p) \<or>
           (vp_numeric q = vp_numeric p \<or> vp_numeric q = 0) \<and> vp_date p \<noteq> 0 \<and> vp_date p < vp_date q)"

definition tally :: "version_point list \<Rightarrow> version_point \<Rightarrow> int" where
  "tally P p = int (length (filter (\<lambda>q. ahead q p) P))"

text \<open>The points above a numeric coordinate, and their dates.\<close>

definition upper :: "version_point list \<Rightarrow> nat \<Rightarrow> version_point list" where
  "upper P k = filter (\<lambda>q. k < vp_numeric q) P"

definition dates_of :: "version_point list \<Rightarrow> nat multiset" where
  "dates_of P = mset (filter (\<lambda>d. d \<noteq> 0) (map vp_date P))"

lemma size_dates_of: "size (dates_of P) \<le> length P"
  by (metis dates_of_def length_filter_le length_map size_mset)

lemma dates_of_positive: "\<forall>d \<in># dates_of P. 0 < d"
  by (simp add: dates_of_def)

lemma sorted_dated: "sorted (dated P)"
  by (simp add: dated_def)

lemma length_dated: "length (dated P) \<le> length P"
  by (metis dated_def length_filter_le length_map length_sort)

lemma later_dates:
  "length (filter (\<lambda>d. r < d) (dated P)) = length (filter (\<lambda>q. r < vp_date q) P)"
proof -
  have "mset (filter (\<lambda>d. r < d) (dated P)) = filter_mset (\<lambda>d. r < d) (mset (map vp_date P))"
    by (auto simp: dated_def filter_filter_mset multiset_eq_iff)
  also have "\<dots> = mset (map vp_date (filter (\<lambda>q. r < vp_date q) P))"
    by (induction P) auto
  finally show ?thesis by (metis length_map size_mset)
qed

lemma earlier_dates:
  "size (filter_mset (\<lambda>d. d \<le> r) (dates_of P)) = length (filter (\<lambda>q. vp_date q \<noteq> 0 \<and> vp_date q \<le> r) P)"
  by (induction P) (auto simp: dates_of_def)

text \<open>What the sweep stores for a point of the group \<open>k\<close>.\<close>

definition swept :: "version_point list \<Rightarrow> nat \<Rightarrow> version_point \<Rightarrow> int" where
  "swept P k p =
     (if vp_date p \<noteq> 0
      then int (length (upper P k)) - int (size (filter_mset (\<lambda>d. d \<le> vp_date p - 1) (dates_of (upper P k)))) +
        (int (length (filter (\<lambda>d. vp_date p < d) (dated (filter (\<lambda>q. vp_numeric q = k) P)))) +
         int (length (filter (\<lambda>d. vp_date p < d) (dated (filter (\<lambda>q. vp_numeric q = 0) P)))))
      else int (length (upper P k)))"

lemma length_filter_split:
  "length (filter f xs) = length (filter (\<lambda>x. f x \<and> g x) xs) + length (filter (\<lambda>x. f x \<and> \<not> g x) xs)"
  by (induction xs) auto

lemma length_filter_disjoint:
  "(\<And>x. x \<in> set xs \<Longrightarrow> \<not> (f x \<and> g x)) \<Longrightarrow>
    length (filter f xs) + length (filter g xs) = length (filter (\<lambda>x. f x \<or> g x) xs)"
  by (induction xs) auto

lemma swept_tally:
  assumes "vp_numeric p = k" "k \<noteq> 0"
  shows "swept P k p = tally P p"
proof (cases "vp_date p = 0")
  case True
  then have "(\<lambda>q. ahead q p) = (\<lambda>q. k < vp_numeric q)"
    using assms by (auto simp: ahead_def)
  then show ?thesis using True by (simp add: swept_def tally_def upper_def)
next
  case False
  let ?up = "\<lambda>q. k < vp_numeric q"
  let ?early = "\<lambda>q. vp_date q \<noteq> 0 \<and> vp_date q \<le> vp_date p - 1"
  let ?late = "\<lambda>q. vp_date p < vp_date q"
  have e: "length (filter ?up P) = length (filter (\<lambda>q. ?up q \<and> ?early q) P) + length (filter (\<lambda>q. ?up q \<and> \<not> ?early q) P)"
    by (rule length_filter_split)
  have "length (filter (\<lambda>q. vp_numeric q = k \<and> ?late q) P) + length (filter (\<lambda>q. vp_numeric q = 0 \<and> ?late q) P) =
      length (filter (\<lambda>q. (vp_numeric q = k \<and> ?late q) \<or> (vp_numeric q = 0 \<and> ?late q)) P)"
    using assms(2) by (intro length_filter_disjoint) auto
  moreover have "length (filter (\<lambda>q. ?up q \<and> \<not> ?early q) P) +
      length (filter (\<lambda>q. (vp_numeric q = k \<and> ?late q) \<or> (vp_numeric q = 0 \<and> ?late q)) P) =
      length (filter (\<lambda>q. ?up q \<and> \<not> ?early q \<or> ((vp_numeric q = k \<and> ?late q) \<or> (vp_numeric q = 0 \<and> ?late q))) P)"
    by (intro length_filter_disjoint) auto
  moreover have "(\<lambda>q. ?up q \<and> \<not> ?early q \<or> ((vp_numeric q = k \<and> ?late q) \<or> (vp_numeric q = 0 \<and> ?late q))) = (\<lambda>q. ahead q p)"
    using assms False by (auto simp: ahead_def fun_eq_iff)
  ultimately show ?thesis using False e
    by (simp add: swept_def tally_def upper_def later_dates earlier_dates filter_filter conj_commute)
qed

lemma missing_tally:
  "vp_numeric p = 0 \<Longrightarrow>
    (if vp_date p \<noteq> 0 then int (length (filter (\<lambda>d. vp_date p < d) (dated P))) else 0) = tally P p"
  by (simp add: tally_def ahead_def later_dates)

section \<open>Running the sweep\<close>

text \<open>\<open>within M B\<close>: a loop over a structure of size \<open>M\<close> makes at most \<open>B\<close> visits.\<close>

definition within :: "nat \<Rightarrow> nat \<Rightarrow> bool" where
  "within M B \<longleftrightarrow> (\<forall>v. 2 ^ v \<le> 2 * M + 1 \<longrightarrow> v \<le> B)"

lemma withinD: "within M B \<Longrightarrow> 2 ^ v \<le> 2 * n + 1 \<Longrightarrow> n \<le> M \<Longrightarrow> v \<le> B"
  by (auto simp: within_def)

definition address :: "(ref \<times> 'a) list \<Rightarrow> version_point \<Rightarrow> ref" where
  "address signals p = fst (signals ! vp_index p)"

definition point_value :: "nat multiset \<Rightarrow> int \<Rightarrow> nat list \<Rightarrow> nat list \<Rightarrow> version_point \<Rightarrow> int" where
  "point_value D numericTotal dates missing p =
     (if vp_date p \<noteq> 0
      then numericTotal - int (size (filter_mset (\<lambda>d. d \<le> vp_date p - 1) D)) +
        (int (length (filter (\<lambda>d. vp_date p < d) dates)) + int (length (filter (\<lambda>d. vp_date p < d) missing)))
      else numericTotal)"

text \<open>The stored values after a loop over some points, the rest as before.\<close>

definition stores ::
  "(ref \<times> 'a) list \<Rightarrow> (version_point \<Rightarrow> int) \<Rightarrow> version_point list \<Rightarrow> (ref \<Rightarrow> int option) \<Rightarrow> (ref \<Rightarrow> int option) \<Rightarrow> bool" where
  "stores signals value pts result result' \<longleftrightarrow>
     (\<forall>p \<in> set pts. result' (address signals p) = Some (value p)) \<and>
     (\<forall>r. r \<notin> address signals ` set pts \<longrightarrow> result' r = result r)"

lemma stores_Nil: "stores signals value [] result result"
  by (simp add: stores_def)

lemma stores_Cons:
  assumes "stores signals value pts (result(address signals p \<mapsto> value p)) result'"
    "address signals p \<notin> address signals ` set pts"
  shows "stores signals value (p # pts) result result'"
  using assms by (auto simp: stores_def)

lemma greater_sorted:
  assumes "length dates < 2 ^ 31" "sorted dates" "within M B" "length dates \<le> M"
  shows "\<exists>v. greaterDates dates rank work = Some (int (length (filter (\<lambda>d. rank < d) dates)), work + v) \<and> v \<le> B"
  using greaterDates_run[OF assms(1), of rank work] assms(2-4) withinD by blast

lemma assess_group_run:
  assumes D: "represents D tree" and w: "within M B" "length tree \<le> M" "length dates \<le> M" "length missing \<le> M" "M < 2 ^ 31"
    and s: "sorted dates" "sorted missing"
  shows "\<forall>p \<in> set pts. vp_date p < length tree \<Longrightarrow> distinct (map (address signals) pts) \<Longrightarrow>
    \<exists>result' v. assess_group signals tree numericTotal dates missing pts result work = Some (result', work + v) \<and>
      v \<le> length pts * (1 + 3 * B) \<and> stores signals (point_value D numericTotal dates missing) pts result result'"
proof (induction pts arbitrary: result work)
  case Nil
  show ?case by (simp add: stores_Nil)
next
  case (Cons p pts)
  let ?val = "point_value D numericTotal dates missing"
  have "\<exists>v. v \<le> 1 + 3 * B \<and> assess_group signals tree numericTotal dates missing (p # pts) result work =
      assess_group signals tree numericTotal dates missing pts (result(address signals p \<mapsto> ?val p)) (work + v)"
  proof (cases "vp_date p = 0")
    case True
    then show ?thesis by (intro exI[of _ 1]) (simp add: point_value_def address_def)
  next
    case False
    let ?r = "vp_date p - 1"
    have r: "?r < length tree" "int (vp_date p) - 1 = int ?r" using Cons.prems(1) False by auto
    obtain a where a: "prefix_count tree (int ?r) (Suc work) =
        Some (int (size (filter_mset (\<lambda>d. d \<le> ?r) D)), Suc work + a)" "2 ^ a \<le> 2 * ?r + 1"
      using prefix_represents[OF D r(1), of "Suc work"] by blast
    have aB: "a \<le> B" by (rule withinD[OF w(1) a(2)]) (use r(1) w(2) in simp)
    obtain b where b: "greaterDates dates (vp_date p) (Suc work + a) =
        Some (int (length (filter (\<lambda>d. vp_date p < d) dates)), Suc work + a + b)" "b \<le> B"
      using greater_sorted[OF _ s(1) w(1,3)] w(3,5) by (meson le_less_trans)
    obtain c where c: "greaterDates missing (vp_date p) (Suc work + a + b) =
        Some (int (length (filter (\<lambda>d. vp_date p < d) missing)), Suc work + a + b + c)" "c \<le> B"
      using greater_sorted[OF _ s(2) w(1,4)] w(4,5) by (meson le_less_trans)
    have val: "?val p = numericTotal - int (size (filter_mset (\<lambda>d. d \<le> ?r) D)) +
        (int (length (filter (\<lambda>d. vp_date p < d) dates)) + int (length (filter (\<lambda>d. vp_date p < d) missing)))"
      using False by (simp add: point_value_def)
    have "assess_group signals tree numericTotal dates missing (p # pts) result work =
        assess_group signals tree numericTotal dates missing pts (result(address signals p \<mapsto> ?val p)) (Suc work + a + b + c)"
      unfolding val address_def
      by (simp only: assess_group.simps False not_False_eq_True if_True r(2) a(1) b(1) c(1) Option.bind.simps prod.case)
    moreover have "Suc work + a + b + c = work + (1 + a + b + c)" by simp
    moreover have "1 + a + b + c \<le> 1 + 3 * B" using aB b(2) c(2) by simp
    ultimately show ?thesis by metis
  qed
  then obtain v where v: "v \<le> 1 + 3 * B" "assess_group signals tree numericTotal dates missing (p # pts) result work =
      assess_group signals tree numericTotal dates missing pts (result(address signals p \<mapsto> ?val p)) (work + v)"
    by blast
  obtain result' u where ih: "assess_group signals tree numericTotal dates missing pts (result(address signals p \<mapsto> ?val p)) (work + v) =
      Some (result', work + v + u)" "u \<le> length pts * (1 + 3 * B)"
    "stores signals ?val pts (result(address signals p \<mapsto> ?val p)) result'"
    using Cons.IH[of "result(address signals p \<mapsto> ?val p)" "work + v"] Cons.prems
    unfolding list.simps distinct.simps ball_simps by blast
  have "stores signals ?val (p # pts) result result'"
    by (rule stores_Cons[OF ih(3)]) (use Cons.prems(2) in auto)
  moreover have "assess_group signals tree numericTotal dates missing (p # pts) result work = Some (result', work + (v + u))"
    unfolding v(2) ih(1) by (simp only: add.assoc)
  moreover have "v + u \<le> length (p # pts) * (1 + 3 * B)" using v(1) ih(2) by simp
  ultimately show ?case by blast
qed

lemma enter_group_run:
  assumes "within M B"
  shows "represents D tree \<Longrightarrow> length tree \<le> M \<Longrightarrow> size D + length pts < 2 ^ 31 \<Longrightarrow>
    \<exists>tree' v. enter_group tree numericTotal pts work = Some (tree', numericTotal + int (length pts), work + v) \<and>
      v \<le> length pts * B \<and> length tree' = length tree \<and> represents (dates_of pts + D) tree'"
proof (induction pts arbitrary: tree numericTotal work D)
  case Nil
  then show ?case by (simp add: dates_of_def)
next
  case (Cons p pts)
  show ?case
  proof (cases "vp_date p = 0")
    case True
    with Cons.prems Cons.IH[of D tree "numericTotal + 1" work] show ?thesis
      by (auto simp: dates_of_def add.assoc intro: trans_le_add2)
  next
    case False
    obtain t v where t: "raise_loop tree (int (vp_date p)) work = Some (t, work + v)" "length t = length tree"
      "2 ^ v \<le> 2 * length tree + 1" "represents (add_mset (vp_date p) D) t"
      using raise_represents[OF Cons.prems(1), of "vp_date p" work] False Cons.prems(3) by auto
    have vB: "v \<le> B" by (rule withinD[OF assms t(3) Cons.prems(2)])
    obtain t' u where ih: "enter_group t (numericTotal + 1) pts (work + v) =
        Some (t', numericTotal + 1 + int (length pts), work + v + u)"
      "u \<le> length pts * B" "length t' = length t" "represents (dates_of pts + add_mset (vp_date p) D) t'"
      using Cons.IH[OF t(4), of "numericTotal + 1" "work + v"] Cons.prems(2,3) t(2) by auto
    have "dates_of (p # pts) + D = dates_of pts + add_mset (vp_date p) D" using False by (simp add: dates_of_def)
    with ih t(1,2) vB False show ?thesis
      by (intro exI[of _ t'] exI[of _ "v + u"]) (simp add: add.assoc algebra_simps)
  qed
qed

lemma stores_append:
  assumes "stores signals value A r r1" "stores signals value B r1 r2" "set C = set A \<union> set B"
    "inj_on (address signals) (set C)" "set A \<inter> set B = {}"
  shows "stores signals value C r r2"
proof -
  have "address signals p \<notin> address signals ` set B" if "p \<in> set A" for p
    using that assms(3-5) by (auto dest!: inj_onD)
  with assms(1-3) show ?thesis unfolding stores_def by (metis Un_iff image_Un)
qed

lemma stores_cong: "stores signals f A r r' \<Longrightarrow> (\<And>p. p \<in> set A \<Longrightarrow> f p = g p) \<Longrightarrow> stores signals g A r r'"
  by (simp add: stores_def)

lemma dates_of_disjoint:
  "(\<And>x. x \<in> set P \<Longrightarrow> \<not> (f x \<and> g x)) \<Longrightarrow>
    dates_of (filter f P) + dates_of (filter g P) = dates_of (filter (\<lambda>x. f x \<or> g x) P)"
  by (induction P) (auto simp: dates_of_def)

lemma distinct_filter_map: "distinct (map f xs) \<Longrightarrow> distinct (map f (filter P xs))"
  by (induction xs) auto

text \<open>\<open>finished P ks\<close>: the points of the groups the sweep has left when \<open>ks\<close> remain.\<close>

definition finished :: "version_point list \<Rightarrow> nat list \<Rightarrow> version_point list" where
  "finished P ks = filter (\<lambda>q. vp_numeric q \<noteq> 0 \<and> vp_numeric q \<notin> set ks) P"

lemma finished_upper:
  assumes "sorted_wrt (>) (k # ks)" "\<forall>q \<in> set P. vp_numeric q \<noteq> 0 \<and> vp_numeric q \<notin> set (k # ks) \<longrightarrow> k < vp_numeric q"
  shows "finished P (k # ks) = upper P k"
  unfolding finished_def upper_def
proof (rule filter_cong[OF refl])
  fix q assume "q \<in> set P"
  with assms show "(vp_numeric q \<noteq> 0 \<and> vp_numeric q \<notin> set (k # ks)) = (k < vp_numeric q)" by auto
qed

lemma sweep_run:
  fixes P :: "version_point list"
  defines "groups \<equiv> group_by vp_numeric P"
  assumes w: "within M B" "length P < M" "M < 2 ^ 31"
    and d: "\<forall>p \<in> set P. vp_date p < len" "len \<le> M"
    and inj: "distinct (map (address signals) P)"
  shows "sorted_wrt (>) ks \<Longrightarrow> 0 \<notin> set ks \<Longrightarrow>
    \<forall>k \<in> set ks. \<forall>q \<in> set P. vp_numeric q \<noteq> 0 \<and> vp_numeric q \<notin> set ks \<longrightarrow> k < vp_numeric q \<Longrightarrow>
    represents (dates_of (finished P ks)) tree \<Longrightarrow> length tree = len \<Longrightarrow>
    \<exists>result' v. sweep signals groups (dated (group_of groups 0)) ks tree (int (length (finished P ks))) result work =
        Some (result', work + v) \<and> v \<le> length (filter (\<lambda>p. vp_numeric p \<in> set ks) P) * (1 + 4 * B) \<and>
      stores signals (tally P) (filter (\<lambda>p. vp_numeric p \<in> set ks) P) result result'"
proof (induction ks arbitrary: tree result work)
  case Nil
  show ?case by (simp add: stores_Nil)
next
  case (Cons k ks)
  let ?g = "filter (\<lambda>q. vp_numeric q = k) P"
  let ?fin = "finished P (k # ks)"
  have up: "?fin = upper P k" using Cons.prems(1,3) by (intro finished_upper) auto
  have g: "group_of groups k = ?g" "group_of groups 0 = filter (\<lambda>q. vp_numeric q = 0) P"
    unfolding groups_def by (rule group_of_group_by)+
  have lens: "length (dated ?g) \<le> M" "length (dated (group_of groups 0)) \<le> M"
    using length_dated[of ?g] length_dated[of "group_of groups 0"] length_filter_le[of _ P] w(2) unfolding g(2)
    by (meson le_trans less_imp_le)+
  obtain r1 v1 where a: "assess_group signals tree (int (length ?fin)) (dated ?g) (dated (group_of groups 0)) ?g result work =
      Some (r1, work + v1)" "v1 \<le> length ?g * (1 + 3 * B)"
    "stores signals (point_value (dates_of ?fin) (int (length ?fin)) (dated ?g) (dated (group_of groups 0))) ?g result r1"
    using assess_group_run[OF Cons.prems(4) w(1) _ lens w(3) sorted_dated sorted_dated, of ?g signals] Cons.prems(5) d
      distinct_filter_map[OF inj] by fastforce
  have val: "point_value (dates_of ?fin) (int (length ?fin)) (dated ?g) (dated (group_of groups 0)) p = tally P p"
    if "p \<in> set ?g" for p
  proof -
    have "k \<noteq> 0" using Cons.prems(2) by auto
    then show ?thesis using that swept_tally[of p k P] unfolding up swept_def point_value_def g(2) by simp
  qed
  have st1: "stores signals (tally P) ?g result r1" by (rule stores_cong[OF a(3) val])
  have size: "size (dates_of ?fin) + length ?g < 2 ^ 31"
  proof -
    have "size (dates_of ?fin) + length ?g \<le> length ?fin + length ?g" by (intro add_right_mono size_dates_of)
    also have "\<dots> = length (filter (\<lambda>q. k < vp_numeric q \<or> vp_numeric q = k) P)"
      unfolding up upper_def by (rule length_filter_disjoint) auto
    also have "\<dots> \<le> length P" by (rule length_filter_le)
    finally show ?thesis using w(2,3) by linarith
  qed
  obtain t v2 where e: "enter_group tree (int (length ?fin)) ?g (work + v1) =
      Some (t, int (length ?fin) + int (length ?g), work + v1 + v2)" "v2 \<le> length ?g * B" "length t = len"
      "represents (dates_of ?g + dates_of ?fin) t"
    using enter_group_run[OF w(1) Cons.prems(4) _ size, of "int (length ?fin)" "work + v1"] Cons.prems(5) d(2) by auto
  have fin: "finished P ks = filter (\<lambda>q. vp_numeric q = k \<or> k < vp_numeric q) P"
    unfolding finished_def
  proof (rule filter_cong[OF refl])
    fix q assume "q \<in> set P"
    then show "(vp_numeric q \<noteq> 0 \<and> vp_numeric q \<notin> set ks) = (vp_numeric q = k \<or> k < vp_numeric q)"
      using Cons.prems(1-3) by auto
  qed
  have mdates: "dates_of ?g + dates_of ?fin = dates_of (finished P ks)"
    unfolding fin up upper_def by (rule dates_of_disjoint) auto
  have mlen: "int (length ?fin) + int (length ?g) = int (length (finished P ks))"
    unfolding fin up upper_def using length_filter_disjoint[of P "\<lambda>q. vp_numeric q = k" "\<lambda>q. k < vp_numeric q"] by auto
  have rest: "\<forall>j \<in> set ks. \<forall>q \<in> set P. vp_numeric q \<noteq> 0 \<and> vp_numeric q \<notin> set ks \<longrightarrow> j < vp_numeric q"
    using Cons.prems(1,3) by (metis list.set_intros(2) set_ConsD sorted_wrt.simps(2))
  obtain r2 v3 where ih: "sweep signals groups (dated (group_of groups 0)) ks t (int (length (finished P ks))) r1 (work + v1 + v2) =
      Some (r2, work + v1 + v2 + v3)" "v3 \<le> length (filter (\<lambda>p. vp_numeric p \<in> set ks) P) * (1 + 4 * B)"
    "stores signals (tally P) (filter (\<lambda>p. vp_numeric p \<in> set ks) P) r1 r2"
    using Cons.IH[OF _ _ rest e(4)[unfolded mdates] e(3), of r1 "work + v1 + v2"] Cons.prems(1,2) by auto
  have "sweep signals groups (dated (group_of groups 0)) (k # ks) tree (int (length ?fin)) result work =
      Some (r2, work + v1 + v2 + v3)"
    by (simp only: sweep.simps g(1) Let_def a(1) e(1) mlen ih(1) Option.bind.simps prod.case)
  then have "sweep signals groups (dated (group_of groups 0)) (k # ks) tree (int (length ?fin)) result work =
      Some (r2, work + (v1 + v2 + v3))"
    by (simp only: add.assoc)
  moreover have "v1 + v2 + v3 \<le> length (filter (\<lambda>p. vp_numeric p \<in> set (k # ks)) P) * (1 + 4 * B)"
  proof -
    have "k \<notin> set ks" using Cons.prems(1) by auto
    then have "length (filter (\<lambda>p. vp_numeric p \<in> set (k # ks)) P) =
        length ?g + length (filter (\<lambda>p. vp_numeric p \<in> set ks) P)"
      using length_filter_disjoint[of P "\<lambda>q. vp_numeric q = k" "\<lambda>q. vp_numeric q \<in> set ks"] by auto
    moreover have "length ?g * (1 + 3 * B) + length ?g * B = length ?g * (1 + 4 * B)" by (simp add: algebra_simps)
    ultimately show ?thesis using a(2) e(2) ih(2) by (simp only: add_mult_distrib)
  qed
  moreover have "stores signals (tally P) (filter (\<lambda>p. vp_numeric p \<in> set (k # ks)) P) result r2"
    by (rule stores_append[OF st1 ih(3)]) (use inj Cons.prems(1) in \<open>auto simp: distinct_map intro: inj_on_subset\<close>)
  ultimately show ?case by blast
qed

lemma assess_missing_run:
  assumes "length dates < 2 ^ 31" "sorted dates" "within M B" "length dates \<le> M"
  defines "value \<equiv> \<lambda>p. if vp_date p \<noteq> 0 then int (length (filter (\<lambda>d. vp_date p < d) dates)) else 0"
  shows "distinct (map (address signals) pts) \<Longrightarrow>
    \<exists>result' v. assess_missing signals dates pts result work = Some (result', work + v) \<and>
      v \<le> length pts * (1 + B) \<and> stores signals value pts result result'"
proof (induction pts arbitrary: result work)
  case Nil
  show ?case by (simp add: stores_Nil)
next
  case (Cons p pts)
  obtain v where v: "(if vp_date p \<noteq> 0 then greaterDates dates (vp_date p) (Suc work) else Some (0, Suc work)) =
      Some (value p, Suc work + v)" "v \<le> B"
    using greater_sorted[OF assms(1-4), of "vp_date p" "Suc work"] unfolding value_def by (cases "vp_date p = 0") auto
  obtain r u where ih: "assess_missing signals dates pts (result(address signals p \<mapsto> value p)) (Suc work + v) =
      Some (r, Suc work + v + u)" "u \<le> length pts * (1 + B)"
    "stores signals value pts (result(address signals p \<mapsto> value p)) r"
    using Cons.IH[of "result(address signals p \<mapsto> value p)" "Suc work + v"] Cons.prems
    unfolding list.simps distinct.simps by blast
  have "assess_missing signals dates (p # pts) result work = Some (r, Suc work + v + u)"
    by (simp only: assess_missing.simps v(1) Option.bind.simps prod.case ih(1)[unfolded address_def])
  moreover have "Suc work + v + u = work + (1 + v + u)" by simp
  moreover have "1 + v + u \<le> length (p # pts) * (1 + B)" using v(2) ih(2) by simp
  moreover have "stores signals value (p # pts) result r"
    by (rule stores_Cons[OF ih(3)]) (use Cons.prems in auto)
  ultimately show ?case by metis
qed

lemma sorted_descending: "distinct xs \<Longrightarrow> sorted_wrt (>) (descending xs)"
  by (simp add: descending_def sorted_wrt_rev strict_sorted_iff)

lemma set_descending [simp]: "set (descending xs) = set xs"
  by (simp add: descending_def)

text \<open>The whole computation on given points.\<close>

lemma points_counted:
  assumes w: "within M B" "length P < M" "M < 2 ^ 31"
    and d: "\<forall>p \<in> set P. vp_date p < len" "len \<le> M"
    and inj: "distinct (map (address signals) P)"
  defines "groups \<equiv> group_by vp_numeric P"
  shows "\<exists>result v. Option.bind (sweep signals groups (dated (group_of groups 0))
        (descending (filter (\<lambda>n. n \<noteq> 0) (map fst groups))) (replicate len 0) 0 (\<lambda>_. None) 0) (\<lambda>(result, work).
        assess_missing signals (dated P) (group_of groups 0) result work) = Some (result, v) \<and>
      v \<le> length P * (1 + 4 * B) \<and> (\<forall>p \<in> set P. result (address signals p) = Some (tally P p))"
proof -
  let ?ks = "descending (filter (\<lambda>n. n \<noteq> 0) (map fst groups))"
  let ?z = "filter (\<lambda>p. vp_numeric p = 0) P"
  have ks: "set ?ks = vp_numeric ` set P - {0}"
    using keys_group_by[of vp_numeric P] by (auto simp: groups_def)
  have z: "group_of groups 0 = ?z" by (simp add: groups_def group_of_group_by)
  have fin: "finished P ?ks = []" using ks by (auto simp: finished_def filter_empty_conv)
  have none: "int (length (finished P ?ks)) = 0" unfolding fin by simp
  have rep: "represents (dates_of (finished P ?ks)) (replicate len 0)"
    unfolding fin using represents_empty[of len] d(2) w(3) by (simp add: dates_of_def)
  have c1: "sorted_wrt (>) ?ks"
    unfolding groups_def by (intro sorted_descending distinct_filter distinct_group_by)
  have c2: "0 \<notin> set ?ks" using ks by simp
  have c3: "\<forall>k \<in> set ?ks. \<forall>q \<in> set P. vp_numeric q \<noteq> 0 \<and> vp_numeric q \<notin> set ?ks \<longrightarrow> k < vp_numeric q"
    using ks by auto
  obtain r v where s: "sweep signals groups (dated (group_of groups 0)) ?ks (replicate len 0) 0 (\<lambda>_. None) 0 = Some (r, v)"
    "v \<le> length (filter (\<lambda>p. vp_numeric p \<in> set ?ks) P) * (1 + 4 * B)"
    "stores signals (tally P) (filter (\<lambda>p. vp_numeric p \<in> set ?ks) P) (\<lambda>_. None) r"
    using sweep_run[OF w d inj c1 c2 c3 rep length_replicate, of "\<lambda>_. None" 0, folded groups_def]
    unfolding none add_0 by blast
  have dl: "length (dated P) < 2 ^ 31" "length (dated P) \<le> M" using length_dated[of P] w(2,3) by linarith+
  obtain r' u where m: "assess_missing signals (dated P) ?z r v = Some (r', v + u)" "u \<le> length ?z * (1 + B)"
    "stores signals (\<lambda>p. if vp_date p \<noteq> 0 then int (length (filter (\<lambda>d. vp_date p < d) (dated P))) else 0) ?z r r'"
    using assess_missing_run[OF dl(1) sorted_dated w(1) dl(2) distinct_filter_map[OF inj], of "\<lambda>p. vp_numeric p = 0" r v]
    by blast
  have m3: "stores signals (tally P) ?z r r'"
    by (rule stores_cong[OF m(3)]) (use missing_tally in auto)
  have "stores signals (tally P) P (\<lambda>_. None) r'"
    by (rule stores_append[OF s(3) m3]) (use inj ks in \<open>auto simp: distinct_map\<close>)
  moreover have "v + u \<le> length P * (1 + 4 * B)"
  proof -
    have "filter (\<lambda>p. vp_numeric p \<in> set ?ks) P = filter (\<lambda>p. vp_numeric p \<noteq> 0) P"
      unfolding ks by (rule filter_cong[OF refl]) simp
    then have "length (filter (\<lambda>p. vp_numeric p \<in> set ?ks) P) + length ?z = length P"
      using sum_length_filter_compl[of "\<lambda>p. vp_numeric p \<noteq> 0" P] by (simp only: not_not)
    moreover have "u \<le> length ?z * (1 + 4 * B)" using m(2) by (rule order_trans) simp
    ultimately show ?thesis using s(2) by (metis add_le_mono add_mult_distrib)
  qed
  ultimately show ?thesis using s(1) m(1) unfolding z stores_def by (intro exI[of _ r'] exI[of _ "v + u"]) simp
qed

section \<open>Comparing padded revisions\<close>

definition pad :: "int list \<Rightarrow> nat \<Rightarrow> int" where
  "pad xs i = (if i < length xs then xs ! i else 0)"

lemma pad_Nil: "pad [] i = 0"
  by (simp add: pad_def)

lemma pad_Cons: "pad (x # xs) i = (case i of 0 \<Rightarrow> x | Suc j \<Rightarrow> pad xs j)"
  by (cases i) (simp_all add: pad_def)

definition seq_less :: "(nat \<Rightarrow> int) \<Rightarrow> (nat \<Rightarrow> int) \<Rightarrow> bool" where
  "seq_less f g \<longleftrightarrow> (\<exists>i. f i < g i \<and> (\<forall>j < i. f j = g j))"

lemma seq_less_trans: "seq_less f g \<Longrightarrow> seq_less g h \<Longrightarrow> seq_less f h"
proof -
  assume "seq_less f g" "seq_less g h"
  then obtain i k where ik: "f i < g i" "\<forall>j < i. f j = g j" "g k < h k" "\<forall>j < k. g j = h j"
    by (auto simp: seq_less_def)
  then have "f (min i k) < h (min i k) \<and> (\<forall>j < min i k. f j = h j)"
    by (cases i k rule: linorder_cases) (auto simp: min_def)
  then show ?thesis by (auto simp: seq_less_def)
qed

lemma seq_less_irrefl: "\<not> seq_less f f"
  by (simp add: seq_less_def)

lemma seq_less_Suc:
  "seq_less f g \<longleftrightarrow> f 0 < g 0 \<or> f 0 = g 0 \<and> seq_less (\<lambda>i. f (Suc i)) (\<lambda>i. g (Suc i))"
proof
  assume "seq_less f g"
  then obtain i where i: "f i < g i" "\<forall>j < i. f j = g j" by (auto simp: seq_less_def)
  then show "f 0 < g 0 \<or> f 0 = g 0 \<and> seq_less (\<lambda>i. f (Suc i)) (\<lambda>i. g (Suc i))"
    by (cases i) (auto simp: seq_less_def)
next
  assume "f 0 < g 0 \<or> f 0 = g 0 \<and> seq_less (\<lambda>i. f (Suc i)) (\<lambda>i. g (Suc i))"
  then show "seq_less f g"
  proof
    assume "f 0 = g 0 \<and> seq_less (\<lambda>i. f (Suc i)) (\<lambda>i. g (Suc i))"
    then obtain i where "f 0 = g 0" "f (Suc i) < g (Suc i)" "\<forall>j < i. f (Suc j) = g (Suc j)"
      by (auto simp: seq_less_def)
    then show ?thesis unfolding seq_less_def by (intro exI[of _ "Suc i"]) (auto simp: less_Suc_eq_0_disj)
  qed (auto simp: seq_less_def)
qed

lemma pad_eq_Suc: "f = g \<longleftrightarrow> f 0 = g 0 \<and> (\<lambda>i. f (Suc i)) = (\<lambda>i. g (Suc i))" for f g :: "nat \<Rightarrow> int"
  by (auto simp: fun_eq_iff) (metis not0_implies_Suc)

fun difference :: "int list \<Rightarrow> int list \<Rightarrow> int" where
  "difference [] [] = 0"
| "difference (a # as) [] = (if a \<noteq> 0 then a else difference as [])"
| "difference [] (b # bs) = (if b \<noteq> 0 then - b else difference [] bs)"
| "difference (a # as) (b # bs) = (if a \<noteq> b then a - b else difference as bs)"

lemma pad_tail: "(\<lambda>i. pad (x # xs) (Suc i)) = pad xs" "(\<lambda>i. pad [] (Suc i)) = pad []"
  by (auto simp: pad_Cons pad_Nil)

lemma pad_zero: "pad (x # xs) 0 = x" "pad [] 0 = 0"
  by (simp_all add: pad_def)

lemma seq_less_pad:
  "seq_less (pad (a # as)) (pad (b # bs)) \<longleftrightarrow> a < b \<or> a = b \<and> seq_less (pad as) (pad bs)"
  "seq_less (pad (a # as)) (pad []) \<longleftrightarrow> a < 0 \<or> a = 0 \<and> seq_less (pad as) (pad [])"
  "seq_less (pad []) (pad (b # bs)) \<longleftrightarrow> 0 < b \<or> b = 0 \<and> seq_less (pad []) (pad bs)"
  by (subst seq_less_Suc, simp only: pad_tail pad_zero eq_commute[of 0])+

lemma pad_eq:
  "pad (a # as) = pad (b # bs) \<longleftrightarrow> a = b \<and> pad as = pad bs"
  "pad (a # as) = pad [] \<longleftrightarrow> a = 0 \<and> pad as = pad []"
  "pad [] = pad (b # bs) \<longleftrightarrow> b = 0 \<and> pad [] = pad bs"
  by (subst pad_eq_Suc, simp only: pad_tail pad_zero eq_commute[of 0])+

lemma difference_pad:
  "(difference as bs < 0 \<longleftrightarrow> seq_less (pad as) (pad bs)) \<and> (0 < difference as bs \<longleftrightarrow> seq_less (pad bs) (pad as)) \<and>
   (difference as bs = 0 \<longleftrightarrow> pad as = pad bs)"
  by (induction as bs rule: difference.induct) (auto simp: seq_less_irrefl seq_less_pad pad_eq)

lemma compareNumericRevision_finite: "compareNumericRevision (map Fin as) (map Fin bs) = Some (difference as bs)"
  by (induction as bs rule: difference.induct) auto

lemma compare_parts_finite: "compare_parts (map Fin as) (map Fin bs) = sgn (difference as bs)"
  by (induction as bs rule: difference.induct) auto

lemma pad_butlast: "last xs = 0 \<Longrightarrow> pad (butlast xs) = pad xs"
proof
  fix i assume "last xs = 0"
  then show "pad (butlast xs) i = pad xs i"
    by (cases xs rule: rev_cases) (auto simp: pad_def nth_append)
qed

text \<open>A revision without trailing zeros is determined by its padding.\<close>

definition trimmed :: "int list \<Rightarrow> bool" where
  "trimmed ns \<longleftrightarrow> ns \<noteq> [] \<and> (1 < length ns \<longrightarrow> last ns \<noteq> 0)"

lemma trimmed_shorter:
  assumes "trimmed ms" "pad ns = pad ms" "ns \<noteq> []"
  shows "length ms \<le> length ns"
proof (rule ccontr)
  assume n: "\<not> length ms \<le> length ns"
  with assms(3) have "1 < length ms" by (cases ns) auto
  with assms(1) have "pad ms (length ms - 1) \<noteq> 0"
    by (cases ms rule: rev_cases) (auto simp: trimmed_def pad_def nth_append)
  moreover have "pad ns (length ms - 1) = 0" using n by (auto simp: pad_def)
  ultimately show False using assms(2) by simp
qed

lemma trimmed_inject: "trimmed ns \<Longrightarrow> trimmed ms \<Longrightarrow> pad ns = pad ms \<Longrightarrow> ns = ms"
proof -
  assume t: "trimmed ns" "trimmed ms" "pad ns = pad ms"
  then have "length ns = length ms"
    using trimmed_shorter[of ns ms] trimmed_shorter[of ms ns] by (auto simp: trimmed_def)
  moreover have "ns ! i = ms ! i" if "i < length ns" for i
    using fun_cong[OF t(3), of i] that calculation by (simp add: pad_def)
  ultimately show ?thesis by (rule nth_equalityI)
qed

lemma drop_zeros_finite:
  "ns \<noteq> [] \<Longrightarrow> \<exists>ms. drop_zeros (map Fin ns) = map Fin ms \<and> trimmed ms \<and> pad ms = pad ns"
proof (induction "length ns" arbitrary: ns rule: less_induct)
  case less
  show ?case
  proof (cases "1 < length ns \<and> last ns = 0")
    case True
    then have "1 < length (map Fin ns) \<and> last (map Fin ns) = Fin 0" by (cases ns rule: rev_cases) auto
    then have "drop_zeros (map Fin ns) = drop_zeros (map Fin (butlast ns))"
      by (subst drop_zeros.simps) (simp only: if_True map_butlast simp_thms)
    moreover have "length (butlast ns) < length ns" "butlast ns \<noteq> []" using True by (cases ns; auto)+
    ultimately show ?thesis using less.hyps[of "butlast ns"] pad_butlast[of ns] True by auto
  next
    case False
    then have "drop_zeros (map Fin ns) = map Fin ns"
      using less.prems by (subst drop_zeros.simps) (auto simp: last_map)
    with False less.prems show ?thesis by (auto simp: trimmed_def)
  qed
qed

section \<open>Ranks in a sorted array\<close>

lemma ranks_acc:
  "distinct (map key ys) \<Longrightarrow> map_of (foldl (\<lambda>m (i, v). map_set m (key v) (i + 1)) m (enumerate n ys)) k =
     (if k \<in> key ` set ys then Some (n + length (takeWhile (\<lambda>y. key y \<noteq> k) ys) + 1) else map_of m k)"
  by (induction ys arbitrary: n m) auto

lemma rank_unknown: "distinct (map key ys) \<Longrightarrow> k \<notin> key ` set ys \<Longrightarrow> rank_or_zero (ranks key ys) k = 0"
  unfolding rank_or_zero_def ranks_def by (subst ranks_acc) simp_all

lemma rank_nth:
  assumes "distinct (map key ys)" "i < length ys"
  shows "rank_or_zero (ranks key ys) (key (ys ! i)) = Suc i"
proof -
  have "takeWhile (\<lambda>y. key y \<noteq> key (ys ! i)) ys = take i ys"
    using assms by (intro takeWhile_eq_take_P_nth) (auto simp: distinct_conv_nth)
  then show ?thesis
    unfolding rank_or_zero_def ranks_def using assms by (subst ranks_acc) auto
qed

text \<open>
  A comparator that orders the legal values strictly: sorting with it makes the rank of a value say
  how it compares.
\<close>

locale comparator =
  fixes cmp :: "'a \<Rightarrow> 'a \<Rightarrow> int" and legal :: "'a \<Rightarrow> bool"
  assumes cmp_swap: "legal a \<Longrightarrow> legal b \<Longrightarrow> cmp b a < 0 \<longleftrightarrow> 0 < cmp a b"
    and cmp_zero: "legal a \<Longrightarrow> legal b \<Longrightarrow> cmp a b = 0 \<longleftrightarrow> a = b"
    and cmp_trans: "legal a \<Longrightarrow> legal b \<Longrightarrow> legal c \<Longrightarrow> cmp a b < 0 \<Longrightarrow> cmp b c < 0 \<Longrightarrow> cmp a c < 0"
begin

lemma insert_strict:
  "sorted_wrt (\<lambda>a b. cmp a b < 0) ys \<Longrightarrow> \<forall>y \<in> insert x (set ys). legal y \<Longrightarrow> x \<notin> set ys \<Longrightarrow>
    sorted_wrt (\<lambda>a b. cmp a b < 0) (insert_cmp cmp x ys)"
proof (induction ys)
  case (Cons y ys)
  show ?case
  proof (cases "cmp x y \<le> 0")
    case True
    then have xy: "cmp x y < 0" using Cons.prems cmp_zero[of x y] by force
    moreover have "cmp x z < 0" if "z \<in> set ys" for z
      using cmp_trans[of x y z] xy Cons.prems that by simp
    ultimately show ?thesis using True Cons.prems(1) by simp
  next
    case False
    then have "cmp y x < 0" using Cons.prems cmp_swap[of x y] by simp
    with False Cons show ?thesis by (auto simp: set_insert_cmp)
  qed
qed simp

lemma sort_strict:
  "distinct xs \<Longrightarrow> \<forall>x \<in> set xs. legal x \<Longrightarrow> sorted_wrt (\<lambda>a b. cmp a b < 0) (sort_cmp cmp xs)"
proof (induction xs)
  case (Cons x xs)
  have "sort_cmp cmp (x # xs) = insert_cmp cmp x (sort_cmp cmp xs)" by (simp add: sort_cmp_def)
  with Cons show ?case using insert_strict[of "sort_cmp cmp xs" x] by simp
qed (simp add: sort_cmp_def)

lemma rank_order:
  assumes xs: "distinct xs" "\<forall>x \<in> set xs. legal x" and key: "inj_on key (set xs)"
    and ab: "a \<in> set xs" "b \<in> set xs"
  defines "rank \<equiv> \<lambda>v. rank_or_zero (ranks key (sort_cmp cmp xs)) (key v)"
  shows "0 < rank a" "rank a \<le> length xs" "rank a < rank b \<longleftrightarrow> cmp a b < 0"
proof -
  let ?ys = "sort_cmp cmp xs"
  have d: "distinct (map key ?ys)"
    unfolding distinct_map using xs(1) key by (metis mset_sort_cmp mset_eq_imp_distinct_iff set_sort_cmp)
  obtain i j where ij: "i < length ?ys" "j < length ?ys" "a = ?ys ! i" "b = ?ys ! j"
    using ab by (metis in_set_conv_nth set_sort_cmp)
  have r: "rank a = Suc i" "rank b = Suc j"
    unfolding rank_def ij(3,4) using rank_nth[OF d] ij(1,2) by blast+
  show "0 < rank a" "rank a \<le> length xs" using r ij(1) by simp_all
  have s: "cmp (?ys ! k) (?ys ! l) < 0" if "k < l" "l < length ?ys" for k l
    using sort_strict[OF xs] that by (auto simp: sorted_wrt_iff_nth_less)
  have legal: "legal a" "legal b" using xs(2) ab by auto
  show "rank a < rank b \<longleftrightarrow> cmp a b < 0"
  proof (cases i j rule: linorder_cases)
    case less
    then show ?thesis using s ij r by simp
  next
    case equal
    then show ?thesis using r ij cmp_zero[of a a] legal by simp
  next
    case greater
    then have "cmp b a < 0" using s ij by simp
    then have "0 < cmp a b" using cmp_swap legal by blast
    with greater show ?thesis using r by simp
  qed
qed

lemma rank_absent:
  assumes "distinct xs" "inj_on key (set xs)" "k \<notin> key ` set xs"
  shows "rank_or_zero (ranks key (sort_cmp cmp xs)) k = 0"
proof (rule rank_unknown)
  show "distinct (map key (sort_cmp cmp xs))"
    unfolding distinct_map using assms(1,2) by (metis mset_sort_cmp mset_eq_imp_distinct_iff set_sort_cmp)
qed (use assms(3) in simp)

end

text \<open>A revision as the index keeps it: finite parts, no trailing zero.\<close>

definition canonical :: "js_number list \<Rightarrow> bool" where
  "canonical parts \<longleftrightarrow> (\<exists>ns. parts = map Fin ns \<and> trimmed ns)"

lemma by_revision_finite: "by_revision (map Fin as) (map Fin bs) = difference as bs"
  by (simp add: by_revision_def compareNumericRevision_finite)

lemma Fin_lists [simp]: "map Fin ns = map Fin ms \<longleftrightarrow> ns = ms"
  by (simp add: inj_map_eq_map inj_def)

interpretation dates: comparator code_unit_compare "\<lambda>_. True"
proof unfold_locales
  show "code_unit_compare b a < 0 \<longleftrightarrow> 0 < code_unit_compare a b" for a b
    using code_unit_compare_swap[of a b] by linarith
qed (auto simp: code_unit_compare_zero intro: code_unit_compare_trans)

interpretation revisions: comparator by_revision canonical
proof unfold_locales
  fix a b c assume "canonical a" "canonical b"
  then obtain ns ms where ab: "a = map Fin ns" "trimmed ns" "b = map Fin ms" "trimmed ms" by (auto simp: canonical_def)
  show "by_revision b a < 0 \<longleftrightarrow> 0 < by_revision a b"
    using difference_pad[of ms ns] difference_pad[of ns ms] by (simp add: ab by_revision_finite)
  show "by_revision a b = 0 \<longleftrightarrow> a = b"
    using difference_pad[of ns ms] trimmed_inject[of ns ms] ab(2,4) by (auto simp: ab(1,3) by_revision_finite)
  assume "canonical c" and l: "by_revision a b < 0" "by_revision b c < 0"
  then obtain ks where c: "c = map Fin ks" by (auto simp: canonical_def)
  show "by_revision a c < 0"
    using l difference_pad[of ns ms] difference_pad[of ms ks] difference_pad[of ns ks] seq_less_trans
    by (auto simp: ab(1,3) c by_revision_finite)
qed

section \<open>What the coordinates mean\<close>

definition verdict :: "int option \<Rightarrow> int option \<Rightarrow> int option" where
  "verdict numeric day =
     (if numeric \<noteq> None \<and> day \<noteq> None \<and> numeric \<noteq> Some 0 \<and> day \<noteq> Some 0 \<and> numeric \<noteq> day then None
      else if numeric \<noteq> None \<and> numeric \<noteq> Some 0 then numeric
      else if day \<noteq> None \<and> day \<noteq> Some 0 then day
      else None)"

text \<open>How two coordinates of one axis compare; 0 is a missing marker.\<close>

definition axis :: "nat \<Rightarrow> nat \<Rightarrow> int option" where
  "axis x y = (if x = 0 \<or> y = 0 then None else Some (sgn (int x - int y)))"

lemma sgn_nat: "sgn (int x - int y) = (if y < x then 1 else if x < y then - 1 else 0)"
  by (auto simp: sgn_if)

lemma verdict_ahead:
  "verdict (axis (vp_numeric q) (vp_numeric p)) (axis (vp_date q) (vp_date p)) = Some 1 \<longleftrightarrow> ahead q p"
  by (cases q; cases p) (auto simp: verdict_def axis_def ahead_def sgn_nat)

lemma verdict_uminus: "verdict (map_option uminus x) (map_option uminus y) = map_option uminus (verdict x y)"
  by (cases x; cases y) (auto simp: verdict_def)

text \<open>\<open>plain s\<close>: every part of the revision is a finite number.\<close>

definition plain :: "'a version_markers_scheme \<Rightarrow> bool" where
  "plain s \<longleftrightarrow> (case present (revisionNumber s) of None \<Rightarrow> True
     | Some v \<Rightarrow> list_all is_finite (map js_Number (split_on (CHR ''.'') v)))"

lemma finite_parts: "list_all is_finite ps \<Longrightarrow> \<exists>ns. ps = map Fin ns"
proof (induction ps)
  case (Cons p ps)
  then obtain ns n where "ps = map Fin ns" "p = Fin n" by (auto simp: is_finite_def split: js_number.splits)
  then show ?case by (intro exI[of _ "n # ns"]) simp
qed simp

lemma numericRevision_present:
  "numericRevision value = map_option (\<lambda>v. drop_zeros (map js_Number (split_on (CHR ''.'') v))) (present value)"
  by (simp add: numericRevision_def present_def split: option.split)

lemma plain_parts:
  assumes "plain s" "present (revisionNumber s) = Some v"
  obtains ns ms where "map js_Number (split_on (CHR ''.'') v) = map Fin ns" "pad ms = pad ns" "trimmed ms"
    "numericRevision (revisionNumber s) = Some (map Fin ms)"
proof -
  obtain ns where ns: "map js_Number (split_on (CHR ''.'') v) = map Fin ns"
    using assms finite_parts by (auto simp: plain_def)
  then have "ns \<noteq> []" by (metis list.map_disc_iff split_on_not_Nil)
  with ns show ?thesis using that drop_zeros_finite[of ns] assms(2) by (auto simp: numericRevision_present)
qed

lemma plain_canonical: "plain s \<Longrightarrow> numericRevision (revisionNumber s) = Some ps \<Longrightarrow> canonical ps"
proof -
  assume s: "plain s" "numericRevision (revisionNumber s) = Some ps"
  then obtain v where "present (revisionNumber s) = Some v" by (auto simp: numericRevision_present)
  with s(1) show ?thesis using s(2) by (elim plain_parts) (auto simp: canonical_def)
qed

text \<open>Revisions compare alike with and without their trailing zeros.\<close>

lemma compare_parts_canonical:
  assumes "plain s" "present (revisionNumber s) = Some v" "plain t" "present (revisionNumber t) = Some w"
    "numericRevision (revisionNumber s) = Some p" "numericRevision (revisionNumber t) = Some q"
  shows "compare_parts (map js_Number (split_on (CHR ''.'') v)) (map js_Number (split_on (CHR ''.'') w)) =
    sgn (by_revision p q)"
proof -
  obtain ns ms where s: "map js_Number (split_on (CHR ''.'') v) = map Fin ns" "pad ms = pad ns" "p = map Fin ms"
    using plain_parts[OF assms(1,2)] assms(5) by (metis option.inject)
  obtain ks ls where t: "map js_Number (split_on (CHR ''.'') w) = map Fin ks" "pad ls = pad ks" "q = map Fin ls"
    using plain_parts[OF assms(3,4)] assms(6) by (metis option.inject)
  have "sgn (difference ns ks) = sgn (difference ms ls)"
    using difference_pad[of ns ks] difference_pad[of ms ls] unfolding s(2) t(2) by (auto simp: sgn_if)
  then show ?thesis unfolding s(1,3) t(1,3) by (simp add: compare_parts_finite by_revision_finite)
qed

lemma set_map_set:
  "distinct (map fst m) \<Longrightarrow> set (map_set m k v) = insert (k, v) {x \<in> set m. fst x \<noteq> k}"
  by (induction m k v rule: map_set.induct) (auto simp: image_iff)

lemma revision_key_finite: "revision_key (Some (map Fin ns)) = Some (map Some ns)"
  by (simp add: revision_key_def)

lemma revision_key_inject: "inj_on (\<lambda>ps. revision_key (Some ps)) (Collect canonical)"
  by (auto simp: inj_on_def canonical_def revision_key_finite)

text \<open>The table of revisions holds the set \<open>A\<close> of revisions, each under its key.\<close>

definition value_map :: "(int option list option \<times> js_number list) list \<Rightarrow> js_number list set \<Rightarrow> bool" where
  "value_map m A \<longleftrightarrow> distinct (map fst m) \<and> (\<forall>x \<in> set m. fst x = revision_key (Some (snd x))) \<and> snd ` set m = A"

lemma value_map_set:
  assumes "value_map m A" "canonical p" "\<forall>q \<in> A. canonical q"
  shows "value_map (map_set m (revision_key (Some p)) p) (insert p A)"
proof -
  have m: "distinct (map fst m)" "\<And>x. x \<in> set m \<Longrightarrow> fst x = revision_key (Some (snd x))" "snd ` set m = A"
    using assms(1) by (auto simp: value_map_def)
  have "snd ` {x \<in> set m. fst x \<noteq> revision_key (Some p)} = A - {p}"
  proof -
    have "fst x \<noteq> revision_key (Some p) \<longleftrightarrow> snd x \<noteq> p" if "x \<in> set m" for x
      using m(2)[OF that] assms(2,3) m(3) that revision_key_inject by (auto simp: inj_on_def)
    then have "{x \<in> set m. fst x \<noteq> revision_key (Some p)} = {x \<in> set m. snd x \<noteq> p}" by blast
    then show ?thesis using m(3) by auto
  qed
  moreover have "\<forall>x \<in> set (map_set m (revision_key (Some p)) p). fst x = revision_key (Some (snd x))"
    using m(2) by (auto simp: set_map_set[OF m(1)])
  moreover have "snd ` set (map_set m (revision_key (Some p)) p) = insert p (snd ` {x \<in> set m. fst x \<noteq> revision_key (Some p)})"
    by (simp add: set_map_set[OF m(1)])
  ultimately show ?thesis unfolding value_map_def using distinct_map_set[OF m(1)] by simp
qed

definition revisions_of :: "'a version_markers_scheme list \<Rightarrow> js_number list set" where
  "revisions_of S = {p. \<exists>s \<in> set S. numericRevision (revisionNumber s) = Some p}"

lemma numeric_values_acc:
  "\<forall>s \<in> set S. plain s \<Longrightarrow> value_map m A \<Longrightarrow> \<forall>q \<in> A. canonical q \<Longrightarrow>
    value_map (foldl (\<lambda>m signal. case numericRevision (revisionNumber signal) of
       None \<Rightarrow> m | Some parts \<Rightarrow> map_set m (revision_key (Some parts)) parts) m S) (A \<union> revisions_of S)"
proof (induction S arbitrary: m A)
  case Nil
  then show ?case by (simp add: revisions_of_def)
next
  case (Cons s S)
  show ?case
  proof (cases "numericRevision (revisionNumber s)")
    case None
    then have "revisions_of (s # S) = revisions_of S" by (auto simp: revisions_of_def)
    with None Cons show ?thesis by simp
  next
    case (Some p)
    then have c: "canonical p" using Cons.prems(1) plain_canonical by auto
    have "A \<union> revisions_of (s # S) = insert p A \<union> revisions_of S" using Some by (auto simp: revisions_of_def)
    moreover have "\<forall>q \<in> insert p A. canonical q" using c Cons.prems(3) by simp
    ultimately show ?thesis
      using Some Cons.IH[OF _ value_map_set[OF Cons.prems(2) c Cons.prems(3)]] Cons.prems(1) by simp
  qed
qed

lemma numeric_values_map: "\<forall>s \<in> set S. plain s \<Longrightarrow> value_map (numeric_values S) (revisions_of S)"
  using numeric_values_acc[of S "[]" "{}"] by (simp add: numeric_values_def value_map_def)

lemma value_map_distinct: "value_map m A \<Longrightarrow> distinct (map snd m)"
proof -
  assume m: "value_map m A"
  then have "map fst m = map (\<lambda>p. revision_key (Some p)) (map snd m)" by (auto simp: value_map_def)
  with m show ?thesis by (metis distinct_map value_map_def)
qed

text \<open>The two coordinates of a signal among the signals \<open>S\<close>.\<close>

definition number_rank :: "'a version_markers_scheme list \<Rightarrow> 'a version_markers_scheme \<Rightarrow> nat" where
  "number_rank S s = rank_or_zero (ranks (\<lambda>parts. revision_key (Some parts))
     (sort_cmp by_revision (map snd (numeric_values S)))) (revision_key (numericRevision (revisionNumber s)))"

definition date_rank :: "'a version_markers_scheme list \<Rightarrow> 'a version_markers_scheme \<Rightarrow> nat" where
  "date_rank S s = rank_or_zero (ranks (\<lambda>d. d) (sort_cmp code_unit_compare
     (unique (List.map_filter (\<lambda>signal. present (revisionDate signal)) S)))) (case revisionDate s of None \<Rightarrow> [] | Some d \<Rightarrow> d)"

lemma coordinates_of:
  "vc_points (versionCoordinates S) = map (\<lambda>s. (number_rank S s, date_rank S s)) S"
  by (simp add: versionCoordinates_def number_rank_def date_rank_def Let_def)

lemma number_values:
  assumes "\<forall>s \<in> set S. plain s"
  shows "distinct (map snd (numeric_values S))" "\<forall>p \<in> set (map snd (numeric_values S)). canonical p"
    "set (map snd (numeric_values S)) = revisions_of S"
    "inj_on (\<lambda>parts. revision_key (Some parts)) (set (map snd (numeric_values S)))"
proof -
  note m = numeric_values_map[OF assms]
  show "distinct (map snd (numeric_values S))" by (rule value_map_distinct[OF m])
  show s: "set (map snd (numeric_values S)) = revisions_of S" using m by (simp add: value_map_def)
  show c: "\<forall>p \<in> set (map snd (numeric_values S)). canonical p"
    unfolding s using assms plain_canonical by (auto simp: revisions_of_def)
  then show "inj_on (\<lambda>parts. revision_key (Some parts)) (set (map snd (numeric_values S)))"
    by (intro inj_on_subset[OF revision_key_inject]) auto
qed

lemma number_rank_none:
  assumes "\<forall>s \<in> set S. plain s" "numericRevision (revisionNumber s) = None"
  shows "number_rank S s = 0"
  unfolding number_rank_def assms(2)
  by (rule revisions.rank_absent[OF number_values(1,4)[OF assms(1)]]) (auto simp: revision_key_def)

lemma number_rank_some:
  assumes "\<forall>s \<in> set S. plain s" "s \<in> set S" "t \<in> set S"
    "numericRevision (revisionNumber s) = Some p" "numericRevision (revisionNumber t) = Some q"
  shows "0 < number_rank S s" "number_rank S s \<le> vc_numericCount (versionCoordinates S)"
    "number_rank S s < number_rank S t \<longleftrightarrow> by_revision p q < 0"
proof -
  have "p \<in> set (map snd (numeric_values S))" "q \<in> set (map snd (numeric_values S))"
    unfolding number_values(3)[OF assms(1)] revisions_of_def using assms(2-5) by auto
  note r = revisions.rank_order[OF number_values(1,2,4)[OF assms(1)] this]
  show "0 < number_rank S s" "number_rank S s < number_rank S t \<longleftrightarrow> by_revision p q < 0"
    unfolding number_rank_def assms(4,5) by (rule r)+
  show "number_rank S s \<le> vc_numericCount (versionCoordinates S)"
    using r(2) by (simp add: number_rank_def assms(4) versionCoordinates_def Let_def)
qed

lemma number_axis:
  assumes "\<forall>s \<in> set S. plain s" "s \<in> set S" "t \<in> set S"
  shows "axis (number_rank S t) (number_rank S s) =
    (case (present (revisionNumber t), present (revisionNumber s)) of
       (Some l, Some r) \<Rightarrow> Some (compare_parts (map js_Number (split_on (CHR ''.'') l)) (map js_Number (split_on (CHR ''.'') r)))
     | _ \<Rightarrow> None)"
proof (cases "present (revisionNumber t) = None \<or> present (revisionNumber s) = None")
  case True
  then have "numericRevision (revisionNumber t) = None \<or> numericRevision (revisionNumber s) = None"
    by (auto simp: numericRevision_present)
  then show ?thesis using True number_rank_none[OF assms(1)] by (auto simp: axis_def split: option.split)
next
  case False
  then obtain l r where v: "present (revisionNumber t) = Some l" "present (revisionNumber s) = Some r" by auto
  then obtain p q where n: "numericRevision (revisionNumber t) = Some p" "numericRevision (revisionNumber s) = Some q"
    by (auto simp: numericRevision_present)
  have c: "canonical p" "canonical q" using plain_canonical assms n by blast+
  have "by_revision p q < 0 \<longleftrightarrow> 0 < by_revision q p" "by_revision q p < 0 \<longleftrightarrow> 0 < by_revision p q"
    using revisions.cmp_swap c by blast+
  then have "sgn (int (number_rank S t) - int (number_rank S s)) = sgn (by_revision p q)"
    using number_rank_some(3)[OF assms(1,3,2) n] number_rank_some(3)[OF assms(1,2,3) n(2,1)]
    by (auto simp: sgn_nat sgn_if)
  moreover have "0 < number_rank S t" "0 < number_rank S s"
    using number_rank_some(1)[OF assms(1,3,2) n] number_rank_some(1)[OF assms(1,2,3) n(2,1)] by auto
  moreover have "plain t" "plain s" using assms by auto
  ultimately show ?thesis
    using compare_parts_canonical[OF \<open>plain t\<close> v(1) \<open>plain s\<close> v(2) n] by (simp add: v axis_def)
qed

lemma date_rank_present:
  "date_rank S s = rank_or_zero (ranks (\<lambda>d. d) (sort_cmp code_unit_compare
     (unique (List.map_filter (\<lambda>signal. present (revisionDate signal)) S))))
     (case present (revisionDate s) of None \<Rightarrow> [] | Some d \<Rightarrow> d)"
  by (auto simp: date_rank_def present_def split: option.split)

lemma date_values: "d \<in> set (unique (List.map_filter (\<lambda>signal. present (revisionDate signal)) S)) \<longleftrightarrow>
    (\<exists>s \<in> set S. present (revisionDate s) = Some d)"
  by (auto simp: List.map_filter_def image_iff)

lemma date_rank_none:
  assumes "present (revisionDate s) = None"
  shows "date_rank S s = 0"
proof -
  have "[] \<notin> set (unique (List.map_filter (\<lambda>signal. present (revisionDate signal)) S))"
    unfolding date_values by (auto simp: present_def split: option.splits if_splits)
  then show ?thesis
    unfolding date_rank_present assms option.case
    by (intro dates.rank_absent) auto
qed

lemma date_rank_some:
  assumes "s \<in> set S" "t \<in> set S" "present (revisionDate s) = Some d" "present (revisionDate t) = Some e"
  shows "0 < date_rank S s" "date_rank S s \<le> vc_dateCount (versionCoordinates S)"
    "date_rank S s < date_rank S t \<longleftrightarrow> code_unit_compare d e < 0"
proof -
  have m: "d \<in> set (unique (List.map_filter (\<lambda>signal. present (revisionDate signal)) S))"
    "e \<in> set (unique (List.map_filter (\<lambda>signal. present (revisionDate signal)) S))"
    unfolding date_values using assms by auto
  note r = dates.rank_order[OF distinct_unique _ _ m, of "\<lambda>d. d"]
  show "0 < date_rank S s" "date_rank S s < date_rank S t \<longleftrightarrow> code_unit_compare d e < 0"
    unfolding date_rank_present assms option.case by (rule r; simp)+
  show "date_rank S s \<le> vc_dateCount (versionCoordinates S)"
    using r(2) by (simp add: date_rank_present assms versionCoordinates_def Let_def)
qed

text \<open>\<open>localeCompare\<close> and the order of code units agree on the dates, as they do on ISO dates.\<close>

definition date_order :: "(string \<Rightarrow> string \<Rightarrow> int) \<Rightarrow> 'a version_markers_scheme list \<Rightarrow> bool" where
  "date_order localeCompare S \<longleftrightarrow> (\<forall>s \<in> set S. \<forall>t \<in> set S. \<forall>d e.
     revisionDate s = Some d \<and> revisionDate t = Some e \<longrightarrow> sgn (localeCompare d e) = code_unit_compare d e)"

lemma date_axis:
  assumes "date_order localeCompare S" "s \<in> set S" "t \<in> set S"
  shows "axis (date_rank S t) (date_rank S s) =
    (case (present (revisionDate t), present (revisionDate s)) of
       (Some l, Some r) \<Rightarrow> Some (sgn (localeCompare l r)) | _ \<Rightarrow> None)"
proof (cases "present (revisionDate t) = None \<or> present (revisionDate s) = None")
  case True
  then show ?thesis using date_rank_none by (auto simp: axis_def split: option.split)
next
  case False
  then obtain l r where v: "present (revisionDate t) = Some l" "present (revisionDate s) = Some r" by auto
  then have "revisionDate t = Some l" "revisionDate s = Some r" by (auto simp: present_def split: option.splits if_splits)
  then have "sgn (localeCompare l r) = code_unit_compare l r" using assms by (auto simp: date_order_def)
  moreover have "sgn (int (date_rank S t) - int (date_rank S s)) = code_unit_compare l r"
    using date_rank_some(3)[OF assms(3,2) v] date_rank_some(3)[OF assms(2,3) v(2,1)]
      code_unit_compare_swap[of l r] code_unit_compare_cases[of l r] by (auto simp: sgn_nat)
  ultimately show ?thesis
    using date_rank_some(1)[OF assms(3,2) v] date_rank_some(1)[OF assms(2,3) v(2,1)] by (simp add: v axis_def)
qed

lemma compare_verdict:
  "compareDocumentVersions localeCompare t s = verdict
    (case (present (revisionNumber t), present (revisionNumber s)) of
       (Some l, Some r) \<Rightarrow> Some (compare_parts (map js_Number (split_on (CHR ''.'') l)) (map js_Number (split_on (CHR ''.'') r)))
     | _ \<Rightarrow> None)
    (case (present (revisionDate t), present (revisionDate s)) of
       (Some l, Some r) \<Rightarrow> Some (sgn (localeCompare l r)) | _ \<Rightarrow> None)"
  by (simp add: compareDocumentVersions_def verdict_def Let_def)

section \<open>The counts\<close>

definition flipped :: "bool \<Rightarrow> nat \<Rightarrow> nat \<Rightarrow> nat" where
  "flipped older N x = (if older \<and> x \<noteq> 0 then N + 1 - x else x)"

lemma axis_flipped:
  "x \<le> N \<Longrightarrow> y \<le> N \<Longrightarrow> axis (flipped older N x) (flipped older N y) = (if older then map_option uminus (axis x y) else axis x y)"
  by (auto simp: axis_def flipped_def sgn_if)

definition point_at :: "bool \<Rightarrow> 'a version_markers_scheme list \<Rightarrow> nat \<Rightarrow> version_point" where
  "point_at older S i = \<lparr>vp_index = i,
     vp_numeric = flipped older (vc_numericCount (versionCoordinates S)) (number_rank S (S ! i)),
     vp_date = flipped older (vc_dateCount (versionCoordinates S)) (date_rank S (S ! i))\<rparr>"

lemma version_points_at: "version_points older (versionCoordinates S) = map (point_at older S) [0 ..< length S]"
  unfolding version_points_def coordinates_of
  by (rule nth_equalityI) (simp_all add: nth_enumerate_eq point_at_def flipped_def)

lemma rank_bounds:
  assumes "\<forall>s \<in> set S. plain s" "s \<in> set S"
  shows "number_rank S s \<le> vc_numericCount (versionCoordinates S)" "date_rank S s \<le> vc_dateCount (versionCoordinates S)"
proof -
  show "number_rank S s \<le> vc_numericCount (versionCoordinates S)"
    using number_rank_none[OF assms(1), of s] number_rank_some(2)[OF assms(1,2,2)]
    by (cases "numericRevision (revisionNumber s)") auto
  show "date_rank S s \<le> vc_dateCount (versionCoordinates S)"
    using date_rank_none[of s S] date_rank_some(2)[OF assms(2,2)] by (cases "present (revisionDate s)") auto
qed

lemma ahead_compare:
  assumes "\<forall>s \<in> set S. plain s" "date_order localeCompare S" "i < length S" "j < length S"
  shows "ahead (point_at older S j) (point_at older S i) \<longleftrightarrow>
    compareDocumentVersions localeCompare (S ! j) (S ! i) = Some (if older then - 1 else 1)"
proof -
  have m: "S ! i \<in> set S" "S ! j \<in> set S" using assms(3,4) by auto
  note r = rank_bounds[OF assms(1) m(1)] rank_bounds[OF assms(1) m(2)]
  let ?n = "axis (number_rank S (S ! j)) (number_rank S (S ! i))" and ?d = "axis (date_rank S (S ! j)) (date_rank S (S ! i))"
  have v: "compareDocumentVersions localeCompare (S ! j) (S ! i) = verdict ?n ?d"
    unfolding compare_verdict number_axis[OF assms(1) m] date_axis[OF assms(2) m] ..
  have "ahead (point_at older S j) (point_at older S i) \<longleftrightarrow>
      verdict (if older then map_option uminus ?n else ?n) (if older then map_option uminus ?d else ?d) = Some 1"
    unfolding verdict_ahead[symmetric] by (simp add: point_at_def axis_flipped r)
  also have "\<dots> \<longleftrightarrow> verdict ?n ?d = Some (if older then - 1 else 1)"
    by (cases "verdict ?n ?d") (auto simp: verdict_uminus)
  finally show ?thesis unfolding v .
qed

lemma within_power: "M \<le> 2 ^ k \<Longrightarrow> within M (k + 1)"
  unfolding within_def
proof (intro allI impI)
  fix v assume "M \<le> 2 ^ k" "2 ^ v \<le> 2 * M + 1"
  then have "2 ^ v \<le> 2 * (2 :: nat) ^ k + 1" by linarith
  also have "\<dots> < 2 ^ (k + 2)"
  proof -
    have "1 \<le> (2 :: nat) ^ k" "(2 :: nat) ^ (k + 2) = 4 * 2 ^ k" by simp_all
    then show ?thesis by linarith
  qed
  finally have "v < k + 2" by (rule power_less_imp_less_exp[rotated]) simp
  then show "v \<le> k + 1" by simp
qed

lemma length_filter_index: "length (filter (\<lambda>i. f (xs ! i)) [0 ..< length xs]) = length (filter f xs)"
proof -
  have "length (filter f (map (\<lambda>i. xs ! i) [0 ..< length xs])) = length (filter (\<lambda>i. f (xs ! i)) [0 ..< length xs])"
    by (simp add: filter_map comp_def)
  then show ?thesis by (simp add: map_nth)
qed

lemma date_count: "vc_dateCount (versionCoordinates S) \<le> length S"
proof -
  have u: "length (unique xs) \<le> length xs" for xs :: "string list"
    by (metis card_length distinct_card distinct_unique set_unique)
  have "length (List.map_filter (\<lambda>signal. present (revisionDate signal)) S) \<le> length S"
    by (simp add: List.map_filter_def)
  then show ?thesis using order_trans[OF u] by (simp add: versionCoordinates_def Let_def)
qed

lemma counts_pairwise:
  fixes signals :: "(ref \<times> 'a version_markers_scheme) list"
  assumes "distinct (map fst signals)" "\<forall>x \<in> set signals. plain (snd x)" "date_order localeCompare (map snd signals)"
    and "length signals + 2 \<le> 2 ^ k" "k \<le> 30"
  shows "\<exists>counts visits. versionDominanceCounts signals older = Some (counts, visits) \<and>
      visits \<le> length signals * (4 * k + 5) \<and>
      (\<forall>x \<in> set signals. counts (fst x) = Some (int (length (filter (\<lambda>y.
         compareDocumentVersions localeCompare (snd y) (snd x) = Some (if older then - 1 else 1)) signals))))"
proof -
  let ?S = "map snd signals"
  let ?P = "version_points older (versionCoordinates ?S)"
  let ?M = "length signals + 2"
  let ?len = "vc_dateCount (versionCoordinates ?S) + 2"
  have plain: "\<forall>s \<in> set ?S. plain s" using assms(2) by auto
  have P: "?P = map (point_at older ?S) [0 ..< length signals]" by (simp add: version_points_at)
  have addr: "address signals (point_at older ?S i) = fst (signals ! i)" for i by (simp add: address_def point_at_def)
  have "map (address signals) ?P = map (\<lambda>i. map fst signals ! i) [0 ..< length signals]"
    unfolding P by (simp add: addr)
  then have inj: "distinct (map (address signals) ?P)" using assms(1) by (metis length_map map_nth)
  have big: "(2 :: nat) ^ k \<le> 2 ^ 30" using assms(5) by (rule power_increasing) simp
  have small: "?M < 2 ^ 31" using assms(4) big by simp
  have dates: "\<forall>p \<in> set ?P. vp_date p < ?len"
  proof
    fix p assume "p \<in> set ?P"
    then obtain i where "i < length ?S" "p = point_at older ?S i" unfolding P by auto
    then show "vp_date p < ?len" using rank_bounds(2)[OF plain, of "?S ! i"]
      by (simp add: point_at_def flipped_def less_Suc_eq_le)
  qed
  obtain counts v where run: "versionDominanceCounts signals older = Some (counts, v)" "v \<le> length ?P * (1 + 4 * (k + 1))"
    "\<forall>p \<in> set ?P. counts (address signals p) = Some (tally ?P p)"
  proof -
    have "length ?P < ?M" "?len \<le> ?M" using date_count[of ?S] by (simp_all add: P)
    from points_counted[OF within_power[OF assms(4)] this(1) small dates this(2) inj]
    have "\<exists>counts v. versionDominanceCounts signals older = Some (counts, v) \<and> v \<le> length ?P * (1 + 4 * (k + 1)) \<and>
        (\<forall>p \<in> set ?P. counts (address signals p) = Some (tally ?P p))"
      unfolding versionDominanceCounts_def Let_def .
    then show ?thesis by (elim exE conjE) (rule that)
  qed
  have "counts (fst x) = Some (int (length (filter (\<lambda>y.
      compareDocumentVersions localeCompare (snd y) (snd x) = Some (if older then - 1 else 1)) signals)))"
    if member: "x \<in> set signals" for x
  proof -
    obtain i where i: "i < length signals" "x = signals ! i" using member by (metis in_set_conv_nth)
    have "tally ?P (point_at older ?S i) =
        int (length (filter (\<lambda>j. ahead (point_at older ?S j) (point_at older ?S i)) [0 ..< length signals]))"
      unfolding tally_def P by (simp add: filter_map comp_def)
    also have "filter (\<lambda>j. ahead (point_at older ?S j) (point_at older ?S i)) [0 ..< length signals] =
        filter (\<lambda>j. compareDocumentVersions localeCompare (snd (signals ! j)) (snd x) = Some (if older then - 1 else 1)) [0 ..< length signals]"
      using ahead_compare[OF plain assms(3)] i by (intro filter_cong) simp_all
    also have "length \<dots> = length (filter (\<lambda>y. compareDocumentVersions localeCompare (snd y) (snd x) =
        Some (if older then - 1 else 1)) signals)"
      by (rule length_filter_index)
    finally have "tally ?P (point_at older ?S i) = int (length (filter (\<lambda>y.
      compareDocumentVersions localeCompare (snd y) (snd x) = Some (if older then - 1 else 1)) signals))" .
    moreover have "point_at older ?S i \<in> set ?P" unfolding P using i(1) by simp
    ultimately show ?thesis using run(3) addr[of i] unfolding i(2) by metis
  qed
  moreover have "v \<le> length signals * (4 * k + 5)" using run(2) by (simp add: P algebra_simps)
  ultimately show ?thesis using run(1) by blast
qed

text \<open>
  C35. \<open>versionDominanceCounts\<close> returns, for every signal, how many of the signals are newer than it by
  \<open>compareDocumentVersions\<close>, or older when it is asked for the older ones: the sweep over coordinates
  equals the comparison of all pairs, also where the numeric revision and the date of two versions
  contradict each other and where a marker is missing. The revisions must be finite numbers and
  \<open>localeCompare\<close> must order the dates as their code units, as it does for ISO dates. It visits at most
  4k + 5 entries for each signal, when the signals are at most 2\<open>^\<close>k - 2, with k at most 30.
\<close>

theorem dominance_counts_pairwise:
  fixes signals :: "(ref \<times> 'a version_markers_scheme) list"
  assumes "distinct (map fst signals)" "\<forall>x \<in> set signals. plain (snd x)" "date_order localeCompare (map snd signals)"
    and "length signals + 2 \<le> 2 ^ k" "k \<le> 30"
  shows "\<exists>counts visits. versionDominanceCounts signals older = Some (counts, visits) \<and>
      visits \<le> length signals * (4 * k + 5) \<and>
      (\<forall>x \<in> set signals. counts (fst x) = Some (int (length (filter (\<lambda>y.
         compareDocumentVersions localeCompare (snd y) (snd x) = Some (if older then - 1 else 1)) signals))))"
  by (rule counts_pairwise[OF assms])

definition markers :: "string option \<Rightarrow> string option \<Rightarrow> version_markers" where
  "markers revision date = \<lparr>revisionNumber = revision, revisionDate = date\<rparr>"

text \<open>
  Revision 2 is newer than 1.0 and than the undated revision; the last revision contradicts revision 2:
  its number is lower and its date later.
\<close>

definition sample_versions :: "(ref \<times> version_markers) list" where
  "sample_versions =
     [(0, markers (Some ''1.0'') None), (1, markers (Some ''2'') (Some ''2024-01-01'')),
      (2, markers None (Some ''2023-05-01'')), (3, markers (Some ''1.2'') (Some ''2026-01-01''))]"

theorem dominance_counts_pairwise_witness:
  "\<exists>counts visits. versionDominanceCounts sample_versions False = Some (counts, visits) \<and> visits \<le> 68 \<and>
     map counts [0, 1, 2, 3] = [Some 2, Some 0, Some 2, Some 0]"
proof -
  have plain: "\<forall>x \<in> set sample_versions. plain (snd x)" by code_simp
  have sgn: "sgn (code_unit_compare d e) = code_unit_compare d e" for d e
    using code_unit_compare_cases[of d e] by auto
  obtain counts visits where c: "versionDominanceCounts sample_versions False = Some (counts, visits)" "visits \<le> 68"
    "\<forall>x \<in> set sample_versions. counts (fst x) = Some (int (length (filter (\<lambda>y.
       compareDocumentVersions code_unit_compare (snd y) (snd x) = Some 1) sample_versions)))"
    using dominance_counts_pairwise[of sample_versions code_unit_compare 3 False] plain
    by (auto simp: sample_versions_def date_order_def sgn)
  have "map (\<lambda>x. length (filter (\<lambda>y. compareDocumentVersions code_unit_compare (snd y) (snd x) = Some 1) sample_versions))
      sample_versions = [2, 0, 2, 0]" by code_simp
  then have "map (\<lambda>x. counts (fst x)) sample_versions = [Some 2, Some 0, Some 2, Some 0]"
    using c(3) by (auto simp: sample_versions_def)
  with c(1,2) show ?thesis by (auto simp: sample_versions_def)
qed

end
