(* ===== verification/Planner.thy ===== *)
theory Planner
  imports PathSafety
begin

text \<open>
  Organization plans in the web application (\<open>src/lib/bridge/planner.ts\<close>): reviewed suggestions become
  candidate actions, a selection of them adds the folders it needs, the result is ordered and
  checked, and the plan's row is rewritten only when nobody changed it in between.

  A plan's lists are read from JSON columns; they are kept here as the typed lists that the planner
  wrote (the filters \<open>asPlanActions\<close>, \<open>asPlanWarnings\<close> and their kin are the identity on them). A date
  is its ISO text. A confidence is carried, never computed with.
\<close>

section \<open>Data\<close>

datatype plan_action_type =
  P_CREATE_FOLDER | P_RENAME_FOLDER | P_MOVE_FILE | P_RENAME_FILE | P_MOVE_AND_RENAME_FILE | P_WEBSITE_ACTION | P_REVIEW_ONLY

datatype plan_role = FILE_ACTION | FOLDER_DEPENDENCY | ROLE_REVIEW_ONLY | UNSELECTED_CANDIDATE

datatype plan_warning_type =
  W_DUPLICATE_SOURCE | W_DUPLICATE_DESTINATION | W_FILENAME_CONFLICT | W_FOLDER_CONFLICT | W_INVALID_PATH
  | W_MISSING_PARENT | W_OUTSIDE_ROOT_DESTINATION | W_REVIEW_ONLY_ACTION

datatype suggestion_status = S_PENDING | S_APPROVED | S_MODIFIED | S_REJECTED | S_LEFT_UNCHANGED

datatype suggestion_type =
  T_MOVE_FILE | T_RENAME_FILE | T_CREATE_FOLDER | T_GROUP_WITH_FILES | T_POSSIBLE_DUPLICATE | T_WEBSITE_CANDIDATE
  | T_KEEP_UNCHANGED | T_INSUFFICIENT_EVIDENCE

datatype plan_error = Plan_error string nat | Suggestion_error string nat

record source_snapshot =
  ss_scannedFileId :: string
  ss_relativePath :: string
  ss_checksum :: "string option"
  ss_sizeBytes :: "string option"
  ss_lastModified :: "string option"

record human_edit =
  he_revisedRelativePath :: "string option"
  he_revisedFileName :: "string option"
  he_context :: "string option"
  he_createdAt :: string

record plan_evidence =
  ev_approvedObservation :: "string list"
  ev_approvedMemory :: "string list"
  ev_humanModification :: "string list"
  ev_originatingSuggestion :: "string list"

record plan_origin =
  po_title :: string
  po_explanation :: string
  po_status :: suggestion_status

text \<open>The flags are read with \<open>=== true\<close> only, so a missing flag is \<open>False\<close>.\<close>

record 'c organization_action =
  oa_id :: string
  oa_order :: nat
  oa_actionType :: plan_action_type
  oa_selectedForExecution :: bool
  oa_requiredForSelectedActions :: bool
  oa_selectableForExecution :: bool
  oa_executionRole :: "plan_role option"
  oa_suggestionId :: string
  oa_suggestionType :: suggestion_type
  oa_sourceRelativePath :: string
  oa_plannedRelativePath :: "string option"
  oa_plannedFolderPath :: "string option"
  oa_plannedFileName :: "string option"
  oa_requiredFolderPaths :: "string list option"
  oa_recommendationGenerationId :: "string option"
  oa_recommendationGenerationVersion :: "string option"
  oa_sourceSnapshot :: "source_snapshot option"
  oa_reason :: string
  oa_confidence :: 'c
  oa_originatingSuggestion :: plan_origin
  oa_humanEdits :: "human_edit list"
  oa_evidence :: plan_evidence

record plan_warning =
  pw_id :: string
  pw_warningType :: plan_warning_type
  pw_title :: string
  pw_description :: string
  pw_affectedActions :: "string list"

record plan_skipped =
  sk_id :: string
  sk_suggestionId :: string
  sk_currentRelativePath :: string
  sk_title :: string
  sk_status :: suggestion_status
  sk_reason :: string

record plan_history =
  ph_id :: string
  ph_at :: string
  ph_label :: string
  ph_detail :: string

record scanned_record =
  sr_id :: string
  sr_relativePath :: string
  sr_checksum :: "string option"
  sr_sizeBytes :: "string option"
  sr_lastModified :: "string option"

record 'c stored_suggestion =
  sg_id :: string
  sg_scanSessionId :: string
  sg_suggestionType :: string
  sg_currentRelativePath :: string
  sg_proposedRelativePath :: "string option"
  sg_proposedFileName :: "string option"
  sg_title :: string
  sg_explanation :: string
  sg_confidence :: 'c
  sg_status :: string
  sg_whySuggested :: "string list"
  sg_supportDetails :: "string list"
  sg_recommendationGenerationId :: string
  sg_recommendationGenerationVersion :: string
  sg_invalidatedAt :: "string option"
  sg_invalidatedReason :: "string option"
  sg_scannedFile :: scanned_record
  sg_revisions :: "human_edit list"

section \<open>Paths\<close>

definition webDrivePrefix :: "string \<Rightarrow> bool" where
  "webDrivePrefix value =
     (case value of a # b # rest \<Rightarrow> is_letter a \<and> b = CHR '':'' \<and> (rest = [] \<or> hd rest = slash \<or> hd rest = backslash)
      | _ \<Rightarrow> False)"

definition relative_destination :: string where
  "relative_destination = ''Use a relative destination inside the connected folder.''"

definition normalizeBridgeRelativePath :: "string \<Rightarrow> bool \<Rightarrow> (plan_error, string) result" where
  "normalizeBridgeRelativePath value allowRoot =
     (let trimmed = replace_char backslash slash (trim value) in
      if trimmed = [] then
        (if allowRoot then Inr [] else Inl (Suggestion_error relative_destination 400))
      else if posix_isAbsolute trimmed \<or> webDrivePrefix trimmed then Inl (Suggestion_error relative_destination 400)
      else let normalized = posix_normalize trimmed in
        if normalized = dotdot \<or> starts_with normalized (dotdot @ [slash]) \<or> posix_isAbsolute normalized
        then Inl (Suggestion_error relative_destination 400)
        else if normalized = dot then
          (if allowRoot then Inr [] else Inl (Suggestion_error relative_destination 400))
        else if list_ex invalidPathSegment (split_on slash normalized)
        then Inl (Suggestion_error ''Use folder and file names that can be safely reviewed later.'' 400)
        else Inr normalized)"

abbreviation normal_path :: "string \<Rightarrow> (plan_error, string) result" where
  "normal_path value \<equiv> normalizeBridgeRelativePath value False"

definition normalizeBridgeFileName :: "string \<Rightarrow> (plan_error, string) result" where
  "normalizeBridgeFileName value =
     (let trimmed = trim value in
      if trimmed = [] \<or> slash \<in> set trimmed \<or> backslash \<in> set trimmed \<or> webDrivePrefix trimmed \<or> invalidPathSegment trimmed
      then Inl (Suggestion_error ''Use a valid file name before saving the edited suggestion.'' 400)
      else Inr trimmed)"

definition folderFromRelativePath :: "string \<Rightarrow> string" where
  "folderFromRelativePath relativePath = (let directory = posix_dirname relativePath in if directory = dot then [] else directory)"

definition fileNameFromRelativePath :: "string \<Rightarrow> string" where
  "fileNameFromRelativePath relativePath = posix_basename relativePath"

definition joinRelativePath :: "string \<Rightarrow> string \<Rightarrow> (plan_error, string) result" where
  "joinRelativePath folder fileName = normal_path (if folder \<noteq> [] then posix_join [folder, fileName] else fileName)"

text \<open>\<open>stableId\<close>: runs of characters other than a-z and 0-9 become one hyphen.\<close>

definition id_char :: "char \<Rightarrow> bool" where
  "id_char c \<longleftrightarrow> is_digit c \<or> (let n = (of_char c :: nat) in 97 \<le> n \<and> n \<le> 122)"

fun hyphenate :: "string \<Rightarrow> string" where
  "hyphenate [] = []"
| "hyphenate [c] = (if id_char c then [c] else ''-'')"
| "hyphenate (c # d # s) =
     (if id_char c then c # hyphenate (d # s)
      else if id_char d then CHR ''-'' # hyphenate (d # s)
      else hyphenate (d # s))"

definition stableId :: "string \<Rightarrow> string list \<Rightarrow> string" where
  "stableId prefix parts = prefix @ ''-'' @ hyphenate (to_lower (join_with ''-'' parts))"

section \<open>Classifying actions\<close>

definition currentRecommendationGenerationVersion :: string where
  "currentRecommendationGenerationVersion = ''organization-recommendations-v11''"

definition isCurrentRecommendationGeneration :: "string \<Rightarrow> bool" where
  "isCurrentRecommendationGeneration version \<longleftrightarrow> version = currentRecommendationGenerationVersion"

definition action_generation :: "'c organization_action \<Rightarrow> string" where
  "action_generation a = (case oa_recommendationGenerationVersion a of None \<Rightarrow> [] | Some v \<Rightarrow> v)"

definition selectableFileActionTypes :: "plan_action_type list" where
  "selectableFileActionTypes = [P_MOVE_FILE, P_RENAME_FILE, P_MOVE_AND_RENAME_FILE]"

definition executableActionTypes :: "plan_action_type list" where
  "executableActionTypes = P_CREATE_FOLDER # selectableFileActionTypes"

definition actionIsSelectableForExecution :: "'c organization_action \<Rightarrow> bool" where
  "actionIsSelectableForExecution a \<longleftrightarrow>
     oa_actionType a \<in> set selectableFileActionTypes \<and> trim (oa_sourceRelativePath a) \<noteq> [] \<and>
     (case oa_plannedRelativePath a of None \<Rightarrow> False | Some p \<Rightarrow> trim p \<noteq> []) \<and>
     isCurrentRecommendationGeneration (action_generation a)"

definition actionIsRequiredDependency :: "'c organization_action \<Rightarrow> bool" where
  "actionIsRequiredDependency a \<longleftrightarrow>
     oa_actionType a = P_CREATE_FOLDER \<and> oa_requiredForSelectedActions a \<and>
     isCurrentRecommendationGeneration (action_generation a)"

definition actionIsSelectedFileAction :: "'c organization_action \<Rightarrow> bool" where
  "actionIsSelectedFileAction a \<longleftrightarrow> actionIsSelectableForExecution a \<and> oa_selectedForExecution a"

definition actionIsExecutableInSavedPlan :: "'c organization_action \<Rightarrow> bool" where
  "actionIsExecutableInSavedPlan a \<longleftrightarrow> actionIsSelectedFileAction a \<or> actionIsRequiredDependency a"

definition actionIsReviewOnly :: "'c organization_action \<Rightarrow> bool" where
  "actionIsReviewOnly a \<longleftrightarrow>
     oa_actionType a \<in> {P_REVIEW_ONLY, P_WEBSITE_ACTION} \<or>
     (oa_actionType a = P_CREATE_FOLDER \<and> \<not> actionIsRequiredDependency a) \<or>
     oa_actionType a \<notin> set executableActionTypes"

definition normalizePlanAction :: "'c organization_action \<Rightarrow> 'c organization_action" where
  "normalizePlanAction a =
     (let selectable = actionIsSelectableForExecution a;
          required = (oa_actionType a = P_CREATE_FOLDER \<and> oa_requiredForSelectedActions a);
          selected = (selectable \<and> oa_selectedForExecution a)
      in a\<lparr>oa_executionRole := Some (if required then FOLDER_DEPENDENCY else if selected then FILE_ACTION
               else if selectable then UNSELECTED_CANDIDATE else ROLE_REVIEW_ONLY),
           oa_requiredFolderPaths := Some (case oa_requiredFolderPaths a of None \<Rightarrow> [] | Some fs \<Rightarrow> fs),
           oa_requiredForSelectedActions := required,
           oa_selectableForExecution := selectable,
           oa_selectedForExecution := selected\<rparr>)"

definition storedCandidateActions :: "'c organization_action list \<Rightarrow> 'c organization_action list" where
  "storedCandidateActions actions =
     filter (\<lambda>a. \<not> (oa_actionType a = P_CREATE_FOLDER \<and>
         (oa_requiredForSelectedActions a \<or> starts_with (oa_id a) ''action-folder-'')))
       (map normalizePlanAction actions)"

fun normalizeSuggestionStatus :: "string \<Rightarrow> suggestion_status" where
  "normalizeSuggestionStatus value =
     (if value = ''APPROVED'' then S_APPROVED else if value = ''MODIFIED'' then S_MODIFIED
      else if value = ''REJECTED'' then S_REJECTED else if value = ''LEFT_UNCHANGED'' then S_LEFT_UNCHANGED
      else S_PENDING)"

fun normalizeSuggestionType :: "string \<Rightarrow> suggestion_type" where
  "normalizeSuggestionType value =
     (if value = ''MOVE_FILE'' then T_MOVE_FILE else if value = ''RENAME_FILE'' then T_RENAME_FILE
      else if value = ''CREATE_FOLDER'' then T_CREATE_FOLDER else if value = ''GROUP_WITH_FILES'' then T_GROUP_WITH_FILES
      else if value = ''POSSIBLE_DUPLICATE'' then T_POSSIBLE_DUPLICATE
      else if value = ''WEBSITE_CANDIDATE'' then T_WEBSITE_CANDIDATE
      else if value = ''KEEP_UNCHANGED'' then T_KEEP_UNCHANGED else T_INSUFFICIENT_EVIDENCE)"

section \<open>From a suggestion to an action\<close>

text \<open>A text that is there is normalised, and the error of the first bad one ends the call.\<close>

definition normal_if :: "(string \<Rightarrow> (plan_error, string) result) \<Rightarrow> string option \<Rightarrow> (plan_error, string option) result" where
  "normal_if f value = (case present value of None \<Rightarrow> Inr None | Some v \<Rightarrow> rbind (f v) (\<lambda>r. Inr (Some r)))"

text \<open>The planned file name and path.\<close>

definition destinationFromSuggestion :: "'c stored_suggestion \<Rightarrow> (plan_error, string \<times> string) result" where
  "destinationFromSuggestion s =
     (let latest = (case sg_revisions s of [] \<Rightarrow> None | r # _ \<Rightarrow> Some r) in
      rbind (normal_path (sg_currentRelativePath s)) (\<lambda>current.
      rbind (normal_if normal_path (Option.bind latest he_revisedRelativePath)) (\<lambda>revisedPath.
      rbind (normal_if normalizeBridgeFileName (Option.bind latest he_revisedFileName)) (\<lambda>revisedName.
      rbind (normal_if normal_path (sg_proposedRelativePath s)) (\<lambda>proposedPath.
      rbind (normal_if normalizeBridgeFileName (sg_proposedFileName s)) (\<lambda>proposedName.
      case revisedPath of
        Some p \<Rightarrow> Inr (case revisedName of None \<Rightarrow> fileNameFromRelativePath p | Some n \<Rightarrow> n, p)
      | None \<Rightarrow> (case revisedName of
          Some n \<Rightarrow> rbind (joinRelativePath (folderFromRelativePath (case proposedPath of None \<Rightarrow> current | Some p \<Rightarrow> p)) n)
              (\<lambda>p. Inr (n, p))
        | None \<Rightarrow> (case proposedPath of
            Some p \<Rightarrow> Inr (case proposedName of None \<Rightarrow> fileNameFromRelativePath p | Some n \<Rightarrow> n, p)
          | None \<Rightarrow> (case proposedName of
              Some n \<Rightarrow> rbind (joinRelativePath (folderFromRelativePath current) n) (\<lambda>p. Inr (n, p))
            | None \<Rightarrow> Inr (fileNameFromRelativePath current, current))))))))))"

definition preliminaryActionTypeForSuggestion :: "suggestion_type \<Rightarrow> plan_action_type" where
  "preliminaryActionTypeForSuggestion t =
     (if t = T_CREATE_FOLDER then P_CREATE_FOLDER else if t = T_MOVE_FILE then P_MOVE_FILE
      else if t = T_RENAME_FILE then P_RENAME_FILE else if t = T_WEBSITE_CANDIDATE then P_WEBSITE_ACTION
      else P_REVIEW_ONLY)"

definition fileActionTypeForPaths :: "string \<Rightarrow> string \<Rightarrow> plan_action_type \<Rightarrow> plan_action_type option" where
  "fileActionTypeForPaths current planned fallback =
     (let folderChanged = (folderFromRelativePath current \<noteq> folderFromRelativePath planned);
          nameChanged = (fileNameFromRelativePath current \<noteq> fileNameFromRelativePath planned)
      in if \<not> folderChanged \<and> \<not> nameChanged
         then (if fallback = P_WEBSITE_ACTION \<or> fallback = P_REVIEW_ONLY then Some fallback else None)
         else if folderChanged \<and> nameChanged then Some P_MOVE_AND_RENAME_FILE
         else if folderChanged then Some P_MOVE_FILE
         else if nameChanged then Some P_RENAME_FILE
         else Some fallback)"

definition evidenceForSuggestion :: "'c stored_suggestion \<Rightarrow> plan_evidence" where
  "evidenceForSuggestion s =
     \<lparr>ev_approvedObservation = filter (\<lambda>t. starts_with t ''Reviewed observation used:'') (sg_supportDetails s),
      ev_approvedMemory = filter (\<lambda>t. starts_with t ''Approved Memory used:'') (sg_supportDetails s),
      ev_humanModification = filter (\<lambda>t. trim t \<noteq> []) (List.map_filter he_context (sg_revisions s)),
      ev_originatingSuggestion = filter (\<lambda>t. trim t \<noteq> []) (sg_title s # sg_explanation s # sg_whySuggested s)\<rparr>"

text \<open>The reasons that only say that nothing happens yet are passed over.\<close>

definition provisional_reason :: "string \<Rightarrow> bool" where
  "provisional_reason t \<longleftrightarrow> list_ex (has_substring (to_lower t))
     [''provisional'', ''nothing will move'', ''nothing should move'', ''approval is required'']"

definition first_truthy :: "string option list \<Rightarrow> string \<Rightarrow> string" where
  "first_truthy values final = (case List.map_filter present values of [] \<Rightarrow> final | v # _ \<Rightarrow> v)"

definition reason_of :: "'c stored_suggestion \<Rightarrow> string" where
  "reason_of s = first_truthy
     [Option.bind (case sg_revisions s of [] \<Rightarrow> None | r # _ \<Rightarrow> he_context r) (\<lambda>t. Some (trim t)),
      find (\<lambda>t. trim t \<noteq> [] \<and> \<not> provisional_reason t) (sg_whySuggested s), Some (sg_explanation s)]
     ''This destination matches the reviewed recommendation for this file.''"

definition snapshot_of :: "scanned_record \<Rightarrow> source_snapshot" where
  "snapshot_of f = \<lparr>ss_scannedFileId = sr_id f, ss_relativePath = sr_relativePath f, ss_checksum = sr_checksum f,
     ss_sizeBytes = sr_sizeBytes f, ss_lastModified = sr_lastModified f\<rparr>"

definition actionFromSuggestion :: "'c stored_suggestion \<Rightarrow> (plan_error, 'c organization_action option) result" where
  "actionFromSuggestion s =
     (let suggestionType = normalizeSuggestionType (sg_suggestionType s);
          suggestionStatus = normalizeSuggestionStatus (sg_status s)
      in if suggestionType = T_KEEP_UNCHANGED \<or> suggestionType = T_INSUFFICIENT_EVIDENCE then Inr None
      else
        rbind (normal_path (sg_currentRelativePath s)) (\<lambda>current.
        rbind (destinationFromSuggestion s) (\<lambda>(plannedName, plannedPath).
        let preliminary = preliminaryActionTypeForSuggestion suggestionType in
        Inr (case (if preliminary \<in> {P_CREATE_FOLDER, P_WEBSITE_ACTION, P_REVIEW_ONLY} then Some preliminary
                   else fileActionTypeForPaths current plannedPath preliminary) of
          None \<Rightarrow> None
        | Some actionType \<Rightarrow> Some
            \<lparr>oa_id = stableId ''action'' [sg_id s], oa_order = 0, oa_actionType = actionType,
             oa_selectedForExecution = (actionType \<in> set selectableFileActionTypes \<and>
               (suggestionStatus = S_APPROVED \<or> suggestionStatus = S_MODIFIED)),
             oa_requiredForSelectedActions = False,
             oa_selectableForExecution = (actionType = P_MOVE_FILE \<or> actionType = P_RENAME_FILE \<or> actionType = P_MOVE_AND_RENAME_FILE),
             oa_executionRole = Some (if actionType = P_WEBSITE_ACTION \<or> actionType = P_REVIEW_ONLY then ROLE_REVIEW_ONLY
               else if actionType = P_CREATE_FOLDER then ROLE_REVIEW_ONLY else UNSELECTED_CANDIDATE),
             oa_suggestionId = sg_id s, oa_suggestionType = suggestionType, oa_sourceRelativePath = current,
             oa_plannedRelativePath = (if actionType = P_CREATE_FOLDER then None else Some plannedPath),
             oa_plannedFolderPath = Some (if actionType = P_CREATE_FOLDER then plannedPath else folderFromRelativePath plannedPath),
             oa_plannedFileName = (if actionType = P_CREATE_FOLDER then None else Some plannedName),
             oa_requiredFolderPaths = Some [],
             oa_recommendationGenerationId = Some (sg_recommendationGenerationId s),
             oa_recommendationGenerationVersion = Some (sg_recommendationGenerationVersion s),
             oa_sourceSnapshot = Some (snapshot_of (sg_scannedFile s)), oa_reason = reason_of s,
             oa_confidence = sg_confidence s,
             oa_originatingSuggestion = \<lparr>po_title = sg_title s, po_explanation = sg_explanation s, po_status = suggestionStatus\<rparr>,
             oa_humanEdits = sg_revisions s, oa_evidence = evidenceForSuggestion s\<rparr>))))"

section \<open>Folders\<close>

text \<open>The prefixes of a path, the path itself included: \<open>parts.slice(0, index + 1).join("/")\<close>.\<close>

definition path_prefixes :: "string list \<Rightarrow> nat list \<Rightarrow> string list" where
  "path_prefixes parts indices = map (\<lambda>i. join_with [slash] (take i parts)) indices"

definition folderChain :: "string \<Rightarrow> (plan_error, string list) result" where
  "folderChain folderPath =
     rbind (normal_path folderPath) (\<lambda>normalized.
     if normalized = [] then Inr []
     else let parts = split_on slash normalized in Inr (path_prefixes parts [1 ..< Suc (length parts)]))"

fun collectExistingFolders :: "scanned_record list \<Rightarrow> (plan_error, string list) result" where
  "collectExistingFolders [] = Inr []"
| "collectExistingFolders (f # fs) =
     rbind (normal_path (sr_relativePath f)) (\<lambda>normalized.
     rbind (collectExistingFolders fs) (\<lambda>rest.
     let parts = split_on slash normalized in Inr (path_prefixes parts [1 ..< length parts] @ rest)))"

definition required_folders :: "string list \<Rightarrow> 'c organization_action \<Rightarrow> (plan_error, 'c organization_action) result" where
  "required_folders existing a =
     (case present (oa_plannedFolderPath a) of
        Some folder \<Rightarrow>
          if actionIsSelectableForExecution a
          then rbind (folderChain folder) (\<lambda>chain.
               Inr (a\<lparr>oa_requiredFolderPaths := Some (filter (\<lambda>p. p \<notin> set existing) chain)\<rparr>))
          else Inr (a\<lparr>oa_requiredFolderPaths := Some []\<rparr>)
      | None \<Rightarrow> Inr (a\<lparr>oa_requiredFolderPaths := Some []\<rparr>))"

definition withRequiredFolderPaths ::
  "'c organization_action list \<Rightarrow> scanned_record list \<Rightarrow> (plan_error, 'c organization_action list) result" where
  "withRequiredFolderPaths actions scannedFiles =
     rbind (collectExistingFolders scannedFiles) (\<lambda>existing. map_result (required_folders existing) actions)"

definition generatedFolderActionFor :: "string \<Rightarrow> 'c organization_action \<Rightarrow> 'c organization_action" where
  "generatedFolderActionFor folderPath a =
     \<lparr>oa_id = stableId ''action-folder'' [folderPath], oa_order = 0, oa_actionType = P_CREATE_FOLDER,
      oa_selectedForExecution = True, oa_requiredForSelectedActions = True, oa_selectableForExecution = False,
      oa_executionRole = Some FOLDER_DEPENDENCY, oa_suggestionId = oa_suggestionId a,
      oa_suggestionType = T_CREATE_FOLDER, oa_sourceRelativePath = oa_sourceRelativePath a,
      oa_plannedRelativePath = None, oa_plannedFolderPath = Some folderPath, oa_plannedFileName = None,
      oa_requiredFolderPaths = Some [], oa_recommendationGenerationId = oa_recommendationGenerationId a,
      oa_recommendationGenerationVersion = oa_recommendationGenerationVersion a,
      oa_sourceSnapshot = oa_sourceSnapshot a,
      oa_reason = ''This destination folder is needed for one or more approved organization recommendations.'',
      oa_confidence = oa_confidence a,
      oa_originatingSuggestion = \<lparr>po_title = ''Create destination folder'',
        po_explanation = ''This folder is needed before the approved file organization can happen.'',
        po_status = po_status (oa_originatingSuggestion a)\<rparr>,
      oa_humanEdits = oa_humanEdits a, oa_evidence = oa_evidence a\<rparr>"

text \<open>One folder action for each required folder, in the order of its first need.\<close>

fun add_folders ::
  "string list \<Rightarrow> 'c organization_action \<Rightarrow> string list \<Rightarrow> (string \<times> 'c organization_action) list
    \<Rightarrow> (string \<times> 'c organization_action) list" where
  "add_folders existing a [] generated = generated"
| "add_folders existing a (p # ps) generated =
     (if p \<in> set existing \<or> map_get generated p \<noteq> None then add_folders existing a ps generated
      else add_folders existing a ps (map_set generated p (generatedFolderActionFor p a)))"

fun generate_folders ::
  "string list \<Rightarrow> 'c organization_action list \<Rightarrow> (string \<times> 'c organization_action) list
    \<Rightarrow> (plan_error, (string \<times> 'c organization_action) list) result" where
  "generate_folders existing [] generated = Inr generated"
| "generate_folders existing (a # as) generated =
     (case present (oa_plannedFolderPath a) of
        None \<Rightarrow> generate_folders existing as generated
      | Some folder \<Rightarrow>
          rbind (case oa_requiredFolderPaths a of Some ps \<Rightarrow> Inr ps | None \<Rightarrow> folderChain folder) (\<lambda>ps.
          generate_folders existing as (add_folders existing a ps generated)))"

definition withGeneratedFolderActionsForSelection ::
  "'c organization_action list \<Rightarrow> scanned_record list \<Rightarrow> (plan_error, 'c organization_action list) result" where
  "withGeneratedFolderActionsForSelection actions scannedFiles =
     rbind (collectExistingFolders scannedFiles) (\<lambda>existing.
     rbind (withRequiredFolderPaths (storedCandidateActions actions) scannedFiles) (\<lambda>candidates.
     rbind (generate_folders existing (filter actionIsSelectedFileAction candidates) []) (\<lambda>generated.
     Inr (map snd generated @ candidates))))"

section \<open>Warnings\<close>

definition blockingWarningTypes :: "plan_warning_type list" where
  "blockingWarningTypes =
     [W_DUPLICATE_SOURCE, W_DUPLICATE_DESTINATION, W_FILENAME_CONFLICT, W_FOLDER_CONFLICT, W_INVALID_PATH,
      W_MISSING_PARENT, W_OUTSIDE_ROOT_DESTINATION]"

fun warning_name :: "plan_warning_type \<Rightarrow> string" where
  "warning_name W_DUPLICATE_SOURCE = ''DUPLICATE_SOURCE''"
| "warning_name W_DUPLICATE_DESTINATION = ''DUPLICATE_DESTINATION''"
| "warning_name W_FILENAME_CONFLICT = ''FILENAME_CONFLICT''"
| "warning_name W_FOLDER_CONFLICT = ''FOLDER_CONFLICT''"
| "warning_name W_INVALID_PATH = ''INVALID_PATH''"
| "warning_name W_MISSING_PARENT = ''MISSING_PARENT''"
| "warning_name W_OUTSIDE_ROOT_DESTINATION = ''OUTSIDE_ROOT_DESTINATION''"
| "warning_name W_REVIEW_ONLY_ACTION = ''REVIEW_ONLY_ACTION''"

definition new_warning :: "plan_warning_type \<Rightarrow> string \<Rightarrow> string \<Rightarrow> string list \<Rightarrow> plan_warning" where
  "new_warning t title description affected =
     \<lparr>pw_id = stableId ''warning'' (warning_name t # title # affected), pw_warningType = t, pw_title = title,
      pw_description = description, pw_affectedActions = affected\<rparr>"

fun error_message :: "plan_error \<Rightarrow> string" where
  "error_message (Plan_error m c) = m"
| "error_message (Suggestion_error m c) = m"

record plan_check =
  ck_warnings :: "plan_warning list"
  ck_destinations :: "(string \<times> string list) list"
  ck_sources :: "(string \<times> (string \<times> string) list) list"

definition warn :: "plan_warning \<Rightarrow> plan_check \<Rightarrow> plan_check" where
  "warn w c = c\<lparr>ck_warnings := ck_warnings c @ [w]\<rparr>"

text \<open>
  The body of the loop of \<open>validatePlanActions\<close>: what it has recorded stays recorded when a later
  statement of the \<open>try\<close> block throws.
\<close>

definition check_destination ::
  "(string \<times> string) list \<Rightarrow> 'c organization_action \<Rightarrow> plan_check \<Rightarrow> plan_error option \<times> plan_check" where
  "check_destination existingFiles a c =
     (case present (oa_plannedRelativePath a) of
        None \<Rightarrow> (None, c)
      | Some planned \<Rightarrow>
          (case normal_path planned of
             Inl e \<Rightarrow> (Some e, c)
           | Inr normalized \<Rightarrow>
               let c1 = c\<lparr>ck_destinations := map_push (ck_destinations c) normalized (oa_id a)\<rparr>;
                   source = normal_path (oa_sourceRelativePath a);
                   conflict = (\<lambda>c2. case source of
                       Inl e \<Rightarrow> (Some e, c2)
                     | Inr from \<Rightarrow> (None,
                         if from \<noteq> normalized
                         then warn (new_warning W_FILENAME_CONFLICT ''A planned destination already exists''
                           (normalized @ '' already exists in the scanned folder metadata. The plan reports this instead of changing it.'')
                           [oa_id a]) c2
                         else c2))
               in (case (if actionIsSelectableForExecution a
                         then rbind source (\<lambda>from. Inr (c1\<lparr>ck_sources := map_push (ck_sources c1) from (oa_id a, normalized)\<rparr>))
                         else Inr c1) of
                     Inl e \<Rightarrow> (Some e, c1)
                   | Inr c2 \<Rightarrow> if map_get existingFiles normalized \<noteq> None then conflict c2 else (None, c2))))"

definition check_folder ::
  "(string \<times> string) list \<Rightarrow> string list \<Rightarrow> string list \<Rightarrow> 'c organization_action \<Rightarrow> plan_check \<Rightarrow> plan_error option \<times> plan_check" where
  "check_folder existingFiles existingFolders createFolders a c =
     (case present (oa_plannedFolderPath a) of
        None \<Rightarrow> (None, c)
      | Some folder \<Rightarrow>
          (case normal_path folder of
             Inl e \<Rightarrow> (Some e, c)
           | Inr normalized \<Rightarrow>
               let c1 = (if map_get existingFiles normalized \<noteq> None
                         then warn (new_warning W_FOLDER_CONFLICT ''A planned folder conflicts with a file''
                           (normalized @ '' is recorded as a file path, so it cannot safely be treated as a folder.'') [oa_id a]) c
                         else c);
                   parent = folderFromRelativePath normalized
               in (None, if parent \<noteq> [] \<and> parent \<notin> set existingFolders \<and> parent \<notin> set createFolders
                         then warn (new_warning W_MISSING_PARENT ''A parent folder is not present in the folder scan record''
                           (parent @ '' is not present in this scan session and is not created by this plan.'') [oa_id a]) c1
                         else c1)))"

definition check_action ::
  "(string \<times> string) list \<Rightarrow> string list \<Rightarrow> string list \<Rightarrow> plan_check \<Rightarrow> 'c organization_action \<Rightarrow> plan_check" where
  "check_action existingFiles existingFolders createFolders c a =
     (let caught = (\<lambda>e c. let description = error_message e in
            warn (new_warning
              (if has_substring description ''inside the connected folder'' then W_OUTSIDE_ROOT_DESTINATION else W_INVALID_PATH)
              ''A planned path needs review'' description [oa_id a]) c)
      in case check_destination existingFiles a c of
           (Some e, c1) \<Rightarrow> caught e c1
         | (None, c1) \<Rightarrow> (case check_folder existingFiles existingFolders createFolders a c1 of
               (Some e, c2) \<Rightarrow> caught e c2
             | (None, c2) \<Rightarrow> c2))"

definition duplicate_destinations :: "(string \<times> string list) list \<Rightarrow> plan_warning list" where
  "duplicate_destinations destinations =
     map (\<lambda>(destination, ids). new_warning W_DUPLICATE_DESTINATION ''Multiple actions share the same destination''
        (destination @ '' is proposed by more than one action.'') ids)
       (filter (\<lambda>(destination, ids). 1 < length ids) destinations)"

definition duplicate_sources :: "(string \<times> (string \<times> string) list) list \<Rightarrow> plan_warning list" where
  "duplicate_sources sources =
     map (\<lambda>(source, entries). new_warning W_DUPLICATE_SOURCE ''One file has more than one proposed destination''
        (source @ '' is proposed for more than one destination: '' @ join_with '', '' (unique (map snd entries)) @
          ''. Choose one before approving the plan.'') (map fst entries))
       (filter (\<lambda>(source, entries). 1 < length (unique (map snd entries))) sources)"

definition existing_file_paths :: "scanned_record list \<Rightarrow> (plan_error, (string \<times> string) list) result" where
  "existing_file_paths files =
     rbind (map_result (\<lambda>f. rbind (normal_path (sr_relativePath f)) (\<lambda>p. Inr (p, sr_id f))) files) (\<lambda>pairs.
     Inr (foldl (\<lambda>m (p, i). map_set m p i) [] pairs))"

definition validatePlanActions ::
  "'c organization_action list \<Rightarrow> scanned_record list \<Rightarrow> bool \<Rightarrow> (plan_error, plan_warning list) result" where
  "validatePlanActions actions scannedFiles selectedOnly =
     rbind (existing_file_paths scannedFiles) (\<lambda>existingFiles.
     rbind (collectExistingFolders scannedFiles) (\<lambda>existingFolders.
     let createFolders = List.map_filter (\<lambda>a. present (oa_plannedFolderPath a))
           (filter (\<lambda>a. oa_actionType a = P_CREATE_FOLDER) actions);
         normalized = map normalizePlanAction actions;
         checked = (if selectedOnly then filter actionIsExecutableInSavedPlan normalized
           else filter (\<lambda>a. actionIsSelectableForExecution a \<or> actionIsRequiredDependency a) normalized);
         c = foldl (check_action existingFiles existingFolders createFolders)
           \<lparr>ck_warnings = [], ck_destinations = [], ck_sources = []\<rparr> checked
     in Inr (ck_warnings c @ duplicate_destinations (ck_destinations c) @ duplicate_sources (ck_sources c))))"

section \<open>Order\<close>

fun actionOrder :: "plan_action_type \<Rightarrow> int" where
  "actionOrder P_CREATE_FOLDER = 10"
| "actionOrder P_RENAME_FOLDER = 20"
| "actionOrder P_MOVE_FILE = 30"
| "actionOrder P_RENAME_FILE = 40"
| "actionOrder P_MOVE_AND_RENAME_FILE = 50"
| "actionOrder P_WEBSITE_ACTION = 60"
| "actionOrder P_REVIEW_ONLY = 70"

definition order_path :: "'c organization_action \<Rightarrow> string" where
  "order_path a = (case oa_plannedRelativePath a of Some p \<Rightarrow> p
     | None \<Rightarrow> (case oa_plannedFolderPath a of Some p \<Rightarrow> p | None \<Rightarrow> oa_sourceRelativePath a))"

definition before_action ::
  "(string \<Rightarrow> string \<Rightarrow> int) \<Rightarrow> 'c organization_action \<Rightarrow> 'c organization_action \<Rightarrow> int" where
  "before_action localeCompare left right =
     (let d = actionOrder (oa_actionType left) - actionOrder (oa_actionType right) in
      if d \<noteq> 0 then d
      else let p = localeCompare (order_path left) (order_path right) in
        if p \<noteq> 0 then p else localeCompare (oa_id left) (oa_id right))"

definition orderedActions ::
  "(string \<Rightarrow> string \<Rightarrow> int) \<Rightarrow> 'c organization_action list \<Rightarrow> 'c organization_action list" where
  "orderedActions localeCompare actions =
     map (\<lambda>(index, a). a\<lparr>oa_order := index + 1\<rparr>) (enumerate 0 (sort_cmp (before_action localeCompare) actions))"

section \<open>Building a plan\<close>

record plan_summary =
  su_filesAffected :: nat
  su_foldersAffected :: nat
  su_moves :: nat
  su_renames :: nat
  su_newFolders :: nat
  su_estimatedOperations :: nat
  su_warnings :: nat
  su_blockingWarnings :: nat
  su_reviewOnlyNotes :: nat
  su_requiredFolderCreations :: nat
  su_selectableFileActions :: nat
  su_selectedFileActions :: nat
  su_unselectedAlternatives :: int

definition uniqueFolders :: "'c organization_action list \<Rightarrow> string list" where
  "uniqueFolders actions = unique (List.map_filter (\<lambda>a. present (oa_plannedFolderPath a)) actions)"

definition blockingWarningCount :: "plan_warning list \<Rightarrow> nat" where
  "blockingWarningCount warnings = length (filter (\<lambda>w. pw_warningType w \<in> set blockingWarningTypes) warnings)"

definition planSummary :: "'c organization_action list \<Rightarrow> plan_warning list \<Rightarrow> plan_summary" where
  "planSummary actions warnings =
     (let normalized = map normalizePlanAction actions;
          selected = filter actionIsSelectedFileAction normalized;
          executable = filter actionIsExecutableInSavedPlan normalized;
          selectable = filter actionIsSelectableForExecution normalized;
          folders = length (filter (\<lambda>a. oa_actionType a = P_CREATE_FOLDER) executable)
      in \<lparr>su_filesAffected = length (unique (filter (\<lambda>p. trim p \<noteq> []) (map oa_sourceRelativePath selected))),
          su_foldersAffected = length (uniqueFolders executable),
          su_moves = length (filter (\<lambda>a. oa_actionType a = P_MOVE_FILE \<or> oa_actionType a = P_MOVE_AND_RENAME_FILE) selected),
          su_renames = length (filter (\<lambda>a. oa_actionType a = P_RENAME_FILE \<or> oa_actionType a = P_MOVE_AND_RENAME_FILE) selected),
          su_newFolders = folders, su_estimatedOperations = length executable, su_warnings = length warnings,
          su_blockingWarnings = blockingWarningCount warnings,
          su_reviewOnlyNotes = length (filter actionIsReviewOnly normalized),
          su_requiredFolderCreations = folders, su_selectableFileActions = length selectable,
          su_selectedFileActions = length selected,
          su_unselectedAlternatives = int (length selectable) - int (length selected)\<rparr>)"

definition suggestionBelongsToCurrentGeneration :: "'c stored_suggestion \<Rightarrow> bool" where
  "suggestionBelongsToCurrentGeneration s \<longleftrightarrow>
     sg_invalidatedAt s = None \<and> isCurrentRecommendationGeneration (sg_recommendationGenerationVersion s)"

definition includedStatus :: "suggestion_status \<Rightarrow> bool" where
  "includedStatus st \<longleftrightarrow> st = S_APPROVED \<or> st = S_MODIFIED"

definition skippedItemFor :: "'c stored_suggestion \<Rightarrow> plan_skipped" where
  "skippedItemFor s =
     (let status = normalizeSuggestionStatus (sg_status s);
          reason =
            (if sg_invalidatedAt s \<noteq> None
             then (case sg_invalidatedReason s of Some r \<Rightarrow> r
               | None \<Rightarrow> ''This recommendation was replaced by newer review information.'')
             else if \<not> isCurrentRecommendationGeneration (sg_recommendationGenerationVersion s)
             then ''This recommendation came from an older recommendation pass and must be regenerated before it can enter a new plan.''
             else if sg_suggestionType s = ''INSUFFICIENT_EVIDENCE''
             then ''The Librarian did not have enough evidence to recommend an organization change.''
             else if sg_suggestionType s = ''KEEP_UNCHANGED''
             then ''The current location has affirmative support, so this is not a filesystem action.''
             else if status = S_REJECTED then ''Deanne rejected this suggestion.''
             else if status = S_LEFT_UNCHANGED then ''Deanne chose to leave this item unchanged.''
             else ''This suggestion is still waiting for review.'')
      in \<lparr>sk_id = stableId ''skipped'' [sg_id s], sk_suggestionId = sg_id s,
          sk_currentRelativePath = sg_currentRelativePath s, sk_title = sg_title s, sk_status = status, sk_reason = reason\<rparr>)"

definition skippedItemForReason :: "'c stored_suggestion \<Rightarrow> string \<Rightarrow> plan_skipped" where
  "skippedItemForReason s reason =
     \<lparr>sk_id = stableId ''skipped'' [sg_id s, reason], sk_suggestionId = sg_id s,
      sk_currentRelativePath = sg_currentRelativePath s, sk_title = sg_title s,
      sk_status = normalizeSuggestionStatus (sg_status s), sk_reason = reason\<rparr>"

definition never_planned :: "'c stored_suggestion \<Rightarrow> bool" where
  "never_planned s \<longleftrightarrow> normalizeSuggestionType (sg_suggestionType s) \<in> {T_KEEP_UNCHANGED, T_INSUFFICIENT_EVIDENCE}"

definition includedSuggestion :: "'c stored_suggestion \<Rightarrow> bool" where
  "includedSuggestion s \<longleftrightarrow> suggestionBelongsToCurrentGeneration s \<and>
     includedStatus (normalizeSuggestionStatus (sg_status s)) \<and> \<not> never_planned s"

text \<open>The loop that turns the included suggestions into actions or skipped items.\<close>

fun suggested_actions ::
  "'c stored_suggestion list \<Rightarrow> 'c organization_action list \<times> plan_skipped list \<Rightarrow> 'c organization_action list \<times> plan_skipped list" where
  "suggested_actions [] acc = acc"
| "suggested_actions (s # ss) (actions, skipped) =
     (case actionFromSuggestion s of
        Inr (Some a) \<Rightarrow> suggested_actions ss (actions @ [a], skipped)
      | Inr None \<Rightarrow> suggested_actions ss (actions, skipped @
          [skippedItemForReason s ''The approved recommendation does not change this file's location or name.''])
      | Inl e \<Rightarrow> suggested_actions ss (actions, skipped @
          [skippedItemForReason s ''The suggested destination is not a safe relative path inside this connected library.'']))"

definition last_twenty :: "'a list \<Rightarrow> 'a list" where
  "last_twenty xs = drop (length xs - 20) xs"

definition history_item :: "string \<Rightarrow> string \<Rightarrow> string \<Rightarrow> string \<Rightarrow> plan_history" where
  "history_item idPart now label detail =
     \<lparr>ph_id = stableId ''history'' [idPart, now], ph_at = now, ph_label = label, ph_detail = detail\<rparr>"

record 'c plan_snapshot =
  sn_actions :: "'c organization_action list"
  sn_warnings :: "plan_warning list"
  sn_skippedItems :: "plan_skipped list"
  sn_history :: "plan_history list"
  sn_totalActions :: nat
  sn_approvedActions :: nat
  sn_modifiedActions :: nat
  sn_rejectedActions :: nat
  sn_unchangedActions :: nat

definition with_status :: "suggestion_status \<Rightarrow> 'c stored_suggestion list \<Rightarrow> nat" where
  "with_status st ss = length (filter (\<lambda>s. normalizeSuggestionStatus (sg_status s) = st) ss)"

definition buildPlanSnapshot ::
  "(string \<Rightarrow> string \<Rightarrow> int) \<Rightarrow> string \<Rightarrow> 'c stored_suggestion list \<Rightarrow> scanned_record list \<Rightarrow> plan_history list
    \<Rightarrow> (plan_error, 'c plan_snapshot) result" where
  "buildPlanSnapshot localeCompare now suggestions scannedFiles previousHistory =
     (let included = filter includedSuggestion suggestions;
          skipped = map skippedItemFor (filter (\<lambda>s. suggestionBelongsToCurrentGeneration s \<and>
            (\<not> includedStatus (normalizeSuggestionStatus (sg_status s)) \<or> never_planned s)) suggestions);
          current = filter suggestionBelongsToCurrentGeneration suggestions
      in case suggested_actions included ([], skipped) of (suggested, skippedItems) \<Rightarrow>
        rbind (withGeneratedFolderActionsForSelection (storedCandidateActions suggested) scannedFiles) (\<lambda>unordered.
        let actions = orderedActions localeCompare unordered in
        rbind (validatePlanActions actions scannedFiles False) (\<lambda>warnings.
        Inr \<lparr>sn_actions = actions, sn_warnings = warnings, sn_skippedItems = skippedItems,
             sn_history = last_twenty (previousHistory @ [history_item ''generated'' now ''Plan generated''
               ''The Librarian rebuilt the plan from reviewed organization recommendations only. No filesystem action was allowed.'']),
             sn_totalActions = length actions, sn_approvedActions = with_status S_APPROVED current,
             sn_modifiedActions = with_status S_MODIFIED current, sn_rejectedActions = with_status S_REJECTED current,
             sn_unchangedActions = with_status S_LEFT_UNCHANGED current\<rparr>)))"

section \<open>Selecting actions\<close>

definition validateSelectedActionIds ::
  "'c organization_action list \<Rightarrow> string list \<Rightarrow> (plan_error, string list) result" where
  "validateSelectedActionIds candidates selectedIds =
     (let ids = nonempty (unique (map trim selectedIds));
          byId = foldl (\<lambda>m a. map_set m (oa_id a) a) [] candidates
      in if ids = [] then Inl (Plan_error ''Select at least one file action before saving the plan selection.'' 422)
         else if list_ex (\<lambda>i. map_get byId i = None) ids
         then Inl (Plan_error ''The plan selection included an action the Librarian could not verify.'' 422)
         else if list_ex (\<lambda>i. case map_get byId i of None \<Rightarrow> False | Some a \<Rightarrow> \<not> actionIsSelectableForExecution a) ids
         then Inl (Plan_error ''Only move and rename file recommendations can be selected for filesystem organization.'' 422)
         else Inr ids)"

definition set_selection :: "string list \<Rightarrow> 'c organization_action \<Rightarrow> 'c organization_action" where
  "set_selection ids a =
     normalizePlanAction (a\<lparr>oa_requiredForSelectedActions := False, oa_selectedForExecution := (oa_id a \<in> set ids)\<rparr>)"

definition applyActionSelection ::
  "(string \<Rightarrow> string \<Rightarrow> int) \<Rightarrow> 'c organization_action list \<Rightarrow> string list \<Rightarrow> scanned_record list
    \<Rightarrow> (plan_error, 'c organization_action list) result" where
  "applyActionSelection localeCompare actions selectedActionIds scannedFiles =
     (let candidates = storedCandidateActions actions in
      rbind (validateSelectedActionIds candidates selectedActionIds) (\<lambda>ids.
      rbind (withGeneratedFolderActionsForSelection (map (set_selection ids) candidates) scannedFiles) (\<lambda>updated.
      Inr (orderedActions localeCompare updated))))"

definition clearActionSelection ::
  "(string \<Rightarrow> string \<Rightarrow> int) \<Rightarrow> 'c organization_action list \<Rightarrow> 'c organization_action list" where
  "clearActionSelection localeCompare actions =
     orderedActions localeCompare (map (\<lambda>a. normalizePlanAction
        (a\<lparr>oa_requiredForSelectedActions := False, oa_selectedForExecution := False\<rparr>)) (storedCandidateActions actions))"

definition assertNoBlockingWarnings :: "plan_warning list \<Rightarrow> (plan_error, unit) result" where
  "assertNoBlockingWarnings warnings =
     (case find (\<lambda>w. pw_warningType w \<in> set blockingWarningTypes) warnings of
        None \<Rightarrow> Inr () | Some w \<Rightarrow> Inl (Plan_error (pw_description w) 422))"

end
