(* ===== verification/PlanStore.thy ===== *)
theory PlanStore
  imports Planner SafeMove
begin

text \<open>
  The life of a plan's row (\<open>src/lib/bridge/planner.ts\<close>, \<open>plan-execution-authority.ts\<close>,
  \<open>organization-plan-state.ts\<close>): generating, selecting, clearing, approving, cancelling and claiming it.
  A request reads the row first and writes it in a later transaction that checks that nobody wrote it
  in between.

  Every read of a request outside its transaction sees a database of its own, so that anything may
  happen between them. What \<open>requireScanSessionPermission\<close> and the Bridge's preview answer is part
  of the database they are asked in; the notebook entries are left out (their errors are ignored).
\<close>

section \<open>The database\<close>

record 'c stored_plan =
  sp_id :: string
  sp_scanSessionId :: string
  sp_connectedLibraryId :: string
  sp_updatedAt :: int
  sp_status :: string
  sp_totalActions :: nat
  sp_approvedActions :: nat
  sp_modifiedActions :: nat
  sp_rejectedActions :: nat
  sp_unchangedActions :: nat
  sp_actions :: "'c organization_action list"
  sp_warnings :: "plan_warning list"
  sp_skippedItems :: "plan_skipped list"
  sp_history :: "plan_history list"

record scan_session =
  sc_id :: string
  sc_library :: string
  sc_scannedFiles :: "scanned_record list"

text \<open>
  The clock is the time at which Prisma stamps \<open>updatedAt\<close>, in milliseconds; \<open>db_iso\<close> is the same time as
  \<open>toISOString\<close> writes it. The suggestions of a session are listed in the order of the query.
\<close>

record 'c plan_db =
  db_plans :: "'c stored_plan list"
  db_sessions :: "scan_session list"
  db_suggestions :: "'c stored_suggestion list"
  db_readable :: "string list"
  db_runs :: "(string \<times> string) list"
  db_permission :: "string \<Rightarrow> plan_error option"
  db_preview :: "string \<Rightarrow> plan_error option"
  db_clock :: int
  db_iso :: string
  db_newId :: string

definition organizationPlanStatuses :: "string list" where
  "organizationPlanStatuses = [''DRAFT'', ''READY_FOR_EXECUTION'', ''EXECUTED'', ''CANCELLED'']"

definition normalizePlanStatus :: "string \<Rightarrow> string" where
  "normalizePlanStatus value = (if value \<in> set organizationPlanStatuses then value else ''DRAFT'')"

definition blockingPlanExecutionStatuses :: "string list" where
  "blockingPlanExecutionStatuses = [''PENDING'', ''RUNNING'', ''COMPLETED'', ''PARTIALLY_COMPLETED'']"

definition execution_blocks :: "'c plan_db \<Rightarrow> string \<Rightarrow> bool" where
  "execution_blocks db planId \<longleftrightarrow> list_ex (\<lambda>(p, status). p = planId \<and> status \<in> set blockingPlanExecutionStatuses) (db_runs db)"

definition planById :: "'c plan_db \<Rightarrow> string \<Rightarrow> 'c stored_plan option" where
  "planById db planId = find (\<lambda>p. sp_id p = planId) (db_plans db)"

text \<open>
  \<open>updateMany\<close> on one plan: the rows that still have the expected status and stamp, and no execution
  that owns the plan, are rewritten and stamped. It returns how many there were.
\<close>

definition plan_matches :: "'c plan_db \<Rightarrow> string \<Rightarrow> string \<Rightarrow> int \<Rightarrow> 'c stored_plan \<Rightarrow> bool" where
  "plan_matches db planId status stamp p \<longleftrightarrow>
     sp_id p = planId \<and> sp_status p = status \<and> sp_updatedAt p = stamp \<and> \<not> execution_blocks db planId"

definition update_plan ::
  "string \<Rightarrow> string \<Rightarrow> int \<Rightarrow> ('c stored_plan \<Rightarrow> 'c stored_plan) \<Rightarrow> 'c plan_db \<Rightarrow> nat \<times> 'c plan_db" where
  "update_plan planId status stamp change db =
     (let hit = plan_matches db planId status stamp in
      (length (filter hit (db_plans db)),
       db\<lparr>db_plans := map (\<lambda>p. if hit p then (change p)\<lparr>sp_updatedAt := db_clock db\<rparr> else p) (db_plans db)\<rparr>))"

section \<open>Reading\<close>

definition requirePlanningPermission :: "'c plan_db \<Rightarrow> string \<Rightarrow> (plan_error, unit) result" where
  "requirePlanningPermission db scanSessionId =
     (case db_permission db scanSessionId of None \<Rightarrow> Inr () | Some e \<Rightarrow> Inl e)"

definition require_plan :: "'c plan_db \<Rightarrow> string \<Rightarrow> (plan_error, 'c stored_plan) result" where
  "require_plan db planId =
     (case planById db planId of
        None \<Rightarrow> Inl (Plan_error ''The Librarian could not find that organization plan.'' 404) | Some p \<Rightarrow> Inr p)"

definition planScannedFiles :: "'c plan_db \<Rightarrow> 'c stored_plan \<Rightarrow> (plan_error, scanned_record list) result" where
  "planScannedFiles db plan =
     (case find (\<lambda>s. sc_id s = sp_scanSessionId plan) (db_sessions db) of
        None \<Rightarrow> Inl (Plan_error ''The Librarian could not find that plan's scan session.'' 404)
      | Some s \<Rightarrow> Inr (sc_scannedFiles s))"

definition currentPlanForScanSession :: "'c plan_db \<Rightarrow> string \<Rightarrow> 'c stored_plan option" where
  "currentPlanForScanSession db scanSessionId =
     (let reviewed = list_ex (\<lambda>s. sg_scanSessionId s = scanSessionId \<and> sg_invalidatedAt s = None \<and>
            sg_recommendationGenerationVersion s = currentRecommendationGenerationVersion \<and>
            sg_status s \<in> {''APPROVED'', ''MODIFIED''}) (db_suggestions db);
          plans = filter (\<lambda>p. sp_scanSessionId p = scanSessionId \<and> sp_status p \<in> {''DRAFT'', ''READY_FOR_EXECUTION''} \<and> reviewed)
            (db_plans db)
      in case sort_cmp (\<lambda>a b. sp_updatedAt b - sp_updatedAt a) plans of [] \<Rightarrow> None | p # _ \<Rightarrow> Some p)"

definition appendPlanHistory :: "'c plan_db \<Rightarrow> 'c stored_plan \<Rightarrow> string \<Rightarrow> string \<Rightarrow> plan_history list" where
  "appendPlanHistory db plan label detail = last_twenty (sp_history plan @ [history_item label (db_iso db) label detail])"

text \<open>One selected action against the suggestion it came from.\<close>

definition check_selected ::
  "'c stored_suggestion list \<Rightarrow> 'c organization_action \<Rightarrow> (plan_error, unit) result" where
  "check_selected suggestions a =
     (case find (\<lambda>s. sg_id s = oa_suggestionId a) suggestions of
        None \<Rightarrow> Inl (Plan_error ''The selected action no longer matches a reviewable recommendation.'' 422)
      | Some s \<Rightarrow>
          if sg_invalidatedAt s \<noteq> None \<or> \<not> isCurrentRecommendationGeneration (sg_recommendationGenerationVersion s)
          then Inl (Plan_error ''Regenerate recommendations and rebuild the Organization Plan before selecting this action.'' 422)
          else if \<not> includedStatus (normalizeSuggestionStatus (sg_status s)) \<or>
            oa_recommendationGenerationId a \<noteq> Some (sg_recommendationGenerationId s) \<or>
            oa_recommendationGenerationVersion a \<noteq> Some (sg_recommendationGenerationVersion s)
          then Inl (Plan_error ''The selected action does not match the current reviewed recommendation.'' 422)
          else let f = sg_scannedFile s in
            (case oa_sourceSnapshot a of
               None \<Rightarrow> Inl (Plan_error ''The selected action no longer matches the scanned file record.'' 422)
             | Some snap \<Rightarrow>
                 if oa_sourceRelativePath a \<noteq> sr_relativePath f \<or> ss_scannedFileId snap \<noteq> sr_id f \<or>
                    ss_relativePath snap \<noteq> sr_relativePath f
                 then Inl (Plan_error ''The selected action no longer matches the scanned file record.'' 422)
                 else if ss_checksum snap \<noteq> sr_checksum f \<or> ss_sizeBytes snap \<noteq> sr_sizeBytes f \<or>
                    ss_lastModified snap \<noteq> sr_lastModified f
                 then Inl (Plan_error ''The source file changed after this plan was built. Regenerate the plan before selecting it.'' 422)
                 else Inr ()))"

definition assertSelectedActionsMatchCurrentRecommendations ::
  "'c plan_db \<Rightarrow> string \<Rightarrow> 'c organization_action list \<Rightarrow> (plan_error, unit) result" where
  "assertSelectedActionsMatchCurrentRecommendations db scanSessionId actions =
     (let selected = filter actionIsSelectedFileAction (map normalizePlanAction actions);
          suggestions = filter (\<lambda>s. sg_scanSessionId s = scanSessionId) (db_suggestions db)
      in rbind (map_result (check_selected suggestions) selected) (\<lambda>_. Inr ()))"

section \<open>Writing\<close>

definition writeUnchangedPlan ::
  "'c stored_plan \<Rightarrow> ('c stored_plan \<Rightarrow> 'c stored_plan) \<Rightarrow> 'c organization_action list option \<Rightarrow> bool \<Rightarrow> 'c plan_db
    \<Rightarrow> (plan_error, unit) result \<times> 'c plan_db" where
  "writeUnchangedPlan existing data verifyActions historicalCancellation db =
     (if \<not> historicalCancellation \<and> sp_connectedLibraryId existing \<notin> set (db_readable db)
      then (Inl (Plan_error ''This library is not available for planning.'' 409), db)
      else case (case verifyActions of None \<Rightarrow> Inr ()
          | Some actions \<Rightarrow> assertSelectedActionsMatchCurrentRecommendations db (sp_scanSessionId existing) actions) of
        Inl e \<Rightarrow> (Inl e, db)
      | Inr _ \<Rightarrow>
          (case update_plan (sp_id existing) (normalizePlanStatus (sp_status existing)) (sp_updatedAt existing) data db of
             (changed, db') \<Rightarrow>
               if changed \<noteq> 1 then (Inl (Plan_error ''This plan changed during review. Refresh and try again.'' 409), db)
               else (Inr (), db')))"

text \<open>A request that fails before its transaction leaves the database alone.\<close>

definition transact ::
  "(plan_error, 'c plan_db \<Rightarrow> (plan_error, unit) result \<times> 'c plan_db) result \<Rightarrow> 'c plan_db \<Rightarrow> (plan_error, unit) result \<times> 'c plan_db" where
  "transact prepared db = (case prepared of Inl e \<Rightarrow> (Inl e, db) | Inr write_plan \<Rightarrow> write_plan db)"

definition require_draft :: "'c stored_plan \<Rightarrow> (plan_error, unit) result" where
  "require_draft plan =
     (if normalizePlanStatus (sp_status plan) \<noteq> ''DRAFT''
      then Inl (Plan_error ''Only a draft Organization Plan can have its selected actions changed.'' 409) else Inr ())"

definition selection_saved_detail :: "nat \<Rightarrow> string" where
  "selection_saved_detail n = dec n @ '' file action'' @ (if n = 1 then [] else ''s'') @
     '' selected for later approval. No filesystem action occurred.''"

definition saveOrganizationPlanSelection ::
  "(string \<Rightarrow> string \<Rightarrow> int) \<Rightarrow> string \<Rightarrow> string list \<Rightarrow> 'c plan_db \<Rightarrow> 'c plan_db \<Rightarrow> 'c plan_db \<Rightarrow> 'c plan_db \<Rightarrow> 'c plan_db
    \<Rightarrow> (plan_error, unit) result \<times> 'c plan_db" where
  "saveOrganizationPlanSelection localeCompare planId selectedActionIds db1 db2 db3 db4 db5 =
     transact (rbind (require_plan db1 planId) (\<lambda>existing.
       rbind (require_draft existing) (\<lambda>_.
       rbind (requirePlanningPermission db2 (sp_scanSessionId existing)) (\<lambda>_.
       rbind (planScannedFiles db3 existing) (\<lambda>scannedFiles.
       rbind (applyActionSelection localeCompare (sp_actions existing) selectedActionIds scannedFiles) (\<lambda>actions.
       rbind (validatePlanActions actions scannedFiles True) (\<lambda>warnings.
       rbind (assertNoBlockingWarnings warnings) (\<lambda>_.
       rbind (assertSelectedActionsMatchCurrentRecommendations db4 (sp_scanSessionId existing) actions) (\<lambda>_.
       Inr (writeUnchangedPlan existing
         (\<lambda>p. p\<lparr>sp_actions := actions, sp_totalActions := length actions, sp_warnings := warnings,
           sp_history := appendPlanHistory db4 existing ''Selected actions saved''
             (selection_saved_detail (su_selectedFileActions (planSummary actions warnings)))\<rparr>)
         (Some actions) False))))))))))
     db5"

definition clearOrganizationPlanSelection ::
  "(string \<Rightarrow> string \<Rightarrow> int) \<Rightarrow> string \<Rightarrow> 'c plan_db \<Rightarrow> 'c plan_db \<Rightarrow> 'c plan_db \<Rightarrow> 'c plan_db
    \<Rightarrow> (plan_error, unit) result \<times> 'c plan_db" where
  "clearOrganizationPlanSelection localeCompare planId db1 db2 db3 db4 =
     transact (rbind (require_plan db1 planId) (\<lambda>existing.
       rbind (require_draft existing) (\<lambda>_.
       rbind (requirePlanningPermission db2 (sp_scanSessionId existing)) (\<lambda>_.
       rbind (planScannedFiles db3 existing) (\<lambda>scannedFiles.
       let actions = clearActionSelection localeCompare (sp_actions existing) in
       rbind (validatePlanActions actions scannedFiles False) (\<lambda>warnings.
       Inr (writeUnchangedPlan existing
         (\<lambda>p. p\<lparr>sp_actions := actions, sp_totalActions := length actions, sp_warnings := warnings,
           sp_history := appendPlanHistory db3 existing ''Selection cleared''
             ''Deanne cleared the selected file actions. No filesystem action occurred.''\<rparr>)
         (Some actions) False)))))))
     db4"

definition approveOrganizationPlan ::
  "string \<Rightarrow> 'c plan_db \<Rightarrow> 'c plan_db \<Rightarrow> 'c plan_db \<Rightarrow> 'c plan_db \<Rightarrow> (plan_error, unit) result \<times> 'c plan_db" where
  "approveOrganizationPlan planId db1 db2 db3 db4 =
     transact (rbind (require_plan db1 planId) (\<lambda>existing.
       rbind (if sp_status existing \<in> {''DRAFT'', ''READY_FOR_EXECUTION''} then Inr ()
         else Inl (Plan_error ''This plan is no longer available for approval.'' 409)) (\<lambda>_.
       let actions = map normalizePlanAction (sp_actions existing) in
       rbind (if filter actionIsSelectedFileAction actions = []
         then Inl (Plan_error ''Select and save at least one file action before approving the Organization Plan.'' 422)
         else Inr ()) (\<lambda>_.
       rbind (requirePlanningPermission db2 (sp_scanSessionId existing)) (\<lambda>_.
       rbind (case db_preview db3 (sp_id existing) of None \<Rightarrow> Inr () | Some e \<Rightarrow> Inl e) (\<lambda>_.
       Inr (writeUnchangedPlan existing
         (\<lambda>p. p\<lparr>sp_status := ''READY_FOR_EXECUTION'',
           sp_history := appendPlanHistory db3 existing ''Plan approved''
             ''Deanne marked the plan ready for future execution. No filesystem action occurred.''\<rparr>)
         (Some actions) False)))))))
     db4"

definition cancelOrganizationPlan ::
  "string \<Rightarrow> 'c plan_db \<Rightarrow> 'c plan_db \<Rightarrow> (plan_error, unit) result \<times> 'c plan_db" where
  "cancelOrganizationPlan planId db1 db2 =
     transact (rbind (require_plan db1 planId) (\<lambda>existing.
       Inr (writeUnchangedPlan existing
         (\<lambda>p. p\<lparr>sp_status := ''CANCELLED'',
           sp_history := appendPlanHistory db1 existing ''Plan cancelled''
             ''Deanne cancelled this plan. No filesystem action occurred.''\<rparr>)
         None True)))
     db2"

definition snapshot_into :: "string \<Rightarrow> string \<Rightarrow> 'c plan_snapshot \<Rightarrow> 'c stored_plan \<Rightarrow> 'c stored_plan" where
  "snapshot_into library session s p =
     p\<lparr>sp_scanSessionId := session, sp_connectedLibraryId := library, sp_status := ''DRAFT'',
       sp_totalActions := sn_totalActions s, sp_approvedActions := sn_approvedActions s,
       sp_modifiedActions := sn_modifiedActions s, sp_rejectedActions := sn_rejectedActions s,
       sp_unchangedActions := sn_unchangedActions s, sp_actions := sn_actions s, sp_warnings := sn_warnings s,
       sp_skippedItems := sn_skippedItems s, sp_history := sn_history s\<rparr>"

definition empty_plan :: "string \<Rightarrow> int \<Rightarrow> 'c stored_plan" where
  "empty_plan i now = \<lparr>sp_id = i, sp_scanSessionId = [], sp_connectedLibraryId = [], sp_updatedAt = now, sp_status = [],
     sp_totalActions = 0, sp_approvedActions = 0, sp_modifiedActions = 0, sp_rejectedActions = 0, sp_unchangedActions = 0,
     sp_actions = [], sp_warnings = [], sp_skippedItems = [], sp_history = []\<rparr>"

definition generate_in ::
  "(string \<Rightarrow> string \<Rightarrow> int) \<Rightarrow> string \<Rightarrow> 'c plan_db \<Rightarrow> (plan_error, unit) result \<times> 'c plan_db" where
  "generate_in localeCompare scanSessionId db =
     (case find (\<lambda>s. sc_id s = scanSessionId) (db_sessions db) of
        None \<Rightarrow> (Inl (Plan_error ''The Librarian could not find that scan session.'' 404), db)
      | Some session \<Rightarrow>
          if sc_library session \<notin> set (db_readable db)
          then (Inl (Plan_error ''This library is not available for planning.'' 409), db)
          else
            let previous = currentPlanForScanSession db scanSessionId in
            (case buildPlanSnapshot localeCompare (db_iso db)
                (filter (\<lambda>s. sg_scanSessionId s = scanSessionId) (db_suggestions db)) (sc_scannedFiles session)
                (case previous of None \<Rightarrow> [] | Some p \<Rightarrow> sp_history p) of
               Inl e \<Rightarrow> (Inl e, db)
             | Inr snapshot \<Rightarrow>
                 if sn_totalActions snapshot = 0
                 then (Inl (Plan_error ''No reviewed recommendations are ready for planning.'' 422), db)
                 else (case previous of
                     Some p \<Rightarrow>
                       (case update_plan (sp_id p) (sp_status p) (sp_updatedAt p)
                           (snapshot_into (sc_library session) scanSessionId snapshot) db of
                          (changed, db') \<Rightarrow>
                            if changed \<noteq> 1
                            then (Inl (Plan_error ''This plan changed or execution already started. Refresh and try again.'' 409), db)
                            else (Inr (), db'))
                   | None \<Rightarrow> (Inr (), db\<lparr>db_plans := db_plans db @
                       [snapshot_into (sc_library session) scanSessionId snapshot (empty_plan (db_newId db) (db_clock db))]\<rparr>))))"

definition generateOrganizationPlanForScanSession ::
  "(string \<Rightarrow> string \<Rightarrow> int) \<Rightarrow> string \<Rightarrow> 'c plan_db \<Rightarrow> 'c plan_db \<Rightarrow> (plan_error, unit) result \<times> 'c plan_db" where
  "generateOrganizationPlanForScanSession localeCompare scanSessionId db1 db2 =
     transact (rbind (requirePlanningPermission db1 scanSessionId) (\<lambda>_. Inr (generate_in localeCompare scanSessionId))) db2"

text \<open>The admission of an execution: it moves the plan's stamp forward even within one millisecond.\<close>

definition claimPlanExecution :: "'c stored_plan \<Rightarrow> 'c plan_db \<Rightarrow> bool \<times> 'c plan_db" where
  "claimPlanExecution plan db =
     (let hit = plan_matches db (sp_id plan) ''READY_FOR_EXECUTION'' (sp_updatedAt plan);
          db' = db\<lparr>db_plans := map (\<lambda>p. if hit p then p\<lparr>sp_updatedAt := max (db_clock db) (sp_updatedAt plan + 1)\<rparr> else p)
            (db_plans db)\<rparr>
      in (length (filter hit (db_plans db)) = 1, db'))"

section \<open>The state shown\<close>

datatype plan_ui_state =
  UI_REVIEWING | UI_AWAITING_EXECUTION | UI_EXECUTING | UI_COMPLETED | UI_UNDOING | UI_UNDONE | UI_NEEDS_ATTENTION | UI_CANCELLED

datatype progress_status = G_PENDING | G_RUNNING | G_COMPLETED | G_PARTIALLY_COMPLETED | G_FAILED | G_BLOCKED

definition organizationPlanUiState :: "progress_status option \<Rightarrow> string \<Rightarrow> progress_status option \<Rightarrow> plan_ui_state" where
  "organizationPlanUiState executionStatus planStatus undoStatus =
     (if undoStatus = Some G_PENDING \<or> undoStatus = Some G_RUNNING then UI_UNDOING
      else if undoStatus = Some G_COMPLETED then UI_UNDONE
      else if undoStatus = Some G_BLOCKED \<or> undoStatus = Some G_FAILED \<or> undoStatus = Some G_PARTIALLY_COMPLETED
      then UI_NEEDS_ATTENTION
      else if executionStatus = Some G_PENDING \<or> executionStatus = Some G_RUNNING then UI_EXECUTING
      else if executionStatus = Some G_BLOCKED \<or> executionStatus = Some G_FAILED \<or> executionStatus = Some G_PARTIALLY_COMPLETED
      then UI_NEEDS_ATTENTION
      else if planStatus = ''EXECUTED'' \<or> executionStatus = Some G_COMPLETED then UI_COMPLETED
      else if planStatus = ''CANCELLED'' then UI_CANCELLED
      else if planStatus = ''READY_FOR_EXECUTION'' then UI_AWAITING_EXECUTION
      else UI_REVIEWING)"

end
