(* ===== verification/PlannerFacts.thy ===== *)
theory PlannerFacts
  imports PlanStore ProtocolFacts
begin

text \<open>
  What a saved selection promises: the selected file actions are the requested ones, no two of them
  share a file or a destination, no destination overwrites a recorded file, and every folder that is
  needed exists or is made by an earlier action of the plan.
\<close>

section \<open>The promise\<close>

definition recorded_file :: "scanned_record list \<Rightarrow> string \<Rightarrow> bool" where
  "recorded_file files p \<longleftrightarrow> list_ex (\<lambda>f. normal_path (sr_relativePath f) = Inr p) files"

text \<open>\<open>q\<close> is a folder on the way to \<open>p\<close>.\<close>

definition folder_of :: "string \<Rightarrow> string \<Rightarrow> bool" where
  "folder_of q p \<longleftrightarrow> starts_with p (q @ [slash])"

definition recorded_folder :: "scanned_record list \<Rightarrow> string \<Rightarrow> bool" where
  "recorded_folder files q \<longleftrightarrow>
     list_ex (\<lambda>f. case normal_path (sr_relativePath f) of Inl e \<Rightarrow> False | Inr p \<Rightarrow> folder_of q p) files"

text \<open>The folder is there when the action numbered \<open>n\<close> runs.\<close>

definition folder_ready :: "scanned_record list \<Rightarrow> 'c organization_action list \<Rightarrow> nat \<Rightarrow> string \<Rightarrow> bool" where
  "folder_ready files actions n q \<longleftrightarrow> recorded_folder files q \<or>
     list_ex (\<lambda>b. actionIsRequiredDependency b \<and> oa_plannedFolderPath b = Some q \<and> oa_order b < n) actions"

definition source_of :: "'c organization_action \<Rightarrow> (plan_error, string) result" where
  "source_of a = normal_path (oa_sourceRelativePath a)"

definition destination_of :: "'c organization_action \<Rightarrow> (plan_error, string) result" where
  "destination_of a = (case present (oa_plannedRelativePath a) of
     None \<Rightarrow> Inl (Plan_error [] 0) | Some p \<Rightarrow> normal_path p)"

definition safe_file_action :: "scanned_record list \<Rightarrow> 'c organization_action list \<Rightarrow> 'c organization_action \<Rightarrow> bool" where
  "safe_file_action files actions a \<longleftrightarrow>
     (\<exists>from d. source_of a = Inr from \<and> destination_of a = Inr d \<and> (recorded_file files d \<longrightarrow> d = from)) \<and>
     (\<forall>folder. present (oa_plannedFolderPath a) = Some folder \<longrightarrow>
        (\<exists>n. normal_path folder = Inr n \<and> \<not> recorded_file files n \<and>
           (\<forall>q. q = n \<or> folder_of q n \<longrightarrow> folder_ready files actions (oa_order a) q)))"

definition safe_folder_action :: "scanned_record list \<Rightarrow> 'c organization_action list \<Rightarrow> 'c organization_action \<Rightarrow> bool" where
  "safe_folder_action files actions b \<longleftrightarrow>
     (\<exists>p n. oa_plannedFolderPath b = Some p \<and> normal_path p = Inr n \<and> \<not> recorded_file files n \<and> \<not> recorded_folder files p \<and>
        (\<forall>q. folder_of q p \<longrightarrow> folder_ready files actions (oa_order b) q))"

definition safe_selection :: "string list \<Rightarrow> scanned_record list \<Rightarrow> 'c organization_action list \<Rightarrow> bool" where
  "safe_selection requested files actions \<longleftrightarrow>
     (let selected = filter actionIsSelectedFileAction actions in
      selected \<noteq> [] \<and> oa_id ` set selected = set (nonempty (map trim requested)) \<and>
      map oa_order actions = [1 ..< Suc (length actions)] \<and>
      distinct (map source_of selected) \<and> distinct (map destination_of selected) \<and>
      (\<forall>a \<in> set selected. safe_file_action files actions a) \<and>
      (\<forall>b \<in> set actions. actionIsRequiredDependency b \<longrightarrow> safe_folder_action files actions b))"

section \<open>Folders of a path\<close>

lemma folder_of_segs: "folder_of q p \<longleftrightarrow> (\<exists>i \<in> {1 ..< length (split_on slash p)}. q = join_with [slash] (take i (split_on slash p)))"
proof
  assume "folder_of q p"
  then obtain r where p: "p = q @ slash # r" by (auto simp: folder_of_def starts_with_iff)
  have "q = join_with [slash] (take (length (split_on slash q)) (split_on slash p))"
    by (simp add: p split_on_app)
  moreover have "length (split_on slash q) \<in> {1 ..< length (split_on slash p)}"
    by (simp add: p split_on_app Suc_le_eq)
  ultimately show "\<exists>i \<in> {1 ..< length (split_on slash p)}. q = join_with [slash] (take i (split_on slash p))" by blast
next
  assume "\<exists>i \<in> {1 ..< length (split_on slash p)}. q = join_with [slash] (take i (split_on slash p))"
  then obtain i where i: "1 \<le> i" "i < length (split_on slash p)" and q: "q = join_with [slash] (take i (split_on slash p))" by auto
  have "p = join_with [slash] (take i (split_on slash p) @ drop i (split_on slash p))" by simp
  also have "\<dots> = q @ [slash] @ join_with [slash] (drop i (split_on slash p))"
    unfolding q using i by (intro join_with_append) auto
  finally show "folder_of q p" by (auto simp: folder_of_def starts_with_iff)
qed

lemma prefixes_below: "set (path_prefixes (split_on slash p) [1 ..< length (split_on slash p)]) = {q. folder_of q p}"
  by (auto simp: path_prefixes_def folder_of_segs)

lemma folder_of_trans: "folder_of q p \<Longrightarrow> folder_of p n \<Longrightarrow> folder_of q n"
  by (auto simp: folder_of_def starts_with_iff)

lemma set_folderChain:
  "folderChain folder = Inr ps \<Longrightarrow> \<exists>n. normal_path folder = Inr n \<and> set ps = (if n = [] then {} else {q. q = n \<or> folder_of q n})"
proof -
  assume "folderChain folder = Inr ps"
  then obtain n where n: "normal_path folder = Inr n"
    and ps: "ps = (if n = [] then [] else path_prefixes (split_on slash n) [1 ..< Suc (length (split_on slash n))])"
    by (auto simp: folderChain_def Let_def split: if_splits)
  have "1 \<le> length (split_on slash n)" by (simp add: Suc_le_eq)
  then have "[1 ..< Suc (length (split_on slash n))] = [1 ..< length (split_on slash n)] @ [length (split_on slash n)]"
    by (rule upt_Suc_append)
  then have "set (path_prefixes (split_on slash n) [1 ..< Suc (length (split_on slash n))]) = {q. q = n \<or> folder_of q n}"
    using prefixes_below[of n] by (auto simp: path_prefixes_def)
  with n ps show ?thesis by auto
qed

lemma set_collectExistingFolders:
  "collectExistingFolders files = Inr existing \<Longrightarrow> set existing = {q. recorded_folder files q}"
  by (induction files arbitrary: existing)
    (auto simp: prefixes_below[unfolded One_nat_def] recorded_folder_def Let_def)

lemma normal_path_nonempty: "normal_path p = Inr n \<Longrightarrow> n \<noteq> []"
  by (auto simp: normalizeBridgeRelativePath_def Let_def invalidPathSegment_def split: if_splits)

lemma map_of_existing_files:
  assumes "existing_file_paths files = Inr m"
  shows "map_of m p \<noteq> None \<longleftrightarrow> recorded_file files p"
proof -
  obtain pairs where pairs: "map_result (\<lambda>f. rbind (normal_path (sr_relativePath f)) (\<lambda>p. Inr (p, sr_id f))) files = Inr pairs"
    and m: "m = foldl (\<lambda>m (p, i). map_set m p i) [] pairs"
    using assms by (auto simp: existing_file_paths_def)
  have "fst ` set pairs = {p. recorded_file files p}"
    using pairs
  proof (induction files arbitrary: pairs)
    case (Cons f files)
    then obtain p rest where "normal_path (sr_relativePath f) = Inr p" "pairs = (p, sr_id f) # rest"
      "fst ` set rest = {p. recorded_file files p}" by auto
    then show ?case by (auto simp: recorded_file_def)
  qed (simp add: recorded_file_def)
  moreover have "dom (map_of m) = fst ` set pairs"
    using dom_foldl_set[of fst snd "[]" pairs] unfolding m by (simp add: case_prod_unfold)
  ultimately show ?thesis by (auto simp: domIff)
qed

section \<open>A check without warnings\<close>

definition has_destination :: "'c organization_action \<Rightarrow> bool" where
  "has_destination a \<longleftrightarrow> present (oa_plannedRelativePath a) \<noteq> None"

definition clean_action :: "(string \<times> string) list \<Rightarrow> 'c organization_action \<Rightarrow> bool" where
  "clean_action existingFiles a \<longleftrightarrow>
     (has_destination a \<longrightarrow> (\<exists>d. destination_of a = Inr d \<and> (map_of existingFiles d \<noteq> None \<longrightarrow> source_of a = Inr d) \<and>
        (actionIsSelectableForExecution a \<longrightarrow> (\<exists>from. source_of a = Inr from)))) \<and>
     (\<forall>folder. present (oa_plannedFolderPath a) = Some folder \<longrightarrow>
        (\<exists>n. normal_path folder = Inr n \<and> map_of existingFiles n = None))"

lemma selectable_has_destination: "actionIsSelectableForExecution a \<Longrightarrow> has_destination a"
  by (auto simp: actionIsSelectableForExecution_def has_destination_def present_def split: option.splits)

lemma check_destination_extends:
  "check_destination ef a c = (e, c') \<Longrightarrow> \<exists>ws. ck_warnings c' = ck_warnings c @ ws \<and> (\<forall>w \<in> set ws. pw_warningType w \<in> set blockingWarningTypes)"
  by (auto simp: check_destination_def warn_def new_warning_def blockingWarningTypes_def Let_def
      split: option.splits sum.splits if_splits)

lemma check_folder_extends:
  "check_folder ef xf cf a c = (e, c') \<Longrightarrow> \<exists>ws. ck_warnings c' = ck_warnings c @ ws \<and> (\<forall>w \<in> set ws. pw_warningType w \<in> set blockingWarningTypes)"
  by (auto simp: check_folder_def warn_def new_warning_def blockingWarningTypes_def Let_def
      split: option.splits sum.splits if_splits)

lemma check_action_extends:
  "\<exists>ws. ck_warnings (check_action ef xf cf c a) = ck_warnings c @ ws \<and> (\<forall>w \<in> set ws. pw_warningType w \<in> set blockingWarningTypes)"
proof -
  obtain e c1 where d: "check_destination ef a c = (e, c1)" by fastforce
  obtain e2 c2 where f: "check_folder ef xf cf a c1 = (e2, c2)" by fastforce
  obtain w1 where w1: "ck_warnings c1 = ck_warnings c @ w1" "\<forall>w \<in> set w1. pw_warningType w \<in> set blockingWarningTypes"
    using check_destination_extends[OF d] by blast
  obtain w2 where w2: "ck_warnings c2 = ck_warnings c1 @ w2" "\<forall>w \<in> set w2. pw_warningType w \<in> set blockingWarningTypes"
    using check_folder_extends[OF f] by blast
  show ?thesis
  proof (cases e)
    case (Some x)
    then show ?thesis using w1 by (simp add: check_action_def d warn_def new_warning_def blockingWarningTypes_def Let_def)
  next
    case None
    then show ?thesis using w1 w2
      by (cases e2) (simp_all add: check_action_def d f warn_def new_warning_def blockingWarningTypes_def Let_def ball_Un)
  qed
qed

lemma fold_extends:
  "\<exists>ws. ck_warnings (foldl (check_action ef xf cf) c as) = ck_warnings c @ ws \<and> (\<forall>w \<in> set ws. pw_warningType w \<in> set blockingWarningTypes)"
proof (induction as arbitrary: c)
  case (Cons a as)
  from Cons[of "check_action ef xf cf c a"] check_action_extends[of ef xf cf c a] show ?case by fastforce
qed simp

lemma check_destination_clean:
  assumes "check_destination ef a c = (None, c')" "ck_warnings c' = ck_warnings c"
  shows "(has_destination a \<longrightarrow> (\<exists>d. destination_of a = Inr d \<and> (map_of ef d \<noteq> None \<longrightarrow> source_of a = Inr d) \<and>
        (actionIsSelectableForExecution a \<longrightarrow> (\<exists>from. source_of a = Inr from)))) \<and>
     ck_destinations c' = (if has_destination a then map_push (ck_destinations c) (projr (destination_of a)) (oa_id a) else ck_destinations c) \<and>
     ck_sources c' = (if actionIsSelectableForExecution a
        then map_push (ck_sources c) (projr (source_of a)) (oa_id a, projr (destination_of a)) else ck_sources c)"
  using assms selectable_has_destination[of a]
  by (auto simp: check_destination_def warn_def Let_def has_destination_def destination_of_def source_of_def
      split: option.splits sum.splits if_splits)

lemma check_folder_clean:
  assumes "check_folder ef xf cf a c = (None, c')" "ck_warnings c' = ck_warnings c"
  shows "(\<forall>folder. present (oa_plannedFolderPath a) = Some folder \<longrightarrow> (\<exists>n. normal_path folder = Inr n \<and> map_of ef n = None)) \<and>
     ck_destinations c' = ck_destinations c \<and> ck_sources c' = ck_sources c"
  using assms by (auto simp: check_folder_def warn_def Let_def split: option.splits sum.splits if_splits)

lemma check_action_clean:
  assumes clean: "ck_warnings (check_action ef xf cf c a) = []"
  shows "clean_action ef a \<and>
     ck_destinations (check_action ef xf cf c a) =
       (if has_destination a then map_push (ck_destinations c) (projr (destination_of a)) (oa_id a) else ck_destinations c) \<and>
     ck_sources (check_action ef xf cf c a) = (if actionIsSelectableForExecution a
        then map_push (ck_sources c) (projr (source_of a)) (oa_id a, projr (destination_of a)) else ck_sources c)"
proof -
  obtain e c1 where d: "check_destination ef a c = (e, c1)" by fastforce
  obtain e2 c2 where f: "check_folder ef xf cf a c1 = (e2, c2)" by fastforce
  from clean have e: "e = None" by (auto simp: check_action_def d warn_def Let_def split: option.splits)
  from clean e have e2: "e2 = None" by (auto simp: check_action_def d f warn_def Let_def split: option.splits)
  have c2: "check_action ef xf cf c a = c2" by (simp add: check_action_def d f e e2)
  have "ck_warnings c1 = []" "ck_warnings c = []" "ck_warnings c2 = []"
    using clean check_folder_extends[OF f] check_destination_extends[OF d] unfolding c2 by auto
  then have "ck_warnings c1 = ck_warnings c" "ck_warnings c2 = ck_warnings c1" by simp_all
  note check_destination_clean[OF d[unfolded e] this(1)] check_folder_clean[OF f[unfolded e2] this(2)]
  then show ?thesis unfolding c2 clean_action_def by simp
qed

lemma checked_clean:
  assumes "ck_warnings (foldl (check_action ef xf cf) c as) = []"
  shows "ck_destinations (foldl (check_action ef xf cf) c as) =
      foldl (\<lambda>m a. map_push m (projr (destination_of a)) (oa_id a)) (ck_destinations c) (filter has_destination as) \<and>
    ck_sources (foldl (check_action ef xf cf) c as) =
      foldl (\<lambda>m a. map_push m (projr (source_of a)) (oa_id a, projr (destination_of a))) (ck_sources c)
        (filter actionIsSelectableForExecution as) \<and>
    (\<forall>a \<in> set as. clean_action ef a)"
  using assms
proof (induction as arbitrary: c)
  case (Cons a as)
  let ?c = "check_action ef xf cf c a"
  have "ck_warnings ?c = []" using fold_extends[of ef xf cf ?c as] Cons.prems by auto
  from check_action_clean[OF this] Cons.IH[of ?c] Cons.prems show ?case by simp
qed simp

text \<open>Groups of one are distinct keys.\<close>

lemma short_filters_distinct: "(\<And>k. length (filter (\<lambda>x. key x = k) xs) \<le> 1) \<Longrightarrow> distinct (map key xs)"
proof (induction xs)
  case (Cons x xs)
  have "length (filter (\<lambda>y. key y = k) xs) \<le> 1" for k
    using Cons.prems[of k] by (simp split: if_splits)
  moreover have "filter (\<lambda>y. key y = key x) xs = []" using Cons.prems[of "key x"] by simp
  then have "key x \<notin> key ` set xs" by (auto simp: filter_empty_conv)
  ultimately show ?case using Cons.IH by simp
qed simp

lemma group_in_push:
  assumes "x \<in> set xs"
  shows "(key x, map val (filter (\<lambda>y. key y = key x) xs)) \<in> set (foldl (\<lambda>m x. map_push m (key x) (val x)) [] xs)"
proof -
  have "map_of (foldl (\<lambda>m x. map_push m (key x) (val x)) [] xs) (key x) = Some (map val (filter (\<lambda>y. key y = key x) xs))"
    using assms by (auto simp: map_of_foldl_push filter_empty_conv split: list.splits)
  then show ?thesis by (rule map_of_SomeD)
qed

lemma no_duplicate_destinations:
  assumes "duplicate_destinations (foldl (\<lambda>m x. map_push m (key x) (val x)) [] xs) = []"
  shows "distinct (map key xs)"
proof (rule short_filters_distinct)
  fix k
  show "length (filter (\<lambda>x. key x = k) xs) \<le> 1"
  proof (cases "\<exists>x \<in> set xs. key x = k")
    case True
    then obtain x where "x \<in> set xs" "key x = k" by blast
    from group_in_push[OF this(1), of key val] assms this(2) show ?thesis
      by (fastforce simp: duplicate_destinations_def filter_empty_conv)
  next
    case False
    then have "filter (\<lambda>x. key x = k) xs = []" by (simp add: filter_empty_conv)
    then show ?thesis by simp
  qed
qed

lemma no_duplicate_sources:
  assumes "duplicate_sources (foldl (\<lambda>m x. map_push m (key x) (i x, dest x)) [] xs) = []"
    and "x \<in> set xs" "y \<in> set xs" "key x = key y"
  shows "dest x = dest y"
proof -
  let ?g = "map (\<lambda>x. (i x, dest x)) (filter (\<lambda>z. key z = key x) xs)"
  from group_in_push[OF assms(2), of key "\<lambda>x. (i x, dest x)"] assms(1)
  have "\<not> 1 < length (unique (map snd ?g))" by (fastforce simp: duplicate_sources_def filter_empty_conv)
  then have "card (set (map snd ?g)) \<le> 1"
    by (metis distinct_card distinct_unique not_le set_unique)
  then have "\<forall>d \<in> set (map snd ?g). \<forall>e \<in> set (map snd ?g). d = e"
    by (simp only: One_nat_def card_le_Suc0_iff_eq[OF finite_set])
  moreover have "dest x \<in> set (map snd ?g)" "dest y \<in> set (map snd ?g)" using assms(2-4) by force+
  ultimately show ?thesis by blast
qed

section \<open>What normalising and numbering leave alone\<close>

lemma normalize_flags [simp]:
  "actionIsSelectableForExecution (normalizePlanAction a) = actionIsSelectableForExecution a"
  "actionIsRequiredDependency (normalizePlanAction a) = actionIsRequiredDependency a"
  "actionIsSelectedFileAction (normalizePlanAction a) = actionIsSelectedFileAction a"
  "oa_id (normalizePlanAction a) = oa_id a"
  "oa_actionType (normalizePlanAction a) = oa_actionType a"
  "oa_plannedFolderPath (normalizePlanAction a) = oa_plannedFolderPath a"
  "source_of (normalizePlanAction a) = source_of a"
  "destination_of (normalizePlanAction a) = destination_of a"
  by (auto simp: normalizePlanAction_def actionIsSelectableForExecution_def actionIsRequiredDependency_def
      actionIsSelectedFileAction_def action_generation_def source_of_def destination_of_def Let_def)

lemma order_flags [simp]:
  "actionIsSelectableForExecution (a\<lparr>oa_order := n\<rparr>) = actionIsSelectableForExecution a"
  "actionIsRequiredDependency (a\<lparr>oa_order := n\<rparr>) = actionIsRequiredDependency a"
  "actionIsSelectedFileAction (a\<lparr>oa_order := n\<rparr>) = actionIsSelectedFileAction a"
  "source_of (a\<lparr>oa_order := n\<rparr>) = source_of a"
  "destination_of (a\<lparr>oa_order := n\<rparr>) = destination_of a"
  "order_path (a\<lparr>oa_order := n\<rparr>) = order_path a"
  by (simp_all add: actionIsSelectableForExecution_def actionIsRequiredDependency_def
      actionIsSelectedFileAction_def action_generation_def source_of_def destination_of_def order_path_def
      split: option.splits)

lemma before_action_order [simp]:
  "before_action lc (a\<lparr>oa_order := n\<rparr>) b = before_action lc a b"
  "before_action lc a (b\<lparr>oa_order := n\<rparr>) = before_action lc a b"
  by (simp_all add: before_action_def Let_def)

lemma folder_path_flags [simp]:
  "actionIsSelectableForExecution (a\<lparr>oa_requiredFolderPaths := v\<rparr>) = actionIsSelectableForExecution a"
  "actionIsRequiredDependency (a\<lparr>oa_requiredFolderPaths := v\<rparr>) = actionIsRequiredDependency a"
  "actionIsSelectedFileAction (a\<lparr>oa_requiredFolderPaths := v\<rparr>) = actionIsSelectedFileAction a"
  by (simp_all add: actionIsSelectableForExecution_def actionIsRequiredDependency_def
      actionIsSelectedFileAction_def action_generation_def)

lemma selected_not_required: "actionIsSelectedFileAction a \<Longrightarrow> \<not> actionIsRequiredDependency a"
  by (auto simp: actionIsSelectedFileAction_def actionIsSelectableForExecution_def actionIsRequiredDependency_def
      selectableFileActionTypes_def)

lemma generated_flags [simp]:
  "oa_actionType (generatedFolderActionFor p a) = P_CREATE_FOLDER"
  "oa_plannedFolderPath (generatedFolderActionFor p a) = Some p"
  "oa_plannedRelativePath (generatedFolderActionFor p a) = None"
  "order_path (generatedFolderActionFor p a) = p"
  "actionIsSelectedFileAction a \<Longrightarrow> actionIsRequiredDependency (generatedFolderActionFor p a)"
  by (simp_all add: generatedFolderActionFor_def order_path_def actionIsRequiredDependency_def action_generation_def
      actionIsSelectedFileAction_def actionIsSelectableForExecution_def)

lemma generated_not_selected [simp]: "\<not> actionIsSelectedFileAction (generatedFolderActionFor p a)"
  by (simp add: actionIsSelectedFileAction_def actionIsSelectableForExecution_def selectableFileActionTypes_def)

section \<open>Order\<close>

lemma before_action_flip:
  assumes "collation lc"
  shows "before_action lc a b < 0 \<longleftrightarrow> 0 < before_action lc b a"
  using collationD(1,2)[OF assms, of "order_path a" "order_path b"] collationD(1,2)[OF assms, of "order_path b" "order_path a"]
    collationD(1,2)[OF assms, of "oa_id a" "oa_id b"]
  by (auto simp: before_action_def Let_def)

lemma before_action_trans:
  assumes lc: "collation lc" and ab: "before_action lc a b \<le> 0" and bc: "before_action lc b c \<le> 0"
  shows "before_action lc a c \<le> 0"
proof -
  note eq = collationD(1)[OF lc] and flip = collationD(2)[OF lc] and tr = collationD(3)[OF lc]
  let ?i = "\<lambda>a. actionOrder (oa_actionType a)"
  consider "?i a < ?i c" | "?i a = ?i b" "?i b = ?i c"
    using ab bc by (fastforce simp: before_action_def Let_def split: if_splits)
  then show ?thesis
  proof cases
    case 2
    have p: "lc (order_path a) (order_path b) \<le> 0" "lc (order_path b) (order_path c) \<le> 0"
      using ab bc 2 by (auto simp: before_action_def Let_def split: if_splits)
    from tr[OF p] have ac: "lc (order_path a) (order_path c) \<le> 0" .
    show ?thesis
    proof (cases "lc (order_path a) (order_path c) = 0")
      case True
      then have "order_path a = order_path c" using eq by blast
      with p have "lc (order_path a) (order_path b) = 0" using flip[of "order_path a" "order_path b"] by fastforce
      then have "order_path a = order_path b" using eq by blast
      with True have "order_path b = order_path c" using eq by metis
      with \<open>order_path a = order_path b\<close> 2 ab bc have "lc (oa_id a) (oa_id b) \<le> 0" "lc (oa_id b) (oa_id c) \<le> 0"
        using eq[of "order_path c" "order_path c"] by (auto simp: before_action_def Let_def)
      from tr[OF this] True 2 show ?thesis by (simp add: before_action_def Let_def)
    qed (use ac 2 in \<open>simp add: before_action_def Let_def\<close>)
  qed (simp add: before_action_def Let_def)
qed

lemma sorted_actions:
  assumes "collation lc"
  shows "sorted_wrt (\<lambda>a b. before_action lc a b \<le> 0) (sort_cmp (before_action lc) as)"
  using before_action_flip[OF assms] before_action_trans[OF assms]
  by (intro sorted_wrt_sort_cmp) (force intro: less_imp_le)+

lemma length_orderedActions [simp]: "length (orderedActions lc as) = length as"
  by (simp add: orderedActions_def)

lemma nth_orderedActions:
  "i < length as \<Longrightarrow> orderedActions lc as ! i = (sort_cmp (before_action lc) as ! i)\<lparr>oa_order := i + 1\<rparr>"
  by (simp add: orderedActions_def nth_enumerate_eq)

lemma orders_orderedActions: "map oa_order (orderedActions lc as) = [1 ..< Suc (length as)]"
  by (rule nth_equalityI) (simp_all add: nth_orderedActions del: upt_Suc)

lemma orderedActions_from: "y \<in> set (orderedActions lc as) \<Longrightarrow> \<exists>x \<in> set as. \<exists>n. y = x\<lparr>oa_order := n\<rparr>"
proof -
  assume "y \<in> set (orderedActions lc as)"
  then obtain i where i: "i < length as" "y = orderedActions lc as ! i" by (auto simp: in_set_conv_nth)
  moreover have "sort_cmp (before_action lc) as ! i \<in> set as"
    using i nth_mem[of i "sort_cmp (before_action lc) as"] by simp
  ultimately show ?thesis by (auto simp: nth_orderedActions)
qed

lemma orderedActions_of: "x \<in> set as \<Longrightarrow> \<exists>n. x\<lparr>oa_order := n\<rparr> \<in> set (orderedActions lc as)"
proof -
  assume "x \<in> set as"
  then have "x \<in> set (sort_cmp (before_action lc) as)" by simp
  then obtain i where "i < length as" "sort_cmp (before_action lc) as ! i = x"
    by (metis in_set_conv_nth length_sort_cmp)
  then show ?thesis using nth_mem[of i "orderedActions lc as"] by (auto simp: nth_orderedActions)
qed

lemma orderedActions_before:
  assumes lc: "collation lc" and a: "a \<in> set (orderedActions lc as)" and b: "b \<in> set (orderedActions lc as)"
    and less: "before_action lc b a < 0"
  shows "oa_order b < oa_order a"
proof -
  obtain i j where i: "i < length as" "a = orderedActions lc as ! i" and j: "j < length as" "b = orderedActions lc as ! j"
    using a b by (auto simp: in_set_conv_nth)
  let ?S = "sort_cmp (before_action lc) as"
  have "0 < before_action lc (?S ! i) (?S ! j)"
    using less before_action_flip[OF lc, of b a] i j by (simp add: nth_orderedActions)
  moreover have "\<not> i < j"
    using calculation sorted_wrt_nth_less[OF sorted_actions[OF lc, of as], of i j] j by auto
  moreover have "i \<noteq> j" using calculation(1) before_action_flip[OF lc, of "?S ! i" "?S ! i"] by auto
  ultimately show ?thesis using i j by (simp add: nth_orderedActions)
qed

section \<open>The folders a selection needs\<close>

definition folder_needs :: "string list \<Rightarrow> 'c organization_action \<Rightarrow> string set" where
  "folder_needs existing a =
     (case present (oa_plannedFolderPath a) of None \<Rightarrow> {} | Some f \<Rightarrow> set (the (oa_requiredFolderPaths a)) - set existing)"

lemma add_folders_keys:
  "fst ` set (add_folders existing a ps generated) = fst ` set generated \<union> (set ps - set existing)"
  by (induction existing a ps generated rule: add_folders.induct)
    (auto simp: keys_map_set map_of_eq_None_iff image_iff)

lemma add_folders_entries:
  "(p, b) \<in> set (add_folders existing a ps generated) \<Longrightarrow>
     (p, b) \<in> set generated \<or> b = generatedFolderActionFor p a \<and> p \<in> set ps - set existing"
  by (induction existing a ps generated rule: add_folders.induct) (auto simp: map_set_new split: if_splits)

lemma generate_folders_result:
  assumes "generate_folders existing as generated = Inr g" "\<forall>a \<in> set as. oa_requiredFolderPaths a \<noteq> None"
  shows "fst ` set g = fst ` set generated \<union> (\<Union>a \<in> set as. folder_needs existing a) \<and>
    (\<forall>(p, b) \<in> set g. (p, b) \<in> set generated \<or>
       (\<exists>a \<in> set as. b = generatedFolderActionFor p a \<and> p \<in> folder_needs existing a))"
  using assms
proof (induction as arbitrary: generated)
  case (Cons a as)
  show ?case
  proof (cases "present (oa_plannedFolderPath a)")
    case None
    then have "folder_needs existing a = {}" by (simp add: folder_needs_def)
    with Cons.IH[of generated] Cons.prems None show ?thesis by simp
  next
    case (Some folder)
    from Cons.prems(2) obtain ps where ps: "oa_requiredFolderPaths a = Some ps" by auto
    let ?g = "add_folders existing a ps generated"
    have "generate_folders existing as ?g = Inr g" using Cons.prems(1) Some ps by simp
    from Cons.IH[OF this] Cons.prems(2)
    have IH: "fst ` set g = fst ` set ?g \<union> (\<Union>a \<in> set as. folder_needs existing a)"
      "\<forall>(p, b) \<in> set g. (p, b) \<in> set ?g \<or> (\<exists>a \<in> set as. b = generatedFolderActionFor p a \<and> p \<in> folder_needs existing a)"
      by simp_all
    have needs: "folder_needs existing a = set ps - set existing" by (simp add: folder_needs_def Some ps)
    show ?thesis
    proof (intro conjI ballI)
      show "fst ` set g = fst ` set generated \<union> (\<Union>a \<in> set (a # as). folder_needs existing a)"
        using IH(1) by (simp add: add_folders_keys needs Un_assoc)
    next
      fix e
      assume e: "e \<in> set g"
      obtain p b where pb: "e = (p, b)" by fastforce
      from IH(2) e pb add_folders_entries[of p b existing a ps generated]
      show "case e of (p, b) \<Rightarrow> (p, b) \<in> set generated \<or>
          (\<exists>a \<in> set (a # as). b = generatedFolderActionFor p a \<and> p \<in> folder_needs existing a)"
        by (auto simp: needs)
    qed
  qed
qed auto

lemma required_folders_flags:
  assumes "required_folders existing c = Inr a"
  shows "\<exists>v. a = c\<lparr>oa_requiredFolderPaths := Some v\<rparr>"
  using assms by (auto simp: required_folders_def split: option.splits if_splits)

lemma required_folders_needs:
  assumes "required_folders existing c = Inr a" "actionIsSelectedFileAction a"
    and ex: "set existing = {q. recorded_folder files q}"
    and folder: "present (oa_plannedFolderPath a) = Some folder"
  shows "\<exists>n. normal_path folder = Inr n \<and> folder_needs existing a = {q. (q = n \<or> folder_of q n) \<and> \<not> recorded_folder files q}"
proof -
  have folder_c: "present (oa_plannedFolderPath c) = Some folder" "actionIsSelectableForExecution c"
    using assms required_folders_flags[OF assms(1)] by (auto simp: actionIsSelectedFileAction_def)
  then obtain chain where chain: "folderChain folder = Inr chain" and a: "oa_requiredFolderPaths a = Some (filter (\<lambda>p. p \<notin> set existing) chain)"
    using assms(1) by (auto simp: required_folders_def)
  obtain n where n: "normal_path folder = Inr n" "set chain = (if n = [] then {} else {q. q = n \<or> folder_of q n})"
    using set_folderChain[OF chain] by blast
  with normal_path_nonempty[OF n(1)] show ?thesis by (auto simp: folder_needs_def folder a ex)
qed

section \<open>Applying a selection\<close>

lemma map_result_image: "map_result f xs = Inr ys \<Longrightarrow> x \<in> set xs \<Longrightarrow> \<exists>y \<in> set ys. f x = Inr y"
  by (induction xs arbitrary: ys) auto

lemma stored_candidate: "c \<in> set (storedCandidateActions as) \<longleftrightarrow>
    (\<exists>a \<in> set as. c = normalizePlanAction a \<and> \<not> (oa_actionType c = P_CREATE_FOLDER \<and>
       (oa_requiredForSelectedActions c \<or> starts_with (oa_id c) ''action-folder-'')))"
  by (auto simp: storedCandidateActions_def)

lemma stored_candidate_not_required: "c \<in> set (storedCandidateActions as) \<Longrightarrow> \<not> actionIsRequiredDependency c"
  by (auto simp: stored_candidate actionIsRequiredDependency_def)

lemma select_flags [simp]:
  "actionIsSelectableForExecution (a\<lparr>oa_requiredForSelectedActions := r, oa_selectedForExecution := x\<rparr>) = actionIsSelectableForExecution a"
  by (simp add: actionIsSelectableForExecution_def action_generation_def)

lemma set_selection_flags [simp]:
  "oa_id (set_selection ids a) = oa_id a"
  "actionIsSelectableForExecution (set_selection ids a) = actionIsSelectableForExecution a"
  "actionIsSelectedFileAction (set_selection ids a) \<longleftrightarrow> actionIsSelectableForExecution a \<and> oa_id a \<in> set ids"
  by (simp_all only: set_selection_def normalize_flags) (simp_all add: actionIsSelectedFileAction_def)

lemma validated_ids:
  assumes "validateSelectedActionIds candidates requested = Inr ids"
  shows "set ids = set (nonempty (map trim requested))" "ids \<noteq> []"
    "\<forall>i \<in> set ids. \<exists>a \<in> set candidates. oa_id a = i \<and> actionIsSelectableForExecution a"
proof -
  let ?m = "foldl (\<lambda>m a. map_set m (oa_id a) a) [] candidates"
  have ids: "ids = nonempty (unique (map trim requested))" and "ids \<noteq> []"
    and all: "\<forall>i \<in> set ids. \<exists>a. map_of ?m i = Some a \<and> actionIsSelectableForExecution a"
    using assms by (auto simp: validateSelectedActionIds_def Let_def list_ex_iff split: if_splits option.splits)
  then show "set ids = set (nonempty (map trim requested))" "ids \<noteq> []" by (simp_all add: nonempty_def)
  have "map_of ?m i = Some a \<Longrightarrow> a \<in> set candidates \<and> oa_id a = i" for i a
  proof (induction candidates rule: rev_induct)
    case (snoc c cs)
    then show ?case by (auto split: if_splits)
  qed simp
  with all show "\<forall>i \<in> set ids. \<exists>a \<in> set candidates. oa_id a = i \<and> actionIsSelectableForExecution a" by blast
qed

text \<open>The selected candidates are the requested ones.\<close>

lemma selected_ids:
  assumes ids: "validateSelectedActionIds (storedCandidateActions stored) requested = Inr ids"
    and cands: "map_result (required_folders existing)
      (storedCandidateActions (map (set_selection ids) (storedCandidateActions stored))) = Inr candidates"
  shows "oa_id ` {a \<in> set candidates. actionIsSelectedFileAction a} = set ids"
proof (intro equalityI subsetI)
  let ?cands = "storedCandidateActions stored"
  let ?sel = "storedCandidateActions (map (set_selection ids) ?cands)"
  fix i
  assume "i \<in> oa_id ` {a \<in> set candidates. actionIsSelectedFileAction a}"
  then obtain a where a: "a \<in> set candidates" "actionIsSelectedFileAction a" "i = oa_id a" by blast
  obtain c where c: "c \<in> set ?sel" "required_folders existing c = Inr a" using map_result_mem[OF cands a(1)] by blast
  obtain d where "d \<in> set ?cands" "c = normalizePlanAction (set_selection ids d)"
    using c(1) by (auto simp: stored_candidate[of _ "map _ _"])
  with a c required_folders_flags[OF c(2)] show "i \<in> set ids" by auto
next
  let ?cands = "storedCandidateActions stored"
  let ?sel = "storedCandidateActions (map (set_selection ids) ?cands)"
  fix i
  assume i: "i \<in> set ids"
  then obtain d where d: "d \<in> set ?cands" "oa_id d = i" "actionIsSelectableForExecution d"
    using validated_ids(3)[OF ids] by blast
  let ?c = "normalizePlanAction (set_selection ids d)"
  have "oa_actionType ?c \<noteq> P_CREATE_FOLDER"
    using d(3) by (auto simp: set_selection_def actionIsSelectableForExecution_def selectableFileActionTypes_def)
  with d(1) have "?c \<in> set ?sel" by (auto simp: stored_candidate[of _ "map _ _"])
  then obtain a where a: "a \<in> set candidates" "required_folders existing ?c = Inr a" using map_result_image[OF cands] by blast
  with required_folders_flags[OF a(2)] i d show "i \<in> oa_id ` {a \<in> set candidates. actionIsSelectedFileAction a}"
    by (intro image_eqI[of _ _ a]) auto
qed

text \<open>
  The parts of an applied selection: the candidates with the selection set, and the folders generated
  for the selected ones.
\<close>

definition applied_parts ::
  "scanned_record list \<Rightarrow> string list \<Rightarrow> string list \<Rightarrow> 'c organization_action list \<Rightarrow> (string \<times> 'c organization_action) list \<Rightarrow> bool" where
  "applied_parts files requested existing candidates generated \<longleftrightarrow>
     oa_id ` {a \<in> set candidates. actionIsSelectedFileAction a} = set (nonempty (map trim requested)) \<and>
     nonempty (map trim requested) \<noteq> [] \<and>
     (\<forall>a \<in> set candidates. \<not> actionIsRequiredDependency a) \<and>
     fst ` set generated = (\<Union>a \<in> {a \<in> set candidates. actionIsSelectedFileAction a}. folder_needs existing a) \<and>
     (\<forall>(p, b) \<in> set generated. \<exists>a \<in> set candidates. actionIsSelectedFileAction a \<and> b = generatedFolderActionFor p a \<and> p \<in> folder_needs existing a) \<and>
     (\<forall>a \<in> set candidates. actionIsSelectedFileAction a \<longrightarrow> (\<forall>folder. present (oa_plannedFolderPath a) = Some folder \<longrightarrow>
        (\<exists>n. normal_path folder = Inr n \<and> folder_needs existing a = {q. (q = n \<or> folder_of q n) \<and> \<not> recorded_folder files q})))"

lemma apply_selection:
  assumes "applyActionSelection lc stored requested files = Inr actions"
  obtains existing candidates generated where
    "actions = orderedActions lc (map snd generated @ candidates)"
    "applied_parts files requested existing candidates generated"
proof -
  let ?cands = "storedCandidateActions stored"
  obtain ids updated where ids: "validateSelectedActionIds ?cands requested = Inr ids"
    and up: "withGeneratedFolderActionsForSelection (map (set_selection ids) ?cands) files = Inr updated"
    and actions: "actions = orderedActions lc updated"
    using assms by (auto simp: applyActionSelection_def Let_def)
  let ?sel = "storedCandidateActions (map (set_selection ids) ?cands)"
  obtain existing candidates generated where ex: "collectExistingFolders files = Inr existing"
    and cands: "map_result (required_folders existing) ?sel = Inr candidates"
    and gen: "generate_folders existing (filter actionIsSelectedFileAction candidates) [] = Inr generated"
    and updated: "updated = map snd generated @ candidates"
    using up by (auto simp: withGeneratedFolderActionsForSelection_def withRequiredFolderPaths_def)
  have from_sel: "\<exists>c \<in> set ?sel. required_folders existing c = Inr a" if "a \<in> set candidates" for a
    using map_result_mem[OF cands that] .
  have folders: "set existing = {q. recorded_folder files q}" by (rule set_collectExistingFolders[OF ex])
  have some: "\<forall>a \<in> set (filter actionIsSelectedFileAction candidates). oa_requiredFolderPaths a \<noteq> None"
    using from_sel required_folders_flags by fastforce
  note g = generate_folders_result[OF gen some]
  have selected: "oa_id ` {a \<in> set candidates. actionIsSelectedFileAction a} = set ids"
    by (rule selected_ids[OF ids cands])
  have "\<forall>a \<in> set candidates. \<not> actionIsRequiredDependency a"
    using from_sel required_folders_flags stored_candidate_not_required by fastforce
  moreover have "\<forall>(p, b) \<in> set generated. \<exists>a \<in> set candidates. actionIsSelectedFileAction a \<and> b = generatedFolderActionFor p a \<and> p \<in> folder_needs existing a"
    using g by fastforce
  moreover have "\<forall>a \<in> set candidates. actionIsSelectedFileAction a \<longrightarrow> (\<forall>folder. present (oa_plannedFolderPath a) = Some folder \<longrightarrow>
      (\<exists>n. normal_path folder = Inr n \<and> folder_needs existing a = {q. (q = n \<or> folder_of q n) \<and> \<not> recorded_folder files q}))"
    using from_sel required_folders_needs[OF _ _ folders] by blast
  moreover have "nonempty (map trim requested) \<noteq> []" using validated_ids(1,2)[OF ids] by force
  ultimately have "applied_parts files requested existing candidates generated"
    using g selected validated_ids(1)[OF ids] unfolding applied_parts_def by simp
  then show ?thesis by (intro that[of generated candidates existing]) (simp_all add: actions updated)
qed

section \<open>Samples\<close>

definition sample_scanned :: "string \<Rightarrow> string \<Rightarrow> scanned_record" where
  "sample_scanned i p = \<lparr>sr_id = i, sr_relativePath = p, sr_checksum = Some ''c'', sr_sizeBytes = Some ''7'', sr_lastModified = None\<rparr>"

definition sample_suggestion :: "string \<Rightarrow> string \<Rightarrow> string \<Rightarrow> nat stored_suggestion" where
  "sample_suggestion i p proposed =
     \<lparr>sg_id = i, sg_scanSessionId = ''s'', sg_suggestionType = ''MOVE_FILE'', sg_currentRelativePath = p,
      sg_proposedRelativePath = Some proposed, sg_proposedFileName = None, sg_title = ''t'', sg_explanation = ''e'',
      sg_confidence = 90, sg_status = ''APPROVED'', sg_whySuggested = [], sg_supportDetails = [],
      sg_recommendationGenerationId = ''g'', sg_recommendationGenerationVersion = currentRecommendationGenerationVersion,
      sg_invalidatedAt = None, sg_invalidatedReason = None, sg_scannedFile = sample_scanned i p, sg_revisions = []\<rparr>"

definition sample_action :: "string \<Rightarrow> string \<Rightarrow> string \<Rightarrow> string \<Rightarrow> nat organization_action" where
  "sample_action i p planned folder =
     \<lparr>oa_id = i, oa_order = 1, oa_actionType = P_MOVE_FILE, oa_selectedForExecution = False, oa_requiredForSelectedActions = False,
      oa_selectableForExecution = True, oa_executionRole = Some UNSELECTED_CANDIDATE, oa_suggestionId = i, oa_suggestionType = T_MOVE_FILE,
      oa_sourceRelativePath = p, oa_plannedRelativePath = Some planned, oa_plannedFolderPath = Some folder, oa_plannedFileName = Some p,
      oa_requiredFolderPaths = Some [], oa_recommendationGenerationId = Some ''g'',
      oa_recommendationGenerationVersion = Some currentRecommendationGenerationVersion,
      oa_sourceSnapshot = Some (snapshot_of (sample_scanned i p)), oa_reason = [], oa_confidence = 90,
      oa_originatingSuggestion = \<lparr>po_title = [], po_explanation = [], po_status = S_APPROVED\<rparr>, oa_humanEdits = [],
      oa_evidence = \<lparr>ev_approvedObservation = [], ev_approvedMemory = [], ev_humanModification = [], ev_originatingSuggestion = []\<rparr>\<rparr>"

definition sample_plan_db :: "nat plan_db" where
  "sample_plan_db =
     \<lparr>db_plans = [(empty_plan ''p'' 0)\<lparr>sp_scanSessionId := ''s'', sp_connectedLibraryId := ''l'', sp_status := ''DRAFT'',
         sp_actions := [sample_action ''1'' ''a'' ''X/Y/a'' ''X/Y'']\<rparr>],
      db_sessions = [\<lparr>sc_id = ''s'', sc_library = ''l'', sc_scannedFiles = [sample_scanned ''1'' ''a'']\<rparr>],
      db_suggestions = [sample_suggestion ''1'' ''a'' ''X/Y/a''], db_readable = [''l''], db_runs = [], db_permission = (\<lambda>_. None),
      db_preview = (\<lambda>_. None), db_clock = 1, db_iso = ''i'', db_newId = ''q''\<rparr>"

end
