(* ===== verification/PlanSafety.thy ===== *)
theory PlanSafety
  imports PlannerFacts
begin

text \<open>
  A selection that \<open>saveOrganizationPlanSelection\<close> stores keeps the promise \<open>safe_selection\<close>, and
  what the id of a generated folder forgets about the folder's path.
\<close>

section \<open>What a check without blocking warnings shows\<close>

lemma validated_no_warnings:
  fixes actions :: "'c organization_action list"
  assumes "validatePlanActions actions files b = Inr ws" "assertNoBlockingWarnings ws = Inr ()"
  shows "ws = []"
proof -
  have blocking: "\<forall>w \<in> set ws. pw_warningType w \<in> set blockingWarningTypes"
  proof -
    obtain ef xf cf and as :: "'c organization_action list" where "(let c = foldl (check_action ef xf cf)
        \<lparr>ck_warnings = [], ck_destinations = [], ck_sources = []\<rparr> as
      in ck_warnings c @ duplicate_destinations (ck_destinations c) @ duplicate_sources (ck_sources c)) = ws"
      using assms(1) unfolding validatePlanActions_def Let_def rbind_eq_Inr sum.inject by blast
    with fold_extends[of ef xf cf "\<lparr>ck_warnings = [], ck_destinations = [], ck_sources = []\<rparr>" as] show ?thesis
      by (auto simp: Let_def duplicate_destinations_def duplicate_sources_def new_warning_def blockingWarningTypes_def)
  qed
  have "\<forall>w \<in> set ws. pw_warningType w \<notin> set blockingWarningTypes"
    using assms(2) by (auto simp: assertNoBlockingWarnings_def find_None_iff split: option.splits)
  with blocking show ?thesis by (cases ws) auto
qed

lemma has_destination_normalize [simp]: "has_destination (normalizePlanAction a) = has_destination a"
  by (simp add: has_destination_def normalizePlanAction_def Let_def)

lemma selected_flags:
  "actionIsSelectedFileAction a \<Longrightarrow> actionIsSelectableForExecution a"
  "actionIsSelectedFileAction a \<Longrightarrow> actionIsExecutableInSavedPlan a"
  "actionIsSelectedFileAction a \<Longrightarrow> has_destination a"
  by (auto simp: actionIsSelectedFileAction_def actionIsExecutableInSavedPlan_def intro: selectable_has_destination)

lemma distinct_map_weaken:
  assumes "distinct (map (\<lambda>x. f (g x)) (filter P xs))" "\<And>x. Q x \<Longrightarrow> P x"
  shows "distinct (map g (filter Q xs))"
proof -
  have "filter Q xs = filter Q (filter P xs)" using assms(2) by (induction xs) auto
  with assms(1) distinct_map_filter[of "\<lambda>x. f (g x)" "filter P xs" Q] show ?thesis
    by (auto simp: distinct_map inj_on_def)
qed

lemma validated_selection:
  assumes valid: "validatePlanActions actions files True = Inr []"
  defines "selected \<equiv> filter actionIsSelectedFileAction actions"
  shows "distinct (map source_of selected)" "distinct (map destination_of selected)"
    "\<forall>a \<in> set selected. \<exists>from d. source_of a = Inr from \<and> destination_of a = Inr d \<and> (recorded_file files d \<longrightarrow> d = from)"
    "\<forall>a \<in> set actions. actionIsExecutableInSavedPlan a \<longrightarrow> (\<forall>folder. present (oa_plannedFolderPath a) = Some folder \<longrightarrow>
       (\<exists>n. normal_path folder = Inr n \<and> \<not> recorded_file files n))"
proof -
  let ?n = "normalizePlanAction" and ?c0 = "\<lparr>ck_warnings = [], ck_destinations = [], ck_sources = []\<rparr>"
  define E where "E = filter actionIsExecutableInSavedPlan actions"
  have exec: "filter actionIsExecutableInSavedPlan (map ?n actions) = map ?n E"
    by (simp add: E_def filter_map o_def actionIsExecutableInSavedPlan_def[abs_def])
  obtain ef xf cf where ef: "existing_file_paths files = Inr ef"
    and w: "ck_warnings (foldl (check_action ef xf cf) ?c0 (map ?n E)) = []"
    and d: "duplicate_destinations (ck_destinations (foldl (check_action ef xf cf) ?c0 (map ?n E))) = []"
    and s: "duplicate_sources (ck_sources (foldl (check_action ef xf cf) ?c0 (map ?n E))) = []"
    using valid by (auto simp: validatePlanActions_def Let_def exec)
  note clean = checked_clean[OF w]
  have files: "map_of ef p \<noteq> None \<longleftrightarrow> recorded_file files p" for p by (rule map_of_existing_files[OF ef])
  have act: "clean_action ef (?n a)" if "a \<in> set E" for a using clean that by simp
  have sel_E: "a \<in> set E" if "a \<in> set selected" for a
    using that by (auto simp: selected_def E_def selected_flags)
  show ok: "\<forall>a \<in> set selected. \<exists>from d. source_of a = Inr from \<and> destination_of a = Inr d \<and> (recorded_file files d \<longrightarrow> d = from)"
  proof
    fix a
    assume a: "a \<in> set selected"
    then have flags: "has_destination a" "actionIsSelectableForExecution a" by (auto simp: selected_def selected_flags)
    with act[OF sel_E[OF a]] obtain d src where "destination_of a = Inr d" "source_of a = Inr src"
      "map_of ef d \<noteq> None \<longrightarrow> source_of a = Inr d" unfolding clean_action_def by auto
    then show "\<exists>from d. source_of a = Inr from \<and> destination_of a = Inr d \<and> (recorded_file files d \<longrightarrow> d = from)"
      unfolding files by auto
  qed
  have "distinct (map (\<lambda>a. projr (destination_of a)) (filter has_destination (map ?n E)))"
    using d clean no_duplicate_destinations[of "\<lambda>a. projr (destination_of a)" oa_id] by simp
  then have "distinct (map (\<lambda>a. projr (destination_of a)) (filter has_destination E))"
    by (simp add: filter_map o_def)
  then have "distinct (map (\<lambda>a. projr (destination_of a)) (filter (\<lambda>a. has_destination a \<and> actionIsExecutableInSavedPlan a) actions))"
    by (simp add: E_def conj_commute)
  then show dd: "distinct (map destination_of selected)"
    unfolding selected_def by (rule distinct_map_weaken) (simp add: selected_flags)
  show "distinct (map source_of selected)"
  proof (unfold distinct_map, intro conjI inj_onI)
    show "distinct selected" using dd by (simp add: distinct_map)
    fix a b
    assume a: "a \<in> set selected" and b: "b \<in> set selected" and eq: "source_of a = source_of b"
    let ?xs = "filter actionIsSelectableForExecution (map ?n E)"
    have "?n a \<in> set ?xs" "?n b \<in> set ?xs"
      using a b sel_E by (auto simp: selected_def selected_flags)
    from no_duplicate_sources[of "\<lambda>a. projr (source_of a)" oa_id "\<lambda>a. projr (destination_of a)" ?xs, OF _ this] s clean eq
    have "projr (destination_of a) = projr (destination_of b)" by simp
    with ok a b have "destination_of a = destination_of b" by (metis sum.sel(2))
    with dd a b show "a = b" by (auto simp: distinct_map dest: inj_onD)
  qed
  show "\<forall>a \<in> set actions. actionIsExecutableInSavedPlan a \<longrightarrow> (\<forall>folder. present (oa_plannedFolderPath a) = Some folder \<longrightarrow>
       (\<exists>n. normal_path folder = Inr n \<and> \<not> recorded_file files n))"
    using act unfolding E_def clean_action_def files[symmetric] by auto
qed

section \<open>Folders come first\<close>

text \<open>A locale puts a folder before what is in it.\<close>

definition path_collation :: "(string \<Rightarrow> string \<Rightarrow> int) \<Rightarrow> bool" where
  "path_collation lc \<longleftrightarrow> collation lc \<and> (\<forall>p q. lc p (p @ slash # q) < 0)"

lemma folder_before_file:
  "oa_actionType b = P_CREATE_FOLDER \<Longrightarrow> actionIsSelectedFileAction a \<Longrightarrow> before_action lc b a < 0"
  by (auto simp: before_action_def actionIsSelectedFileAction_def actionIsSelectableForExecution_def selectableFileActionTypes_def)

lemma folder_before_inner:
  assumes "path_collation lc" "folder_of q p"
  shows "before_action lc (generatedFolderActionFor q a) (generatedFolderActionFor p b) < 0"
proof -
  obtain r where "p = q @ slash # r" using assms(2) by (auto simp: folder_of_def starts_with_iff)
  with assms(1) have "lc q p < 0" by (simp add: path_collation_def)
  then show ?thesis by (simp add: before_action_def)
qed

lemma normal_path_no_root: "normal_path p = Inr n \<Longrightarrow> \<not> folder_of [] n"
  by (auto simp: normalizeBridgeRelativePath_def Let_def folder_of_def posix_isAbsolute_def starts_with_iff split: if_splits)

lemma selected_origin:
  assumes "applied_parts files requested existing candidates generated"
    and "a \<in> set (orderedActions lc (map snd generated @ candidates))" "actionIsSelectedFileAction a"
  shows "\<exists>x n. x \<in> set candidates \<and> a = x\<lparr>oa_order := n\<rparr>"
proof -
  obtain x n where x: "x \<in> set (map snd generated @ candidates)" "a = x\<lparr>oa_order := n\<rparr>"
    using assms(2) by (blast dest: orderedActions_from)
  moreover have "x \<notin> snd ` set generated" using assms(1,3) x(2) by (fastforce simp: applied_parts_def)
  ultimately show ?thesis by auto
qed

lemma selected_actions_ids:
  assumes parts: "applied_parts files requested existing candidates generated"
    and actions: "actions = orderedActions lc (map snd generated @ candidates)"
  shows "oa_id ` set (filter actionIsSelectedFileAction actions) = set (nonempty (map trim requested))"
proof -
  have "oa_id ` set (filter actionIsSelectedFileAction actions) = oa_id ` {a \<in> set candidates. actionIsSelectedFileAction a}"
  proof (intro equalityI subsetI)
    fix i
    assume "i \<in> oa_id ` set (filter actionIsSelectedFileAction actions)"
    then obtain a where a: "a \<in> set actions" "actionIsSelectedFileAction a" "i = oa_id a" by auto
    with selected_origin[OF parts, of a lc] actions show "i \<in> oa_id ` {a \<in> set candidates. actionIsSelectedFileAction a}" by force
  next
    fix i
    assume "i \<in> oa_id ` {a \<in> set candidates. actionIsSelectedFileAction a}"
    then obtain x where x: "x \<in> set candidates" "actionIsSelectedFileAction x" "i = oa_id x" by blast
    then obtain n where "x\<lparr>oa_order := n\<rparr> \<in> set actions" using orderedActions_of[of x _ lc] actions by fastforce
    with x show "i \<in> oa_id ` set (filter actionIsSelectedFileAction actions)"
      by (intro image_eqI[of _ _ "x\<lparr>oa_order := n\<rparr>"]) auto
  qed
  with parts show ?thesis by (simp add: applied_parts_def)
qed

lemma needed_folder_ready:
  assumes lc: "collation lc" and parts: "applied_parts files requested existing candidates generated"
    and actions: "actions = orderedActions lc (map snd generated @ candidates)"
    and q: "recorded_folder files q \<or> q \<in> folder_needs existing a" and a: "a \<in> set candidates" "actionIsSelectedFileAction a"
    and e: "e \<in> set actions" and less: "\<And>y. before_action lc (generatedFolderActionFor q y) e < 0"
  shows "folder_ready files actions (oa_order e) q"
proof (cases "recorded_folder files q")
  case False
  with q a parts have "q \<in> fst ` set generated" unfolding applied_parts_def by blast
  then obtain y where y: "(q, generatedFolderActionFor q y) \<in> set generated" "actionIsSelectedFileAction y"
    using parts by (force simp: applied_parts_def)
  then have "generatedFolderActionFor q y \<in> set (map snd generated @ candidates)" by force
  from orderedActions_of[OF this, of lc] obtain m where b: "(generatedFolderActionFor q y)\<lparr>oa_order := m\<rparr> \<in> set actions" (is "?b \<in> _")
    unfolding actions by blast
  have "before_action lc ?b e < 0" using less[of y] by simp
  with orderedActions_before[OF lc, of e _ ?b] e b actions have "oa_order ?b < oa_order e" by blast
  moreover have "actionIsRequiredDependency ?b" "oa_plannedFolderPath ?b = Some q" using y by simp_all
  ultimately show ?thesis using b unfolding folder_ready_def list_ex_iff by blast
qed (simp add: folder_ready_def)

lemma selected_action_safe:
  assumes lc: "collation lc" and parts: "applied_parts files requested existing candidates generated"
    and actions: "actions = orderedActions lc (map snd generated @ candidates)"
    and valid: "validatePlanActions actions files True = Inr []"
    and a: "a \<in> set actions" "actionIsSelectedFileAction a"
  shows "safe_file_action files actions a"
proof -
  note v = validated_selection[OF valid]
  obtain x m where x: "x \<in> set candidates" "a = x\<lparr>oa_order := m\<rparr>"
    using selected_origin[OF parts _ a(2)] a(1) actions by blast
  then have sx: "actionIsSelectedFileAction x" using a by simp
  have "\<exists>n. normal_path folder = Inr n \<and> \<not> recorded_file files n \<and> (\<forall>q. q = n \<or> folder_of q n \<longrightarrow> folder_ready files actions (oa_order a) q)"
    if folder: "present (oa_plannedFolderPath a) = Some folder" for folder
  proof -
    obtain n where n: "normal_path folder = Inr n" "\<not> recorded_file files n"
      using v(4) a folder selected_flags(2) by blast
    have "present (oa_plannedFolderPath x) = Some folder" using folder x by simp
    with parts sx x(1) n have needs: "folder_needs existing x = {q. (q = n \<or> folder_of q n) \<and> \<not> recorded_folder files q}"
      by (fastforce simp: applied_parts_def)
    have "folder_ready files actions (oa_order a) q" if "q = n \<or> folder_of q n" for q
      using that a needs by (intro needed_folder_ready[OF lc parts actions _ x(1) sx]) (auto intro: folder_before_file)
    with n show ?thesis by blast
  qed
  with v(3) a show ?thesis by (auto simp: safe_file_action_def)
qed

lemma generated_action_safe:
  assumes pc: "path_collation lc" and parts: "applied_parts files requested existing candidates generated"
    and actions: "actions = orderedActions lc (map snd generated @ candidates)"
    and valid: "validatePlanActions actions files True = Inr []"
    and b: "b \<in> set actions" "actionIsRequiredDependency b"
  shows "safe_folder_action files actions b"
proof -
  have lc: "collation lc" using pc by (simp add: path_collation_def)
  obtain x m where x: "x \<in> set (map snd generated @ candidates)" "b = x\<lparr>oa_order := m\<rparr>"
    using orderedActions_from[of b lc] b actions by blast
  then have "x \<notin> set candidates" using parts b by (auto simp: applied_parts_def)
  with x parts obtain p y where y: "y \<in> set candidates" "actionIsSelectedFileAction y" "x = generatedFolderActionFor p y" "p \<in> folder_needs existing y"
    by (force simp: applied_parts_def)
  then obtain folder where "present (oa_plannedFolderPath y) = Some folder" by (auto simp: folder_needs_def split: option.splits)
  with parts y obtain n where n: "normal_path folder = Inr n" "folder_needs existing y = {q. (q = n \<or> folder_of q n) \<and> \<not> recorded_folder files q}"
    unfolding applied_parts_def by blast
  have p: "oa_plannedFolderPath b = Some p" using x y by simp
  have "p \<noteq> []" using y(4) n normal_path_nonempty normal_path_no_root by auto
  then have "present (oa_plannedFolderPath b) = Some p" by (simp add: p present_def)
  moreover have "actionIsExecutableInSavedPlan b" using b by (simp add: actionIsExecutableInSavedPlan_def)
  ultimately obtain r where r: "normal_path p = Inr r" "\<not> recorded_file files r"
    using validated_selection(4)[OF valid] b by blast
  have "folder_ready files actions (oa_order b) q" if "folder_of q p" for q
    using that y n b x folder_of_trans[OF that] folder_before_inner[OF pc that]
    by (intro needed_folder_ready[OF lc parts actions _ y(1,2)]) auto
  with p r y(4) n show ?thesis by (auto simp: safe_folder_action_def)
qed

lemma safe_applied_selection:
  assumes pc: "path_collation lc"
    and applied: "applyActionSelection lc stored requested files = Inr actions"
    and valid: "validatePlanActions actions files True = Inr []"
  shows "safe_selection requested files actions"
proof -
  have lc: "collation lc" using pc by (simp add: path_collation_def)
  obtain existing candidates generated where actions: "actions = orderedActions lc (map snd generated @ candidates)"
    and parts: "applied_parts files requested existing candidates generated"
    by (rule apply_selection[OF applied])
  have ids: "oa_id ` set (filter actionIsSelectedFileAction actions) = set (nonempty (map trim requested))"
    by (rule selected_actions_ids[OF parts actions])
  moreover have "filter actionIsSelectedFileAction actions \<noteq> []" using ids parts by (force simp: applied_parts_def)
  moreover have "map oa_order actions = [1 ..< Suc (length actions)]"
    unfolding actions by (simp add: orders_orderedActions del: upt_Suc)
  ultimately show ?thesis
    using validated_selection(1,2)[OF valid] selected_action_safe[OF lc parts actions valid]
      generated_action_safe[OF pc parts actions valid]
    by (simp add: safe_selection_def Let_def del: upt_Suc)
qed

section \<open>Saving\<close>

lemma write_unchanged:
  assumes "writeUnchangedPlan existing change verify historical db = (Inr (), db')"
  obtains p where "p \<in> set (db_plans db)" "sp_id p = sp_id existing" "sp_updatedAt p = sp_updatedAt existing"
    "sp_status p = normalizePlanStatus (sp_status existing)" "\<not> execution_blocks db (sp_id existing)"
    "(change p)\<lparr>sp_updatedAt := db_clock db\<rparr> \<in> set (db_plans db')"
proof -
  let ?hit = "plan_matches db (sp_id existing) (normalizePlanStatus (sp_status existing)) (sp_updatedAt existing)"
  have one: "length (filter ?hit (db_plans db)) = 1"
    and db': "db' = db\<lparr>db_plans := map (\<lambda>p. if ?hit p then (change p)\<lparr>sp_updatedAt := db_clock db\<rparr> else p) (db_plans db)\<rparr>"
    using assms by (auto simp: writeUnchangedPlan_def update_plan_def Let_def split: if_splits option.splits sum.splits)
  from one have "filter ?hit (db_plans db) \<noteq> []" by auto
  then obtain p where p: "p \<in> set (db_plans db)" "?hit p" unfolding filter_empty_conv by blast
  then have "(change p)\<lparr>sp_updatedAt := db_clock db\<rparr> \<in> set (db_plans db')" unfolding db' by force
  with p that show ?thesis by (auto simp: plan_matches_def)
qed

lemma saved_selection:
  assumes "saveOrganizationPlanSelection lc planId requested db1 db2 db3 db4 db5 = (Inr (), db')"
  obtains existing files actions change where
    "planById db1 planId = Some existing" "planScannedFiles db3 existing = Inr files"
    "applyActionSelection lc (sp_actions existing) requested files = Inr actions"
    "validatePlanActions actions files True = Inr []"
    "writeUnchangedPlan existing change (Some actions) False db5 = (Inr (), db')"
    "\<And>p. sp_id (change p) = sp_id p" "\<And>p. sp_status (change p) = sp_status p" "\<And>p. sp_actions (change p) = actions"
    "normalizePlanStatus (sp_status existing) = ''DRAFT''"
proof -
  obtain existing files actions ws where e: "require_plan db1 planId = Inr existing" "require_draft existing = Inr ()"
    "planScannedFiles db3 existing = Inr files"
    "applyActionSelection lc (sp_actions existing) requested files = Inr actions"
    "validatePlanActions actions files True = Inr ws" "assertNoBlockingWarnings ws = Inr ()"
    and w: "writeUnchangedPlan existing
         (\<lambda>p. p\<lparr>sp_actions := actions, sp_totalActions := length actions, sp_warnings := ws,
           sp_history := appendPlanHistory db4 existing ''Selected actions saved''
             (selection_saved_detail (su_selectedFileActions (planSummary actions ws)))\<rparr>)
         (Some actions) False db5 = (Inr (), db')"
    using assms unfolding saveOrganizationPlanSelection_def transact_def by (auto split: sum.splits)
  have "ws = []" using validated_no_warnings e by blast
  moreover have "planById db1 planId = Some existing" using e(1) by (auto simp: require_plan_def split: option.splits)
  moreover have "normalizePlanStatus (sp_status existing) = ''DRAFT''" using e(2) by (auto simp: require_draft_def split: if_splits)
  ultimately show ?thesis using e(5) by (intro that[OF _ e(3,4) _ w]) simp_all
qed

text \<open>
  C11. A saved selection is safe. When \<open>saveOrganizationPlanSelection\<close> succeeds, whatever happened to the
  database between its reads, the stored draft selects exactly the requested file actions; no two of
  them share a source or a destination; a destination that the scan recorded is the action's own
  source; and every folder on the way to a destination was recorded or is made by an action with a
  smaller number, which is itself made inside folders that are there by then. \<open>localeCompare\<close> is
  assumed to be a total order of the strings (\<open>collation\<close>) which puts a folder
  before everything inside it (\<open>path_collation\<close>).
\<close>

theorem saved_selection_is_safe:
  assumes "path_collation localeCompare"
    and "saveOrganizationPlanSelection localeCompare planId requested db1 db2 db3 db4 db5 = (Inr (), db')"
  shows "\<exists>p existing files. p \<in> set (db_plans db') \<and> sp_id p = planId \<and> sp_status p = ''DRAFT'' \<and>
    planById db1 planId = Some existing \<and> planScannedFiles db3 existing = Inr files \<and>
    safe_selection requested files (sp_actions p)"
proof (rule saved_selection[OF assms(2)])
  fix existing files actions and change :: "'a stored_plan \<Rightarrow> 'a stored_plan"
  assume e: "planById db1 planId = Some existing" "planScannedFiles db3 existing = Inr files"
    and a: "applyActionSelection localeCompare (sp_actions existing) requested files = Inr actions"
      "validatePlanActions actions files True = Inr []"
    and w: "writeUnchangedPlan existing change (Some actions) False db5 = (Inr (), db')"
    and ch: "\<And>p. sp_id (change p) = sp_id p" "\<And>p. sp_status (change p) = sp_status p" "\<And>p. sp_actions (change p) = actions"
    and draft: "normalizePlanStatus (sp_status existing) = ''DRAFT''"
  obtain p where p: "sp_id p = sp_id existing" "sp_status p = normalizePlanStatus (sp_status existing)"
    "(change p)\<lparr>sp_updatedAt := db_clock db5\<rparr> \<in> set (db_plans db')"
    by (rule write_unchanged[OF w])
  have "sp_id existing = planId" using e(1) by (auto simp: planById_def find_Some_iff)
  with e p ch draft safe_applied_selection[OF assms(1) a] show ?thesis
    by (intro exI[of _ "(change p)\<lparr>sp_updatedAt := db_clock db5\<rparr>"] exI[of _ existing] exI[of _ files]) simp
qed

section \<open>An example\<close>

lemma code_unit_prefix: "code_unit_compare p (p @ c # q) = - 1"
  by (induction p) simp_all

lemma code_unit_path_collation: "path_collation code_unit_compare"
proof -
  have "code_unit_compare a c \<le> 0" if "code_unit_compare a b \<le> 0" "code_unit_compare b c \<le> 0" for a b c
    using that code_unit_compare_trans[of a b c] code_unit_compare_zero[of a b] code_unit_compare_zero[of b c]
    by (cases "a = b"; cases "b = c") fastforce+
  then show ?thesis
    by (auto simp: path_collation_def collation_def code_unit_compare_zero code_unit_prefix)
      (metis code_unit_compare_swap neg_0_less_iff_less neg_less_0_iff_less)+
qed

lemma sample_saved:
  "fst (saveOrganizationPlanSelection code_unit_compare ''p'' [''1''] sample_plan_db sample_plan_db sample_plan_db sample_plan_db sample_plan_db) = Inr ()"
  by code_simp

theorem saved_selection_is_safe_witness:
  "\<exists>p existing files. p \<in> set (db_plans (snd (saveOrganizationPlanSelection code_unit_compare ''p'' [''1'']
      sample_plan_db sample_plan_db sample_plan_db sample_plan_db sample_plan_db))) \<and> sp_id p = ''p'' \<and> sp_status p = ''DRAFT'' \<and>
    planById sample_plan_db ''p'' = Some existing \<and> planScannedFiles sample_plan_db existing = Inr files \<and>
    safe_selection [''1''] files (sp_actions p)"
  by (rule saved_selection_is_safe[OF code_unit_path_collation]) (rule prod_eqI; simp only: sample_saved prod.sel)

section \<open>What ids and paths forget\<close>

text \<open>
  Distinct folders can share the id of their actions, and normalising a path is not idempotent: the text is
  trimmed before \<open>posix.normalize\<close> drops a leading \<open>./\<close>, so a second normalisation trims again.
\<close>

lemma folder_ids_collide:
  "oa_id (generatedFolderActionFor ''Clients/2024'' a) = oa_id (generatedFolderActionFor ''Clients-2024'' a)"
proof -
  have "stableId ''action-folder'' [''Clients/2024''] = stableId ''action-folder'' [''Clients-2024'']" by code_simp
  then show ?thesis by (simp add: generatedFolderActionFor_def)
qed

lemma normal_path_not_idempotent: "normal_path ''./ x'' = Inr '' x'' \<and> normal_path '' x'' = Inr ''x''"
  by code_simp

end
