(* ===== verification/PlanLife.thy ===== *)
theory PlanLife
  imports PlannerFacts
begin

text \<open>
  The life of plan rows under any interleaving of requests: every request reads states of the past
  and writes the present one. The other writers of plan rows are the admission and the outcome of an
  execution, the recovery of one on this computer, and the resets of suggestion decisions. Rows stay well
  typed, a plan that waits for its execution has something to execute, and a plan that an execution owns is
  not rewritten.
\<close>

section \<open>Requests\<close>

datatype plan_request =
  Generate string | Save string "string list" | Clear string | Approve string | Cancel string

text \<open>The states that a request reads before its transaction are \<open>read 1\<close>, \<open>read 2\<close>, and so on.\<close>

fun plan_change ::
  "(string \<Rightarrow> string \<Rightarrow> int) \<Rightarrow> plan_request \<Rightarrow> (nat \<Rightarrow> 'c plan_db) \<Rightarrow> 'c plan_db \<Rightarrow> (plan_error, unit) result \<times> 'c plan_db" where
  "plan_change lc (Generate s) read db = generateOrganizationPlanForScanSession lc s (read 1) db"
| "plan_change lc (Save p ids) read db = saveOrganizationPlanSelection lc p ids (read 1) (read 2) (read 3) (read 4) db"
| "plan_change lc (Clear p) read db = clearOrganizationPlanSelection lc p (read 1) (read 2) (read 3) db"
| "plan_change lc (Approve p) read db = approveOrganizationPlan p (read 1) (read 2) (read 3) db"
| "plan_change lc (Cancel p) read db = cancelOrganizationPlan p (read 1) db"

section \<open>Well-typed rows\<close>

definition action_typed :: "'c organization_action \<Rightarrow> bool" where
  "action_typed a \<longleftrightarrow>
     oa_selectableForExecution a = actionIsSelectableForExecution a \<and>
     (oa_requiredForSelectedActions a \<longrightarrow> oa_actionType a = P_CREATE_FOLDER) \<and>
     oa_requiredFolderPaths a \<noteq> None \<and>
     (oa_selectedForExecution a \<longrightarrow> oa_executionRole a \<in> {Some FILE_ACTION, Some FOLDER_DEPENDENCY}) \<and>
     oa_executionRole a = Some (if oa_requiredForSelectedActions a then FOLDER_DEPENDENCY
       else if actionIsSelectedFileAction a then FILE_ACTION
       else if actionIsSelectableForExecution a then UNSELECTED_CANDIDATE else ROLE_REVIEW_ONLY)"

definition plan_typed :: "'c stored_plan \<Rightarrow> bool" where
  "plan_typed p \<longleftrightarrow>
     sp_status p \<in> {''DRAFT'', ''READY_FOR_EXECUTION'', ''EXECUTED'', ''CANCELLED''} \<and> sp_totalActions p = length (sp_actions p) \<and>
     map oa_order (sp_actions p) = [1 ..< Suc (length (sp_actions p))] \<and>
     (\<forall>a \<in> set (sp_actions p). action_typed a) \<and> length (sp_history p) \<le> 20"

lemma typed_stamp [simp]: "plan_typed (p\<lparr>sp_updatedAt := t\<rparr>) = plan_typed p"
  by (simp add: plan_typed_def)

definition has_selection :: "'c stored_plan \<Rightarrow> bool" where
  "has_selection p \<longleftrightarrow> list_ex actionIsSelectedFileAction (sp_actions p)"

lemma typed_normalize [simp]: "action_typed (normalizePlanAction a)"
proof -
  have "actionIsSelectableForExecution (normalizePlanAction a) = actionIsSelectableForExecution a"
    "actionIsSelectedFileAction (normalizePlanAction a) = actionIsSelectedFileAction a" by simp_all
  then show ?thesis unfolding action_typed_def
    by (simp add: normalizePlanAction_def Let_def actionIsSelectedFileAction_def)
qed

lemma typed_updates [simp]:
  "action_typed (a\<lparr>oa_order := n\<rparr>) = action_typed a"
  "action_typed a \<Longrightarrow> action_typed (a\<lparr>oa_requiredFolderPaths := Some v\<rparr>)"
  by (auto simp: action_typed_def split: if_splits)

lemma typed_generated [simp]: "action_typed (generatedFolderActionFor p a)"
proof -
  have "\<not> actionIsSelectableForExecution (generatedFolderActionFor p a)"
    by (simp add: actionIsSelectableForExecution_def selectableFileActionTypes_def)
  then show ?thesis by (simp add: action_typed_def generatedFolderActionFor_def)
qed

lemma typed_ordered: "\<forall>a \<in> set as. action_typed a \<Longrightarrow> \<forall>a \<in> set (orderedActions lc as). action_typed a"
  using orderedActions_from by fastforce

lemma typed_with_folders:
  assumes "withGeneratedFolderActionsForSelection as files = Inr updated"
  shows "\<forall>a \<in> set updated. action_typed a"
proof -
  obtain existing candidates generated
    where cands: "map_result (required_folders existing) (storedCandidateActions as) = Inr candidates"
    and gen: "generate_folders existing (filter actionIsSelectedFileAction candidates) [] = Inr generated"
    and updated: "updated = map snd generated @ candidates"
    using assms by (auto simp: withGeneratedFolderActionsForSelection_def withRequiredFolderPaths_def)
  have c: "action_typed a \<and> oa_requiredFolderPaths a \<noteq> None" if a: "a \<in> set candidates" for a
  proof -
    obtain c where "c \<in> set (storedCandidateActions as)" "required_folders existing c = Inr a"
      using map_result_mem[OF cands a] by blast
    with required_folders_flags[OF this(2)] show ?thesis by (auto simp: stored_candidate)
  qed
  then have "\<forall>a \<in> set (filter actionIsSelectedFileAction candidates). oa_requiredFolderPaths a \<noteq> None" by simp
  from generate_folders_result[OF gen this] have "\<forall>(p, b) \<in> set generated. action_typed b" by fastforce
  with c show ?thesis by (auto simp: updated)
qed

lemma typed_applied: "applyActionSelection lc stored ids files = Inr actions \<Longrightarrow> \<forall>a \<in> set actions. action_typed a"
  by (auto simp: applyActionSelection_def Let_def dest!: typed_with_folders dest: bspec[OF typed_ordered])

lemma typed_cleared: "\<forall>a \<in> set (clearActionSelection lc as). action_typed a"
  unfolding clearActionSelection_def by (rule typed_ordered) (auto simp: typed_normalize)

lemma orders_cleared: "map oa_order (clearActionSelection lc as) = [1 ..< Suc (length (clearActionSelection lc as))]"
  by (simp add: clearActionSelection_def orders_orderedActions del: upt_Suc)

lemma length_last_twenty: "length (last_twenty xs) \<le> 20"
  by (simp add: last_twenty_def)

lemma orders_applied:
  "applyActionSelection lc stored ids files = Inr actions \<Longrightarrow> map oa_order actions = [1 ..< Suc (length actions)]"
  by (auto simp: applyActionSelection_def Let_def orders_orderedActions simp del: upt_Suc)

section \<open>What a request does to the rows\<close>

text \<open>
  A change of the row that was seen with this id, status and stamp: it keeps the id and the typing,
  and makes a row ready only when the row that was seen had a selection.
\<close>

definition good_change ::
  "'c plan_db \<Rightarrow> string \<Rightarrow> string \<Rightarrow> int \<Rightarrow> ('c stored_plan \<Rightarrow> 'c stored_plan) \<Rightarrow> bool" where
  "good_change seen i status stamp change \<longleftrightarrow>
     (\<forall>p. sp_id (change p) = sp_id p) \<and> (\<forall>p. plan_typed p \<longrightarrow> plan_typed (change p)) \<and>
     (\<forall>p. sp_status p = status \<longrightarrow> sp_status (change p) = ''READY_FOR_EXECUTION'' \<longrightarrow>
        sp_actions (change p) = sp_actions p \<and>
        (\<exists>e \<in> set (db_plans seen). sp_id e = i \<and> sp_updatedAt e = stamp \<and> has_selection e))"

definition rewritten_row ::
  "'c plan_db \<Rightarrow> string \<Rightarrow> string \<Rightarrow> int \<Rightarrow> ('c stored_plan \<Rightarrow> 'c stored_plan) \<Rightarrow> 'c plan_db \<Rightarrow> bool" where
  "rewritten_row db i status stamp change db' \<longleftrightarrow>
     length (filter (plan_matches db i status stamp) (db_plans db)) = 1 \<and>
     db' = db\<lparr>db_plans := map (\<lambda>p. if plan_matches db i status stamp p then (change p)\<lparr>sp_updatedAt := db_clock db\<rparr> else p) (db_plans db)\<rparr>"

inductive plan_effect :: "'c plan_db \<Rightarrow> 'c plan_db \<Rightarrow> (plan_error, unit) result \<Rightarrow> 'c plan_db \<Rightarrow> bool" for seen db where
  effect_failed: "plan_effect seen db (Inl e) db"
| effect_new: "sp_id p = db_newId db \<Longrightarrow> sp_status p = ''DRAFT'' \<Longrightarrow> plan_typed p \<Longrightarrow>
    plan_effect seen db (Inr ()) (db\<lparr>db_plans := db_plans db @ [p]\<rparr>)"
| effect_row: "good_change seen i status stamp change \<Longrightarrow> rewritten_row db i status stamp change db' \<Longrightarrow>
    plan_effect seen db (Inr ()) db'"

lemma write_effect:
  assumes "writeUnchangedPlan existing change verify historical db = (r, db')"
    and "good_change seen (sp_id existing) (normalizePlanStatus (sp_status existing)) (sp_updatedAt existing) change"
  shows "plan_effect seen db r db'"
proof (cases r)
  case (Inl e)
  then have "db' = db" using assms(1)
    by (auto simp: writeUnchangedPlan_def update_plan_def Let_def split: if_splits option.splits sum.splits)
  with Inl show ?thesis by (simp add: effect_failed)
next
  case (Inr u)
  then have "rewritten_row db (sp_id existing) (normalizePlanStatus (sp_status existing)) (sp_updatedAt existing) change db'"
    using assms(1)
    by (auto simp: writeUnchangedPlan_def update_plan_def Let_def rewritten_row_def split: if_splits option.splits sum.splits)
  from effect_row[OF assms(2) this] Inr show ?thesis by simp
qed

lemma transact_effect:
  assumes "transact prepared db = (r, db')"
    and "\<And>f. prepared = Inr f \<Longrightarrow> f db = (r, db') \<Longrightarrow> plan_effect seen db r db'"
  shows "plan_effect seen db r db'"
  using assms by (cases prepared) (auto simp: transact_def intro: effect_failed)

text \<open>A new list of typed actions in a draft.\<close>

lemma actions_change:
  assumes "normalizePlanStatus (sp_status existing) = ''DRAFT''"
    and "\<forall>a \<in> set actions. action_typed a" "map oa_order actions = [1 ..< Suc (length actions)]" "length history \<le> 20"
  shows "good_change seen i (normalizePlanStatus (sp_status existing)) stamp
    (\<lambda>p. p\<lparr>sp_actions := actions, sp_totalActions := length actions, sp_warnings := ws, sp_history := history\<rparr>)"
  using assms by (simp add: good_change_def plan_typed_def del: upt_Suc)

lemma save_effect:
  assumes "saveOrganizationPlanSelection lc planId ids seen db2 db3 db4 db = (r, db')"
  shows "plan_effect seen db r db'"
  using assms unfolding saveOrganizationPlanSelection_def
proof (rule transact_effect)
  fix f
  assume "rbind (require_plan seen planId) (\<lambda>existing.
       rbind (require_draft existing) (\<lambda>_.
       rbind (requirePlanningPermission db2 (sp_scanSessionId existing)) (\<lambda>_.
       rbind (planScannedFiles db3 existing) (\<lambda>scannedFiles.
       rbind (applyActionSelection lc (sp_actions existing) ids scannedFiles) (\<lambda>actions.
       rbind (validatePlanActions actions scannedFiles True) (\<lambda>warnings.
       rbind (assertNoBlockingWarnings warnings) (\<lambda>_.
       rbind (assertSelectedActionsMatchCurrentRecommendations db4 (sp_scanSessionId existing) actions) (\<lambda>_.
       Inr (writeUnchangedPlan existing
         (\<lambda>p. p\<lparr>sp_actions := actions, sp_totalActions := length actions, sp_warnings := warnings,
           sp_history := appendPlanHistory db4 existing ''Selected actions saved''
             (selection_saved_detail (su_selectedFileActions (planSummary actions warnings)))\<rparr>)
         (Some actions) False))))))))) = Inr f" and f: "f db = (r, db')"
  then obtain existing files actions ws where e: "require_draft existing = Inr ()"
    "applyActionSelection lc (sp_actions existing) ids files = Inr actions"
    and w: "f = writeUnchangedPlan existing
         (\<lambda>p. p\<lparr>sp_actions := actions, sp_totalActions := length actions, sp_warnings := ws,
           sp_history := appendPlanHistory db4 existing ''Selected actions saved''
             (selection_saved_detail (su_selectedFileActions (planSummary actions ws)))\<rparr>) (Some actions) False"
    by auto
  have "normalizePlanStatus (sp_status existing) = ''DRAFT''" using e(1) by (auto simp: require_draft_def split: if_splits)
  from actions_change[OF this typed_applied[OF e(2)] orders_applied[OF e(2)]] show "plan_effect seen db r db'"
    by (intro write_effect[OF f[unfolded w]]) (simp add: appendPlanHistory_def length_last_twenty)
qed

lemma clear_effect:
  assumes "clearOrganizationPlanSelection lc planId seen db2 db3 db = (r, db')"
  shows "plan_effect seen db r db'"
  using assms unfolding clearOrganizationPlanSelection_def
proof (rule transact_effect)
  fix f
  assume "rbind (require_plan seen planId) (\<lambda>existing.
       rbind (require_draft existing) (\<lambda>_.
       rbind (requirePlanningPermission db2 (sp_scanSessionId existing)) (\<lambda>_.
       rbind (planScannedFiles db3 existing) (\<lambda>scannedFiles.
       let actions = clearActionSelection lc (sp_actions existing) in
       rbind (validatePlanActions actions scannedFiles False) (\<lambda>warnings.
       Inr (writeUnchangedPlan existing
         (\<lambda>p. p\<lparr>sp_actions := actions, sp_totalActions := length actions, sp_warnings := warnings,
           sp_history := appendPlanHistory db3 existing ''Selection cleared''
             ''Deanne cleared the selected file actions. No filesystem action occurred.''\<rparr>)
         (Some actions) False)))))) = Inr f" and f: "f db = (r, db')"
  then obtain existing ws where e: "require_draft existing = Inr ()"
    and w: "f = writeUnchangedPlan existing
         (\<lambda>p. p\<lparr>sp_actions := clearActionSelection lc (sp_actions existing),
           sp_totalActions := length (clearActionSelection lc (sp_actions existing)), sp_warnings := ws,
           sp_history := appendPlanHistory db3 existing ''Selection cleared''
             ''Deanne cleared the selected file actions. No filesystem action occurred.''\<rparr>)
         (Some (clearActionSelection lc (sp_actions existing))) False"
    by (auto simp: Let_def)
  have "normalizePlanStatus (sp_status existing) = ''DRAFT''" using e by (auto simp: require_draft_def split: if_splits)
  then show "plan_effect seen db r db'"
    by (intro write_effect[OF f[unfolded w]] actions_change typed_cleared orders_cleared)
      (simp_all add: appendPlanHistory_def length_last_twenty)
qed

lemma approve_effect:
  assumes "approveOrganizationPlan planId seen db2 db3 db = (r, db')"
  shows "plan_effect seen db r db'"
  using assms unfolding approveOrganizationPlan_def
proof (rule transact_effect)
  fix f
  assume "rbind (require_plan seen planId) (\<lambda>existing.
       rbind (if sp_status existing \<in> {''DRAFT'', ''READY_FOR_EXECUTION''} then Inr ()
         else Inl (Plan_error ''This plan is no longer available for approval.'' 409)) (\<lambda>_.
       let actions = map normalizePlanAction (sp_actions existing) in
       rbind (if filter actionIsSelectedFileAction actions = []
         then Inl (Plan_error ''Select and save at least one file action before approving the Organization Plan.'' 422)
         else Inr ()) (\<lambda>_.
       rbind (requirePlanningPermission db2 (sp_scanSessionId existing)) (\<lambda>_.
       rbind (case db_preview db3 (sp_id existing) of None \<Rightarrow> Inr () | Some e \<Rightarrow> Inl e) (\<lambda>_.
       Inr (writeUnchangedPlan existing
         (\<lambda>p. p\<lparr>sp_status := ''READY_FOR_EXECUTION'',
           sp_history := appendPlanHistory db3 existing ''Plan approved''
             ''Deanne marked the plan ready for future execution. No filesystem action occurred.''\<rparr>)
         (Some actions) False)))))) = Inr f" and f: "f db = (r, db')"
  then obtain existing where e: "require_plan seen planId = Inr existing"
      "filter actionIsSelectedFileAction (map normalizePlanAction (sp_actions existing)) \<noteq> []"
    and w: "f = writeUnchangedPlan existing
         (\<lambda>p. p\<lparr>sp_status := ''READY_FOR_EXECUTION'',
           sp_history := appendPlanHistory db3 existing ''Plan approved''
             ''Deanne marked the plan ready for future execution. No filesystem action occurred.''\<rparr>)
         (Some (map normalizePlanAction (sp_actions existing))) False"
    by (auto simp: Let_def split: if_splits)
  have "existing \<in> set (db_plans seen)" using e(1) by (auto simp: require_plan_def planById_def find_Some_iff split: option.splits)
  moreover have "has_selection existing" using e(2) by (auto simp: has_selection_def list_ex_iff filter_empty_conv)
  ultimately show "plan_effect seen db r db'"
    by (intro write_effect[OF f[unfolded w]]) (auto simp: good_change_def plan_typed_def appendPlanHistory_def length_last_twenty)
qed

lemma cancel_effect:
  assumes "cancelOrganizationPlan planId seen db = (r, db')"
  shows "plan_effect seen db r db'"
  using assms unfolding cancelOrganizationPlan_def
  by (rule transact_effect)
    (auto simp: good_change_def plan_typed_def appendPlanHistory_def length_last_twenty intro!: write_effect)

lemma snapshot_typed:
  assumes "buildPlanSnapshot lc now suggestions files history = Inr s"
  shows "plan_typed (snapshot_into library session s p)"
proof -
  obtain unordered candidates where "withGeneratedFolderActionsForSelection candidates files = Inr unordered"
    "sn_actions s = orderedActions lc unordered" "sn_totalActions s = length (sn_actions s)" "length (sn_history s) \<le> 20"
    using assms by (auto simp: buildPlanSnapshot_def Let_def length_last_twenty split: prod.splits)
  with typed_ordered[OF typed_with_folders[OF this(1)], of lc] show ?thesis
    by (simp add: plan_typed_def snapshot_into_def orders_orderedActions del: upt_Suc)
qed

lemma generate_effect:
  assumes "generateOrganizationPlanForScanSession lc session db1 db = (r, db')"
  shows "plan_effect seen db r db'"
  using assms unfolding generateOrganizationPlanForScanSession_def
proof (rule transact_effect)
  fix f
  assume "rbind (requirePlanningPermission db1 session) (\<lambda>_. Inr (generate_in lc session)) = Inr f" and f: "f db = (r, db')"
  then have g: "generate_in lc session db = (r, db')" by auto
  show "plan_effect seen db r db'"
  proof (cases r)
    case (Inl e)
    then have "db' = db" using g
      by (auto simp: generate_in_def Let_def split: option.splits sum.splits if_splits prod.splits)
    with Inl show ?thesis by (simp add: effect_failed)
  next
    case (Inr u)
    let ?previous = "currentPlanForScanSession db session"
    obtain sc where sc: "find (\<lambda>s. sc_id s = session) (db_sessions db) = Some sc" "sc_library sc \<in> set (db_readable db)"
      using g Inr by (auto simp: generate_in_def split: option.splits if_splits)
    obtain snapshot where s: "buildPlanSnapshot lc (db_iso db) (filter (\<lambda>s. sg_scanSessionId s = session) (db_suggestions db))
        (sc_scannedFiles sc) (case ?previous of None \<Rightarrow> [] | Some p \<Rightarrow> sp_history p) = Inr snapshot"
      using g Inr sc by (auto simp: generate_in_def Let_def split: sum.splits)
    have out: "(case ?previous of
            Some p \<Rightarrow> rewritten_row db (sp_id p) (sp_status p) (sp_updatedAt p) (snapshot_into (sc_library sc) session snapshot) db'
          | None \<Rightarrow> db' = db\<lparr>db_plans := db_plans db @
              [snapshot_into (sc_library sc) session snapshot (empty_plan (db_newId db) (db_clock db))]\<rparr>)"
      using g Inr sc s
      by (auto simp: generate_in_def Let_def update_plan_def rewritten_row_def split: option.splits if_splits)
    show ?thesis
    proof (cases ?previous)
      case None
      let ?row = "snapshot_into (sc_library sc) session snapshot (empty_plan (db_newId db) (db_clock db))"
      have "sp_id ?row = db_newId db" "sp_status ?row = ''DRAFT''" by (simp_all add: snapshot_into_def empty_plan_def)
      from effect_new[OF this snapshot_typed[OF s]] None out Inr show ?thesis by simp
    next
      case (Some p)
      have "good_change seen (sp_id p) (sp_status p) (sp_updatedAt p) (snapshot_into (sc_library sc) session snapshot)"
        using snapshot_typed[OF s] by (auto simp: good_change_def) (auto simp: snapshot_into_def)
      with out Some Inr show ?thesis by (auto intro: effect_row)
    qed
  qed
qed

lemma plan_change_effect: "plan_change lc r read db = (res, db') \<Longrightarrow> plan_effect (read 1) db res db'"
  by (cases r) (auto intro: save_effect clear_effect approve_effect cancel_effect generate_effect simp del: One_nat_def)

section \<open>One row at a time\<close>

lemma rewritten_row_split:
  assumes "rewritten_row db i status stamp change db'"
  obtains us q vs where "db_plans db = us @ q # vs" "plan_matches db i status stamp q"
    "db' = db\<lparr>db_plans := us @ (change q)\<lparr>sp_updatedAt := db_clock db\<rparr> # vs\<rparr>"
proof -
  let ?hit = "plan_matches db i status stamp"
  obtain q where "filter ?hit (db_plans db) = [q]"
    using assms by (auto simp: rewritten_row_def length_Suc_conv)
  then obtain us vs where split: "db_plans db = us @ q # vs" "\<forall>u \<in> set us. \<not> ?hit u" "?hit q" "filter ?hit vs = []"
    by (auto simp: filter_eq_Cons_iff)
  have "db' = db\<lparr>db_plans := map (\<lambda>p. if ?hit p then (change p)\<lparr>sp_updatedAt := db_clock db\<rparr> else p) (us @ q # vs)\<rparr>"
    using assms split(1) by (simp add: rewritten_row_def)
  also have "map (\<lambda>p. if ?hit p then (change p)\<lparr>sp_updatedAt := db_clock db\<rparr> else p) (us @ q # vs) =
      us @ (change q)\<lparr>sp_updatedAt := db_clock db\<rparr> # vs"
    using split(2-4) by (auto simp: filter_empty_conv intro: map_idI)
  finally show ?thesis using split that by blast
qed

text \<open>
  A planning request changes at most one row. A failed request leaves the database as it was. A
  successful one appends a draft under a fresh id, or rewrites exactly one row, which it stamps with the time of
  the write and whose id it keeps, and that row is not owned by an execution.
\<close>

theorem plan_change_touches_one_row:
  "case plan_change localeCompare request read db of (result, db') \<Rightarrow>
     (case result of
        Inl e \<Rightarrow> db' = db
      | Inr _ \<Rightarrow> (\<exists>p. db' = db\<lparr>db_plans := db_plans db @ [p]\<rparr> \<and> sp_id p = db_newId db \<and> sp_status p = ''DRAFT'') \<or>
          (\<exists>us q v vs. db_plans db = us @ q # vs \<and> db' = db\<lparr>db_plans := us @ v # vs\<rparr> \<and> sp_id v = sp_id q \<and>
             sp_updatedAt v = db_clock db \<and> \<not> execution_blocks db (sp_id q)))"
proof -
  obtain result db' where r: "plan_change localeCompare request read db = (result, db')" by fastforce
  from plan_change_effect[OF r]
  have "case result of
        Inl e \<Rightarrow> db' = db
      | Inr _ \<Rightarrow> (\<exists>p. db' = db\<lparr>db_plans := db_plans db @ [p]\<rparr> \<and> sp_id p = db_newId db \<and> sp_status p = ''DRAFT'') \<or>
          (\<exists>us q v vs. db_plans db = us @ q # vs \<and> db' = db\<lparr>db_plans := us @ v # vs\<rparr> \<and> sp_id v = sp_id q \<and>
             sp_updatedAt v = db_clock db \<and> \<not> execution_blocks db (sp_id q))"
  proof cases
    case (effect_row i status stamp change)
    obtain us q vs where "db_plans db = us @ q # vs" "plan_matches db i status stamp q"
      "db' = db\<lparr>db_plans := us @ (change q)\<lparr>sp_updatedAt := db_clock db\<rparr> # vs\<rparr>"
      by (rule rewritten_row_split[OF effect_row(3)])
    moreover from this effect_row(2) have "sp_id (change q) = sp_id q" "\<not> execution_blocks db (sp_id q)"
      by (auto simp: plan_matches_def good_change_def)
    ultimately have "\<exists>us q v vs. db_plans db = us @ q # vs \<and> db' = db\<lparr>db_plans := us @ v # vs\<rparr> \<and> sp_id v = sp_id q \<and>
             sp_updatedAt v = db_clock db \<and> \<not> execution_blocks db (sp_id q)"
      by (intro exI[of _ us] exI[of _ q] exI[of _ "(change q)\<lparr>sp_updatedAt := db_clock db\<rparr>"] exI[of _ vs] conjI) simp_all
    then show ?thesis unfolding effect_row(1) sum.case by (rule disjI2)
  qed auto
  with r show ?thesis by simp
qed

section \<open>The other writers\<close>

text \<open>
  A reset of suggestion decisions cancels the plans of the scan that wait for a person and that no execution owns.
\<close>

definition cancelPlansOfSession :: "string \<Rightarrow> 'c plan_db \<Rightarrow> 'c plan_db" where
  "cancelPlansOfSession scanSessionId db =
     db\<lparr>db_plans := map (\<lambda>p.
       if sp_scanSessionId p = scanSessionId \<and> sp_status p \<in> {''DRAFT'', ''READY_FOR_EXECUTION''} \<and> \<not> execution_blocks db (sp_id p)
       then p\<lparr>sp_status := ''CANCELLED'', sp_updatedAt := db_clock db\<rparr> else p) (db_plans db)\<rparr>"

text \<open>
  The outcome of an execution, reported by a device or recovered on this computer. Both hold the lock of
  a run that is still pending or running, so the status of the plan is the one that they read.
\<close>

definition setPlanStatus :: "string \<Rightarrow> (string \<Rightarrow> string) \<Rightarrow> 'c plan_db \<Rightarrow> 'c plan_db" where
  "setPlanStatus planId status db =
     db\<lparr>db_plans := map (\<lambda>p. if sp_id p = planId then p\<lparr>sp_status := status (sp_status p), sp_updatedAt := db_clock db\<rparr> else p)
       (db_plans db)\<rparr>"

definition planStatusAfterReport :: "nat \<Rightarrow> string \<Rightarrow> string \<Rightarrow> string" where
  "planStatusAfterReport completedActions status planStatus =
     (if 0 < completedActions \<or> status = ''COMPLETED'' then ''EXECUTED'' else planStatus)"

definition planReported :: "string \<Rightarrow> nat \<Rightarrow> string \<Rightarrow> 'c plan_db \<Rightarrow> 'c plan_db" where
  "planReported planId completedActions status = setPlanStatus planId (planStatusAfterReport completedActions status)"

definition planRecovered :: "string \<Rightarrow> nat \<Rightarrow> 'c plan_db \<Rightarrow> 'c plan_db" where
  "planRecovered planId success db = (if success = 0 then db else setPlanStatus planId (\<lambda>_. ''EXECUTED'') db)"

inductive plan_status_write :: "'c plan_db \<Rightarrow> 'c plan_db \<Rightarrow> bool" for db where
  write_reset: "plan_status_write db (cancelPlansOfSession scanSessionId db)"
| write_reported: "(planId, running) \<in> set (db_runs db) \<Longrightarrow> running \<in> {''PENDING'', ''RUNNING''} \<Longrightarrow>
    plan_status_write db (planReported planId completedActions status db)"
| write_recovered: "(planId, ''RUNNING'') \<in> set (db_runs db) \<Longrightarrow> plan_status_write db (planRecovered planId success db)"

text \<open>Only the status and the stamp change, and no row becomes ready that was not.\<close>

definition status_only :: "('c stored_plan \<Rightarrow> 'c stored_plan) \<Rightarrow> bool" where
  "status_only f \<longleftrightarrow> (\<forall>p. sp_id (f p) = sp_id p \<and> sp_actions (f p) = sp_actions p \<and> (plan_typed p \<longrightarrow> plan_typed (f p)) \<and>
     (sp_status (f p) = ''READY_FOR_EXECUTION'' \<longrightarrow> sp_status p = ''READY_FOR_EXECUTION''))"

lemma status_write_rows:
  assumes "plan_status_write db db'"
  obtains f where "status_only f" "db_plans db' = map f (db_plans db)"
  using assms
proof cases
  case (write_reset scanSessionId)
  let ?f = "\<lambda>p. if sp_scanSessionId p = scanSessionId \<and> sp_status p \<in> {''DRAFT'', ''READY_FOR_EXECUTION''} \<and> \<not> execution_blocks db (sp_id p)
       then p\<lparr>sp_status := ''CANCELLED'', sp_updatedAt := db_clock db\<rparr> else p"
  have "status_only ?f" by (simp add: status_only_def plan_typed_def)
  then show ?thesis by (rule that) (simp add: write_reset cancelPlansOfSession_def)
next
  case (write_reported planId running completedActions status)
  let ?f = "\<lambda>p. if sp_id p = planId
       then p\<lparr>sp_status := planStatusAfterReport completedActions status (sp_status p), sp_updatedAt := db_clock db\<rparr> else p"
  have "status_only ?f" by (auto simp: status_only_def plan_typed_def planStatusAfterReport_def)
  then show ?thesis by (rule that) (simp add: write_reported planReported_def setPlanStatus_def)
next
  case (write_recovered planId success)
  let ?f = "\<lambda>p. if success \<noteq> 0 \<and> sp_id p = planId then p\<lparr>sp_status := ''EXECUTED'', sp_updatedAt := db_clock db\<rparr> else p"
  have "status_only ?f" by (simp add: status_only_def plan_typed_def)
  then show ?thesis by (rule that) (simp add: write_recovered planRecovered_def setPlanStatus_def)
qed

section \<open>Histories\<close>

text \<open>
  The states of the database, the newest first. A request may have read any state of the past, and the id
  of a new row is fresh. Everything but the rows may change at any time, the clock too.
\<close>

inductive plan_states :: "(string \<Rightarrow> string \<Rightarrow> int) \<Rightarrow> 'c plan_db list \<Rightarrow> bool" for lc where
  history_start: "db_plans db = [] \<Longrightarrow> plan_states lc [db]"
| history_change: "plan_states lc (db # h) \<Longrightarrow> read 1 \<in> set (db # h) \<Longrightarrow> db_newId db \<notin> sp_id ` set (db_plans db) \<Longrightarrow>
    plan_change lc r read db = (res, db') \<Longrightarrow> plan_states lc (db' # db # h)"
| history_claim: "plan_states lc (db # h) \<Longrightarrow> claimPlanExecution plan db = (ok, db') \<Longrightarrow> plan_states lc (db' # db # h)"
| history_status: "plan_states lc (db # h) \<Longrightarrow> plan_status_write db db' \<Longrightarrow> plan_states lc (db' # db # h)"
| history_other: "plan_states lc (db # h) \<Longrightarrow> db_plans db' = db_plans db \<Longrightarrow> plan_states lc (db' # db # h)"

lemma typed_step: "plan_effect seen db res db' \<Longrightarrow> \<forall>p \<in> set (db_plans db). plan_typed p \<Longrightarrow> \<forall>p \<in> set (db_plans db'). plan_typed p"
proof (induction rule: plan_effect.induct)
  case (effect_row i status stamp change db')
  obtain us q vs where "db_plans db = us @ q # vs" "db' = db\<lparr>db_plans := us @ (change q)\<lparr>sp_updatedAt := db_clock db\<rparr> # vs\<rparr>"
    by (rule rewritten_row_split[OF effect_row(2)])
  moreover from this effect_row have "plan_typed ((change q)\<lparr>sp_updatedAt := db_clock db\<rparr>)"
    by (auto simp: good_change_def)
  ultimately show ?case using effect_row.prems by auto
qed auto

lemma rows_typed: "plan_states lc h \<Longrightarrow> \<forall>p \<in> set (db_plans (hd h)). plan_typed p"
proof (induction rule: plan_states.induct)
  case (history_change db h read r res db')
  then show ?case using typed_step[OF plan_change_effect[OF history_change.hyps(4)]] by simp
next
  case (history_claim db h plan ok db')
  then show ?case by (auto simp: claimPlanExecution_def Let_def)
next
  case (history_status db h db')
  then show ?case by (auto simp: status_only_def elim!: status_write_rows)
qed simp_all

text \<open>
  The stamps order the versions of a row: the clock does not run backwards, and a write that changes the actions of
  a row does not fall into the millisecond of the write before it.
\<close>

definition advanced :: "'c plan_db \<Rightarrow> 'c plan_db \<Rightarrow> bool" where
  "advanced db db' \<longleftrightarrow> (\<forall>p \<in> set (db_plans db). \<forall>q \<in> set (db_plans db'). sp_id q = sp_id p \<longrightarrow>
     sp_updatedAt p \<le> sp_updatedAt q \<and> (sp_actions q \<noteq> sp_actions p \<longrightarrow> sp_updatedAt p < sp_updatedAt q))"

fun stamps_advance :: "'c plan_db list \<Rightarrow> bool" where
  "stamps_advance (db' # db # h) = (advanced db db' \<and> stamps_advance (db # h))"
| "stamps_advance h = True"

text \<open>A row of the past is still there, with the same actions or a later stamp.\<close>

definition newer :: "'c stored_plan \<Rightarrow> 'c stored_plan \<Rightarrow> bool" where
  "newer p q \<longleftrightarrow> sp_id q = sp_id p \<and> sp_updatedAt p \<le> sp_updatedAt q \<and> (sp_actions q = sp_actions p \<or> sp_updatedAt p < sp_updatedAt q)"

lemma newer_refl [simp]: "newer p p"
  by (simp add: newer_def)

lemma newer_trans: "newer p q \<Longrightarrow> newer q r \<Longrightarrow> newer p r"
  by (auto simp: newer_def)

definition row_order :: "'c plan_db list \<Rightarrow> bool" where
  "row_order h \<longleftrightarrow> h \<noteq> [] \<and> distinct (map sp_id (db_plans (hd h))) \<and>
     (\<forall>e \<in> set h. \<forall>p \<in> set (db_plans e). \<exists>q \<in> set (db_plans (hd h)). newer p q)"

lemma row_order_step:
  assumes "row_order (db # h)" "advanced db db'" "distinct (map sp_id (db_plans db'))"
    and "sp_id ` set (db_plans db) \<subseteq> sp_id ` set (db_plans db')"
  shows "row_order (db' # db # h)"
proof -
  have next_row: "\<exists>s \<in> set (db_plans db'). newer q s" if q: "q \<in> set (db_plans db)" for q
  proof -
    obtain s where s: "s \<in> set (db_plans db')" "sp_id s = sp_id q"
      using assms(4) q by (metis image_iff image_subset_iff)
    with assms(2) q have "newer q s" by (auto simp: advanced_def newer_def)
    with s show ?thesis by blast
  qed
  have "\<exists>s \<in> set (db_plans db'). newer p s" if e: "e \<in> set (db' # db # h)" "p \<in> set (db_plans e)" for e p
  proof (cases "e = db'")
    case True
    with e(2) show ?thesis by (auto intro: bexI[of _ p])
  next
    case False
    with e have "e \<in> set (db # h)" by simp
    with assms(1) e(2) obtain q where "q \<in> set (db_plans db)" "newer p q" unfolding row_order_def list.sel by blast
    with next_row[of q] show ?thesis using newer_trans by blast
  qed
  with assms(3) show ?thesis unfolding row_order_def by simp
qed

text \<open>A row that still has the stamp that was seen has the actions that were seen.\<close>

lemma seen_actions_unchanged:
  assumes "row_order (db # h)" "e \<in> set (db # h)" "p \<in> set (db_plans e)"
    and "q \<in> set (db_plans db)" "sp_id q = sp_id p" "sp_updatedAt q = sp_updatedAt p"
  shows "sp_actions q = sp_actions p"
proof -
  obtain s where "s \<in> set (db_plans db)" "newer p s"
    using assms(1-3) unfolding row_order_def list.sel by blast
  moreover from this assms have "s = q"
    by (auto simp: row_order_def distinct_map inj_on_def newer_def)
  ultimately show ?thesis using assms(6) by (auto simp: newer_def)
qed

text \<open>The invariant of every state.\<close>

definition ready_rows :: "'c plan_db \<Rightarrow> bool" where
  "ready_rows db \<longleftrightarrow> (\<forall>p \<in> set (db_plans db). sp_status p = ''READY_FOR_EXECUTION'' \<longrightarrow> has_selection p)"

lemma effect_keeps_rows:
  assumes effect: "plan_effect seen db res db'" and seen: "seen \<in> set (db # h)"
    and order: "row_order (db # h)" and ready: "ready_rows db" and advanced: "advanced db db'"
    and fresh: "db_newId db \<notin> sp_id ` set (db_plans db)"
  shows "row_order (db' # db # h) \<and> ready_rows db'"
  using effect
proof cases
  case (effect_failed e)
  with order ready show ?thesis by (auto simp: row_order_def)
next
  case (effect_new p)
  then have "row_order (db' # db # h)"
    using order fresh by (intro row_order_step advanced) (auto simp: row_order_def)
  with effect_new ready show ?thesis by (auto simp: ready_rows_def)
next
  case (effect_row i status stamp change)
  obtain us q vs where split: "db_plans db = us @ q # vs" and hit: "plan_matches db i status stamp q"
    and db': "db' = db\<lparr>db_plans := us @ (change q)\<lparr>sp_updatedAt := db_clock db\<rparr> # vs\<rparr>"
    by (rule rewritten_row_split[OF effect_row(3)])
  have q: "q \<in> set (db_plans db)" "sp_id (change q) = sp_id q" using split effect_row(2) by (auto simp: good_change_def)
  have "row_order (db' # db # h)"
    using order split q by (intro row_order_step[OF order advanced]) (auto simp: row_order_def db')
  moreover have "has_selection (change q)" if ready: "sp_status (change q) = ''READY_FOR_EXECUTION''"
  proof -
    obtain e where e: "e \<in> set (db_plans seen)" "sp_id e = i" "sp_updatedAt e = stamp" "has_selection e"
      and same: "sp_actions (change q) = sp_actions q"
      using effect_row(2) hit ready by (auto simp: good_change_def plan_matches_def)
    have "sp_actions q = sp_actions e" using seen_actions_unchanged[OF order seen e(1) q(1)] hit e by (simp add: plan_matches_def)
    with e(4) same show ?thesis by (simp add: has_selection_def)
  qed
  then have "sp_status (change q) = ''READY_FOR_EXECUTION'' \<Longrightarrow> has_selection ((change q)\<lparr>sp_updatedAt := db_clock db\<rparr>)"
    by (simp add: has_selection_def)
  ultimately show ?thesis using ready split by (auto simp: ready_rows_def db')
qed

lemma mapped_rows:
  assumes "db_plans db' = map f (db_plans db)" "\<And>p. sp_id (f p) = sp_id p" "\<And>p. has_selection (f p) = has_selection p"
    "\<And>p. sp_status (f p) = ''READY_FOR_EXECUTION'' \<Longrightarrow> sp_status p = ''READY_FOR_EXECUTION''"
    and "row_order (db # h)" "ready_rows db" "advanced db db'"
  shows "row_order (db' # db # h) \<and> ready_rows db'"
proof
  have ids: "map sp_id (db_plans db') = map sp_id (db_plans db)" using assms(1,2) by simp
  with assms(5) have "distinct (map sp_id (db_plans db'))" by (simp add: row_order_def)
  moreover have "sp_id ` set (db_plans db) \<subseteq> sp_id ` set (db_plans db')" using ids by (metis list.set_map order_refl)
  ultimately show "row_order (db' # db # h)" by (rule row_order_step[OF assms(5,7)])
  show "ready_rows db'" using assms(1,3,4,6) by (auto simp: ready_rows_def)
qed

lemma ready_invariant: "plan_states lc h \<Longrightarrow> stamps_advance h \<Longrightarrow> row_order h \<and> ready_rows (hd h)"
proof (induction rule: plan_states.induct)
  case (history_change db h read r res db')
  then show ?case using effect_keeps_rows[OF plan_change_effect[OF history_change.hyps(4)], of h] by simp
next
  case (history_claim db h plan ok db')
  let ?f = "\<lambda>p. if plan_matches db (sp_id plan) ''READY_FOR_EXECUTION'' (sp_updatedAt plan) p
    then p\<lparr>sp_updatedAt := max (db_clock db) (sp_updatedAt plan + 1)\<rparr> else p"
  have "db_plans db' = map ?f (db_plans db)" using history_claim.hyps(2) by (auto simp: claimPlanExecution_def Let_def)
  then have "row_order (db' # db # h) \<and> ready_rows db'"
    by (rule mapped_rows) (use history_claim in \<open>auto simp: has_selection_def split: if_splits\<close>)
  then show ?case by simp
next
  case (history_status db h db')
  then obtain f where f: "status_only f" "db_plans db' = map f (db_plans db)" by (auto elim: status_write_rows)
  have "row_order (db' # db # h) \<and> ready_rows db'"
    by (rule mapped_rows[OF f(2)]) (use f(1) history_status in \<open>auto simp: status_only_def has_selection_def\<close>)
  then show ?case by simp
next
  case (history_other db h db')
  have "row_order (db' # db # h) \<and> ready_rows db'"
    by (rule mapped_rows[where f = "\<lambda>p. p"]) (use history_other in simp_all)
  then show ?case by simp
qed (simp_all add: row_order_def ready_rows_def)

text \<open>
  C13. Plan rows stay well typed. In every history of the database, whatever interleaving of planning
  requests, admissions, reported and recovered outcomes and suggestion resets wrote it and whatever the clock
  showed, the status of a plan is one of those the code knows, its count of actions is the
  number of its actions, these are numbered from one in order, the flags and the role of each action agree
  with its type, paths and recommendation, and at most twenty history items are kept.
\<close>

theorem plan_rows_typed:
  assumes "plan_states localeCompare (db # h)" "p \<in> set (db_plans db)"
  shows "plan_typed p"
  using rows_typed[OF assms(1)] assms(2) by simp

text \<open>
  C12. A plan that waits for its execution has something to execute: it was approved with a selected file
  action, and no request that read the row earlier has changed its actions since. This rests on the stamps:
  a request writes only a row that still has the status and the stamp that it read. So it is assumed, over the whole
  history, that the clock does not run backwards and that no write which changes the actions of a row falls into
  the millisecond of the write before it (C14 says what happens then), and that the ids of
  new rows are fresh. All writers of plan rows take part: requests, admissions, reported and recovered
  outcomes, suggestion resets.
\<close>

theorem ready_plan_has_selection:
  assumes "plan_states localeCompare (db # h)" "stamps_advance (db # h)"
    and "p \<in> set (db_plans db)" "sp_status p = ''READY_FOR_EXECUTION''"
  shows "\<exists>a \<in> set (sp_actions p). actionIsSelectedFileAction a"
  using ready_invariant[OF assms(1,2)] assms(3,4) by (simp add: ready_rows_def has_selection_def list_ex_iff)

text \<open>A history: a plan is generated in the first millisecond and approved in the second.\<close>

definition plan_day0 :: "nat plan_db" where
  "plan_day0 = sample_plan_db\<lparr>db_plans := [], db_suggestions := [sample_suggestion ''1'' ''a'' ''b''], db_newId := ''q''\<rparr>"

definition day_action :: "nat organization_action" where
  "day_action =
     \<lparr>oa_id = ''action-1'', oa_order = 1, oa_actionType = P_RENAME_FILE, oa_selectedForExecution = True,
      oa_requiredForSelectedActions = False, oa_selectableForExecution = True, oa_executionRole = Some FILE_ACTION,
      oa_suggestionId = ''1'', oa_suggestionType = T_MOVE_FILE, oa_sourceRelativePath = ''a'', oa_plannedRelativePath = Some ''b'',
      oa_plannedFolderPath = Some [], oa_plannedFileName = Some ''b'', oa_requiredFolderPaths = Some [],
      oa_recommendationGenerationId = Some ''g'', oa_recommendationGenerationVersion = Some ''organization-recommendations-v11'',
      oa_sourceSnapshot = Some (snapshot_of (sample_scanned ''1'' ''a'')), oa_reason = ''e'', oa_confidence = 90,
      oa_originatingSuggestion = \<lparr>po_title = ''t'', po_explanation = ''e'', po_status = S_APPROVED\<rparr>, oa_humanEdits = [],
      oa_evidence = \<lparr>ev_approvedObservation = [], ev_approvedMemory = [], ev_humanModification = [],
        ev_originatingSuggestion = [''t'', ''e'']\<rparr>\<rparr>"

definition day_row :: "nat stored_plan" where
  "day_row = (empty_plan ''q'' 1)\<lparr>sp_scanSessionId := ''s'', sp_connectedLibraryId := ''l'', sp_status := ''DRAFT'',
     sp_totalActions := 1, sp_approvedActions := 1, sp_actions := [day_action],
     sp_history := [\<lparr>ph_id = ''history-generated-i'', ph_at = ''i'', ph_label = ''Plan generated'',
       ph_detail = ''The Librarian rebuilt the plan from reviewed organization recommendations only. No filesystem action was allowed.''\<rparr>]\<rparr>"

definition plan_day :: "int \<Rightarrow> nat plan_db" where
  "plan_day clock = plan_day0\<lparr>db_plans := [day_row], db_clock := clock, db_newId := ''r''\<rparr>"

lemma day1_rows: "db_plans (snd (plan_change code_unit_compare (Generate ''s'') (\<lambda>_. plan_day0) plan_day0)) = [day_row]"
  by code_simp

lemma day_approved:
  "map (\<lambda>p. (sp_status p, list_all ((=) day_action) (sp_actions p)))
     (db_plans (snd (plan_change code_unit_compare (Approve ''q'') (\<lambda>_. plan_day 2) (plan_day 2)))) = [(''READY_FOR_EXECUTION'', True)]"
  by code_simp

definition day_approved_db :: "nat plan_db" where
  "day_approved_db = snd (plan_change code_unit_compare (Approve ''q'') (\<lambda>_. plan_day 2) (plan_day 2))"

lemma day_approved_stamps:
  "list_all (\<lambda>q. sp_updatedAt q = 2 \<and> list_all ((=) day_action) (sp_actions q) \<and> length (sp_actions q) = 1) (db_plans day_approved_db)"
  by code_simp

definition sample_days :: "nat plan_db list" where
  "sample_days = [day_approved_db, plan_day 2,
      snd (plan_change code_unit_compare (Generate ''s'') (\<lambda>_. plan_day0) plan_day0), plan_day0]"

lemma sample_history: "plan_states code_unit_compare sample_days"
proof -
  have "plan_states code_unit_compare [plan_day0]" by (rule history_start) (simp add: plan_day0_def)
  then have "plan_states code_unit_compare [snd (plan_change code_unit_compare (Generate ''s'') (\<lambda>_. plan_day0) plan_day0), plan_day0]"
    by (rule history_change[where read = "\<lambda>_. plan_day0", OF _ _ _ surjective_pairing]) (simp_all add: plan_day0_def)
  then have "plan_states code_unit_compare [plan_day 2, snd (plan_change code_unit_compare (Generate ''s'') (\<lambda>_. plan_day0) plan_day0), plan_day0]"
    by (rule history_other) (simp add: day1_rows plan_day_def del: plan_change.simps)
  then show ?thesis unfolding sample_days_def day_approved_db_def
    by (rule history_change[where read = "\<lambda>_. plan_day 2", OF _ _ _ surjective_pairing])
      (simp_all add: plan_day_def plan_day0_def sample_plan_db_def day_row_def empty_plan_def)
qed

lemma sample_advance: "stamps_advance sample_days"
proof -
  have "sp_actions q = [day_action] \<and> sp_updatedAt q = 2" if "q \<in> set (db_plans day_approved_db)" for q
    using day_approved_stamps that by (auto simp: list_all_iff length_Suc_conv)
  then have "advanced (plan_day 2) day_approved_db"
    by (simp add: advanced_def plan_day_def day_row_def empty_plan_def)
  moreover have "advanced (snd (plan_change code_unit_compare (Generate ''s'') (\<lambda>_. plan_day0) plan_day0)) (plan_day 2)"
    by (simp add: advanced_def day1_rows plan_day_def del: plan_change.simps)
  moreover have "advanced plan_day0 db" for db by (simp add: advanced_def plan_day0_def)
  ultimately show ?thesis by (simp add: sample_days_def)
qed

text \<open>The reset that follows cancels the plan, a reported outcome marks it as executed.\<close>

lemma sample_writes:
  "map sp_status (db_plans (cancelPlansOfSession ''s'' (day_approved_db\<lparr>db_runs := []\<rparr>))) = [''CANCELLED'']"
  "map sp_status (db_plans (planReported ''q'' 1 ''PARTIALLY_COMPLETED'' day_approved_db)) = [''EXECUTED'']"
  "map sp_status (db_plans (planReported ''q'' 0 ''FAILED'' day_approved_db)) = [''READY_FOR_EXECUTION'']"
  by code_simp+

theorem plan_rows_typed_witness: "map plan_typed (db_plans day_approved_db) = [True]"
proof -
  obtain p where p: "db_plans day_approved_db = [p]" using day_approved by (auto simp: day_approved_db_def)
  have "plan_typed p" by (rule plan_rows_typed[OF sample_history[unfolded sample_days_def]]) (simp add: p)
  then show ?thesis by (simp add: p)
qed

theorem ready_plan_has_selection_witness:
  "\<exists>p. p \<in> set (db_plans day_approved_db) \<and>
     sp_status p = ''READY_FOR_EXECUTION'' \<and> list_ex actionIsSelectedFileAction (sp_actions p)"
proof -
  obtain p where p: "db_plans day_approved_db = [p]" "sp_status p = ''READY_FOR_EXECUTION''"
    using day_approved by (auto simp: day_approved_db_def)
  have "\<exists>a \<in> set (sp_actions p). actionIsSelectedFileAction a"
    by (rule ready_plan_has_selection[OF sample_history[unfolded sample_days_def] sample_advance[unfolded sample_days_def]])
      (simp_all add: p)
  with p show ?thesis by (auto simp: list_ex_iff)
qed

section \<open>Two writes in one millisecond\<close>

lemma cleared_unselected: "a \<in> set (clearActionSelection lc as) \<Longrightarrow> \<not> actionIsSelectedFileAction a"
proof -
  have order: "actionIsSelectedFileAction (b\<lparr>oa_order := n\<rparr>) = actionIsSelectedFileAction b" for b :: "'a organization_action" and n
    by (simp add: actionIsSelectedFileAction_def)
  have off: "\<not> actionIsSelectedFileAction (b\<lparr>oa_requiredForSelectedActions := r, oa_selectedForExecution := False\<rparr>)"
    for b :: "'a organization_action" and r by (simp add: actionIsSelectedFileAction_def)
  assume "a \<in> set (clearActionSelection lc as)"
  then show ?thesis unfolding clearActionSelection_def by (auto dest!: orderedActions_from simp: order off)
qed

lemma unchanged_write:
  assumes "writeUnchangedPlan existing change verify historical db = (Inr (), db')"
    and "distinct (map sp_id (db_plans db))" "existing \<in> set (db_plans db)"
  shows "sp_status existing = normalizePlanStatus (sp_status existing)" "\<not> execution_blocks db (sp_id existing)"
    and "db' = db\<lparr>db_plans := map (\<lambda>p. if sp_id p = sp_id existing then (change p)\<lparr>sp_updatedAt := db_clock db\<rparr> else p) (db_plans db)\<rparr>"
proof -
  let ?hit = "plan_matches db (sp_id existing) (normalizePlanStatus (sp_status existing)) (sp_updatedAt existing)"
  have one: "length (filter ?hit (db_plans db)) = 1"
    and db': "db' = db\<lparr>db_plans := map (\<lambda>p. if ?hit p then (change p)\<lparr>sp_updatedAt := db_clock db\<rparr> else p) (db_plans db)\<rparr>"
    using assms(1) by (auto simp: writeUnchangedPlan_def update_plan_def Let_def split: if_splits sum.splits option.splits)
  obtain q where "filter ?hit (db_plans db) = [q]" using one by (auto simp: length_Suc_conv)
  then have "q \<in> set (filter ?hit (db_plans db))" by simp
  then have q: "q \<in> set (db_plans db)" "?hit q" by simp_all
  then have "q = existing" using assms(2,3) by (auto simp: plan_matches_def distinct_map inj_on_def)
  with q show facts: "sp_status existing = normalizePlanStatus (sp_status existing)" "\<not> execution_blocks db (sp_id existing)"
    by (auto simp: plan_matches_def)
  have "?hit p = (sp_id p = sp_id existing)" if "p \<in> set (db_plans db)" for p
    using that q \<open>q = existing\<close> assms(2,3) by (auto simp: plan_matches_def distinct_map inj_on_def)
  then show "db' = db\<lparr>db_plans := map (\<lambda>p. if sp_id p = sp_id existing then (change p)\<lparr>sp_updatedAt := db_clock db\<rparr> else p) (db_plans db)\<rparr>"
    unfolding db' by (simp cong: map_cong)
qed

lemma write_succeeds:
  assumes "writeUnchangedPlan existing change verify False db = (Inr (), db2)"
    and "db_readable db' = db_readable db" "db_suggestions db' = db_suggestions db" "db_runs db' = db_runs db"
    and "distinct (map sp_id (db_plans db'))" "q \<in> set (db_plans db')" "sp_id q = sp_id existing"
    and "sp_status q = normalizePlanStatus (sp_status existing)" "sp_updatedAt q = sp_updatedAt existing" "\<not> execution_blocks db (sp_id existing)"
  shows "\<exists>db3. writeUnchangedPlan existing change verify False db' = (Inr (), db3) \<and> (change q)\<lparr>sp_updatedAt := db_clock db'\<rparr> \<in> set (db_plans db3)"
proof -
  let ?hit = "plan_matches db' (sp_id existing) (normalizePlanStatus (sp_status existing)) (sp_updatedAt existing)"
  have blocks: "\<not> execution_blocks db' (sp_id existing)" using assms(4,10) by (simp add: execution_blocks_def)
  then have hit: "?hit q" using assms(7-9) by (simp add: plan_matches_def)
  have "filter ?hit (db_plans db') = filter ((=) q) (db_plans db')"
    using hit assms(5,6) by (intro filter_cong) (auto simp: plan_matches_def distinct_map inj_on_def)
  moreover have "length (filter ((=) q) (db_plans db')) = 1"
  proof -
    have "{x. q = x} \<inter> set (db_plans db') = {q}" using assms(6) by auto
    then show ?thesis using assms(5) distinct_length_filter[of "db_plans db'" "(=) q"] by (simp add: distinct_map)
  qed
  ultimately have one: "length (filter ?hit (db_plans db')) = 1" by simp
  have same: "assertSelectedActionsMatchCurrentRecommendations db' s as = assertSelectedActionsMatchCurrentRecommendations db s as" for s as
    using assms(3) by (simp add: assertSelectedActionsMatchCurrentRecommendations_def)
  have "writeUnchangedPlan existing change verify False db' = (Inr (), snd (update_plan (sp_id existing)
      (normalizePlanStatus (sp_status existing)) (sp_updatedAt existing) change db'))"
    using assms(1,2) one
    by (auto simp: writeUnchangedPlan_def update_plan_def Let_def same split: if_splits sum.splits option.splits)
  moreover have "(change q)\<lparr>sp_updatedAt := db_clock db'\<rparr> \<in> set (db_plans (snd (update_plan (sp_id existing)
      (normalizePlanStatus (sp_status existing)) (sp_updatedAt existing) change db')))"
    using hit assms(6) by (auto simp: update_plan_def Let_def intro!: image_eqI[of _ _ q])
  ultimately show ?thesis by blast
qed

definition day_cleared :: "nat plan_db" where
  "day_cleared = snd (plan_change code_unit_compare (Clear ''q'') (\<lambda>_. plan_day 1) (plan_day 1))"

lemma day_cleared_rows:
  "map (\<lambda>p. (sp_status p, sp_updatedAt p, list_ex actionIsSelectedFileAction (sp_actions p))) (db_plans day_cleared) = [(''DRAFT'', 1, False)]"
  by code_simp

lemma day_cleared_approved:
  "map (\<lambda>p. (sp_status p, list_ex actionIsSelectedFileAction (sp_actions p)))
     (db_plans (snd (plan_change code_unit_compare (Approve ''q'') (\<lambda>_. plan_day 1) day_cleared))) = [(''READY_FOR_EXECUTION'', False)]"
  by code_simp

lemma cleared_plan_found:
  assumes "distinct (map sp_id (db_plans db))" "row \<in> set (db_plans db)" "sp_id row = planId"
    and "plan_change localeCompare (Clear planId) (\<lambda>_. db) db = (Inr (), cleared)"
  shows "require_plan db planId = Inr row"
proof -
  have "find (\<lambda>p. sp_id p = planId) (db_plans db) = Some p \<Longrightarrow> p = row" for p
    using assms(1-3) by (auto simp: find_Some_iff distinct_map inj_on_def)
  then show ?thesis using assms(4)
    by (auto simp: clearOrganizationPlanSelection_def transact_def require_plan_def planById_def split: option.splits)
qed

text \<open>
  C14. The stamp of a write has the precision of a millisecond, and unlike \<open>claimPlanExecution\<close> the planning
  requests do not move it forward. Whenever a selection is cleared in the millisecond in which the plan was
  last written, an approval that would have succeeded before, and that read the plan then, still succeeds: the plan
  becomes ready for execution without any selected action. So the assumption of C12 on the stamps is needed.
\<close>

theorem same_millisecond_approves_nothing:
  assumes "distinct (map sp_id (db_plans db))" "row \<in> set (db_plans db)" "sp_id row = planId" "sp_updatedAt row = db_clock db"
    and "plan_change localeCompare (Clear planId) (\<lambda>_. db) db = (Inr (), cleared)"
    and "plan_change localeCompare (Approve planId) (\<lambda>_. db) db = (Inr (), approved)"
  shows "\<exists>later q. plan_change localeCompare (Approve planId) (\<lambda>_. db) cleared = (Inr (), later) \<and>
    q \<in> set (db_plans later) \<and> sp_id q = planId \<and> sp_status q = ''READY_FOR_EXECUTION'' \<and>
    \<not> list_ex actionIsSelectedFileAction (sp_actions q)"
proof -
  note found = cleared_plan_found[OF assms(1-3,5)]
  obtain ws history where clear: "writeUnchangedPlan row
      (\<lambda>p. p\<lparr>sp_actions := clearActionSelection localeCompare (sp_actions row),
        sp_totalActions := length (clearActionSelection localeCompare (sp_actions row)), sp_warnings := ws, sp_history := history\<rparr>)
      (Some (clearActionSelection localeCompare (sp_actions row))) False db = (Inr (), cleared)"
    using assms(5) found
    by (auto simp: clearOrganizationPlanSelection_def transact_def Let_def rbind_def split: sum.splits)
  let ?approve = "\<lambda>p. p\<lparr>sp_status := ''READY_FOR_EXECUTION'',
           sp_history := appendPlanHistory db row ''Plan approved''
             ''Deanne marked the plan ready for future execution. No filesystem action occurred.''\<rparr>"
  have body: "plan_change localeCompare (Approve planId) (\<lambda>_. db) d =
      writeUnchangedPlan row ?approve (Some (map normalizePlanAction (sp_actions row))) False d" for d
    using assms(6) found
    by (auto simp: approveOrganizationPlan_def transact_def Let_def rbind_def split: sum.splits if_splits option.splits)
  note state = unchanged_write[OF clear assms(1,2)]
  let ?q = "row\<lparr>sp_actions := clearActionSelection localeCompare (sp_actions row),
        sp_totalActions := length (clearActionSelection localeCompare (sp_actions row)), sp_warnings := ws, sp_history := history,
        sp_updatedAt := db_clock db\<rparr>"
  have q: "?q \<in> set (db_plans cleared)" unfolding state(3) using assms(2) by (auto intro!: image_eqI[of _ _ row])
  have ids: "distinct (map sp_id (db_plans cleared))"
  proof -
    have "map sp_id (db_plans cleared) = map sp_id (db_plans db)" unfolding state(3) by simp
    with assms(1) show ?thesis by simp
  qed
  have rest: "db_readable cleared = db_readable db" "db_suggestions cleared = db_suggestions db" "db_runs cleared = db_runs db"
    unfolding state(3) by simp_all
  have "sp_id ?q = sp_id row" "sp_status ?q = normalizePlanStatus (sp_status row)" "sp_updatedAt ?q = sp_updatedAt row"
    using state(1) assms(4) by simp_all
  from write_succeeds[OF assms(6)[unfolded body] rest ids q this state(2)]
  obtain later where l: "writeUnchangedPlan row ?approve (Some (map normalizePlanAction (sp_actions row))) False cleared = (Inr (), later)"
    "(?approve ?q)\<lparr>sp_updatedAt := db_clock cleared\<rparr> \<in> set (db_plans later)" by blast
  have "\<not> list_ex actionIsSelectedFileAction (clearActionSelection localeCompare (sp_actions row))"
    using cleared_unselected by (auto simp: list_ex_iff)
  with l show ?thesis unfolding body
    by (intro exI[of _ later] exI[of _ "(?approve ?q)\<lparr>sp_updatedAt := db_clock cleared\<rparr>"]) (simp add: assms(3))
qed

lemma day_both: "fst (plan_change code_unit_compare (Clear ''q'') (\<lambda>_. plan_day 1) (plan_day 1)) = Inr ()"
  "fst (plan_change code_unit_compare (Approve ''q'') (\<lambda>_. plan_day 1) (plan_day 1)) = Inr ()"
  by code_simp+

theorem same_millisecond_approves_nothing_witness:
  "\<exists>later q. plan_change code_unit_compare (Approve ''q'') (\<lambda>_. plan_day 1) day_cleared = (Inr (), later) \<and>
    q \<in> set (db_plans later) \<and> sp_id q = ''q'' \<and> sp_status q = ''READY_FOR_EXECUTION'' \<and>
    \<not> list_ex actionIsSelectedFileAction (sp_actions q)"
proof (rule same_millisecond_approves_nothing)
  show "distinct (map sp_id (db_plans (plan_day 1)))" "day_row \<in> set (db_plans (plan_day 1))" "sp_id day_row = ''q''"
    "sp_updatedAt day_row = db_clock (plan_day 1)" by (simp_all add: plan_day_def day_row_def empty_plan_def)
  show "plan_change code_unit_compare (Clear ''q'') (\<lambda>_. plan_day 1) (plan_day 1) = (Inr (), day_cleared)"
    unfolding day_cleared_def day_both(1)[symmetric] by (rule surjective_pairing)
  show "plan_change code_unit_compare (Approve ''q'') (\<lambda>_. plan_day 1) (plan_day 1) =
      (Inr (), snd (plan_change code_unit_compare (Approve ''q'') (\<lambda>_. plan_day 1) (plan_day 1)))"
    unfolding day_both(2)[symmetric] by (rule surjective_pairing)
qed

end
