(* ===== verification/PhysicalFiles.thy ===== *)
theory PhysicalFiles
  imports PathSafety SafeMove
begin

text \<open>
  When two rows of the library are one file on a disk (\<open>src/lib/bridge/physical-file-identity.ts\<close>,
  \<open>physical-file-index.ts\<close>), and which row a duplicate is compared with (\<open>checksum-duplicates.ts\<close>).
  Counters of work are left out.
\<close>

section \<open>Rows\<close>

record physical_root =
  pr_bridgeRootId :: "string option"
  pr_canonicalConnectedLibraryId :: "string option"
  pr_displayName :: "string option"
  pr_folderFingerprint :: "string option"
  pr_id :: string
  pr_localPath :: string
  pr_platform :: string

record physical_file =
  pf_localPath :: "string option"
  pf_relativePath :: string
  pf_folder :: physical_root

record duplicate_candidate = physical_file +
  dc_id :: string
  dc_sessionId :: string

section \<open>Paths\<close>

text \<open>
  \<open>toUpperCase\<close> on the names of platforms: no other character of the range has an upper case that
  occurs in them.
\<close>

definition insensitive_name :: "string \<Rightarrow> bool" where
  "insensitive_name plat \<longleftrightarrow> to_upper plat \<in> {''MACOS'', ''WINDOWS''}"

definition caseInsensitivePlatform :: "string \<Rightarrow> bool" where
  "caseInsensitivePlatform plat \<longleftrightarrow> insensitive_name (trim plat)"

definition normalizedAlias :: "string \<Rightarrow> string" where
  "normalizedAlias value = to_lower (trim value)"

text \<open>The groups of \<open>/^bridge:\/\/([^/]+)(?:\/(.*))?$/i\<close> on the trimmed text.\<close>

definition bridge_match :: "string \<Rightarrow> (string \<times> string option) option" where
  "bridge_match value =
     (let t = trim value; rest = drop 9 t;
          root = takeWhile (\<lambda>c. c \<noteq> slash) rest; tail = dropWhile (\<lambda>c. c \<noteq> slash) rest
      in if to_lower (take 9 t) = ''bridge://'' \<and> root \<noteq> [] \<and> CHR 0x0A \<notin> set tail \<and> CHR 0x0D \<notin> set tail
         then Some (root, case tail of [] \<Rightarrow> None | _ # s \<Rightarrow> Some s) else None)"

definition bridgeRootIdOfUri :: "string \<Rightarrow> string option" where
  "bridgeRootIdOfUri value = (case bridge_match value of None \<Rightarrow> None | Some (root, _) \<Rightarrow> Some root)"

definition strip_slashes :: "string \<Rightarrow> string" where
  "strip_slashes s = rev (dropWhile (\<lambda>c. c = slash) (rev s))"

definition normalizeRootPathKey :: "string \<Rightarrow> string \<Rightarrow> string" where
  "normalizeRootPathKey value plat =
     (let normalized = strip_slashes (replace_char backslash slash (trim value)) in
      if caseInsensitivePlatform plat then to_lower normalized else normalized)"

definition normalizePhysicalRelativePath :: "string \<Rightarrow> bool \<Rightarrow> string" where
  "normalizePhysicalRelativePath value caseInsensitive =
     (let withForwardSlashes = replace_char backslash slash (trim value) in
      if withForwardSlashes = [] then []
      else let normalized = dropWhile (\<lambda>c. c = slash) (posix_normalize (slash # withForwardSlashes)) in
        if caseInsensitive then to_lower normalized else normalized)"

text \<open>The full path and the alias of the root.\<close>

definition bridgeFileIdentity :: "string \<Rightarrow> bool \<Rightarrow> (string \<times> string) option" where
  "bridgeFileIdentity value caseInsensitive =
     (case bridge_match value of
        None \<Rightarrow> None
      | Some (root, path) \<Rightarrow>
          let rootId = normalizedAlias root;
              relativePath = normalizePhysicalRelativePath (case path of None \<Rightarrow> [] | Some p \<Rightarrow> p) caseInsensitive
          in Some (''bridge://'' @ rootId @ [slash] @ relativePath, ''root:'' @ rootId))"

definition win32_isAbsolute :: "string \<Rightarrow> bool" where
  "win32_isAbsolute p =
     (case p of [] \<Rightarrow> False
      | a # r \<Rightarrow> a = slash \<or> a = backslash \<or>
          (is_letter a \<and> (case r of b # c # _ \<Rightarrow> b = CHR '':'' \<and> (c = slash \<or> c = backslash) | _ \<Rightarrow> False)))"

definition stableLocalFilePath :: "string option \<Rightarrow> string \<Rightarrow> string option" where
  "stableLocalFilePath value plat =
     (case present (Option.bind value (\<lambda>v. Some (trim v))) of
        None \<Rightarrow> None
      | Some trimmed \<Rightarrow>
          let caseInsensitive = caseInsensitivePlatform plat in
          (case bridgeFileIdentity trimmed caseInsensitive of
             Some (fullPath, _) \<Rightarrow> Some fullPath
           | None \<Rightarrow>
               let withForwardSlashes = replace_char backslash slash trimmed in
               if \<not> (posix_isAbsolute withForwardSlashes \<or> win32_isAbsolute trimmed) then None
               else let normalized = posix_normalize withForwardSlashes in
                 Some (if caseInsensitive then to_lower normalized else normalized)))"

section \<open>One file or two\<close>

definition samePhysicalFilePresentation :: "string \<times> string \<Rightarrow> string \<times> string \<Rightarrow> bool" where
  "samePhysicalFilePresentation left right \<longleftrightarrow>
     normalizedAlias (fst left) = normalizedAlias (fst right) \<and>
     normalizePhysicalRelativePath (snd left) True = normalizePhysicalRelativePath (snd right) True"

definition prefixed_alias :: "string \<Rightarrow> string option \<Rightarrow> string option" where
  "prefixed_alias prefix value = (case present value of None \<Rightarrow> None | Some v \<Rightarrow> Some (prefix @ normalizedAlias v))"

definition connectedRootAliases :: "physical_root \<Rightarrow> string option \<Rightarrow> string list" where
  "connectedRootAliases root fileLocalPath =
     (let bridgeUriRootId = bridgeRootIdOfUri (pr_localPath root);
          fileBridgeRootId = (case present fileLocalPath of None \<Rightarrow> None
            | Some p \<Rightarrow> (case bridgeFileIdentity p (caseInsensitivePlatform (pr_platform root)) of
                None \<Rightarrow> None | Some (_, rootAlias) \<Rightarrow> Some rootAlias))
      in unique (List.map_filter id
           [Some (''library:'' @ normalizedAlias (pr_id root)),
            prefixed_alias ''library:'' (pr_canonicalConnectedLibraryId root),
            prefixed_alias ''root:'' (pr_bridgeRootId root),
            prefixed_alias ''root:'' (pr_folderFingerprint root),
            prefixed_alias ''root:'' bridgeUriRootId,
            fileBridgeRootId,
            (case bridgeUriRootId of Some _ \<Rightarrow> None
             | None \<Rightarrow> Some (''path:'' @ normalizedAlias (pr_platform root) @ '':'' @
                 normalizeRootPathKey (pr_localPath root) (pr_platform root)))]))"

definition samePhysicalRoot :: "physical_root \<Rightarrow> physical_root \<Rightarrow> string option \<Rightarrow> string option \<Rightarrow> bool" where
  "samePhysicalRoot left right leftFileLocalPath rightFileLocalPath \<longleftrightarrow>
     list_ex (\<lambda>a. a \<in> set (connectedRootAliases left leftFileLocalPath)) (connectedRootAliases right rightFileLocalPath)"

definition stable_path :: "'a physical_file_scheme \<Rightarrow> string option" where
  "stable_path f = stableLocalFilePath (pf_localPath f) (pr_platform (pf_folder f))"

definition samePhysicalFile :: "'a physical_file_scheme \<Rightarrow> 'a physical_file_scheme \<Rightarrow> bool" where
  "samePhysicalFile left right \<longleftrightarrow>
     (if stable_path left \<noteq> None \<and> stable_path left = stable_path right then True
      else if \<not> samePhysicalRoot (pf_folder left) (pf_folder right) (pf_localPath left) (pf_localPath right) then False
      else let caseInsensitive = (caseInsensitivePlatform (pr_platform (pf_folder left)) \<or>
               caseInsensitivePlatform (pr_platform (pf_folder right)))
        in normalizePhysicalRelativePath (pf_relativePath left) caseInsensitive =
           normalizePhysicalRelativePath (pf_relativePath right) caseInsensitive)"

definition demonstrablyDistinctPhysicalFiles :: "'a physical_file_scheme \<Rightarrow> 'a physical_file_scheme \<Rightarrow> bool" where
  "demonstrablyDistinctPhysicalFiles left right \<longleftrightarrow>
     (if samePhysicalFile left right then False
      else case (present (pr_displayName (pf_folder left)), present (pr_displayName (pf_folder right))) of
        (Some leftName, Some rightName) \<Rightarrow>
          \<not> samePhysicalFilePresentation (leftName, pf_relativePath left) (rightName, pf_relativePath right)
      | _ \<Rightarrow> True)"

section \<open>Classes of files\<close>

text \<open>\<open>find\<close> halves the path on its way to the root.\<close>

partial_function (option) find_root :: "nat list \<Rightarrow> nat \<Rightarrow> (nat \<times> nat list) option" where
  "find_root parent index =
     (if parent ! index \<noteq> index
      then let parent' = parent[index := parent ! (parent ! index)] in find_root parent' (parent' ! index)
      else Some (index, parent))"

declare find_root.simps [code]

type_synonym forest = "nat list \<times> nat list"

definition unite :: "nat \<Rightarrow> nat \<Rightarrow> forest \<Rightarrow> forest option" where
  "unite a b s =
     (case s of (parent, sz) \<Rightarrow>
        Option.bind (find_root parent a) (\<lambda>(left, parent).
        Option.bind (find_root parent b) (\<lambda>(right, parent).
        if left = right then Some (parent, sz)
        else let (left, right) = (if sz ! left < sz ! right then (right, left) else (left, right)) in
          Some (parent[right := left], sz[left := sz ! left + sz ! right]))))"

text \<open>The loop over the keys of the rows: the first row of a key is remembered, later ones are united with it.\<close>

fun unite_keys :: "(nat \<times> string) list \<Rightarrow> (string \<times> nat) list \<Rightarrow> forest \<Rightarrow> forest option" where
  "unite_keys [] seen s = Some s"
| "unite_keys ((index, key) # es) seen s =
     (case map_get seen key of
        Some prior \<Rightarrow> Option.bind (unite index prior s) (unite_keys es seen)
      | None \<Rightarrow> unite_keys es (map_set seen key index) s)"

fun find_all :: "nat list \<Rightarrow> nat list \<Rightarrow> (nat list \<times> nat list) option" where
  "find_all [] parent = Some ([], parent)"
| "find_all (i # is) parent =
     Option.bind (find_root parent i) (\<lambda>(r, parent).
     Option.bind (find_all is parent) (\<lambda>(rs, parent). Some (r # rs, parent)))"

definition alias_events :: "'a physical_file_scheme list \<Rightarrow> (nat \<times> string) list" where
  "alias_events files =
     concat (map (\<lambda>(i, f). map (Pair i) (connectedRootAliases (pf_folder f) (pf_localPath f))) (enumerate 0 files))"

definition file_keys :: "nat list \<Rightarrow> nat list \<Rightarrow> nat \<Rightarrow> 'a physical_file_scheme \<Rightarrow> string list" where
  "file_keys rootFor insensitive i f =
     (let root = rootFor ! i in
      (''root:'' @ dec root @ [CHR 0x00] @ normalizePhysicalRelativePath (pf_relativePath f) (root \<in> set insensitive)) #
      (case stable_path f of None \<Rightarrow> [] | Some p \<Rightarrow> [''absolute:'' @ p]))"

definition file_events :: "nat list \<Rightarrow> nat list \<Rightarrow> 'a physical_file_scheme list \<Rightarrow> (nat \<times> string) list" where
  "file_events rootFor insensitive files =
     concat (map (\<lambda>(i, f). map (Pair i) (file_keys rootFor insensitive i f)) (enumerate 0 files))"

definition singletons :: "nat \<Rightarrow> forest" where
  "singletons n = ([0 ..< n], replicate n 1)"

definition physicalFileClasses :: "'a physical_file_scheme list \<Rightarrow> nat list option" where
  "physicalFileClasses files =
     (let n = length files in
      Option.bind (unite_keys (alias_events files) [] (singletons n)) (\<lambda>(parent, _).
      Option.bind (find_all (map fst (filter (\<lambda>(i, f). insensitive_name (pr_platform (pf_folder f))) (enumerate 0 files))) parent)
        (\<lambda>(insensitive, parent).
      Option.bind (find_all [0 ..< n] parent) (\<lambda>(rootFor, _).
      Option.bind (unite_keys (file_events rootFor insensitive files) [] (singletons n)) (\<lambda>(parent, _).
      Option.bind (find_all [0 ..< n] parent) (\<lambda>(classes, _). Some classes))))))"

section \<open>Duplicates\<close>

definition shown_name :: "duplicate_candidate \<Rightarrow> string" where
  "shown_name f = (case pr_displayName (pf_folder f) of None \<Rightarrow> [] | Some n \<Rightarrow> n)"

definition by_shown :: "(string \<Rightarrow> string \<Rightarrow> int) \<Rightarrow> duplicate_candidate \<Rightarrow> duplicate_candidate \<Rightarrow> int" where
  "by_shown localeCompare a b =
     (let n = localeCompare (shown_name a) (shown_name b) in
      if n \<noteq> 0 then n
      else let p = localeCompare (pf_relativePath a) (pf_relativePath b) in
        if p \<noteq> 0 then p else localeCompare (dc_id a) (dc_id b))"

definition presentation_key :: "duplicate_candidate \<Rightarrow> string" where
  "presentation_key f = to_lower (trim (shown_name f)) @ [CHR 0x00] @ to_lower (replace_char backslash slash (pf_relativePath f))"

text \<open>The first file of each class, in the order of the list.\<close>

definition representatives_of :: "(string \<times> nat) list \<Rightarrow> duplicate_candidate list \<Rightarrow> (nat \<times> duplicate_candidate) list" where
  "representatives_of classById ordered =
     foldl (\<lambda>m f. let c = the (map_get classById (dc_id f)) in if map_get m c = None then map_set m c f else m) [] ordered"

definition presentations_of :: "duplicate_candidate list \<Rightarrow> (string \<times> duplicate_candidate list) list" where
  "presentations_of representatives =
     foldl (\<lambda>m f. let key = presentation_key f; files = (case map_get m key of None \<Rightarrow> [] | Some fs \<Rightarrow> fs)
       in map_set m key (if length files < 2 then files @ [f] else files)) [] representatives"

definition other_file :: "(string \<times> nat) list \<Rightarrow> duplicate_candidate \<Rightarrow> duplicate_candidate \<Rightarrow> bool" where
  "other_file classById f candidate \<longleftrightarrow>
     dc_id candidate \<noteq> dc_id f \<and> map_get classById (dc_id candidate) \<noteq> map_get classById (dc_id f) \<and>
     demonstrablyDistinctPhysicalFiles f candidate"

definition duplicate_pool :: "(string \<Rightarrow> string \<Rightarrow> int) \<Rightarrow> (string \<times> nat) list \<Rightarrow> duplicate_candidate list \<Rightarrow> duplicate_candidate list" where
  "duplicate_pool localeCompare classById members =
     (let ordered = sort_cmp (by_shown localeCompare) members;
          presentations = presentations_of (map snd (representatives_of classById ordered));
          rank = foldl (\<lambda>m (i, f). map_set m (dc_id f) i) [] (enumerate 0 ordered)
      in sort_cmp (\<lambda>a b. int (the (map_get rank (dc_id a))) - int (the (map_get rank (dc_id b))))
           (concat (map snd (take 3 presentations))))"

definition class_by_id :: "duplicate_candidate list \<Rightarrow> (string \<times> nat) list option" where
  "class_by_id members =
     Option.bind (physicalFileClasses members) (\<lambda>classes.
     Some (foldl (\<lambda>m (i, f). map_set m (dc_id f) (classes ! i)) [] (enumerate 0 members)))"

definition buildChecksumDuplicateTargets ::
  "(string \<Rightarrow> string \<Rightarrow> int) \<Rightarrow> duplicate_candidate list \<Rightarrow> (string \<times> duplicate_candidate) list option" where
  "buildChecksumDuplicateTargets localeCompare members =
     Option.bind (class_by_id members) (\<lambda>classById.
     let pool = duplicate_pool localeCompare classById members
     in Some (foldl (\<lambda>m f. case find (other_file classById f) pool of None \<Rightarrow> m | Some c \<Rightarrow> map_set m (dc_id f) c) [] members))"

definition duplicateTargetFor ::
  "(string \<Rightarrow> string \<Rightarrow> int) \<Rightarrow> duplicate_candidate \<Rightarrow> duplicate_candidate list \<Rightarrow> duplicate_candidate option option" where
  "duplicateTargetFor localeCompare f members =
     Option.bind (buildChecksumDuplicateTargets localeCompare
        (members @ (if list_ex (\<lambda>c. dc_id c = dc_id f) members then [] else [f])))
       (\<lambda>targets. Some (map_get targets (dc_id f)))"

text \<open>One row for each physical file, a row of the current session before others.\<close>

definition collapseHistoricalPhysicalFiles :: "duplicate_candidate list \<Rightarrow> string \<Rightarrow> duplicate_candidate list option" where
  "collapseHistoricalPhysicalFiles candidates currentScanSessionId =
     Option.bind (physicalFileClasses candidates) (\<lambda>classes.
     Some (map snd (foldl (\<lambda>m (i, c).
        if map_get m (classes ! i) = None \<or> dc_sessionId c = currentScanSessionId then map_set m (classes ! i) c else m)
        [] (enumerate 0 candidates))))"

end
