(* ===== verification/UnionFind.thy ===== *)
theory UnionFind
  imports PhysicalFiles
begin

text \<open>
  The disjoint sets of \<open>physicalFileClasses\<close>. A forest represents a function that sends every index to the
  root of its set; \<open>find\<close> answers that function and always ends, and the loop over the keys of the rows
  computes the equivalence that the shared keys generate.
\<close>

section \<open>Forests\<close>

text \<open>\<open>R\<close> is the root of every index; \<open>h\<close> falls along the parents, so that every path ends.\<close>

definition represents_roots :: "nat list \<Rightarrow> (nat \<Rightarrow> nat) \<Rightarrow> (nat \<Rightarrow> nat) \<Rightarrow> bool" where
  "represents_roots parent R h \<longleftrightarrow>
     (\<forall>i < length parent. parent ! i < length parent \<and> R i < length parent \<and> R (parent ! i) = R i \<and> R (R i) = R i \<and>
        (R i = i \<longleftrightarrow> parent ! i = i) \<and> (parent ! i \<noteq> i \<longrightarrow> h (parent ! i) < h i))"

lemma represents_rootsD:
  assumes "represents_roots parent R h" "i < length parent"
  shows "parent ! i < length parent" "R i < length parent" "R (parent ! i) = R i" "R (R i) = R i"
    "R i = i \<longleftrightarrow> parent ! i = i" "parent ! i \<noteq> i \<Longrightarrow> h (parent ! i) < h i"
  using assms unfolding represents_roots_def by blast+

lemma represents_singletons: "represents_roots (fst (singletons n)) id (\<lambda>_. 0)"
  by (simp add: represents_roots_def singletons_def)

lemma represents_halved:
  assumes rep: "represents_roots parent R h" and i: "i < length parent" "parent ! i \<noteq> i"
  shows "represents_roots (parent[i := parent ! (parent ! i)]) R h"
    and "parent ! (parent ! i) < length parent" "h (parent ! (parent ! i)) < h i" "R (parent ! (parent ! i)) = R i"
proof -
  let ?p = "parent ! i"
  note di = represents_rootsD[OF rep i(1)]
  note dp = represents_rootsD[OF rep di(1)]
  show g: "parent ! ?p < length parent" "R (parent ! ?p) = R i" using dp di by simp_all
  show h: "h (parent ! ?p) < h i" using dp(6) di(6)[OF i(2)] by (cases "parent ! ?p = ?p") auto
  then have "parent ! ?p \<noteq> i" by auto
  show "represents_roots (parent[i := parent ! ?p]) R h"
    unfolding represents_roots_def
  proof (intro allI impI)
    fix j
    assume j: "j < length (parent[i := parent ! ?p])"
    then have j': "j < length parent" by simp
    note dj = represents_rootsD[OF rep j']
    show "parent[i := parent ! ?p] ! j < length (parent[i := parent ! ?p]) \<and> R j < length (parent[i := parent ! ?p]) \<and>
        R (parent[i := parent ! ?p] ! j) = R j \<and> R (R j) = R j \<and> (R j = j \<longleftrightarrow> parent[i := parent ! ?p] ! j = j) \<and>
        (parent[i := parent ! ?p] ! j \<noteq> j \<longrightarrow> h (parent[i := parent ! ?p] ! j) < h j)"
    proof (cases "j = i")
      case True
      then show ?thesis using di i g h \<open>parent ! ?p \<noteq> i\<close> by simp
    next
      case False
      then have "parent[i := parent ! ?p] ! j = parent ! j" by simp
      then show ?thesis using dj by simp
    qed
  qed
qed

lemma find_root_represents:
  assumes "represents_roots parent R h" "i < length parent"
  shows "\<exists>parent'. find_root parent i = Some (R i, parent') \<and> represents_roots parent' R h \<and> length parent' = length parent"
  using assms
proof (induction "h i" arbitrary: i parent rule: less_induct)
  case less
  show ?case
  proof (cases "parent ! i = i")
    case True
    then have "R i = i" using represents_rootsD(5)[OF less.prems] by simp
    moreover have "find_root parent i = Some (i, parent)" by (subst find_root.simps) (simp add: True)
    ultimately show ?thesis using less.prems by simp
  next
    case False
    let ?g = "parent ! (parent ! i)" and ?parent = "parent[i := parent ! (parent ! i)]"
    note halved = represents_halved[OF less.prems False]
    obtain parent' where "find_root ?parent ?g = Some (R ?g, parent')" "represents_roots parent' R h" "length parent' = length ?parent"
      using less.hyps[OF halved(3,1)] halved(2) by auto
    moreover have "find_root parent i = find_root ?parent ?g"
      using less.prems by (subst find_root.simps) (simp add: False Let_def)
    ultimately show ?thesis using halved(4) by simp
  qed
qed

lemma find_all_represents:
  assumes "represents_roots parent R h" "\<forall>i \<in> set is. i < length parent"
  shows "\<exists>parent'. find_all is parent = Some (map R is, parent') \<and> represents_roots parent' R h \<and> length parent' = length parent"
  using assms
proof (induction "is" arbitrary: parent)
  case (Cons i "is")
  obtain p1 where p1: "find_root parent i = Some (R i, p1)" "represents_roots p1 R h" "length p1 = length parent"
    using find_root_represents Cons.prems by fastforce
  with Cons.IH[of p1] Cons.prems(2) show ?case by auto
qed simp

lemma represents_linked:
  assumes rep: "represents_roots parent R h" and l: "l < length parent" "R l = l" and r: "r < length parent" "R r = r" and "l \<noteq> r"
  shows "represents_roots (parent[r := l]) (\<lambda>i. if R i = r then l else R i) (\<lambda>i. if R i = r then h i + h l + 1 else h i)"
  unfolding represents_roots_def
proof (intro allI impI)
  fix i
  assume i: "i < length (parent[r := l])"
  then have i': "i < length parent" by simp
  note di = represents_rootsD[OF rep i']
  let ?R = "\<lambda>i. if R i = r then l else R i" and ?h = "\<lambda>i. if R i = r then h i + h l + 1 else h i"
  show "parent[r := l] ! i < length (parent[r := l]) \<and> ?R i < length (parent[r := l]) \<and> ?R (parent[r := l] ! i) = ?R i \<and>
      ?R (?R i) = ?R i \<and> (?R i = i \<longleftrightarrow> parent[r := l] ! i = i) \<and>
      (parent[r := l] ! i \<noteq> i \<longrightarrow> ?h (parent[r := l] ! i) < ?h i)"
  proof (cases "i = r")
    case True
    then show ?thesis using l r \<open>l \<noteq> r\<close> by simp
  next
    case False
    then have p: "parent[r := l] ! i = parent ! i" by simp
    show ?thesis
    proof (cases "R i = r")
      case True
      then have "i \<noteq> l" "parent ! i \<noteq> i" using l \<open>l \<noteq> r\<close> di(5) False by auto
      then show ?thesis using di l \<open>l \<noteq> r\<close> p True by simp
    next
      case False
      then show ?thesis using di p by simp
    qed
  qed
qed

text \<open>\<open>unite\<close> joins the two sets, whichever root stays.\<close>

lemma unite_represents:
  assumes rep: "represents_roots parent R h" and a: "a < length parent" and b: "b < length parent"
  shows "\<exists>parent' sz' R' h'. unite a b (parent, sz) = Some (parent', sz') \<and> represents_roots parent' R' h' \<and>
    length parent' = length parent \<and>
    (\<forall>i < length parent. \<forall>j < length parent. R' i = R' j \<longleftrightarrow> R i = R j \<or> {R i, R j} \<subseteq> {R a, R b})"
proof -
  obtain p1 where p1: "find_root parent a = Some (R a, p1)" "represents_roots p1 R h" "length p1 = length parent"
    using find_root_represents[OF rep a] by blast
  obtain p2 where p2: "find_root p1 b = Some (R b, p2)" "represents_roots p2 R h" "length p2 = length parent"
    using find_root_represents[OF p1(2), of b] p1(3) b by auto
  show ?thesis
  proof (cases "R a = R b")
    case True
    then have "unite a b (parent, sz) = Some (p2, sz)" by (simp add: unite_def p1 p2)
    moreover have "R i = R j \<longleftrightarrow> R i = R j \<or> {R i, R j} \<subseteq> {R a, R b}" for i j using True by auto
    ultimately show ?thesis using p2 by (intro exI[of _ p2] exI[of _ sz] exI[of _ R] exI[of _ h]) simp
  next
    case False
    define l r where "l = (if sz ! R a < sz ! R b then R b else R a)" and "r = (if sz ! R a < sz ! R b then R a else R b)"
    have lr: "{l, r} = {R a, R b}" "l \<noteq> r" using False by (auto simp: l_def r_def)
    have "unite a b (parent, sz) = Some (p2[r := l], sz[l := sz ! l + sz ! r])"
      using False by (simp add: unite_def p1 p2 l_def r_def)
    moreover have "l < length p2" "R l = l" "r < length p2" "R r = r"
      using represents_rootsD(2,4)[OF rep a] represents_rootsD(2,4)[OF rep b] p2(3) by (auto simp: l_def r_def)
    from represents_linked[OF p2(2) this lr(2)]
    have "represents_roots (p2[r := l]) (\<lambda>i. if R i = r then l else R i) (\<lambda>i. if R i = r then h i + h l + 1 else h i)" .
    moreover have "(if R i = r then l else R i) = (if R j = r then l else R j) \<longleftrightarrow> R i = R j \<or> {R i, R j} \<subseteq> {R a, R b}" for i j
      using lr by auto
    ultimately show ?thesis using p2(3)
      by (intro exI[of _ "p2[r := l]"] exI[of _ "sz[l := sz ! l + sz ! r]"] exI[of _ "\<lambda>i. if R i = r then l else R i"]
          exI[of _ "\<lambda>i. if R i = r then h i + h l + 1 else h i"]) simp
  qed
qed

section \<open>Rows that share a key\<close>

definition linked_rows :: "(nat \<times> string) list \<Rightarrow> (nat \<times> nat) set" where
  "linked_rows es = {(i, j). \<exists>k. (i, k) \<in> set es \<and> (j, k) \<in> set es}"

lemma linked_rows_sym: "(i, j) \<in> linked_rows es \<Longrightarrow> (j, i) \<in> linked_rows es"
  by (auto simp: linked_rows_def)

lemma linked_rows_mono: "set es \<subseteq> set fs \<Longrightarrow> linked_rows es \<subseteq> linked_rows fs"
  unfolding linked_rows_def by blast

text \<open>The roots tell the sets apart that the events so far have linked.\<close>

definition roots_linked :: "nat \<Rightarrow> (nat \<Rightarrow> nat) \<Rightarrow> (nat \<times> string) list \<Rightarrow> bool" where
  "roots_linked n R es \<longleftrightarrow> (\<forall>i < n. \<forall>j < n. R i = R j \<longleftrightarrow> (i, j) \<in> (linked_rows es)\<^sup>*)"

lemma roots_linked_new:
  assumes "roots_linked n R es" "\<forall>i. (i, k) \<notin> set es"
  shows "roots_linked n R (es @ [(x, k)])"
proof -
  have "linked_rows (es @ [(x, k)]) = linked_rows es \<union> {(x, x)}"
    using assms(2) unfolding linked_rows_def by auto
  moreover have "(linked_rows es \<union> {(x, x)})\<^sup>* = (linked_rows es)\<^sup>*" by (rule rtrancl_subset) auto
  ultimately show ?thesis using assms(1) by (simp add: roots_linked_def)
qed

lemma roots_linked_old:
  assumes R: "roots_linked n R es" and y: "(y, k) \<in> set es" and bound: "\<forall>(i, k) \<in> set (es @ [(x, k)]). i < n"
    and R': "\<forall>i < n. \<forall>j < n. R' i = R' j \<longleftrightarrow> R i = R j \<or> {R i, R j} \<subseteq> {R x, R y}"
  shows "roots_linked n R' (es @ [(x, k)])"
proof -
  let ?E = "linked_rows es" and ?F = "linked_rows (es @ [(x, k)])"
  have x: "x < n" and y': "y < n" using bound y by auto
  have "?E \<subseteq> ?F" by (rule linked_rows_mono) auto
  then have sub: "?E\<^sup>* \<subseteq> ?F\<^sup>*" by (rule rtrancl_mono)
  have edge: "i < n \<and> j < n \<and> R' i = R' j" if F: "(i, j) \<in> ?F" for i j
  proof -
    obtain l where l: "(i, l) \<in> set (es @ [(x, k)])" "(j, l) \<in> set (es @ [(x, k)])" using F by (auto simp: linked_rows_def)
    then have ij: "i < n" "j < n" using bound by fastforce+
    have near: "R z = R x \<or> R z = R y" if z: "(z, k) \<in> set (es @ [(x, k)])" for z
    proof (cases "(z, k) \<in> set es")
      case True
      then have "(z, y) \<in> ?E" using y by (auto simp: linked_rows_def)
      moreover have "z < n" using bound z by fastforce
      ultimately show ?thesis using R y' unfolding roots_linked_def by blast
    qed (use z in auto)
    show ?thesis
    proof (cases "l = k")
      case True
      with near l ij R' show ?thesis by auto
    next
      case False
      with l have "(i, j) \<in> ?E" by (auto simp: linked_rows_def)
      with ij R R' show ?thesis unfolding roots_linked_def by blast
    qed
  qed
  have "R' i = R' j \<longleftrightarrow> (i, j) \<in> ?F\<^sup>*" if ij: "i < n" "j < n" for i j
  proof
    assume "(i, j) \<in> ?F\<^sup>*"
    then show "R' i = R' j" by (induction rule: rtrancl_induct) (use edge in auto)
  next
    have xy: "(x, y) \<in> ?F" "(y, x) \<in> ?F" using y by (auto simp: linked_rows_def)
    have to: "(a, b) \<in> ?F\<^sup>*" if "a < n" "b < n" "R a = R b" for a b
      using R sub that unfolding roots_linked_def by blast
    assume "R' i = R' j"
    with R' ij consider "R i = R j" | "R i = R x" "R j = R y" | "R i = R y" "R j = R x" | "R i = R x" "R j = R x" | "R i = R y" "R j = R y"
      by blast
    then show "(i, j) \<in> ?F\<^sup>*"
    proof cases
      case 2
      then have "(i, x) \<in> ?F\<^sup>*" "(y, j) \<in> ?F\<^sup>*" using to ij x y' by auto
      with xy(1) show ?thesis by (meson rtrancl_trans r_into_rtrancl)
    next
      case 3
      then have "(i, y) \<in> ?F\<^sup>*" "(x, j) \<in> ?F\<^sup>*" using to ij x y' by auto
      with xy(2) show ?thesis by (meson rtrancl_trans r_into_rtrancl)
    qed (use to ij in auto)
  qed
  then show ?thesis by (simp add: roots_linked_def)
qed

lemma unite_keys_from:
  assumes "represents_roots parent R h" "roots_linked (length parent) R ps" "\<forall>(i, k) \<in> set (ps @ es). i < length parent"
    and "\<forall>k. (case map_of seen k of None \<Rightarrow> \<forall>i. (i, k) \<notin> set ps | Some y \<Rightarrow> (y, k) \<in> set ps)"
  shows "\<exists>parent' sz' R' h'. unite_keys es seen (parent, sz) = Some (parent', sz') \<and> represents_roots parent' R' h' \<and>
    length parent' = length parent \<and> roots_linked (length parent) R' (ps @ es)"
  using assms
proof (induction es arbitrary: ps parent sz R h seen)
  case Nil
  then show ?case by auto
next
  case (Cons e es)
  obtain x k where e: "e = (x, k)" by fastforce
  have bound: "\<forall>(i, k) \<in> set ((ps @ [(x, k)]) @ es). i < length parent" using Cons.prems(3) e by simp
  have step: "unite_keys (e # es) seen (parent, sz) = (case map_of seen k of
      Some prior \<Rightarrow> Option.bind (unite x prior (parent, sz)) (unite_keys es seen)
    | None \<Rightarrow> unite_keys es (map_set seen k x) (parent, sz))" by (simp add: e)
  show ?case
  proof (cases "map_of seen k")
    case None
    with Cons.prems(4) have new: "\<forall>i. (i, k) \<notin> set ps" by (auto dest: spec[of _ k])
    have seen': "\<forall>l. (case map_of (map_set seen k x) l of None \<Rightarrow> \<forall>i. (i, l) \<notin> set (ps @ [(x, k)]) | Some y \<Rightarrow> (y, l) \<in> set (ps @ [(x, k)]))"
    proof
      fix l
      show "case map_of (map_set seen k x) l of None \<Rightarrow> \<forall>i. (i, l) \<notin> set (ps @ [(x, k)]) | Some y \<Rightarrow> (y, l) \<in> set (ps @ [(x, k)])"
        using Cons.prems(4)[rule_format, of l] by (auto split: option.splits)
    qed
    from Cons.IH[OF Cons.prems(1) roots_linked_new[OF Cons.prems(2) new] bound seen', of sz]
    show ?thesis unfolding step None by (simp add: e)
  next
    case (Some y)
    with Cons.prems(4) have y: "(y, k) \<in> set ps" by (auto dest: spec[of _ k])
    have xy: "x < length parent" "y < length parent" using Cons.prems(3) y e by auto
    obtain p1 s1 R1 h1 where u: "unite x y (parent, sz) = Some (p1, s1)" "represents_roots p1 R1 h1" "length p1 = length parent"
      and R1: "\<forall>i < length parent. \<forall>j < length parent. R1 i = R1 j \<longleftrightarrow> R i = R j \<or> {R i, R j} \<subseteq> {R x, R y}"
      using unite_represents[OF Cons.prems(1) xy, of sz] by blast
    have "\<forall>(i, k) \<in> set (ps @ [(x, k)]). i < length parent" using bound by auto
    from roots_linked_old[OF Cons.prems(2) y this R1] have linked: "roots_linked (length p1) R1 (ps @ [(x, k)])" by (simp add: u(3))
    have seen': "\<forall>l. (case map_of seen l of None \<Rightarrow> \<forall>i. (i, l) \<notin> set (ps @ [(x, k)]) | Some y \<Rightarrow> (y, l) \<in> set (ps @ [(x, k)]))"
    proof
      fix l
      show "case map_of seen l of None \<Rightarrow> \<forall>i. (i, l) \<notin> set (ps @ [(x, k)]) | Some y \<Rightarrow> (y, l) \<in> set (ps @ [(x, k)])"
        using Cons.prems(4)[rule_format, of l] Some by (auto split: option.splits)
    qed
    have "\<forall>(i, k) \<in> set ((ps @ [(x, k)]) @ es). i < length p1" using bound u(3) by simp
    from Cons.IH[OF u(2) linked this seen', of s1] show ?thesis unfolding step Some by (simp add: e u)
  qed
qed

lemma unite_keys_links:
  assumes "\<forall>(i, k) \<in> set es. i < n"
  shows "\<exists>parent sz R h. unite_keys es [] (singletons n) = Some (parent, sz) \<and> represents_roots parent R h \<and>
    length parent = n \<and> roots_linked n R es"
proof -
  have "roots_linked n id []" by (simp add: roots_linked_def linked_rows_def)
  with unite_keys_from[of "[0 ..< n]" id "\<lambda>_. 0" "[]" es "[]" "replicate n 1"] represents_singletons[of n] assms
  show ?thesis by (auto simp: singletons_def)
qed

end
