(* ===== verification/PhysicalFacts.thy ===== *)
theory PhysicalFacts
  imports UnionFind
begin

text \<open>
  The classes of \<open>physicalFileClasses\<close> are the classes of the equivalence that shared roots and paths
  generate, files that \<open>samePhysicalFile\<close> identifies are in one class, and the bounded pool of
  \<open>buildChecksumDuplicateTargets\<close> finds the target that a search through all representatives finds.
\<close>

section \<open>The relation behind the classes\<close>

definition aliases_of :: "'a physical_file_scheme \<Rightarrow> string set" where
  "aliases_of f = set (connectedRootAliases (pf_folder f) (pf_localPath f))"

definition shares_alias :: "'a physical_file_scheme list \<Rightarrow> (nat \<times> nat) set" where
  "shares_alias files = {(i, j). i < length files \<and> j < length files \<and> aliases_of (files ! i) \<inter> aliases_of (files ! j) \<noteq> {}}"

text \<open>Two rows whose roots are connected by a chain of shared aliases.\<close>

definition one_root :: "'a physical_file_scheme list \<Rightarrow> nat \<Rightarrow> nat \<Rightarrow> bool" where
  "one_root files i j \<longleftrightarrow> (i, j) \<in> (shares_alias files)\<^sup>*"

definition root_insensitive :: "'a physical_file_scheme list \<Rightarrow> nat \<Rightarrow> bool" where
  "root_insensitive files i \<longleftrightarrow>
     (\<exists>j < length files. one_root files i j \<and> insensitive_name (pr_platform (pf_folder (files ! j))))"

definition relative_key :: "'a physical_file_scheme list \<Rightarrow> nat \<Rightarrow> string" where
  "relative_key files i = normalizePhysicalRelativePath (pf_relativePath (files ! i)) (root_insensitive files i)"

definition shares_file :: "'a physical_file_scheme list \<Rightarrow> (nat \<times> nat) set" where
  "shares_file files = {(i, j). i < length files \<and> j < length files \<and>
     (one_root files i j \<and> relative_key files i = relative_key files j \<or>
      stable_path (files ! i) \<noteq> None \<and> stable_path (files ! i) = stable_path (files ! j))}"

section \<open>The events\<close>

lemma in_alias_events: "(i, k) \<in> set (alias_events files) \<longleftrightarrow> i < length files \<and> k \<in> aliases_of (files ! i)"
  unfolding alias_events_def aliases_of_def by (rule in_concat_enumerate)

lemma in_file_events: "(i, k) \<in> set (file_events roots ins files) \<longleftrightarrow> i < length files \<and> k \<in> set (file_keys roots ins i (files ! i))"
  unfolding file_events_def by (rule in_concat_enumerate)

lemma linked_alias_events: "linked_rows (alias_events files) = shares_alias files"
  by (auto simp: linked_rows_def shares_alias_def in_alias_events)

lemma nul_no_digit: "CHR 0x00 \<notin> set (dec n)"
  using digits_dec[of n] by (auto simp: list_all_iff is_digit_def)

lemma root_key_inject:
  "''root:'' @ dec m @ [CHR 0x00] @ x = ''root:'' @ dec n @ [CHR 0x00] @ y \<longleftrightarrow> m = n \<and> x = y"
proof
  assume "''root:'' @ dec m @ [CHR 0x00] @ x = ''root:'' @ dec n @ [CHR 0x00] @ y"
  then have joined: "dec m @ CHR 0x00 # x = dec n @ CHR 0x00 # y" by simp
  have cut: "takeWhile (\<lambda>c. c \<noteq> CHR 0x00) (dec k @ CHR 0x00 # z) = dec k" for k z
    using nul_no_digit[of k] by (subst takeWhile_append2) auto
  from joined have "dec m = dec n" using cut[of m x] cut[of n y] by (simp only:)
  with joined have "dec m = dec n \<and> x = y" by simp
  then show "m = n \<and> x = y" by (simp add: dec_inject)
qed simp

lemma shared_file_key:
  "(\<exists>k. k \<in> set (file_keys roots ins i f) \<and> k \<in> set (file_keys roots ins j g)) \<longleftrightarrow>
     roots ! i = roots ! j \<and> normalizePhysicalRelativePath (pf_relativePath f) (roots ! i \<in> set ins) =
       normalizePhysicalRelativePath (pf_relativePath g) (roots ! j \<in> set ins) \<or>
     stable_path f \<noteq> None \<and> stable_path f = stable_path g"
proof -
  let ?r = "\<lambda>i f. ''root:'' @ dec (roots ! i) @ [CHR 0x00] @ normalizePhysicalRelativePath (pf_relativePath f) (roots ! i \<in> set ins)"
  let ?a = "\<lambda>f. case stable_path f of None \<Rightarrow> {} | Some p \<Rightarrow> {''absolute:'' @ p}"
  have keys: "set (file_keys roots ins i f) = insert (?r i f) (?a f)" for i f
    by (simp add: file_keys_def Let_def split: option.split)
  have apart: "?r i f \<notin> ?a g" for i f g by (simp split: option.split)
  have "(\<exists>k. k \<in> set (file_keys roots ins i f) \<and> k \<in> set (file_keys roots ins j g)) \<longleftrightarrow>
      ?r i f = ?r j g \<or> (\<exists>k. k \<in> ?a f \<and> k \<in> ?a g)"
    unfolding keys using apart[of i f g] apart[of j g f] by blast
  also have "(\<exists>k. k \<in> ?a f \<and> k \<in> ?a g) \<longleftrightarrow> stable_path f \<noteq> None \<and> stable_path f = stable_path g"
    by (auto split: option.splits)
  finally show ?thesis unfolding root_key_inject by blast
qed

section \<open>The classes\<close>

lemma classes_closure:
  "\<exists>classes. physicalFileClasses files = Some classes \<and> length classes = length files \<and>
     (\<forall>i < length files. \<forall>j < length files. classes ! i = classes ! j \<longleftrightarrow> (i, j) \<in> (shares_file files)\<^sup>*)"
proof -
  let ?n = "length files"
  have "\<forall>(i, k) \<in> set (alias_events files). i < ?n" by (auto simp: in_alias_events)
  from unite_keys_links[OF this] obtain p sz R h
    where u: "unite_keys (alias_events files) [] (singletons ?n) = Some (p, sz)" "represents_roots p R h" "length p = ?n"
      and "roots_linked ?n R (alias_events files)" by blast
  then have R: "R i = R j \<longleftrightarrow> one_root files i j" if "i < ?n" "j < ?n" for i j
    using that by (simp add: roots_linked_def linked_alias_events one_root_def)
  let ?ins = "map fst (filter (\<lambda>(i, f). insensitive_name (pr_platform (pf_folder f))) (enumerate 0 files))"
  have ins: "i \<in> set ?ins \<longleftrightarrow> i < ?n \<and> insensitive_name (pr_platform (pf_folder (files ! i)))" for i
    by (rule in_filter_enumerate)
  have "\<forall>i \<in> set ?ins. i < length p" 
    unfolding u(3) by (intro ballI, drule ins[THEN iffD1]) (elim conjunct1)
  from find_all_represents[OF u(2) this] obtain p1
    where p1: "find_all ?ins p = Some (map R ?ins, p1)" "represents_roots p1 R h" "length p1 = length p" by blast
  obtain p2 where p2: "find_all [0 ..< ?n] p1 = Some (map R [0 ..< ?n], p2)"
    using find_all_represents[OF p1(2), of "[0 ..< ?n]"] p1(3) u(3) by auto
  have member: "R i \<in> set (map R ?ins) \<longleftrightarrow> root_insensitive files i" if i: "i < ?n" for i
  proof -
    have "R i \<in> set (map R ?ins) \<longleftrightarrow> (\<exists>j \<in> set ?ins. R i = R j)"
      unfolding set_map[of R ?ins] image_iff by (rule refl)
    also have "\<dots> \<longleftrightarrow> (\<exists>j < ?n. R i = R j \<and> insensitive_name (pr_platform (pf_folder (files ! j))))"
      unfolding Bex_def ins by blast
    finally have "R i \<in> set (map R ?ins) \<longleftrightarrow> \<dots>" .
    with R[OF i] show ?thesis by (auto simp: root_insensitive_def)
  qed
  let ?events = "file_events (map R [0 ..< ?n]) (map R ?ins) files"
  have "linked_rows ?events = shares_file files"
  proof -
    have "(i, j) \<in> linked_rows ?events \<longleftrightarrow> (i, j) \<in> shares_file files" for i j
    proof (cases "i < ?n \<and> j < ?n")
      case True
      then show ?thesis
        using R member by (auto simp: linked_rows_def in_file_events shares_file_def shared_file_key relative_key_def)
    qed (auto simp: linked_rows_def in_file_events shares_file_def)
    then show ?thesis by auto
  qed
  moreover have "\<forall>(i, k) \<in> set ?events. i < ?n" by (auto simp: in_file_events)
  from unite_keys_links[OF this] obtain q sz2 Q h2
    where q: "unite_keys ?events [] (singletons ?n) = Some (q, sz2)" "represents_roots q Q h2" "length q = ?n" "roots_linked ?n Q ?events"
    by blast
  obtain q1 where q1: "find_all [0 ..< ?n] q = Some (map Q [0 ..< ?n], q1)"
    using find_all_represents[OF q(2), of "[0 ..< ?n]"] q(3) by auto
  have "physicalFileClasses files = Some (map Q [0 ..< ?n])"
    unfolding physicalFileClasses_def by (simp only: Let_def u(1) p1(1) p2 q(1) q1 Option.bind.simps prod.case)
  ultimately show ?thesis using q(4) by (simp add: roots_linked_def)
qed

lemma normalize_any_case:
  assumes "normalizePhysicalRelativePath v False = normalizePhysicalRelativePath w False"
  shows "normalizePhysicalRelativePath v b = normalizePhysicalRelativePath w b"
proof -
  have "normalizePhysicalRelativePath v True = to_lower (normalizePhysicalRelativePath v False)" for v
    by (simp add: normalizePhysicalRelativePath_def Let_def to_lower_def)
  with assms show ?thesis by (cases b) simp_all
qed

lemma same_file_shares:
  assumes i: "i < length files" and j: "j < length files" and same: "samePhysicalFile (files ! i) (files ! j)"
    and plain_name: "\<forall>f \<in> set files. trim (pr_platform (pf_folder f)) = pr_platform (pf_folder f)"
  shows "(i, j) \<in> shares_file files"
proof (cases "stable_path (files ! i) \<noteq> None \<and> stable_path (files ! i) = stable_path (files ! j)")
  case True
  with i j show ?thesis unfolding shares_file_def by blast
next
  case False
  let ?ci = "\<lambda>f. caseInsensitivePlatform (pr_platform (pf_folder f))"
  from False same have "aliases_of (files ! i) \<inter> aliases_of (files ! j) \<noteq> {}"
    and rel: "normalizePhysicalRelativePath (pf_relativePath (files ! i)) (?ci (files ! i) \<or> ?ci (files ! j)) =
      normalizePhysicalRelativePath (pf_relativePath (files ! j)) (?ci (files ! i) \<or> ?ci (files ! j))"
    by (auto simp: samePhysicalFile_def samePhysicalRoot_def aliases_of_def list_ex_iff Let_def split: if_splits)
  with i j have "(i, j) \<in> shares_alias files" "(j, i) \<in> shares_alias files" by (auto simp: shares_alias_def)
  then have root: "one_root files i j" "one_root files j i" by (auto simp: one_root_def)
  have ins: "root_insensitive files i = root_insensitive files j"
    using root by (auto simp: root_insensitive_def one_root_def intro: rtrancl_trans)
  have "relative_key files i = relative_key files j"
  proof (cases "?ci (files ! i) \<or> ?ci (files ! j)")
    case True
    then have "root_insensitive files i"
      using i j root plain_name by (auto simp: root_insensitive_def caseInsensitivePlatform_def one_root_def)
    with True rel ins show ?thesis by (simp add: relative_key_def)
  next
    case False
    with rel ins show ?thesis by (auto simp: relative_key_def intro: normalize_any_case)
  qed
  with i j root show ?thesis by (simp add: shares_file_def)
qed

section \<open>Properties\<close>

text \<open>C38.
  \<open>physicalFileClasses\<close> returns a class for every file, and two files get the same class exactly when
  a chain of files leads from one to the other in which neighbours have the same full path, or the
  same relative path under roots that a chain of shared aliases connects (compared without case as soon as
  one of those roots is on Windows or macOS).\<close>

theorem classes_are_closure:
  "\<exists>classes. physicalFileClasses files = Some classes \<and> length classes = length files \<and>
     (\<forall>i < length files. \<forall>j < length files. classes ! i = classes ! j \<longleftrightarrow> (i, j) \<in> (shares_file files)\<^sup>*)"
  by (rule classes_closure)

definition sample_root :: "string \<Rightarrow> string \<Rightarrow> string option \<Rightarrow> physical_root" where
  "sample_root i path fingerprint =
     \<lparr>pr_bridgeRootId = None, pr_canonicalConnectedLibraryId = None, pr_displayName = Some i,
      pr_folderFingerprint = fingerprint, pr_id = i, pr_localPath = path, pr_platform = ''MACOS''\<rparr>"

definition sample_rows :: "physical_file list" where
  "sample_rows =
     [\<lparr>pf_localPath = None, pf_relativePath = ''a.txt'', pf_folder = sample_root ''l'' ''/l'' (Some ''f'')\<rparr>,
      \<lparr>pf_localPath = None, pf_relativePath = ''b.txt'', pf_folder = sample_root ''l'' ''/l'' (Some ''f'')\<rparr>,
      \<lparr>pf_localPath = None, pf_relativePath = ''A.TXT'', pf_folder = sample_root ''m'' ''/m'' (Some ''f'')\<rparr>]"

lemma sample_classes: "physicalFileClasses sample_rows = Some [2, 1, 2]"
  by code_simp

theorem classes_are_closure_witness:
  "(0, 2) \<in> (shares_file sample_rows)\<^sup>* \<and> (0, 1) \<notin> (shares_file sample_rows)\<^sup>*"
proof -
  have "length sample_rows = 3" by (simp add: sample_rows_def)
  with classes_are_closure[of sample_rows] have "\<forall>i < 3. \<forall>j < 3. [2, 1, 2::nat] ! i = [2, 1, 2] ! j \<longleftrightarrow> (i, j) \<in> (shares_file sample_rows)\<^sup>*"
    by (simp add: sample_classes)
  from this[rule_format, of 0 2] this[rule_format, of 0 1] show ?thesis by simp
qed

text \<open>Two rows that \<open>samePhysicalFile\<close> calls one file never end in different classes, so no duplicate is
  proposed between two sightings of one file. (The converse does not hold: classes are closed under chains,
  \<open>samePhysicalFile\<close> is not.)\<close>

theorem same_file_same_class:
  assumes "samePhysicalFile (files ! i) (files ! j)" "i < length files" "j < length files"
    and "\<forall>f \<in> set files. trim (pr_platform (pf_folder f)) = pr_platform (pf_folder f)"
  shows "\<exists>classes. physicalFileClasses files = Some classes \<and> classes ! i = classes ! j"
proof -
  have "(i, j) \<in> (shares_file files)\<^sup>*" using same_file_shares[OF assms(2,3,1,4)] by (rule r_into_rtrancl)
  with classes_closure[of files] assms(2,3) show ?thesis by blast
qed

theorem same_file_same_class_witness:
  "\<exists>classes. physicalFileClasses sample_rows = Some classes \<and> classes ! 0 = classes ! 2"
proof (rule same_file_same_class)
  show "samePhysicalFile (sample_rows ! 0) (sample_rows ! 2)" by code_simp
qed (simp_all add: sample_rows_def sample_root_def trim_def js_ws_def)

end
