(* ===== verification/DuplicateFacts.thy ===== *)
theory DuplicateFacts
  imports PhysicalFacts
begin

text \<open>
  The bounded pool of \<open>buildChecksumDuplicateTargets\<close> (two files for each of the first three
  presentations) finds for every row the target that a search through all classes finds.
\<close>

section \<open>A few of each\<close>

definition few_of_each :: "('a \<Rightarrow> 'k) \<Rightarrow> 'a list \<Rightarrow> 'a list" where
  "few_of_each key rs = concat (map (\<lambda>k. take 2 (filter (\<lambda>r. key r = k) rs)) (take 3 (unique (map key rs))))"

lemma few_of_each_subset: "set (few_of_each key rs) \<subseteq> set rs"
  by (auto simp: few_of_each_def dest!: in_set_takeD)

text \<open>The first element that is neither the excluded one nor of the excluded key is among the few.\<close>

lemma few_of_each_keeps:
  assumes rs: "rs = us @ v # vs" and "distinct rs" and "\<forall>u \<in> set us. key u = k0 \<or> u = x" and v: "key v \<noteq> k0"
  shows "v \<in> set (few_of_each key rs)"
proof -
  have "length (unique (map key us)) = card (set (map key us))"
    by (metis distinct_card distinct_unique set_unique)
  also have "\<dots> \<le> card {k0, key x}" using assms(3) by (intro card_mono) auto
  also have "\<dots> \<le> 2" by (simp add: card_insert_if)
  finally have short: "length (unique (map key us)) \<le> 2" .
  obtain zs where "unique (map key us @ [key v] @ map key vs) = unique (map key us @ [key v]) @ zs"
    using unique_prefix[of "map key us @ [key v]" "map key vs"] by auto
  then have "unique (map key rs) = unique (map key us) @ (if key v \<in> key ` set us then [] else [key v]) @ zs"
    by (simp add: rs unique_snoc)
  moreover have "key v \<in> set (take 3 (ks @ (if key v \<in> set ks then [] else [key v]) @ zs))" if "length ks \<le> 2" for ks
    using that by (auto simp: take_Cons' numeral_3_eq_3)
  ultimately have one: "key v \<in> set (take 3 (unique (map key rs)))"
    using short by (metis set_map set_unique)
  have "set (filter (\<lambda>r. key r = key v) us) \<subseteq> {x}" using assms(3) v by auto
  then have "card (set (filter (\<lambda>r. key r = key v) us)) \<le> 1" by (metis card_mono finite.intros card_1_singleton_iff One_nat_def)
  moreover have "distinct (filter (\<lambda>r. key r = key v) us)" using assms(1,2) by simp
  ultimately have "length (filter (\<lambda>r. key r = key v) us) \<le> 1" by (simp add: distinct_card del: set_filter)
  then have "v \<in> set (take 2 (filter (\<lambda>r. key r = key v) rs))" by (simp add: rs take_Cons')
  with one show ?thesis by (auto simp: few_of_each_def)
qed

section \<open>The pool\<close>

lemma presentations_closed:
  "presentations_of rs = map (\<lambda>k. (k, take 2 (filter (\<lambda>r. presentation_key r = k) rs))) (unique (map presentation_key rs))"
proof (induction rs rule: rev_induct)
  case (snoc r rs)
  let ?k = "presentation_key r" and ?ks = "unique (map presentation_key rs)"
  have "presentations_of (rs @ [r]) = (let key = ?k; files = (case map_get (presentations_of rs) key of None \<Rightarrow> [] | Some fs \<Rightarrow> fs)
       in map_set (presentations_of rs) key (if length files < 2 then files @ [r] else files))"
    by (simp add: presentations_of_def)
  also have "\<dots> = map (\<lambda>k. (k, take 2 (filter (\<lambda>r. presentation_key r = k) (rs @ [r])))) (unique (map presentation_key (rs @ [r])))"
  proof (cases "?k \<in> set ?ks")
    case True
    then show ?thesis
      unfolding snoc.IH by (auto simp: map_of_keyed map_set_there unique_snoc Let_def take_Cons' intro!: map_cong)
  next
    case False
    then have "\<forall>x \<in> set rs. presentation_key x \<noteq> ?k" by (metis image_eqI set_map set_unique)
    moreover from this have "filter (\<lambda>r. presentation_key r = ?k) rs = []" by (simp add: filter_empty_conv)
    ultimately show ?thesis using False
      unfolding snoc.IH by (auto simp: map_of_keyed map_set_new unique_snoc Let_def simp del: set_unique intro!: map_cong)
  qed
  finally show ?case .
qed (simp add: presentations_of_def unique_def)

lemma presentations_few: "concat (map snd (take 3 (presentations_of rs))) = few_of_each presentation_key rs"
  by (simp add: presentations_closed few_of_each_def take_map comp_def)

text \<open>One representative for each class, in the order of the rows.\<close>

definition class_of :: "(string \<times> nat) list \<Rightarrow> duplicate_candidate \<Rightarrow> nat" where
  "class_of classById f = the (map_get classById (dc_id f))"

lemma representatives_props:
  fixes pos :: "duplicate_candidate \<Rightarrow> nat"
  assumes "sorted_wrt (\<lambda>a b. pos a < pos b) xs"
  shows "map fst (representatives_of classById xs) = map (class_of classById) (map snd (representatives_of classById xs)) \<and>
    distinct (map fst (representatives_of classById xs)) \<and>
    fst ` set (representatives_of classById xs) = class_of classById ` set xs \<and>
    snd ` set (representatives_of classById xs) \<subseteq> set xs \<and>
    sorted_wrt (\<lambda>a b. pos a < pos b) (map snd (representatives_of classById xs))"
  using assms(1)
proof (induction xs rule: rev_induct)
  case (snoc x xs)
  let ?m = "representatives_of classById xs"
  have step: "representatives_of classById (xs @ [x]) = (if map_of ?m (class_of classById x) = None then ?m @ [(class_of classById x, x)] else ?m)"
    by (simp add: representatives_of_def class_of_def Let_def map_set_new)
  have "map_of ?m (class_of classById x) = None \<longleftrightarrow> class_of classById x \<notin> fst ` set ?m" by (rule map_of_eq_None_iff)
  with snoc show ?case unfolding step by (auto simp: sorted_wrt_append)
qed (simp add: representatives_of_def)

section \<open>Which candidates count\<close>

text \<open>A row whose names and paths the scanner wrote: no padding, no empty name, a normal relative path.\<close>

definition plain_row :: "duplicate_candidate \<Rightarrow> bool" where
  "plain_row f \<longleftrightarrow> trim (pr_platform (pf_folder f)) = pr_platform (pf_folder f) \<and> shown_name f \<noteq> [] \<and>
     CHR 0x00 \<notin> set (shown_name f) \<and>
     normalizePhysicalRelativePath (pf_relativePath f) True = to_lower (replace_char backslash slash (pf_relativePath f))"

lemma to_lower_no_nul:
  assumes "CHR 0x00 \<notin> set s" shows "CHR 0x00 \<notin> set (to_lower (trim s))"
proof -
  have "c = CHR 0x00" if nul: "to_lower_char c = CHR 0x00" for c
  proof (rule ccontr)
    assume "c \<noteq> CHR 0x00"
    with nul obtain n :: nat where "char_of (n + 32) = CHR 0x00" "n \<le> 222"
      by (auto simp: to_lower_char_def Let_def split: if_splits)
    then have "of_char (char_of (n + 32) :: char) = (0::nat)" by simp
    then have "(n + 32) mod 256 = 0" by (simp only: of_char_of)
    with \<open>n \<le> 222\<close> show False by simp
  qed
  note nul = this
  have "CHR 0x00 \<in> set (trim s)" if low: "CHR 0x00 \<in> set (to_lower (trim s))"
  proof -
    from low obtain c where "c \<in> set (trim s)" "to_lower_char c = CHR 0x00"
      unfolding to_lower_def set_map by (metis imageE)
    with nul[of c] show ?thesis by (simp only:)
  qed
  moreover have "set (trim s) \<subseteq> set s" by (auto simp: trim_def dest!: set_dropWhileD)
  ultimately show ?thesis using assms by blast
qed

lemma presentation_key_same:
  assumes "plain_row f" "plain_row g"
  shows "samePhysicalFilePresentation (shown_name f, pf_relativePath f) (shown_name g, pf_relativePath g) \<longleftrightarrow>
    presentation_key f = presentation_key g"
proof -
  let ?n = "\<lambda>f. to_lower (trim (shown_name f))" and ?p = "\<lambda>f. to_lower (replace_char backslash slash (pf_relativePath f))"
  have cut: "takeWhile (\<lambda>c. c \<noteq> CHR 0x00) (?n f @ CHR 0x00 # z) = ?n f" if "plain_row f" for f z
    using to_lower_no_nul[of "shown_name f"] that by (subst takeWhile_append2) (auto simp: plain_row_def)
  have "?n f @ CHR 0x00 # ?p f = ?n g @ CHR 0x00 # ?p g \<longleftrightarrow> ?n f = ?n g \<and> ?p f = ?p g"
  proof
    assume joined: "?n f @ CHR 0x00 # ?p f = ?n g @ CHR 0x00 # ?p g"
    then have "?n f = ?n g" using cut[OF assms(1)] cut[OF assms(2)] by metis
    with joined show "?n f = ?n g \<and> ?p f = ?p g" by simp
  qed simp
  with assms show ?thesis
    by (simp add: samePhysicalFilePresentation_def presentation_key_def plain_row_def normalizedAlias_def)
qed

lemma class_by_id_classes:
  assumes "physicalFileClasses members = Some classes" "distinct (map dc_id members)"
  shows "\<exists>classById. class_by_id members = Some classById \<and>
    (\<forall>i < length members. map_of classById (dc_id (members ! i)) = Some (classes ! i))"
proof -
  let ?classById = "foldl (\<lambda>m p. map_set m (dc_id (snd p)) (classes ! fst p)) [] (enumerate 0 members)"
  have "map_of ?classById (dc_id (members ! i)) = Some (classes ! i)" if "i < length members" for i
    using that assms(2)
      map_of_foldl_distinct[of "\<lambda>p. dc_id (snd p)" "enumerate 0 members" "(i, members ! i)" "\<lambda>p. classes ! fst p"]
    by (simp add: in_set_enumerate_eq comp_def flip: map_map[of dc_id snd, unfolded comp_def])
  then show ?thesis using assms(1) by (simp add: class_by_id_def case_prod_unfold)
qed

lemma other_file_iff:
  assumes cls: "physicalFileClasses members = Some classes" "length classes = length members"
    and same: "\<And>i j. i < length members \<Longrightarrow> j < length members \<Longrightarrow> samePhysicalFile (members ! i) (members ! j) \<Longrightarrow> classes ! i = classes ! j"
    and ids: "\<forall>i < length members. map_of classById (dc_id (members ! i)) = Some (classes ! i)"
    and plain: "\<forall>f \<in> set members. plain_row f" and f: "f \<in> set members" and g: "g \<in> set members"
  shows "other_file classById f g \<longleftrightarrow> class_of classById f \<noteq> class_of classById g \<and> presentation_key f \<noteq> presentation_key g"
proof -
  obtain i j where ij: "i < length members" "members ! i = f" "j < length members" "members ! j = g"
    using f g by (metis in_set_conv_nth)
  have got: "map_of classById (dc_id f) = Some (classes ! i)" "map_of classById (dc_id g) = Some (classes ! j)"
    using ids ij by blast+
  have shown: "present (pr_displayName (pf_folder h)) = Some (shown_name h)" if "plain_row h" for h
    using that by (auto simp: plain_row_def shown_name_def present_def split: option.splits)
  have "samePhysicalFile f g \<Longrightarrow> classes ! i = classes ! j" using same[of i j] ij by simp
  moreover have "dc_id g = dc_id f \<Longrightarrow> classes ! i = classes ! j" using got by simp
  moreover have "demonstrablyDistinctPhysicalFiles f g \<longleftrightarrow> \<not> samePhysicalFile f g \<and> presentation_key f \<noteq> presentation_key g"
    using presentation_key_same[of f g] plain f g shown[of f] shown[of g]
    by (simp add: demonstrablyDistinctPhysicalFiles_def)
  moreover have "other_file classById f g \<longleftrightarrow> dc_id g \<noteq> dc_id f \<and> classes ! j \<noteq> classes ! i \<and> demonstrablyDistinctPhysicalFiles f g"
    by (simp only: other_file_def map_get_of got option.inject)
  moreover have "class_of classById f = classes ! i" "class_of classById g = classes ! j"
    by (simp_all only: class_of_def map_get_of got option.sel)
  ultimately show ?thesis by metis
qed

section \<open>The target\<close>

text \<open>The search through the representatives of all classes, in the order of the rows.\<close>

definition first_other_file ::
  "(string \<Rightarrow> string \<Rightarrow> int) \<Rightarrow> duplicate_candidate list \<Rightarrow> (string \<times> nat) list \<Rightarrow> duplicate_candidate \<Rightarrow> duplicate_candidate option" where
  "first_other_file localeCompare members classById f =
     find (other_file classById f) (map snd (representatives_of classById (sort_cmp (by_shown localeCompare) members)))"

lemma pool_finds:
  assumes other: "\<And>g. g \<in> set members \<Longrightarrow> other_file classById f g \<longleftrightarrow>
      class_of classById f \<noteq> class_of classById g \<and> presentation_key f \<noteq> presentation_key g"
    and ids: "distinct (map dc_id members)" and f: "f \<in> set members"
  shows "find (other_file classById f) (duplicate_pool localeCompare classById members) = first_other_file localeCompare members classById f"
proof -
  let ?ordered = "sort_cmp (by_shown localeCompare) members"
  let ?ranks = "foldl (\<lambda>m (i, f). map_set m (dc_id f) i) [] (enumerate 0 ?ordered)"
  define pos where "pos g = the (map_get ?ranks (dc_id g))" for g :: duplicate_candidate
  have "mset (map dc_id ?ordered) = mset (map dc_id members)" by simp
  then have ordered: "distinct (map dc_id ?ordered)" using ids mset_eq_imp_distinct_iff by blast
  have "pos (?ordered ! i) = i" if "i < length ?ordered" for i
    using that ordered map_of_foldl_distinct[of "\<lambda>p. dc_id (snd p)" "enumerate 0 ?ordered" "(i, ?ordered ! i)" fst]
    by (simp add: pos_def in_set_enumerate_eq case_prod_unfold flip: map_map[of dc_id snd, unfolded comp_def])
  then have "sorted_wrt (\<lambda>a b. pos a < pos b) ?ordered" by (auto simp: sorted_wrt_iff_nth_less)
  note props = representatives_props[OF this, of classById]
  define reps where "reps = map snd (representatives_of classById ?ordered)"
  have same_classes: "map (class_of classById) reps = map fst (representatives_of classById ?ordered)"
    unfolding reps_def by (rule props[THEN conjunct1, symmetric])
  have increasing: "sorted_wrt (\<lambda>a b. pos a < pos b) reps" and members: "set reps \<subseteq> set members"
    using props by (simp_all add: reps_def)
  have classes: "distinct (map (class_of classById) reps)" unfolding same_classes using props by blast
  have "class_of classById ` set reps = fst ` set (representatives_of classById ?ordered)"
    using same_classes by (metis set_map)
  moreover have "fst ` set (representatives_of classById ?ordered) = class_of classById ` set members"
    using props unfolding set_sort_cmp by blast
  ultimately have all_classes: "class_of classById ` set reps = class_of classById ` set members" by (rule trans)
  have "inj_on pos (set reps)" using increasing by (auto simp: inj_on_def sorted_wrt_iff_nth_less in_set_conv_nth) (metis nat_neq_iff)
  moreover have pool: "duplicate_pool localeCompare classById members = sort_cmp (\<lambda>a b. int (pos a) - int (pos b)) (few_of_each presentation_key reps)"
    by (simp add: duplicate_pool_def presentations_few reps_def pos_def Let_def)
  let ?pool = "duplicate_pool localeCompare classById members"
  have subset: "set ?pool \<subseteq> set reps" using few_of_each_subset by (simp add: pool)
  ultimately have inj: "inj_on pos (set ?pool)" using inj_on_subset by blast
  have sorted: "sorted (map pos ?pool)" unfolding pool by (rule sorted_sort_cmp) auto
  obtain x where x: "x \<in> set reps" "class_of classById x = class_of classById f" using all_classes f by (metis imageE imageI)
  have other_rep: "other_file classById f g \<longleftrightarrow> g \<noteq> x \<and> presentation_key g \<noteq> presentation_key f" if "g \<in> set reps" for g
  proof -
    have "class_of classById g = class_of classById x \<longleftrightarrow> g = x"
      using classes that x(1) unfolding distinct_map by (meson inj_on_eq_iff)
    moreover have "g \<in> set members" using that members by blast
    ultimately show ?thesis using other[of g] x(2) by metis
  qed
  show ?thesis
  proof (cases "find (other_file classById f) reps")
    case None
    then have "\<forall>g \<in> set ?pool. \<not> other_file classById f g" using subset by (auto simp: find_None_iff)
    then have "find (other_file classById f) ?pool = None" unfolding find_None_iff by blast
    with None show ?thesis by (simp add: first_other_file_def reps_def)
  next
    case (Some v)
    then obtain i where i: "i < length reps" "v = reps ! i" "other_file classById f v" "\<forall>j < i. \<not> other_file classById f (reps ! j)"
      unfolding find_Some_iff by blast
    have split: "reps = take i reps @ v # drop (Suc i) reps" using i by (simp add: id_take_nth_drop)
    have early: "\<forall>u \<in> set (take i reps). \<not> other_file classById f u" using i by (auto simp: in_set_conv_nth)
    then have "\<forall>u \<in> set (take i reps). presentation_key u = presentation_key f \<or> u = x"
      using other_rep by (meson in_set_takeD)
    moreover have "presentation_key v \<noteq> presentation_key f" using other_rep[of v] i by simp
    moreover have "distinct reps" using classes by (simp add: distinct_map)
    ultimately have "v \<in> set ?pool" using few_of_each_keeps[OF split] by (simp add: pool)
    moreover have "pos v \<le> pos u" if "u \<in> set ?pool" "other_file classById f u" for u
    proof -
      have "u \<in> set (take i reps @ v # drop (Suc i) reps)" using that subset split by auto
      then have "u = v \<or> u \<in> set (drop (Suc i) reps)" using early that by auto
      moreover have "sorted_wrt (\<lambda>a b. pos a < pos b) (take i reps @ v # drop (Suc i) reps)" using increasing split by simp
      ultimately show ?thesis by (auto simp: sorted_wrt_append)
    qed
    ultimately have "find (other_file classById f) ?pool = Some v" using find_least[OF sorted inj] i(3) by blast
    with Some show ?thesis by (simp add: first_other_file_def reps_def)
  qed
qed

lemma targets_found:
  assumes "distinct (map dc_id xs)" "f \<in> set xs"
  shows "map_of (foldl (\<lambda>m f. case search f of None \<Rightarrow> m | Some c \<Rightarrow> map_set m (dc_id f) c) [] xs) (dc_id f) = search f"
proof -
  have new: "map_of (foldl (\<lambda>m f. case search f of None \<Rightarrow> m | Some c \<Rightarrow> map_set m (dc_id f) c) [] xs) k = None"
    if "k \<notin> dc_id ` set xs" for xs k
    using that by (induction xs rule: rev_induct) (auto split: option.split)
  show ?thesis using assms by (induction xs rule: rev_induct) (auto simp: new image_iff split: option.split)
qed

section \<open>The bounded search is the full one\<close>

text \<open>C39.
  \<open>buildChecksumDuplicateTargets\<close> compares every file with at most six candidates, two of each of the first
  three presentations. On rows as the scanner writes them
  (\<open>plain_row\<close>: the platform is trimmed, the shown name of the folder is not empty and has no NUL, and the
  relative path is normal up to case and backslashes) with distinct ids that is no loss: each file gets the target that the
  search through the representatives of all classes would find, and none exactly when that search finds none.\<close>

theorem duplicate_target_is_first:
  assumes ids: "distinct (map dc_id members)" and plain: "\<forall>f \<in> set members. plain_row f" and f: "f \<in> set members"
  shows "\<exists>classById targets. class_by_id members = Some classById \<and>
    buildChecksumDuplicateTargets localeCompare members = Some targets \<and>
    map_get targets (dc_id f) = first_other_file localeCompare members classById f"
proof -
  from classes_closure[of members] obtain classes where cls: "physicalFileClasses members = Some classes" "length classes = length members"
    and iff: "\<forall>i < length members. \<forall>j < length members. classes ! i = classes ! j \<longleftrightarrow> (i, j) \<in> (shares_file members)\<^sup>*" by blast
  have "\<forall>f \<in> set members. trim (pr_platform (pf_folder f)) = pr_platform (pf_folder f)" using plain by (simp add: plain_row_def)
  then have same: "classes ! i = classes ! j"
    if "i < length members" "j < length members" "samePhysicalFile (members ! i) (members ! j)" for i j
    using iff same_file_shares[OF that] that(1,2) by blast
  obtain classById where by_id: "class_by_id members = Some classById"
    and at: "\<forall>i < length members. map_of classById (dc_id (members ! i)) = Some (classes ! i)"
    using class_by_id_classes[OF cls(1) ids] by blast
  show ?thesis
    using by_id pool_finds[OF other_file_iff[OF cls same at plain f] ids f] 
      targets_found[OF ids f, of "\<lambda>f. find (other_file classById f) (duplicate_pool localeCompare classById members)"]
    by (simp add: buildChecksumDuplicateTargets_def)
qed

definition sample_candidate :: "string \<Rightarrow> string \<Rightarrow> string \<Rightarrow> duplicate_candidate" where
  "sample_candidate i library path =
     \<lparr>pf_localPath = None, pf_relativePath = path, pf_folder = sample_root library (slash # library) None,
      dc_id = i, dc_sessionId = ''s''\<rparr>"

definition sample_group :: "duplicate_candidate list" where
  "sample_group = [sample_candidate ''1'' ''l'' ''b'', sample_candidate ''2'' ''l'' ''a'', sample_candidate ''3'' ''l'' ''A'',
     sample_candidate ''4'' ''m'' ''b'']"

lemma sample_class_by_id: "class_by_id sample_group = Some [(''1'', 0), (''2'', 2), (''3'', 2), (''4'', 3)]"
  by code_simp

lemma sample_first: "first_other_file code_unit_compare sample_group [(''1'', 0), (''2'', 2), (''3'', 2), (''4'', 3)]
    (sample_candidate ''2'' ''l'' ''a'') = Some (sample_candidate ''1'' ''l'' ''b'')"
  by code_simp

theorem duplicate_target_is_first_witness:
  "\<exists>targets. buildChecksumDuplicateTargets code_unit_compare sample_group = Some targets \<and>
     map_get targets ''2'' = Some (sample_candidate ''1'' ''l'' ''b'')"
proof -
  have "\<forall>f \<in> set sample_group. plain_row f" unfolding sample_group_def list.set ball_simps by code_simp
  moreover have "distinct (map dc_id sample_group)" by code_simp
  moreover have "sample_candidate ''2'' ''l'' ''a'' \<in> set sample_group" by (simp add: sample_group_def)
  ultimately show ?thesis
    using duplicate_target_is_first[of sample_group "sample_candidate ''2'' ''l'' ''a''" code_unit_compare] sample_class_by_id sample_first
    by (auto simp: sample_candidate_def)
qed

end
