(* ===== verification/CloudCommands.thy ===== *)
theory CloudCommands
  imports Protocol
begin

text \<open>
  The command queue of the web application: devices, pairing codes and commands
  (\<open>src/lib/bridge/cloud-coordinator.ts\<close>, \<open>command-lifecycle.ts\<close>, the delivery in
  \<open>recoverable-commands.ts\<close>, \<open>current-readable-root.ts\<close>).

  The database is a list of rows for each table; a transaction takes its row locks before it reads, so
  it is one step. A request of several transactions is their composition, and the transactions are steps of
  their own for interleavings. Every transaction reads the clock once; ids and random bytes are arguments.
\<close>

section \<open>Rows\<close>

record device_row =
  cd_bridgeDeviceId :: string
  cd_deviceDisplayName :: string
  cd_platform :: string
  cd_architecture :: string
  cd_appVersion :: string
  cd_publicKey :: string
  cd_pairedAt :: "int option"
  cd_lastSeenAt :: "int option"
  cd_revokedAt :: "int option"
  cd_status :: device_status

record library_row =
  cl_id :: string
  cl_bridgeRootId :: "string option"
  cl_bridgeDeviceId :: "string option"
  cl_canonicalConnectedLibraryId :: "string option"
  cl_status :: string
  cl_nativeConnectionRevision :: int
  cl_disconnectedAt :: "int option"
  cl_hiddenFromActiveListAt :: "int option"
  cl_mergedAt :: "int option"
  cl_isEnabled :: bool
  cl_readPermission :: bool
  cl_watchPermission :: bool
  cl_monitoringState :: string

record code_row =
  cc_id :: string
  cc_codeHash :: string
  cc_codeSuffix :: string
  cc_requestedByUserId :: string
  cc_status :: pairing_code_status
  cc_expiresAt :: int
  cc_consumedAt :: "int option"
  cc_pairedDeviceId :: "string option"
  cc_attemptCount :: nat

record command_row =
  bc_commandId :: string
  bc_bridgeDeviceId :: string
  bc_connectedLibraryId :: "string option"
  bc_bridgeRootId :: "string option"
  bc_commandType :: command_type
  bc_status :: command_status
  bc_issuedAt :: int
  bc_expiresAt :: int
  bc_authorizationContext :: json
  bc_payload :: json
  bc_payloadHash :: string
  bc_idempotencyKey :: string
  bc_signature :: string
  bc_acknowledgedAt :: "int option"
  bc_completedAt :: "int option"
  bc_result :: "json option"
  bc_safeErrorCategory :: "string option"

record scan_row =
  cs_id :: string
  cs_connectedFolderId :: string
  cs_status :: string
  cs_completedAt :: "int option"
  cs_recommendationGeneration :: "string option"
  cs_recommendationLeaseUntil :: "int option"

text \<open>Rows of \<open>ExecutionRun\<close> and \<open>UndoRun\<close>, and of their actions.\<close>

record run_row =
  er_id :: string
  er_status :: string
  er_totalActions :: nat
  er_completedActions :: nat
  er_failedActions :: nat
  er_completedAt :: "int option"
  er_safeErrorCategory :: "string option"

record action_row =
  ea_runId :: string
  ea_status :: string
  ea_completedAt :: "int option"
  ea_safeErrorCategory :: "string option"

text \<open>What \<open>latestScannedFileObservation\<close> selects, with the status of the latest observation.\<close>

record observation_row =
  ob_fileId :: string
  ob_sessionId :: string
  ob_processingStage :: string
  ob_readingStatus :: string
  ob_extractionStatus :: string
  ob_latest :: "string option"

record audit_row =
  au_eventType :: string
  au_bridgeDeviceId :: "string option"
  au_commandId :: "string option"
  au_pairingCodeId :: "string option"

text \<open>
  \<open>w_jsonb\<close> is what the database makes of a JSON value in a \<open>Json\<close> column: the value as it is read back, its
  fields perhaps in another order, or \<open>None\<close> when it refuses the value.
\<close>

record cloud =
  w_devices :: "device_row list"
  w_libraries :: "library_row list"
  w_codes :: "code_row list"
  w_commands :: "command_row list"
  w_scans :: "scan_row list"
  w_runs :: "run_row list"
  w_runActions :: "action_row list"
  w_undoRuns :: "run_row list"
  w_undoActions :: "action_row list"
  w_observations :: "observation_row list"
  w_audit :: "audit_row list"
  w_jsonb :: "json \<Rightarrow> json option"

text \<open>A \<open>BridgeCloudError\<close> with its status and code, and the errors of the database client.\<close>

datatype cloud_error = CloudError nat string | RecordNotFound | UniqueViolation | InvalidDate | ColumnRefused

definition cloud_failure :: "nat \<Rightarrow> cloud_error" where
  "cloud_failure statusCode = CloudError statusCode ''BRIDGE_CLOUD_ERROR''"

text \<open>\<open>updateMany\<close>.\<close>

definition update_where :: "('a \<Rightarrow> bool) \<Rightarrow> ('a \<Rightarrow> 'a) \<Rightarrow> 'a list \<Rightarrow> 'a list" where
  "update_where P f rows = map (\<lambda>r. if P r then f r else r) rows"

definition audit :: "string \<Rightarrow> string option \<Rightarrow> string option \<Rightarrow> string option \<Rightarrow> cloud \<Rightarrow> cloud" where
  "audit eventType device cmd code w = w\<lparr>w_audit := w_audit w @
     [\<lparr>au_eventType = eventType, au_bridgeDeviceId = device, au_commandId = cmd, au_pairingCodeId = code\<rparr>]\<rparr>"

record cloud_config =
  cf_pairingSecret :: "string option"
  cf_signingSecret :: "string option"
  cf_production :: bool

definition configured_secret :: "string option \<Rightarrow> bool \<Rightarrow> string \<Rightarrow> (cloud_error, string) result" where
  "configured_secret variable production development =
     (case present (Option.bind variable (\<lambda>v. Some (trim v))) of
        Some secret \<Rightarrow> Inr secret
      | None \<Rightarrow> if production then Inl (cloud_failure 503) else Inr development)"

definition bridgePairingSecret :: "cloud_config \<Rightarrow> (cloud_error, string) result" where
  "bridgePairingSecret cf = configured_secret (cf_pairingSecret cf) (cf_production cf) ''development-only-bridge-pairing-secret''"

definition bridgeCommandSigningSecret :: "cloud_config \<Rightarrow> (cloud_error, string) result" where
  "bridgeCommandSigningSecret cf =
     configured_secret (cf_signingSecret cf) (cf_production cf) ''development-only-bridge-command-signing-secret''"

section \<open>Commands that never started\<close>

definition payload_text :: "string \<Rightarrow> json \<Rightarrow> string option" where
  "payload_text key payload =
     (case payload of JObj fs \<Rightarrow> (case map_get fs key of Some (JStr s) \<Rightarrow> Some s | _ \<Rightarrow> None) | _ \<Rightarrow> None)"

definition fail_scan :: "int \<Rightarrow> string \<Rightarrow> cloud \<Rightarrow> cloud" where
  "fail_scan now scanId w = w\<lparr>w_scans := update_where (\<lambda>s. cs_id s = scanId \<and> cs_status s \<in> {''PENDING'', ''SCANNING''})
     (\<lambda>s. s\<lparr>cs_status := ''FAILED'', cs_completedAt := Some now\<rparr>) (w_scans w)\<rparr>"

definition block_actions :: "int \<Rightarrow> string \<Rightarrow> string \<Rightarrow> action_row list \<Rightarrow> action_row list" where
  "block_actions now category runId = update_where (\<lambda>a. ea_runId a = runId \<and> ea_status a = ''PENDING'')
     (\<lambda>a. a\<lparr>ea_status := ''BLOCKED'', ea_completedAt := Some now, ea_safeErrorCategory := Some category\<rparr>)"

definition block_execution :: "int \<Rightarrow> string \<Rightarrow> string \<Rightarrow> cloud \<Rightarrow> cloud" where
  "block_execution now category runId w =
     (case find (\<lambda>r. er_id r = runId) (w_runs w) of
        None \<Rightarrow> w
      | Some run \<Rightarrow>
          if er_status run \<noteq> ''PENDING'' then w
          else w\<lparr>w_runActions := block_actions now category runId (w_runActions w),
            w_runs := update_where (\<lambda>r. er_id r = runId) (\<lambda>r. r\<lparr>er_status := ''BLOCKED'', er_completedAt := Some now,
              er_completedActions := er_totalActions run, er_failedActions := er_totalActions run,
              er_safeErrorCategory := Some category\<rparr>) (w_runs w)\<rparr>)"

definition block_undo :: "int \<Rightarrow> string \<Rightarrow> string \<Rightarrow> cloud \<Rightarrow> cloud" where
  "block_undo now category runId w =
     (case find (\<lambda>r. er_id r = runId) (w_undoRuns w) of
        None \<Rightarrow> w
      | Some run \<Rightarrow>
          if er_status run \<noteq> ''PENDING'' then w
          else w\<lparr>w_undoActions := block_actions now category runId (w_undoActions w),
            w_undoRuns := update_where (\<lambda>r. er_id r = runId) (\<lambda>r. r\<lparr>er_status := ''BLOCKED'', er_completedAt := Some now,
              er_failedActions := er_totalActions run, er_safeErrorCategory := Some category\<rparr>) (w_undoRuns w)\<rparr>)"

definition settle_work :: "int \<Rightarrow> string \<Rightarrow> command_row \<Rightarrow> cloud \<Rightarrow> cloud" where
  "settle_work now category row w =
     (if bc_commandType row \<in> {SCAN_LIBRARY, RECONCILE_LIBRARY}
      then (case payload_text ''scanSessionId'' (bc_payload row) of None \<Rightarrow> w | Some scanId \<Rightarrow> fail_scan now scanId w)
      else if bc_commandType row = EXECUTE_PLAN
      then (case payload_text ''executionRunId'' (bc_payload row) of None \<Rightarrow> w | Some runId \<Rightarrow> block_execution now category runId w)
      else if bc_commandType row = EXECUTE_UNDO
      then (case payload_text ''undoRunId'' (bc_payload row) of None \<Rightarrow> w | Some runId \<Rightarrow> block_undo now category runId w)
      else w)"

definition settle_command :: "int \<Rightarrow> command_status \<Rightarrow> string \<Rightarrow> command_row \<Rightarrow> cloud \<Rightarrow> cloud" where
  "settle_command now status category row w =
     (let pending = (\<lambda>r. bc_commandId r = bc_commandId row \<and> bc_status r = C_PENDING) in
      if \<not> list_ex pending (w_commands w) then w
      else settle_work now category row (w\<lparr>w_commands := update_where pending
        (\<lambda>r. r\<lparr>bc_status := status, bc_completedAt := Some now, bc_safeErrorCategory := Some category\<rparr>) (w_commands w)\<rparr>))"

definition by_commandId :: "command_row \<Rightarrow> command_row \<Rightarrow> int" where
  "by_commandId a b = code_unit_compare (bc_commandId a) (bc_commandId b)"

definition settleUnstartedCommands ::
  "int \<Rightarrow> (command_row \<Rightarrow> bool) \<Rightarrow> command_status \<Rightarrow> string \<Rightarrow> cloud \<Rightarrow> cloud" where
  "settleUnstartedCommands now selected status category w =
     foldl (\<lambda>w row. settle_command now status category row w) w
       (sort_cmp by_commandId (filter (\<lambda>r. selected r \<and> bc_status r = C_PENDING) (w_commands w)))"

definition expire_acknowledged :: "int \<Rightarrow> string \<Rightarrow> cloud \<Rightarrow> cloud" where
  "expire_acknowledged now commandId w =
     (case find (\<lambda>r. bc_commandId r = commandId) (w_commands w) of
        None \<Rightarrow> w
      | Some current \<Rightarrow>
          if \<not> (bc_status current \<in> {C_ACKNOWLEDGED, C_RUNNING} \<and> bc_expiresAt current \<le> now) then w
          else let w1 = (if bc_commandType current \<in> {SCAN_LIBRARY, RECONCILE_LIBRARY}
                 then (case payload_text ''scanSessionId'' (bc_payload current) of None \<Rightarrow> w | Some scanId \<Rightarrow> fail_scan now scanId w)
                 else w)
            in w1\<lparr>w_commands := update_where (\<lambda>r. bc_commandId r = commandId)
              (\<lambda>r. r\<lparr>bc_status := C_EXPIRED, bc_safeErrorCategory := Some ''COMMAND_EXPIRED'', bc_completedAt := Some now\<rparr>)
              (w_commands w1)\<rparr>)"

definition of_device :: "string option \<Rightarrow> command_row \<Rightarrow> bool" where
  "of_device device r \<longleftrightarrow> (case device of None \<Rightarrow> True | Some d \<Rightarrow> bc_bridgeDeviceId r = d)"

definition physical :: "command_row \<Rightarrow> bool" where
  "physical r \<longleftrightarrow> bc_commandType r \<in> {EXECUTE_PLAN, EXECUTE_UNDO}"

definition by_expiry :: "command_row \<Rightarrow> command_row \<Rightarrow> int" where
  "by_expiry a b = (if bc_expiresAt a \<noteq> bc_expiresAt b then bc_expiresAt a - bc_expiresAt b else by_commandId a b)"

definition settle_expired :: "int \<Rightarrow> string option \<Rightarrow> cloud \<Rightarrow> cloud" where
  "settle_expired now device =
     settleUnstartedCommands now (\<lambda>r. of_device device r \<and> bc_commandType r \<noteq> READ_FILE_TEMPORARILY \<and> bc_expiresAt r \<le> now)
       C_EXPIRED ''COMMAND_EXPIRED''"

definition expired_acknowledged :: "int \<Rightarrow> string option \<Rightarrow> cloud \<Rightarrow> string list" where
  "expired_acknowledged now device w =
     map bc_commandId (take 100 (sort_cmp by_expiry (filter (\<lambda>r. of_device device r \<and> \<not> physical r \<and>
       bc_commandType r \<noteq> READ_FILE_TEMPORARILY \<and> bc_status r \<in> {C_ACKNOWLEDGED, C_RUNNING} \<and> bc_expiresAt r \<le> now) (w_commands w))))"

definition expireUnstartedCommands :: "int \<Rightarrow> string option \<Rightarrow> cloud \<Rightarrow> cloud" where
  "expireUnstartedCommands now device w =
     (let w1 = settle_expired now device w
      in foldl (\<lambda>w commandId. expire_acknowledged now commandId w) w1 (expired_acknowledged now device w1))"

definition retireRootReadWork :: "int \<Rightarrow> string \<Rightarrow> cloud \<Rightarrow> cloud" where
  "retireRootReadWork now rootId w =
     w\<lparr>w_scans := update_where (\<lambda>s. cs_connectedFolderId s = rootId \<and>
           cs_status s \<in> {''PENDING'', ''SCANNING'', ''READING'', ''EXAMINING'', ''GENERATING_SUGGESTIONS''})
         (\<lambda>s. s\<lparr>cs_status := ''FAILED'', cs_completedAt := Some now, cs_recommendationGeneration := None,
            cs_recommendationLeaseUntil := None\<rparr>) (w_scans w),
       w_commands := update_where (\<lambda>r. bc_connectedLibraryId r = Some rootId \<and> \<not> physical r \<and>
           bc_commandType r \<noteq> REVOKE_ROOT_ACCESS \<and> bc_status r \<in> {C_PENDING, C_ACKNOWLEDGED, C_RUNNING})
         (\<lambda>r. r\<lparr>bc_status := C_CANCELLED, bc_completedAt := Some now, bc_safeErrorCategory := Some ''ROOT_AUTHORITY_CHANGED''\<rparr>)
         (w_commands w)\<rparr>"

end
