(* ===== verification/CloudCoordinator.thy ===== *)
theory CloudCoordinator
  imports CloudCommands
begin

text \<open>
  Devices and commands in the web application (\<open>src/lib/bridge/cloud-coordinator.ts\<close>): pairing, heartbeat and
  revocation of a device; queueing, delivering, acknowledging and completing a command.
\<close>

section \<open>Authority\<close>

definition isCurrentReadableRoot :: "library_row \<Rightarrow> bool" where
  "isCurrentReadableRoot root \<longleftrightarrow> cl_isEnabled root \<and> cl_readPermission root \<and> cl_status root = ''CONNECTED'' \<and>
     cl_disconnectedAt root = None \<and> cl_hiddenFromActiveListAt root = None \<and> cl_mergedAt root = None \<and>
     cl_canonicalConnectedLibraryId root = None"

definition deviceKeyFingerprint :: "(string \<Rightarrow> string) \<Rightarrow> string \<Rightarrow> string" where
  "deviceKeyFingerprint sha publicKey = sha publicKey"

definition commandRootAllows :: "command_type \<Rightarrow> library_row \<Rightarrow> bool" where
  "commandRootAllows commandType root \<longleftrightarrow>
     (if commandType \<in> {REVOKE_ROOT_ACCESS, UPDATE_ROOT_PERMISSIONS, PAUSE_WATCHING, STOP_WATCHING} then True
      else isCurrentReadableRoot root \<and>
        (commandType \<notin> {START_WATCHING, RESUME_WATCHING} \<or> cl_watchPermission root))"

definition find_device :: "string \<Rightarrow> cloud \<Rightarrow> device_row option" where
  "find_device bridgeDeviceId w = find (\<lambda>d. cd_bridgeDeviceId d = bridgeDeviceId) (w_devices w)"

definition find_library :: "string \<Rightarrow> cloud \<Rightarrow> library_row option" where
  "find_library libraryId w = find (\<lambda>l. cl_id l = libraryId) (w_libraries w)"

definition find_command :: "string \<Rightarrow> cloud \<Rightarrow> command_row option" where
  "find_command commandId w = find (\<lambda>r. bc_commandId r = commandId) (w_commands w)"

definition device_revoked :: "device_row \<Rightarrow> bool" where
  "device_revoked d \<longleftrightarrow> cd_status d = DEV_REVOKED \<or> cd_revokedAt d \<noteq> None"

text \<open>A device that may use its key; without an expected key any key will do.\<close>

definition device_usable :: "string option \<Rightarrow> device_row option \<Rightarrow> bool" where
  "device_usable expectedPublicKey device \<longleftrightarrow>
     (case device of None \<Rightarrow> False
      | Some d \<Rightarrow> \<not> device_revoked d \<and>
          (case present expectedPublicKey of None \<Rightarrow> True | Some k \<Rightarrow> cd_publicKey d = k))"

text \<open>\<open>rootConnectionRevision\<close> of the authorization context; another JSON value has none.\<close>

definition context_revision :: "json \<Rightarrow> json option" where
  "context_revision context = (case context of JObj fs \<Rightarrow> map_get fs ''rootConnectionRevision'' | _ \<Rightarrow> None)"

definition revision_current :: "json \<Rightarrow> library_row \<Rightarrow> bool" where
  "revision_current context root \<longleftrightarrow>
     context_revision context = Some (JNum (cl_nativeConnectionRevision root)) \<or>
     context_revision context = None \<and> cl_nativeConnectionRevision root = 0"

definition root_authorizes :: "command_row \<Rightarrow> library_row \<Rightarrow> bool" where
  "root_authorizes row root \<longleftrightarrow> revision_current (bc_authorizationContext row) root \<and>
     cl_bridgeDeviceId root = Some (bc_bridgeDeviceId row) \<and> cl_bridgeRootId root = bc_bridgeRootId row \<and>
     commandRootAllows (bc_commandType row) root"

definition authorizedBridgeCommands :: "command_row list \<Rightarrow> cloud \<Rightarrow> command_row list" where
  "authorizedBridgeCommands rows w =
     filter (\<lambda>row. case present (bc_connectedLibraryId row) of
          None \<Rightarrow> bc_commandType row \<in> {SELECT_FOLDERS, REGISTER_ROOT}
        | Some libraryId \<Rightarrow> (case find_library libraryId w of None \<Rightarrow> False | Some root \<Rightarrow> root_authorizes row root)) rows"

section \<open>Devices\<close>

record device_summary =
  ds_appVersion :: string
  ds_architecture :: string
  ds_bridgeDeviceId :: string
  ds_deviceDisplayName :: string
  ds_lastSeenAt :: "string option"
  ds_pairedAt :: "string option"
  ds_platform :: string
  ds_revokedAt :: "string option"
  ds_status :: device_status

definition deviceSummary :: "crypto \<Rightarrow> device_row \<Rightarrow> device_summary" where
  "deviceSummary cr d =
     \<lparr>ds_appVersion = cd_appVersion d, ds_architecture = cd_architecture d, ds_bridgeDeviceId = cd_bridgeDeviceId d,
      ds_deviceDisplayName = cd_deviceDisplayName d, ds_lastSeenAt = map_option (cr_iso cr) (cd_lastSeenAt d),
      ds_pairedAt = map_option (cr_iso cr) (cd_pairedAt d), ds_platform = normalizeBridgePlatform (cd_platform d),
      ds_revokedAt = map_option (cr_iso cr) (cd_revokedAt d), ds_status = cd_status d\<rparr>"

definition expirePairingCodes :: "int \<Rightarrow> cloud \<Rightarrow> cloud" where
  "expirePairingCodes now w = w\<lparr>w_codes := update_where (\<lambda>c. cc_expiresAt c \<le> now \<and> cc_status c = CODE_ACTIVE)
     (\<lambda>c. c\<lparr>cc_status := CODE_EXPIRED\<rparr>) (w_codes w)\<rparr>"

definition activePairingCodeLimit :: nat where "activePairingCodeLimit = 5"

text \<open>The count of the active codes, and the insertion that follows it.\<close>

definition pairing_code_admitted :: "int \<Rightarrow> string \<Rightarrow> cloud \<Rightarrow> bool" where
  "pairing_code_admitted now actorUserId w =
     pairingRateLimitAllows (length (filter (\<lambda>c. now < cc_expiresAt c \<and> cc_requestedByUserId c = actorUserId \<and>
       cc_status c = CODE_ACTIVE) (w_codes w))) (Some activePairingCodeLimit)"

definition insert_pairing_code :: "pairing_code \<Rightarrow> string \<Rightarrow> string \<Rightarrow> cloud \<Rightarrow> (cloud_error, unit) result \<times> cloud" where
  "insert_pairing_code pairing rowId actorUserId w =
     (if list_ex (\<lambda>c. cc_codeHash c = pc_codeHash pairing \<or> cc_id c = rowId) (w_codes w) then (Inl UniqueViolation, w)
      else (Inr (), audit ''PAIRING_CODE_CREATED'' None None (Some rowId) (w\<lparr>w_codes := w_codes w @
        [\<lparr>cc_id = rowId, cc_codeHash = pc_codeHash pairing, cc_codeSuffix = pc_codeSuffix pairing,
          cc_requestedByUserId = actorUserId, cc_status = CODE_ACTIVE, cc_expiresAt = pc_expiresAt pairing,
          cc_consumedAt = None, cc_pairedDeviceId = None, cc_attemptCount = 0\<rparr>]\<rparr>)))"

definition createBridgePairingCode ::
  "crypto \<Rightarrow> cloud_config \<Rightarrow> int \<Rightarrow> nat list \<Rightarrow> string \<Rightarrow> string \<Rightarrow> cloud \<Rightarrow> (cloud_error, pairing_code) result \<times> cloud" where
  "createBridgePairingCode cr cf now bytes rowId actorUserId w =
     (let w = expirePairingCodes now w in
      if \<not> pairing_code_admitted now actorUserId w then (Inl (cloud_failure 429), w)
      else case bridgePairingSecret cf of
        Inl e \<Rightarrow> (Inl e, w)
      | Inr secret \<Rightarrow>
          let pairing = createPairingCode (cr_hmac cr) bytes secret now in
          (case insert_pairing_code pairing rowId actorUserId w of
             (Inl e, w) \<Rightarrow> (Inl e, w)
           | (Inr _, w) \<Rightarrow> (Inr pairing, w)))"

definition redemption_of :: "registration_request \<Rightarrow> string \<Rightarrow> string \<Rightarrow> code_row \<Rightarrow> redemption" where
  "redemption_of registration secret actorUserId code =
     \<lparr>rd_actorUserId = actorUserId, rd_appVersion = rg_appVersion registration, rd_codeHash = cc_codeHash code,
      rd_expectedUserId = cc_requestedByUserId code, rd_expiresAt = Some (cc_expiresAt code),
      rd_pairingCode = rg_pairingCode registration, rd_pairingSecret = secret, rd_publicKey = rg_publicKey registration,
      rd_status = cc_status code\<rparr>"

definition validation_name :: "validation_code \<Rightarrow> string" where
  "validation_name c = (case c of WRONG_USER \<Rightarrow> ''WRONG_USER'' | PAIRING_CODE_USED \<Rightarrow> ''PAIRING_CODE_USED''
     | PAIRING_CODE_EXPIRED \<Rightarrow> ''PAIRING_CODE_EXPIRED'' | PAIRING_CODE_MISMATCH \<Rightarrow> ''PAIRING_CODE_MISMATCH''
     | PUBLIC_KEY_REQUIRED \<Rightarrow> ''PUBLIC_KEY_REQUIRED'' | APP_VERSION_REQUIRED \<Rightarrow> ''APP_VERSION_REQUIRED'' | _ \<Rightarrow> [])"

text \<open>What \<open>pairBridgeDevice\<close> does before its transaction: it counts a failed attempt.\<close>

definition pair_check ::
  "crypto \<Rightarrow> int \<Rightarrow> string \<Rightarrow> string \<Rightarrow> registration_request \<Rightarrow> cloud \<Rightarrow> (cloud_error, string) result \<times> cloud" where
  "pair_check cr now secret actorUserId registration w =
     (case find (\<lambda>c. cc_codeHash c = hashPairingCode (cr_hmac cr) (rg_pairingCode registration) secret) (w_codes w) of
        None \<Rightarrow> (Inl (CloudError 401 ''PAIRING_CODE_INVALID''), w)
      | Some pairing \<Rightarrow>
          let validation = validatePairingRedemption (cr_hmac cr) (redemption_of registration secret actorUserId pairing) now in
          if \<not> validation_ok validation
          then (Inl (CloudError 401 (validation_name validation)),
            w\<lparr>w_codes := update_where (\<lambda>c. cc_id c = cc_id pairing) (\<lambda>c. c\<lparr>cc_attemptCount := cc_attemptCount c + 1\<rparr>) (w_codes w)\<rparr>)
          else (Inr (cc_id pairing), w))"

definition upsert_device :: "int \<Rightarrow> registration_request \<Rightarrow> cloud \<Rightarrow> cloud" where
  "upsert_device now registration w =
     (let fresh = (\<lambda>d. d\<lparr>cd_appVersion := rg_appVersion registration, cd_architecture := rg_architecture registration,
            cd_deviceDisplayName := rg_deviceDisplayName registration, cd_lastSeenAt := None, cd_pairedAt := Some now,
            cd_platform := rg_platform registration, cd_publicKey := rg_publicKey registration, cd_revokedAt := None,
            cd_status := PAIRED\<rparr>) in
      if find_device (rg_bridgeDeviceId registration) w = None
      then w\<lparr>w_devices := w_devices w @
        [\<lparr>cd_bridgeDeviceId = rg_bridgeDeviceId registration, cd_deviceDisplayName = rg_deviceDisplayName registration,
          cd_platform = rg_platform registration, cd_architecture = rg_architecture registration,
          cd_appVersion = rg_appVersion registration, cd_publicKey = rg_publicKey registration, cd_pairedAt = Some now,
          cd_lastSeenAt = None, cd_revokedAt = None, cd_status = PAIRED\<rparr>]\<rparr>
      else w\<lparr>w_devices := update_where (\<lambda>d. cd_bridgeDeviceId d = rg_bridgeDeviceId registration) fresh (w_devices w)\<rparr>)"

text \<open>Both a revocation and a new key close the roots of a device and end its work.\<close>

definition close_device_roots :: "int \<Rightarrow> string \<Rightarrow> string \<Rightarrow> cloud \<Rightarrow> cloud" where
  "close_device_roots now bridgeDeviceId category w =
     (let ofDevice = (\<lambda>l. cl_bridgeDeviceId l = Some bridgeDeviceId);
          w1 = w\<lparr>w_libraries := update_where ofDevice (\<lambda>l. l\<lparr>cl_isEnabled := False, cl_disconnectedAt := Some now,
            cl_status := ''DISCONNECTED'', cl_monitoringState := ''STOPPED'', cl_watchPermission := False\<rparr>) (w_libraries w)\<rparr>;
          w2 = foldl (\<lambda>w rootId. retireRootReadWork now rootId w) w1
            (sort_cmp code_unit_compare (map cl_id (filter ofDevice (w_libraries w1))))
      in settleUnstartedCommands now (\<lambda>r. bc_bridgeDeviceId r = bridgeDeviceId) C_CANCELLED category w2)"

definition pair_transaction ::
  "crypto \<Rightarrow> int \<Rightarrow> string \<Rightarrow> string \<Rightarrow> registration_request \<Rightarrow> string \<Rightarrow> cloud \<Rightarrow> (cloud_error, device_summary) result \<times> cloud" where
  "pair_transaction cr now secret actorUserId registration pairingId w =
     (case find (\<lambda>c. cc_id c = pairingId) (w_codes w) of
        None \<Rightarrow> (Inl RecordNotFound, w)
      | Some current \<Rightarrow>
          let validation = validatePairingRedemption (cr_hmac cr) (redemption_of registration secret actorUserId current) now;
              bridgeDeviceId = rg_bridgeDeviceId registration in
          if \<not> validation_ok validation then (Inl (CloudError 401 (validation_name validation)), w)
          else let previous = find_device bridgeDeviceId w;
              w1 = upsert_device now registration w;
              w2 = (case previous of None \<Rightarrow> w1
                | Some d \<Rightarrow> if cd_publicKey d \<noteq> rg_publicKey registration
                    then close_device_roots now bridgeDeviceId ''DEVICE_KEY_CHANGED'' w1 else w1);
              w3 = w2\<lparr>w_codes := update_where (\<lambda>c. cc_id c = pairingId) (\<lambda>c. c\<lparr>cc_consumedAt := Some now,
                cc_pairedDeviceId := Some bridgeDeviceId, cc_status := CODE_CONSUMED\<rparr>) (w_codes w2)\<rparr>
            in (Inr (deviceSummary cr (the (find_device bridgeDeviceId w1))),
              audit ''DEVICE_PAIRED'' (Some bridgeDeviceId) None (Some pairingId) w3))"

text \<open>\<open>others\<close> is what other requests do before the transaction.\<close>

definition pairBridgeDevice ::
  "crypto \<Rightarrow> cloud_config \<Rightarrow> int \<Rightarrow> int \<Rightarrow> nat list \<Rightarrow> string \<Rightarrow> registration_request \<Rightarrow> (cloud \<Rightarrow> cloud) \<Rightarrow> cloud \<Rightarrow>
    (cloud_error, device_summary) result \<times> cloud" where
  "pairBridgeDevice cr cf now later bytes actorUserId input others w =
     (let registration = normalizeDeviceRegistration bytes input in
      case bridgePairingSecret cf of
        Inl e \<Rightarrow> (Inl e, w)
      | Inr secret \<Rightarrow>
          (case pair_check cr now secret actorUserId registration w of
             (Inl e, w) \<Rightarrow> (Inl e, w)
           | (Inr pairingId, w) \<Rightarrow> pair_transaction cr later secret actorUserId registration pairingId (others w)))"

record heartbeat =
  hb_appVersion :: "string option"
  hb_architecture :: "string option"
  hb_platform :: "string option"

text \<open>A field that is no text is \<open>None\<close>.\<close>

definition trimmed_or :: "string option \<Rightarrow> string \<Rightarrow> string" where
  "trimmed_or value existing = (case present (Option.bind value (\<lambda>v. Some (trim v))) of Some t \<Rightarrow> t | None \<Rightarrow> existing)"

definition recordBridgeHeartbeat ::
  "crypto \<Rightarrow> int \<Rightarrow> string \<Rightarrow> heartbeat \<Rightarrow> string option \<Rightarrow> cloud \<Rightarrow> (cloud_error, device_summary) result \<times> cloud" where
  "recordBridgeHeartbeat cr now bridgeDeviceId input expectedPublicKey w =
     (if \<not> device_usable expectedPublicKey (find_device bridgeDeviceId w)
      then (Inl (CloudError 401 ''DEVICE_NOT_PAIRED''), w)
      else let seen = (\<lambda>d. d\<lparr>cd_appVersion := trimmed_or (hb_appVersion input) (cd_appVersion d),
             cd_architecture := trimmed_or (hb_architecture input) (cd_architecture d), cd_lastSeenAt := Some now,
             cd_platform := (case hb_platform input of None \<Rightarrow> cd_platform d
               | Some p \<Rightarrow> if p \<in> {''WINDOWS'', ''MACOS'', ''LINUX'', ''UNKNOWN''} then p else cd_platform d),
             cd_status := ONLINE\<rparr>);
             w1 = w\<lparr>w_devices := update_where (\<lambda>d. cd_bridgeDeviceId d = bridgeDeviceId) seen (w_devices w)\<rparr>
        in (Inr (deviceSummary cr (the (find_device bridgeDeviceId w1))),
          audit ''HEARTBEAT_RECEIVED'' (Some bridgeDeviceId) None None w1))"

definition revokeBridgeDevice :: "crypto \<Rightarrow> int \<Rightarrow> string \<Rightarrow> cloud \<Rightarrow> (cloud_error, device_summary) result \<times> cloud" where
  "revokeBridgeDevice cr now bridgeDeviceId w =
     (case find_device bridgeDeviceId w of
        None \<Rightarrow> (Inl RecordNotFound, w)
      | Some d \<Rightarrow>
          let w1 = w\<lparr>w_devices := update_where (\<lambda>d. cd_bridgeDeviceId d = bridgeDeviceId)
                (\<lambda>d. d\<lparr>cd_revokedAt := Some now, cd_status := DEV_REVOKED\<rparr>) (w_devices w)\<rparr>;
              w2 = close_device_roots now bridgeDeviceId ''DEVICE_REVOKED'' w1
          in (Inr (deviceSummary cr (the (find_device bridgeDeviceId w1))),
            audit ''DEVICE_REVOKED'' (Some bridgeDeviceId) None None w2))"

end
