(* ===== verification/CloudQueue.thy ===== *)
theory CloudQueue
  imports CloudCoordinator
begin

text \<open>
  Queueing, delivering, acknowledging and completing a command (\<open>src/lib/bridge/cloud-coordinator.ts\<close>), and the
  delivery of recoverable commands (\<open>recoverable-commands.ts\<close>).
\<close>

section \<open>Queueing\<close>

record cloud_command_input =
  cc_authorizationContext :: "json option"
  cc_bridgeDeviceId :: string
  cc_bridgeRootId :: "string option"
  cc_commandType :: command_type
  cc_connectedLibraryId :: "string option"
  cc_expiresAt_in :: "int option"
  cc_idempotencyKey :: "string option"
  cc_payload :: "json option"

text \<open>The root of the command, if it names one.\<close>

definition assertCommandTarget :: "cloud_command_input \<Rightarrow> cloud \<Rightarrow> (cloud_error, library_row option) result" where
  "assertCommandTarget input w =
     (case present (cc_connectedLibraryId input) of
        None \<Rightarrow> if cc_commandType input \<notin> {SELECT_FOLDERS, REGISTER_ROOT} then Inl (cloud_failure 403) else Inr None
      | Some libraryId \<Rightarrow>
          (case find_library libraryId w of
             None \<Rightarrow> Inl (cloud_failure 404)
           | Some library \<Rightarrow>
               if cl_bridgeDeviceId library \<noteq> Some (cc_bridgeDeviceId input) then Inl (cloud_failure 403)
               else if present (cc_bridgeRootId input) = None \<or> cl_bridgeRootId library \<noteq> cc_bridgeRootId input
               then Inl (cloud_failure 403)
               else if \<not> commandRootAllows (cc_commandType input) library then Inl (CloudError 403 ''ROOT_NOT_CONNECTED'')
               else Inr (Some library)))"

definition bound_context :: "(string \<Rightarrow> string) \<Rightarrow> json option \<Rightarrow> library_row option \<Rightarrow> device_row \<Rightarrow> json" where
  "bound_context sha context root device =
     (case root of
        None \<Rightarrow> coalesce context (JObj [])
      | Some r \<Rightarrow> JObj (map_set (map_set (case context of Some (JObj fs) \<Rightarrow> fs | _ \<Rightarrow> [])
          ''rootConnectionRevision'' (JNum (cl_nativeConnectionRevision r)))
          ''deviceKeyFingerprint'' (JStr (deviceKeyFingerprint sha (cd_publicKey device)))))"

definition commandEnvelopeFromRow :: "crypto \<Rightarrow> command_row \<Rightarrow> command_envelope" where
  "commandEnvelopeFromRow cr row =
     \<lparr>env_authorizationContext = bc_authorizationContext row, env_bridgeDeviceId = bc_bridgeDeviceId row,
      env_bridgeRootId = bc_bridgeRootId row, env_commandId = bc_commandId row, env_commandType = bc_commandType row,
      env_connectedLibraryId = bc_connectedLibraryId row, env_expiresAt = cr_iso cr (bc_expiresAt row),
      env_idempotencyKey = bc_idempotencyKey row, env_issuedAt = cr_iso cr (bc_issuedAt row), env_payload = bc_payload row,
      env_payloadHash = bc_payloadHash row, env_signature = bc_signature row\<rparr>"

text \<open>The row that is written, with the context and the payload as their columns give them back.\<close>

definition row_of_envelope :: "command_envelope \<Rightarrow> json \<Rightarrow> json \<Rightarrow> int \<Rightarrow> int \<Rightarrow> command_row" where
  "row_of_envelope e context payload issuedAt expiresAt =
     \<lparr>bc_commandId = env_commandId e, bc_bridgeDeviceId = env_bridgeDeviceId e,
      bc_connectedLibraryId = env_connectedLibraryId e, bc_bridgeRootId = env_bridgeRootId e,
      bc_commandType = env_commandType e, bc_status = C_PENDING, bc_issuedAt = issuedAt, bc_expiresAt = expiresAt,
      bc_authorizationContext = context, bc_payload = payload,
      bc_payloadHash = env_payloadHash e, bc_idempotencyKey = env_idempotencyKey e, bc_signature = env_signature e,
      bc_acknowledgedAt = None, bc_completedAt = None, bc_result = None, bc_safeErrorCategory = None\<rparr>"

definition insert_command :: "crypto \<Rightarrow> command_envelope \<Rightarrow> cloud \<Rightarrow> (cloud_error, command_envelope) result \<times> cloud" where
  "insert_command cr envelope w =
     (case find (\<lambda>r. bc_idempotencyKey r = env_idempotencyKey envelope) (w_commands w) of
        Some existing \<Rightarrow> (Inr (commandEnvelopeFromRow cr existing), w)
      | None \<Rightarrow>
          (case (cr_time cr (env_issuedAt envelope), cr_time cr (env_expiresAt envelope)) of
             (Some issuedAt, Some expiresAt) \<Rightarrow>
               (case (w_jsonb w (env_authorizationContext envelope), w_jsonb w (env_payload envelope)) of
                  (Some context, Some payload) \<Rightarrow>
                    if find_command (env_commandId envelope) w \<noteq> None then (Inl UniqueViolation, w)
                    else let row = row_of_envelope envelope context payload issuedAt expiresAt in
                      (Inr (commandEnvelopeFromRow cr row),
                       audit ''COMMAND_CREATED'' (Some (bc_bridgeDeviceId row)) (Some (bc_commandId row)) None
                         (w\<lparr>w_commands := w_commands w @ [row]\<rparr>))
                | _ \<Rightarrow> (Inl ColumnRefused, w))
           | _ \<Rightarrow> (Inl InvalidDate, w)))"

definition createBridgeCloudCommand ::
  "crypto \<Rightarrow> cloud_config \<Rightarrow> int \<Rightarrow> string \<Rightarrow> string \<Rightarrow> cloud_command_input \<Rightarrow> cloud \<Rightarrow>
    (cloud_error, command_envelope) result \<times> cloud" where
  "createBridgeCloudCommand cr cf now uuid1 uuid2 input w =
     (case find_device (cc_bridgeDeviceId input) w of
        None \<Rightarrow> (Inl (cloud_failure 403), w)
      | Some device \<Rightarrow>
          if device_revoked device then (Inl (cloud_failure 403), w)
          else case assertCommandTarget input w of
            Inl e \<Rightarrow> (Inl e, w)
          | Inr root \<Rightarrow>
              (case bridgeCommandSigningSecret cf of
                 Inl e \<Rightarrow> (Inl e, w)
               | Inr secret \<Rightarrow> insert_command cr (createBridgeCommandEnvelope cr now uuid1 uuid2
                   \<lparr>ci_authorizationContext = Some (bound_context (cr_sha cr) (cc_authorizationContext input) root device),
                    ci_bridgeDeviceId = cc_bridgeDeviceId input, ci_bridgeRootId = cc_bridgeRootId input,
                    ci_commandId = None, ci_commandType = cc_commandType input,
                    ci_connectedLibraryId = cc_connectedLibraryId input, ci_expiresAt = cc_expiresAt_in input,
                    ci_idempotencyKey = cc_idempotencyKey input, ci_issuedAt = None,
                    ci_payload = Some (coalesce (cc_payload input) (JObj [])), ci_signingSecret = secret\<rparr>) w))"

text \<open>What \<open>queueExecutionCommandForApprovedPlan\<close> selects of a plan.\<close>

record queued_plan =
  qp_id :: string
  qp_actions :: json
  qp_warnings :: json
  qp_scanSessionId :: string
  qp_status :: string
  qp_totalActions :: int
  qp_library :: library_row

definition queueExecutionCommandForApprovedPlan ::
  "crypto \<Rightarrow> cloud_config \<Rightarrow> int \<Rightarrow> string \<Rightarrow> string \<Rightarrow> string \<Rightarrow> queued_plan option \<Rightarrow> cloud \<Rightarrow>
    (cloud_error, command_envelope option) result \<times> cloud" where
  "queueExecutionCommandForApprovedPlan cr cf now uuid1 uuid2 confirmation found w =
     (if confirmation \<noteq> ''EXECUTE'' then (Inl (cloud_failure 400), w)
      else case found of
        None \<Rightarrow> (Inl (cloud_failure 404), w)
      | Some plan \<Rightarrow>
          (case present (cl_bridgeDeviceId (qp_library plan)) of
             None \<Rightarrow> (Inr None, w)
           | Some device \<Rightarrow>
               if qp_status plan \<noteq> ''READY_FOR_EXECUTION'' then (Inl (cloud_failure 409), w)
               else if qp_totalActions plan \<le> 0 then (Inl (cloud_failure 409), w)
               else if \<not> cl_isEnabled (qp_library plan) \<or> cl_status (qp_library plan) = ''DISCONNECTED''
               then (Inl (cloud_failure 409), w)
               else if present (cl_bridgeRootId (qp_library plan)) = None then (Inl (cloud_failure 409), w)
               else case createBridgeCloudCommand cr cf now uuid1 uuid2
                   \<lparr>cc_authorizationContext = Some (JObj [(''approvedBy'', JStr ''Deanne''), (''confirmation'', JStr ''EXECUTE''),
                      (''expiresReason'', JStr ''Organization execution commands are short-lived and plan-specific.'')]),
                    cc_bridgeDeviceId = device, cc_bridgeRootId = cl_bridgeRootId (qp_library plan),
                    cc_commandType = EXECUTE_PLAN, cc_connectedLibraryId = Some (cl_id (qp_library plan)),
                    cc_expiresAt_in = None, cc_idempotencyKey = Some (''execute-plan:'' @ qp_id plan),
                    cc_payload = Some (JObj [(''actions'', qp_actions plan), (''organizationPlanId'', JStr (qp_id plan)),
                      (''scanSessionId'', JStr (qp_scanSessionId plan)), (''warnings'', qp_warnings plan)])\<rparr> w of
                   (Inl e, w) \<Rightarrow> (Inl e, w)
                 | (Inr envelope, w) \<Rightarrow> (Inr (Some envelope), w)))"

section \<open>Delivering\<close>

definition by_issue :: "command_row \<Rightarrow> command_row \<Rightarrow> int" where
  "by_issue a b = bc_issuedAt a - bc_issuedAt b"

definition fetchPendingBridgeCloudCommands ::
  "crypto \<Rightarrow> int \<Rightarrow> string \<Rightarrow> cloud \<Rightarrow> (cloud_error, command_envelope list) result \<times> cloud" where
  "fetchPendingBridgeCloudCommands cr now bridgeDeviceId w =
     (case recordBridgeHeartbeat cr now bridgeDeviceId \<lparr>hb_appVersion = None, hb_architecture = None, hb_platform = None\<rparr> None w of
        (Inl e, w) \<Rightarrow> (Inl e, w)
      | (Inr _, w) \<Rightarrow>
          let w = expireUnstartedCommands now None w;
              rows = sort_cmp by_issue (filter (\<lambda>r. bc_bridgeDeviceId r = bridgeDeviceId \<and> now < bc_expiresAt r \<and>
                bc_status r = C_PENDING) (w_commands w))
          in (Inr (map (commandEnvelopeFromRow cr) (authorizedBridgeCommands rows w)), w))"

text \<open>The rows that \<open>fetchRecoverableBridgeCommands\<close> selects, and its last transaction over rows selected before.\<close>

definition recoverable_rows :: "int \<Rightarrow> string \<Rightarrow> cloud \<Rightarrow> command_row list" where
  "recoverable_rows now bridgeDeviceId w =
     sort_cmp by_issue (filter (\<lambda>r. bc_bridgeDeviceId r = bridgeDeviceId \<and>
       (now < bc_expiresAt r \<and> bc_status r \<in> {C_PENDING, C_ACKNOWLEDGED, C_RUNNING} \<or>
        physical r \<and> bc_status r \<in> {C_ACKNOWLEDGED, C_RUNNING})) (w_commands w))"

definition deliver_recoverable ::
  "crypto \<Rightarrow> string \<Rightarrow> string option \<Rightarrow> command_row list \<Rightarrow> cloud \<Rightarrow> (cloud_error, command_envelope list) result" where
  "deliver_recoverable cr bridgeDeviceId expectedPublicKey rows w =
     (if \<not> device_usable expectedPublicKey (find_device bridgeDeviceId w) then Inl (cloud_failure 401)
      else Inr (map (commandEnvelopeFromRow cr) (authorizedBridgeCommands rows w)))"

section \<open>Acknowledging\<close>

text \<open>The row that the transaction answers.\<close>

definition acknowledge_transaction ::
  "int \<Rightarrow> string \<Rightarrow> string \<Rightarrow> string option \<Rightarrow> cloud \<Rightarrow> (cloud_error, command_row) result \<times> cloud" where
  "acknowledge_transaction now bridgeDeviceId commandId expectedPublicKey w =
     (case find_command commandId w of
        None \<Rightarrow> (Inl (cloud_failure 404), w)
      | Some row \<Rightarrow>
          let settled = (\<lambda>status category. let w' = settleUnstartedCommands now (\<lambda>r. bc_commandId r = commandId) status category w
                in (Inr (the (find_command commandId w')), w'));
              authorized = (case present (bc_connectedLibraryId row) of None \<Rightarrow> True
                | Some libraryId \<Rightarrow> (case find_library libraryId w of None \<Rightarrow> False | Some root \<Rightarrow> root_authorizes row root))
          in if bc_bridgeDeviceId row \<noteq> bridgeDeviceId then (Inl (cloud_failure 404), w)
            else if bc_status row \<notin> {C_PENDING, C_ACKNOWLEDGED, C_RUNNING} then (Inr row, w)
            else if \<not> device_usable expectedPublicKey (find_device bridgeDeviceId w) then (Inl (cloud_failure 401), w)
            else if \<not> authorized then
              if bc_status row = C_PENDING then settled C_CANCELLED ''ROOT_NOT_CONNECTED'' else (Inl (cloud_failure 403), w)
            else if bc_status row \<noteq> C_PENDING then (Inr row, w)
            else if bridgeCommandIsExpired (Some (bc_expiresAt row)) now then settled C_EXPIRED ''COMMAND_EXPIRED''
            else let w1 = w\<lparr>w_commands := update_where (\<lambda>r. bc_commandId r = commandId)
                   (\<lambda>r. r\<lparr>bc_acknowledgedAt := Some now, bc_status := C_ACKNOWLEDGED\<rparr>) (w_commands w)\<rparr>
              in (Inr (the (find_command commandId w1)), audit ''COMMAND_ACKNOWLEDGED'' (Some bridgeDeviceId) (Some commandId) None w1))"

definition acknowledgeBridgeCloudCommand ::
  "crypto \<Rightarrow> int \<Rightarrow> string \<Rightarrow> string \<Rightarrow> string option \<Rightarrow> cloud \<Rightarrow> (cloud_error, command_envelope) result \<times> cloud" where
  "acknowledgeBridgeCloudCommand cr now bridgeDeviceId commandId expectedPublicKey w =
     (case acknowledge_transaction now bridgeDeviceId commandId expectedPublicKey w of
        (Inl e, w) \<Rightarrow> (Inl e, w)
      | (Inr row, w) \<Rightarrow>
          (if bc_status row = C_CANCELLED then Inl (cloud_failure 403)
           else if bc_status row = C_EXPIRED then Inl (cloud_failure 410)
           else Inr (commandEnvelopeFromRow cr row), w))"

section \<open>Completing\<close>

record cloud_report =
  cp_commandId :: string
  cp_status :: command_status
  cp_result :: "json option"
  cp_safeErrorCategory :: "string option"

definition usableObservation :: "string option \<Rightarrow> bool" where
  "usableObservation session \<longleftrightarrow> session \<in> {Some ''AWAITING_REVIEW'', Some ''APPROVED'', Some ''MODIFIED''}"

definition observation_durable :: "json \<Rightarrow> cloud \<Rightarrow> bool" where
  "observation_durable payload w =
     (case present (payload_text ''scannedFileId'' payload) of
        None \<Rightarrow> False
      | Some fileId \<Rightarrow>
          (case find (\<lambda>o'. ob_fileId o' = fileId) (w_observations w) of
             None \<Rightarrow> False
           | Some file \<Rightarrow> Some (ob_sessionId file) = payload_text ''scanSessionId'' payload \<and>
               ob_readingStatus file = ''READ'' \<and> ob_extractionStatus file = ''COMPLETED'' \<and>
               usableObservation (ob_latest file) \<and>
               ob_processingStage file \<in> {''EXAMINED'', ''SUGGESTIONS_GENERATED'', ''RECOMMENDATIONS_READY''}))"

definition completeBridgeCloudCommand ::
  "crypto \<Rightarrow> int \<Rightarrow> string \<Rightarrow> cloud_report \<Rightarrow> cloud \<Rightarrow> (cloud_error, command_envelope) result \<times> cloud" where
  "completeBridgeCloudCommand cr now bridgeDeviceId report w =
     (case find_command (cp_commandId report) w of
        None \<Rightarrow> (Inl (cloud_failure 404), w)
      | Some row \<Rightarrow>
          if bc_bridgeDeviceId row \<noteq> bridgeDeviceId then (Inl (cloud_failure 404), w)
          else if bc_status row \<in> {C_COMPLETED, C_FAILED, C_REJECTED, C_EXPIRED, C_CANCELLED}
          then (Inr (commandEnvelopeFromRow cr row), w)
          else if \<not> commandStatusAllowsCompletion (bc_status row) then (Inl (cloud_failure 409), w)
          else if bc_commandType row = READ_FILE_TEMPORARILY \<and> cp_status report = C_COMPLETED \<and>
            \<not> observation_durable (bc_payload row) w then (Inl (CloudError 503 ''OBSERVATION_IN_PROGRESS''), w)
          else if Option.bind (cp_result report) (w_jsonb w) = None \<and> cp_result report \<noteq> None then (Inl ColumnRefused, w)
          else let recovering = (cp_safeErrorCategory report = Some ''COMMAND_RECOVERY_REQUIRED'');
              w1 = w\<lparr>w_commands := update_where (\<lambda>r. bc_commandId r = cp_commandId report \<and> bc_status r \<in> {C_ACKNOWLEDGED, C_RUNNING})
                (\<lambda>r. r\<lparr>bc_completedAt := (if recovering then None else Some now), bc_result := Option.bind (cp_result report) (w_jsonb w),
                   bc_safeErrorCategory := cp_safeErrorCategory report,
                   bc_status := (if recovering then C_RUNNING else cp_status report)\<rparr>) (w_commands w)\<rparr>
            in (Inr (commandEnvelopeFromRow cr (the (find_command (cp_commandId report) w1))),
                audit (if cp_status report = C_COMPLETED then ''COMMAND_COMPLETED'' else ''COMMAND_REJECTED'')
                  (Some bridgeDeviceId) (Some (cp_commandId report)) None w1))"

end
