(* ===== verification/CloudSteps.thy ===== *)
theory CloudSteps
  imports CloudQueue
begin

text \<open>
  The transactions of the command queue as steps that interleave, and what each of them does to a row of the
  command table: its binding never changes, a finished row never changes, and an acknowledged physical
  command changes only by a report on it.
\<close>

section \<open>Steps\<close>

text \<open>
  What other modules write: they settle scans and reads (\<open>execution-reconciliation.ts\<close>,
  \<open>remote-read-commands.ts\<close>, \<open>observation-recovery.ts\<close>, \<open>remote-scan-queue.ts\<close>) and never touch devices or
  pairing codes.
\<close>

definition settled_elsewhere :: "command_row \<Rightarrow> command_row \<Rightarrow> bool" where
  "settled_elsewhere r r' \<longleftrightarrow> r' = r \<or>
     bc_commandType r \<in> {SCAN_LIBRARY, RECONCILE_LIBRARY, READ_FILE_TEMPORARILY} \<and>
     bc_status r \<in> {C_PENDING, C_ACKNOWLEDGED, C_RUNNING} \<and>
     (\<exists>s at category result. s \<in> {C_COMPLETED, C_FAILED, C_EXPIRED, C_CANCELLED} \<and>
        r' = r\<lparr>bc_status := s, bc_completedAt := at, bc_safeErrorCategory := category, bc_result := result\<rparr>)"

text \<open>
  The event of a step names the command that a report is about, or the ids that \<open>expireUnstartedCommands\<close>
  selects. It expires each of them later, in a transaction of its own: \<open>past\<close> are the events before the step.
\<close>

datatype cloud_event = Reported string | Selected int "string list" | Other

inductive cloud_step :: "crypto \<Rightarrow> cloud_event list \<Rightarrow> cloud_event \<Rightarrow> cloud \<Rightarrow> cloud \<Rightarrow> bool" for cr past where
  queued: "cloud_step cr past Other w (snd (createBridgeCloudCommand cr cf now uuid1 uuid2 input w))"
| acknowledged: "cloud_step cr past Other w (snd (acknowledge_transaction now bridgeDeviceId commandId key w))"
| completed: "cp_status report \<in> {C_COMPLETED, C_FAILED, C_REJECTED} \<Longrightarrow>
    cloud_step cr past (Reported (cp_commandId report)) w (snd (completeBridgeCloudCommand cr now bridgeDeviceId report w))"
| settled: "cloud_step cr past Other w (settle_expired now device w)"
| selected: "cloud_step cr past (Selected now (expired_acknowledged now device w)) w w"
| expired: "Selected now ids \<in> set past \<Longrightarrow> commandId \<in> set ids \<Longrightarrow> cloud_step cr past Other w (expire_acknowledged now commandId w)"
| retired: "cloud_step cr past Other w (retireRootReadWork now rootId w)"
| revoked: "cloud_step cr past Other w (snd (revokeBridgeDevice cr now bridgeDeviceId w))"
| pair_checked: "cloud_step cr past Other w (snd (pair_check cr now secret actor registration w))"
| paired: "cloud_step cr past Other w (snd (pair_transaction cr now secret actor registration pairingId w))"
| heartbeat: "cloud_step cr past Other w (snd (recordBridgeHeartbeat cr now bridgeDeviceId input key w))"
| codes_expired: "cloud_step cr past Other w (expirePairingCodes now w)"
| code_inserted: "cloud_step cr past Other w (snd (insert_pairing_code pairing rowId actor w))"
| elsewhere: "w_devices w' = w_devices w \<Longrightarrow> w_codes w' = w_codes w \<Longrightarrow>
    list_all2 settled_elsewhere (w_commands w) (w_commands w') \<Longrightarrow> cloud_step cr past Other w w'"

inductive cloud_run :: "crypto \<Rightarrow> cloud_event list \<Rightarrow> cloud_event list \<Rightarrow> cloud \<Rightarrow> cloud \<Rightarrow> bool" for cr past where
  start: "cloud_run cr past [] w w"
| more: "cloud_run cr past es w w' \<Longrightarrow> cloud_step cr (past @ es) e w' w'' \<Longrightarrow> cloud_run cr past (es @ [e]) w w''"

section \<open>What a transaction leaves alone\<close>

lemma set_update_where: "set (update_where P f rows) = {if P r then f r else r | r. r \<in> set rows}"
  by (auto simp: update_where_def)

lemma map_update_where: "(\<And>r. g (f r) = g r) \<Longrightarrow> map g (update_where P f rows) = map g rows"
  by (simp add: update_where_def comp_def if_distrib)

lemma audit_simps [simp]:
  "w_commands (audit t d c p w) = w_commands w" "w_devices (audit t d c p w) = w_devices w"
  "w_codes (audit t d c p w) = w_codes w"
  by (simp_all add: audit_def)

lemma fail_scan_simps [simp]:
  "w_commands (fail_scan n s w) = w_commands w" "w_devices (fail_scan n s w) = w_devices w"
  "w_codes (fail_scan n s w) = w_codes w"
  by (simp_all add: fail_scan_def)

lemma settle_work_simps [simp]:
  "w_commands (settle_work n c r w) = w_commands w" "w_devices (settle_work n c r w) = w_devices w"
  "w_codes (settle_work n c r w) = w_codes w"
  by (simp_all add: settle_work_def block_execution_def block_undo_def split: option.split)

lemma settle_command_simps [simp]:
  "w_devices (settle_command n s c r w) = w_devices w" "w_codes (settle_command n s c r w) = w_codes w"
  by (simp_all add: settle_command_def Let_def)

lemma settle_fold_simps:
  "w_devices (foldl (\<lambda>w row. settle_command n s c row w) w rows) = w_devices w"
  "w_codes (foldl (\<lambda>w row. settle_command n s c row w) w rows) = w_codes w"
  by (induction rows arbitrary: w) simp_all

lemma settle_simps [simp]:
  "w_devices (settleUnstartedCommands n P s c w) = w_devices w" "w_codes (settleUnstartedCommands n P s c w) = w_codes w"
  by (simp_all add: settleUnstartedCommands_def settle_fold_simps)

lemma expire_acknowledged_simps [simp]:
  "w_devices (expire_acknowledged n i w) = w_devices w" "w_codes (expire_acknowledged n i w) = w_codes w"
  by (auto simp: expire_acknowledged_def Let_def split: option.split)

lemma retire_simps [simp]:
  "w_devices (retireRootReadWork n i w) = w_devices w" "w_codes (retireRootReadWork n i w) = w_codes w"
  by (simp_all add: retireRootReadWork_def)

lemma retire_fold_simps [simp]:
  "w_devices (foldl (\<lambda>w i. retireRootReadWork n i w) w is) = w_devices w"
  "w_codes (foldl (\<lambda>w i. retireRootReadWork n i w) w is) = w_codes w"
  by (induction "is" arbitrary: w) simp_all

lemma close_roots_simps [simp]:
  "w_devices (close_device_roots n d c w) = w_devices w" "w_codes (close_device_roots n d c w) = w_codes w"
  by (simp_all add: close_device_roots_def Let_def)

lemma upsert_simps [simp]:
  "w_commands (upsert_device n rg w) = w_commands w" "w_codes (upsert_device n rg w) = w_codes w"
  by (simp_all add: upsert_device_def Let_def)

section \<open>A row of the command table\<close>

definition row_finished :: "command_row \<Rightarrow> bool" where
  "row_finished r \<longleftrightarrow> bc_status r \<in> {C_COMPLETED, C_FAILED, C_REJECTED, C_EXPIRED, C_CANCELLED}"

text \<open>The row as it was queued, whatever became of it.\<close>

definition queued_row :: "command_row \<Rightarrow> command_row" where
  "queued_row r = r\<lparr>bc_status := C_PENDING, bc_acknowledgedAt := None, bc_completedAt := None, bc_result := None,
     bc_safeErrorCategory := None\<rparr>"

lemma queued_row_fields:
  assumes "queued_row r = queued_row r'"
  shows "bc_commandId r' = bc_commandId r" "bc_bridgeDeviceId r' = bc_bridgeDeviceId r" "physical r' = physical r"
    "commandEnvelopeFromRow cr r' = commandEnvelopeFromRow cr r"
  using assms by (cases r; cases r'; simp add: queued_row_def physical_def commandEnvelopeFromRow_def)+

definition row_step :: "cloud_event \<Rightarrow> command_row \<Rightarrow> command_row \<Rightarrow> bool" where
  "row_step e r r' \<longleftrightarrow> queued_row r = queued_row r' \<and>
     (r' = r \<or> \<not> row_finished r \<and> bc_status r' \<noteq> C_PENDING \<and>
        (physical r \<and> bc_status r \<noteq> C_PENDING \<longrightarrow> e = Reported (bc_commandId r)))"

lemma row_step_refl [simp]: "row_step e r r"
  by (simp add: row_step_def)

lemma row_step_trans: "row_step e r r' \<Longrightarrow> row_step e r' r'' \<Longrightarrow> row_step e r r''"
  using queued_row_fields[of r r'] by (auto simp: row_step_def)

definition rows_step :: "cloud_event \<Rightarrow> command_row list \<Rightarrow> command_row list \<Rightarrow> bool" where
  "rows_step e = list_all2 (row_step e)"

lemma rows_step_refl [simp]: "rows_step e rs rs"
  by (simp add: rows_step_def list_all2_refl)

lemma rows_step_trans: "rows_step e rs rs' \<Longrightarrow> rows_step e rs' rs'' \<Longrightarrow> rows_step e rs rs''"
  unfolding rows_step_def by (rule list_all2_trans[of "row_step e"]) (rule row_step_trans)

lemma rows_step_ids: "rows_step e rs rs' \<Longrightarrow> map bc_commandId rs' = map bc_commandId rs"
  unfolding rows_step_def by (induction rule: list_all2_induct) (auto simp: row_step_def dest: queued_row_fields)

lemma rows_step_update:
  assumes "\<And>r. r \<in> set rs \<Longrightarrow> P r \<Longrightarrow> row_step e r (f r)"
  shows "rows_step e rs (update_where P f rs)"
  using assms by (auto simp: rows_step_def update_where_def list_all2_map2 intro: list.rel_refl_strong)

lemma rows_step_fold:
  assumes "\<And>w x. rows_step e (w_commands w) (w_commands (f w x))"
  shows "rows_step e (w_commands w) (w_commands (foldl f w xs))"
  using assms by (induction xs arbitrary: w) (auto intro: rows_step_trans)

lemma settle_command_rows:
  "status \<noteq> C_PENDING \<Longrightarrow> rows_step e (w_commands w) (w_commands (settle_command n status c row w))"
  by (auto simp: settle_command_def Let_def row_step_def queued_row_def row_finished_def intro!: rows_step_update)

lemma settle_rows:
  "status \<noteq> C_PENDING \<Longrightarrow> rows_step e (w_commands w) (w_commands (settleUnstartedCommands n P status c w))"
  unfolding settleUnstartedCommands_def by (intro rows_step_fold settle_command_rows)

lemma retire_rows: "rows_step e (w_commands w) (w_commands (retireRootReadWork n i w))"
  by (auto simp: retireRootReadWork_def row_step_def queued_row_def row_finished_def intro!: rows_step_update)

lemma retire_all_rows: "rows_step e (w_commands w) (w_commands (foldl (\<lambda>w i. retireRootReadWork n i w) (w\<lparr>w_libraries := ls\<rparr>) is))"
  using rows_step_fold[of e "\<lambda>w i. retireRootReadWork n i w" "w\<lparr>w_libraries := ls\<rparr>" "is"] retire_rows by simp

lemma close_roots_rows: "rows_step e (w_commands w) (w_commands (close_device_roots n d c w))"
  unfolding close_device_roots_def Let_def
  by (rule rows_step_trans[OF retire_all_rows settle_rows]) simp

section \<open>A step and the table\<close>

text \<open>Device ids and command ids are unique in their tables.\<close>

definition keyed :: "cloud \<Rightarrow> bool" where
  "keyed w \<longleftrightarrow> distinct (map bc_commandId (w_commands w)) \<and> distinct (map cd_bridgeDeviceId (w_devices w))"

lemma find_unique:
  assumes "find (\<lambda>r. key r = k) rs = Some x" "distinct (map key rs)" "r \<in> set rs" "key r = k"
  shows "r = x"
proof -
  have "x \<in> set rs" "key x = k" using assms(1) by (auto simp: find_Some_iff)
  with assms show ?thesis by (auto simp: distinct_map dest: inj_onD)
qed

lemma row_step_change:
  "queued_row r = queued_row r' \<Longrightarrow> \<not> row_finished r \<Longrightarrow> bc_status r' \<noteq> C_PENDING \<Longrightarrow>
    (physical r \<Longrightarrow> bc_status r \<noteq> C_PENDING \<Longrightarrow> e = Reported (bc_commandId r)) \<Longrightarrow> row_step e r r'"
  by (simp add: row_step_def)

lemma expire_rows:
  assumes "keyed w" "\<And>r. r \<in> set (w_commands w) \<Longrightarrow> bc_commandId r = commandId \<Longrightarrow> physical r \<Longrightarrow> e = Reported commandId"
  shows "rows_step e (w_commands w) (w_commands (expire_acknowledged now commandId w))"
proof (cases "find (\<lambda>r. bc_commandId r = commandId) (w_commands w)")
  case (Some current)
  have "rows_step e (w_commands w) (update_where (\<lambda>r. bc_commandId r = commandId)
      (\<lambda>r. r\<lparr>bc_status := C_EXPIRED, bc_safeErrorCategory := Some ''COMMAND_EXPIRED'', bc_completedAt := Some now\<rparr>) (w_commands w))"
    if "bc_status current \<in> {C_ACKNOWLEDGED, C_RUNNING}"
  proof (rule rows_step_update)
    fix r assume r: "r \<in> set (w_commands w)" "bc_commandId r = commandId"
    with Some assms(1) have "r = current" by (auto simp: keyed_def intro: find_unique)
    with that r assms(2) show "row_step e r (r\<lparr>bc_status := C_EXPIRED, bc_safeErrorCategory := Some ''COMMAND_EXPIRED'', bc_completedAt := Some now\<rparr>)"
      by (intro row_step_change) (auto simp: queued_row_def row_finished_def)
  qed
  with Some show ?thesis by (simp add: expire_acknowledged_def Let_def split: option.split)
qed (simp add: expire_acknowledged_def)

lemma acknowledge_rows:
  assumes "keyed w"
  shows "rows_step e (w_commands w) (w_commands (snd (acknowledge_transaction now d i key w)))"
proof (cases "find_command i w")
  case (Some row)
  have "rows_step e (w_commands w) (update_where (\<lambda>r. bc_commandId r = i)
      (\<lambda>r. r\<lparr>bc_acknowledgedAt := Some now, bc_status := C_ACKNOWLEDGED\<rparr>) (w_commands w))"
    if "bc_status row = C_PENDING"
  proof (rule rows_step_update)
    fix r assume "r \<in> set (w_commands w)" "bc_commandId r = i"
    with Some assms have "r = row" by (auto simp: keyed_def find_command_def intro: find_unique)
    with that show "row_step e r (r\<lparr>bc_acknowledgedAt := Some now, bc_status := C_ACKNOWLEDGED\<rparr>)"
      by (intro row_step_change) (auto simp: queued_row_def row_finished_def)
  qed
  with Some show ?thesis by (simp add: acknowledge_transaction_def Let_def settle_rows)
qed (simp add: acknowledge_transaction_def)

lemma complete_rows:
  assumes "cp_status report \<noteq> C_PENDING"
  shows "rows_step (Reported (cp_commandId report)) (w_commands w) (w_commands (snd (completeBridgeCloudCommand cr now d report w)))"
  using assms
  by (auto simp: completeBridgeCloudCommand_def Let_def queued_row_def row_finished_def split: option.split
    intro!: rows_step_update row_step_change)

lemma revoke_rows: "rows_step e (w_commands w) (w_commands (snd (revokeBridgeDevice cr now d w)))"
  using close_roots_rows[of e "w\<lparr>w_devices := ds\<rparr>" for ds]
  by (auto simp: revokeBridgeDevice_def Let_def split: option.split)

lemma pair_rows: "rows_step e (w_commands w) (w_commands (snd (pair_transaction cr now s a rg i w)))"
  using close_roots_rows[of e "upsert_device now rg w"]
  by (auto simp: pair_transaction_def Let_def split: option.split)

lemma elsewhere_row:
  assumes "settled_elsewhere r r'"
  shows "row_step e r r'"
proof (cases "r' = r")
  case False
  with assms obtain s at category result where
    type: "bc_commandType r \<in> {SCAN_LIBRARY, RECONCILE_LIBRARY, READ_FILE_TEMPORARILY}"
    and status: "bc_status r \<in> {C_PENDING, C_ACKNOWLEDGED, C_RUNNING}" "s \<in> {C_COMPLETED, C_FAILED, C_EXPIRED, C_CANCELLED}"
    and r': "r' = r\<lparr>bc_status := s, bc_completedAt := at, bc_safeErrorCategory := category, bc_result := result\<rparr>"
    unfolding settled_elsewhere_def by blast
  show ?thesis unfolding r'
  proof (rule row_step_change)
    show "e = Reported (bc_commandId r)" if "physical r" using that type by (auto simp: physical_def)
  qed (use status in \<open>auto simp: queued_row_def row_finished_def\<close>)
qed simp

lemma elsewhere_rows: "list_all2 settled_elsewhere rs rs' \<Longrightarrow> rows_step e rs rs'"
  unfolding rows_step_def by (erule list_all2_mono) (rule elsewhere_row)

text \<open>Queueing adds at most one row, for a device that is not revoked.\<close>

lemma create_rows:
  "w_commands (snd (createBridgeCloudCommand cr cf now u1 u2 input w)) = w_commands w \<or>
   (\<exists>row d. w_commands (snd (createBridgeCloudCommand cr cf now u1 u2 input w)) = w_commands w @ [row] \<and>
      bc_commandId row \<notin> set (map bc_commandId (w_commands w)) \<and>
      find_device (bc_bridgeDeviceId row) w = Some d \<and> \<not> device_revoked d)"
proof -
  have insert: "w_commands (snd (insert_command cr e w)) = w_commands w \<or>
      (\<exists>row. w_commands (snd (insert_command cr e w)) = w_commands w @ [row] \<and>
        bc_commandId row \<notin> set (map bc_commandId (w_commands w)) \<and> bc_bridgeDeviceId row = env_bridgeDeviceId e)" for e
    by (auto simp: insert_command_def row_of_envelope_def find_command_def find_None_iff Let_def split: option.split)
  show ?thesis
  proof (cases "find_device (cc_bridgeDeviceId input) w")
    case (Some d)
    have device: "env_bridgeDeviceId (createBridgeCommandEnvelope cr now u1 u2 ci) = ci_bridgeDeviceId ci" for ci
      by (simp add: createBridgeCommandEnvelope_def Let_def unsigned_envelope.defs)
    show ?thesis
    proof (cases "device_revoked d \<or> (\<exists>e. assertCommandTarget input w = Inl e) \<or> (\<exists>e. bridgeCommandSigningSecret cf = Inl e)")
      case True
      with Some show ?thesis by (auto simp: createBridgeCloudCommand_def split: sum.split)
    next
      case False
      then obtain root secret where "\<not> device_revoked d" "assertCommandTarget input w = Inr root" "bridgeCommandSigningSecret cf = Inr secret"
        by (metis sum.exhaust)
      with Some insert device show ?thesis by (simp add: createBridgeCloudCommand_def) (metis command_input.select_convs(2))
    qed
  qed (simp add: createBridgeCloudCommand_def)
qed

lemma create_simps [simp]:
  "w_devices (snd (createBridgeCloudCommand cr cf now u1 u2 input w)) = w_devices w"
  "w_codes (snd (createBridgeCloudCommand cr cf now u1 u2 input w)) = w_codes w"
  by (simp_all add: createBridgeCloudCommand_def insert_command_def Let_def split: option.split sum.split)

text \<open>Every step: the old rows in place, each with a step of its own, or one new row behind them.\<close>

definition adds_row :: "cloud \<Rightarrow> cloud \<Rightarrow> bool" where
  "adds_row w w' \<longleftrightarrow> w_devices w' = w_devices w \<and>
     (\<exists>row d. w_commands w' = w_commands w @ [row] \<and> bc_commandId row \<notin> set (map bc_commandId (w_commands w)) \<and>
        find_device (bc_bridgeDeviceId row) w = Some d \<and> \<not> device_revoked d)"

lemma step_cases:
  assumes "cloud_step cr past e w w'" "keyed w"
  shows "rows_step e (w_commands w) (w_commands w') \<or> adds_row w w' \<or>
    (\<exists>now ids commandId. Selected now ids \<in> set past \<and> commandId \<in> set ids \<and> w' = expire_acknowledged now commandId w)"
  using assms(1)
proof cases
  case (expired now ids commandId)
  then show ?thesis by blast
next
  case (queued cf now uuid1 uuid2 input)
  then show ?thesis using create_rows[of cr cf now uuid1 uuid2 input w] by (auto simp: adds_row_def)
next
  case (completed report now d)
  have "cp_status report \<noteq> C_PENDING" using completed(3) by auto
  with completed show ?thesis by (simp add: complete_rows)
next
  case elsewhere
  then show ?thesis by (simp add: elsewhere_rows)
qed (use assms(2) in \<open>simp_all add: acknowledge_rows settle_rows settle_expired_def retire_rows revoke_rows pair_rows,
    auto simp: recordBridgeHeartbeat_def expirePairingCodes_def pair_check_def insert_pairing_code_def Let_def split: option.split\<close>)

lemma step_rows_unless_expired:
  assumes "cloud_step cr past e w w'" "keyed w"
  obtains "rows_step e (w_commands w) (w_commands w') \<or> adds_row w w'"
  | now ids commandId where "Selected now ids \<in> set past" "commandId \<in> set ids" "w' = expire_acknowledged now commandId w"
  using step_cases[OF assms] by blast

text \<open>Whatever was selected before, a row changes only once and its binding stays.\<close>

lemma step_rows:
  assumes "cloud_step cr past e w w'" "keyed w"
  shows "(\<exists>e'. rows_step e' (w_commands w) (w_commands w')) \<or> adds_row w w'"
  using assms
proof (cases rule: step_rows_unless_expired)
  case (2 now ids commandId)
  have "rows_step (Reported commandId) (w_commands w) (w_commands w')"
    unfolding 2(3) by (rule expire_rows[OF assms(2)]) simp
  then show ?thesis by blast
qed blast

text \<open>
  The selection leaves physical commands out, and no later step turns the row of a selected id into one: the ids are
  unique, rows are never deleted and keep their type.
\<close>

definition honest :: "cloud_event list \<Rightarrow> cloud \<Rightarrow> bool" where
  "honest past w \<longleftrightarrow> (\<forall>now ids i. Selected now ids \<in> set past \<longrightarrow> i \<in> set ids \<longrightarrow>
     (\<exists>r \<in> set (w_commands w). bc_commandId r = i \<and> \<not> physical r))"

lemma honest_rows:
  assumes "honest past w" "(\<exists>e'. rows_step e' (w_commands w) (w_commands w')) \<or> adds_row w w'"
  shows "honest past w'"
  unfolding honest_def
proof (intro allI impI)
  fix now ids i assume i: "Selected now ids \<in> set past" "i \<in> set ids"
  with assms(1) obtain r where r: "r \<in> set (w_commands w)" "bc_commandId r = i" "\<not> physical r" unfolding honest_def by blast
  from assms(2) show "\<exists>r \<in> set (w_commands w'). bc_commandId r = i \<and> \<not> physical r"
  proof
    assume "\<exists>e'. rows_step e' (w_commands w) (w_commands w')"
    then obtain e' where "rows_step e' (w_commands w) (w_commands w')" ..
    then have "\<exists>r' \<in> set (w_commands w'). queued_row r = queued_row r'" using r(1) unfolding rows_step_def
      by (induction rule: list_all2_induct) (auto simp: row_step_def)
    with r(2,3) queued_row_fields show ?thesis by metis
  qed (use r in \<open>auto simp: adds_row_def\<close>)
qed

lemma selected_honest:
  assumes "i \<in> set (expired_acknowledged now device w)"
  shows "\<exists>r \<in> set (w_commands w). bc_commandId r = i \<and> \<not> physical r"
proof -
  obtain r where "i = bc_commandId r" "r \<in> set (take 100 (sort_cmp by_expiry (filter (\<lambda>r. of_device device r \<and> \<not> physical r \<and>
       bc_commandType r \<noteq> READ_FILE_TEMPORARILY \<and> bc_status r \<in> {C_ACKNOWLEDGED, C_RUNNING} \<and> bc_expiresAt r \<le> now) (w_commands w))))"
    using assms by (auto simp: expired_acknowledged_def)
  moreover from this(2) have "r \<in> set (sort_cmp by_expiry (filter (\<lambda>r. of_device device r \<and> \<not> physical r \<and>
       bc_commandType r \<noteq> READ_FILE_TEMPORARILY \<and> bc_status r \<in> {C_ACKNOWLEDGED, C_RUNNING} \<and> bc_expiresAt r \<le> now) (w_commands w)))"
    by (rule in_set_takeD)
  ultimately show ?thesis by auto
qed

lemma step_honest:
  assumes "cloud_step cr past e w w'" "keyed w" "honest past w"
  shows "honest (past @ [e]) w'"
proof -
  have old: "honest past w'" by (rule honest_rows[OF assms(3) step_rows[OF assms(1,2)]])
  have new: "\<exists>r \<in> set (w_commands w'). bc_commandId r = i \<and> \<not> physical r" if "e = Selected now ids" "i \<in> set ids" for now ids i
    using assms(1)
  proof cases
    case (selected now' device)
    with that have "i \<in> set (expired_acknowledged now' device w)" by auto
    from selected_honest[OF this] selected show ?thesis by simp
  qed (use that in simp_all)
  with old show ?thesis unfolding honest_def by auto
qed

lemma step_rows_honest:
  assumes "cloud_step cr past e w w'" "keyed w" "honest past w"
  shows "rows_step e (w_commands w) (w_commands w') \<or> adds_row w w'"
  using assms(1,2)
proof (cases rule: step_rows_unless_expired)
  case (2 now ids commandId)
  with assms(3) obtain r where r: "r \<in> set (w_commands w)" "bc_commandId r = commandId" "\<not> physical r" unfolding honest_def by blast
  have "rows_step e (w_commands w) (w_commands w')" unfolding 2(3)
  proof (rule expire_rows[OF assms(2)])
    fix r' assume "r' \<in> set (w_commands w)" "bc_commandId r' = commandId" "physical r'"
    with r assms(2) have "r' = r" by (auto simp: keyed_def distinct_map dest: inj_onD)
    with r(3) \<open>physical r'\<close> show "e = Reported commandId" by simp
  qed
  then show ?thesis ..
qed

section \<open>Devices\<close>

definition devices_step :: "cloud \<Rightarrow> cloud \<Rightarrow> bool" where
  "devices_step w w' \<longleftrightarrow> w_devices w' = w_devices w \<or>
     (\<exists>P f. w_devices w' = update_where P f (w_devices w) \<and> (\<forall>d. cd_bridgeDeviceId (f d) = cd_bridgeDeviceId d) \<and>
        (\<forall>d \<in> set (w_devices w). P d \<longrightarrow> device_revoked (f d) \<longrightarrow> (\<forall>r \<in> set (w_commands w'). bc_bridgeDeviceId r = cd_bridgeDeviceId d \<longrightarrow> bc_status r \<noteq> C_PENDING))) \<or>
     (\<exists>d. w_devices w' = w_devices w @ [d] \<and> cd_bridgeDeviceId d \<notin> set (map cd_bridgeDeviceId (w_devices w)) \<and> \<not> device_revoked d)"

lemma settle_command_none:
  "status \<noteq> C_PENDING \<Longrightarrow> r \<in> set (w_commands (settle_command n status c row w)) \<Longrightarrow> bc_commandId r = bc_commandId row \<Longrightarrow>
    bc_status r \<noteq> C_PENDING"
proof (cases "list_ex (\<lambda>r. bc_commandId r = bc_commandId row \<and> bc_status r = C_PENDING) (w_commands w)")
  case True
  assume "status \<noteq> C_PENDING" "r \<in> set (w_commands (settle_command n status c row w))" "bc_commandId r = bc_commandId row"
  with True obtain r0 where "status \<noteq> C_PENDING" "bc_commandId r = bc_commandId row"
    and "r = (if bc_commandId r0 = bc_commandId row \<and> bc_status r0 = C_PENDING
      then r0\<lparr>bc_status := status, bc_completedAt := Some n, bc_safeErrorCategory := Some c\<rparr> else r0)"
    by (auto simp: settle_command_def Let_def set_update_where)
  then show ?thesis by (metis command_row.select_convs(6) command_row.surjective command_row.update_convs(6,15,17))
qed (auto simp: settle_command_def Let_def list_ex_iff)

lemma rows_step_pending:
  "rows_step e rs rs' \<Longrightarrow> r \<in> set rs' \<Longrightarrow> bc_status r = C_PENDING \<Longrightarrow> r \<in> set rs"
  unfolding rows_step_def by (induction rule: list_all2_induct) (auto simp: row_step_def)

lemma settle_fold_none:
  assumes "status \<noteq> C_PENDING" "row \<in> set rows" "bc_commandId r = bc_commandId row"
    "r \<in> set (w_commands (foldl (\<lambda>w row. settle_command n status c row w) w rows))"
  shows "bc_status r \<noteq> C_PENDING"
  using assms(2-4)
proof (induction rows arbitrary: w)
  case (Cons a rows)
  show ?case
  proof (cases "row = a")
    case True
    have "rows_step Other (w_commands (settle_command n status c a w))
        (w_commands (foldl (\<lambda>w row. settle_command n status c row w) (settle_command n status c a w) rows))"
      by (intro rows_step_fold settle_command_rows assms(1))
    with Cons.prems True show ?thesis
      using rows_step_pending settle_command_none[OF assms(1)] by fastforce
  qed (use Cons in auto)
qed simp

lemma settle_none:
  assumes "status \<noteq> C_PENDING" "r \<in> set (w_commands (settleUnstartedCommands n P status c w))" "P r"
  shows "bc_status r \<noteq> C_PENDING"
proof
  assume pending: "bc_status r = C_PENDING"
  with assms have "r \<in> set (w_commands w)" using rows_step_pending[OF settle_rows] by blast
  with assms(3) pending have "r \<in> set (sort_cmp by_commandId (filter (\<lambda>r. P r \<and> bc_status r = C_PENDING) (w_commands w)))" by simp
  with assms pending show False unfolding settleUnstartedCommands_def using settle_fold_none by blast
qed

lemma revoke_devices: "devices_step w (snd (revokeBridgeDevice cr now i w))"
proof (cases "find_device i w")
  case (Some d)
  let ?w = "snd (revokeBridgeDevice cr now i w)"
  have "w_devices ?w = update_where (\<lambda>d. cd_bridgeDeviceId d = i) (\<lambda>d. d\<lparr>cd_revokedAt := Some now, cd_status := DEV_REVOKED\<rparr>) (w_devices w)"
    using Some by (simp add: revokeBridgeDevice_def Let_def)
  moreover have "\<forall>r \<in> set (w_commands ?w). bc_bridgeDeviceId r = i \<longrightarrow> bc_status r \<noteq> C_PENDING"
    using Some settle_none[of C_CANCELLED] by (auto simp: revokeBridgeDevice_def close_device_roots_def Let_def)
  ultimately show ?thesis unfolding devices_step_def by (intro disjI2 disjI1 exI conjI) auto
qed (simp add: revokeBridgeDevice_def devices_step_def)

lemma upsert_devices: "devices_step w (upsert_device now rg w)"
proof (cases "find_device (rg_bridgeDeviceId rg) w")
  case None
  then show ?thesis by (auto simp: devices_step_def upsert_device_def Let_def device_revoked_def find_device_def find_None_iff)
next
  case (Some d)
  then show ?thesis unfolding devices_step_def upsert_device_def
    by (intro disjI2 disjI1) (force simp: Let_def device_revoked_def)
qed

lemma heartbeat_devices:
  assumes "keyed w"
  shows "devices_step w (snd (recordBridgeHeartbeat cr now i input key w))"
proof (cases "device_usable key (find_device i w)")
  case True
  then obtain d where d: "find_device i w = Some d" "\<not> device_revoked d" by (auto simp: device_usable_def split: option.splits)
  have "d' = d" if "d' \<in> set (w_devices w)" "cd_bridgeDeviceId d' = i" for d'
    using d(1) assms that by (auto simp: keyed_def find_device_def intro: find_unique)
  then have "\<forall>d' \<in> set (w_devices w). cd_bridgeDeviceId d' = i \<longrightarrow> cd_revokedAt d' = None"
    using d(2) by (auto simp: device_revoked_def)
  with True show ?thesis unfolding devices_step_def recordBridgeHeartbeat_def
    by (intro disjI2 disjI1) (force simp: Let_def device_revoked_def)
qed (simp add: recordBridgeHeartbeat_def devices_step_def)

lemma devices_step_later:
  assumes "devices_step w w1" "w_devices w' = w_devices w1"
    and "\<And>r. r \<in> set (w_commands w') \<Longrightarrow> bc_status r = C_PENDING \<Longrightarrow> r \<in> set (w_commands w1)"
  shows "devices_step w w'"
  using assms(1) unfolding devices_step_def assms(2)
proof (elim disjE exE conjE)
  fix P f
  assume f: "w_devices w1 = update_where P f (w_devices w)" "\<forall>d. cd_bridgeDeviceId (f d) = cd_bridgeDeviceId d"
    and none: "\<forall>d \<in> set (w_devices w). P d \<longrightarrow> device_revoked (f d) \<longrightarrow>
      (\<forall>r \<in> set (w_commands w1). bc_bridgeDeviceId r = cd_bridgeDeviceId d \<longrightarrow> bc_status r \<noteq> C_PENDING)"
  have "\<forall>d \<in> set (w_devices w). P d \<longrightarrow> device_revoked (f d) \<longrightarrow>
      (\<forall>r \<in> set (w_commands w'). bc_bridgeDeviceId r = cd_bridgeDeviceId d \<longrightarrow> bc_status r \<noteq> C_PENDING)"
    using none assms(3) by blast
  with f show "w_devices w1 = w_devices w \<or>
     (\<exists>P f. w_devices w1 = update_where P f (w_devices w) \<and> (\<forall>d. cd_bridgeDeviceId (f d) = cd_bridgeDeviceId d) \<and>
        (\<forall>d \<in> set (w_devices w). P d \<longrightarrow> device_revoked (f d) \<longrightarrow> (\<forall>r \<in> set (w_commands w'). bc_bridgeDeviceId r = cd_bridgeDeviceId d \<longrightarrow> bc_status r \<noteq> C_PENDING))) \<or>
     (\<exists>d. w_devices w1 = w_devices w @ [d] \<and> cd_bridgeDeviceId d \<notin> set (map cd_bridgeDeviceId (w_devices w)) \<and> \<not> device_revoked d)"
    by blast
qed blast+

lemma step_devices:
  assumes "cloud_step cr past e w w'" "keyed w"
  shows "devices_step w w'"
  using assms(1)
proof cases
  case (paired now secret actor registration i)
  let ?w = "snd (pair_transaction cr now secret actor registration i w)"
  have "w_devices ?w = w_devices w \<or> w_devices ?w = w_devices (upsert_device now registration w)"
    by (simp add: pair_transaction_def Let_def split: option.split)
  moreover have "r \<in> set (w_commands w)" if "r \<in> set (w_commands ?w)" "bc_status r = C_PENDING" for r
    using that rows_step_pending[OF pair_rows] by blast
  ultimately have "devices_step w ?w"
  proof (elim disjE)
    assume "w_devices ?w = w_devices w"
    then show ?thesis unfolding devices_step_def by (rule disjI1)
  next
    assume devices: "w_devices ?w = w_devices (upsert_device now registration w)"
    assume pending: "\<And>r. r \<in> set (w_commands ?w) \<Longrightarrow> bc_status r = C_PENDING \<Longrightarrow> r \<in> set (w_commands w)"
    show ?thesis by (rule devices_step_later[OF upsert_devices devices]) (simp add: pending)
  qed
  with paired show ?thesis by simp
next
  case (heartbeat now i input key)
  with heartbeat_devices[OF assms(2)] show ?thesis by simp
next
  case (revoked now i)
  with revoke_devices show ?thesis by simp
qed (auto simp: devices_step_def settle_expired_def acknowledge_transaction_def completeBridgeCloudCommand_def
    expirePairingCodes_def pair_check_def insert_pairing_code_def Let_def split: option.split)

lemma step_keyed:
  assumes "cloud_step cr past e w w'" "keyed w"
  shows "keyed w'"
proof -
  have "distinct (map bc_commandId (w_commands w'))"
    using step_rows[OF assms] assms(2) by (auto simp: keyed_def adds_row_def dest: rows_step_ids)
  moreover have "distinct (map cd_bridgeDeviceId (w_devices w'))"
    using step_devices[OF assms] assms(2) by (auto simp: keyed_def devices_step_def map_update_where)
  ultimately show ?thesis by (simp add: keyed_def)
qed

lemma run_keyed: "cloud_run cr past es w w' \<Longrightarrow> keyed w \<Longrightarrow> keyed w'"
  by (induction rule: cloud_run.induct) (auto intro: step_keyed)

lemma run_honest: "cloud_run cr past es w w' \<Longrightarrow> keyed w \<Longrightarrow> honest past w \<Longrightarrow> honest (past @ es) w'"
proof (induction rule: cloud_run.induct)
  case (more es w w' e w'')
  have "honest ((past @ es) @ [e]) w''"
    by (rule step_honest[OF more.hyps(2) run_keyed[OF more.hyps(1) more.prems(1)] more.IH[OF more.prems]])
  then show ?case by simp
qed simp

lemma honest_start [simp]: "honest [] w"
  by (simp add: honest_def)

end
