(* ===== verification/DeviceAuth.thy ===== *)
theory DeviceAuth
  imports CloudCoordinator
begin

text \<open>
  The check of a signed request from a Bridge in the web application (\<open>src/lib/bridge/device-request-auth.ts\<close>).
  The request is checked against one clock reading and its nonce is consumed at a later one. The nonce table is
  \<open>None\<close> where it is missing.
\<close>

record nonce_row =
  nr_bridgeDeviceId :: string
  nr_nonceHash :: string
  nr_expiresAt :: int

definition nonceRetentionMs :: int where "nonceRetentionMs = 10 * 60 * 1000"

definition deleteExpiredBridgeRequestNonces :: "int \<Rightarrow> nonce_row list \<Rightarrow> nonce_row list" where
  "deleteExpiredBridgeRequestNonces now nonces = filter (\<lambda>n. \<not> nr_expiresAt n \<le> now) nonces"

definition nonce_hash :: "(string \<Rightarrow> string) \<Rightarrow> string \<Rightarrow> string \<Rightarrow> string" where
  "nonce_hash sha bridgeDeviceId nonce = sha (bridgeDeviceId @ '':'' @ nonce)"

definition consumeBridgeRequestNonce ::
  "(string \<Rightarrow> string) \<Rightarrow> int \<Rightarrow> string \<Rightarrow> string \<Rightarrow> nonce_row list option \<Rightarrow> (cloud_error, unit) result \<times> nonce_row list option" where
  "consumeBridgeRequestNonce sha now bridgeDeviceId nonce table =
     (let nonces = deleteExpiredBridgeRequestNonces now (coalesce table []);
          nonceHash = nonce_hash sha bridgeDeviceId nonce in
      if list_ex (\<lambda>n. nr_nonceHash n = nonceHash) nonces
      then (Inl (CloudError 409 ''REQUEST_REPLAYED''), Some nonces)
      else (Inr (), Some (nonces @ [\<lparr>nr_bridgeDeviceId = bridgeDeviceId, nr_nonceHash = nonceHash,
        nr_expiresAt = now + nonceRetentionMs\<rparr>])))"

text \<open>The request with its headers; \<open>dr_bodyText\<close> is empty where the caller passes none.\<close>

record device_request =
  dr_deviceHeader :: "string option"
  dr_nonce :: "string option"
  dr_signature :: "string option"
  dr_timestamp :: "string option"
  dr_method :: string
  dr_pathname :: string
  dr_bodyText :: string

text \<open>The device that may send the request, before its nonce is consumed.\<close>

definition check_device_request ::
  "crypto \<Rightarrow> (string \<Rightarrow> string \<Rightarrow> string \<Rightarrow> bool option) \<Rightarrow> int \<Rightarrow> string \<Rightarrow> bool \<Rightarrow> device_request \<Rightarrow> cloud \<Rightarrow>
    (cloud_error, device_row) result" where
  "check_device_request cr verify now bridgeDeviceId allowHistoricalCompletion rq w =
     (case (present (dr_deviceHeader rq), present (dr_nonce rq), present (dr_signature rq), present (dr_timestamp rq)) of
        (Some claimed, Some nonce, Some signature, Some timestamp) \<Rightarrow>
          if claimed \<noteq> bridgeDeviceId \<or> length nonce < 24 then Inl (CloudError 401 ''BRIDGE_AUTH_REJECTED'')
          else if \<not> bridgeRequestTimestampIsFresh (cr_time cr timestamp) now bridgeRequestMaxClockSkewMs
          then Inl (CloudError 401 ''REQUEST_EXPIRED'')
          else (case find_device bridgeDeviceId w of
             None \<Rightarrow> Inl (CloudError 401 ''DEVICE_NOT_PAIRED'')
           | Some device \<Rightarrow>
               if device_revoked device \<and> \<not> allowHistoricalCompletion then Inl (CloudError 401 ''DEVICE_NOT_PAIRED'')
               else if \<not> verifyBridgeDeviceRequestSignature (cr_sha cr) verify
                   \<lparr>rq_bodyText = Some (dr_bodyText rq), rq_bridgeDeviceId = bridgeDeviceId, rq_method = dr_method rq,
                    rq_nonce = nonce, rq_pathname = dr_pathname rq, rq_timestamp = timestamp\<rparr> (cd_publicKey device) signature
               then Inl (CloudError 401 ''REQUEST_SIGNATURE_INVALID'')
               else Inr device)
      | _ \<Rightarrow> Inl (CloudError 401 ''BRIDGE_AUTH_REJECTED''))"

definition authenticateBridgeDeviceRequest ::
  "crypto \<Rightarrow> (string \<Rightarrow> string \<Rightarrow> string \<Rightarrow> bool option) \<Rightarrow> int \<Rightarrow> int \<Rightarrow> string \<Rightarrow> bool \<Rightarrow> device_request \<Rightarrow> cloud \<Rightarrow>
    nonce_row list option \<Rightarrow> (cloud_error, device_row) result \<times> nonce_row list option" where
  "authenticateBridgeDeviceRequest cr verify now later bridgeDeviceId allowHistoricalCompletion rq w table =
     (case check_device_request cr verify now bridgeDeviceId allowHistoricalCompletion rq w of
        Inl e \<Rightarrow> (Inl e, table)
      | Inr device \<Rightarrow>
          (case consumeBridgeRequestNonce (cr_sha cr) later bridgeDeviceId (coalesce (dr_nonce rq) []) table of
             (Inl e, table) \<Rightarrow> (Inl e, table)
           | (Inr _, table) \<Rightarrow> (Inr device, table)))"

end
