(* ===== verification/CloudFacts.thy ===== *)
theory CloudFacts
  imports CloudSteps DeviceAuth ProtocolFacts
begin

text \<open>
  What holds of the command queue along every run of interleaved transactions, the way of a command from the
  queue to the device that validates it, and the replay protection of signed requests.
\<close>

section \<open>Rows that stay\<close>

text \<open>A row that no step but a report on it may change.\<close>

definition settled_row :: "cloud_event list \<Rightarrow> command_row \<Rightarrow> bool" where
  "settled_row events r \<longleftrightarrow> row_finished r \<or>
     physical r \<and> bc_status r \<in> {C_ACKNOWLEDGED, C_RUNNING} \<and> Reported (bc_commandId r) \<notin> set events"

lemma rows_step_settled:
  assumes "rows_step e rs rs'" "r \<in> set rs" "settled_row [e] r"
  shows "r \<in> set rs'"
  using assms unfolding rows_step_def
  by (induction rule: list_all2_induct) (auto simp: row_step_def settled_row_def)

lemma run_settled:
  assumes "cloud_run cr past events w w'" "keyed w" "honest past w" "r \<in> set (w_commands w)" "settled_row events r"
  shows "r \<in> set (w_commands w')"
  using assms
proof (induction rule: cloud_run.induct)
  case (more es w w' e w'')
  then have r: "r \<in> set (w_commands w')" by (auto simp: settled_row_def)
  have "settled_row [e] r" using more.prems(4) by (auto simp: settled_row_def)
  with step_rows_honest[OF more.hyps(2) run_keyed[OF more.hyps(1) more.prems(1)] run_honest[OF more.hyps(1) more.prems(1,2)]] r
  show ?case using rows_step_settled by (auto simp: adds_row_def)
qed

text \<open>The binding of a row stays, so that it is delivered as it was queued.\<close>

lemma rows_step_queued:
  assumes "rows_step e rs rs'" "r' \<in> set rs'"
  shows "\<exists>r \<in> set rs. queued_row r = queued_row r'"
  using assms unfolding rows_step_def by (induction rule: list_all2_induct) (auto simp: row_step_def)

lemma run_binding:
  assumes "cloud_run cr past events w w'" "keyed w" "r \<in> set (w_commands w)" "r' \<in> set (w_commands w')" "bc_commandId r' = bc_commandId r"
  shows "queued_row r' = queued_row r"
proof -
  have "\<exists>r'' \<in> set (w_commands w'). queued_row r'' = queued_row r"
    using assms(1-3)
  proof (induction rule: cloud_run.induct)
    case (more es w w' e w'')
    then obtain r1 where r1: "r1 \<in> set (w_commands w')" "queued_row r1 = queued_row r" by blast
    have "\<exists>r2 \<in> set (w_commands w''). queued_row r2 = queued_row r1"
      using step_rows[OF more.hyps(2) run_keyed[OF more.hyps(1) more.prems(1)]]
    proof
      assume "\<exists>e'. rows_step e' (w_commands w') (w_commands w'')"
      then obtain e' where "rows_step e' (w_commands w') (w_commands w'')" ..
      then show ?thesis using r1(1) unfolding rows_step_def
        by (induction rule: list_all2_induct) (auto simp: row_step_def)
    qed (use r1 in \<open>auto simp: adds_row_def\<close>)
    with r1 show ?case by simp
  qed auto
  then obtain r'' where r'': "r'' \<in> set (w_commands w')" "queued_row r'' = queued_row r" by blast
  then have "bc_commandId r'' = bc_commandId r'" using assms(5) queued_row_fields(1)[of r'' r] by simp
  moreover have "distinct (map bc_commandId (w_commands w'))" using run_keyed[OF assms(1,2)] by (simp add: keyed_def)
  ultimately have "r'' = r'" using r''(1) assms(4) by (auto simp: distinct_map dest: inj_onD)
  with r''(2) show ?thesis by simp
qed

section \<open>Revoked devices\<close>

definition nothing_pending_if_revoked :: "cloud \<Rightarrow> bool" where
  "nothing_pending_if_revoked w \<longleftrightarrow> (\<forall>d \<in> set (w_devices w). \<forall>r \<in> set (w_commands w).
     device_revoked d \<longrightarrow> bc_bridgeDeviceId r = cd_bridgeDeviceId d \<longrightarrow> bc_status r \<noteq> C_PENDING)"

lemma step_nothing_pending:
  assumes step: "cloud_step cr past e w w'" and keyed: "keyed w" and inv: "nothing_pending_if_revoked w"
  shows "nothing_pending_if_revoked w'"
  unfolding nothing_pending_if_revoked_def
proof (intro ballI impI notI)
  fix d r
  assume d: "d \<in> set (w_devices w')" "device_revoked d" and r: "r \<in> set (w_commands w')" "bc_bridgeDeviceId r = cd_bridgeDeviceId d"
    and pending: "bc_status r = C_PENDING"
  from step_rows[OF step keyed] show False
  proof
    assume "adds_row w w'"
    then obtain row d0 where new: "w_devices w' = w_devices w" "w_commands w' = w_commands w @ [row]"
      "find_device (bc_bridgeDeviceId row) w = Some d0" "\<not> device_revoked d0" by (auto simp: adds_row_def)
    show False
    proof (cases "r = row")
      case True
      have "d = d0" using new(1,3) d(1) r(2) keyed True by (auto simp: keyed_def find_device_def intro: find_unique)
      with d(2) new(4) show False by simp
    qed (use new d r pending inv in \<open>auto simp: nothing_pending_if_revoked_def\<close>)
  next
    assume "\<exists>e'. rows_step e' (w_commands w) (w_commands w')"
    then obtain e' where "rows_step e' (w_commands w) (w_commands w')" ..
    from rows_step_pending[OF this r(1) pending] have old: "r \<in> set (w_commands w)" .
    from step_devices[OF step keyed] show False unfolding devices_step_def
    proof (elim disjE exE conjE)
      assume "w_devices w' = w_devices w"
      with d r(2) old pending inv show False by (auto simp: nothing_pending_if_revoked_def)
    next
      fix P f
      assume f: "w_devices w' = update_where P f (w_devices w)" "\<forall>d. cd_bridgeDeviceId (f d) = cd_bridgeDeviceId d"
        and none: "\<forall>d \<in> set (w_devices w). P d \<longrightarrow> device_revoked (f d) \<longrightarrow>
          (\<forall>r \<in> set (w_commands w'). bc_bridgeDeviceId r = cd_bridgeDeviceId d \<longrightarrow> bc_status r \<noteq> C_PENDING)"
      from d(1) f(1) obtain d0 where d0: "d0 \<in> set (w_devices w)" "d = (if P d0 then f d0 else d0)" by (auto simp: set_update_where)
      show False
      proof (cases "P d0")
        case True
        with none d0 d(2) r f(2) pending show False by auto
      next
        case False
        with d0 d(2) r(2) old pending inv show False by (auto simp: nothing_pending_if_revoked_def)
      qed
    next
      fix d1
      assume new: "w_devices w' = w_devices w @ [d1]" "cd_bridgeDeviceId d1 \<notin> set (map cd_bridgeDeviceId (w_devices w))" "\<not> device_revoked d1"
      with d have "d \<in> set (w_devices w)" by auto
      with d(2) r(2) old pending inv show False by (auto simp: nothing_pending_if_revoked_def)
    qed
  qed
qed

lemma run_nothing_pending:
  "cloud_run cr past es w w' \<Longrightarrow> keyed w \<Longrightarrow> nothing_pending_if_revoked w \<Longrightarrow> nothing_pending_if_revoked w'"
  by (induction rule: cloud_run.induct) (auto intro: run_keyed step_nothing_pending)

section \<open>Pairing codes\<close>

definition consumed_code :: "string \<Rightarrow> cloud \<Rightarrow> bool" where
  "consumed_code pairingId w \<longleftrightarrow> (\<exists>c. find (\<lambda>c. cc_id c = pairingId) (w_codes w) = Some c \<and> cc_status c = CODE_CONSUMED)"

lemma find_update_where:
  assumes "\<And>c. key (f c) = key c"
  shows "find (\<lambda>c. key c = k) (update_where P f rows) = map_option (\<lambda>c. if P c then f c else c) (find (\<lambda>c. key c = k) rows)"
  using assms by (induction rows) (auto simp: update_where_def)

lemma find_code_id: "find (\<lambda>c. cc_id c = i) rows = Some c \<Longrightarrow> cc_id c = i"
  by (auto simp: find_Some_iff)

lemma find_append: "find P (xs @ ys) = (case find P xs of None \<Rightarrow> find P ys | Some x \<Rightarrow> Some x)"
  by (induction xs) auto

lemma consumed_not_active: "validation_ok (validatePairingRedemption hmac (redemption_of rg s a c) now) \<Longrightarrow> cc_status c = CODE_ACTIVE"
  by (auto simp: validatePairingRedemption_def redemption_of_def validation_ok_def split: if_splits)

lemma consumed_update:
  assumes "consumed_code i w" "w_codes w' = update_where P f (w_codes w)"
    and "\<And>c. cc_id (f c) = cc_id c" "\<And>c. cc_status c = CODE_CONSUMED \<Longrightarrow> P c \<Longrightarrow> cc_status (f c) = CODE_CONSUMED"
  shows "consumed_code i w'"
proof -
  obtain c where c: "find (\<lambda>c. cc_id c = i) (w_codes w) = Some c" "cc_status c = CODE_CONSUMED"
    using assms(1) by (auto simp: consumed_code_def)
  have "find (\<lambda>c. cc_id c = i) (w_codes w') = Some (if P c then f c else c)"
    unfolding assms(2) find_update_where[where key = cc_id and f = f, OF assms(3)] c(1) by simp
  with c(2) assms(4) show ?thesis by (simp add: consumed_code_def)
qed

lemma pair_codes:
  assumes "pair_transaction cr now s a rg i w = (Inr d, w')"
  shows "w_codes w' = update_where (\<lambda>c. cc_id c = i) (\<lambda>c. c\<lparr>cc_consumedAt := Some now,
      cc_pairedDeviceId := Some (rg_bridgeDeviceId rg), cc_status := CODE_CONSUMED\<rparr>) (w_codes w) \<and>
    (\<exists>c. find (\<lambda>c. cc_id c = i) (w_codes w) = Some c)"
  using assms by (auto simp: pair_transaction_def Let_def split: option.splits if_splits)

lemma pair_consumes:
  assumes "pair_transaction cr now s a rg i w = (Inr d, w')"
  shows "consumed_code i w'"
proof -
  from pair_codes[OF assms] obtain c where c: "find (\<lambda>c. cc_id c = i) (w_codes w) = Some c"
    and w': "w_codes w' = update_where (\<lambda>c. cc_id c = i) (\<lambda>c. c\<lparr>cc_consumedAt := Some now,
      cc_pairedDeviceId := Some (rg_bridgeDeviceId rg), cc_status := CODE_CONSUMED\<rparr>) (w_codes w)" by blast
  show ?thesis unfolding consumed_code_def w' using c find_code_id[OF c] by (simp add: find_update_where)
qed

lemma pair_refused:
  assumes "consumed_code i w"
  shows "\<exists>e. pair_transaction cr now s a rg i w = (Inl e, w)"
proof -
  obtain c where c: "find (\<lambda>c. cc_id c = i) (w_codes w) = Some c" "cc_status c = CODE_CONSUMED"
    using assms by (auto simp: consumed_code_def)
  then have "\<not> validation_ok (validatePairingRedemption (cr_hmac cr) (redemption_of rg s a c) now)" using consumed_not_active by fastforce
  with c show ?thesis by (simp add: pair_transaction_def Let_def)
qed

lemma step_consumed:
  assumes "cloud_step cr past e w w'" "consumed_code i w"
  shows "consumed_code i w'"
  using assms(1)
proof cases
  case (paired now s a rg j)
  show ?thesis
  proof (cases "fst (pair_transaction cr now s a rg j w)")
    case (Inr d)
    then have "pair_transaction cr now s a rg j w = (Inr d, w')" using paired by (metis prod.collapse)
    with assms(2) show ?thesis by (auto intro: consumed_update dest!: pair_codes)
  next
    case (Inl x)
    then have "snd (pair_transaction cr now s a rg j w) = w" by (auto simp: pair_transaction_def Let_def split: option.splits if_splits)
    with assms(2) paired show ?thesis by simp
  qed
next
  case (codes_expired now)
  have "w_codes w' = update_where (\<lambda>c. cc_expiresAt c \<le> now \<and> cc_status c = CODE_ACTIVE) (\<lambda>c. c\<lparr>cc_status := CODE_EXPIRED\<rparr>) (w_codes w)"
    by (simp add: codes_expired expirePairingCodes_def)
  from consumed_update[OF assms(2) this] show ?thesis by simp
next
  case (pair_checked now secret actor rg)
  show ?thesis
  proof (cases "w_codes w' = w_codes w")
    case True
    with assms(2) show ?thesis by (simp add: consumed_code_def)
  next
    case False
    then have "\<exists>k. w_codes w' = update_where (\<lambda>c. cc_id c = k) (\<lambda>c. c\<lparr>cc_attemptCount := cc_attemptCount c + 1\<rparr>) (w_codes w)"
      using pair_checked by (auto simp: pair_check_def Let_def split: option.splits if_splits)
    then obtain k where "w_codes w' = update_where (\<lambda>c. cc_id c = k) (\<lambda>c. c\<lparr>cc_attemptCount := cc_attemptCount c + 1\<rparr>) (w_codes w)" by blast
    from consumed_update[OF assms(2) this] show ?thesis by simp
  qed
next
  case (code_inserted pairing rowId actor)
  with assms(2) show ?thesis by (auto simp: consumed_code_def insert_pairing_code_def find_append)
qed (use assms(2) in \<open>simp_all add: consumed_code_def settle_expired_def acknowledge_transaction_def completeBridgeCloudCommand_def
    recordBridgeHeartbeat_def revokeBridgeDevice_def Let_def split: option.split\<close>)

lemma run_consumed: "cloud_run cr past es w w' \<Longrightarrow> consumed_code i w \<Longrightarrow> consumed_code i w'"
  by (induction rule: cloud_run.induct) (auto intro: step_consumed)

section \<open>From the queue to the device\<close>

lemma find_command_kept:
  assumes "rows_step e (w_commands w) (w_commands w')" "find_command i w = Some row"
  shows "\<exists>row'. find_command i w' = Some row'"
proof -
  have "i \<in> set (map bc_commandId (w_commands w))" using assms(2) by (auto simp: find_command_def find_Some_iff)
  with rows_step_ids[OF assms(1)] have "i \<in> set (map bc_commandId (w_commands w'))" by simp
  then show ?thesis by (cases "find_command i w'") (auto simp: find_command_def find_None_iff)
qed

lemma find_command_in: "find_command i w = Some row \<Longrightarrow> row \<in> set (w_commands w) \<and> bc_commandId row = i"
  by (auto simp: find_command_def find_Some_iff)

lemma acknowledged_row:
  assumes "acknowledge_transaction now d i key w = (Inr row, w')" "keyed w"
  shows "row \<in> set (w_commands w')" "bc_commandId row = i" "bc_bridgeDeviceId row = d"
proof -
  obtain r where r: "find_command i w = Some r" using assms(1) by (cases "find_command i w") (auto simp: acknowledge_transaction_def)
  have "rows_step Other (w_commands w) (w_commands w')" using acknowledge_rows[OF assms(2), of Other now d i key] assms(1) by simp
  note kept = find_command_kept[OF this r]
  have "w' = w \<and> row = r \<or> row = the (find_command i w')"
    using assms(1) unfolding acknowledge_transaction_def r by (auto simp: Let_def find_command_def split: if_splits)
  with kept r have "find_command i w' = Some row" by auto
  then show row: "row \<in> set (w_commands w')" "bc_commandId row = i" using find_command_in by blast+
  have "bc_bridgeDeviceId r = d" using assms(1) r by (auto simp: acknowledge_transaction_def Let_def split: if_splits)
  moreover have "cloud_run undefined [] [Other] w w'"
    using cloud_run.more[OF cloud_run.start cloud_step.acknowledged[of undefined _ w now d i key]] assms(1) by simp
  from run_binding[OF this assms(2) _ row(1)] have "queued_row row = queued_row r" using find_command_in[OF r] row(2) by blast
  ultimately show "bc_bridgeDeviceId row = d" using queued_row_fields(2) by metis
qed

text \<open>
  What is stored may have its fields in another order. Signature and payload hash are of canonical texts, so the
  stored envelope passes where the signed one does.
\<close>

definition stored_envelope :: "command_envelope \<Rightarrow> json \<Rightarrow> json \<Rightarrow> command_envelope" where
  "stored_envelope e context payload = e\<lparr>env_authorizationContext := context, env_payload := payload\<rparr>"

lemma canonical_same: "collation lc \<Longrightarrow> well_keyed v \<Longrightarrow> same_json v x \<Longrightarrow> stableStringify lc v = stableStringify lc x"
  by (simp add: stringify_inj same_canon)

lemma stored_signing:
  assumes "collation (cr_lc cr)" "well_keyed (env_authorizationContext e)" "same_json (env_authorizationContext e) context"
  shows "signingPayload cr (unsigned_envelope.truncate (stored_envelope e context payload)) = signingPayload cr (unsigned_envelope.truncate e)"
proof -
  let ?fs = "signingFields (unsigned_envelope.truncate e)" and ?gs = "signingFields (unsigned_envelope.truncate (stored_envelope e context payload))"
  have refl: "same_json v v" for v by (rule same_atom)
  have "list_all2 (\<lambda>f g. fst f = fst g \<and> same_json (snd f) (snd g)) ?fs ?gs"
    using assms(3) by (simp add: signingFields_def stored_envelope_def unsigned_envelope.defs refl)
  then have same: "same_json (JObj ?fs) (JObj ?gs)" by (rule same_obj) simp
  have "well_keyed (JObj ?fs)"
    using assms(2) by (simp add: signingFields_def unsigned_envelope.defs json_or_null_def split: option.split)
  then show ?thesis unfolding signingPayload_def by (rule canonical_same[OF assms(1) _ same, symmetric])
qed

lemma stored_verdict:
  assumes "collation (cr_lc cr)" "well_keyed (env_authorizationContext e)" "same_json (env_authorizationContext e) context"
    and "well_keyed (env_payload e)" "same_json (env_payload e) payload"
  shows "validateBridgeCommandForDevice cr seen status (stored_envelope e context payload) device now secret =
    validateBridgeCommandForDevice cr seen status e device now secret"
proof -
  have "hashBridgeCommandPayload (cr_sha cr) (cr_lc cr) payload = hashBridgeCommandPayload (cr_sha cr) (cr_lc cr) (env_payload e)"
    using canonical_same[OF assms(1,4,5)] by (simp add: hashBridgeCommandPayload_def)
  moreover have "verifyBridgeCommandSignature cr (stored_envelope e context payload) secret = verifyBridgeCommandSignature cr e secret"
    using stored_signing[OF assms(1-3)] by (simp add: verifyBridgeCommandSignature_def signBridgeCommandEnvelope_def) (simp add: stored_envelope_def)
  ultimately show ?thesis
    by (simp add: validateBridgeCommandForDevice_def) (auto simp: stored_envelope_def createBridgeCommandReplayKey_def)
qed

lemma well_keyed_map_set: "well_keyed (JObj fs) \<Longrightarrow> well_keyed v \<Longrightarrow> well_keyed (JObj (map_set fs k v))"
proof -
  assume fs: "well_keyed (JObj fs)" and v: "well_keyed v"
  have "list_all (\<lambda>(k, v). well_keyed v) (map_set fs k v)" if "list_all (\<lambda>(k, v). well_keyed v) fs" for fs
    using that v by (induction fs k v rule: map_set.induct) auto
  with fs show ?thesis by (simp add: distinct_map_set)
qed

lemma well_keyed_bound:
  assumes "well_keyed (coalesce context (JObj []))"
  shows "well_keyed (bound_context sha context root device)"
proof -
  have fs: "well_keyed (JObj (case context of Some (JObj fs) \<Rightarrow> fs | _ \<Rightarrow> []))"
    using assms by (auto simp: coalesce_def split: option.split json.split)
  show ?thesis
  proof (cases root)
    case (Some r)
    show ?thesis unfolding bound_context_def Some option.case by (intro well_keyed_map_set fs) simp_all
  qed (use assms in \<open>simp add: bound_context_def\<close>)
qed

text \<open>Queueing with a new key stores the envelope that it answers.\<close>

lemma created_row:
  assumes time: "\<And>t. cr_time cr (cr_iso cr t) = Some t"
    and create: "createBridgeCloudCommand cr cf clock u1 u2 input w = (Inr e, w1)"
    and fresh: "\<forall>r \<in> set (w_commands w). bc_idempotencyKey r \<noteq> env_idempotencyKey e"
    and secret: "bridgeCommandSigningSecret cf = Inr secret"
    and ctx: "well_keyed (coalesce (cc_authorizationContext input) (JObj []))"
  shows "\<exists>row ci context payload. row \<in> set (w_commands w1) \<and> commandEnvelopeFromRow cr row = e \<and> bc_commandId row = env_commandId e \<and>
    bc_bridgeDeviceId row = env_bridgeDeviceId e \<and> e = stored_envelope (createBridgeCommandEnvelope cr clock u1 u2 ci) context payload \<and>
    ci_signingSecret ci = secret \<and> ci_expiresAt ci = cc_expiresAt_in input \<and> ci_issuedAt ci = None \<and>
    ci_bridgeDeviceId ci = env_bridgeDeviceId e \<and> ci_payload ci = Some (coalesce (cc_payload input) (JObj [])) \<and>
    well_keyed (coalesce (ci_authorizationContext ci) (JObj [])) \<and>
    w_jsonb w (coalesce (ci_authorizationContext ci) (JObj [])) = Some context \<and>
    w_jsonb w (coalesce (cc_payload input) (JObj [])) = Some payload"
proof -
  obtain ci where ci: "insert_command cr (createBridgeCommandEnvelope cr clock u1 u2 ci) w = (Inr e, w1)"
    and fields: "ci_signingSecret ci = secret" "ci_expiresAt ci = cc_expiresAt_in input" "ci_issuedAt ci = None"
      "ci_payload ci = Some (coalesce (cc_payload input) (JObj []))"
    and bound: "case ci_authorizationContext ci of None \<Rightarrow> False | Some c \<Rightarrow> well_keyed c"
    using create secret well_keyed_bound[OF ctx]
    by (auto simp: createBridgeCloudCommand_def split: option.splits if_splits sum.splits)
  let ?e = "createBridgeCommandEnvelope cr clock u1 u2 ci"
  have times: "env_issuedAt ?e = cr_iso cr clock" "\<exists>x. env_expiresAt ?e = cr_iso cr x" "env_bridgeDeviceId ?e = ci_bridgeDeviceId ci"
    "env_payload ?e = coalesce (cc_payload input) (JObj [])" "env_authorizationContext ?e = coalesce (ci_authorizationContext ci) (JObj [])"
    using fields(3,4) by (auto simp: createBridgeCommandEnvelope_def Let_def unsigned_envelope.defs coalesce_def)
  then obtain x where x: "env_expiresAt ?e = cr_iso cr x" by blast
  have found: "commandEnvelopeFromRow cr existing = e" "existing \<in> set (w_commands w)"
    if "find (\<lambda>r. bc_idempotencyKey r = env_idempotencyKey ?e) (w_commands w) = Some existing" for existing
    using ci that by (auto simp: insert_command_def find_Some_iff)
  have none: "find (\<lambda>r. bc_idempotencyKey r = env_idempotencyKey ?e) (w_commands w) = None"
  proof (rule ccontr)
    assume "find (\<lambda>r. bc_idempotencyKey r = env_idempotencyKey ?e) (w_commands w) \<noteq> None"
    then obtain existing where "find (\<lambda>r. bc_idempotencyKey r = env_idempotencyKey ?e) (w_commands w) = Some existing" by blast
    from found[OF this] fresh show False by (auto simp: commandEnvelopeFromRow_def)
  qed
  obtain c p where stored: "w_jsonb w (env_authorizationContext ?e) = Some c" "w_jsonb w (env_payload ?e) = Some p"
    using ci none times(1) x time by (auto simp: insert_command_def split: option.splits)
  have row: "commandEnvelopeFromRow cr (row_of_envelope ?e c p clock x) = stored_envelope ?e c p"
    using times(1) x by (cases ?e) (simp add: commandEnvelopeFromRow_def row_of_envelope_def stored_envelope_def)
  with none stored have "e = stored_envelope ?e c p" "row_of_envelope ?e c p clock x \<in> set (w_commands w1)"
    using ci times(1) x time by (auto simp: insert_command_def Let_def split: if_splits)
  moreover have "well_keyed (coalesce (ci_authorizationContext ci) (JObj []))"
    using bound by (auto simp: coalesce_def split: option.splits)
  ultimately show ?thesis using row times(3-5) fields stored
    by (intro exI[of _ "row_of_envelope ?e c p clock x"] exI[of _ ci] exI[of _ c] exI[of _ p])
      (simp add: row_of_envelope_def, simp add: stored_envelope_def)
qed

section \<open>Properties\<close>

text \<open>C7.
  Acknowledged physical work keeps its row: whatever transactions interleave (expiry, revocation of the device, a new
  device key, retired roots, other modules settling reads and scans), a row that has finished never changes again, and
  the row of an acknowledged EXECUTE_PLAN or EXECUTE_UNDO stays as it is until a report on that very command. The
  commands that expire after their acknowledgement are those that a query selected earlier, perhaps long before
  the transaction that expires them, perhaps before the row was there: \<open>past\<close> is all that happened since a state
  with unique command and device ids.\<close>

theorem acknowledged_physical_survives:
  assumes "cloud_run cr [] past w0 w" "keyed w0" "cloud_run cr past events w w'"
    and "r \<in> set (w_commands w)" "settled_row events r"
  shows "r \<in> set (w_commands w')"
proof -
  have "keyed w" "honest past w" using run_keyed[OF assms(1,2)] run_honest[OF assms(1,2)] by simp_all
  from run_settled[OF assms(3) this assms(4,5)] show ?thesis .
qed

text \<open>C8.
  From a table without commands on, a revoked device never has a command that waits to be acknowledged: revocation
  settles what waits, and nothing queues for the device until it pairs again.\<close>

theorem revoked_device_has_nothing_pending:
  assumes "cloud_run cr past events w w'" "w_commands w = []" "distinct (map cd_bridgeDeviceId (w_devices w))"
    and "d \<in> set (w_devices w')" "device_revoked d" "r \<in> set (w_commands w')" "bc_bridgeDeviceId r = cd_bridgeDeviceId d"
  shows "bc_status r \<noteq> C_PENDING"
proof -
  have "keyed w" "nothing_pending_if_revoked w" using assms(2,3) by (simp_all add: keyed_def nothing_pending_if_revoked_def)
  with assms show ?thesis using run_nothing_pending[OF assms(1)] by (auto simp: nothing_pending_if_revoked_def)
qed

text \<open>C25.
  A pairing code pairs one device at most: after the transaction that redeemed it, whatever happens, no later
  registration with the code succeeds, with whichever device, secret or clock.\<close>

theorem pairing_code_pairs_once:
  assumes "pair_transaction cr now secret actor registration pairingId w = (Inr device, w1)" "cloud_run cr past events w1 w2"
  shows "\<exists>e. pair_transaction cr now' secret' actor' registration' pairingId w2 = (Inl e, w2)"
  using pair_refused[OF run_consumed[OF assms(2) pair_consumes[OF assms(1)]]] .

text \<open>C26.
  A command reaches its device as it was signed. The envelope that the acknowledgement answers, after whatever
  transactions came between, is the one that queueing answered, its payload is the queued one up to the order of JSON
  fields (which a \<open>Json\<close> column does not keep), and \<open>validateBridgeCommandForDevice\<close> allows it until it expires, unless the
  device knows the replay key or calls itself revoked. Both ends use the same \<open>localeCompare\<close>, a total order of
  the strings, and the same signing secret: with two locales a fresh command can be refused (C29). The JSON
  values have each key once, the idempotency key is new, and \<open>toISOString\<close> can be read back. The shipped Bridge does
  not call this validation, only the tests do.\<close>

theorem delivered_command_validates:
  assumes time: "\<And>t. cr_time cr (cr_iso cr t) = Some t" and keyed: "keyed w"
    and collated: "collation (cr_lc cr)"
    and jsonb: "\<And>v x. well_keyed v \<Longrightarrow> w_jsonb w v = Some x \<Longrightarrow> same_json v x"
    and once: "well_keyed (coalesce (cc_payload input) (JObj []))" "well_keyed (coalesce (cc_authorizationContext input) (JObj []))"
    and create: "createBridgeCloudCommand cr cf clock u1 u2 input w = (Inr e, w1)"
    and fresh: "\<forall>r \<in> set (w_commands w). bc_idempotencyKey r \<noteq> env_idempotencyKey e"
    and run: "cloud_run cr past events w1 w2"
    and acknowledge: "acknowledgeBridgeCloudCommand cr now device (env_commandId e) key w2 = (Inr e', w3)"
    and secret: "bridgeCommandSigningSecret cf = Inr secret"
    and live: "status \<noteq> DEV_REVOKED" "later < coalesce (cc_expiresAt_in input) (clock + 300000)"
      "createBridgeCommandReplayKey e \<notin> seen"
  shows "e' = e \<and> same_json (coalesce (cc_payload input) (JObj [])) (env_payload e') \<and>
    validateBridgeCommandForDevice cr seen status e' device later secret = COMMAND_ALLOWED"
proof -
  obtain row ci ctx payload where row: "row \<in> set (w_commands w1)" "commandEnvelopeFromRow cr row = e" "bc_commandId row = env_commandId e"
      "bc_bridgeDeviceId row = env_bridgeDeviceId e"
    and e: "e = stored_envelope (createBridgeCommandEnvelope cr clock u1 u2 ci) ctx payload" and ci: "ci_signingSecret ci = secret"
      "ci_expiresAt ci = cc_expiresAt_in input" "ci_issuedAt ci = None" "ci_bridgeDeviceId ci = env_bridgeDeviceId e"
      "ci_payload ci = Some (coalesce (cc_payload input) (JObj []))" "well_keyed (coalesce (ci_authorizationContext ci) (JObj []))"
    and stored: "w_jsonb w (coalesce (ci_authorizationContext ci) (JObj [])) = Some ctx"
      "w_jsonb w (coalesce (cc_payload input) (JObj [])) = Some payload"
    using created_row[OF time create fresh secret once(2)] by blast
  have w1: "w1 = snd (createBridgeCloudCommand cr cf clock u1 u2 input w)" using create by simp
  have keyed1: "keyed w1" unfolding w1 by (rule step_keyed[OF cloud_step.queued keyed])
  obtain row' where row': "acknowledge_transaction now device (env_commandId e) key w2 = (Inr row', w3)" "e' = commandEnvelopeFromRow cr row'"
    using acknowledge by (auto simp: acknowledgeBridgeCloudCommand_def split: prod.splits sum.splits if_splits)
  have run3: "cloud_run cr past (events @ [Other]) w1 w3"
    using cloud_run.more[OF run cloud_step.acknowledged[of cr _ w2 now device "env_commandId e" key]] row'(1) by simp
  note acked = acknowledged_row[OF row'(1) run_keyed[OF run keyed1]]
  have same: "queued_row row' = queued_row row"
    using run_binding[OF run3 keyed1 row(1) acked(1)] acked(2) row(3) by simp
  then have e': "e' = e" using queued_row_fields(4)[of row' row cr] row(2) row'(2) by simp
  have device: "ci_bridgeDeviceId ci = device" using queued_row_fields(2)[OF same] acked(3) row(4) ci(4) by simp
  let ?c = "createBridgeCommandEnvelope cr clock u1 u2 ci"
  have key: "createBridgeCommandReplayKey e = ci_bridgeDeviceId ci @ '':'' @ coalesce (ci_commandId ci) u1 @ '':'' @ coalesce (ci_idempotencyKey ci) u2"
    by (simp add: e stored_envelope_def createBridgeCommandReplayKey_def createBridgeCommandEnvelope_def Let_def unsigned_envelope.defs)
  have signed: "env_authorizationContext ?c = coalesce (ci_authorizationContext ci) (JObj [])" "env_payload ?c = coalesce (cc_payload input) (JObj [])"
    using ci(5) by (simp_all add: createBridgeCommandEnvelope_def Let_def unsigned_envelope.defs coalesce_def)
  have payload: "same_json (coalesce (cc_payload input) (JObj [])) payload" by (rule jsonb[OF once(1) stored(2)])
  have "validateBridgeCommandForDevice cr seen status e device later secret = validateBridgeCommandForDevice cr seen status ?c device later secret"
    unfolding e by (rule stored_verdict[OF collated]) (use signed ci(6) once(1) payload jsonb[OF ci(6) stored(1)] in simp_all)
  moreover have "validateBridgeCommandForDevice cr seen status ?c device later secret = COMMAND_ALLOWED"
    using created_verdict[OF time, of seen status clock u1 u2 ci device later] live key ci(1-3) device by (simp add: coalesce_def split: option.splits)
  ultimately show ?thesis using e' payload by (simp add: e stored_envelope_def)
qed

section \<open>A sample\<close>

definition sample_device :: device_row where
  "sample_device = \<lparr>cd_bridgeDeviceId = ''d'', cd_deviceDisplayName = ''Mac'', cd_platform = ''MACOS'', cd_architecture = ''arm64'',
     cd_appVersion = ''1'', cd_publicKey = ''PUBLIC KEY'', cd_pairedAt = Some 0, cd_lastSeenAt = None, cd_revokedAt = None,
     cd_status = ONLINE\<rparr>"

definition sample_running :: command_row where
  "sample_running = \<lparr>bc_commandId = ''c'', bc_bridgeDeviceId = ''d'', bc_connectedLibraryId = None, bc_bridgeRootId = None,
     bc_commandType = EXECUTE_PLAN, bc_status = C_ACKNOWLEDGED, bc_issuedAt = 0, bc_expiresAt = 5, bc_authorizationContext = JNull,
     bc_payload = JNull, bc_payloadHash = [], bc_idempotencyKey = ''k'', bc_signature = [], bc_acknowledgedAt = Some 1,
     bc_completedAt = None, bc_result = None, bc_safeErrorCategory = None\<rparr>"

definition sample_code :: code_row where
  "sample_code = \<lparr>cc_id = ''p'', cc_codeHash = ''A'', cc_codeSuffix = ''A'', cc_requestedByUserId = ''u'', cc_status = CODE_ACTIVE,
     cc_expiresAt = 9, cc_consumedAt = None, cc_pairedDeviceId = None, cc_attemptCount = 0\<rparr>"

text \<open>A column that gives the fields of an object back in reverse.\<close>

definition reversed_fields :: "json \<Rightarrow> json option" where
  "reversed_fields v = Some (case v of JObj fs \<Rightarrow> JObj (rev fs) | _ \<Rightarrow> v)"

lemma reversed_same: "reversed_fields v = Some x \<Longrightarrow> same_json v x"
proof (cases v)
  case (JObj fs)
  assume "reversed_fields v = Some x"
  moreover have "list_all2 (\<lambda>f g. fst f = fst g \<and> same_json (snd f) (snd g)) fs fs"
    by (rule list_all2_refl) (simp add: same_atom)
  then have "same_json (JObj fs) (JObj (rev fs))" by (rule same_obj) simp
  ultimately show ?thesis using JObj by (simp add: reversed_fields_def)
qed (auto simp: reversed_fields_def same_atom)

definition sample_cloud :: "command_row list \<Rightarrow> cloud" where
  "sample_cloud rows = \<lparr>w_devices = [sample_device], w_libraries = [], w_codes = [sample_code], w_commands = rows, w_scans = [],
     w_runs = [], w_runActions = [], w_undoRuns = [], w_undoActions = [], w_observations = [], w_audit = [],
     w_jsonb = reversed_fields\<rparr>"

definition sample_registration :: registration_request where
  "sample_registration = \<lparr>rg_appVersion = ''1'', rg_architecture = ''x'', rg_bridgeDeviceId = ''e'', rg_deviceDisplayName = ''n'',
     rg_pairingCode = ''a'', rg_platform = ''MACOS'', rg_publicKey = ''PUBLIC KEY''\<rparr>"

definition sample_config :: cloud_config where
  "sample_config = \<lparr>cf_pairingSecret = None, cf_signingSecret = Some ''s'', cf_production = True\<rparr>"

definition sample_select :: cloud_command_input where
  "sample_select = \<lparr>cc_authorizationContext = None, cc_bridgeDeviceId = ''d'', cc_bridgeRootId = None, cc_commandType = SELECT_FOLDERS,
     cc_connectedLibraryId = None, cc_expiresAt_in = Some 9, cc_idempotencyKey = None,
     cc_payload = Some (JObj [(''zone'', JNum 1), (''type'', JNum 2)])\<rparr>"

lemma sample_keyed: "keyed (sample_cloud [])" "keyed (sample_cloud [sample_running])"
  by (simp_all add: keyed_def sample_cloud_def)

definition sample_scanning :: command_row where
  "sample_scanning = sample_running\<lparr>bc_commandId := ''s'', bc_idempotencyKey := ''l'', bc_commandType := SCAN_LIBRARY\<rparr>"

lemma sample_selection: "expired_acknowledged 7 None (sample_cloud [sample_running, sample_scanning]) = [''s'']"
  by code_simp

lemma sample_expires:
  "map bc_status (w_commands (expire_acknowledged 7 ''s'' (sample_cloud [sample_running, sample_scanning]))) = [C_ACKNOWLEDGED, C_EXPIRED]"
  by code_simp

theorem acknowledged_physical_survives_witness:
  "sample_running \<in> set (w_commands (expire_acknowledged 7 ''s'' (sample_cloud [sample_running, sample_scanning])))"
proof (rule acknowledged_physical_survives)
  let ?w = "sample_cloud [sample_running, sample_scanning]"
  show "cloud_run sample_platform [] ([] @ [Selected 7 (expired_acknowledged 7 None ?w)]) ?w ?w"
    by (rule cloud_run.more[OF cloud_run.start cloud_step.selected])
  show "cloud_run sample_platform ([] @ [Selected 7 (expired_acknowledged 7 None ?w)]) ([] @ [Other]) ?w (expire_acknowledged 7 ''s'' ?w)"
    by (rule cloud_run.more[OF cloud_run.start], rule cloud_step.expired[where now = 7 and ids = "[''s'']"])
      (simp_all add: sample_selection)
qed (simp_all add: keyed_def sample_cloud_def settled_row_def physical_def sample_running_def sample_scanning_def)

definition sample_queued :: "(cloud_error, command_envelope) result \<times> cloud" where
  "sample_queued = createBridgeCloudCommand sample_platform sample_config 1 ''c1'' ''i1'' sample_select (sample_cloud [])"

definition sample_revoked :: cloud where
  "sample_revoked = snd (revokeBridgeDevice sample_platform 2 ''d'' (snd sample_queued))"

lemma sample_queued_ok: "fst sample_queued = Inr (stored_envelope (createBridgeCommandEnvelope sample_platform 1 ''c1'' ''i1''
    \<lparr>ci_authorizationContext = Some (JObj []), ci_bridgeDeviceId = ''d'', ci_bridgeRootId = None, ci_commandId = None,
     ci_commandType = SELECT_FOLDERS, ci_connectedLibraryId = None, ci_expiresAt = Some 9, ci_idempotencyKey = None,
     ci_issuedAt = None, ci_payload = Some (JObj [(''zone'', JNum 1), (''type'', JNum 2)]), ci_signingSecret = ''s''\<rparr>)
    (JObj []) (JObj [(''type'', JNum 2), (''zone'', JNum 1)]))"
  by code_simp

lemma sample_revoked_rows:
  "map bc_bridgeDeviceId (w_commands sample_revoked) = [''d'']"
  by code_simp

lemma sample_revoked_devices: "w_devices sample_revoked = [sample_device\<lparr>cd_revokedAt := Some 2, cd_status := DEV_REVOKED\<rparr>]"
  by code_simp

lemma sample_revoked_run: "cloud_run sample_platform [] [Other, Other] (sample_cloud []) sample_revoked"
proof -
  have "cloud_run sample_platform [] ([] @ [Other]) (sample_cloud []) (snd sample_queued)"
    unfolding sample_queued_def by (rule cloud_run.more[OF cloud_run.start cloud_step.queued])
  from cloud_run.more[OF this cloud_step.revoked] show ?thesis unfolding sample_revoked_def by simp
qed

theorem revoked_device_has_nothing_pending_witness:
  "w_commands sample_revoked \<noteq> [] \<and> bc_status (hd (w_commands sample_revoked)) \<noteq> C_PENDING"
proof
  show some: "w_commands sample_revoked \<noteq> []" using sample_revoked_rows by auto
  have "map bc_bridgeDeviceId (w_commands sample_revoked) ! 0 = ''d''" using sample_revoked_rows by simp
  with some have "bc_bridgeDeviceId (hd (w_commands sample_revoked)) = ''d''" by (simp add: hd_conv_nth)
  with some show "bc_status (hd (w_commands sample_revoked)) \<noteq> C_PENDING"
    by (intro revoked_device_has_nothing_pending[OF sample_revoked_run])
      (auto simp: sample_revoked_devices device_revoked_def, simp_all add: sample_cloud_def sample_device_def)
qed

definition sample_paired :: "(cloud_error, device_summary) result \<times> cloud" where
  "sample_paired = pair_transaction sample_platform 1 ''s'' ''u'' sample_registration ''p'' (sample_cloud [])"

lemma sample_pairs: "fst sample_paired = Inr (deviceSummary sample_platform
    \<lparr>cd_bridgeDeviceId = ''e'', cd_deviceDisplayName = ''n'', cd_platform = ''MACOS'', cd_architecture = ''x'', cd_appVersion = ''1'',
     cd_publicKey = ''PUBLIC KEY'', cd_pairedAt = Some 1, cd_lastSeenAt = None, cd_revokedAt = None, cd_status = PAIRED\<rparr>)"
  by code_simp

theorem pairing_code_pairs_once_witness:
  "\<exists>e. pair_transaction sample_platform 1 ''s'' ''u'' sample_registration ''p'' (snd sample_paired) = (Inl e, snd sample_paired)"
proof (rule pairing_code_pairs_once)
  show "pair_transaction sample_platform 1 ''s'' ''u'' sample_registration ''p'' (sample_cloud []) = (Inr (deviceSummary sample_platform
    \<lparr>cd_bridgeDeviceId = ''e'', cd_deviceDisplayName = ''n'', cd_platform = ''MACOS'', cd_architecture = ''x'', cd_appVersion = ''1'',
     cd_publicKey = ''PUBLIC KEY'', cd_pairedAt = Some 1, cd_lastSeenAt = None, cd_revokedAt = None, cd_status = PAIRED\<rparr>), snd sample_paired)"
    using sample_pairs unfolding sample_paired_def by (simp add: prod_eq_iff)
qed (rule cloud_run.start)

definition sample_acknowledged :: "(cloud_error, command_envelope) result \<times> cloud" where
  "sample_acknowledged = acknowledgeBridgeCloudCommand sample_platform 2 ''d'' ''c1'' None (snd sample_queued)"

lemma sample_acknowledged_ok: "case fst sample_acknowledged of Inl e \<Rightarrow> False | Inr e \<Rightarrow> True"
  by code_simp

theorem delivered_command_validates_witness:
  "\<exists>e. fst sample_acknowledged = Inr e \<and> env_payload e \<noteq> JObj [(''zone'', JNum 1), (''type'', JNum 2)] \<and> validateBridgeCommandForDevice sample_platform {} ONLINE e ''d'' 3 ''s'' = COMMAND_ALLOWED"
proof -
  obtain e where e: "fst sample_queued = Inr e" "env_commandId e = ''c1''" "env_payload e = JObj [(''type'', JNum 2), (''zone'', JNum 1)]"
    unfolding sample_queued_ok by (simp add: stored_envelope_def createBridgeCommandEnvelope_def Let_def unsigned_envelope.defs)
  obtain e' where e': "fst sample_acknowledged = Inr e'" using sample_acknowledged_ok by (auto split: sum.splits)
  have "e' = e \<and> same_json (coalesce (cc_payload sample_select) (JObj [])) (env_payload e') \<and>
      validateBridgeCommandForDevice sample_platform {} ONLINE e' ''d'' 3 ''s'' = COMMAND_ALLOWED"
  proof (rule delivered_command_validates[OF _ sample_keyed(1)])
    show "cr_time sample_platform (cr_iso sample_platform t) = Some t" for t by (simp add: sample_platform_def read_dec_int)
    show "createBridgeCloudCommand sample_platform sample_config 1 ''c1'' ''i1'' sample_select (sample_cloud []) = (Inr e, snd sample_queued)"
      using e unfolding sample_queued_def by (simp add: prod_eq_iff)
    show "acknowledgeBridgeCloudCommand sample_platform 2 ''d'' (env_commandId e) None (snd sample_queued) = (Inr e', snd sample_acknowledged)"
      using e' unfolding sample_acknowledged_def e(2) by (simp add: prod_eq_iff)
    show "bridgeCommandSigningSecret sample_config = Inr ''s''" by code_simp
    show "collation (cr_lc sample_platform)" using sample_collations(1) by (simp add: sample_platform_def)
    show "same_json v x" if "w_jsonb (sample_cloud []) v = Some x" for v x
      using that by (simp add: sample_cloud_def reversed_same)
    show "cloud_run sample_platform [] [] (snd sample_queued) (snd sample_queued)" by (rule cloud_run.start)
  qed (simp_all add: sample_cloud_def sample_select_def)
  with e' e(3) show ?thesis by auto
qed

section \<open>Signed requests\<close>

definition attempt_nonces :: "(string \<Rightarrow> string) \<Rightarrow> (int \<times> string \<times> string) list \<Rightarrow> nonce_row list option \<Rightarrow> nonce_row list option" where
  "attempt_nonces sha attempts table =
     foldl (\<lambda>table (at, d, nonce). snd (consumeBridgeRequestNonce sha at d nonce table)) table attempts"

definition nonce_kept :: "(string \<Rightarrow> string) \<Rightarrow> int \<Rightarrow> string \<Rightarrow> string \<Rightarrow> nonce_row list option \<Rightarrow> bool" where
  "nonce_kept sha until d nonce table \<longleftrightarrow>
     (\<exists>n \<in> set (coalesce table []). nr_nonceHash n = nonce_hash sha d nonce \<and> until \<le> nr_expiresAt n)"

lemma consume_keeps:
  "nonce_kept sha until d nonce table \<Longrightarrow> at < until \<Longrightarrow> nonce_kept sha until d nonce (snd (consumeBridgeRequestNonce sha at d' nonce' table))"
  by (auto simp: nonce_kept_def consumeBridgeRequestNonce_def deleteExpiredBridgeRequestNonces_def Let_def coalesce_def)

lemma attempts_keep:
  "nonce_kept sha until d nonce table \<Longrightarrow> list_all (\<lambda>(at, _). at < until) attempts \<Longrightarrow>
    nonce_kept sha until d nonce (attempt_nonces sha attempts table)"
  unfolding attempt_nonces_def by (induction attempts arbitrary: table) (auto intro: consume_keeps)

lemma consume_refuses:
  "nonce_kept sha until d nonce table \<Longrightarrow> at < until \<Longrightarrow>
    fst (consumeBridgeRequestNonce sha at d nonce table) = Inl (CloudError 409 ''REQUEST_REPLAYED'')"
  by (auto simp: nonce_kept_def consumeBridgeRequestNonce_def deleteExpiredBridgeRequestNonces_def Let_def list_ex_iff coalesce_def split: option.splits)

lemma consume_stores:
  "consumeBridgeRequestNonce sha at d nonce table = (Inr (), table') \<Longrightarrow> nonce_kept sha (at + nonceRetentionMs) d nonce table'"
  by (auto simp: nonce_kept_def consumeBridgeRequestNonce_def Let_def coalesce_def split: if_splits)

lemma authenticated_parts:
  assumes "authenticateBridgeDeviceRequest cr verify now later d allow rq w table = (Inr device, table')"
  shows "check_device_request cr verify now d allow rq w = Inr device"
    "consumeBridgeRequestNonce (cr_sha cr) later d (coalesce (dr_nonce rq) []) table = (Inr (), table')"
  using assms by (auto simp: authenticateBridgeDeviceRequest_def split: sum.splits prod.splits)

text \<open>C27.
  A signed request is accepted once while its nonce is kept: whatever other requests were checked in between, within ten
  minutes of the acceptance every request of the device with that nonce is refused, a replay with a valid
  signature as REQUEST_REPLAYED.\<close>

theorem request_accepted_once:
  assumes "authenticateBridgeDeviceRequest cr verify now later d allow rq w table = (Inr device, table1)"
    and "list_all (\<lambda>(at, _). at < later + nonceRetentionMs) attempts" "later2 < later + nonceRetentionMs"
    and "dr_nonce rq2 = dr_nonce rq"
  shows "\<exists>e. fst (authenticateBridgeDeviceRequest cr verify now2 later2 d allow2 rq2 w2 (attempt_nonces (cr_sha cr) attempts table1)) = Inl e \<and>
    (check_device_request cr verify now2 d allow2 rq2 w2 = Inr device2 \<longrightarrow> e = CloudError 409 ''REQUEST_REPLAYED'')"
proof (cases "check_device_request cr verify now2 d allow2 rq2 w2")
  case (Inr device')
  have "fst (consumeBridgeRequestNonce (cr_sha cr) later2 d (coalesce (dr_nonce rq2) []) (attempt_nonces (cr_sha cr) attempts table1)) =
      Inl (CloudError 409 ''REQUEST_REPLAYED'')"
    unfolding assms(4)
    by (rule consume_refuses[OF attempts_keep[OF consume_stores[OF authenticated_parts(2)[OF assms(1)]] assms(2)] assms(3)])
  then show ?thesis using Inr by (auto simp: authenticateBridgeDeviceRequest_def split: prod.splits)
qed (simp add: authenticateBridgeDeviceRequest_def)

text \<open>C40.
  The nonce is kept for twice the clock skew and not a moment longer: a request whose timestamp lies five minutes ahead
  when it is accepted is accepted again, unchanged, five minutes after its timestamp. At that moment the timestamp still
  counts as fresh and the nonce has just been deleted.\<close>

theorem replay_at_window_end:
  assumes "authenticateBridgeDeviceRequest cr verify (t - 300000) (t - 300000) d allow rq w table = (Inr device, table1)"
    and "present (dr_timestamp rq) = Some ts" "cr_time cr ts = Some t"
  shows "\<exists>table2. authenticateBridgeDeviceRequest cr verify (t + 300000) (t + 300000) d allow rq w table1 = (Inr device, table2)"
proof -
  note parts = authenticated_parts[OF assms(1)]
  have "check_device_request cr verify (t + 300000) d allow rq w = Inr device"
    using parts(1) assms(2,3)
    by (auto simp: check_device_request_def bridgeRequestTimestampIsFresh_def bridgeRequestMaxClockSkewMs_def split: option.splits if_splits)
  moreover have "\<exists>table2. consumeBridgeRequestNonce (cr_sha cr) (t + 300000) d (coalesce (dr_nonce rq) []) table1 = (Inr (), table2)"
  proof -
    let ?h = "nonce_hash (cr_sha cr) d (coalesce (dr_nonce rq) [])"
    from parts(2) have kept: "\<not> list_ex (\<lambda>n. nr_nonceHash n = ?h) (deleteExpiredBridgeRequestNonces (t - 300000) (coalesce table []))"
      and table1: "table1 = Some (deleteExpiredBridgeRequestNonces (t - 300000) (coalesce table []) @
        [\<lparr>nr_bridgeDeviceId = d, nr_nonceHash = ?h, nr_expiresAt = t - 300000 + nonceRetentionMs\<rparr>])"
      by (simp_all add: consumeBridgeRequestNonce_def Let_def split: if_splits)
    have "\<not> list_ex (\<lambda>n. nr_nonceHash n = ?h) (deleteExpiredBridgeRequestNonces (t + 300000) (coalesce table1 []))"
      using kept unfolding table1 by (auto simp: coalesce_def deleteExpiredBridgeRequestNonces_def nonceRetentionMs_def list_ex_iff)
    then show ?thesis by (simp add: consumeBridgeRequestNonce_def Let_def)
  qed
  ultimately show ?thesis by (auto simp: authenticateBridgeDeviceRequest_def)
qed

definition sample_request :: device_request where
  "sample_request = \<lparr>dr_deviceHeader = Some ''d'', dr_nonce = Some ''aaaaaaaaaaaaaaaaaaaaaaaa'', dr_signature = Some ''s'',
     dr_timestamp = Some (dec_int 300000), dr_method = ''GET'', dr_pathname = ''p'', dr_bodyText = []\<rparr>"

definition sample_verify :: "string \<Rightarrow> string \<Rightarrow> string \<Rightarrow> bool option" where
  "sample_verify key text signature = Some True"

definition sample_authenticated :: "int \<Rightarrow> nonce_row list option \<Rightarrow> (cloud_error, device_row) result \<times> nonce_row list option" where
  "sample_authenticated at table =
     authenticateBridgeDeviceRequest sample_platform sample_verify at at ''d'' False sample_request (sample_cloud []) table"

lemma sample_time: "cr_time sample_platform (dec_int 300000) = Some 300000"
  by (simp add: sample_platform_def read_dec_int)

lemma sample_accepted: "fst (sample_authenticated 0 None) = Inr sample_device"
proof -
  have "check_device_request sample_platform sample_verify 0 ''d'' False sample_request (sample_cloud []) = Inr sample_device"
    by (simp add: check_device_request_def sample_request_def present_def sample_time bridgeRequestTimestampIsFresh_def
      bridgeRequestMaxClockSkewMs_def find_device_def sample_cloud_def sample_device_def device_revoked_def
      verifyBridgeDeviceRequestSignature_def sample_verify_def coalesce_def)
  then show ?thesis
    by (simp add: sample_authenticated_def authenticateBridgeDeviceRequest_def consumeBridgeRequestNonce_def
      deleteExpiredBridgeRequestNonces_def coalesce_def)
qed

lemma sample_accepted_eq: "sample_authenticated 0 None = (Inr sample_device, snd (sample_authenticated 0 None))"
  using sample_accepted by (simp add: prod_eq_iff)

theorem request_accepted_once_witness:
  "\<exists>e. fst (sample_authenticated 5 (attempt_nonces (cr_sha sample_platform) [(3, ''d'', ''n'')] (snd (sample_authenticated 0 None)))) = Inl e"
proof -
  have "authenticateBridgeDeviceRequest sample_platform sample_verify 0 0 ''d'' False sample_request (sample_cloud []) None =
      (Inr sample_device, snd (sample_authenticated 0 None))"
    using sample_accepted_eq by (simp only: sample_authenticated_def)
  then have "\<exists>e. fst (authenticateBridgeDeviceRequest sample_platform sample_verify 5 5 ''d'' False sample_request (sample_cloud [])
        (attempt_nonces (cr_sha sample_platform) [(3, ''d'', ''n'')] (snd (sample_authenticated 0 None)))) = Inl e \<and>
      (check_device_request sample_platform sample_verify 5 ''d'' False sample_request (sample_cloud []) = Inr sample_device \<longrightarrow>
        e = CloudError 409 ''REQUEST_REPLAYED'')"
    by (rule request_accepted_once) (simp_all add: nonceRetentionMs_def)
  then show ?thesis by (auto simp: sample_authenticated_def[of 5])
qed

theorem replay_at_window_end_witness:
  "\<exists>table2. sample_authenticated 600000 (snd (sample_authenticated 0 None)) = (Inr sample_device, table2)"
proof -
  have "authenticateBridgeDeviceRequest sample_platform sample_verify (300000 - 300000) (300000 - 300000) ''d'' False sample_request
      (sample_cloud []) None = (Inr sample_device, snd (sample_authenticated 0 None))"
    using sample_accepted_eq by (simp add: sample_authenticated_def)
  moreover have "present (dr_timestamp sample_request) = Some (dec_int 300000)" by (simp add: sample_request_def present_def)
  ultimately show ?thesis
    using replay_at_window_end[OF _ _ sample_time] by (simp add: sample_authenticated_def[of 600000])
qed

end
