(* ===== verification/Spec2Isabelle.thy ===== *)
theory Spec2Isabelle
  imports ScannerFacts WatcherFacts ProtocolFacts CommandReports VersionFacts PlanSafety PlanLife DuplicateFacts CloudFacts
begin

text \<open>
  NSN Librarian: a web application that suggests how to organise the files of connected folders, and a Bridge, a
  desktop program that owns the folders and is the only part that touches files. This library models the parts in
  which an error loses or misplaces a file, lets a request do what nobody authorised, or counts wrongly, and proves
  what makes them correct. Paths below are relative to the root of the repository.

  How the parts meet. The web application turns suggestions into a plan whose actions a person selects and approves,
  and queues signed commands for a paired device. The Bridge fetches the commands, checks their device, expiry and
  payload hash, and runs each of them or recovers what was begun. Execution and undo journal every physical action
  before they touch a file, resolve every path inside its connected folder and move without replacement. A scanner and
  a watcher observe the folders and report back through durable outboxes.

  Prelude, BridgeTypes: strings, stable sorting, insertion-ordered maps, results as sums; the records, error codes and
  permissions of the Bridge (\<open>bridge-app/src/types\<close>, \<open>permissions\<close>). Every raise of the
  sources is a left value. A local file is written as \<open>local-json-store.ts\<close> does it
  (\<open>write_end\<close>): saved, renamed but not synced, which throws although the file has changed, or not
  written.

  JsPath, FileSystem, PathSafety: \<open>path.posix\<close>, an abstract disk with symbolic links, and
  \<open>bridge-app/src/filesystem/safety.ts\<close>. Shown: a resolved path stays inside the real root, links
  included, and so does the real parent of a destination that does not exist yet; Bridge URIs round-trip. The calls of
  \<open>realpath\<close> of one resolution see one state of the disk.

  Registry (\<open>bridge-app/src/main/registry.ts\<close>): the connected folders, each operation as the body of its
  lock. Shown: the invariant of the stored registry, and that a selection token registers once.

  Effects, SafeMove, MoveSafety (\<open>filesystem/safe-move.ts\<close>): every system call is a step of a world whose
  schedule may interfere, fail or kill the process between any two steps. Shown: at every point, on every schedule,
  the moved content exists under a name, and an undisturbed move renames one name and nothing else. The bytes of a
  file are read and hashed in one step, and permission bits are left out.

  Journal, JournalSafety, JournalFacts (\<open>filesystem/physical-journal.ts\<close>): journaled moves, folders and
  removals over the same world. Shown: a move loses nothing; the removal of a folder keeps every file and every
  directory except the one that it created, is recorded or made as a container; an entry that differs in any compared
  field is refused before any effect; recovery makes no name that the action had not planned.

  Operations, OperationsFacts (\<open>filesystem/operations.ts\<close>): preview, execution and undo of a plan. Shown:
  an execution whose action ids differ runs an ordered prefix of its actions; what the status COMPLETED of a run
  means, which is less than that the plan was carried out (a finding).

  Watcher, WatcherFacts, EventOutbox (\<open>bridge-app/src/watcher\<close>): handles, timers and restarts, cut at
  their waits into steps that interleave, and the outbox of events. A timer that fires leaves a task that classifies
  the change, and that one a task that queues the event, so a stop can fall between them. Shown: stopping is final,
  the outbox keeps the newest events and a damaged file; a handle that an overlapping start has hidden is stopped by
  nothing, and a start can connect a disconnected root again (findings).

  Scanner, ScannerFacts (\<open>filesystem/scanner.ts\<close>, \<open>filesystem/resolver.ts\<close>): both walks of a
  scan and the description of a file. Shown: only visible entries inside the root are published, each seen by both
  walks with one native identity, and a checksum is that of a file that stood still while it was read.

  Auth, Protocol, CanonicalJson, ProtocolFacts (\<open>bridge-app/src/security\<close>,
  \<open>packages/bridge-protocol/src\<close>): pairing secrets, canonical JSON, signed command envelopes and device
  requests, pairing codes, release manifests. Shown: signatures bind every field of a command, canonical JSON
  identifies values exactly, what the validation of the package answers, which the tests call and the shipped Bridge
  does not (a finding); the payload hash depends on the locale of the host (a finding).

  CommandRunner, CommandRunnerFacts, CommandReports (\<open>apps/bridge/src/main\<close>): the command loop of the
  device with crashes and lost answers at every step, its journal and its report outbox. Shown: a physical command
  begins once while its journal keeps it, attempts are accounted for, pending reports are delivered, reports hide
  private path fields, the replay cache holds the 500 newest keys; the ghost field \<open>dv_remembered\<close>
  records all keys ever given to it. A command offered again after its history was dropped runs again (a finding).

  VersionIndex, BinaryIndexed, VersionFacts (\<open>src/lib/bridge/document-version-index.ts\<close>): dates and
  revisions of documents, the sweep with a binary indexed tree. Shown: the loops end, the tree refines a multiset of
  ranks, the counts are those of the pairwise comparison.

  Planner, PlannerFacts, PlanSafety, PlanStore, PlanLife (\<open>src/lib/bridge/planner.ts\<close> and what it calls):
  suggestions become actions, a selection is checked and ordered, and the row of a plan lives through approval,
  cancellation and claim under concurrent requests. Shown: a saved selection has distinct sources and destinations
  inside the folder and every folder it needs before it is used, a plan that is ready has a selection, rows are typed,
  a refused write changes nothing. The histories (\<open>plan_states\<close>) interleave the planning requests with
  admissions, reported outcomes (\<open>remote-execution.ts\<close>), recovered ones
  (\<open>local-physical-recovery.ts\<close>) and suggestion resets (\<open>organization-suggestions.ts\<close>), with
  any clock; the first of these needs that no change of a row's actions falls into the millisecond of the write before
  it (\<open>stamps_advance\<close>), and without that an approval makes a plan without a selection ready (a finding).

  PhysicalFiles, UnionFind, PhysicalFacts, DuplicateFacts (\<open>physical-file-identity.ts\<close>,
  \<open>physical-file-index.ts\<close>, \<open>checksum-duplicates.ts\<close> in \<open>src/lib/bridge\<close>): when
  two rows are one file, the classes of rows by disjoint sets, and the target of a duplicate. Shown: the classes are
  exactly those of the relation that shared roots and paths generate, one file is never in two classes, and the
  bounded search for a target finds what the full search finds.

  CloudCommands, CloudCoordinator, CloudQueue, CloudSteps, DeviceAuth, CloudFacts
  (\<open>cloud-coordinator.ts\<close>, \<open>command-lifecycle.ts\<close>, \<open>device-request-auth.ts\<close> in
  \<open>src/lib/bridge\<close>): the command queue, its devices and pairing codes, every transaction a step that
  interleaves with the others and with what other modules write, and the check of signed requests. The commands that
  expire are those an earlier query selected: a step carries the events before it (\<open>past\<close>). JSON columns
  may reorder the keys of what they store (\<open>w_jsonb\<close>). Shown: acknowledged physical work keeps its row
  until its report, a revoked device has nothing waiting, a code pairs once, a command reaches its device as it was
  signed and would validate there under one locale and secret, a nonce is accepted once while it is kept; at the very
  end of the window a request can be replayed (a finding).

  Bounds and fuel. The scanner recurses to a given depth and answers ENAMETOOLONG below it, as the operating system
  does; loops over system calls consume the schedule, which is arbitrary; loops without a structural measure are
  partial functions whose results are proved to exist (the disjoint sets) or functions with their measures (the
  indexed tree). Strings are lists of code units below 256; integers of the sources are exact in the range they use,
  as noted where they occur.

  Parameters. Node's digests, message authentication codes and signature scheme, \<open>localeCompare\<close>, the URL
  constructor and the reading and writing of dates are arguments of the definitions that use them; what a theorem
  needs of them is a hypothesis. System calls and requests of others are steps of the schedule or of the environment.

  Not modelled. Text, image, audio and video extraction around third-party parsers and tools; the HTTP servers and the
  Electron shell, which only move requests to the operations above; native folder pickers; the heuristic scoring and
  wording of suggestions and everything that asks a language model; the database transactions in which the web
  application records the results of executions, undos, scans and watched changes; knowledge, library and memory
  services; pages and components; the database schema. Texts of messages are left out throughout.
\<close>

end
